(* ===== verification/Prelude.thy ===== *)
theory Prelude
  imports Main "HOL-Library.Sublist"
begin

text \<open>
  Shared vocabulary of the development.  Go strings are byte strings, modelled as
  \<open>char list\<close> (a \<open>char\<close> of HOL is a byte), fallible operations return
  \<open>'e + 'a\<close> with \<open>Inl\<close> for the error, and times are integers (microseconds since
  the epoch unless a theory says otherwise).  The theory holds the parts of Go's
  \<open>strings\<close>, \<open>strconv\<close> and \<open>unicode/utf8\<close> packages that the modelled sources call, with
  the generic lemmas about them that the component theories share.
\<close>

named_theorems go_simps \<open>unfolding rules of the modelled standard-library functions\<close>
named_theorems inv_intros \<open>introduction rules: an operation preserves an invariant\<close>

type_synonym byte_string = string
type_synonym time = int

section \<open>Results\<close>

fun is_ok :: "'e + 'a \<Rightarrow> bool" where
  "is_ok (Inr _) = True"
| "is_ok (Inl _) = False"

definition rbind :: "'e + 'a \<Rightarrow> ('a \<Rightarrow> 'e + 'b) \<Rightarrow> 'e + 'b" where
  "rbind r f = (case r of Inl e \<Rightarrow> Inl e | Inr x \<Rightarrow> f x)"

definition ensure :: "bool \<Rightarrow> 'e \<Rightarrow> 'e + unit" where
  "ensure b e = (if b then Inr () else Inl e)"

lemma rbind_simps [simp]:
  "rbind (Inl e) f = Inl e"
  "rbind (Inr x) f = f x"
  by (simp_all add: rbind_def)

lemma rbind_eq_Inr: "rbind r f = Inr y \<longleftrightarrow> (\<exists>x. r = Inr x \<and> f x = Inr y)"
  by (cases r) auto

lemma ensure_eq_Inr [simp]: "ensure b e = Inr u \<longleftrightarrow> b"
  by (simp add: ensure_def)

lemma ensure_eq_Inl [simp]: "ensure b e = Inl e' \<longleftrightarrow> \<not> b \<and> e = e'"
  by (simp add: ensure_def)

lemma is_ok_iff: "is_ok r \<longleftrightarrow> (\<exists>x. r = Inr x)"
  by (cases r) auto

text \<open>A loop that validates every element and stops at the first error.\<close>

fun check_all :: "('a \<Rightarrow> 'e + unit) \<Rightarrow> 'a list \<Rightarrow> 'e + unit" where
  "check_all f [] = Inr ()"
| "check_all f (x # xs) = rbind (f x) (\<lambda>_. check_all f xs)"

lemma check_all_Inr: "check_all f xs = Inr () \<longleftrightarrow> (\<forall>x \<in> set xs. f x = Inr ())"
  by (induction xs) (auto simp: rbind_eq_Inr)

lemma check_all_Inl: "check_all f xs = Inl e \<Longrightarrow> \<exists>x \<in> set xs. f x = Inl e"
proof (induction xs)
  case (Cons x xs)
  then show ?case by (cases "f x") auto
qed simp

section \<open>Strings\<close>

definition has_prefix :: "string \<Rightarrow> string \<Rightarrow> bool" where
  "has_prefix s p \<longleftrightarrow> take (length p) s = p"

definition has_suffix :: "string \<Rightarrow> string \<Rightarrow> bool" where
  "has_suffix s p \<longleftrightarrow> has_prefix (rev s) (rev p)"

definition trim_prefix :: "string \<Rightarrow> string \<Rightarrow> string" where
  "trim_prefix s p = (if has_prefix s p then drop (length p) s else s)"

definition trim_suffix :: "string \<Rightarrow> string \<Rightarrow> string" where
  "trim_suffix s p = (if has_suffix s p then take (length s - length p) s else s)"

fun contains :: "string \<Rightarrow> string \<Rightarrow> bool" where
  "contains [] p \<longleftrightarrow> p = []"
| "contains (c # s) p \<longleftrightarrow> has_prefix (c # s) p \<or> contains s p"

lemma has_prefix_iff: "has_prefix s p \<longleftrightarrow> (\<exists>t. s = p @ t)"
  by (metis has_prefix_def append_eq_conv_conj append_take_drop_id)

lemma has_prefix_prefix: "has_prefix s p \<longleftrightarrow> prefix p s"
  by (simp add: has_prefix_iff prefix_def)

lemma has_prefix_append [simp]: "has_prefix (p @ t) p"
  by (simp add: has_prefix_def)

lemma has_suffix_iff: "has_suffix s p \<longleftrightarrow> (\<exists>t. s = t @ p)"
  unfolding has_suffix_def has_prefix_iff
  by (metis rev_append rev_rev_ident)

lemma trim_prefix_append [simp]: "trim_prefix (p @ t) p = t"
  by (simp add: trim_prefix_def)

lemma contains_iff: "contains s p \<longleftrightarrow> (\<exists>a b. s = a @ p @ b)"
proof (induction s)
  case Nil
  then show ?case by auto
next
  case (Cons c s)
  have "(\<exists>a b. c # s = a @ p @ b) \<longleftrightarrow> (\<exists>b. c # s = p @ b) \<or> (\<exists>a b. s = a @ p @ b)"
    by (metis append_Cons append_Nil list.exhaust list.sel(3) tl_append2)
  then show ?case by (simp add: Cons has_prefix_iff)
qed

text \<open>\<open>strings.Split\<close> with a one-byte separator: never empty, keeps empty parts.\<close>

fun split_on :: "char \<Rightarrow> string \<Rightarrow> string list" where
  "split_on d [] = [[]]"
| "split_on d (c # s) =
     (if c = d then [] # split_on d s
      else (case split_on d s of [] \<Rightarrow> [[c]] | p # ps \<Rightarrow> (c # p) # ps))"

text \<open>\<open>strings.Join\<close>.\<close>

fun join_with :: "string \<Rightarrow> string list \<Rightarrow> string" where
  "join_with d [] = []"
| "join_with d [x] = x"
| "join_with d (x # y # ys) = x @ d @ join_with d (y # ys)"

lemma split_on_nonempty [simp]: "split_on d s \<noteq> []"
  by (induction s) (auto split: list.splits)

lemma join_split: "join_with [d] (split_on d s) = s"
proof (induction s)
  case (Cons c s)
  obtain p ps where s: "split_on d s = p # ps"
    by (metis neq_Nil_conv split_on_nonempty)
  then show ?case using Cons by (cases ps) auto
qed simp

lemma split_on_no_sep: "d \<notin> set s \<Longrightarrow> split_on d s = [s]"
  by (induction s) auto

lemma split_on_parts: "p \<in> set (split_on d s) \<Longrightarrow> d \<notin> set p"
proof (induction s arbitrary: p)
  case (Cons c s)
  then show ?case by (cases "split_on d s") (auto split: if_splits)
qed simp

lemma split_on_append_sep:
  "d \<notin> set p \<Longrightarrow> split_on d (p @ d # s) = p # split_on d s"
  by (induction p) auto

lemma split_join:
  "xs \<noteq> [] \<Longrightarrow> \<forall>x \<in> set xs. d \<notin> set x \<Longrightarrow> split_on d (join_with [d] xs) = xs"
proof (induction "[d]" xs rule: join_with.induct)
  case (2 x)
  then show ?case by (simp add: split_on_no_sep)
next
  case (3 x y ys)
  then show ?case by (simp add: split_on_append_sep)
qed simp

lemma split_on_append:
  "split_on d (a @ d # b) = split_on d a @ split_on d b"
proof (induction a)
  case (Cons c a)
  obtain p ps where "split_on d a = p # ps"
    by (metis neq_Nil_conv split_on_nonempty)
  with Cons show ?case by auto
qed simp

lemma set_split_on: "c \<in> set s \<Longrightarrow> c \<noteq> d \<Longrightarrow> \<exists>p \<in> set (split_on d s). c \<in> set p"
proof (induction s)
  case (Cons a s)
  obtain p ps where "split_on d s = p # ps"
    by (metis neq_Nil_conv split_on_nonempty)
  with Cons show ?case by auto
qed simp

section \<open>Character classes\<close>

definition is_digit :: "char \<Rightarrow> bool" where
  "is_digit c \<longleftrightarrow> 48 \<le> (of_char c :: nat) \<and> (of_char c :: nat) \<le> 57"

definition is_lower :: "char \<Rightarrow> bool" where
  "is_lower c \<longleftrightarrow> 97 \<le> (of_char c :: nat) \<and> (of_char c :: nat) \<le> 122"

definition is_upper :: "char \<Rightarrow> bool" where
  "is_upper c \<longleftrightarrow> 65 \<le> (of_char c :: nat) \<and> (of_char c :: nat) \<le> 90"

definition is_alnum :: "char \<Rightarrow> bool" where
  "is_alnum c \<longleftrightarrow> is_digit c \<or> is_lower c \<or> is_upper c"

definition is_hex_lower :: "char \<Rightarrow> bool" where
  "is_hex_lower c \<longleftrightarrow> is_digit c \<or> (97 \<le> (of_char c :: nat) \<and> (of_char c :: nat) \<le> 102)"

lemmas char_class_defs = is_digit_def is_lower_def is_upper_def is_alnum_def is_hex_lower_def

section \<open>Decimal numerals (\<open>%d\<close>, \<open>strconv.Itoa\<close>)\<close>

fun digit_char :: "nat \<Rightarrow> char" where
  "digit_char n = char_of (48 + n)"

fun nat_dec :: "nat \<Rightarrow> string" where
  "nat_dec n = (if n < 10 then [digit_char n] else nat_dec (n div 10) @ [digit_char (n mod 10)])"

declare nat_dec.simps [simp del]

definition int_dec :: "int \<Rightarrow> string" where
  "int_dec i = (if i < 0 then CHR ''-'' # nat_dec (nat (- i)) else nat_dec (nat i))"

text \<open>The value of a digit string, the left inverse of \<open>nat_dec\<close>.\<close>

definition digit_val :: "char \<Rightarrow> nat" where
  "digit_val c = of_char c - 48"

definition dec_val :: "string \<Rightarrow> nat" where
  "dec_val s = foldl (\<lambda>a c. 10 * a + digit_val c) 0 s"

lemma of_digit_char: "n < 10 \<Longrightarrow> (of_char (digit_char n) :: nat) = 48 + n"
  by simp

lemma digit_val_digit_char: "n < 10 \<Longrightarrow> digit_val (digit_char n) = n"
  by (simp add: digit_val_def)

lemma dec_val_snoc: "dec_val (s @ [c]) = 10 * dec_val s + digit_val c"
  by (simp add: dec_val_def)

lemma dec_val_nat_dec: "dec_val (nat_dec n) = n"
proof (induction n rule: nat_dec.induct)
  case (1 n)
  show ?case
  proof (cases "n < 10")
    case True
    then show ?thesis
      by (subst nat_dec.simps) (simp add: dec_val_def digit_val_digit_char del: digit_char.simps)
  next
    case False
    with 1 have "dec_val (nat_dec (n div 10)) = n div 10" by simp
    with False show ?thesis
      by (subst nat_dec.simps)
        (simp add: dec_val_snoc digit_val_digit_char del: digit_char.simps)
  qed
qed

lemma nat_dec_inj: "nat_dec m = nat_dec n \<Longrightarrow> m = n"
  by (metis dec_val_nat_dec)

lemma is_digit_digit_char: "n < 10 \<Longrightarrow> is_digit (digit_char n)"
  by (simp add: is_digit_def)

lemma nat_dec_digits: "c \<in> set (nat_dec n) \<Longrightarrow> is_digit c"
proof (induction n rule: nat_dec.induct)
  case (1 n)
  show ?case
  proof (cases "n < 10")
    case True
    with 1(2) show ?thesis
      by (subst (asm) nat_dec.simps) (simp add: is_digit_digit_char del: digit_char.simps)
  next
    case False
    have "n mod 10 < 10" by simp
    moreover from False have "nat_dec n = nat_dec (n div 10) @ [digit_char (n mod 10)]"
      by (subst nat_dec.simps) simp
    with 1(2) have "c \<in> set (nat_dec (n div 10)) \<or> c = digit_char (n mod 10)"
      by (auto simp del: digit_char.simps)
    ultimately show ?thesis using False 1(1) is_digit_digit_char by auto
  qed
qed

lemma nat_dec_nonempty [simp]: "nat_dec n \<noteq> []"
  by (subst nat_dec.simps) simp

lemma minus_not_digit: "\<not> is_digit (CHR ''-'')"
  by (simp add: is_digit_def)

lemma int_dec_inj: "int_dec i = int_dec j \<Longrightarrow> i = j"
proof -
  assume eq: "int_dec i = int_dec j"
  have no_minus: "CHR ''-'' # s \<noteq> nat_dec n" for s n
    using nat_dec_digits [of "CHR ''-''" n] minus_not_digit by (metis list.set_intros(1))
  show ?thesis
  proof (cases "i < 0")
    case True
    with eq no_minus have "j < 0"
      by (auto simp: int_dec_def split: if_splits)
    with True eq have "nat (- i) = nat (- j)"
      by (auto simp: int_dec_def dest: nat_dec_inj)
    with True \<open>j < 0\<close> show ?thesis by simp
  next
    case False
    with eq no_minus have "\<not> j < 0"
      by (auto simp: int_dec_def split: if_splits) (metis no_minus)
    with False eq have "nat i = nat j"
      by (auto simp: int_dec_def dest: nat_dec_inj)
    with False \<open>\<not> j < 0\<close> show ?thesis by simp
  qed
qed

lemma int_dec_chars: "c \<in> set (int_dec i) \<Longrightarrow> is_digit c \<or> c = CHR ''-''"
  by (auto simp: int_dec_def dest: nat_dec_digits split: if_splits)

lemma int_dec_nonempty [simp]: "int_dec i \<noteq> []"
  by (simp add: int_dec_def)

section \<open>UTF-8 (\<open>unicode/utf8\<close>)\<close>

definition in_range :: "nat \<Rightarrow> nat \<Rightarrow> char \<Rightarrow> bool" where
  "in_range lo hi c \<longleftrightarrow> lo \<le> of_char c \<and> of_char c \<le> hi"

abbreviation cont_byte :: "char \<Rightarrow> bool" where
  "cont_byte \<equiv> in_range 128 191"

text \<open>
  The number of bytes of the first rune and whether it is well formed, as
  \<open>utf8.DecodeRuneInString\<close>: a malformed rune has width 1.
\<close>

fun rune_width :: "string \<Rightarrow> nat \<times> bool" where
  "rune_width [] = (0, False)"
| "rune_width (a # s) =
     (if in_range 0 127 a then (1, True)
      else case s of
        [] \<Rightarrow> (1, False)
      | b # t \<Rightarrow>
         (if in_range 194 223 a then (if cont_byte b then (2, True) else (1, False))
          else case t of
            [] \<Rightarrow> (1, False)
          | c # u \<Rightarrow>
             (if in_range 224 239 a
              then (if in_range (if of_char a = (224::nat) then 160 else 128)
                                (if of_char a = (237::nat) then 159 else 191) b \<and> cont_byte c
                    then (3, True) else (1, False))
              else case u of
                [] \<Rightarrow> (1, False)
              | d # _ \<Rightarrow>
                 (if in_range 240 244 a \<and>
                     in_range (if of_char a = (240::nat) then 144 else 128)
                              (if of_char a = (244::nat) then 143 else 191) b \<and>
                     cont_byte c \<and> cont_byte d
                  then (4, True) else (1, False)))))"

lemma rune_width_pos: "s \<noteq> [] \<Longrightarrow> 0 < fst (rune_width s)"
  by (cases s) (auto split: list.splits)

lemma rune_width_le: "fst (rune_width s) \<le> length s"
  by (cases s) (auto split: list.splits)

text \<open>\<open>utf8.RuneCountInString\<close> and \<open>utf8.ValidString\<close>.\<close>

function rune_count :: "string \<Rightarrow> nat" where
  "rune_count s = (if s = [] then 0 else Suc (rune_count (drop (fst (rune_width s)) s)))"
  by pat_completeness auto
termination
proof (relation "measure length", goal_cases)
  case (2 s)
  then have "s \<noteq> []" by simp
  then have "0 < fst (rune_width s)" "0 < length s" by (auto intro: rune_width_pos)
  then show "(drop (fst (rune_width s)) s, s) \<in> measure length" by auto
qed simp

function utf8_valid :: "string \<Rightarrow> bool" where
  "utf8_valid s =
     (if s = [] then True
      else if \<not> snd (rune_width s) then False
      else utf8_valid (drop (fst (rune_width s)) s))"
  by pat_completeness auto
termination
proof (relation "measure length", goal_cases)
  case (2 s)
  then have "s \<noteq> []" by simp
  then have "0 < fst (rune_width s)" "0 < length s" by (auto intro: rune_width_pos)
  then show "(drop (fst (rune_width s)) s, s) \<in> measure length" by auto
qed simp

declare rune_count.simps [simp del] utf8_valid.simps [simp del]

lemma rune_count_le_length: "rune_count s \<le> length s"
proof (induction s rule: rune_count.induct)
  case (1 s)
  show ?case
  proof (cases "s = []")
    case False
    with 1 have "rune_count (drop (fst (rune_width s)) s) \<le> length s - fst (rune_width s)"
      by simp
    moreover have "0 < fst (rune_width s)" "fst (rune_width s) \<le> length s"
      using False rune_width_pos rune_width_le by auto
    moreover have "rune_count s = Suc (rune_count (drop (fst (rune_width s)) s))"
      using False by (subst rune_count.simps) simp
    ultimately show ?thesis by linarith
  qed (simp add: rune_count.simps)
qed

section \<open>\<open>strings.TrimSpace\<close>\<close>

text \<open>
  The UTF-8 encodings of the runes with \<open>unicode.IsSpace\<close>: six ASCII characters, U+0085,
  U+00A0, U+1680, U+2000 to U+200A, U+2028, U+2029, U+202F, U+205F and U+3000.
\<close>

definition bytes :: "nat list \<Rightarrow> string" where
  "bytes ns = map char_of ns"

definition space_runes :: "string list" where
  "space_runes = map bytes
     ([[9], [10], [11], [12], [13], [32], [194, 133], [194, 160], [225, 154, 128]]
      @ map (\<lambda>k. [226, 128, k]) [128..<139]
      @ [[226, 128, 168], [226, 128, 169], [226, 128, 175], [226, 129, 159], [227, 128, 128]])"

lemma space_runes_nonempty: "w \<in> set space_runes \<Longrightarrow> w \<noteq> []"
  by (auto simp: space_runes_def bytes_def)

function trim_left_runes :: "string list \<Rightarrow> string \<Rightarrow> string" where
  "trim_left_runes ws s =
     (case find (\<lambda>w. w \<noteq> [] \<and> has_prefix s w) ws of
        None \<Rightarrow> s
      | Some w \<Rightarrow> trim_left_runes ws (drop (length w) s))"
  by pat_completeness auto
termination
proof (relation "measure (\<lambda>(ws, s). length s)")
  fix ws :: "string list" and s w :: string
  assume "find (\<lambda>w. w \<noteq> [] \<and> has_prefix s w) ws = Some w"
  then have "w \<noteq> []" "has_prefix s w" by (auto simp: find_Some_iff)
  then show "((ws, drop (length w) s), (ws, s)) \<in> measure (\<lambda>(ws, s). length s)"
    by (auto simp: has_prefix_iff)
qed simp

declare trim_left_runes.simps [simp del]

definition trim_space :: "string \<Rightarrow> string" where
  "trim_space s =
     rev (trim_left_runes (map rev space_runes) (rev (trim_left_runes space_runes s)))"

lemma trim_left_runes_suffix: "\<exists>p. s = p @ trim_left_runes ws s"
proof (induction ws s rule: trim_left_runes.induct)
  case (1 ws s)
  show ?case
  proof (cases "find (\<lambda>w. w \<noteq> [] \<and> has_prefix s w) ws")
    case None
    then have "trim_left_runes ws s = s" by (simp add: trim_left_runes.simps)
    then show ?thesis by simp
  next
    case (Some w)
    then obtain t where t: "s = w @ t" by (auto simp: find_Some_iff has_prefix_iff)
    from Some have step: "trim_left_runes ws s = trim_left_runes ws (drop (length w) s)"
      by (subst trim_left_runes.simps) simp
    from 1 [OF Some] obtain p where "drop (length w) s = p @ trim_left_runes ws (drop (length w) s)"
      by blast
    with step t have "s = (w @ p) @ trim_left_runes ws s" by simp
    then show ?thesis by blast
  qed
qed


end
