(* ===== verification/Paths.thy ===== *)
theory Paths
  imports Prelude
begin

text \<open>
  The parts of Go's \<open>path/filepath\<close> (Unix) and \<open>net/url\<close> packages the path checks of
  the repository are written in: \<open>Clean\<close>, \<open>Join\<close>, \<open>Dir\<close>, \<open>Base\<close> and
  \<open>PathUnescape\<close>.  \<open>Clean\<close> is stated over the list of path components, which is how the
  documentation of the package specifies it.  A path is \<^emph>\<open>local\<close> when it is relative and has
  no empty, \<open>.\<close> or \<open>..\<close> component.
\<close>

abbreviation slash :: char where
  "slash \<equiv> CHR ''/''"

abbreviation dot :: string where
  "dot \<equiv> ''.''"

abbreviation dotdot :: string where
  "dotdot \<equiv> ''..''"

section \<open>Components and Clean\<close>

definition comps :: "string \<Rightarrow> string list" where
  "comps p = filter (\<lambda>c. c \<noteq> [] \<and> c \<noteq> dot) (split_on slash p)"

fun norm_comps :: "bool \<Rightarrow> string list \<Rightarrow> string list \<Rightarrow> string list" where
  "norm_comps rooted st [] = rev st"
| "norm_comps rooted st (c # cs) =
     (if c = dotdot then
        (case st of
           [] \<Rightarrow> norm_comps rooted (if rooted then [] else [dotdot]) cs
         | t # ts \<Rightarrow> if t = dotdot then norm_comps rooted (dotdot # st) cs
                    else norm_comps rooted ts cs)
      else norm_comps rooted (c # st) cs)"

definition rooted :: "string \<Rightarrow> bool" where
  "rooted p \<longleftrightarrow> has_prefix p [slash]"

definition render :: "bool \<Rightarrow> string list \<Rightarrow> string" where
  "render r cs =
     (if r then slash # join_with [slash] cs
      else if cs = [] then dot else join_with [slash] cs)"

definition clean :: "string \<Rightarrow> string" where
  "clean p = (if p = [] then dot else render (rooted p) (norm_comps (rooted p) [] (comps p)))"

definition join2 :: "string \<Rightarrow> string \<Rightarrow> string" where
  "join2 a b =
     (if a \<noteq> [] then clean (a @ [slash] @ b)
      else if b \<noteq> [] then clean b else [])"

text \<open>The part up to and including the last slash, and the rest.\<close>

definition last_slash :: "string \<Rightarrow> string \<times> string" where
  "last_slash p = (rev (dropWhile (\<lambda>c. c \<noteq> slash) (rev p)), rev (takeWhile (\<lambda>c. c \<noteq> slash) (rev p)))"

definition path_dir :: "string \<Rightarrow> string" where
  "path_dir p = clean (fst (last_slash p))"

definition path_base :: "string \<Rightarrow> string" where
  "path_base p =
     (if p = [] then dot
      else let q = rev (dropWhile (\<lambda>c. c = slash) (rev p))
           in if q = [] then [slash] else snd (last_slash q))"

definition proper_comp :: "string \<Rightarrow> bool" where
  "proper_comp c \<longleftrightarrow> c \<noteq> [] \<and> c \<noteq> dot \<and> c \<noteq> dotdot \<and> slash \<notin> set c"

text \<open>What \<open>filepath.IsLocal\<close> promises: relative, never leaves the directory it is used in.\<close>

definition local_path :: "string \<Rightarrow> bool" where
  "local_path p \<longleftrightarrow> (\<exists>cs. cs \<noteq> [] \<and> (\<forall>c \<in> set cs. proper_comp c) \<and> p = join_with [slash] cs)"

section \<open>Lemmas about components\<close>

lemma comps_append_slash: "comps (a @ slash # b) = comps a @ comps b"
  by (simp add: comps_def split_on_append)

lemma comps_Nil [simp]: "comps [] = []"
  by (simp add: comps_def)

lemma comps_slash [simp]: "comps (slash # p) = comps p"
  by (simp add: comps_def)

lemma comps_parts: "c \<in> set (comps p) \<Longrightarrow> c \<noteq> [] \<and> c \<noteq> dot \<and> slash \<notin> set c"
  by (auto simp: comps_def dest: split_on_parts)

lemma comps_join:
  assumes "\<forall>c \<in> set cs. c \<noteq> [] \<and> c \<noteq> dot \<and> slash \<notin> set c"
  shows "comps (join_with [slash] cs) = cs"
proof (cases "cs = []")
  case False
  with assms have "split_on slash (join_with [slash] cs) = cs"
    by (intro split_join) auto
  with assms show ?thesis by (simp add: comps_def filter_id_conv)
qed simp

lemma norm_comps_no_dotdot:
  "dotdot \<notin> set cs \<Longrightarrow> norm_comps r st cs = rev st @ cs"
  by (induction cs arbitrary: st) auto

lemma norm_comps_append:
  "norm_comps r st (as @ bs) = norm_comps r (rev (norm_comps r st as)) bs"
proof (induction as arbitrary: st)
  case (Cons a as)
  show ?case
  proof (cases "a = dotdot")
    case True
    show ?thesis
    proof (cases st)
      case Nil
      show ?thesis
        unfolding True Nil using Cons [of "[]"] Cons [of "[dotdot]"] by (cases r) simp_all
    next
      case st: (Cons t ts)
      show ?thesis using Cons.IH unfolding True st by simp
    qed
  next
    case False
    then show ?thesis using Cons.IH [of "a # st"] by simp
  qed
qed simp

lemma norm_comps_set: "set (norm_comps r st cs) \<subseteq> set st \<union> set cs \<union> {dotdot}"
proof (induction cs arbitrary: st)
  case (Cons c cs)
  show ?case
  proof (cases "c = dotdot")
    case True
    show ?thesis
    proof (cases st)
      case Nil
      show ?thesis
        unfolding True Nil using Cons [of "[]"] Cons [of "[dotdot]"] by (cases r) auto
    next
      case st: (Cons t ts)
      show ?thesis using Cons.IH [of ts] Cons.IH [of "dotdot # st"] unfolding True st by auto
    qed
  next
    case False
    then show ?thesis using Cons.IH [of "c # st"] by auto
  qed
qed auto

text \<open>A rooted path keeps no \<open>..\<close> at all.\<close>

lemma norm_comps_rooted:
  "dotdot \<notin> set st \<Longrightarrow> dotdot \<notin> set (norm_comps True st cs)"
proof (induction cs arbitrary: st)
  case (Cons c cs)
  then show ?case by (cases st) auto
qed simp

text \<open>An unrooted path keeps \<open>..\<close> only at its front, so normalising twice changes nothing.\<close>

definition dd_front :: "string list \<Rightarrow> bool" where
  "dd_front cs \<longleftrightarrow> (\<exists>n ds. cs = replicate n dotdot @ ds \<and> dotdot \<notin> set ds)"

lemma dd_front_snoc: "dd_front cs \<Longrightarrow> c \<noteq> dotdot \<Longrightarrow> dd_front (cs @ [c])"
proof -
  assume "dd_front cs" "c \<noteq> dotdot"
  then obtain n ds where "cs = replicate n dotdot @ ds" "dotdot \<notin> set ds"
    by (auto simp: dd_front_def)
  with \<open>c \<noteq> dotdot\<close> have "cs @ [c] = replicate n dotdot @ (ds @ [c]) \<and> dotdot \<notin> set (ds @ [c])"
    by simp
  then show ?thesis unfolding dd_front_def by blast
qed

lemma dd_front_butlast: "dd_front (cs @ [c]) \<Longrightarrow> dd_front cs"
proof -
  assume "dd_front (cs @ [c])"
  then obtain n ds where d: "cs @ [c] = replicate n dotdot @ ds" "dotdot \<notin> set ds"
    by (auto simp: dd_front_def)
  show ?thesis
  proof (cases "ds = []")
    case True
    with d have "cs @ [c] = replicate n dotdot" by simp
    then have "set (cs @ [c]) \<subseteq> {dotdot}" by (metis set_replicate_conv_if subset_insertI subset_refl)
    then have "cs = replicate (length cs) dotdot @ []"
      by (auto intro!: replicate_eqI)
    then show ?thesis unfolding dd_front_def by (metis empty_iff list.set(1))
  next
    case False
    with d have "cs = replicate n dotdot @ butlast ds"
      by (metis butlast_append butlast_snoc)
    moreover from d(2) have "dotdot \<notin> set (butlast ds)" by (meson in_set_butlastD)
    ultimately show ?thesis unfolding dd_front_def by blast
  qed
qed

lemma dd_front_dotdot: "dd_front (cs @ [dotdot]) \<Longrightarrow> dd_front (cs @ [dotdot, dotdot])"
proof -
  assume "dd_front (cs @ [dotdot])"
  then obtain n ds where d: "cs @ [dotdot] = replicate n dotdot @ ds" "dotdot \<notin> set ds"
    by (auto simp: dd_front_def)
  then have "ds = []"
    by (cases ds rule: rev_cases) auto
  with d(1) have "cs @ [dotdot] = replicate n dotdot" by simp
  then have "cs @ [dotdot, dotdot] = replicate (Suc n) dotdot @ []"
    by (metis append.assoc append_Cons append_Nil append_Nil2 replicate_Suc replicate_append_same)
  then show ?thesis unfolding dd_front_def by (metis empty_iff list.set(1))
qed

lemma norm_comps_dd_front: "dd_front (rev st) \<Longrightarrow> dd_front (norm_comps False st cs)"
proof (induction cs arbitrary: st)
  case (Cons c cs)
  note 2 = this
  have base: "dd_front [dotdot]"
    unfolding dd_front_def by (rule exI [of _ 1], rule exI [of _ "[]"]) simp
  show ?case
  proof (cases st)
    case Nil
    with 2 base show ?thesis by (cases "c = dotdot") (auto simp: dd_front_snoc [of "[]", simplified])
  next
    case (Cons t ts)
    then have st: "dd_front (rev ts @ [t])" using 2 by simp
    then have ts: "dd_front (rev ts)" by (rule dd_front_butlast)
    have "c \<noteq> dotdot \<Longrightarrow> dd_front (rev (c # st))"
      using dd_front_snoc [OF st] Cons by simp
    moreover have "t = dotdot \<Longrightarrow> dd_front (rev (dotdot # st))"
      using dd_front_dotdot [of "rev ts"] st Cons by simp
    ultimately show ?thesis using 2 Cons ts by simp
  qed
qed simp

lemma norm_comps_idem_front: "dd_front cs \<Longrightarrow> norm_comps False [] cs = cs"
proof -
  assume "dd_front cs"
  then obtain n ds where d: "cs = replicate n dotdot @ ds" "dotdot \<notin> set ds"
    by (auto simp: dd_front_def)
  have "norm_comps False (replicate k dotdot) (replicate n dotdot @ ds) =
        replicate (k + n) dotdot @ ds" for k
    using d(2)
  proof (induction n arbitrary: k)
    case (Suc n)
    show ?case
      using Suc.IH [of "Suc k"] Suc.prems
      by (cases k) (auto simp: replicate_app_Cons_same)
  qed (simp add: norm_comps_no_dotdot)
  from this [of 0] d(1) show ?thesis by simp
qed

lemma norm_comps_idem: "norm_comps r [] (norm_comps r [] cs) = norm_comps r [] cs"
proof (cases r)
  case True
  then show ?thesis by (simp add: norm_comps_no_dotdot norm_comps_rooted)
next
  case False
  have "dd_front (norm_comps False [] cs)"
    by (rule norm_comps_dd_front) (simp add: dd_front_def)
  with False show ?thesis by (simp add: norm_comps_idem_front)
qed

section \<open>Lemmas about Clean\<close>

lemma norm_comps_parts:
  "c \<in> set (norm_comps r [] (comps p)) \<Longrightarrow> c \<noteq> [] \<and> c \<noteq> dot \<and> slash \<notin> set c"
  using norm_comps_set [of r "[]" "comps p"] comps_parts by fastforce

lemma join_hd_not_slash:
  assumes "\<forall>c \<in> set cs. c \<noteq> [] \<and> slash \<notin> set c" "cs \<noteq> []"
  shows "\<not> rooted (join_with [slash] cs)" "join_with [slash] cs \<noteq> []"
proof -
  obtain c ds where cs: "cs = c # ds" using assms(2) by (cases cs) auto
  then obtain a s where c: "c = a # s" "a \<noteq> slash" using assms(1) by (cases c) auto
  from cs c show "\<not> rooted (join_with [slash] cs)" "join_with [slash] cs \<noteq> []"
    by (cases ds; simp add: rooted_def has_prefix_def)+
qed

lemma rooted_render:
  assumes "\<forall>c \<in> set cs. c \<noteq> [] \<and> c \<noteq> dot \<and> slash \<notin> set c"
  shows "rooted (render r cs) = r" "comps (render r cs) = cs" "render r cs \<noteq> []"
proof -
  have dotc: "comps dot = []" by (simp add: comps_def)
  have "comps (slash # join_with [slash] cs) = cs" "comps (join_with [slash] cs) = cs"
    using assms by (simp_all add: comps_join)
  with dotc show "comps (render r cs) = cs" by (simp add: render_def)
  show "rooted (render r cs) = r" "render r cs \<noteq> []"
    using join_hd_not_slash [of cs] assms
    by (auto simp: render_def rooted_def has_prefix_def)
qed

lemma clean_nonempty [simp]: "clean p \<noteq> []"
  using rooted_render(3) norm_comps_parts by (simp add: clean_def)

lemma comps_clean: "comps (clean p) = norm_comps (rooted p) [] (comps p)"
proof (cases "p = []")
  case True
  then show ?thesis by (simp add: clean_def comps_def)
next
  case False
  then show ?thesis
    using rooted_render(2) norm_comps_parts by (simp add: clean_def)
qed

lemma rooted_clean: "rooted (clean p) = rooted p"
proof (cases "p = []")
  case True
  then show ?thesis by (simp add: clean_def rooted_def has_prefix_def)
next
  case False
  then show ?thesis
    using rooted_render(1) norm_comps_parts by (simp add: clean_def)
qed

lemma clean_cong:
  "comps p = comps q \<Longrightarrow> rooted p = rooted q \<Longrightarrow> p \<noteq> [] \<Longrightarrow> q \<noteq> [] \<Longrightarrow> clean p = clean q"
  by (simp add: clean_def)

lemma rooted_append: "p \<noteq> [] \<Longrightarrow> rooted (p @ q) = rooted p"
  by (cases p) (simp_all add: rooted_def has_prefix_def)

lemma clean_idem: "clean (clean p) = clean p"
proof -
  have "clean (clean p) = render (rooted p) (norm_comps (rooted p) [] (comps p))"
    by (subst clean_def) (simp add: comps_clean rooted_clean norm_comps_idem)
  also have "\<dots> = clean p"
    by (cases "p = []") (simp_all add: clean_def rooted_def has_prefix_def comps_def render_def)
  finally show ?thesis .
qed

lemma clean_rooted_no_dotdot:
  assumes "dotdot \<notin> set (comps p)"
  shows "clean (slash # p) = slash # join_with [slash] (comps p)"
  using assms by (simp add: clean_def rooted_def has_prefix_def norm_comps_no_dotdot render_def)

text \<open>Extending a clean base with clean components never goes back above the base.\<close>

lemma clean_extend:
  assumes cs: "\<forall>c \<in> set cs. proper_comp c" and b: "clean b = b"
  shows "clean (b @ slash # join_with [slash] cs) = render (rooted b) (comps b @ cs)"
proof -
  have bn: "b \<noteq> []" using b clean_nonempty by metis
  then have r: "rooted (b @ slash # join_with [slash] cs) = rooted b"
    by (cases b) (simp_all add: rooted_def has_prefix_def)
  have "comps (join_with [slash] cs) = cs"
    using cs by (intro comps_join) (auto simp: proper_comp_def)
  then have c: "comps (b @ slash # join_with [slash] cs) = comps b @ cs"
    by (simp add: comps_append_slash)
  have "norm_comps (rooted b) [] (comps b) = comps b"
    using b comps_clean by metis
  moreover have "dotdot \<notin> set cs" using cs by (auto simp: proper_comp_def)
  ultimately have "norm_comps (rooted b) [] (comps b @ cs) = comps b @ cs"
    by (simp add: norm_comps_append norm_comps_no_dotdot)
  with r c bn show ?thesis by (simp add: clean_def)
qed

lemma join_with_append:
  "as \<noteq> [] \<Longrightarrow> bs \<noteq> [] \<Longrightarrow>
   join_with d (as @ bs) = join_with d as @ d @ join_with d bs"
proof (induction d as rule: join_with.induct)
  case (2 d x)
  then show ?case by (cases bs) auto
qed auto

lemma render_append:
  assumes "as \<noteq> []" "bs \<noteq> []"
  shows "render r (as @ bs) = render r as @ slash # join_with [slash] bs"
  using assms by (simp add: render_def join_with_append)

section \<open>\<open>url.PathUnescape\<close>\<close>

definition is_hex :: "char \<Rightarrow> bool" where
  "is_hex c \<longleftrightarrow> is_hex_lower c \<or> (65 \<le> (of_char c :: nat) \<and> (of_char c :: nat) \<le> 70)"

definition unhex :: "char \<Rightarrow> nat" where
  "unhex c =
     (if is_digit c then of_char c - 48
      else if is_hex_lower c then of_char c - 87 else of_char c - 55)"

text \<open>\<open>None\<close> is the \<open>EscapeError\<close> of a \<open>%\<close> not followed by two hex digits.\<close>

fun path_unescape :: "string \<Rightarrow> string option" where
  "path_unescape [] = Some []"
| "path_unescape (c # s) =
     (if c = CHR ''%'' then
        (case s of
           a # b # t \<Rightarrow>
             if is_hex a \<and> is_hex b
             then map_option (\<lambda>u. char_of (16 * unhex a + unhex b) # u) (path_unescape t)
             else None
         | _ \<Rightarrow> None)
      else map_option (\<lambda>u. c # u) (path_unescape s))"

lemma path_unescape_length: "path_unescape s = Some u \<Longrightarrow> length u \<le> length s"
proof (induction s arbitrary: u rule: path_unescape.induct)
  case (2 c s)
  then show ?case by (fastforce split: if_splits list.splits)
qed simp

lemma path_unescape_same: "path_unescape s = Some u \<Longrightarrow> length u = length s \<Longrightarrow> u = s"
proof (induction s arbitrary: u rule: path_unescape.induct)
  case (2 c s)
  show ?case
  proof (cases "c = CHR ''%''")
    case True
    with 2(3) obtain a b t v where
      "s = a # b # t" "path_unescape t = Some v" "length u = Suc (length v)"
      by (auto split: list.splits if_splits)
    with 2(4) path_unescape_length [of t v] show ?thesis by auto
  next
    case False
    with 2 show ?thesis by auto
  qed
qed simp

lemma path_unescape_shrinks:
  "path_unescape s = Some u \<Longrightarrow> u \<noteq> s \<Longrightarrow> length u < length s"
  using path_unescape_length path_unescape_same le_neq_implies_less by metis

end
