(* ===== verification/Workspace.thy ===== *)
theory Workspace
  imports Paths "HOL-Library.State_Monad"
begin

text \<open>
  \<open>internal/workspace/workspace.go\<close>: the session workspace manager.  The path checks
  (\<open>CheckPath\<close>, \<open>SafePath\<close>, \<open>relPath\<close>) are pure functions.  The file operations go through
  an \<open>os.Root\<close>; they are modelled as computations of the state monad whose state is the trace of
  root operations performed so far.  The answer of each operation comes from an environment that
  sees the whole trace, so it may change between any two operations: that is the sandbox, which
  owns the directory and can swap entries at any moment.
\<close>

section \<open>Path checks\<close>

datatype ws_error =
    PathTraversal | NotFound | IsDirectory | RemoveRoot | SymlinkEscape | SymlinkTarget
  | ExceedsMax int | EntryLimit | TotalLimit | FileLimit | NoWorkspace | IOError string

function decode_fix :: "string \<Rightarrow> string" where
  "decode_fix s =
     (case path_unescape s of
        None \<Rightarrow> s
      | Some u \<Rightarrow> if u = s then s else decode_fix u)"
  by pat_completeness auto
termination
  by (relation "measure length") (auto dest: path_unescape_shrinks)

declare decode_fix.simps [simp del]

definition check_path :: "string \<Rightarrow> ws_error + string" where
  "check_path user_path =
     (let decoded = decode_fix user_path
      in if dotdot \<in> set (split_on slash decoded) then Inl PathTraversal else Inr decoded)"

definition session_path :: "string \<Rightarrow> string \<Rightarrow> string" where
  "session_path base_dir sid = join2 base_dir sid"

definition safe_path :: "string \<Rightarrow> string \<Rightarrow> string \<Rightarrow> ws_error + string" where
  "safe_path base_dir sid user_path =
     (case check_path user_path of
        Inl e \<Rightarrow> Inl e
      | Inr decoded \<Rightarrow>
          let root = session_path base_dir sid;
              cleaned = clean (slash # decoded);
              resolved = join2 root cleaned
          in if \<not> has_prefix resolved (root @ [slash]) \<and> resolved \<noteq> root
             then Inl PathTraversal else Inr resolved)"

definition rel_path :: "string \<Rightarrow> ws_error + string" where
  "rel_path user_path =
     (case check_path user_path of
        Inl e \<Rightarrow> Inl e
      | Inr decoded \<Rightarrow>
          let cleaned = clean (slash # decoded)
          in if cleaned = [slash] then Inr dot else Inr (trim_prefix cleaned [slash]))"

subsection \<open>Decoding to a fixpoint\<close>

lemma decode_fix_stable: "path_unescape (decode_fix s) \<in> {None, Some (decode_fix s)}"
proof (induction s rule: decode_fix.induct)
  case (1 s)
  show ?case
  proof (cases "path_unescape s")
    case None
    then show ?thesis by (simp add: decode_fix.simps)
  next
    case (Some u)
    then have "decode_fix s = (if u = s then s else decode_fix u)"
      by (subst decode_fix.simps) simp
    with 1 [OF Some] Some show ?thesis by auto
  qed
qed

lemma decode_fix_id: "path_unescape s \<in> {None, Some s} \<Longrightarrow> decode_fix s = s"
  by (auto simp: decode_fix.simps)

lemma decode_fix_idem: "decode_fix (decode_fix s) = decode_fix s"
  using decode_fix_stable by (rule decode_fix_id)

lemma decode_fix_length: "length (decode_fix s) \<le> length s"
proof (induction s rule: decode_fix.induct)
  case (1 s)
  show ?case
  proof (cases "path_unescape s")
    case None
    then show ?thesis by (simp add: decode_fix.simps)
  next
    case (Some u)
    then have "decode_fix s = (if u = s then s else decode_fix u)"
      by (subst decode_fix.simps) simp
    with 1 [OF Some] path_unescape_length [OF Some] show ?thesis by auto
  qed
qed

lemma check_path_Inr:
  "check_path p = Inr d \<longleftrightarrow> d = decode_fix p \<and> dotdot \<notin> set (split_on slash d)"
  by (simp add: check_path_def Let_def) metis

lemma check_path_comps:
  assumes "check_path p = Inr d"
  shows "\<forall>c \<in> set (comps d). proper_comp c" "dotdot \<notin> set (comps d)"
proof -
  have "dotdot \<notin> set (split_on slash d)" using assms check_path_Inr by blast
  then show "dotdot \<notin> set (comps d)" by (simp add: comps_def)
  then show "\<forall>c \<in> set (comps d). proper_comp c"
    using comps_parts [of _ d] by (auto simp: proper_comp_def)
qed

subsection \<open>Containment\<close>

text \<open>A session identifier is used as one path component.\<close>

lemma session_path_shape:
  assumes sid: "proper_comp sid"
  shows "clean (session_path base sid) = session_path base sid"
    and "\<exists>cs. comps (session_path base sid) = cs @ [sid]"
    and "session_path base sid = render (rooted base) (comps (session_path base sid))"
proof -
  have s: "comps sid = [sid]" "sid \<noteq> []" "\<not> rooted sid"
    using sid comps_join [of "[sid]"] join_hd_not_slash [of "[sid]"] by (auto simp: proper_comp_def)
  obtain q where q: "session_path base sid = clean q" "comps q = comps base @ [sid]"
    "rooted q = rooted base" "q \<noteq> []"
  proof (cases "base = []")
    case True
    then have "session_path base sid = clean sid" "rooted sid = rooted base"
      using s by (simp_all add: session_path_def join2_def rooted_def has_prefix_def)
    with True s that [of sid] show ?thesis by simp
  next
    case False
    moreover from False have "rooted (base @ slash # sid) = rooted base"
      by (cases base) (simp_all add: rooted_def has_prefix_def)
    ultimately show ?thesis
      using that [of "base @ slash # sid"] s
      by (simp add: session_path_def join2_def comps_append_slash)
  qed
  from q show "clean (session_path base sid) = session_path base sid"
    by (simp add: clean_idem)
  have "norm_comps (rooted base) [] (comps base @ [sid]) =
        norm_comps (rooted base) [] (comps base) @ [sid]"
    using sid by (simp add: norm_comps_append norm_comps_no_dotdot proper_comp_def)
  then have c: "comps (session_path base sid) = norm_comps (rooted base) [] (comps base) @ [sid]"
    using q by (simp add: comps_clean)
  then show "\<exists>cs. comps (session_path base sid) = cs @ [sid]" by blast
  show "session_path base sid = render (rooted base) (comps (session_path base sid))"
    using q c by (simp add: comps_clean) (simp add: clean_def)
qed

lemma resolve_under_root:
  assumes sid: "proper_comp sid" and d: "check_path p = Inr d"
  shows "join2 (session_path base sid) (clean (slash # d)) =
         (if comps d = [] then session_path base sid
          else session_path base sid @ slash # join_with [slash] (comps d))"
proof -
  let ?root = "session_path base sid"
  note shape = session_path_shape [OF sid, of base]
  have proper: "\<forall>c \<in> set (comps d). proper_comp c"
    using check_path_comps [OF d] by blast
  have root: "?root \<noteq> []" "rooted ?root = rooted base"
    using shape(1) clean_nonempty rooted_render(1) comps_parts shape(3) by metis+
  have ne: "comps ?root \<noteq> []" using shape(2) by auto
  have "clean (?root @ slash # slash # join_with [slash] (comps d)) =
        clean (?root @ slash # join_with [slash] (comps d))"
    using root(1) by (intro clean_cong) (simp_all add: comps_append_slash rooted_append)
  then have "join2 ?root (clean (slash # d)) =
      clean (?root @ slash # join_with [slash] (comps d))"
    using root clean_rooted_no_dotdot [OF check_path_comps(2) [OF d]] by (simp add: join2_def)
  also have "\<dots> = render (rooted base) (comps ?root @ comps d)"
    using clean_extend [OF proper shape(1)] root by simp
  finally show ?thesis
    using shape(3) ne by (auto simp: render_append)
qed

lemma safe_path_eq:
  assumes sid: "proper_comp sid"
  shows "safe_path base sid p =
    (case check_path p of
       Inl e \<Rightarrow> Inl e
     | Inr d \<Rightarrow> Inr (if comps d = [] then session_path base sid
                    else session_path base sid @ slash # join_with [slash] (comps d)))"
proof (cases "check_path p")
  case (Inr d)
  then show ?thesis
    using resolve_under_root [OF sid Inr, of base] has_prefix_append
    by (auto simp: safe_path_def Let_def has_prefix_iff)
qed (simp add: safe_path_def)

lemma rel_path_eq:
  "rel_path p =
    (case check_path p of
       Inl e \<Rightarrow> Inl e
     | Inr d \<Rightarrow> Inr (if comps d = [] then dot else join_with [slash] (comps d)))"
proof (cases "check_path p")
  case (Inr d)
  then have c: "clean (slash # d) = slash # join_with [slash] (comps d)"
    using check_path_comps(2) by (intro clean_rooted_no_dotdot)
  have "comps d \<noteq> [] \<Longrightarrow> join_with [slash] (comps d) \<noteq> []"
    using join_hd_not_slash(2) comps_parts by blast
  moreover have "trim_prefix (slash # s) [slash] = s" for s
    using trim_prefix_append [of "[slash]" s] by simp
  ultimately show ?thesis
    using Inr c by (auto simp: rel_path_def)
qed (simp add: rel_path_def)

lemma rel_path_local: "rel_path p = Inr r \<Longrightarrow> r = dot \<or> local_path r"
  using check_path_comps(1)
  by (fastforce simp: rel_path_eq local_path_def split: sum.splits if_splits)

end
