(* ===== verification/WorkspaceFiles.thy ===== *)
theory WorkspaceFiles
  imports Workspace
begin

text \<open>
  The file operations of \<open>internal/workspace/workspace.go\<close> as computations that emit \<open>os.Root\<close>
  operations.  The contract they share is stated once, as the locale \<open>root_client\<close>: whatever the
  environment answers, every operation that names a path names one that \<open>os.Root\<close> resolves below
  the workspace, and nothing is opened for writing through a symlink.
\<close>

section \<open>Operations on an \<open>os.Root\<close>\<close>

datatype io_err = Escape | ELoop | EExist | ENotDir | EPerm | ENoEnt | EOther

datatype file_kind = Regular | Directory | Symlink | Special

datatype root_op =
    OpOpenRoot
  | OpStat string
  | OpLstat string
  | OpMkdirAll string nat
  | OpChmod string nat
  | OpCreate string bool      \<comment> \<open>O_WRONLY, O_CREATE, O_TRUNC; the flag is O_NOFOLLOW\<close>
  | OpOpenRead string         \<comment> \<open>O_RDONLY, O_NONBLOCK\<close>
  | OpFStat                   \<comment> \<open>on the open file\<close>
  | OpWrite nat               \<comment> \<open>bytes copied into the open file\<close>
  | OpFChmod nat
  | OpRemove string

datatype answer = Done | Fail io_err | Info file_kind nat

type_synonym trace = "root_op list"
type_synonym env = "trace \<Rightarrow> root_op \<Rightarrow> answer"

definition perform :: "env \<Rightarrow> root_op \<Rightarrow> (trace, answer) state" where
  "perform env op = State (\<lambda>tr. (env tr op, tr @ [op]))"

fun failed :: "answer \<Rightarrow> io_err option" where
  "failed (Fail e) = Some e"
| "failed _ = None"

text \<open>Every operation the computation adds to the trace satisfies \<open>P\<close>.\<close>

definition emits :: "(root_op \<Rightarrow> bool) \<Rightarrow> (trace, 'a) state \<Rightarrow> bool" where
  "emits P m \<longleftrightarrow> (\<forall>tr. \<exists>ops. snd (run_state m tr) = tr @ ops \<and> list_all P ops)"

named_theorems emits_intros \<open>composition rules of emits\<close>

lemma emits_return [emits_intros, simp]: "emits P (State_Monad.return x)"
  by (simp add: emits_def State_Monad.return_def)

lemma emits_perform [emits_intros, simp]: "P op \<Longrightarrow> emits P (perform env op)"
  by (simp add: emits_def perform_def)

lemma emits_bind [emits_intros]:
  assumes "emits P m" "\<And>x. emits P (f x)"
  shows "emits P (State_Monad.bind m f)"
  unfolding emits_def
proof
  fix tr
  obtain x tr' where m: "run_state m tr = (x, tr')" by fastforce
  with assms(1) obtain o1 where "tr' = tr @ o1" "list_all P o1"
    by (metis emits_def snd_conv)
  moreover obtain o2 where "snd (run_state (f x) tr') = tr' @ o2" "list_all P o2"
    using assms(2) by (metis emits_def)
  ultimately show "\<exists>ops. snd (run_state (State_Monad.bind m f) tr) = tr @ ops \<and> list_all P ops"
    using m by (auto simp: State_Monad.bind_def intro!: exI [of _ "o1 @ o2"])
qed

lemma emits_if [emits_intros]: "(b \<Longrightarrow> emits P m) \<Longrightarrow> (\<not> b \<Longrightarrow> emits P n) \<Longrightarrow> emits P (if b then m else n)"
  by simp

lemma emits_option [emits_intros]:
  "(a = None \<Longrightarrow> emits P m) \<Longrightarrow> (\<And>x. a = Some x \<Longrightarrow> emits P (f x)) \<Longrightarrow>
   emits P (case a of None \<Rightarrow> m | Some x \<Rightarrow> f x)"
  by (cases a) auto

lemma emits_sum [emits_intros]:
  "(\<And>e. r = Inl e \<Longrightarrow> emits P (g e)) \<Longrightarrow> (\<And>x. r = Inr x \<Longrightarrow> emits P (f x)) \<Longrightarrow>
   emits P (case r of Inl e \<Rightarrow> g e | Inr x \<Rightarrow> f x)"
  by (cases r) auto

lemma emits_answer [emits_intros]:
  "(a = Done \<Longrightarrow> emits P m) \<Longrightarrow> (\<And>e. a = Fail e \<Longrightarrow> emits P (g e)) \<Longrightarrow>
   (\<And>k p. a = Info k p \<Longrightarrow> emits P (f k p)) \<Longrightarrow>
   emits P (case a of Done \<Rightarrow> m | Fail e \<Rightarrow> g e | Info k p \<Rightarrow> f k p)"
  by (cases a) auto

lemma emits_mono: "emits P m \<Longrightarrow> (\<And>op. P op \<Longrightarrow> Q op) \<Longrightarrow> emits Q m"
  unfolding emits_def by (metis list.pred_mono_strong)

text \<open>Paths a root operation may name: the root itself or a local path; writes never follow links.\<close>

definition inside :: "string \<Rightarrow> bool" where
  "inside p \<longleftrightarrow> p = dot \<or> local_path p"

fun safe_op :: "root_op \<Rightarrow> bool" where
  "safe_op (OpStat p) = inside p"
| "safe_op (OpLstat p) = inside p"
| "safe_op (OpMkdirAll p _) = inside p"
| "safe_op (OpChmod p _) = inside p"
| "safe_op (OpCreate p nofollow) = (local_path p \<and> nofollow)"
| "safe_op (OpOpenRead p) = inside p"
| "safe_op (OpRemove p) = local_path p"
| "safe_op _ = True"

section \<open>Small operations\<close>

definition is_symlink :: "env \<Rightarrow> string \<Rightarrow> (trace, bool) state" where
  "is_symlink env user_path =
     (case rel_path user_path of
        Inl _ \<Rightarrow> State_Monad.return False
      | Inr rel \<Rightarrow>
          if rel = dot then State_Monad.return False
          else do {
            r \<leftarrow> perform env OpOpenRoot;
            case failed r of
              Some _ \<Rightarrow> State_Monad.return False
            | None \<Rightarrow> do {
                i \<leftarrow> perform env (OpLstat rel);
                State_Monad.return (case i of Info k _ \<Rightarrow> k = Symlink | _ \<Rightarrow> False) } })"

definition exists_path :: "env \<Rightarrow> string \<Rightarrow> (trace, ws_error + bool) state" where
  "exists_path env user_path =
     (case rel_path user_path of
        Inl e \<Rightarrow> State_Monad.return (Inl e)
      | Inr rel \<Rightarrow> do {
          r \<leftarrow> perform env OpOpenRoot;
          case failed r of
            Some _ \<Rightarrow> State_Monad.return (Inr False)
          | None \<Rightarrow> do {
              i \<leftarrow> perform env (OpStat rel);
              State_Monad.return (Inr (failed i = None)) } })"

definition open_file :: "env \<Rightarrow> string \<Rightarrow> (trace, ws_error + string) state" where
  "open_file env user_path =
     (case rel_path user_path of
        Inl e \<Rightarrow> State_Monad.return (Inl e)
      | Inr rel \<Rightarrow> do {
          r \<leftarrow> perform env OpOpenRoot;
          case failed r of
            Some _ \<Rightarrow> State_Monad.return (Inl NotFound)
          | None \<Rightarrow> do {
              f \<leftarrow> perform env (OpOpenRead rel);
              case failed f of
                Some _ \<Rightarrow> State_Monad.return (Inl NotFound)
              | None \<Rightarrow> do {
                  i \<leftarrow> perform env OpFStat;
                  case i of
                    Info k _ \<Rightarrow>
                      State_Monad.return
                        (if k = Directory then Inl IsDirectory
                         else if k \<noteq> Regular then Inl NotFound
                         else Inr rel)
                  | _ \<Rightarrow> State_Monad.return (Inl (IOError ''stat file'')) } } })"

definition remove_path :: "env \<Rightarrow> string \<Rightarrow> (trace, ws_error + unit) state" where
  "remove_path env user_path =
     (case rel_path user_path of
        Inl e \<Rightarrow> State_Monad.return (Inl e)
      | Inr rel \<Rightarrow>
          if rel = dot then State_Monad.return (Inl RemoveRoot)
          else do {
            r \<leftarrow> perform env OpOpenRoot;
            case failed r of
              Some _ \<Rightarrow> State_Monad.return (Inl NotFound)
            | None \<Rightarrow> do {
                d \<leftarrow> perform env (OpRemove rel);
                State_Monad.return
                  (case failed d of
                     None \<Rightarrow> Inr ()
                   | Some Escape \<Rightarrow> Inl SymlinkEscape
                   | Some _ \<Rightarrow> Inl (IOError ''remove'')) } })"

section \<open>\<open>chmodDirs\<close> and \<open>WriteFile\<close>\<close>

text \<open>The accumulated directory prefixes of \<open>chmodDirs\<close>.\<close>

fun dir_prefixes :: "string \<Rightarrow> string list \<Rightarrow> string list" where
  "dir_prefixes cur [] = []"
| "dir_prefixes cur (p # ps) = join2 cur p # dir_prefixes (join2 cur p) ps"

definition chmod_targets :: "string \<Rightarrow> string list" where
  "chmod_targets rel = dot # (if rel \<noteq> dot then dir_prefixes [] (split_on slash rel) else [])"

fun chmod_list :: "env \<Rightarrow> nat \<Rightarrow> string list \<Rightarrow> (trace, io_err option) state" where
  "chmod_list env mode [] = State_Monad.return None"
| "chmod_list env mode (d # ds) = do {
     r \<leftarrow> perform env (OpChmod d mode);
     case failed r of
       None \<Rightarrow> chmod_list env mode ds
     | Some e \<Rightarrow> if e = EPerm then chmod_list env mode ds else State_Monad.return (Some e) }"

definition chmod_dirs :: "env \<Rightarrow> string \<Rightarrow> nat \<Rightarrow> (trace, io_err option) state" where
  "chmod_dirs env rel mode = chmod_list env mode (chmod_targets rel)"

text \<open>
  The copy: at most \<open>maxBytes\<close> bytes are read; when exactly that many arrived, one more byte is
  asked for, and the file is removed if there is one.
\<close>

definition limited_length :: "nat \<Rightarrow> int \<Rightarrow> nat" where
  "limited_length len max_bytes = min len (nat max_bytes)"

definition copy_limited :: "env \<Rightarrow> string \<Rightarrow> nat \<Rightarrow> int \<Rightarrow> (trace, ws_error + int) state" where
  "copy_limited env rel len max_bytes = do {
     let n = limited_length len max_bytes;
     w \<leftarrow> perform env (OpWrite n);
     case failed w of
       Some _ \<Rightarrow> do {
         _ \<leftarrow> perform env (OpRemove rel);
         State_Monad.return (Inl (IOError ''write file'')) }
     | None \<Rightarrow>
         if int n = max_bytes \<and> n < len then do {
           _ \<leftarrow> perform env (OpRemove rel);
           State_Monad.return (Inl (ExceedsMax max_bytes)) }
         else do {
           c \<leftarrow> perform env (OpFChmod 420);
           State_Monad.return
             (case failed c of Some _ \<Rightarrow> Inl (IOError ''chmod file'') | None \<Rightarrow> Inr (int n)) } }"

definition open_and_copy :: "env \<Rightarrow> string \<Rightarrow> nat \<Rightarrow> int \<Rightarrow> (trace, ws_error + int) state" where
  "open_and_copy env rel len max_bytes = do {
     f \<leftarrow> perform env (OpCreate rel True);
     case failed f of
       Some e \<Rightarrow> State_Monad.return
         (Inl (if e = ELoop then SymlinkTarget else if e = Escape then SymlinkEscape
               else IOError ''open file for write''))
     | None \<Rightarrow> copy_limited env rel len max_bytes }"

definition write_file :: "env \<Rightarrow> nat \<Rightarrow> string \<Rightarrow> nat \<Rightarrow> int \<Rightarrow> (trace, ws_error + int) state" where
  "write_file env default_mode user_path len max_bytes =
     (case rel_path user_path of
        Inl e \<Rightarrow> State_Monad.return (Inl e)
      | Inr rel \<Rightarrow>
          if rel = dot then State_Monad.return (Inl IsDirectory)
          else do {
            r \<leftarrow> perform env OpOpenRoot;
            case failed r of
              Some _ \<Rightarrow> State_Monad.return (Inl (IOError ''open workspace''))
            | None \<Rightarrow> do {
                i \<leftarrow> perform env (OpStat dot);
                let mode = (case i of Info _ p \<Rightarrow> p | _ \<Rightarrow> default_mode);
                let parent = path_dir rel;
                m \<leftarrow> (if parent \<noteq> dot then perform env (OpMkdirAll parent mode)
                     else State_Monad.return Done);
                case failed m of
                  Some e \<Rightarrow> State_Monad.return
                    (Inl (if e = Escape then SymlinkEscape else IOError ''create parent dirs''))
                | None \<Rightarrow> do {
                    c \<leftarrow> chmod_dirs env parent mode;
                    case c of
                      Some _ \<Rightarrow> State_Monad.return (Inl (IOError ''chmod parent dirs''))
                    | None \<Rightarrow> open_and_copy env rel len max_bytes } } })"

section \<open>Snapshots\<close>

text \<open>
  One step of the walk of \<open>CreateSnapshot\<close>: the directory entry, the \<open>Info\<close> of it (\<open>None\<close> when
  it was removed meanwhile) and what opening and stating a regular file gave.
\<close>

record walk_item =
  w_rel :: string
  w_kind :: file_kind
  w_info :: "file_kind option"
  w_reopen :: "(file_kind \<times> nat) option"

record tar_entry =
  t_name :: string
  t_dir :: bool
  t_reg :: bool
  t_size :: nat

definition snapshot_entry :: "walk_item \<Rightarrow> tar_entry option" where
  "snapshot_entry w =
     (if w_rel w = dot then None
      else if w_kind w \<noteq> Directory \<and> w_kind w \<noteq> Regular then None
      else case w_info w of
        None \<Rightarrow> None
      | Some k \<Rightarrow>
          if k \<noteq> Regular
          then Some \<lparr>t_name = w_rel w, t_dir = (k = Directory), t_reg = False, t_size = 0\<rparr>
          else case w_reopen w of
            None \<Rightarrow> None
          | Some (k', n) \<Rightarrow>
              if k' \<noteq> Regular then None
              else Some \<lparr>t_name = w_rel w, t_dir = False, t_reg = True, t_size = n\<rparr>)"

definition create_snapshot :: "walk_item list \<Rightarrow> tar_entry list" where
  "create_snapshot ws = List.map_filter snapshot_entry ws"

definition max_extract_file :: nat where
  "max_extract_file = 2 * 1024 * 1024 * 1024"

definition max_extract_total :: nat where
  "max_extract_total = 10 * 1024 * 1024 * 1024"

definition max_extract_entries :: nat where
  "max_extract_entries = 200000"

fun blocked :: "io_err \<Rightarrow> bool" where
  "blocked e = (e \<in> {Escape, ELoop, EExist, ENotDir})"

text \<open>
  One archive entry: \<open>Inl\<close> ends the restore with an error, \<open>Inr n\<close> continues with \<open>n\<close> more
  bytes extracted (0 for a skipped entry or a directory).
\<close>

definition restore_file :: "env \<Rightarrow> nat \<Rightarrow> string \<Rightarrow> nat \<Rightarrow> (trace, ws_error + nat) state" where
  "restore_file env tot dest sz = do {
     f \<leftarrow> perform env (OpCreate dest True);
     case failed f of
       Some e \<Rightarrow> State_Monad.return (if blocked e then Inr 0 else Inl (IOError ''create''))
     | None \<Rightarrow>
         if max_extract_total \<le> tot then State_Monad.return (Inl TotalLimit)
         else do {
           let cap = min max_extract_file (max_extract_total - tot);
           let n = min sz (cap + 1);
           w \<leftarrow> perform env (OpWrite n);
           _ \<leftarrow> perform env (OpFChmod 420);
           State_Monad.return
             (if failed w \<noteq> None then Inl (IOError ''write'')
              else if cap < n then Inl FileLimit else Inr n) } }"

definition restore_entry :: "env \<Rightarrow> nat \<Rightarrow> nat \<Rightarrow> tar_entry \<Rightarrow> (trace, ws_error + nat) state" where
  "restore_entry env mode tot e =
     (case rel_path (t_name e) of
        Inl _ \<Rightarrow> State_Monad.return (Inr 0)
      | Inr dest \<Rightarrow>
          if dest = dot then State_Monad.return (Inr 0)
          else if t_dir e then do {
            m \<leftarrow> perform env (OpMkdirAll dest mode);
            case failed m of
              Some x \<Rightarrow> State_Monad.return (if blocked x then Inr 0 else Inl (IOError ''mkdir''))
            | None \<Rightarrow> do {
                _ \<leftarrow> perform env (OpChmod dest mode);
                State_Monad.return (Inr 0) } }
          else if t_reg e then do {
            let parent = path_dir dest;
            m \<leftarrow> (if parent \<noteq> dot then perform env (OpMkdirAll parent mode)
                 else State_Monad.return Done);
            case failed m of
              Some x \<Rightarrow>
                State_Monad.return (if blocked x then Inr 0 else Inl (IOError ''mkdir parent''))
            | None \<Rightarrow> restore_file env tot dest (t_size e) }
          else State_Monad.return (Inr 0))"

fun restore_loop ::
  "env \<Rightarrow> nat \<Rightarrow> nat \<Rightarrow> nat \<Rightarrow> tar_entry list \<Rightarrow> (trace, ws_error + nat) state" where
  "restore_loop env mode tot cnt [] = State_Monad.return (Inr tot)"
| "restore_loop env mode tot cnt (e # es) =
     (if max_extract_entries < Suc cnt then State_Monad.return (Inl EntryLimit)
      else do {
        r \<leftarrow> restore_entry env mode tot e;
        case r of
          Inl x \<Rightarrow> State_Monad.return (Inl x)
        | Inr n \<Rightarrow> restore_loop env mode (tot + n) (Suc cnt) es })"

definition restore_snapshot ::
  "env \<Rightarrow> nat \<Rightarrow> tar_entry list \<Rightarrow> (trace, ws_error + nat) state" where
  "restore_snapshot env mode es = do {
     r \<leftarrow> perform env OpOpenRoot;
     case failed r of
       Some _ \<Rightarrow> State_Monad.return (Inl (IOError ''open workspace''))
     | None \<Rightarrow> restore_loop env mode 0 0 es }"

section \<open>Local paths stay local\<close>

lemma rel_path_inside: "rel_path p = Inr r \<Longrightarrow> inside r"
  using rel_path_local by (auto simp: inside_def)

lemma rel_path_not_root: "rel_path p = Inr r \<Longrightarrow> r \<noteq> dot \<Longrightarrow> local_path r"
  using rel_path_local by blast

lemma local_comps: "local_path p \<longleftrightarrow> (\<exists>cs. cs \<noteq> [] \<and> (\<forall>c\<in>set cs. proper_comp c) \<and>
    p = join_with [slash] cs \<and> comps p = cs \<and> split_on slash p = cs)"
proof
  assume "local_path p"
  then obtain cs where cs: "cs \<noteq> []" "\<forall>c\<in>set cs. proper_comp c" "p = join_with [slash] cs"
    by (auto simp: local_path_def)
  then have "comps p = cs" "split_on slash p = cs"
    by (auto simp: proper_comp_def intro!: comps_join split_join)
  with cs show "\<exists>cs. cs \<noteq> [] \<and> (\<forall>c\<in>set cs. proper_comp c) \<and>
    p = join_with [slash] cs \<and> comps p = cs \<and> split_on slash p = cs" by blast
qed (auto simp: local_path_def)

lemma clean_local: "\<forall>c\<in>set cs. proper_comp c \<Longrightarrow> cs \<noteq> [] \<Longrightarrow>
  clean (join_with [slash] cs) = join_with [slash] cs"
proof -
  assume cs: "\<forall>c\<in>set cs. proper_comp c" "cs \<noteq> []"
  then have "comps (join_with [slash] cs) = cs" "\<not> rooted (join_with [slash] cs)"
    "join_with [slash] cs \<noteq> []" "dotdot \<notin> set cs"
    using join_hd_not_slash [of cs] by (auto simp: proper_comp_def intro!: comps_join)
  with cs(2) show ?thesis by (simp add: clean_def render_def norm_comps_no_dotdot)
qed

lemma last_slash_append: "fst (last_slash p) @ snd (last_slash p) = p"
  by (simp add: last_slash_def flip: rev_append)

lemma last_slash_snoc:
  assumes "slash \<notin> set c"
  shows "last_slash (a @ slash # c) = (a @ [slash], c)" "last_slash c = ([], c)"
proof -
  have "takeWhile (\<lambda>c. c \<noteq> slash) (rev c @ slash # r) = rev c"
    "dropWhile (\<lambda>c. c \<noteq> slash) (rev c @ slash # r) = slash # r"
    "takeWhile (\<lambda>c. c \<noteq> slash) (rev c) = rev c" "dropWhile (\<lambda>c. c \<noteq> slash) (rev c) = []" for r
    using assms by (auto simp: takeWhile_append dropWhile_append takeWhile_eq_all_conv)
  then show "last_slash (a @ slash # c) = (a @ [slash], c)" "last_slash c = ([], c)"
    by (simp_all add: last_slash_def del: takeWhile_eq_all_conv dropWhile_eq_Nil_conv)
qed

lemma inside_dot [simp]: "inside dot"
  by (simp add: inside_def)

lemma inside_local [intro]: "local_path p \<Longrightarrow> inside p"
  by (simp add: inside_def)

lemma path_dir_local:
  assumes "local_path p"
  shows "inside (path_dir p)"
proof -
  from assms obtain cs where cs: "cs \<noteq> []" "\<forall>c\<in>set cs. proper_comp c" "p = join_with [slash] cs"
    by (auto simp: local_path_def)
  then obtain ds c where c: "cs = ds @ [c]" by (metis append_butlast_last_id)
  have s: "slash \<notin> set c" using cs c by (auto simp: proper_comp_def)
  show ?thesis
  proof (cases "ds = []")
    case True
    with cs c s have "path_dir p = dot"
      by (simp add: path_dir_def last_slash_snoc(2) clean_def)
    then show ?thesis by (simp add: inside_def)
  next
    case False
    let ?d = "join_with [slash] ds"
    have p: "p = ?d @ slash # c" using cs(3) c False by (simp add: join_with_append)
    have ds: "\<forall>c\<in>set ds. proper_comp c" using cs c by auto
    have "?d \<noteq> []" using ds False join_hd_not_slash(2) by (auto simp: proper_comp_def)
    then have "clean (?d @ [slash]) = clean ?d"
      by (intro clean_cong) (simp_all add: comps_append_slash [of _ "[]", simplified] rooted_append)
    with p s ds False have "path_dir p = ?d"
      by (simp add: path_dir_def last_slash_snoc(1) clean_local)
    with ds False show ?thesis by (auto simp: inside_def local_path_def)
  qed
qed

lemma dir_prefixes_local:
  assumes "\<forall>c\<in>set (pre @ cs). proper_comp c"
  shows "d \<in> set (dir_prefixes (join_with [slash] pre) cs) \<Longrightarrow> local_path d"
  using assms
proof (induction cs arbitrary: pre)
  case (Cons c cs)
  let ?n = "join_with [slash] (pre @ [c])"
  have pc: "\<forall>c\<in>set (pre @ [c]). proper_comp c" using Cons.prems by auto
  have step: "join2 (join_with [slash] pre) c = ?n"
  proof (cases "pre = []")
    case True
    with pc clean_local [of "[c]"] show ?thesis by (auto simp: join2_def proper_comp_def)
  next
    case False
    then have "?n = join_with [slash] pre @ slash # c" by (simp add: join_with_append)
    moreover have "join_with [slash] pre \<noteq> []"
      using False pc join_hd_not_slash(2) [of pre] by (auto simp: proper_comp_def)
    ultimately show ?thesis using clean_local [OF pc] by (simp add: join2_def)
  qed
  from Cons.prems(1) step have "d = ?n \<or> d \<in> set (dir_prefixes ?n cs)" by auto
  then show ?case
  proof
    assume "d = ?n"
    with pc show ?thesis unfolding local_path_def by (intro exI [of _ "pre @ [c]"]) simp
  next
    assume "d \<in> set (dir_prefixes ?n cs)"
    then show ?thesis using Cons.IH [of "pre @ [c]"] Cons.prems by simp
  qed
qed simp

lemma chmod_targets_inside: "inside p \<Longrightarrow> d \<in> set (chmod_targets p) \<Longrightarrow> inside d"
  using dir_prefixes_local [of "[]" "split_on slash p" d]
  by (auto simp: chmod_targets_def inside_def local_comps split: if_splits)

lemma emits_chmod_list: "\<forall>d\<in>set ds. inside d \<Longrightarrow> emits safe_op (chmod_list env mode ds)"
  by (induction ds) (auto intro!: emits_intros)

section \<open>The shared contract\<close>

text \<open>
  A client of the workspace root: a computation per request that names only safe operations.  The
  consequence every client inherits: from an empty trace, whatever the environment does, each
  operation performed is safe.
\<close>

locale root_client =
  fixes run :: "'req \<Rightarrow> env \<Rightarrow> (trace, 'res) state"
  assumes emits_safe: "emits safe_op (run req env)"
begin

lemma trace_safe: "list_all safe_op (snd (run_state (run req env) []))"
  using emits_safe [of req env] by (auto simp: emits_def dest: spec [of _ "[]"])

lemma created_local:
  "OpCreate p nofollow \<in> set (snd (run_state (run req env) [])) \<Longrightarrow> local_path p \<and> nofollow"
  using trace_safe [of req env] by (auto simp: list_all_iff)

lemma removed_local:
  "OpRemove p \<in> set (snd (run_state (run req env) [])) \<Longrightarrow> local_path p"
  using trace_safe [of req env] by (auto simp: list_all_iff)

end

lemma emits_open_and_copy: "local_path rel \<Longrightarrow> emits safe_op (open_and_copy env rel len mx)"
  unfolding open_and_copy_def copy_limited_def Let_def
  by (intro emits_intros) (auto simp: inside_def)

lemma emits_write_file: "emits safe_op (write_file env dm p len mx)"
  unfolding write_file_def Let_def chmod_dirs_def
  by (intro emits_intros emits_chmod_list emits_open_and_copy)
    (auto dest: rel_path_not_root intro: path_dir_local chmod_targets_inside)

lemma emits_restore_file: "local_path d \<Longrightarrow> emits safe_op (restore_file env tot d sz)"
  unfolding restore_file_def Let_def by (intro emits_intros) auto

lemma emits_restore_entry: "emits safe_op (restore_entry env mode tot e)"
  unfolding restore_entry_def Let_def
  by (intro emits_intros emits_restore_file)
    (auto dest: rel_path_not_root intro: path_dir_local)

lemma emits_restore_loop: "emits safe_op (restore_loop env mode tot cnt es)"
  by (induction es arbitrary: tot cnt) (auto intro!: emits_intros emits_restore_entry)

interpretation ws_write: root_client "\<lambda>(dm, p, len, mx) env. write_file env dm p len mx"
  by unfold_locales (auto simp: emits_write_file)

interpretation ws_restore: root_client "\<lambda>(mode, es) env. restore_snapshot env mode es"
  by unfold_locales
    (auto simp: restore_snapshot_def intro!: emits_intros emits_restore_loop)

interpretation ws_remove: root_client "\<lambda>p env. remove_path env p"
  by unfold_locales
    (auto simp: remove_path_def intro!: emits_intros dest: rel_path_not_root)

interpretation ws_open: root_client "\<lambda>p env. open_file env p"
  by unfold_locales
    (auto simp: open_file_def intro!: emits_intros dest: rel_path_inside)

interpretation ws_lstat: root_client "\<lambda>p env. is_symlink env p"
  by unfold_locales
    (auto simp: is_symlink_def intro!: emits_intros dest: rel_path_inside)

interpretation ws_exists: root_client "\<lambda>p env. exists_path env p"
  by unfold_locales
    (auto simp: exists_path_def intro!: emits_intros dest: rel_path_inside)

section \<open>Results and sizes\<close>

lemma run_bind: "run_state (State_Monad.bind m f) tr =
    (case run_state m tr of (x, tr') \<Rightarrow> run_state (f x) tr')"
  by (simp add: State_Monad.bind_def)

lemma run_return: "run_state (State_Monad.return x) tr = (x, tr)"
  by (simp add: State_Monad.return_def)

lemma run_perform: "run_state (perform env op) tr = (env tr op, tr @ [op])"
  by (simp add: perform_def)

lemmas run_simps = run_bind run_return run_perform

text \<open>Bytes a trace copies into files.\<close>

fun op_bytes :: "root_op \<Rightarrow> nat" where
  "op_bytes (OpWrite n) = n"
| "op_bytes _ = 0"

definition written :: "trace \<Rightarrow> nat" where
  "written tr = sum_list (map op_bytes tr)"

lemma written_append [simp]: "written (a @ b) = written a + written b"
  by (simp add: written_def)

lemma written_Cons [simp]: "written (op # tr) = op_bytes op + written tr" "written [] = 0"
  by (simp_all add: written_def)

lemma copy_limited_result:
  assumes "0 \<le> mx"
  shows "fst (run_state (copy_limited env rel len mx) tr) = Inr n \<Longrightarrow> n = int len \<and> int len \<le> mx"
    and "mx < int len \<Longrightarrow> failed (env tr (OpWrite (nat mx))) = None \<Longrightarrow>
      run_state (copy_limited env rel len mx) tr =
        (Inl (ExceedsMax mx), tr @ [OpWrite (nat mx), OpRemove rel])"
  using assms
  by (auto simp: copy_limited_def limited_length_def Let_def run_simps min_def
      split: option.splits if_splits)

lemma chmod_list_snd: "\<exists>ops. snd (run_state (chmod_list env mode ds) tr) = tr @ ops"
  using emits_chmod_list [of "[]"]
proof (induction ds arbitrary: tr)
  case (Cons d ds)
  then show ?case
    by (auto simp: run_simps split: option.splits) (metis append.assoc append_Cons append_Nil)+
qed (simp add: run_simps)

lemma write_file_result:
  assumes "0 \<le> mx" "fst (run_state (write_file env dm p len mx) tr) = Inr n"
  shows "n = int len \<and> int len \<le> mx"
  using assms(2)
  by (auto simp: write_file_def open_and_copy_def Let_def run_simps
      split: sum.splits if_splits option.splits prod.splits
      dest!: copy_limited_result(1) [OF assms(1), rotated])

lemma restore_entry_bytes:
  assumes "run_state (restore_entry env mode tot e) tr = (r, tr')" "tot \<le> max_extract_total"
  shows "written tr' \<le> written tr + min (max_extract_file + 1) (max_extract_total - tot + 1) \<and>
    (\<forall>n. r = Inr n \<longrightarrow> written tr' = written tr + n \<and> tot + n \<le> max_extract_total)"
  using assms
  by (auto simp: restore_entry_def restore_file_def Let_def run_simps
      split: sum.splits if_splits option.splits prod.splits)

lemma restore_loop_bytes:
  assumes "run_state (restore_loop env mode tot cnt es) tr = (r, tr')" "tot \<le> max_extract_total"
  shows "written tr' + tot \<le> written tr + max_extract_total + 1 \<and>
    (\<forall>n. r = Inr n \<longrightarrow> written tr' + tot = written tr + n \<and> n \<le> max_extract_total)"
  using assms
proof (induction es arbitrary: tot cnt tr)
  case Nil
  then show ?case by (auto simp: run_simps)
next
  case (Cons e es)
  show ?case
  proof (cases "max_extract_entries < Suc cnt")
    case True
    with Cons.prems show ?thesis by (auto simp: run_simps)
  next
    case False
    obtain r1 tr1 where e: "run_state (restore_entry env mode tot e) tr = (r1, tr1)" by fastforce
    note b = restore_entry_bytes [OF e Cons.prems(2)]
    show ?thesis
    proof (cases r1)
      case (Inl x)
      with Cons.prems False e b show ?thesis by (auto simp: run_simps)
    next
      case (Inr n)
      with Cons.prems(1) False e
      have "run_state (restore_loop env mode (tot + n) (Suc cnt) es) tr1 = (r, tr')"
        by (simp add: run_simps)
      from Cons.IH [OF this] b Inr show ?thesis by auto
    qed
  qed
qed

lemma restore_loop_entries:
  "run_state (restore_loop env mode tot cnt es) tr = (Inr n, tr') \<Longrightarrow>
   cnt + length es \<le> max max_extract_entries cnt"
proof (induction es arbitrary: tot cnt tr)
  case (Cons e es)
  then show ?case
    by (fastforce simp: run_simps split: if_splits prod.splits sum.splits)
qed simp

section \<open>Properties\<close>

text \<open>
  Property C1.  \<open>SafePath\<close> contains: for every base directory, every session identifier that is a
  single path component and every user path (however often percent-encoded), the resolved path is
  the session directory or a path strictly below it whose extra components are all ordinary names
  (not empty, not \<open>.\<close>, not \<open>..\<close>); the only error is \<open>ErrPathTraversal\<close>, returned exactly when
  the fully decoded path has a \<open>..\<close> component.
\<close>

theorem safe_path_contained:
  assumes "proper_comp sid"
  shows "case safe_path base sid p of
      Inr r \<Rightarrow> dotdot \<notin> set (split_on slash (decode_fix p)) \<and>
        (r = session_path base sid \<or>
         (\<exists>cs. cs \<noteq> [] \<and> list_all proper_comp cs \<and>
               r = session_path base sid @ slash # join_with [slash] cs))
    | Inl e \<Rightarrow> e = PathTraversal \<and> dotdot \<in> set (split_on slash (decode_fix p))"
proof (cases "check_path p")
  case (Inl e)
  then have "e = PathTraversal" "dotdot \<in> set (split_on slash (decode_fix p))"
    by (simp_all add: check_path_def Let_def split: if_splits)
  with Inl show ?thesis by (simp add: safe_path_def)
next
  case (Inr d)
  have d: "decode_fix p = d" "dotdot \<notin> set (split_on slash d)"
    using iffD1 [OF check_path_Inr Inr] by (rule conjE, simp only:)+
  have cs: "list_all proper_comp (comps d)"
    using check_path_comps(1) [OF Inr] by (simp add: list_all_iff)
  have eq: "safe_path base sid p =
      Inr (if comps d = [] then session_path base sid
           else session_path base sid @ slash # join_with [slash] (comps d))"
    by (simp only: safe_path_eq [OF assms] Inr sum.case)
  show ?thesis
    unfolding eq sum.case d(1) using d(2) cs by (cases "comps d = []") auto
qed

definition example_sid :: string where
  "example_sid = ''7d444840-9dc0-11d1-b245-5ffdce74fad2''"

lemma example_sid_proper: "proper_comp example_sid"
  by (simp add: proper_comp_def example_sid_def)

theorem safe_path_contained_witness:
  "proper_comp example_sid \<and>
   safe_path ''/data'' example_sid ''/a/./b'' = Inr (''/data/'' @ example_sid @ ''/a/b'') \<and>
   (case safe_path ''/data'' example_sid ''%252e%252e/x'' of Inr r \<Rightarrow> False | Inl e \<Rightarrow> e = PathTraversal)"
proof -
  have "safe_path ''/data'' example_sid ''/a/./b'' = Inr (''/data/'' @ example_sid @ ''/a/b'')"
    by code_simp
  moreover have "dotdot \<in> set (split_on slash (decode_fix ''%252e%252e/x''))"
    by code_simp
  ultimately show ?thesis
    using safe_path_contained [OF example_sid_proper, where base = "''/data''" and p = "''%252e%252e/x''"]
    by (cases "safe_path ''/data'' example_sid ''%252e%252e/x''") (simp_all add: example_sid_proper)
qed


text \<open>
  \<open>WriteFile\<close> stores all of the data or fails: with a non-negative limit, a success
  reports exactly the length of the data, which is within the limit, so an oversized upload is
  always an error.
\<close>

theorem write_file_all_or_error:
  assumes "0 \<le> mx"
  shows "case fst (run_state (write_file env dm p len mx) tr) of
      Inr n \<Rightarrow> n = int len \<and> int len \<le> mx
    | Inl e \<Rightarrow> True"
  using write_file_result [OF assms, of env dm p len tr]
  by (cases "fst (run_state (write_file env dm p len mx) tr)") auto

definition ok_env :: env where
  "ok_env tr op = Done"

theorem write_file_all_or_error_witness:
  "fst (run_state (write_file ok_env 448 ''a/b.txt'' 10 10) []) = Inr 10 \<and>
   (case fst (run_state (write_file ok_env 448 ''a/b.txt'' 11 10) []) of
      Inr n \<Rightarrow> False | Inl e \<Rightarrow> True)"
proof -
  have "fst (run_state (write_file ok_env 448 ''a/b.txt'' 10 10) []) = Inr 10"
    by code_simp
  moreover have "case fst (run_state (write_file ok_env 448 ''a/b.txt'' 11 10) []) of
      Inr n \<Rightarrow> n = int 11 \<and> int 11 \<le> 10 | Inl e \<Rightarrow> True"
    by (rule write_file_all_or_error) simp
  ultimately show ?thesis by (auto split: sum.splits)
qed

text \<open>
  A snapshot archive cannot exhaust the disk: a restore copies at most 10 GB plus one
  byte in total whatever the archive holds; when it succeeds it copied exactly the reported number
  of bytes, at most 10 GB, from at most 200000 entries.
\<close>

theorem restore_snapshot_bounds:
  assumes "run_state (restore_snapshot env mode es) [] = (r, tr)"
  shows "written tr \<le> max_extract_total + 1 \<and>
    (\<forall>n. r = Inr n \<longrightarrow> written tr = n \<and> n \<le> max_extract_total \<and> length es \<le> max_extract_entries)"
proof (cases "failed (env [] OpOpenRoot)")
  case None
  with assms have "run_state (restore_loop env mode 0 0 es) [OpOpenRoot] = (r, tr)"
    by (simp add: restore_snapshot_def run_simps)
  from restore_loop_bytes [OF this] restore_loop_entries [of env mode 0 0 es "[OpOpenRoot]"] this
  show ?thesis by (auto simp: max_def split: if_splits)
next
  case (Some e)
  with assms show ?thesis by (auto simp: restore_snapshot_def run_simps)
qed

definition example_archive :: "tar_entry list" where
  "example_archive =
    [\<lparr>t_name = ''d'', t_dir = True, t_reg = False, t_size = 0\<rparr>,
     \<lparr>t_name = ''d/f'', t_dir = False, t_reg = True, t_size = 5\<rparr>,
     \<lparr>t_name = ''../evil'', t_dir = False, t_reg = True, t_size = 7\<rparr>]"

theorem restore_snapshot_bounds_witness:
  "\<exists>tr. run_state (restore_snapshot ok_env 448 example_archive) [] = (Inr 5, tr) \<and>
        written tr \<le> max_extract_total + 1"
proof -
  have "rel_path ''d'' = Inr ''d''" "rel_path ''d/f'' = Inr ''d/f''"
    "rel_path ''../evil'' = Inl PathTraversal"
    by code_simp+
  then have "fst (run_state (restore_snapshot ok_env 448 example_archive) []) = Inr 5"
    by (simp add: restore_snapshot_def example_archive_def restore_entry_def restore_file_def
        run_simps ok_env_def Let_def max_extract_entries_def max_extract_file_def max_extract_total_def)
  then obtain tr where tr: "run_state (restore_snapshot ok_env 448 example_archive) [] = (Inr 5, tr)"
    by (metis prod.collapse)
  then show ?thesis using restore_snapshot_bounds [OF tr] by blast
qed

lemma length_join_Cons:
  "length (join_with [slash] (x # ys)) =
   length x + (if ys = [] then 0 else Suc (length (join_with [slash] ys)))"
  by (cases ys) simp_all

lemma length_join_comps: "length (join_with [slash] (filter P ps)) \<le> length (join_with [slash] ps)"
proof (induction ps)
  case (Cons x ps)
  define zs where "zs = filter P ps"
  have "filter P (x # ps) = (if P x then x # zs else zs)" by (simp add: zs_def)
  moreover have "zs \<noteq> [] \<Longrightarrow> ps \<noteq> []" by (auto simp: zs_def)
  moreover have "length (join_with [slash] zs) \<le> length (join_with [slash] ps)"
    using Cons.IH by (simp only: zs_def)
  ultimately show ?case
    by (cases "P x"; cases "ps = []"; cases "zs = []") (simp_all only: length_join_Cons if_True if_False, simp_all)
qed simp

text \<open>
  Snapshot and restore agree on a file's name exactly when percent-decoding leaves
  the name alone.  \<open>CreateSnapshot\<close> archives names as they are on disk, and \<open>RestoreSnapshot\<close> passes
  them through \<open>relPath\<close>, which decodes them: for a local name \<open>n\<close> the restored name is \<open>n\<close> if and
  only if \<open>n\<close> is a fixpoint of the decoding.
\<close>

theorem restore_name_roundtrip:
  assumes "local_path n"
  shows "rel_path n = Inr n \<longleftrightarrow> decode_fix n = n"
proof
  obtain cs where cs: "cs \<noteq> []" "\<forall>c\<in>set cs. proper_comp c" "n = join_with [slash] cs"
    "comps n = cs" "split_on slash n = cs"
    using assms local_comps by metis
  {
    assume "decode_fix n = n"
    moreover have "dotdot \<notin> set cs" using cs(2) by (auto simp: proper_comp_def)
    ultimately have "check_path n = Inr n" using cs(5) by (simp add: check_path_def)
    then show "rel_path n = Inr n" using cs by (simp add: rel_path_eq)
  next
    assume r: "rel_path n = Inr n"
    then obtain d where d: "check_path n = Inr d"
      by (auto simp: rel_path_def split: sum.splits)
    then have "decode_fix n = d" using iffD1 [OF check_path_Inr d] by simp
    have "n \<noteq> dot" using cs by (auto simp: comps_def)
    with r d have "n = join_with [slash] (comps d)"
      by (auto simp: rel_path_eq split: if_splits)
    then have "length n \<le> length d"
      using length_join_comps [of _ "split_on slash d"] by (simp add: comps_def join_split)
    show "decode_fix n = n"
    proof (cases "path_unescape n")
      case (Some u)
      show ?thesis
      proof (rule ccontr)
        assume ne: "decode_fix n \<noteq> n"
        then have "u \<noteq> n" "decode_fix n = decode_fix u"
          using Some by (auto simp: decode_fix.simps [of n] split: if_splits)
        then have "length u < length n" using Some path_unescape_shrinks by blast
        moreover have "length (decode_fix u) \<le> length u"
          by (rule decode_fix_length)
        ultimately show False
          using \<open>length n \<le> length d\<close> \<open>decode_fix n = d\<close> \<open>decode_fix n = decode_fix u\<close> by simp
      qed
    qed (simp add: decode_fix_id)
  }
qed

theorem restore_name_roundtrip_witness:
  "local_path ''100%25'' \<and> rel_path ''100%25'' = Inr ''100%'' \<and> rel_path ''100%25'' \<noteq> Inr ''100%25''"
proof -
  have l: "local_path ''100%25''"
    unfolding local_path_def by (rule exI [of _ "[''100%25'']"]) (simp add: proper_comp_def)
  have "decode_fix ''100%25'' \<noteq> ''100%25''" "rel_path ''100%25'' = Inr ''100%''"
    by code_simp+
  then show ?thesis using l restore_name_roundtrip [OF l] by blast
qed

end
