(* ===== verification/AuditSign.thy ===== *)
theory AuditSign
  imports Prelude
begin

text \<open>
  \<open>internal/audit/audit.go\<close>, first half: audit rows, the message a row's signature covers, signing
  and verification.  HMAC-SHA256 (hex encoded) and the RFC 3339 rendering of a timestamp are the
  fields of the record \<open>crypto\<close>, a parameter of every definition; what the code relies on of them
  is the predicate \<open>crypto_ok\<close>.  Metadata is represented by its canonical JSON text.

  The audit tables (\<open>audit_logs\<close>, \<open>audit_chain\<close>) with the queries of \<open>internal/db/queries.go\<close> on
  them, and the two writers of \<open>internal/audit\<close>: \<open>Log\<close>/\<open>logChained\<close>, which appends to the chain,
  and \<open>Prune\<close>/\<open>oldPrefix\<close>, which deletes an old prefix of it.  Both run in a transaction under one
  advisory lock, so each is one atomic step; an error rolls back and is modelled by \<open>None\<close> (append)
  or an error value (prune) with no new state.  Sequence numbers are \<open>int64\<close> in the code and \<open>int\<close>
  here: the unique counter grows by one per entry.
\<close>

record crypto =
  mac :: "string \<Rightarrow> string \<Rightarrow> string"
  ts_text :: "time \<Rightarrow> string"

record audit_log =
  al_id :: string
  al_ts :: time
  al_actor :: string
  al_session :: "string option"
  al_run :: "string option"
  al_action :: string
  al_meta :: string
  al_seq :: "int option"
  al_prev_sig :: string
  al_sig :: string

record chain_head =
  ch_seq :: int
  ch_last_sig :: string
  ch_pruned :: int
  ch_started :: time
  ch_mac :: string

definition sig_prefix :: string where
  "sig_prefix = ''v2:''"

definition chain_sig_prefix :: string where
  "chain_sig_prefix = ''v3:''"

abbreviation NUL :: char where
  "NUL \<equiv> CHR 0x00"

definition uuid_str :: "string option \<Rightarrow> string" where
  "uuid_str u = (case u of None \<Rightarrow> [] | Some s \<Rightarrow> s)"

text \<open>NUL-terminated fields, the encoding behind both messages.\<close>

definition nul_fields :: "string list \<Rightarrow> string" where
  "nul_fields fs = concat (map (\<lambda>f. f @ [NUL]) fs)"

definition sign_message :: "crypto \<Rightarrow> audit_log \<Rightarrow> string" where
  "sign_message c e =
     nul_fields [al_id e, ts_text c (al_ts e), al_actor e, al_action e,
                 uuid_str (al_session e), uuid_str (al_run e)] @
     (case al_seq e of
        Some q \<Rightarrow> nul_fields [int_dec q, al_prev_sig e]
      | None \<Rightarrow> []) @
     al_meta e"

definition sign :: "crypto \<Rightarrow> string \<Rightarrow> audit_log \<Rightarrow> string" where
  "sign c key e =
     (if key = [] then []
      else (if al_seq e \<noteq> None then chain_sig_prefix else sig_prefix) @ mac c key (sign_message c e))"

definition trim_sig_prefix :: "string \<Rightarrow> string" where
  "trim_sig_prefix s = trim_prefix (trim_prefix s sig_prefix) chain_sig_prefix"

definition verify_audit_sig :: "crypto \<Rightarrow> string \<Rightarrow> audit_log \<Rightarrow> bool" where
  "verify_audit_sig c key e =
     (if key = [] \<or> al_sig e = [] then False
      else trim_sig_prefix (al_sig e) = trim_sig_prefix (sign c key e))"

definition head_message :: "crypto \<Rightarrow> chain_head \<Rightarrow> string" where
  "head_message c h =
     ''audit-chain-head'' @ [NUL] @ int_dec (ch_seq h) @ [NUL] @ ch_last_sig h @ [NUL] @
     int_dec (ch_pruned h) @ [NUL] @ ts_text c (ch_started h)"

definition head_mac :: "crypto \<Rightarrow> string \<Rightarrow> chain_head \<Rightarrow> string" where
  "head_mac c key h = mac c key (head_message c h)"

definition head_valid :: "crypto \<Rightarrow> string \<Rightarrow> chain_head \<Rightarrow> bool" where
  "head_valid c key h \<longleftrightarrow> ch_mac h = head_mac c key h"

datatype sig_status = SigValid | SigInvalid | SigUnsigned | SigUnverifiable

definition sig_status_of :: "crypto \<Rightarrow> string \<Rightarrow> audit_log \<Rightarrow> time option \<Rightarrow> sig_status" where
  "sig_status_of c key e verified_since =
     (if al_sig e \<noteq> [] \<and> verify_audit_sig c key e then SigValid
      else case verified_since of
        Some vs \<Rightarrow>
          if al_ts e < vs then (if al_sig e = [] then SigUnsigned else SigUnverifiable)
          else SigInvalid
      | None \<Rightarrow> if al_sig e = [] then SigUnsigned else SigInvalid)"

section \<open>What is assumed of the parameters\<close>

text \<open>
  The digest is lower-case hex of a fixed positive length, timestamps are rendered without NUL and
  injectively, and distinct messages have distinct digests (the idealisation of HMAC-SHA256 that a
  symbolic model makes).
\<close>

definition crypto_ok :: "crypto \<Rightarrow> string \<Rightarrow> bool" where
  "crypto_ok c key \<longleftrightarrow>
     key \<noteq> [] \<and> inj (mac c key) \<and>
     (\<forall>m. mac c key m \<noteq> [] \<and> list_all is_hex_lower (mac c key m)) \<and>
     inj (ts_text c) \<and> (\<forall>t. NUL \<notin> set (ts_text c t))"

text \<open>Postgres text columns cannot hold NUL, the id is a UUID, and JSON escapes NUL.\<close>

definition wf_log :: "audit_log \<Rightarrow> bool" where
  "wf_log e \<longleftrightarrow>
     NUL \<notin> set (al_id e) \<and> al_id e \<noteq> ''audit-chain-head'' \<and>
     NUL \<notin> set (al_actor e) \<and> NUL \<notin> set (al_action e) \<and>
     (\<forall>s. al_session e = Some s \<longrightarrow> s \<noteq> [] \<and> NUL \<notin> set s) \<and>
     (\<forall>s. al_run e = Some s \<longrightarrow> s \<noteq> [] \<and> NUL \<notin> set s) \<and>
     NUL \<notin> set (al_prev_sig e) \<and> NUL \<notin> set (al_meta e)"

definition same_content :: "audit_log \<Rightarrow> audit_log \<Rightarrow> bool" where
  "same_content a b \<longleftrightarrow>
     al_id a = al_id b \<and> al_ts a = al_ts b \<and> al_actor a = al_actor b \<and>
     al_session a = al_session b \<and> al_run a = al_run b \<and> al_action a = al_action b \<and>
     al_meta a = al_meta b \<and> al_seq a = al_seq b \<and>
     (al_seq a \<noteq> None \<longrightarrow> al_prev_sig a = al_prev_sig b)"

section \<open>The encoding is injective\<close>

lemma nul_split: "NUL \<notin> set a \<Longrightarrow> NUL \<notin> set b \<Longrightarrow> a @ NUL # s = b @ NUL # t \<longleftrightarrow> a = b \<and> s = t"
proof (induction a arbitrary: b)
  case Nil
  then show ?case by (cases b) auto
next
  case (Cons x a)
  then show ?case by (cases b) auto
qed

lemma nul_fields_inj:
  assumes "list_all (\<lambda>f. NUL \<notin> set f) fs" "list_all (\<lambda>f. NUL \<notin> set f) gs"
    "length fs = length gs" "nul_fields fs @ s = nul_fields gs @ t"
  shows "fs = gs \<and> s = t"
  using assms(3,1,2,4)
  by (induction fs gs rule: list_induct2) (auto simp: nul_fields_def nul_split)

lemma nul_not_in_int_dec: "NUL \<notin> set (int_dec i)"
  using int_dec_chars [of NUL i] by (auto simp: is_digit_def)

lemma uuid_str_inj:
  assumes "\<forall>s. a = Some s \<longrightarrow> s \<noteq> []" "\<forall>s. b = Some s \<longrightarrow> s \<noteq> []" "uuid_str a = uuid_str b"
  shows "a = b"
  using assms by (auto simp: uuid_str_def split: option.splits)

lemma nul_uuid_str: "NUL \<in> set (uuid_str a) \<Longrightarrow> \<exists>s. a = Some s \<and> NUL \<in> set s"
  by (auto simp: uuid_str_def split: option.splits)

lemma sign_message_same:
  assumes c: "crypto_ok c key" and wf: "wf_log a" "wf_log b"
    and eq: "sign_message c a = sign_message c b"
  shows "same_content a b"
proof -
  let ?f = "\<lambda>e. [al_id e, ts_text c (al_ts e), al_actor e, al_action e,
                 uuid_str (al_session e), uuid_str (al_run e)]"
  let ?g = "\<lambda>e. (case al_seq e of Some q \<Rightarrow> nul_fields [int_dec q, al_prev_sig e] | None \<Rightarrow> []) @ al_meta e"
  have nf: "list_all (\<lambda>f. NUL \<notin> set f) (?f e)" if "wf_log e" for e
    using that c by (auto simp: wf_log_def crypto_ok_def dest!: nul_uuid_str)
  have "nul_fields (?f a) @ ?g a = nul_fields (?f b) @ ?g b"
    using eq by (simp add: sign_message_def)
  then have fields: "?f a = ?f b" and rest: "?g a = ?g b"
    using nul_fields_inj [OF nf [OF wf(1)] nf [OF wf(2)]] by auto
  have ts: "al_ts a = al_ts b" using fields c by (auto simp: crypto_ok_def dest: injD)
  have ids: "al_session a = al_session b" "al_run a = al_run b"
    using fields wf by (auto simp: wf_log_def intro!: uuid_str_inj)
  have nomix: False if "al_seq x = Some q" "al_seq y = None" "wf_log y" "?g x = ?g y" for x y q
  proof -
    have "NUL \<in> set (?g x)" using that(1) by (simp add: nul_fields_def)
    moreover have "NUL \<notin> set (?g y)" using that(2,3) by (simp add: wf_log_def)
    ultimately show False using that(4) by simp
  qed
  show ?thesis
  proof (cases "al_seq a")
    case None
    then have "al_seq b = None" using nomix [of b _ a] rest wf by (cases "al_seq b") auto
    with None fields rest ts ids show ?thesis by (simp add: same_content_def)
  next
    case (Some q)
    then obtain q' where q': "al_seq b = Some q'" using nomix [of a q b] rest wf by (cases "al_seq b") auto
    with Some rest have "nul_fields [int_dec q, al_prev_sig a] @ al_meta a =
        nul_fields [int_dec q', al_prev_sig b] @ al_meta b" by simp
    moreover have "list_all (\<lambda>f. NUL \<notin> set f) [int_dec q, al_prev_sig a]"
      "list_all (\<lambda>f. NUL \<notin> set f) [int_dec q', al_prev_sig b]"
      using wf by (auto simp: wf_log_def nul_not_in_int_dec)
    ultimately have "[int_dec q, al_prev_sig a] = [int_dec q', al_prev_sig b]" "al_meta a = al_meta b"
      using nul_fields_inj by (metis length_Cons list.size(3))+
    with Some q' fields ts ids show ?thesis
      by (auto simp: same_content_def dest: int_dec_inj)
  qed
qed

lemma head_message_inj:
  assumes c: "crypto_ok c key" and "NUL \<notin> set (ch_last_sig h)" "NUL \<notin> set (ch_last_sig g)"
    and eq: "head_message c h = head_message c g"
  shows "ch_seq h = ch_seq g \<and> ch_last_sig h = ch_last_sig g \<and> ch_pruned h = ch_pruned g \<and>
    ch_started h = ch_started g"
proof -
  have "int_dec (ch_seq h) = int_dec (ch_seq g) \<and> ch_last_sig h = ch_last_sig g \<and>
    int_dec (ch_pruned h) = int_dec (ch_pruned g) \<and>
    ts_text c (ch_started h) = ts_text c (ch_started g)"
    using eq assms(2,3) by (simp add: head_message_def nul_split nul_not_in_int_dec)
  then show ?thesis using c by (auto simp: crypto_ok_def dest: int_dec_inj injD)
qed

lemma head_message_not_entry: "wf_log e \<Longrightarrow> head_message c h \<noteq> sign_message c e"
proof
  assume wf: "wf_log e" and "head_message c h = sign_message c e"
  then have "''audit-chain-head'' @ NUL # s = al_id e @ NUL # t" if
    "s = int_dec (ch_seq h) @ [NUL] @ ch_last_sig h @ [NUL] @ int_dec (ch_pruned h) @ [NUL] @ ts_text c (ch_started h)"
    "t = nul_fields [ts_text c (al_ts e), al_actor e, al_action e, uuid_str (al_session e), uuid_str (al_run e)] @
      (case al_seq e of Some q \<Rightarrow> nul_fields [int_dec q, al_prev_sig e] | None \<Rightarrow> []) @ al_meta e" for s t
    using that by (simp add: head_message_def sign_message_def nul_fields_def)
  then have "''audit-chain-head'' = al_id e"
    using wf nul_split [of "''audit-chain-head''" "al_id e"] by (auto simp: wf_log_def)
  with wf show False by (simp add: wf_log_def)
qed

section \<open>Verification\<close>

lemma hex_no_prefix:
  assumes "list_all is_hex_lower d"
  shows "\<not> has_prefix d sig_prefix" "\<not> has_prefix d chain_sig_prefix"
  using assms
  by (cases d; auto simp: has_prefix_def sig_prefix_def chain_sig_prefix_def is_hex_lower_def is_digit_def)+

lemma trim_digest:
  assumes "list_all is_hex_lower d"
  shows "trim_sig_prefix d = d" "trim_sig_prefix (sig_prefix @ d) = d"
    "trim_sig_prefix (chain_sig_prefix @ d) = d"
proof -
  note np = hex_no_prefix [OF assms]
  have "\<not> has_prefix (chain_sig_prefix @ d) sig_prefix"
    by (simp add: has_prefix_def chain_sig_prefix_def sig_prefix_def)
  then show "trim_sig_prefix (chain_sig_prefix @ d) = d"
    by (simp add: trim_sig_prefix_def trim_prefix_def [of _ sig_prefix])
  from np show "trim_sig_prefix d = d" "trim_sig_prefix (sig_prefix @ d) = d"
    by (simp_all add: trim_sig_prefix_def trim_prefix_def [of d])
qed

lemma trim_sign:
  "crypto_ok c key \<Longrightarrow> trim_sig_prefix (sign c key e) = mac c key (sign_message c e)"
  by (auto simp: sign_def crypto_ok_def trim_digest)

lemma verify_iff:
  "crypto_ok c key \<Longrightarrow>
   verify_audit_sig c key e \<longleftrightarrow>
     al_sig e \<noteq> [] \<and> trim_sig_prefix (al_sig e) = mac c key (sign_message c e)"
  by (auto simp: verify_audit_sig_def trim_sign) (auto simp: crypto_ok_def)

lemma sign_nonempty: "crypto_ok c key \<Longrightarrow> sign c key e \<noteq> []"
  by (auto simp: sign_def crypto_ok_def)

lemma sign_message_sig [simp]: "sign_message c (e\<lparr>al_sig := s\<rparr>) = sign_message c e"
  by (simp add: sign_message_def split: option.split)

lemma sign_sig [simp]: "sign c key (e\<lparr>al_sig := s\<rparr>) = sign c key e"
  by (simp add: sign_def)

lemma verify_signed: "crypto_ok c key \<Longrightarrow> verify_audit_sig c key (e\<lparr>al_sig := sign c key e\<rparr>)"
  by (simp add: verify_iff sign_nonempty trim_sign)

lemma verify_ok_status: "verify_audit_sig c key e \<Longrightarrow> sig_status_of c key e vs = SigValid"
  by (auto simp: sig_status_of_def verify_audit_sig_def)

lemma nul_not_in_hex: "list_all is_hex_lower d \<Longrightarrow> NUL \<notin> set d"
  by (auto simp: list_all_iff is_hex_lower_def is_digit_def)

lemma nul_not_in_sign: "crypto_ok c key \<Longrightarrow> NUL \<notin> set (sign c key e)"
  using nul_not_in_hex by (auto simp: sign_def crypto_ok_def chain_sig_prefix_def sig_prefix_def)

section \<open>An instance of the parameters\<close>

text \<open>Hex of key and message, and decimal timestamps, satisfy the assumptions.\<close>

definition hex_char :: "nat \<Rightarrow> char" where
  "hex_char n = (if n < 10 then char_of (48 + n) else char_of (87 + n))"

definition hex_byte :: "char \<Rightarrow> string" where
  "hex_byte c = [hex_char (of_char c div 16), hex_char (of_char c mod 16)]"

definition hex_encode :: "string \<Rightarrow> string" where
  "hex_encode s = concat (map hex_byte s)"

definition hex_crypto :: crypto where
  "hex_crypto = \<lparr>mac = (\<lambda>key m. hex_encode (key @ m)), ts_text = int_dec\<rparr>"

lemma of_hex_char: "n < 16 \<Longrightarrow> (of_char (hex_char n) :: nat) = (if n < 10 then 48 + n else 87 + n)"
  by (simp add: hex_char_def)

lemma hex_char_inj: "m < 16 \<Longrightarrow> n < 16 \<Longrightarrow> hex_char m = hex_char n \<Longrightarrow> m = n"
proof -
  assume m: "m < 16" and n: "n < 16" and "hex_char m = hex_char n"
  then have "(of_char (hex_char m) :: nat) = of_char (hex_char n)" by metis
  then have "(if m < 10 then 48 + m else 87 + m) = (if n < 10 then 48 + n else 87 + n)"
    by (simp only: of_hex_char [OF m] of_hex_char [OF n])
  then show "m = n" by (simp split: if_splits)
qed

lemma high_nibble: "(of_char c :: nat) div 16 < 16"
  using nat_of_char_less_256 [of c] by (simp add: div_less_iff_less_mult)

lemma hex_byte_inj: "hex_byte a = hex_byte b \<Longrightarrow> a = b"
proof -
  assume eq: "hex_byte a = hex_byte b"
  have lt: "(of_char c :: nat) div 16 < 16" for c
    by (rule high_nibble)
  have "(of_char a :: nat) div 16 = of_char b div 16" "(of_char a :: nat) mod 16 = of_char b mod 16"
    using eq hex_char_inj [OF lt lt] hex_char_inj by (auto simp: hex_byte_def)
  then have "(of_char a :: nat) = of_char b" by (metis div_mult_mod_eq)
  then show "a = b" by (simp add: of_char_eq_iff)
qed

lemma hex_encode_inj: "hex_encode s = hex_encode t \<Longrightarrow> s = t"
proof (induction s arbitrary: t)
  case Nil
  then show ?case by (cases t) (auto simp: hex_encode_def hex_byte_def)
next
  case (Cons a s)
  then obtain b u where t: "t = b # u" by (cases t) (auto simp: hex_encode_def hex_byte_def)
  with Cons.prems have "hex_byte a = hex_byte b" "hex_encode s = hex_encode u"
    by (simp_all add: hex_encode_def hex_byte_def)
  with Cons.IH t hex_byte_inj show ?case by blast
qed

lemma hex_encode_hex: "list_all is_hex_lower (hex_encode s)"
proof -
  have "is_hex_lower (hex_char n)" if "n < 16" for n
    using of_hex_char [OF that] that by (auto simp: is_hex_lower_def is_digit_def)
  moreover have "(of_char c :: nat) div 16 < 16" for c
    by (rule high_nibble)
  ultimately show ?thesis
    by (auto simp: hex_encode_def hex_byte_def list_all_iff)
qed

lemma hex_crypto_ok: "crypto_ok hex_crypto ''k''"
proof -
  have "inj (\<lambda>m. hex_encode (''k'' @ m))"
    by (rule injI) (auto dest: hex_encode_inj)
  moreover have "inj int_dec" by (rule injI) (rule int_dec_inj)
  moreover have "hex_encode (''k'' @ m) \<noteq> []" for m
    by (simp add: hex_encode_def hex_byte_def)
  ultimately show ?thesis
    by (simp add: crypto_ok_def hex_crypto_def hex_encode_hex nul_not_in_int_dec)
qed

record audit_db =
  rows :: "audit_log list"
  head_row :: "chain_head option"

section \<open>Queries\<close>

definition chained :: "audit_db \<Rightarrow> audit_log list" where
  "chained db = sort_key (\<lambda>e. the (al_seq e)) (filter (\<lambda>e. al_seq e \<noteq> None) (rows db))"

definition last_chained :: "audit_db \<Rightarrow> audit_log option" where
  "last_chained db = (if chained db = [] then None else Some (last (chained db)))"

text \<open>\<open>INSERT\<close> under the unique index on \<open>seq\<close>.\<close>

definition create_audit_log :: "audit_db \<Rightarrow> audit_log \<Rightarrow> audit_db option" where
  "create_audit_log db e =
     (if al_seq e \<noteq> None \<and> list_ex (\<lambda>r. al_seq r = al_seq e) (rows db) then None
      else Some (db\<lparr>rows := rows db @ [e]\<rparr>))"

definition delete_seq_through :: "audit_db \<Rightarrow> int \<Rightarrow> audit_db" where
  "delete_seq_through db s =
     db\<lparr>rows := filter (\<lambda>e. case al_seq e of Some q \<Rightarrow> s < q | None \<Rightarrow> True) (rows db)\<rparr>"

definition delete_unchained_before :: "audit_db \<Rightarrow> time \<Rightarrow> time option \<Rightarrow> audit_db" where
  "delete_unchained_before db before chain_start =
     (let cut = (case chain_start of Some s \<Rightarrow> if s < before then s else before | None \<Rightarrow> before)
      in db\<lparr>rows := filter (\<lambda>e. al_seq e \<noteq> None \<or> \<not> al_ts e < cut) (rows db)\<rparr>)"

definition delete_old_audit_logs :: "audit_db \<Rightarrow> time \<Rightarrow> audit_db" where
  "delete_old_audit_logs db before = db\<lparr>rows := filter (\<lambda>e. \<not> al_ts e < before) (rows db)\<rparr>"

section \<open>Append\<close>

definition new_head :: "crypto \<Rightarrow> string \<Rightarrow> time \<Rightarrow> chain_head" where
  "new_head c key t0 =
     (let h = \<lparr>ch_seq = 0, ch_last_sig = [], ch_pruned = 0, ch_started = t0, ch_mac = []\<rparr>
      in h\<lparr>ch_mac := head_mac c key h\<rparr>)"

text \<open>The head row as \<open>logChained\<close> finds or creates it.\<close>

definition ensure_head :: "crypto \<Rightarrow> string \<Rightarrow> time \<Rightarrow> audit_db \<Rightarrow> audit_db" where
  "ensure_head c key t0 db =
     (case head_row db of
        Some h \<Rightarrow> db
      | None \<Rightarrow> if last_chained db = None then db\<lparr>head_row := Some (new_head c key t0)\<rparr> else db)"

definition advance_head :: "crypto \<Rightarrow> string \<Rightarrow> chain_head \<Rightarrow> int \<Rightarrow> string \<Rightarrow> chain_head" where
  "advance_head c key h sq sg =
     (let h' = h\<lparr>ch_seq := sq, ch_last_sig := sg\<rparr> in h'\<lparr>ch_mac := head_mac c key h'\<rparr>)"

definition make_entry :: "crypto \<Rightarrow> string \<Rightarrow> time \<Rightarrow> int \<Rightarrow> string \<Rightarrow> audit_log \<Rightarrow> audit_log" where
  "make_entry c key t1 sq prev entry =
     (let e = entry\<lparr>al_seq := Some sq, al_prev_sig := prev, al_ts := t1\<rparr>
      in e\<lparr>al_sig := sign c key e\<rparr>)"

definition log_chained ::
  "crypto \<Rightarrow> string \<Rightarrow> time \<Rightarrow> time \<Rightarrow> audit_db \<Rightarrow> audit_log \<Rightarrow> audit_db option" where
  "log_chained c key t0 t1 db entry =
     (let db1 = ensure_head c key t0 db;
          trusted = (case head_row db1 of Some h \<Rightarrow> head_valid c key h | None \<Rightarrow> False);
          (sq, prev) =
            (if trusted then (ch_seq (the (head_row db1)), ch_last_sig (the (head_row db1)))
             else case last_chained db1 of
               Some e \<Rightarrow> (the (al_seq e), al_sig e)
             | None \<Rightarrow> (0, []));
          e = make_entry c key t1 (sq + 1) prev entry
      in case create_audit_log db1 e of
           None \<Rightarrow> None
         | Some db2 \<Rightarrow>
             Some (if trusted
                   then db2\<lparr>head_row := Some (advance_head c key (the (head_row db1)) (sq + 1) (al_sig e))\<rparr>
                   else db2))"

text \<open>\<open>Log\<close>: errors are logged and dropped, the caller continues.\<close>

record audit_event =
  ev_actor :: string
  ev_session :: "string option"
  ev_run :: "string option"
  ev_action :: string
  ev_meta :: "string option"

definition event_entry :: "string \<Rightarrow> time \<Rightarrow> audit_event \<Rightarrow> audit_log" where
  "event_entry new_id t ev =
     \<lparr>al_id = new_id, al_ts = t, al_actor = ev_actor ev, al_session = ev_session ev,
      al_run = ev_run ev, al_action = ev_action ev,
      al_meta = (case ev_meta ev of None \<Rightarrow> ''{}'' | Some m \<Rightarrow> m),
      al_seq = None, al_prev_sig = [], al_sig = []\<rparr>"

definition log_event ::
  "crypto \<Rightarrow> string \<Rightarrow> string \<Rightarrow> time \<Rightarrow> time \<Rightarrow> time \<Rightarrow> audit_event \<Rightarrow> audit_db \<Rightarrow> audit_db" where
  "log_event c key new_id t t0 t1 ev db =
     (let entry = event_entry new_id t ev;
          res = (if key \<noteq> [] then log_chained c key t0 t1 db entry else create_audit_log db entry)
      in case res of None \<Rightarrow> db | Some db' \<Rightarrow> db')"

section \<open>Retention\<close>

datatype prune_problem =
    EntryMissing int
  | FailsVerification int
  | ClaimsPredecessor int
  | MismatchPrev int int
  | DatedEarlier int int
  | MovedBack int
  | HeadBad

record prefix_state =
  ps_last :: int
  ps_prev_seq :: int
  ps_prev_sig :: string
  ps_prev_time :: time
  ps_first :: bool
  ps_expect :: int

definition prefix_problem :: "crypto \<Rightarrow> string \<Rightarrow> prefix_state \<Rightarrow> audit_log \<Rightarrow> prune_problem option" where
  "prefix_problem c key st e =
     (let sq = the (al_seq e) in
      if sq \<noteq> ps_expect st then Some (EntryMissing (ps_expect st))
      else if al_sig e = [] \<or> \<not> verify_audit_sig c key e then Some (FailsVerification sq)
      else if ps_first st \<and> sq = 1 \<and> al_prev_sig e \<noteq> [] then Some (ClaimsPredecessor sq)
      else if \<not> ps_first st \<and> al_prev_sig e \<noteq> ps_prev_sig st then Some (MismatchPrev sq (ps_prev_seq st))
      else if \<not> ps_first st \<and> al_ts e < ps_prev_time st then Some (DatedEarlier sq (ps_prev_seq st))
      else None)"

text \<open>The row loop of \<open>oldPrefix\<close>: the problem met, if any, the last good number, where it stopped.\<close>

fun prefix_loop ::
  "crypto \<Rightarrow> string \<Rightarrow> time \<Rightarrow> prefix_state \<Rightarrow> audit_log list \<Rightarrow> prune_problem option \<times> int \<times> int" where
  "prefix_loop c key before st [] = (None, ps_last st, 0)"
| "prefix_loop c key before st (e # es) =
     (if \<not> al_ts e < before then (None, ps_last st, the (al_seq e))
      else case prefix_problem c key st e of
        Some p \<Rightarrow> (Some p, ps_last st, 0)
      | None \<Rightarrow>
          let sq = the (al_seq e)
          in prefix_loop c key before
               \<lparr>ps_last = sq, ps_prev_seq = sq, ps_prev_sig = al_sig e, ps_prev_time = al_ts e,
                ps_first = False, ps_expect = sq + 1\<rparr> es)"

definition old_prefix ::
  "crypto \<Rightarrow> string \<Rightarrow> time \<Rightarrow> audit_db \<Rightarrow> chain_head \<Rightarrow> prune_problem + int" where
  "old_prefix c key before db h =
     (let st0 = \<lparr>ps_last = 0, ps_prev_seq = 0, ps_prev_sig = [], ps_prev_time = 0,
                 ps_first = True, ps_expect = ch_pruned h + 1\<rparr>;
          (problem, lst, stopped) = prefix_loop c key before st0 (chained db);
          moved = (if problem = None \<and> 0 < stopped
                   then find (\<lambda>e. stopped < the (al_seq e) \<and> al_ts e < before) (chained db)
                   else None)
      in case problem of
           Some p \<Rightarrow> Inl p
         | None \<Rightarrow> (case moved of Some e \<Rightarrow> Inl (MovedBack (the (al_seq e))) | None \<Rightarrow> Inr lst))"

definition prune_head :: "crypto \<Rightarrow> string \<Rightarrow> chain_head \<Rightarrow> int \<Rightarrow> chain_head" where
  "prune_head c key h lst =
     (let h' = h\<lparr>ch_pruned := lst\<rparr> in h'\<lparr>ch_mac := head_mac c key h'\<rparr>)"

text \<open>The number of deleted rows and the new tables, or the reason nothing was deleted.\<close>

definition prune :: "crypto \<Rightarrow> string \<Rightarrow> time \<Rightarrow> audit_db \<Rightarrow> prune_problem + (nat \<times> audit_db)" where
  "prune c key before db =
     (if key = [] then
        let db' = delete_old_audit_logs db before
        in Inr (length (rows db) - length (rows db'), db')
      else case head_row db of
        None \<Rightarrow>
          if chained db \<noteq> [] then Inl HeadBad
          else let db' = delete_unchained_before db before None
               in Inr (length (rows db) - length (rows db'), db')
      | Some h \<Rightarrow>
          if \<not> head_valid c key h then Inl HeadBad
          else case old_prefix c key before db h of
            Inl p \<Rightarrow> Inl p
          | Inr lst \<Rightarrow>
              let db1 = (if 0 < lst
                         then (delete_seq_through db lst)\<lparr>head_row := Some (prune_head c key h lst)\<rparr>
                         else db);
                  db2 = delete_unchained_before db1 before (Some (ch_started h))
              in Inr (length (rows db) - length (rows db2), db2))"

end
