(* ===== verification/AuditScan.thy ===== *)
theory AuditScan
  imports AuditSign
begin

text \<open>
  \<open>internal/audit/chain.go\<close>, the reader side: \<open>classify\<close> for one entry of a page, \<open>scan\<close> for the
  verdict over the whole log, and \<open>ScopedTo\<close> for the view of one key.  Explanatory texts
  (\<open>reasonDetail\<close>) and the minute cache around \<open>scan\<close> are left out; every number, reason, kind and
  list of the verdict is kept.
\<close>

section \<open>Reasons\<close>

datatype reason =
    Changed | SigRemoved | SeqRemoved | Unchained | PrevMissing | PrevChanged | FirstHasParent

datatype kind = KindAltered | KindChain

fun reason_kind :: "reason option \<Rightarrow> kind option" where
  "reason_kind (Some PrevChanged) = Some KindChain"
| "reason_kind (Some PrevMissing) = Some KindChain"
| "reason_kind None = None"
| "reason_kind (Some _) = Some KindAltered"

definition head_ok :: "crypto \<Rightarrow> string \<Rightarrow> audit_db \<Rightarrow> chain_head option" where
  "head_ok c key db =
     (case head_row db of Some h \<Rightarrow> if head_valid c key h then Some h else None | None \<Rightarrow> None)"

section \<open>\<open>classify\<close>\<close>

definition pred_of :: "audit_db \<Rightarrow> int \<Rightarrow> audit_log option" where
  "pred_of db q = find (\<lambda>e. al_seq e = Some q) (rows db)"

definition classify ::
  "crypto \<Rightarrow> string \<Rightarrow> audit_db \<Rightarrow> time option \<Rightarrow> audit_log \<Rightarrow> sig_status \<times> reason option" where
  "classify c key db vs e =
     (case al_seq e of
        None \<Rightarrow>
          if al_sig e \<noteq> [] \<and> verify_audit_sig c key e then (SigValid, None)
          else if has_prefix (al_sig e) chain_sig_prefix then (SigInvalid, Some SeqRemoved)
          else if (case head_ok c key db of Some h \<Rightarrow> \<not> al_ts e < ch_started h | None \<Rightarrow> False)
          then (SigInvalid, Some (if al_sig e = [] then SigRemoved else Unchained))
          else let s = sig_status_of c key e vs
               in if s = SigInvalid then (s, Some Changed) else (s, None)
      | Some sq \<Rightarrow>
          if al_sig e = [] then (SigInvalid, Some SigRemoved)
          else if \<not> verify_audit_sig c key e then (SigInvalid, Some Changed)
          else if sq = 1 then
            (if al_prev_sig e \<noteq> [] then (SigInvalid, Some FirstHasParent) else (SigValid, None))
          else case pred_of db (sq - 1) of
            Some p \<Rightarrow>
              if al_sig p \<noteq> al_prev_sig e then (SigInvalid, Some PrevChanged) else (SigValid, None)
          | None \<Rightarrow>
              let pruned = (case head_ok c key db of Some h \<Rightarrow> ch_pruned h | None \<Rightarrow> 0)
              in if pruned < sq - 1 then (SigInvalid, Some PrevMissing) else (SigValid, None))"

section \<open>The verdict\<close>

datatype integrity_status = IntegrityOK | IntegrityCompromised | IntegrityNotStarted | IntegrityDisabled

datatype problem =
    HeadMissing
  | HeadAltered
  | HeadBehind
  | HeadMismatch
  | ProbAltered int
  | ProbAffected int
  | ProbMissing int
  | ProbOwnAltered int
  | ProbOwnAffected int
  | ProbOther int

record integrity_entry =
  ie_id :: string
  ie_seq :: "int option"
  ie_kind :: kind
  ie_reason :: reason
  ie_out_of_order :: bool
  ie_actor :: string

record integrity =
  ig_status :: integrity_status
  ig_scope_all :: bool
  ig_chained :: int
  ig_legacy :: int
  ig_invalid :: int
  ig_altered :: int
  ig_affected :: int
  ig_missing :: int
  ig_problems :: "problem list"
  ig_own_invalid :: "int option"
  ig_other_invalid :: "int option"
  ig_entries :: "integrity_entry list"
  ig_missing_seqs :: "string list"
  ig_all :: "integrity_entry list"
  ig_head_problems :: "problem list"
  ig_chained_by :: "string \<Rightarrow> int"
  ig_legacy_by :: "string \<Rightarrow> int"

definition max_reported :: nat where
  "max_reported = 25"

definition max_tracked :: nat where
  "max_tracked = 10000"

definition empty_integrity :: integrity where
  "empty_integrity =
     \<lparr>ig_status = IntegrityOK, ig_scope_all = True, ig_chained = 0, ig_legacy = 0, ig_invalid = 0,
      ig_altered = 0, ig_affected = 0, ig_missing = 0, ig_problems = [], ig_own_invalid = None,
      ig_other_invalid = None, ig_entries = [], ig_missing_seqs = [], ig_all = [],
      ig_head_problems = [], ig_chained_by = (\<lambda>_. 0), ig_legacy_by = (\<lambda>_. 0)\<rparr>"

definition append_range :: "string list \<Rightarrow> int \<Rightarrow> int \<Rightarrow> string list" where
  "append_range rs lo hi =
     (if max_reported \<le> length rs then rs
      else if lo = hi then rs @ [int_dec lo]
      else rs @ [int_dec lo @ ''-'' @ int_dec hi])"

definition add_invalid :: "audit_log \<Rightarrow> reason \<Rightarrow> bool \<Rightarrow> integrity \<Rightarrow> integrity" where
  "add_invalid e r ooo ig =
     (let k = the (reason_kind (Some r));
          ie = \<lparr>ie_id = al_id e, ie_seq = al_seq e, ie_kind = k, ie_reason = r,
                ie_out_of_order = ooo, ie_actor = al_actor e\<rparr>
      in ig\<lparr>ig_invalid := ig_invalid ig + 1,
            ig_affected := ig_affected ig + (if k = KindChain then 1 else 0),
            ig_altered := ig_altered ig + (if k = KindChain then 0 else 1),
            ig_all := (if length (ig_all ig) < max_tracked then ig_all ig @ [ie] else ig_all ig),
            ig_entries := (if length (ig_entries ig) < max_reported then ig_entries ig @ [ie]
                           else ig_entries ig)\<rparr>)"

definition add_missing :: "int \<Rightarrow> int \<Rightarrow> integrity \<Rightarrow> integrity" where
  "add_missing lo hi ig =
     ig\<lparr>ig_missing := ig_missing ig + (hi - lo + 1),
        ig_missing_seqs := append_range (ig_missing_seqs ig) lo hi\<rparr>"

definition add_problem :: "problem \<Rightarrow> integrity \<Rightarrow> integrity" where
  "add_problem p ig = ig\<lparr>ig_problems := ig_problems ig @ [p]\<rparr>"

subsection \<open>The loop over chained rows\<close>

text \<open>What the loop remembers of the previous row; \<open>None\<close> before the first one.\<close>

record prev_row =
  pr_seq :: int
  pr_sig :: string
  pr_time :: time

definition row_reason :: "crypto \<Rightarrow> string \<Rightarrow> audit_log \<Rightarrow> bool \<Rightarrow> bool \<Rightarrow> string \<Rightarrow> reason option" where
  "row_reason c key e contiguous gap prev_sig =
     (if al_sig e = [] then Some SigRemoved
      else if \<not> verify_audit_sig c key e then Some Changed
      else if al_seq e = Some 1 \<and> al_prev_sig e \<noteq> [] then Some FirstHasParent
      else if contiguous \<and> al_prev_sig e \<noteq> prev_sig then Some PrevChanged
      else if gap then Some PrevMissing
      else None)"

definition contiguous :: "prev_row option \<Rightarrow> audit_log \<Rightarrow> bool" where
  "contiguous prev e = (case prev of Some p \<Rightarrow> the (al_seq e) = pr_seq p + 1 | None \<Rightarrow> False)"

definition gap_before :: "int \<Rightarrow> prev_row option \<Rightarrow> audit_log \<Rightarrow> bool" where
  "gap_before expect_next prev e =
     (case prev of
        Some p \<Rightarrow> \<not> contiguous prev e
      | None \<Rightarrow> 0 < expect_next \<and> expect_next < the (al_seq e))"

definition row_verdict :: "crypto \<Rightarrow> string \<Rightarrow> int \<Rightarrow> prev_row option \<Rightarrow> audit_log \<Rightarrow> reason option" where
  "row_verdict c key expect_next prev e =
     row_reason c key e (contiguous prev e) (gap_before expect_next prev e)
       (case prev of Some p \<Rightarrow> pr_sig p | None \<Rightarrow> [])"

definition scan_row ::
  "crypto \<Rightarrow> string \<Rightarrow> int \<Rightarrow> audit_log \<Rightarrow> prev_row option \<times> integrity \<Rightarrow> prev_row option \<times> integrity" where
  "scan_row c key expect_next e st =
     (case st of (prev, ig) \<Rightarrow>
       let sq = the (al_seq e);
           lo = (case prev of Some p \<Rightarrow> pr_seq p + 1 | None \<Rightarrow> expect_next);
           ig1 = ig\<lparr>ig_chained := ig_chained ig + 1,
                   ig_chained_by := (ig_chained_by ig)(al_actor e := ig_chained_by ig (al_actor e) + 1)\<rparr>;
           ig2 = (if gap_before expect_next prev e then add_missing lo (sq - 1) ig1 else ig1);
           ooo = (contiguous prev e \<and> (case prev of Some p \<Rightarrow> al_ts e < pr_time p | None \<Rightarrow> False));
           ig3 = (case row_verdict c key expect_next prev e of
                    Some r \<Rightarrow> add_invalid e r ooo ig2
                  | None \<Rightarrow> ig2)
       in (Some \<lparr>pr_seq = sq, pr_sig = al_sig e, pr_time = al_ts e\<rparr>, ig3))"

fun scan_rows ::
  "crypto \<Rightarrow> string \<Rightarrow> int \<Rightarrow> audit_log list \<Rightarrow> prev_row option \<times> integrity \<Rightarrow> prev_row option \<times> integrity" where
  "scan_rows c key expect_next [] st = st"
| "scan_rows c key expect_next (e # es) st =
     scan_rows c key expect_next es (scan_row c key expect_next e st)"

subsection \<open>The head, unchained rows and the verdict\<close>

definition scan_head ::
  "crypto \<Rightarrow> string \<Rightarrow> audit_db \<Rightarrow> prev_row option \<Rightarrow> integrity \<Rightarrow> integrity" where
  "scan_head c key db lst ig =
     (case head_row db of
        None \<Rightarrow> if lst \<noteq> None then add_problem HeadMissing ig else ig
      | Some h \<Rightarrow>
          if \<not> head_valid c key h then add_problem HeadAltered ig
          else case lst of
            None \<Rightarrow> if ch_pruned h < ch_seq h then add_missing (ch_pruned h + 1) (ch_seq h) ig else ig
          | Some p \<Rightarrow>
              if pr_seq p < ch_seq h then add_missing (pr_seq p + 1) (ch_seq h) ig
              else if ch_seq h < pr_seq p then add_problem HeadBehind ig
              else if pr_sig p \<noteq> ch_last_sig h then add_problem HeadMismatch ig
              else ig)"

definition unchained_reason :: "crypto \<Rightarrow> string \<Rightarrow> audit_log \<Rightarrow> reason option" where
  "unchained_reason c key e =
     (if al_sig e = [] then Some SigRemoved
      else if \<not> verify_audit_sig c key e then
        (if has_prefix (al_sig e) chain_sig_prefix then Some SeqRemoved else Some Changed)
      else None)"

definition scan_unchained :: "crypto \<Rightarrow> string \<Rightarrow> audit_db \<Rightarrow> integrity \<Rightarrow> integrity" where
  "scan_unchained c key db ig =
     (case head_ok c key db of
        None \<Rightarrow> ig
      | Some h \<Rightarrow>
          fold (\<lambda>e ig. case unchained_reason c key e of
                         Some r \<Rightarrow> add_invalid e r False ig
                       | None \<Rightarrow> ig)
            (filter (\<lambda>e. al_seq e = None \<and> \<not> al_ts e < ch_started h) (rows db)) ig)"

definition count_legacy :: "audit_db \<Rightarrow> integrity \<Rightarrow> integrity" where
  "count_legacy db ig =
     (let ls = filter (\<lambda>e. al_seq e = None) (rows db)
      in ig\<lparr>ig_legacy_by := (\<lambda>a. int (length (filter (\<lambda>e. al_actor e = a) ls))),
            ig_legacy := int (length ls)\<rparr>)"

definition conclude :: "audit_db \<Rightarrow> bool \<Rightarrow> integrity \<Rightarrow> integrity" where
  "conclude db have_chain ig =
     (let ig1 = ig\<lparr>ig_head_problems := ig_problems ig\<rparr>;
          ig2 = (if 0 < ig_altered ig1 then add_problem (ProbAltered (ig_altered ig1)) ig1 else ig1);
          ig3 = (if 0 < ig_affected ig2 then add_problem (ProbAffected (ig_affected ig2)) ig2 else ig2);
          ig4 = (if 0 < ig_missing ig3 then add_problem (ProbMissing (ig_missing ig3)) ig3 else ig3)
      in ig4\<lparr>ig_status :=
           (if ig_problems ig4 \<noteq> [] then IntegrityCompromised
            else if head_row db = None \<and> \<not> have_chain then IntegrityNotStarted
            else IntegrityOK)\<rparr>)"

definition scan :: "crypto \<Rightarrow> string \<Rightarrow> audit_db \<Rightarrow> integrity" where
  "scan c key db =
     (let expect_next = (case head_ok c key db of Some h \<Rightarrow> ch_pruned h + 1 | None \<Rightarrow> 0);
          (lst, ig) = scan_rows c key expect_next (chained db) (None, empty_integrity)
      in conclude db (lst \<noteq> None)
           (count_legacy db (scan_unchained c key db (scan_head c key db lst ig))))"

definition integrity_of :: "crypto \<Rightarrow> string \<Rightarrow> audit_db \<Rightarrow> integrity" where
  "integrity_of c key db =
     (if key = [] then empty_integrity\<lparr>ig_status := IntegrityDisabled\<rparr> else scan c key db)"

subsection \<open>The view of one key\<close>

definition scoped_to :: "string \<Rightarrow> integrity \<Rightarrow> integrity" where
  "scoped_to actor ig =
     (let own = filter (\<lambda>e. ie_actor e = actor) (ig_all ig);
          n_own = int (length own);
          n_affected = int (length (filter (\<lambda>e. ie_kind e = KindChain) own));
          n_altered = int (length (filter (\<lambda>e. ie_kind e \<noteq> KindChain) own));
          other = int (length (filter (\<lambda>e. ie_actor e \<noteq> actor) (ig_all ig))) +
                  (ig_invalid ig - int (length (ig_all ig)));
          ps = ig_head_problems ig
               @ (if 0 < n_altered then [ProbOwnAltered n_altered] else [])
               @ (if 0 < n_affected then [ProbOwnAffected n_affected] else [])
               @ (if 0 < other then [ProbOther other] else [])
               @ (if 0 < ig_missing ig then [ProbMissing (ig_missing ig)] else [])
      in ig\<lparr>ig_scope_all := False, ig_entries := take max_reported own, ig_missing_seqs := [],
            ig_own_invalid := Some n_own, ig_other_invalid := Some other,
            ig_chained := ig_chained_by ig actor, ig_legacy := ig_legacy_by ig actor,
            ig_problems := ps\<rparr>)"

end
