(* ===== verification/AuditHonest.thy ===== *)
theory AuditHonest
  imports AuditScan
begin

text \<open>
  The log as the API alone writes it.  \<open>honest\<close> is the step relation of the two writers over a
  table that starts with unchained rows only (those written before signing was configured), with a
  clock that does not go back; its ghost state is the history of all chained entries and the set
  of head rows ever signed.  \<open>chain_inv\<close> is the invariant of the reachable states.
\<close>

section \<open>Linked histories\<close>

fun linked :: "crypto \<Rightarrow> string \<Rightarrow> int \<Rightarrow> string \<Rightarrow> time \<Rightarrow> audit_log list \<Rightarrow> bool" where
  "linked c key q s t [] \<longleftrightarrow> True"
| "linked c key q s t (e # es) \<longleftrightarrow>
     al_seq e = Some (q + 1) \<and> al_prev_sig e = s \<and> al_sig e = sign c key e \<and> wf_log e \<and>
     t \<le> al_ts e \<and> linked c key (q + 1) (al_sig e) (al_ts e) es"

definition last_sig_of :: "string \<Rightarrow> audit_log list \<Rightarrow> string" where
  "last_sig_of s es = (if es = [] then s else al_sig (last es))"

definition last_ts_of :: "time \<Rightarrow> audit_log list \<Rightarrow> time" where
  "last_ts_of t es = (if es = [] then t else al_ts (last es))"

lemma linked_append:
  "linked c key q s t (xs @ ys) \<longleftrightarrow>
   linked c key q s t xs \<and>
   linked c key (q + int (length xs)) (last_sig_of s xs) (last_ts_of t xs) ys"
proof (induction xs arbitrary: q s t)
  case Nil
  then show ?case by (simp add: last_sig_of_def last_ts_of_def)
next
  case (Cons x xs)
  have "last_sig_of s (x # xs) = last_sig_of (al_sig x) xs"
    "last_ts_of t (x # xs) = last_ts_of (al_ts x) xs"
    by (simp_all add: last_sig_of_def last_ts_of_def)
  then show ?case by (auto simp: Cons.IH algebra_simps)
qed

lemma linked_seqs: "linked c key q s t es \<Longrightarrow> map (\<lambda>e. the (al_seq e)) es = [q + 1..q + int (length es)]"
proof (induction es arbitrary: q s t)
  case (Cons e es)
  then have "map (\<lambda>e. the (al_seq e)) es = [q + 2..q + 1 + int (length es)]"
    using Cons.IH [of "q + 1"] by (auto simp: algebra_simps)
  with Cons.prems show ?case
    by (simp add: upto_rec1 [of "q + 1"]) (simp add: algebra_simps)
qed simp

lemma linked_nth:
  "linked c key q s t es \<Longrightarrow> i < length es \<Longrightarrow>
   al_seq (es ! i) = Some (q + int i + 1) \<and> wf_log (es ! i) \<and> al_sig (es ! i) = sign c key (es ! i) \<and>
   al_prev_sig (es ! i) = last_sig_of s (take i es)"
proof (induction es arbitrary: q s t i)
  case (Cons e es)
  show ?case
  proof (cases i)
    case 0
    with Cons.prems show ?thesis by (simp add: last_sig_of_def)
  next
    case (Suc j)
    with Cons.prems Cons.IH [of "q + 1" "al_sig e" "al_ts e" j] show ?thesis
      by (auto simp: last_sig_of_def)
  qed
qed simp

lemma linked_mem:
  assumes "linked c key q s t es" "e \<in> set es"
  shows "wf_log e" "al_sig e = sign c key e" "\<exists>i. al_seq e = Some i \<and> q < i \<and> i \<le> q + int (length es)"
  using assms linked_nth by (fastforce simp: in_set_conv_nth)+

lemma linked_drop:
  assumes "linked c key q s t es" "k \<le> length es"
  shows "linked c key (q + int k) (last_sig_of s (take k es)) (last_ts_of t (take k es)) (drop k es)"
  using assms linked_append [of c key q s t "take k es" "drop k es"] by (simp add: min_absorb2)

lemma linked_verify: "crypto_ok c key \<Longrightarrow> al_sig e = sign c key e \<Longrightarrow> verify_audit_sig c key e"
  by (simp add: verify_iff sign_nonempty trim_sign)

lemma linked_sorted:
  assumes "linked c key q s t es"
  shows "sort_key (\<lambda>e. the (al_seq e)) es = es"
proof (rule sort_key_id_if_sorted)
  show "sorted (map (\<lambda>e. the (al_seq e)) es)"
    using assms by (simp add: linked_seqs)
qed

lemma linked_ts: "linked c key q s t es \<Longrightarrow> e \<in> set es \<Longrightarrow> t \<le> al_ts e"
proof (induction es arbitrary: q s t)
  case (Cons x es)
  then show ?case by (auto intro: order_trans)
qed simp

section \<open>Honest runs\<close>

inductive honest ::
  "crypto \<Rightarrow> string \<Rightarrow> audit_db \<Rightarrow> audit_log list \<Rightarrow> chain_head set \<Rightarrow> time \<Rightarrow> bool"
  for c key where
  start: "\<forall>e \<in> set ls. al_seq e = None \<and> al_ts e < now \<Longrightarrow>
     honest c key \<lparr>rows = ls, head_row = None\<rparr> [] {} now"
| log: "honest c key db hist hs now \<Longrightarrow> now \<le> t0 \<Longrightarrow> t0 \<le> t1 \<Longrightarrow>
     wf_log (event_entry i t ev) \<Longrightarrow>
     log_chained c key t0 t1 db (event_entry i t ev) = Some db' \<Longrightarrow>
     honest c key db' (hist @ [last (rows db')])
       (hs \<union> set_option (head_row (ensure_head c key t0 db)) \<union> set_option (head_row db')) t1"
| prune: "honest c key db hist hs now \<Longrightarrow> prune c key before db = Inr (n, db') \<Longrightarrow>
     honest c key db' hist (hs \<union> set_option (head_row db')) now"

definition is_chained :: "audit_log \<Rightarrow> bool" where
  "is_chained e \<longleftrightarrow> al_seq e \<noteq> None"

definition head_at :: "crypto \<Rightarrow> string \<Rightarrow> audit_log list \<Rightarrow> time \<Rightarrow> chain_head \<Rightarrow> bool" where
  "head_at c key hist st h \<longleftrightarrow>
     head_valid c key h \<and> 0 \<le> ch_pruned h \<and> ch_pruned h \<le> ch_seq h \<and> ch_seq h \<le> int (length hist) \<and>
     ch_last_sig h = last_sig_of [] (take (nat (ch_seq h)) hist) \<and> ch_started h = st"

definition heads_ok ::
  "crypto \<Rightarrow> string \<Rightarrow> audit_log list \<Rightarrow> time \<Rightarrow> chain_head set \<Rightarrow> bool" where
  "heads_ok c key hist st hs \<longleftrightarrow> (\<forall>g \<in> hs. head_at c key hist st g)"

definition chain_inv ::
  "crypto \<Rightarrow> string \<Rightarrow> audit_db \<Rightarrow> audit_log list \<Rightarrow> chain_head set \<Rightarrow> time \<Rightarrow> bool" where
  "chain_inv c key db hist hs now \<longleftrightarrow>
     (case head_row db of
        None \<Rightarrow> hist = [] \<and> hs = {} \<and> filter is_chained (rows db) = [] \<and>
          (\<forall>e \<in> set (rows db). al_ts e < now)
      | Some h \<Rightarrow>
          ch_seq h = int (length hist) \<and> head_at c key hist (ch_started h) h \<and> h \<in> hs \<and>
          heads_ok c key hist (ch_started h) hs \<and>
          filter is_chained (rows db) = drop (nat (ch_pruned h)) hist \<and>
          linked c key 0 [] (ch_started h) hist \<and> ch_started h \<le> now \<and>
          (\<forall>e \<in> set (rows db). al_seq e = None \<longrightarrow> al_ts e < ch_started h)) \<and>
     (\<forall>e \<in> set hist. al_ts e \<le> now)"

lemma chained_filter: "chained db = sort_key (\<lambda>e. the (al_seq e)) (filter is_chained (rows db))"
proof -
  have "is_chained = (\<lambda>e. al_seq e \<noteq> None)" by (rule ext) (simp add: is_chained_def)
  then show ?thesis by (simp add: chained_def)
qed

text \<open>The chained rows of the table are the history after the pruned prefix.\<close>

lemma inv_chained:
  assumes "chain_inv c key db hist hs now" "head_row db = Some h"
  shows "chained db = drop (nat (ch_pruned h)) hist"
    and "linked c key (ch_pruned h) (last_sig_of [] (take (nat (ch_pruned h)) hist))
           (last_ts_of (ch_started h) (take (nat (ch_pruned h)) hist)) (chained db)"
proof -
  have l: "linked c key 0 [] (ch_started h) hist" "0 \<le> ch_pruned h" "nat (ch_pruned h) \<le> length hist"
    "filter is_chained (rows db) = drop (nat (ch_pruned h)) hist"
    using assms by (simp_all add: chain_inv_def head_at_def nat_le_iff)
  note d = linked_drop [OF l(1) l(3)]
  show eq: "chained db = drop (nat (ch_pruned h)) hist"
    using linked_sorted [OF d] l(4) by (simp add: chained_filter)
  show "linked c key (ch_pruned h) (last_sig_of [] (take (nat (ch_pruned h)) hist))
           (last_ts_of (ch_started h) (take (nat (ch_pruned h)) hist)) (chained db)"
    using d eq l(2) by simp
qed

lemma inv_no_head:
  assumes "chain_inv c key db hist hs now" "head_row db = None"
  shows "chained db = []" "last_chained db = None" "hist = []"
  using assms by (auto simp: chain_inv_def chained_filter last_chained_def)

section \<open>Append keeps the invariant\<close>

lemma head_at_mono:
  "head_at c key hist st h \<Longrightarrow> head_at c key (hist @ es) st h"
  by (auto simp: head_at_def)

lemma last_sig_of_take_append:
  "last_sig_of [] (take (nat (int (length hist) + 1)) (hist @ [e])) = al_sig e"
  by (simp add: last_sig_of_def nat_add_distrib)

lemma nul_not_last_sig:
  assumes "crypto_ok c key" "linked c key q s t es" "NUL \<notin> set s"
  shows "NUL \<notin> set (last_sig_of s es)"
proof (cases "es = []")
  case False
  with assms(2) have "al_sig (last es) = sign c key (last es)"
    by (meson last_in_set linked_mem(2))
  with False assms(1) show ?thesis by (simp add: last_sig_of_def nul_not_in_sign)
qed (simp add: last_sig_of_def assms)

lemma wf_make_entry:
  "wf_log entry \<Longrightarrow> NUL \<notin> set prev \<Longrightarrow> wf_log (make_entry c key t1 sq prev entry)"
  by (simp add: make_entry_def wf_log_def Let_def)

lemma make_entry_fields [simp]:
  "al_seq (make_entry c key t1 sq prev entry) = Some sq"
  "al_prev_sig (make_entry c key t1 sq prev entry) = prev"
  "al_ts (make_entry c key t1 sq prev entry) = t1"
  "al_sig (make_entry c key t1 sq prev entry) = sign c key (make_entry c key t1 sq prev entry)"
  by (simp_all add: make_entry_def Let_def)

lemma head_valid_new_head: "head_valid c key (new_head c key t0)"
  by (simp add: head_valid_def head_mac_def new_head_def Let_def head_message_def)

lemma head_valid_advance: "head_valid c key (advance_head c key h sq sg)"
  by (simp add: head_valid_def head_mac_def advance_head_def Let_def head_message_def)

lemma head_valid_prune_head: "head_valid c key (prune_head c key h l)"
  by (simp add: head_valid_def head_mac_def prune_head_def Let_def head_message_def)

lemma advance_head_fields [simp]:
  "ch_seq (advance_head c key h sq sg) = sq" "ch_last_sig (advance_head c key h sq sg) = sg"
  "ch_pruned (advance_head c key h sq sg) = ch_pruned h"
  "ch_started (advance_head c key h sq sg) = ch_started h"
  by (simp_all add: advance_head_def Let_def)

lemma prune_head_fields [simp]:
  "ch_seq (prune_head c key h l) = ch_seq h" "ch_last_sig (prune_head c key h l) = ch_last_sig h"
  "ch_pruned (prune_head c key h l) = l" "ch_started (prune_head c key h l) = ch_started h"
  by (simp_all add: prune_head_def Let_def)

lemma new_head_fields [simp]:
  "ch_seq (new_head c key t) = 0" "ch_last_sig (new_head c key t) = []"
  "ch_pruned (new_head c key t) = 0" "ch_started (new_head c key t) = t"
  by (simp_all add: new_head_def Let_def)

text \<open>The new entry and tables of an append in a state that satisfies the invariant.\<close>

definition next_entry :: "crypto \<Rightarrow> string \<Rightarrow> time \<Rightarrow> audit_log list \<Rightarrow> audit_log \<Rightarrow> audit_log" where
  "next_entry c key t1 hist entry =
     make_entry c key t1 (int (length hist) + 1) (last_sig_of [] hist) entry"

lemma no_dup_seq:
  assumes "filter is_chained rs = drop k hist" "linked c key 0 [] st hist"
  shows "\<not> list_ex (\<lambda>r. al_seq r = Some (int (length hist) + 1)) rs"
proof
  assume "list_ex (\<lambda>r. al_seq r = Some (int (length hist) + 1)) rs"
  then obtain r where r: "r \<in> set rs" "al_seq r = Some (int (length hist) + 1)"
    by (auto simp: list_ex_iff)
  then have "r \<in> set (filter is_chained rs)" by (simp add: is_chained_def)
  then have "r \<in> set hist" using assms(1) by (metis in_set_dropD)
  with linked_mem(3) [OF assms(2)] r(2) show False by fastforce
qed

lemma log_chained_honest:
  fixes t0 t1 :: time and entry :: audit_log
  assumes inv: "chain_inv c key db hist hs now"
  defines "h1 \<equiv> the (head_row (ensure_head c key t0 db))"
  defines "e \<equiv> next_entry c key t1 hist entry"
  shows "head_row (ensure_head c key t0 db) = Some h1"
    and "log_chained c key t0 t1 db entry =
      Some \<lparr>rows = rows db @ [e],
            head_row = Some (advance_head c key h1 (int (length hist) + 1) (al_sig e))\<rparr>"
proof -
  have "head_row (ensure_head c key t0 db) = Some h1 \<and> head_valid c key h1 \<and>
    ch_seq h1 = int (length hist) \<and> ch_last_sig h1 = last_sig_of [] hist \<and>
    rows (ensure_head c key t0 db) = rows db \<and>
    \<not> list_ex (\<lambda>r. al_seq r = Some (int (length hist) + 1)) (rows db)"
  proof (cases "head_row db")
    case None
    note n = inv_no_head [OF inv None]
    with None have "ensure_head c key t0 db = db\<lparr>head_row := Some (new_head c key t0)\<rparr>"
      by (simp add: ensure_head_def)
    moreover have "\<not> list_ex (\<lambda>r. al_seq r = Some (int (length hist) + 1)) (rows db)"
      using inv None by (intro no_dup_seq [where k = 0 and st = 0]) (simp_all add: chain_inv_def)
    ultimately show ?thesis using n by (simp add: h1_def head_valid_new_head last_sig_of_def)
  next
    case (Some h)
    then have "ensure_head c key t0 db = db" "h1 = h" by (simp_all add: ensure_head_def h1_def)
    moreover have "\<not> list_ex (\<lambda>r. al_seq r = Some (int (length hist) + 1)) (rows db)"
      using inv Some by (intro no_dup_seq) (auto simp: chain_inv_def)
    ultimately show ?thesis using inv Some by (auto simp: chain_inv_def head_at_def)
  qed
  then show "head_row (ensure_head c key t0 db) = Some h1"
    and "log_chained c key t0 t1 db entry =
      Some \<lparr>rows = rows db @ [e],
            head_row = Some (advance_head c key h1 (int (length hist) + 1) (al_sig e))\<rparr>"
    by (simp_all add: log_chained_def e_def next_entry_def create_audit_log_def Let_def)
qed

lemma chain_inv_log:
  fixes t0 t1 :: time and entry :: audit_log
  assumes inv: "chain_inv c key db hist hs now" and c: "crypto_ok c key"
    and t: "now \<le> t0" "t0 \<le> t1" and wf: "wf_log entry"
    and log: "log_chained c key t0 t1 db entry = Some db'"
  shows "chain_inv c key db' (hist @ [last (rows db')])
    (hs \<union> set_option (head_row (ensure_head c key t0 db)) \<union> set_option (head_row db')) t1"
proof -
  define h1 where "h1 = the (head_row (ensure_head c key t0 db))"
  define e where "e = next_entry c key t1 hist entry"
  define h2 where "h2 = advance_head c key h1 (int (length hist) + 1) (al_sig e)"
  have h1: "head_row (ensure_head c key t0 db) = Some h1" and db': "db' = \<lparr>rows = rows db @ [e], head_row = Some h2\<rparr>"
    using log_chained_honest(1) [OF inv, where ?t0.0 = t0]
      log_chained_honest(2) [OF inv, where ?t0.0 = t0 and ?t1.0 = t1 and entry = entry] log
    by (simp_all add: h1_def e_def h2_def)
  have base: "head_at c key hist (ch_started h1) h1 \<and> heads_ok c key hist (ch_started h1) hs \<and>
     filter is_chained (rows db) = drop (nat (ch_pruned h1)) hist \<and>
     linked c key 0 [] (ch_started h1) hist \<and> ch_started h1 \<le> t0 \<and> 0 \<le> ch_pruned h1 \<and>
     ch_pruned h1 \<le> int (length hist) \<and>
     (\<forall>x \<in> set (rows db). al_seq x = None \<longrightarrow> al_ts x < ch_started h1) \<and>
     last_ts_of (ch_started h1) hist \<le> t1"
  proof (cases "head_row db")
    case None
    with inv_no_head [OF inv None] have "h1 = new_head c key t0"
      by (simp add: h1_def ensure_head_def)
    moreover have "\<forall>x \<in> set (rows db). al_ts x < t0"
      using inv None t by (fastforce simp: chain_inv_def)
    ultimately show ?thesis
      using inv None t by (simp add: chain_inv_def heads_ok_def head_at_def head_valid_new_head
          last_sig_of_def last_ts_of_def)
  next
    case (Some h)
    then have "h1 = h" by (simp add: h1_def ensure_head_def)
    moreover have "last_ts_of (ch_started h) hist \<le> now"
      using inv Some by (simp add: chain_inv_def last_ts_of_def)
    then have "last_ts_of (ch_started h) hist \<le> t1" using t by simp
    ultimately show ?thesis
      using inv Some t by (simp add: chain_inv_def head_at_def)
  qed
  have nul: "NUL \<notin> set (last_sig_of [] hist)" using base c by (intro nul_not_last_sig) auto
  have l: "linked c key 0 [] (ch_started h1) (hist @ [e])"
    using base wf_make_entry [OF wf nul] by (simp add: linked_append e_def next_entry_def)
  have mono: "head_at c key (hist @ [e]) st g" if "head_at c key hist st g" for st g
    using that by (rule head_at_mono)
  have f2: "ch_started h2 = ch_started h1" "ch_pruned h2 = ch_pruned h1"
    "ch_seq h2 = int (length hist) + 1" by (simp_all add: h2_def)
  have h2: "head_at c key (hist @ [e]) (ch_started h1) h2"
    using base last_sig_of_take_append [of hist e]
    by (simp add: head_at_def h2_def head_valid_advance)
  have ts: "\<forall>x \<in> set (hist @ [e]). al_ts x \<le> t1"
    using inv t by (auto simp: chain_inv_def e_def next_entry_def)
  have fil: "filter is_chained (rows db @ [e]) = drop (nat (ch_pruned h1)) (hist @ [e])"
    using base by (simp add: is_chained_def e_def next_entry_def nat_le_iff)
  have "heads_ok c key (hist @ [e]) (ch_started h1) (hs \<union> {h1} \<union> {h2})"
    using base mono h2 by (auto simp: heads_ok_def)
  with base l h2 ts fil f2 t show ?thesis
    unfolding chain_inv_def db' h1
    by (auto simp: e_def next_entry_def)
qed

section \<open>Retention in an honest state\<close>

lemma linked_sorted_ts: "linked c key q s t es \<Longrightarrow> sorted (map al_ts es)"
proof (induction es arbitrary: q s t)
  case (Cons e es)
  then show ?case using linked_ts [of c key "q + 1" "al_sig e" "al_ts e" es] by auto
qed simp

definition old_count :: "time \<Rightarrow> audit_log list \<Rightarrow> nat" where
  "old_count before es = length (takeWhile (\<lambda>e. al_ts e < before) es)"

lemma old_count_le: "old_count before es \<le> length es"
  by (simp add: old_count_def length_takeWhile_le)

lemma prefix_loop_linked:
  assumes "crypto_ok c key" "linked c key q s t es" "ps_expect st = q + 1"
    "ps_first st \<Longrightarrow> q = 0 \<Longrightarrow> s = []"
    "\<not> ps_first st \<Longrightarrow> ps_prev_sig st = s \<and> ps_prev_time st = t"
  shows "prefix_loop c key before st es =
    (None, if old_count before es = 0 then ps_last st else q + int (old_count before es),
     if old_count before es < length es then q + int (old_count before es) + 1 else 0)"
  using assms
proof (induction es arbitrary: q s t st)
  case Nil
  then show ?case by (simp add: old_count_def)
next
  case (Cons e es)
  from Cons.prems(2) have e: "al_seq e = Some (q + 1)" "al_prev_sig e = s" "al_sig e = sign c key e"
    "t \<le> al_ts e" and es: "linked c key (q + 1) (al_sig e) (al_ts e) es" by auto
  show ?case
  proof (cases "al_ts e < before")
    case False
    with e show ?thesis by (simp add: old_count_def)
  next
    case True
    have v: "verify_audit_sig c key e" "al_sig e \<noteq> []"
      using e(3) Cons.prems(1) by (simp_all add: linked_verify sign_nonempty)
    have "prefix_problem c key st e = None"
    proof (cases "ps_first st")
      case True
      with e v Cons.prems(3,4) show ?thesis by (auto simp: prefix_problem_def Let_def)
    next
      case False
      with e v Cons.prems(3,5) show ?thesis by (simp add: prefix_problem_def)
    qed
    moreover let ?st' = "\<lparr>ps_last = q + 1, ps_prev_seq = q + 1,
        ps_prev_sig = al_sig e, ps_prev_time = al_ts e, ps_first = False, ps_expect = q + 1 + 1\<rparr>"
    have "old_count before (e # es) = Suc (old_count before es)"
      using True by (simp add: old_count_def)
    moreover note Cons.IH [OF Cons.prems(1) es, of ?st']
    ultimately show ?thesis using True e(1) by (simp add: Let_def)
  qed
qed

lemma filter_seq_linked:
  "linked c key q s t es \<Longrightarrow> filter (\<lambda>e. q + int k < the (al_seq e)) es = drop k es"
proof (induction es arbitrary: q s t k)
  case (Cons e es)
  then have es: "linked c key (q + 1) (al_sig e) (al_ts e) es" and e: "al_seq e = Some (q + 1)" by auto
  show ?case
  proof (cases k)
    case 0
    have "\<forall>x \<in> set (e # es). q < the (al_seq x)"
      using linked_mem(3) [OF Cons.prems] by fastforce
    with 0 show ?thesis by (simp add: filter_id_conv)
  next
    case (Suc j)
    with Cons.IH [OF es, of j] e show ?thesis by (simp add: add.assoc)
  qed
qed simp

lemma old_prefix_honest:
  assumes c: "crypto_ok c key" and inv: "chain_inv c key db hist hs now" and h: "head_row db = Some h"
  shows "old_prefix c key before db h =
    Inr (if old_count before (chained db) = 0 then 0 else ch_pruned h + int (old_count before (chained db)))"
proof -
  let ?es = "chained db" and ?k = "old_count before (chained db)"
  let ?st = "\<lparr>ps_last = 0, ps_prev_seq = 0, ps_prev_sig = [], ps_prev_time = 0,
                 ps_first = True, ps_expect = ch_pruned h + 1\<rparr>"
  note l = inv_chained(2) [OF inv h]
  have loop: "prefix_loop c key before ?st ?es =
    (None, if ?k = 0 then 0 else ch_pruned h + int ?k,
     if ?k < length ?es then ch_pruned h + int ?k + 1 else 0)"
    using prefix_loop_linked [OF c l, of ?st before] by (simp add: last_sig_of_def)
  have none: "find (\<lambda>e. ch_pruned h + int ?k + 1 < the (al_seq e) \<and> al_ts e < before) ?es = None"
    if lt: "?k < length ?es"
  proof (rule ccontr)
    assume "\<not> ?thesis"
    then obtain j where j: "j < length ?es" "ch_pruned h + int ?k + 1 < the (al_seq (?es ! j))"
      "al_ts (?es ! j) < before"
      by (auto simp: find_Some_iff)
    then have "?k < j" using linked_nth [OF l j(1)] by auto
    then have "al_ts (?es ! ?k) \<le> al_ts (?es ! j)"
      using linked_sorted_ts [OF l] j(1) by (auto simp: sorted_iff_nth_mono)
    moreover have "\<not> al_ts (?es ! ?k) < before"
      using nth_length_takeWhile [of "\<lambda>e. al_ts e < before" ?es] lt by (simp add: old_count_def)
    ultimately show False using j(3) by simp
  qed
  show ?thesis
    unfolding old_prefix_def Let_def loop
    using none by (auto simp: inv)
qed

lemma filter_case_seq:
  "filter is_chained (filter (\<lambda>e. case al_seq e of Some q \<Rightarrow> l < q | None \<Rightarrow> True) rs) =
   filter (\<lambda>e. l < the (al_seq e)) (filter is_chained rs)"
  by (induction rs) (auto simp: is_chained_def split: option.splits)

lemma filter_unchained:
  "filter is_chained (rows (delete_unchained_before db b s)) = filter is_chained (rows db)"
  by (auto simp: delete_unchained_before_def Let_def is_chained_def intro: filter_cong)

text \<open>Retention never pauses on a log only the API wrote.\<close>

lemma prune_honest:
  assumes c: "crypto_ok c key" and inv: "chain_inv c key db hist hs now"
  shows "\<exists>n db'. prune c key before db = Inr (n, db')"
proof (cases "head_row db")
  case None
  with inv_no_head [OF inv None] c show ?thesis by (simp add: prune_def crypto_ok_def Let_def)
next
  case (Some h)
  then have "head_valid c key h" using inv by (simp add: chain_inv_def head_at_def)
  with Some old_prefix_honest [OF c inv Some, of before] c show ?thesis
    by (simp add: prune_def crypto_ok_def Let_def)
qed

lemma chain_inv_prune:
  assumes c: "crypto_ok c key" and inv: "chain_inv c key db hist hs now"
    and p: "prune c key before db = Inr (n, db')"
  shows "chain_inv c key db' hist (hs \<union> set_option (head_row db')) now"
proof (cases "head_row db")
  case None
  with inv_no_head [OF inv None] c p have "db' = delete_unchained_before db before None"
    by (simp add: prune_def crypto_ok_def Let_def)
  moreover have "set (rows (delete_unchained_before db before None)) \<subseteq> set (rows db)"
    "head_row (delete_unchained_before db before None) = head_row db"
    by (auto simp: delete_unchained_before_def Let_def)
  ultimately show ?thesis
    using None inv filter_unchained [of db before None] by (auto simp: chain_inv_def)
next
  case (Some h)
  define k where "k = old_count before (chained db)"
  have hv: "head_valid c key h" using inv Some by (simp add: chain_inv_def head_at_def)
  have facts: "ch_seq h = int (length hist)" "0 \<le> ch_pruned h" "ch_pruned h \<le> int (length hist)"
    "heads_ok c key hist (ch_started h) hs" "head_at c key hist (ch_started h) h" "h \<in> hs"
    "linked c key 0 [] (ch_started h) hist" "ch_started h \<le> now" "\<forall>e \<in> set hist. al_ts e \<le> now"
    "\<forall>e \<in> set (rows db). al_seq e = None \<longrightarrow> al_ts e < ch_started h"
    "filter is_chained (rows db) = drop (nat (ch_pruned h)) hist"
    using inv Some by (simp_all add: chain_inv_def head_at_def)
  let ?del = "\<lambda>d. delete_unchained_before d before (Some (ch_started h))"
  have sub: "set (rows (?del d)) \<subseteq> set (rows d)" "head_row (?del d) = head_row d" for d
    by (auto simp: delete_unchained_before_def Let_def)
  show ?thesis
  proof (cases "k = 0")
    case True
    with p Some hv c old_prefix_honest [OF c inv Some, of before] have "db' = ?del db"
      by (simp add: prune_def crypto_ok_def Let_def k_def)
    with Some facts sub [of db] filter_unchained [of db before "Some (ch_started h)"] show ?thesis
      by (auto simp: chain_inv_def insert_absorb)
  next
    case False
    let ?l = "ch_pruned h + int k"
    let ?h' = "prune_head c key h ?l"
    let ?d = "(delete_seq_through db ?l)\<lparr>head_row := Some ?h'\<rparr>"
    have pos: "0 < ?l" using False facts by simp
    have db': "db' = ?del ?d"
      using p Some hv c old_prefix_honest [OF c inv Some, of before] False pos
      by (simp add: prune_def crypto_ok_def Let_def k_def)
    have len: "?l \<le> int (length hist)"
      using old_count_le [of before "chained db"] inv_chained(1) [OF inv Some] facts(2,3)
      by (simp add: k_def)
    have "filter is_chained (rows ?d) = filter (\<lambda>e. ?l < the (al_seq e)) (filter is_chained (rows db))"
      using filter_case_seq [of ?l "rows db"] by (simp add: delete_seq_through_def del: filter_filter)
    also have "\<dots> = drop k (drop (nat (ch_pruned h)) hist)"
      using filter_seq_linked [OF inv_chained(2) [OF inv Some], of k] inv_chained(1) [OF inv Some] facts
      by simp
    also have "\<dots> = drop (nat ?l) hist"
      using facts(2) by (simp add: nat_add_distrib add.commute)
    finally have fil: "filter is_chained (rows db') = drop (nat ?l) hist"
      using db' filter_unchained by simp
    have h': "head_at c key hist (ch_started h) ?h'"
      using facts len pos by (simp add: head_at_def head_valid_prune_head)
    have leg: "\<forall>e \<in> set (rows db'). al_seq e = None \<longrightarrow> al_ts e < ch_started h"
      using facts(10) sub(1) [of ?d] db' by (auto simp: delete_seq_through_def)
    have "head_row db' = Some ?h'" using db' sub(2) [of ?d] by simp
    moreover have "heads_ok c key hist (ch_started h) (insert ?h' hs)"
      using facts(4) h' by (simp add: heads_ok_def)
    ultimately show ?thesis using facts fil h' leg by (simp add: chain_inv_def)
  qed
qed

text \<open>Every honest state satisfies the invariant.\<close>

lemma honest_inv:
  assumes "crypto_ok c key" "honest c key db hist hs now"
  shows "chain_inv c key db hist hs now"
  using assms(2)
proof (induction rule: honest.induct)
  case (start ls now)
  then show ?case by (auto simp: chain_inv_def is_chained_def filter_empty_conv)
next
  case (log db hist hs now t0 t1 i t ev db')
  then show ?case by (intro chain_inv_log [OF _ assms(1)])
next
  case (prune db hist hs now before n db')
  then show ?case by (intro chain_inv_prune [OF assms(1)])
qed

end
