(* ===== verification/AuditProps.thy ===== *)
theory AuditProps
  imports AuditHonest
begin

text \<open>
  What the verdict of \<open>Logger.scan\<close> is worth.  A log that only the API wrote is never reported
  (soundness), retention keeps it that way, and a table edited without the key that is still
  reported \<open>ok\<close> holds exactly the signed history up to a signed head (tamper evidence).
\<close>

section \<open>The scan of a linked list of rows\<close>

lemma scan_row_linked:
  assumes c: "crypto_ok c key" and l: "linked c key q s t (e # es)" and q: "0 \<le> q" "q = 0 \<longrightarrow> s = []"
    and p: "prev = None \<and> ex = q + 1 \<or> (\<exists>p. prev = Some p \<and> pr_seq p = q \<and> pr_sig p = s)"
  shows "scan_row c key ex e (prev, ig) =
    (Some \<lparr>pr_seq = q + 1, pr_sig = al_sig e, pr_time = al_ts e\<rparr>,
     ig\<lparr>ig_chained := ig_chained ig + 1,
        ig_chained_by := (ig_chained_by ig)(al_actor e := ig_chained_by ig (al_actor e) + 1)\<rparr>)"
proof -
  from l have e: "al_seq e = Some (q + 1)" "al_prev_sig e = s" "al_sig e = sign c key e" by auto
  have v: "verify_audit_sig c key e" "al_sig e \<noteq> []"
    using e(3) c by (simp_all add: linked_verify sign_nonempty)
  have r: "row_reason c key e b False s' = None" if "b \<longrightarrow> s' = s" for b s'
    using e v q that by (simp add: row_reason_def)
  from p show ?thesis
    using r by (elim disjE conjE exE)
      (simp_all add: scan_row_def row_verdict_def contiguous_def gap_before_def e(1) Let_def)
qed

lemma scan_rows_linked:
  assumes "crypto_ok c key" "linked c key q s t es" "0 \<le> q" "q = 0 \<longrightarrow> s = []"
    "prev = None \<and> ex = q + 1 \<or> (\<exists>p. prev = Some p \<and> pr_seq p = q \<and> pr_sig p = s)"
  shows "\<exists>prev' f. scan_rows c key ex es (prev, ig) =
      (prev', ig\<lparr>ig_chained := ig_chained ig + int (length es), ig_chained_by := f\<rparr>) \<and>
      (if es = [] then prev' = prev
       else \<exists>p. prev' = Some p \<and> pr_seq p = q + int (length es) \<and> pr_sig p = al_sig (last es))"
  using assms
proof (induction es arbitrary: q s t prev ig)
  case Nil
  show ?case by (intro exI [of _ prev] exI [of _ "ig_chained_by ig"]) simp
next
  case (Cons e es)
  let ?p = "\<lparr>pr_seq = q + 1, pr_sig = al_sig e, pr_time = al_ts e\<rparr>"
  let ?f = "(ig_chained_by ig)(al_actor e := ig_chained_by ig (al_actor e) + 1)"
  let ?ig = "ig\<lparr>ig_chained := ig_chained ig + 1, ig_chained_by := ?f\<rparr>"
  have row: "scan_row c key ex e (prev, ig) = (Some ?p, ?ig)"
    using Cons.prems by (intro scan_row_linked)
  have es: "linked c key (q + 1) (al_sig e) (al_ts e) es"
    using Cons.prems(2) unfolding linked.simps by blast
  have q: "0 \<le> q + 1" "q + 1 = 0 \<longrightarrow> al_sig e = []" using Cons.prems(3) by simp_all
  have p: "Some ?p = None \<and> ex = q + 1 + 1 \<or>
      (\<exists>p. Some ?p = Some p \<and> pr_seq p = q + 1 \<and> pr_sig p = al_sig e)" by simp
  obtain prev' f where IH: "scan_rows c key ex es (Some ?p, ?ig) =
      (prev', ?ig\<lparr>ig_chained := ig_chained ?ig + int (length es), ig_chained_by := f\<rparr>)"
    and last: "if es = [] then prev' = Some ?p
       else \<exists>p. prev' = Some p \<and> pr_seq p = q + 1 + int (length es) \<and> pr_sig p = al_sig (last es)"
    using Cons.IH [OF Cons.prems(1) es q p, of ?ig] by blast
  have "scan_rows c key ex (e # es) (prev, ig) =
      (prev', ig\<lparr>ig_chained := ig_chained ig + int (length (e # es)), ig_chained_by := f\<rparr>)"
    using IH row by simp
  moreover have "\<exists>p. prev' = Some p \<and> pr_seq p = q + int (length (e # es)) \<and>
      pr_sig p = al_sig (last (e # es))"
  proof (cases "es = []")
    case True
    with last show ?thesis by simp
  next
    case False
    with last show ?thesis by (simp add: add.assoc)
  qed
  ultimately show ?case by (intro exI [of _ prev'] exI [of _ f]) simp
qed

section \<open>Soundness\<close>

definition spotless :: "integrity \<Rightarrow> bool" where
  "spotless ig \<longleftrightarrow>
     ig_status ig \<in> {IntegrityOK, IntegrityNotStarted} \<and> ig_invalid ig = 0 \<and> ig_altered ig = 0 \<and>
     ig_affected ig = 0 \<and> ig_missing ig = 0 \<and> ig_problems ig = [] \<and> ig_entries ig = [] \<and>
     ig_missing_seqs ig = []"

lemma no_late_unchained:
  assumes "chain_inv c key db hist hs now" "head_row db = Some h"
  shows "filter (\<lambda>e. al_seq e = None \<and> \<not> al_ts e < ch_started h) (rows db) = []"
  using assms by (auto simp: chain_inv_def filter_empty_conv)

lemma scan_inv:
  assumes c: "crypto_ok c key" and inv: "chain_inv c key db hist hs now"
  shows "spotless (integrity_of c key db) \<and> ig_chained (integrity_of c key db) = int (length (chained db))"
proof -
  have key: "key \<noteq> []" using c by (simp add: crypto_ok_def)
  show ?thesis
  proof (cases "head_row db")
    case None
    then show ?thesis
      using inv_no_head [OF inv None] key
      by (simp add: spotless_def integrity_of_def scan_def head_ok_def scan_head_def
          scan_unchained_def count_legacy_def conclude_def empty_integrity_def Let_def)
  next
    case (Some h)
    note ch = inv_chained [OF inv Some]
    have h: "head_valid c key h" "0 \<le> ch_pruned h" "ch_pruned h \<le> ch_seq h"
      "ch_seq h = int (length hist)" "ch_last_sig h = last_sig_of [] hist"
      using inv Some by (simp_all add: chain_inv_def head_at_def)
    have ok: "head_ok c key db = Some h" using Some h(1) by (simp add: head_ok_def)
    obtain lst f where rows: "scan_rows c key (ch_pruned h + 1) (chained db) (None, empty_integrity) =
        (lst, empty_integrity\<lparr>ig_chained := int (length (chained db)), ig_chained_by := f\<rparr>)"
      and lst: "if chained db = [] then lst = None
        else \<exists>p. lst = Some p \<and> pr_seq p = ch_pruned h + int (length (chained db)) \<and>
               pr_sig p = al_sig (last (chained db))"
      using scan_rows_linked [OF c ch(2) h(2), of None "ch_pruned h + 1" empty_integrity]
      by (auto simp: last_sig_of_def empty_integrity_def)
    have "scan_head c key db lst ig = ig" for ig
    proof (cases "chained db = []")
      case True
      with ch(1) h(2-4) have "ch_pruned h = ch_seq h" by simp
      with True lst Some h(1) show ?thesis by (simp add: scan_head_def)
    next
      case False
      with ch(1) have "last (chained db) = last hist" "hist \<noteq> []" by auto
      moreover have "ch_pruned h + int (length (chained db)) = ch_seq h"
        using ch(1) h(2-4) by simp
      ultimately show ?thesis
        using False lst Some h(1,5) by (auto simp: scan_head_def last_sig_of_def)
    qed
    then show ?thesis
      using rows ok key no_late_unchained [OF inv Some]
      by (simp add: spotless_def integrity_of_def scan_def scan_unchained_def count_legacy_def
          conclude_def empty_integrity_def Let_def)
  qed
qed

lemma chained_row_nth:
  assumes inv: "chain_inv c key db hist hs now" and h: "head_row db = Some h"
    and e: "e \<in> set (rows db)" "al_seq e = Some q"
  shows "ch_pruned h < q \<and> q \<le> int (length hist) \<and> e = hist ! nat (q - 1)"
proof -
  have "e \<in> set (filter is_chained (rows db))" using e by (simp add: is_chained_def)
  also have "filter is_chained (rows db) = drop (nat (ch_pruned h)) hist"
    using inv h by (simp add: chain_inv_def)
  finally obtain i where i: "i < length (drop (nat (ch_pruned h)) hist)"
    "e = drop (nat (ch_pruned h)) hist ! i"
    by (metis in_set_conv_nth)
  have l: "linked c key 0 [] (ch_started h) hist" "0 \<le> ch_pruned h"
    using inv h by (simp_all add: chain_inv_def head_at_def)
  from i have "e = hist ! (nat (ch_pruned h) + i)" "nat (ch_pruned h) + i < length hist" by auto
  moreover from this linked_nth [OF l(1)] e(2) l(2) have "q = ch_pruned h + int i + 1" by auto
  moreover have "nat (ch_pruned h + int i) = nat (ch_pruned h) + i" using l(2) by simp
  ultimately show ?thesis using l(2) by auto
qed

lemma last_sig_of_take: "0 < i \<Longrightarrow> i \<le> length es \<Longrightarrow> last_sig_of s (take i es) = al_sig (es ! (i - 1))"
  by (cases "es = []") (simp_all add: last_sig_of_def last_conv_nth min_absorb2)

lemma classify_inv:
  assumes c: "crypto_ok c key" and inv: "chain_inv c key db hist hs now"
    and e: "e \<in> set (rows db)" "al_seq e = Some q"
  shows "classify c key db vs e = (SigValid, None)"
proof (cases "head_row db")
  case None
  with inv have "filter is_chained (rows db) = []" by (simp add: chain_inv_def)
  moreover have "e \<in> set (filter is_chained (rows db))" using e by (simp add: is_chained_def)
  ultimately show ?thesis by simp
next
  case (Some h)
  have l: "linked c key 0 [] (ch_started h) hist" and pr: "0 \<le> ch_pruned h" and hv: "head_valid c key h"
    using inv Some by (simp_all add: chain_inv_def head_at_def)
  note n = chained_row_nth [OF inv Some e]
  have at: "al_sig e = sign c key e" "al_prev_sig e = last_sig_of [] (take (nat (q - 1)) hist)"
    using linked_nth [OF l, of "nat (q - 1)"] n pr by auto
  have v: "verify_audit_sig c key e" "al_sig e \<noteq> []"
    using at(1) c by (simp_all add: linked_verify sign_nonempty)
  show ?thesis
  proof (cases "q = 1")
    case True
    with e(2) v at(2) show ?thesis by (simp add: classify_def last_sig_of_def)
  next
    case False
    then have q: "1 < q" using n pr by simp
    have prev: "al_prev_sig e = al_sig (hist ! nat (q - 2))"
    proof -
      have "nat (q - 1) - 1 = nat (q - 2)" "nat (q - 1) \<le> length hist" using n by auto
      then show ?thesis using at(2) last_sig_of_take [of "nat (q - 1)" hist] q n by simp
    qed
    show ?thesis
    proof (cases "pred_of db (q - 1)")
      case (Some p)
      then have p: "p \<in> set (rows db)" "al_seq p = Some (q - 1)"
        by (auto simp: pred_of_def find_Some_iff)
      have "p = hist ! nat (q - 2)"
        using chained_row_nth [OF inv \<open>head_row db = Some h\<close> p] by simp
      with Some e(2) v False prev show ?thesis by (simp add: classify_def)
    next
      case None
      have "\<not> ch_pruned h < q - 1"
      proof
        assume "ch_pruned h < q - 1"
        with n pr have i: "nat (q - 2) < length hist" "nat (ch_pruned h) \<le> nat (q - 2)" by auto
        then have "hist ! nat (q - 2) \<in> set (drop (nat (ch_pruned h)) hist)"
          by (auto simp: set_conv_nth intro!: exI [of _ "nat (q - 2) - nat (ch_pruned h)"])
        then have "hist ! nat (q - 2) \<in> set (rows db)"
          using inv Some by (auto simp: chain_inv_def is_chained_def dest!: equalityD2 [OF arg_cong [where f = set]])
        moreover have "al_seq (hist ! nat (q - 2)) = Some (q - 1)"
          using linked_nth [OF l i(1)] q by simp
        ultimately show False using None by (auto simp: pred_of_def find_None_iff)
      qed
      with None e(2) v False Some hv show ?thesis by (simp add: classify_def head_ok_def)
    qed
  qed
qed

section \<open>Tamper evidence\<close>

text \<open>
  An editor of the tables without the key can only reuse digests the API computed: for the entries
  of the history, for signed rows from before chaining, and for the heads.
\<close>

definition signed_messages ::
  "crypto \<Rightarrow> audit_log list \<Rightarrow> audit_log set \<Rightarrow> chain_head set \<Rightarrow> string set" where
  "signed_messages c hist legacy hs = sign_message c ` (set hist \<union> legacy) \<union> head_message c ` hs"

definition unforged :: "crypto \<Rightarrow> string \<Rightarrow> string set \<Rightarrow> audit_db \<Rightarrow> bool" where
  "unforged c key M db \<longleftrightarrow>
     (\<forall>e \<in> set (rows db). verify_audit_sig c key e \<longrightarrow> sign_message c e \<in> M) \<and>
     (\<forall>h. head_row db = Some h \<and> head_valid c key h \<longrightarrow> head_message c h \<in> M)"

text \<open>What the column types still guarantee of an edited table.\<close>

definition table_ok :: "audit_db \<Rightarrow> bool" where
  "table_ok db \<longleftrightarrow>
     (\<forall>e \<in> set (rows db). wf_log e) \<and>
     (\<forall>h. head_row db = Some h \<longrightarrow> NUL \<notin> set (ch_last_sig h))"

definition legacy_ok :: "audit_log set \<Rightarrow> chain_head set \<Rightarrow> bool" where
  "legacy_ok legacy hs \<longleftrightarrow>
     (\<forall>e \<in> legacy. wf_log e \<and> al_seq e = None \<and> (\<forall>h \<in> hs. al_ts e < ch_started h))"

fun clean_from :: "crypto \<Rightarrow> string \<Rightarrow> int \<Rightarrow> prev_row option \<Rightarrow> audit_log list \<Rightarrow> bool" where
  "clean_from c key ex prev [] \<longleftrightarrow> True"
| "clean_from c key ex prev (e # es) \<longleftrightarrow>
     row_verdict c key ex prev e = None \<and>
     clean_from c key ex (Some \<lparr>pr_seq = the (al_seq e), pr_sig = al_sig e, pr_time = al_ts e\<rparr>) es"

definition bad_count :: "integrity \<Rightarrow> int" where
  "bad_count ig = ig_altered ig + ig_affected ig"

lemma bad_count_add_invalid [simp]: "bad_count (add_invalid e r b ig) = bad_count ig + 1"
  by (simp add: bad_count_def add_invalid_def Let_def)

lemma bad_count_add_missing [simp]: "bad_count (add_missing lo hi ig) = bad_count ig"
  by (simp add: bad_count_def add_missing_def)

lemma row_reason_gap: "row_reason c key e b True s \<noteq> None"
  by (simp add: row_reason_def)

lemma scan_row_cases:
  "\<exists>ig'. scan_row c key ex e (prev, ig) =
     (Some \<lparr>pr_seq = the (al_seq e), pr_sig = al_sig e, pr_time = al_ts e\<rparr>, ig') \<and>
     bad_count ig \<le> bad_count ig' \<and>
     (bad_count ig' = bad_count ig \<longrightarrow>
        clean_from c key ex prev [e] \<and> ig_missing ig' = ig_missing ig \<and> ig_problems ig' = ig_problems ig)"
proof (cases "row_verdict c key ex prev e")
  case None
  then have "\<not> gap_before ex prev e" using row_reason_gap by (metis row_verdict_def)
  with None show ?thesis by (simp add: scan_row_def Let_def bad_count_def)
next
  case (Some x)
  then show ?thesis by (simp add: scan_row_def Let_def) (simp add: bad_count_def)
qed

lemma scan_rows_clean:
  "\<exists>lst ig'. scan_rows c key ex es (prev, ig) = (lst, ig') \<and> bad_count ig \<le> bad_count ig' \<and>
     lst = (if es = [] then prev
            else Some \<lparr>pr_seq = the (al_seq (last es)), pr_sig = al_sig (last es), pr_time = al_ts (last es)\<rparr>) \<and>
     (bad_count ig' = bad_count ig \<longrightarrow>
        clean_from c key ex prev es \<and> ig_missing ig' = ig_missing ig \<and> ig_problems ig' = ig_problems ig)"
proof (induction es arbitrary: prev ig)
  case (Cons e es)
  let ?p = "Some \<lparr>pr_seq = the (al_seq e), pr_sig = al_sig e, pr_time = al_ts e\<rparr>"
  obtain ig1 where row: "scan_row c key ex e (prev, ig) = (?p, ig1)" "bad_count ig \<le> bad_count ig1"
    "bad_count ig1 = bad_count ig \<longrightarrow>
      clean_from c key ex prev [e] \<and> ig_missing ig1 = ig_missing ig \<and> ig_problems ig1 = ig_problems ig"
    using scan_row_cases by blast
  obtain lst ig' where IH: "scan_rows c key ex es (?p, ig1) = (lst, ig')" "bad_count ig1 \<le> bad_count ig'"
    "lst = (if es = [] then ?p
            else Some \<lparr>pr_seq = the (al_seq (last es)), pr_sig = al_sig (last es), pr_time = al_ts (last es)\<rparr>)"
    "bad_count ig' = bad_count ig1 \<longrightarrow>
      clean_from c key ex ?p es \<and> ig_missing ig' = ig_missing ig1 \<and> ig_problems ig' = ig_problems ig1"
    using Cons.IH by blast
  have "bad_count ig' = bad_count ig \<longrightarrow> clean_from c key ex prev (e # es) \<and>
      ig_missing ig' = ig_missing ig \<and> ig_problems ig' = ig_problems ig"
    using row(2,3) IH(2,4) by (auto simp del: reason_kind.simps)
  with row(1,2) IH(1-3) show ?case by simp
qed simp

lemma same_content_sig:
  "same_content a b \<Longrightarrow> al_seq a \<noteq> None \<Longrightarrow> al_sig a = al_sig b \<Longrightarrow> a = b"
  by (rule audit_log.equality) (simp_all add: same_content_def)

text \<open>A verifying row is the history entry of its number, up to the signature column.\<close>

definition from_history :: "audit_log list \<Rightarrow> crypto \<Rightarrow> string \<Rightarrow> audit_log \<Rightarrow> bool" where
  "from_history hist c key e \<longleftrightarrow>
     al_seq e \<noteq> None \<and> (verify_audit_sig c key e \<longrightarrow> (\<exists>e0 \<in> set hist. same_content e e0))"

lemma from_history_nth:
  assumes l: "linked c key 0 [] st hist" and e: "from_history hist c key e" "verify_audit_sig c key e"
  shows "\<exists>k < length hist. al_seq e = Some (int k + 1) \<and> same_content e (hist ! k)"
proof -
  obtain k where k: "k < length hist" "same_content e (hist ! k)"
    using e by (auto simp: from_history_def in_set_conv_nth)
  with linked_nth [OF l k(1)] show ?thesis by (auto simp: same_content_def)
qed

lemma row_verdict_ok:
  assumes "row_verdict c key ex prev e = None"
  shows "verify_audit_sig c key e" "\<not> gap_before ex prev e"
    "contiguous prev e \<Longrightarrow> al_prev_sig e = (case prev of Some p \<Rightarrow> pr_sig p | None \<Rightarrow> [])"
  using assms by (auto simp: row_verdict_def row_reason_def split: if_splits)

lemma clean_is_history:
  assumes l: "linked c key 0 [] st hist"
  shows "clean_from c key ex prev es \<Longrightarrow> list_all (from_history hist c key) es \<Longrightarrow> es \<noteq> [] \<Longrightarrow>
    al_sig (last es) = last_sig_of [] (take (nat (the (al_seq (last es)))) hist) \<Longrightarrow>
    \<exists>k n. es = drop k (take n hist) \<and> k < n \<and> n \<le> length hist \<and>
      al_seq (hd es) = Some (int k + 1) \<and> al_seq (last es) = Some (int n)"
proof (induction es arbitrary: prev)
  case (Cons e es)
  then have v: "row_verdict c key ex prev e = None" and f: "from_history hist c key e" by auto
  obtain k where k: "k < length hist" "al_seq e = Some (int k + 1)" "same_content e (hist ! k)"
    using from_history_nth [OF l f row_verdict_ok(1) [OF v]] by blast
  have sig: "last_sig_of [] (take (Suc k) hist) = al_sig (hist ! k)"
    using last_sig_of_take [of "Suc k" hist "[]"] k(1) by simp
  show ?case
  proof (cases es)
    case Nil
    have "nat (int k + 1) = Suc k" by simp
    then have "al_sig e = al_sig (hist ! k)" using Cons.prems(4) Nil k(2) sig by simp
    then have "e = hist ! k" using k(2,3) by (intro same_content_sig) simp_all
    then have "drop k (take (Suc k) hist) = e # es" using Nil k(1) by (simp add: take_Suc_conv_app_nth)
    with k Nil show ?thesis by - (rule exI [of _ k], rule exI [of _ "Suc k"], simp)
  next
    case (Cons e' es')
    let ?p = "\<lparr>pr_seq = the (al_seq e), pr_sig = al_sig e, pr_time = al_ts e\<rparr>"
    have cl: "clean_from c key ex (Some ?p) es" using Cons.prems(1) by simp
    have pr: "list_all (from_history hist c key) es" "es \<noteq> []"
      "al_sig (last es) = last_sig_of [] (take (nat (the (al_seq (last es)))) hist)"
      using Cons.prems(2,4) Cons by simp_all
    obtain k' n where IH: "es = drop k' (take n hist)" "k' < n" "n \<le> length hist"
      "al_seq (hd es) = Some (int k' + 1)" "al_seq (last es) = Some (int n)"
      using Cons.IH [OF cl pr] by blast
    have v': "row_verdict c key ex (Some ?p) e' = None" using cl Cons by simp
    have cont: "contiguous (Some ?p) e'"
      using row_verdict_ok(2) [OF v'] by (simp add: gap_before_def)
    then have kk: "k' = Suc k" using IH(4) k(2) Cons by (simp add: contiguous_def)
    have "e' = hist ! k'"
      using IH(1-3) Cons by (metis hd_drop_conv_nth length_take list.sel(1) min.absorb2 nth_take)
    then have "al_prev_sig e' = al_sig (hist ! k)"
      using linked_nth [OF l, of k'] IH(2,3) kk sig by simp
    then have "al_sig e = al_sig (hist ! k)"
      using row_verdict_ok(3) [OF v' cont] by simp
    then have "e = hist ! k" using k(2,3) by (intro same_content_sig) simp_all
    then have "drop k (take n hist) = e # es"
      using IH(1-3) kk Cons_nth_drop_Suc [of k "take n hist"] by simp
    with IH k kk Cons show ?thesis by - (rule exI [of _ k], rule exI [of _ n], simp)
  qed
qed simp

section \<open>From the verdict to the rows\<close>

lemma fold_invalid_bad_count:
  "bad_count ig \<le> bad_count (fold (\<lambda>e ig. case f e of Some r \<Rightarrow> add_invalid e r b ig | None \<Rightarrow> ig) es ig) \<and>
   ig_missing (fold (\<lambda>e ig. case f e of Some r \<Rightarrow> add_invalid e r b ig | None \<Rightarrow> ig) es ig) = ig_missing ig \<and>
   ig_problems (fold (\<lambda>e ig. case f e of Some r \<Rightarrow> add_invalid e r b ig | None \<Rightarrow> ig) es ig) = ig_problems ig \<and>
   (bad_count (fold (\<lambda>e ig. case f e of Some r \<Rightarrow> add_invalid e r b ig | None \<Rightarrow> ig) es ig) = bad_count ig \<longrightarrow>
      (\<forall>e \<in> set es. f e = None))"
proof (induction es arbitrary: ig)
  case (Cons e es)
  show ?case
  proof (cases "f e")
    case None
    with Cons.IH [of ig] show ?thesis by simp
  next
    case (Some r)
    have "ig_missing (add_invalid e r b ig) = ig_missing ig" "ig_problems (add_invalid e r b ig) = ig_problems ig"
      by (simp_all add: add_invalid_def Let_def)
    with Some Cons.IH [of "add_invalid e r b ig"] show ?thesis by simp
  qed
qed simp

lemma scan_head_counts:
  "bad_count (scan_head c key db lst ig) = bad_count ig \<and> ig_missing ig \<le> ig_missing (scan_head c key db lst ig)"
  by (auto simp: scan_head_def bad_count_def add_problem_def add_missing_def split: option.splits)

lemma conclude_ok:
  assumes "ig_status (conclude db b ig) = IntegrityOK"
  shows "ig_problems ig = []" "ig_altered ig \<le> 0" "ig_affected ig \<le> 0" "ig_missing ig \<le> 0"
    "head_row db \<noteq> None \<or> b"
  using assms by (auto simp: conclude_def add_problem_def Let_def split: if_splits)

text \<open>What the database holds when the verdict is \<open>ok\<close>.\<close>

definition consistent :: "crypto \<Rightarrow> string \<Rightarrow> audit_db \<Rightarrow> chain_head \<Rightarrow> bool" where
  "consistent c key db h \<longleftrightarrow>
     head_row db = Some h \<and> head_valid c key h \<and>
     clean_from c key (ch_pruned h + 1) None (chained db) \<and>
     (if chained db = [] then ch_seq h \<le> ch_pruned h
      else the (al_seq (last (chained db))) = ch_seq h \<and> al_sig (last (chained db)) = ch_last_sig h) \<and>
     (\<forall>e \<in> set (rows db). al_seq e = None \<and> \<not> al_ts e < ch_started h \<longrightarrow> unchained_reason c key e = None)"

lemma scan_ok_consistent:
  assumes ok: "ig_status (scan c key db) = IntegrityOK"
  shows "\<exists>h. consistent c key db h"
proof -
  define ex where "ex = (case head_ok c key db of Some h \<Rightarrow> ch_pruned h + 1 | None \<Rightarrow> 0)"
  obtain lst ig where rows: "scan_rows c key ex (chained db) (None, empty_integrity) = (lst, ig)"
    and mono: "bad_count empty_integrity \<le> bad_count ig"
    and lst: "lst = (if chained db = [] then None
            else Some \<lparr>pr_seq = the (al_seq (last (chained db))), pr_sig = al_sig (last (chained db)),
                       pr_time = al_ts (last (chained db))\<rparr>)"
    and clean: "bad_count ig = bad_count empty_integrity \<longrightarrow> clean_from c key ex None (chained db) \<and>
        ig_missing ig = ig_missing empty_integrity \<and> ig_problems ig = ig_problems empty_integrity"
    using scan_rows_clean [of c key ex "chained db" None empty_integrity] by blast
  define ig1 where "ig1 = scan_head c key db lst ig"
  define ig2 where "ig2 = scan_unchained c key db ig1"
  have "scan c key db = conclude db (lst \<noteq> None) (count_legacy db ig2)"
    using rows by (simp add: scan_def ex_def ig1_def ig2_def)
  note c = conclude_ok [OF ok [unfolded this]]
  have zero: "bad_count empty_integrity = 0" "ig_missing empty_integrity = 0" "ig_problems empty_integrity = []"
    by (simp_all add: bad_count_def empty_integrity_def)
  have ig2: "ig_problems ig2 = []" "bad_count ig2 \<le> 0" "ig_missing ig2 \<le> 0"
    using c(1-4) by (simp_all add: count_legacy_def bad_count_def Let_def)
  have un: "bad_count ig1 \<le> bad_count ig2 \<and> ig_missing ig2 = ig_missing ig1 \<and>
      ig_problems ig2 = ig_problems ig1 \<and>
      (bad_count ig2 = bad_count ig1 \<longrightarrow> (\<forall>h. head_ok c key db = Some h \<longrightarrow>
        (\<forall>e \<in> set (rows db). al_seq e = None \<and> \<not> al_ts e < ch_started h \<longrightarrow> unchained_reason c key e = None)))"
  proof (cases "head_ok c key db")
    case (Some h)
    then show ?thesis
      using fold_invalid_bad_count [where ig = ig1 and f = "unchained_reason c key" and b = False and
          es = "filter (\<lambda>e. al_seq e = None \<and> \<not> al_ts e < ch_started h) (rows db)"]
      by (simp add: ig2_def scan_unchained_def)
  qed (simp add: ig2_def scan_unchained_def)
  have hd: "bad_count ig1 = bad_count ig" "ig_missing ig \<le> ig_missing ig1"
    using scan_head_counts by (simp_all add: ig1_def)
  have bad: "bad_count ig = 0" "bad_count ig2 = bad_count ig1" using mono zero un hd ig2(2) by auto
  then have cl: "clean_from c key ex None (chained db)" "ig_missing ig = 0" "ig_problems ig = []"
    using clean zero by simp_all
  have p1: "ig_problems ig1 = []" "ig_missing ig1 \<le> 0" using un ig2 by simp_all
  have "lst = None \<longleftrightarrow> chained db = []" using lst by simp
  obtain h where h: "head_row db = Some h"
    using p1(1) c(5) cl(3) by (cases "head_row db") (auto simp: ig1_def scan_head_def add_problem_def)
  have hv: "head_valid c key h"
    using p1(1) h by (cases "head_valid c key h") (auto simp: ig1_def scan_head_def add_problem_def)
  have ok: "head_ok c key db = Some h" using h hv by (simp add: head_ok_def)
  have "if chained db = [] then ch_seq h \<le> ch_pruned h
      else the (al_seq (last (chained db))) = ch_seq h \<and> al_sig (last (chained db)) = ch_last_sig h"
    using p1 cl(2) h hv lst
    by (auto simp: ig1_def scan_head_def add_problem_def add_missing_def split: if_splits)
  then show ?thesis using h hv ok cl(1) un bad(2) by (auto simp: consistent_def ex_def)
qed

text \<open>Every accepted digest belongs to the object it was computed for.\<close>

lemma genuine_entry:
  assumes c: "crypto_ok c key" and wf: "wf_log e" "\<forall>x \<in> set hist \<union> legacy. wf_log x"
    and m: "sign_message c e \<in> signed_messages c hist legacy hs"
  shows "\<exists>x \<in> set hist \<union> legacy. same_content e x"
proof -
  have "sign_message c e \<noteq> head_message c h" for h
    using head_message_not_entry [OF wf(1), of c h] by simp
  with m obtain x where "x \<in> set hist \<union> legacy" "sign_message c e = sign_message c x"
    by (auto simp: signed_messages_def)
  with sign_message_same [OF c wf(1)] wf(2) show ?thesis by blast
qed

lemma genuine_head:
  assumes c: "crypto_ok c key" and wf: "\<forall>x \<in> set hist \<union> legacy. wf_log x"
    and hs: "\<forall>g \<in> hs. head_valid c key g \<and> NUL \<notin> set (ch_last_sig g)"
    and h: "head_valid c key h" "NUL \<notin> set (ch_last_sig h)"
    and m: "head_message c h \<in> signed_messages c hist legacy hs"
  shows "h \<in> hs"
proof -
  obtain g where g: "g \<in> hs" "head_message c h = head_message c g"
    using m head_message_not_entry wf by (auto simp: signed_messages_def)
  have "NUL \<notin> set (ch_last_sig g)" using hs g(1) by blast
  note f = head_message_inj [OF c h(2) this g(2)]
  have "head_valid c key g" using hs g(1) by blast
  then have "ch_mac h = ch_mac g" using h(1) g(2) by (simp add: head_valid_def head_mac_def)
  with f have "h = g" by (intro chain_head.equality) simp_all
  with g show ?thesis by simp
qed

lemma honest_heads:
  assumes c: "crypto_ok c key" and inv: "chain_inv c key db hist hs now" and g: "g \<in> hs"
  shows "\<exists>st. linked c key 0 [] st hist" "head_at c key hist (ch_started g) g" "NUL \<notin> set (ch_last_sig g)"
proof -
  from inv g obtain h where h: "head_row db = Some h" by (cases "head_row db") (auto simp: chain_inv_def)
  with inv have l: "linked c key 0 [] (ch_started h) hist" and ok: "heads_ok c key hist (ch_started h) hs"
    by (simp_all add: chain_inv_def)
  then show "\<exists>st. linked c key 0 [] st hist" by blast
  from ok g show at: "head_at c key hist (ch_started g) g" by (auto simp: heads_ok_def head_at_def)
  have "linked c key 0 [] (ch_started h) (take (nat (ch_seq g)) hist)"
    using l linked_append [of c key 0 "[]" "ch_started h" "take (nat (ch_seq g)) hist"
        "drop (nat (ch_seq g)) hist"] by simp
  then show "NUL \<notin> set (ch_last_sig g)"
    using at nul_not_last_sig [OF c] by (auto simp: head_at_def)
qed

lemma inv_hist_wf: "chain_inv c key db hist hs now \<Longrightarrow> e \<in> set hist \<Longrightarrow> wf_log e \<and> al_seq e \<noteq> None"
  using linked_mem by (cases "head_row db") (fastforce simp: chain_inv_def)+

lemma consistent_history:
  assumes l: "linked c key 0 [] st hist" and h: "head_at c key hist (ch_started h) h"
    and con: "consistent c key db h" and rows: "list_all (from_history hist c key) (chained db)"
  shows "\<exists>k \<le> nat (ch_pruned h). chained db = drop k (take (nat (ch_seq h)) hist)"
proof (cases "chained db = []")
  case True
  with con have "nat (ch_seq h) \<le> nat (ch_pruned h)" by (simp add: consistent_def nat_mono)
  with True show ?thesis by (intro exI [of _ "nat (ch_pruned h)"]) simp
next
  case False
  have cl: "clean_from c key (ch_pruned h + 1) None (chained db)"
    and last: "the (al_seq (last (chained db))) = ch_seq h" "al_sig (last (chained db)) = ch_last_sig h"
    using con False by (auto simp: consistent_def)
  obtain k n where kn: "chained db = drop k (take n hist)"
    "al_seq (hd (chained db)) = Some (int k + 1)" "al_seq (last (chained db)) = Some (int n)"
    using clean_is_history [OF l cl rows False] last h by (auto simp: head_at_def)
  have "row_verdict c key (ch_pruned h + 1) None (hd (chained db)) = None"
    using cl False by (cases "chained db") auto
  from row_verdict_ok(2) [OF this] have "int k \<le> ch_pruned h"
    using kn(2) h by (simp add: gap_before_def head_at_def)
  then have "k \<le> nat (ch_pruned h)" by simp
  moreover have "nat (ch_seq h) = n" using last(1) kn(3) by simp
  ultimately show ?thesis using kn(1) by blast
qed

section \<open>What retention keeps\<close>

lemma prune_honest_head:
  assumes c: "crypto_ok c key" and inv: "chain_inv c key db hist hs now" and h: "head_row db = Some h"
    and p: "prune c key before db = Inr (n, db')"
  shows "\<exists>h'. head_row db' = Some h' \<and> ch_pruned h' = ch_pruned h + int (old_count before (chained db))"
proof -
  have hv: "head_valid c key h" "0 \<le> ch_pruned h" "key \<noteq> []"
    using inv h c by (simp_all add: chain_inv_def head_at_def crypto_ok_def)
  have d: "head_row (delete_unchained_before d b s) = head_row d" for d b s
    by (simp add: delete_unchained_before_def Let_def)
  let ?k = "old_count before (chained db)"
  show ?thesis
  proof (cases "?k = 0")
    case True
    then have "db' = delete_unchained_before db before (Some (ch_started h))"
      using p hv h old_prefix_honest [OF c inv h, of before] by (simp add: prune_def Let_def)
    with True h d show ?thesis by simp
  next
    case False
    then have "head_row db' = Some (prune_head c key h (ch_pruned h + int ?k))"
      using p hv h old_prefix_honest [OF c inv h, of before] d by (auto simp: prune_def Let_def)
    then show ?thesis by simp
  qed
qed

lemma prune_chained:
  assumes c: "crypto_ok c key" and inv: "chain_inv c key db hist hs now"
    and p: "prune c key before db = Inr (n, db')"
  shows "chained db' = dropWhile (\<lambda>e. al_ts e < before) (chained db)"
proof (cases "head_row db")
  case None
  note n = inv_no_head [OF inv None]
  then have "db' = delete_unchained_before db before None"
    using None p c by (simp add: prune_def crypto_ok_def Let_def)
  then have "filter is_chained (rows db') = []"
    using None inv filter_unchained [of db before None] by (simp add: chain_inv_def)
  with n show ?thesis by (simp add: chained_filter)
next
  case (Some h)
  let ?k = "old_count before (chained db)"
  obtain h' where h': "head_row db' = Some h'" "ch_pruned h' = ch_pruned h + int ?k"
    using prune_honest_head [OF c inv Some p] by blast
  have "0 \<le> ch_pruned h" using inv Some by (simp add: chain_inv_def head_at_def)
  then have "nat (ch_pruned h') = ?k + nat (ch_pruned h)" using h'(2) by simp
  then have "chained db' = drop ?k (chained db)"
    using inv_chained(1) [OF chain_inv_prune [OF c inv p] h'(1)] inv_chained(1) [OF inv Some] by simp
  then show ?thesis by (simp add: old_count_def dropWhile_eq_drop)
qed

section \<open>A concrete log\<close>

definition demo_event :: audit_event where
  "demo_event = \<lparr>ev_actor = ''k1'', ev_session = Some ''s'', ev_run = None, ev_action = ''run'', ev_meta = None\<rparr>"

definition demo_step :: "time \<Rightarrow> audit_db \<Rightarrow> audit_db" where
  "demo_step t db = the (log_chained hex_crypto ''k'' t t db (event_entry ''id'' t demo_event))"

definition demo_log :: audit_db where
  "demo_log = demo_step 7 (demo_step 5 \<lparr>rows = [], head_row = None\<rparr>)"

lemma wf_demo_entry: "wf_log (event_entry ''id'' t demo_event)"
  by (simp add: wf_log_def event_entry_def demo_event_def)

lemma demo_step_honest:
  assumes "honest hex_crypto ''k'' db hist hs now" "now \<le> t"
  shows "honest hex_crypto ''k'' (demo_step t db) (hist @ [last (rows (demo_step t db))])
    (hs \<union> set_option (head_row (ensure_head hex_crypto ''k'' t db)) \<union>
     set_option (head_row (demo_step t db))) t"
proof (rule honest.log [OF assms order_refl wf_demo_entry])
  show "log_chained hex_crypto ''k'' t t db (event_entry ''id'' t demo_event) = Some (demo_step t db)"
    using log_chained_honest(2) [OF honest_inv [OF hex_crypto_ok assms(1)]] by (simp add: demo_step_def)
qed

lemma demo_step_rows:
  assumes "honest hex_crypto ''k'' db hist hs now"
  shows "\<exists>e. is_chained e \<and> al_ts e = t \<and> al_seq e = Some (int (length hist) + 1) \<and>
      rows (demo_step t db) = rows db @ [e]" "head_row (demo_step t db) \<noteq> None"
  using log_chained_honest(2) [OF honest_inv [OF hex_crypto_ok assms]]
  by (simp_all add: demo_step_def next_entry_def is_chained_def)

lemma started_status:
  "spotless (integrity_of c key db) \<Longrightarrow> head_row db \<noteq> None \<Longrightarrow> key \<noteq> [] \<Longrightarrow>
   ig_status (integrity_of c key db) = IntegrityOK"
  by (auto simp: spotless_def integrity_of_def scan_def conclude_def Let_def split: prod.splits if_splits)

lemma demo_honest:
  "\<exists>hist hs. honest hex_crypto ''k'' demo_log hist hs 7"
  "list_all is_chained (rows demo_log)" "length (chained demo_log) = 2"
  "ig_status (integrity_of hex_crypto ''k'' demo_log) = IntegrityOK"
  "al_ts (last (chained demo_log)) = 7"
proof -
  have "honest hex_crypto ''k'' \<lparr>rows = [], head_row = None\<rparr> [] {} 5" by (rule honest.start) simp
  note s1 = demo_step_honest [OF this order_refl] and r1 = demo_step_rows(1) [OF this, of 5]
  have "(5::int) \<le> 7" by simp
  note s2 = demo_step_honest [OF s1 this] and r2 = demo_step_rows [OF s1, of 7]
  from s2 show "\<exists>hist hs. honest hex_crypto ''k'' demo_log hist hs 7" unfolding demo_log_def by blast
  from r1 r2(1) show ch: "list_all is_chained (rows demo_log)" and "length (chained demo_log) = 2"
    "al_ts (last (chained demo_log)) = 7"
    by (auto simp: demo_log_def chained_filter)
  from s2 have "spotless (integrity_of hex_crypto ''k'' demo_log)"
    using scan_inv [OF hex_crypto_ok honest_inv [OF hex_crypto_ok]] unfolding demo_log_def by blast
  then show "ig_status (integrity_of hex_crypto ''k'' demo_log) = IntegrityOK"
    using r2(2) by (intro started_status) (simp_all add: demo_log_def)
qed

text \<open>An untouched log is a table that an editor without the key could leave.\<close>

lemma honest_unforged:
  assumes c: "crypto_ok c key" and inv: "chain_inv c key db hist hs now"
    and all: "list_all is_chained (rows db)"
  shows "unforged c key (signed_messages c hist {} hs) db" "table_ok db" "legacy_ok {} hs"
proof -
  have sub: "set (rows db) \<subseteq> set hist"
  proof (cases "head_row db")
    case None
    with inv all show ?thesis by (auto simp: chain_inv_def list_all_iff filter_empty_conv)
  next
    case (Some h)
    have "filter is_chained (rows db) = rows db" using all by (simp add: list_all_iff filter_id_conv)
    with Some inv have "rows db = drop (nat (ch_pruned h)) hist" by (simp add: chain_inv_def)
    then show ?thesis by (simp add: set_drop_subset)
  qed
  moreover have "h \<in> hs" if "head_row db = Some h" for h
    using that inv by (simp add: chain_inv_def)
  ultimately show "unforged c key (signed_messages c hist {} hs) db"
    by (auto simp: unforged_def signed_messages_def)
  show "table_ok db" "legacy_ok {} hs"
    using sub inv_hist_wf [OF inv] honest_heads(3) [OF c inv] inv
    by (auto simp: table_ok_def legacy_ok_def chain_inv_def)
qed

section \<open>Properties\<close>

text \<open>
  Property C4.  No false alarm: a log that only \<open>Log\<close> and \<open>Prune\<close> wrote, in any order and with any
  retention cut-offs, is reported \<open>ok\<close> (or \<open>not_started\<close>) with no invalid or missing entry and no
  problem, all its chained rows are counted, and \<open>classify\<close> marks each of them valid.
\<close>

theorem honest_log_verifies:
  assumes "crypto_ok c key" "honest c key db hist hs now"
  shows "spotless (integrity_of c key db) \<and>
    ig_chained (integrity_of c key db) = int (length (chained db)) \<and>
    (\<forall>e. e \<in> set (rows db) \<and> al_seq e \<noteq> None \<longrightarrow> classify c key db vs e = (SigValid, None))"
  using scan_inv [OF assms(1) honest_inv [OF assms]]
    classify_inv [OF assms(1) honest_inv [OF assms]] by auto

lemma honest_log_verifies_witness:
  "spotless (integrity_of hex_crypto ''k'' demo_log) \<and> ig_chained (integrity_of hex_crypto ''k'' demo_log) = 2"
proof -
  obtain hist hs where d: "honest hex_crypto ''k'' demo_log hist hs 7" using demo_honest(1) by blast
  from honest_log_verifies [OF hex_crypto_ok d] demo_honest(3) show ?thesis by simp
qed

text \<open>
  Retention on an honest log never pauses: \<open>Prune\<close> succeeds, keeps exactly the chained
  rows from the first one that is not older than the cut-off, and the remaining log verifies.
\<close>

theorem prune_honest_log:
  assumes "crypto_ok c key" "honest c key db hist hs now"
  shows "\<exists>n db'. prune c key before db = Inr (n, db') \<and>
    chained db' = dropWhile (\<lambda>e. al_ts e < before) (chained db) \<and>
    spotless (integrity_of c key db')"
proof -
  note inv = honest_inv [OF assms]
  obtain n db' where p: "prune c key before db = Inr (n, db')"
    using prune_honest [OF assms(1) inv] by blast
  note inv' = chain_inv_prune [OF assms(1) inv p]
  show ?thesis
    using p prune_chained [OF assms(1) inv p] scan_inv [OF assms(1) inv'] by blast
qed

lemma prune_honest_log_witness:
  "\<exists>n db'. prune hex_crypto ''k'' 6 demo_log = Inr (n, db') \<and> spotless (integrity_of hex_crypto ''k'' db')"
proof -
  obtain hist hs where d: "honest hex_crypto ''k'' demo_log hist hs 7" using demo_honest(1) by blast
  from prune_honest_log [OF hex_crypto_ok d, of 6] show ?thesis by blast
qed

text \<open>
  Property C3.  Tamper evidence: whatever rows and head an editor without the key leaves in the
  tables, if the verdict is still \<open>ok\<close> then the head is one the API signed, the chained rows are
  exactly the signed history up to that head (from some already pruned position on), byte for byte,
  and every unchained row is older than the chain.  What stays undetected is therefore only going
  back to an earlier state and putting back rows retention had removed.
\<close>

theorem tamper_evident:
  assumes c: "crypto_ok c key" and hon: "honest c key db hist hs now"
    and leg: "legacy_ok legacy hs" and tab: "table_ok db'"
    and unf: "unforged c key (signed_messages c hist legacy hs) db'"
    and ok: "ig_status (integrity_of c key db') = IntegrityOK"
  shows "\<exists>h \<in> hs. head_row db' = Some h \<and>
    (\<exists>k \<le> nat (ch_pruned h). chained db' = drop k (take (nat (ch_seq h)) hist)) \<and>
    (\<forall>e \<in> set (rows db'). al_seq e = None \<longrightarrow> al_ts e < ch_started h)"
proof -
  note inv = honest_inv [OF c hon]
  have "ig_status (scan c key db') = IntegrityOK"
    using ok c by (simp add: integrity_of_def crypto_ok_def)
  then obtain h where con: "consistent c key db' h" using scan_ok_consistent by blast
  have hwf: "\<forall>x \<in> set hist \<union> legacy. wf_log x" using inv_hist_wf [OF inv] leg by (auto simp: legacy_ok_def)
  have h: "head_row db' = Some h" "head_valid c key h" using con by (simp_all add: consistent_def)
  have hv: "\<forall>g \<in> hs. head_valid c key g \<and> NUL \<notin> set (ch_last_sig g)"
    using honest_heads(2,3) [OF c inv] by (auto simp: head_at_def)
  have nul: "NUL \<notin> set (ch_last_sig h)" using tab h(1) by (simp add: table_ok_def)
  have msg: "head_message c h \<in> signed_messages c hist legacy hs"
    using unf h by (simp add: unforged_def)
  note hs = genuine_head [OF c hwf hv h(2) nul msg]
  obtain st where l: "linked c key 0 [] st hist" and at: "head_at c key hist (ch_started h) h"
    using honest_heads [OF c inv hs] by blast
  have gen: "\<exists>x \<in> set hist \<union> legacy. same_content e x"
    if "e \<in> set (rows db')" "verify_audit_sig c key e" for e
  proof -
    have "wf_log e" using that(1) tab by (simp add: table_ok_def)
    moreover have "sign_message c e \<in> signed_messages c hist legacy hs"
      using that unf by (simp add: unforged_def)
    ultimately show ?thesis by (intro genuine_entry [OF c _ hwf])
  qed
  have "list_all (from_history hist c key) (chained db')"
    unfolding list_all_iff
  proof
    fix e assume "e \<in> set (chained db')"
    then have e: "e \<in> set (rows db')" "al_seq e \<noteq> None" by (auto simp: chained_def)
    moreover have "x \<in> set hist" if "same_content e x" "x \<in> set hist \<union> legacy" for x
      using that e(2) leg by (auto simp: same_content_def legacy_ok_def)
    ultimately show "from_history hist c key e" using gen unfolding from_history_def by blast
  qed
  note ch = consistent_history [OF l at con this]
  have "al_ts e < ch_started h" if e: "e \<in> set (rows db')" "al_seq e = None" for e
  proof (rule ccontr)
    assume late: "\<not> al_ts e < ch_started h"
    then have "unchained_reason c key e = None" using con e by (simp add: consistent_def)
    then have "verify_audit_sig c key e" by (auto simp: unchained_reason_def split: if_splits)
    then obtain x where x: "x \<in> set hist \<union> legacy" "same_content e x" using gen e(1) by blast
    then have "al_seq x = None" using e(2) by (simp add: same_content_def)
    then have "x \<in> legacy" using x(1) inv_hist_wf [OF inv, of x] by auto
    then show False using x(2) leg hs late by (auto simp: same_content_def legacy_ok_def)
  qed
  with hs h(1) ch show ?thesis by blast
qed

lemma tamper_evident_witness:
  "\<exists>h. head_row demo_log = Some h \<and> (\<forall>e \<in> set (rows demo_log). al_seq e = None \<longrightarrow> al_ts e < ch_started h)"
proof -
  obtain hist hs where d: "honest hex_crypto ''k'' demo_log hist hs 7" using demo_honest(1) by blast
  note u = honest_unforged [OF hex_crypto_ok honest_inv [OF hex_crypto_ok d] demo_honest(2)]
  show ?thesis using tamper_evident [OF hex_crypto_ok d u(3,2,1) demo_honest(4)] by blast
qed

end
