(* ===== verification/AuditViews.thy ===== *)
theory AuditViews
  imports AuditProps
begin

text \<open>
  Further facts on the audit log: a signature fits one content only, the verdict shown to one key
  hides no problem, and what happens to retention when the clock steps back.
\<close>

section \<open>Counters of the verdict\<close>

definition counts_ok :: "integrity \<Rightarrow> bool" where
  "counts_ok ig \<longleftrightarrow>
     0 \<le> ig_altered ig \<and> 0 \<le> ig_affected ig \<and> ig_invalid ig = ig_altered ig + ig_affected ig \<and>
     int (length (ig_all ig)) \<le> ig_invalid ig \<and> length (ig_all ig) \<le> max_tracked \<and>
     length (ig_entries ig) \<le> max_reported \<and> length (ig_missing_seqs ig) \<le> max_reported"

lemma counts_ok_empty [inv_intros]: "counts_ok empty_integrity"
  by (simp add: counts_ok_def empty_integrity_def)

lemma counts_ok_add_invalid [inv_intros]: "counts_ok ig \<Longrightarrow> counts_ok (add_invalid e r b ig)"
  by (cases r) (auto simp: counts_ok_def add_invalid_def Let_def)

lemma counts_ok_add_missing [inv_intros]: "counts_ok ig \<Longrightarrow> counts_ok (add_missing lo hi ig)"
  by (auto simp: counts_ok_def add_missing_def append_range_def)

lemma counts_ok_add_problem [inv_intros]: "counts_ok ig \<Longrightarrow> counts_ok (add_problem p ig)"
  by (simp add: counts_ok_def add_problem_def)

lemma counts_ok_scan_row: "counts_ok ig \<Longrightarrow> counts_ok (snd (scan_row c key ex e (prev, ig)))"
proof -
  assume "counts_ok ig"
  then have "counts_ok (ig\<lparr>ig_chained := ig_chained ig + 1, ig_chained_by := f\<rparr>)" for f
    by (simp add: counts_ok_def)
  then show ?thesis
    by (auto simp: scan_row_def Let_def intro!: inv_intros split: option.split)
qed

lemma counts_ok_scan_rows: "counts_ok (snd st) \<Longrightarrow> counts_ok (snd (scan_rows c key ex es st))"
proof (induction es arbitrary: st)
  case (Cons e es)
  then show ?case using counts_ok_scan_row [of "snd st" c key ex e "fst st"] by simp
qed simp

lemma counts_ok_scan_head: "counts_ok ig \<Longrightarrow> counts_ok (scan_head c key db lst ig)"
  by (auto simp: scan_head_def intro!: inv_intros split: option.split)

lemma counts_ok_scan_unchained: "counts_ok ig \<Longrightarrow> counts_ok (scan_unchained c key db ig)"
proof -
  have "counts_ok ig \<Longrightarrow> counts_ok (fold (\<lambda>e ig. case unchained_reason c key e of
      Some r \<Rightarrow> add_invalid e r False ig | None \<Rightarrow> ig) es ig)" for es ig
    by (induction es arbitrary: ig) (auto intro: inv_intros split: option.split)
  then show "counts_ok ig \<Longrightarrow> counts_ok (scan_unchained c key db ig)"
    by (auto simp: scan_unchained_def split: option.split)
qed

lemma counts_ok_count_legacy: "counts_ok ig \<Longrightarrow> counts_ok (count_legacy db ig)"
  by (simp add: counts_ok_def count_legacy_def Let_def)

text \<open>The verdict before its problems are written.\<close>

lemma scan_counts:
  "\<exists>b ig. scan c key db = conclude db b ig \<and> counts_ok ig"
proof -
  obtain lst ig where rows: "scan_rows c key (case head_ok c key db of Some h \<Rightarrow> ch_pruned h + 1 | None \<Rightarrow> 0)
      (chained db) (None, empty_integrity) = (lst, ig)" by fastforce
  then have "counts_ok ig"
    using counts_ok_scan_rows [of "(None, empty_integrity)"] counts_ok_empty by (metis snd_conv)
  then have "counts_ok (count_legacy db (scan_unchained c key db (scan_head c key db lst ig)))"
    by (intro counts_ok_count_legacy counts_ok_scan_unchained counts_ok_scan_head)
  with rows show ?thesis by (auto simp: scan_def)
qed

lemma conclude_fields [simp]:
  "ig_all (conclude db b ig) = ig_all ig" "ig_invalid (conclude db b ig) = ig_invalid ig"
  "ig_missing (conclude db b ig) = ig_missing ig" "ig_head_problems (conclude db b ig) = ig_problems ig"
  by (simp_all add: conclude_def add_problem_def Let_def)

lemma conclude_no_problem:
  "counts_ok ig \<Longrightarrow> ig_problems (conclude db b ig) = [] \<longleftrightarrow>
   ig_problems ig = [] \<and> ig_invalid ig = 0 \<and> ig_missing ig \<le> 0"
  by (auto simp: conclude_def add_problem_def counts_ok_def Let_def)

lemma filter_kind_split:
  "length (filter (\<lambda>e. ie_kind e = KindChain) own) + length (filter (\<lambda>e. ie_kind e \<noteq> KindChain) own) = length own"
  by (rule sum_length_filter_compl)

text \<open>
  The view of one key hides nothing: own and other invalid entries add up to all
  invalid ones, only entries of the key are listed (25 at most), the status is unchanged, and there
  are problems in the view exactly when the whole log has problems.
\<close>

theorem scoped_to_faithful:
  fixes c key db actor
  defines "ig \<equiv> integrity_of c key db"
  defines "own \<equiv> scoped_to actor ig"
  shows "the (ig_own_invalid own) + the (ig_other_invalid own) = ig_invalid ig \<and>
    0 \<le> the (ig_own_invalid own) \<and> 0 \<le> the (ig_other_invalid own) \<and>
    set (ig_entries own) \<subseteq> {e. ie_actor e = actor} \<and> length (ig_entries own) \<le> 25 \<and>
    ig_status own = ig_status ig \<and> (ig_problems own = [] \<longleftrightarrow> ig_problems ig = [])"
proof -
  let ?mine = "filter (\<lambda>e. ie_actor e = actor) (ig_all ig)"
  have cnt: "int (length (ig_all ig)) \<le> ig_invalid ig \<and>
      (ig_problems ig = [] \<longleftrightarrow> ig_head_problems ig = [] \<and> ig_invalid ig = 0 \<and> ig_missing ig \<le> 0)"
  proof (cases "key = []")
    case True
    then show ?thesis by (simp add: ig_def integrity_of_def empty_integrity_def)
  next
    case False
    obtain b ig0 where "scan c key db = conclude db b ig0" "counts_ok ig0" using scan_counts by blast
    with False show ?thesis by (simp add: ig_def integrity_of_def conclude_no_problem) (simp add: counts_ok_def)
  qed
  have len: "length ?mine + length (filter (\<lambda>e. ie_actor e \<noteq> actor) (ig_all ig)) = length (ig_all ig)"
    by (rule sum_length_filter_compl)
  have parts: "int (length (filter (\<lambda>e. ie_kind e = KindChain) ?mine)) +
      int (length (filter (\<lambda>e. ie_kind e \<noteq> KindChain) ?mine)) = int (length ?mine)"
    using filter_kind_split [of ?mine] by linarith
  have "ig_problems own = [] \<longleftrightarrow>
      ig_head_problems ig = [] \<and> ig_invalid ig = 0 \<and> ig_missing ig \<le> 0"
    using cnt len parts by (auto simp: own_def scoped_to_def Let_def simp del: filter_filter)
  moreover have "set (take n ?mine) \<subseteq> set ?mine" for n by (rule set_take_subset)
  ultimately show ?thesis
    using cnt len by (auto simp: own_def scoped_to_def max_reported_def Let_def simp del: filter_filter)
qed

text \<open>
  A signature fits one content: when the signature of a verified entry is put on
  another entry and that one verifies too, both have the same id, time, actor, session, run, action,
  metadata and chain position; and no entry's message is the message of a chain head.
\<close>

theorem signature_binds_content:
  assumes "crypto_ok c key" "wf_log a" "wf_log b"
    "verify_audit_sig c key a" "verify_audit_sig c key (b\<lparr>al_sig := al_sig a\<rparr>)"
  shows "same_content a b \<and> sign_message c b \<noteq> head_message c h"
proof -
  have "mac c key (sign_message c a) = mac c key (sign_message c b)"
    using assms(1,4,5) by (simp add: verify_iff)
  then have "sign_message c a = sign_message c b" using assms(1) by (auto simp: crypto_ok_def dest: injD)
  with sign_message_same [OF assms(1-3)] head_message_not_entry [OF assms(3)] show ?thesis by metis
qed

lemma signature_binds_content_witness:
  fixes e
  defines "e \<equiv> make_entry hex_crypto ''k'' 5 1 [] (event_entry ''id'' 5 demo_event)"
  shows "same_content e (e\<lparr>al_sig := ''x''\<rparr>)"
proof -
  have wf: "wf_log e" unfolding e_def by (rule wf_make_entry [OF wf_demo_entry]) simp
  have sg: "al_sig e = sign hex_crypto ''k'' e" unfolding e_def by (rule make_entry_fields(4))
  have v: "verify_audit_sig hex_crypto ''k'' e" by (rule linked_verify [OF hex_crypto_ok sg])
  have "verify_audit_sig hex_crypto ''k'' ((e\<lparr>al_sig := ''x''\<rparr>)\<lparr>al_sig := al_sig e\<rparr>)"
    using verify_signed [OF hex_crypto_ok, of e] by (simp add: sg)
  moreover have "wf_log (e\<lparr>al_sig := ''x''\<rparr>)" using wf by (simp add: wf_log_def)
  ultimately show ?thesis using signature_binds_content [OF hex_crypto_ok wf _ v] by blast
qed

section \<open>A clock that steps back\<close>

lemma prefix_loop_all_old:
  assumes "crypto_ok c key" "linked c key q s t es" "ps_expect st = q + 1" "es \<noteq> []"
    "ps_first st \<Longrightarrow> q = 0 \<Longrightarrow> s = []" "\<not> ps_first st \<Longrightarrow> ps_prev_sig st = s \<and> ps_prev_time st = t"
    "\<forall>e \<in> set es. al_ts e < before"
  shows "\<exists>st'. prefix_loop c key before st (es @ ys) = prefix_loop c key before st' ys \<and>
    \<not> ps_first st' \<and> ps_prev_time st' = al_ts (last es) \<and> ps_expect st' = q + int (length es) + 1 \<and>
    ps_prev_sig st' = al_sig (last es)"
  using assms
proof (induction es arbitrary: q s t st)
  case (Cons e es)
  from Cons.prems(2) have e: "al_seq e = Some (q + 1)" "al_prev_sig e = s" "al_sig e = sign c key e"
    "t \<le> al_ts e" and es: "linked c key (q + 1) (al_sig e) (al_ts e) es" by auto
  have v: "verify_audit_sig c key e" "al_sig e \<noteq> []"
    using e(3) Cons.prems(1) by (simp_all add: linked_verify sign_nonempty)
  have np: "prefix_problem c key st e = None"
  proof (cases "ps_first st")
    case True
    with e v Cons.prems(3,5) show ?thesis by (auto simp: prefix_problem_def Let_def)
  next
    case False
    with e v Cons.prems(3,6) show ?thesis by (simp add: prefix_problem_def)
  qed
  let ?st = "\<lparr>ps_last = q + 1, ps_prev_seq = q + 1, ps_prev_sig = al_sig e, ps_prev_time = al_ts e,
      ps_first = False, ps_expect = q + 1 + 1\<rparr>"
  have step: "prefix_loop c key before st ((e # es) @ ys) = prefix_loop c key before ?st (es @ ys)"
    using np e(1) Cons.prems(7) by (simp add: Let_def)
  show ?case
  proof (cases "es = []")
    case True
    with step show ?thesis by (intro exI [of _ ?st]) simp
  next
    case False
    have "\<exists>st'. prefix_loop c key before ?st (es @ ys) = prefix_loop c key before st' ys \<and>
      \<not> ps_first st' \<and> ps_prev_time st' = al_ts (last es) \<and>
      ps_expect st' = (q + 1) + int (length es) + 1 \<and> ps_prev_sig st' = al_sig (last es)"
      using False Cons.prems(7) by (intro Cons.IH [OF Cons.prems(1) es]) simp_all
    with step False show ?thesis by (simp add: algebra_simps)
  qed
qed simp

lemma all_old_or_stop:
  "(\<forall>e \<in> set es. al_ts e < b) \<or> old_count b es < length es"
  by (induction es) (auto simp: old_count_def)

lemma prefix_loop_stop:
  assumes "crypto_ok c key" "linked c key q s t es" "ps_expect st = q + 1"
    "ps_first st \<Longrightarrow> q = 0 \<Longrightarrow> s = []" "\<not> ps_first st \<Longrightarrow> ps_prev_sig st = s \<and> ps_prev_time st = t"
    "old_count before es < length es"
  shows "prefix_loop c key before st (es @ ys) = prefix_loop c key before st es"
  using assms
proof (induction es arbitrary: q s t st)
  case (Cons e es)
  from Cons.prems(2) have e: "al_seq e = Some (q + 1)" "al_prev_sig e = s" "al_sig e = sign c key e"
    "t \<le> al_ts e" and es: "linked c key (q + 1) (al_sig e) (al_ts e) es" by auto
  show ?case
  proof (cases "al_ts e < before")
    case True
    have "prefix_loop c key before
        \<lparr>ps_last = q + 1, ps_prev_seq = q + 1, ps_prev_sig = al_sig e, ps_prev_time = al_ts e,
           ps_first = False, ps_expect = q + 1 + 1\<rparr> (es @ ys) = prefix_loop c key before
        \<lparr>ps_last = q + 1, ps_prev_seq = q + 1, ps_prev_sig = al_sig e, ps_prev_time = al_ts e,
           ps_first = False, ps_expect = q + 1 + 1\<rparr> es"
      using Cons.prems(6) True by (intro Cons.IH [OF Cons.prems(1) es]) (simp_all add: old_count_def)
    with True e(1) show ?thesis by (auto simp: Let_def split: option.split)
  qed simp
qed simp

text \<open>The rows after an append, whatever its time is.\<close>

lemma append_chained:
  assumes inv: "chain_inv c key db hist hs now" and h: "head_row db = Some h"
    and log: "log_chained c key t0 t1 db entry = Some db'"
  defines "e \<equiv> next_entry c key t1 hist entry"
  shows "chained db' = chained db @ [e]"
    "\<exists>h'. head_row db' = Some h' \<and> head_valid c key h' \<and> ch_pruned h' = ch_pruned h"
proof -
  have h1: "head_row (ensure_head c key t0 db) = Some h" using h by (simp add: ensure_head_def)
  have db': "db' = \<lparr>rows = rows db @ [e], head_row = Some (advance_head c key h (int (length hist) + 1) (al_sig e))\<rparr>"
    using log_chained_honest(2) [OF inv, where ?t0.0 = t0 and ?t1.0 = t1 and entry = entry] log h1
    by (simp add: e_def)
  then show "\<exists>h'. head_row db' = Some h' \<and> head_valid c key h' \<and> ch_pruned h' = ch_pruned h"
    by (simp add: head_valid_advance)
  have "sorted (map (\<lambda>e. the (al_seq e)) (chained db @ [e]))"
  proof -
    have "the (al_seq x) \<le> int (length hist) + 1" if "x \<in> set (chained db)" for x
    proof -
      from that obtain q where "x \<in> set (rows db)" "al_seq x = Some q" by (auto simp: chained_def)
      with chained_row_nth [OF inv h this] show ?thesis by simp
    qed
    then have "\<forall>n \<in> set (map (\<lambda>e. the (al_seq e)) (chained db)). n \<le> int (length hist) + 1" by auto
    moreover have "sorted (map (\<lambda>e. the (al_seq e)) (chained db))" by (simp add: chained_def)
    ultimately show ?thesis by (simp add: sorted_append e_def next_entry_def)
  qed
  moreover have "filter is_chained (rows db') = chained db @ [e]"
    using inv h db' inv_chained(1) [OF inv h]
    by (simp add: chain_inv_def is_chained_def e_def next_entry_def)
  ultimately show "chained db' = chained db @ [e]"
    by (simp add: chained_filter sort_key_id_if_sorted)
qed

text \<open>
  \<open>Log\<close> takes the time of an entry from the wall clock and nothing keeps it from being
  earlier than the entry before.  When that happens once, \<open>Prune\<close> refuses to delete anything for
  every cut-off after the time of that entry, although nobody changed the log.
\<close>

theorem clock_step_back_blocks_retention:
  assumes c: "crypto_ok c key" and hon: "honest c key db hist hs now" and ne: "chained db \<noteq> []"
    and log: "log_chained c key t0 t1 db entry = Some db'"
    and early: "t1 < al_ts (last (chained db))" and cut: "t1 < before"
  shows "\<exists>p. prune c key before db' = Inl p"
proof -
  note inv = honest_inv [OF c hon]
  obtain h where h: "head_row db = Some h" using ne inv_no_head [OF inv] by (cases "head_row db") auto
  obtain h' where h': "head_row db' = Some h'" "head_valid c key h'" "ch_pruned h' = ch_pruned h"
    using append_chained(2) [OF inv h log] by blast
  define e where "e = next_entry c key t1 hist entry"
  have ch: "chained db' = chained db @ [e]" unfolding e_def by (rule append_chained(1) [OF inv h log])
  have ts: "al_ts e = t1" by (simp add: e_def next_entry_def)
  note l = inv_chained(2) [OF inv h]
  have len: "ch_pruned h + int (length (chained db)) = int (length hist)"
  proof -
    have "0 \<le> ch_pruned h" "ch_pruned h \<le> int (length hist)"
      using inv h by (simp_all add: chain_inv_def head_at_def)
    then show ?thesis using inv_chained(1) [OF inv h] by simp
  qed
  let ?st = "\<lparr>ps_last = 0, ps_prev_seq = 0, ps_prev_sig = [], ps_prev_time = 0,
                 ps_first = True, ps_expect = ch_pruned h + 1\<rparr>"
  have "\<exists>p. old_prefix c key before db' h' = Inl p"
    using all_old_or_stop [of "chained db" before]
  proof
    assume "\<forall>e \<in> set (chained db). al_ts e < before"
    then obtain st' where st': "prefix_loop c key before ?st (chained db @ [e]) =
        prefix_loop c key before st' [e]" "\<not> ps_first st'" "ps_prev_time st' = al_ts (last (chained db))"
      using prefix_loop_all_old [OF c l, of ?st before "[e]"] ne by (auto simp: last_sig_of_def)
    have "prefix_problem c key st' e \<noteq> None"
      using st'(2,3) ts early by (simp add: prefix_problem_def Let_def)
    then have "\<exists>p m. prefix_loop c key before ?st (chained db') = (Some p, m, 0)"
      using st'(1) ts cut ch by auto
    then show ?thesis using h'(3) by (auto simp: old_prefix_def)
  next
    assume stop: "old_count before (chained db) < length (chained db)"
    let ?k = "old_count before (chained db)"
    have "prefix_loop c key before ?st (chained db') =
        (None, if ?k = 0 then 0 else ch_pruned h + int ?k, ch_pruned h + int ?k + 1)"
      using prefix_loop_stop [OF c l, of ?st before "[e]"] prefix_loop_linked [OF c l, of ?st before] stop ch
      by (simp add: last_sig_of_def)
    moreover have "find (\<lambda>x. ch_pruned h + int ?k + 1 < the (al_seq x) \<and> al_ts x < before) (chained db') \<noteq> None"
    proof -
      have "ch_pruned h + int ?k + 1 < the (al_seq e)" using stop len by (simp add: e_def next_entry_def)
      moreover have "e \<in> set (chained db')" using ch by simp
      ultimately show ?thesis using ts cut unfolding find_None_iff by auto
    qed
    moreover have "0 \<le> ch_pruned h" using inv h by (simp add: chain_inv_def head_at_def)
    ultimately show ?thesis using h'(3) by (auto simp: old_prefix_def)
  qed
  then show ?thesis using h' c by (auto simp: prune_def crypto_ok_def)
qed

lemma clock_step_back_blocks_retention_witness:
  "\<exists>db' p. log_chained hex_crypto ''k'' 6 6 demo_log (event_entry ''id'' 6 demo_event) = Some db' \<and>
     prune hex_crypto ''k'' 100 db' = Inl p"
proof -
  obtain hist hs where d: "honest hex_crypto ''k'' demo_log hist hs 7" using demo_honest(1) by blast
  obtain db' where log: "log_chained hex_crypto ''k'' 6 6 demo_log (event_entry ''id'' 6 demo_event) = Some db'"
    using log_chained_honest(2) [OF honest_inv [OF hex_crypto_ok d]] by blast
  have "chained demo_log \<noteq> []" "(6::int) < al_ts (last (chained demo_log))"
    using demo_honest(3,5) by auto
  with clock_step_back_blocks_retention [OF hex_crypto_ok d _ log, of 100] log show ?thesis by auto
qed

end
