(* ===== verification/GuardPolicy.thy ===== *)
theory GuardPolicy
  imports Paths
begin

text \<open>
  \<open>internal/dockerguard/policy.go\<close>: what the API may ask of the Docker daemon.  A request is given by
  the fields the policy reads (labels as the value of \<open>vaultrun.managed\<close>, nil pointers as \<open>None\<close>);
  \<open>os.Lstat\<close> is a parameter that says what a host path is.
\<close>

record policy =
  po_workspace_dir :: string
  po_runtime :: string
  po_seccomp :: string
  po_netpolicy :: string

datatype file_kind = Directory | Symlink | OtherFile

datatype denial =
    NoConfig
  | NotManaged
  | PrivilegedCtr
  | CapabilitiesAdded
  | BindsUsed
  | VolumesFromUsed
  | DevicesUsed
  | PortsPublished
  | SysctlsUsed
  | CgroupChosen
  | PathsUnmasked
  | NamespaceShared
  | CgroupnsShared
  | RuntimeDenied
  | DeviceRequestDenied
  | SeccompDenied
  | SecurityOptDenied string
  | NoNewPrivMissing
  | NetworkDenied string
  | VolumeDenied string
  | PropagationDenied
  | BindOutside string
  | BindNotSession string
  | BindMissing string
  | BindNotDirectory string
  | MountTypeDenied
  | PrivilegedExec
  | NetpolicyOptions
  | NetpolicyCommand
  | IptTooFew
  | IptTable
  | IptChain
  | IptHook
  | IptJump
  | IptOp
  | NetName
  | NetDriver
  | NetLabel
  | NetOptions

datatype mount_type = TBind | TVolume | TTmpfs | TOther string

record mnt =
  mt_type :: mount_type
  mt_source :: string
  mt_propagation :: "string option"
  mt_driver_config :: bool

record host_config =
  hc_privileged :: bool
  hc_cap_add :: "string list"
  hc_binds :: "string list"
  hc_volumes_from :: "string list"
  hc_links :: "string list"
  hc_devices :: "string list"
  hc_device_cgroup_rules :: "string list"
  hc_port_bindings :: "string list"
  hc_publish_all :: bool
  hc_sysctls :: "string list"
  hc_cgroup_parent :: string
  hc_cgroup :: string
  hc_masked_paths :: "string list option"
  hc_readonly_paths :: "string list option"
  hc_pid_mode :: string
  hc_ipc_mode :: string
  hc_uts_mode :: string
  hc_userns_mode :: string
  hc_cgroupns_mode :: string
  hc_runtime :: string
  hc_device_drivers :: "string list"
  hc_security_opt :: "string list"
  hc_network_mode :: string
  hc_mounts :: "mnt list"

section \<open>Names\<close>

definition tools_volume :: string where
  "tools_volume = ''vaultrun-tools''"

definition session_net_pfx :: string where
  "session_net_pfx = ''vaultrun-net-''"

text \<open>The regular expressions \<open>uuidPattern\<close>, \<open>WorkspaceNameRe\<close>, \<open>sessionNetRe\<close>, \<open>chainRe\<close>, \<open>bridgeRe\<close>.\<close>

definition hex_run :: "nat \<Rightarrow> string \<Rightarrow> bool" where
  "hex_run n s \<longleftrightarrow> length s = n \<and> list_all is_hex_lower s"

definition uuid_re :: "string \<Rightarrow> bool" where
  "uuid_re s \<longleftrightarrow> list_all2 hex_run [8, 4, 4, 4, 12] (split_on CHR ''-'' s)"

definition workspace_name_re :: "string \<Rightarrow> bool" where
  "workspace_name_re s \<longleftrightarrow> uuid_re s \<or> (has_prefix s ''warm-'' \<and> uuid_re (drop 5 s))"

definition session_net_re :: "string \<Rightarrow> bool" where
  "session_net_re s \<longleftrightarrow> has_prefix s session_net_pfx \<and> uuid_re (drop (length session_net_pfx) s)"

definition chain_re :: "string \<Rightarrow> bool" where
  "chain_re s \<longleftrightarrow>
     has_prefix s ''vr-'' \<and>
     (let r = drop 3 s; h = (if has_suffix r ''-in'' then take (length r - 3) r else r)
      in list_all is_hex_lower h \<and> 1 \<le> length h \<and> length h \<le> 12)"

definition bridge_re :: "string \<Rightarrow> bool" where
  "bridge_re s \<longleftrightarrow> has_prefix s ''br-'' \<and> hex_run 12 (drop 3 s)"

section \<open>Containers\<close>

definition nnp_opt :: "string \<Rightarrow> bool" where
  "nnp_opt x \<longleftrightarrow> x \<in> {''no-new-privileges'', ''no-new-privileges:true'', ''no-new-privileges=true''}"

definition seccomp_opt :: "string \<Rightarrow> bool" where
  "seccomp_opt x \<longleftrightarrow> has_prefix x ''seccomp='' \<or> has_prefix x ''seccomp:''"

definition check_option :: "policy \<Rightarrow> string \<Rightarrow> denial + unit" where
  "check_option p x =
     (if nnp_opt x then Inr ()
      else if seccomp_opt x then
        (if po_seccomp p = [] \<or> drop 8 x \<noteq> po_seccomp p then Inl SeccompDenied else Inr ())
      else Inl (SecurityOptDenied x))"

definition check_security_opt :: "policy \<Rightarrow> string list \<Rightarrow> denial + unit" where
  "check_security_opt p opts =
     rbind (check_all (check_option p) opts)
       (\<lambda>_. if list_ex nnp_opt opts then Inr () else Inl NoNewPrivMissing)"

definition check_network_name :: "string \<Rightarrow> denial + unit" where
  "check_network_name name =
     (if name \<in> {'''', ''none'', ''bridge'', ''default''} \<or> session_net_re name then Inr ()
      else Inl (NetworkDenied name))"

definition workspace_path :: "policy \<Rightarrow> (string \<Rightarrow> file_kind option) \<Rightarrow> string \<Rightarrow> denial + string" where
  "workspace_path p lstat source =
     (if clean source \<noteq> source \<or> path_dir source \<noteq> clean (po_workspace_dir p) then Inl (BindOutside source)
      else let name = path_base source in
        if \<not> workspace_name_re name then Inl (BindNotSession source)
        else case lstat source of
          None \<Rightarrow> Inl (BindMissing source)
        | Some k \<Rightarrow> if k = Directory then Inr name else Inl (BindNotDirectory source))"

definition check_mount :: "policy \<Rightarrow> (string \<Rightarrow> file_kind option) \<Rightarrow> mnt \<Rightarrow> denial + unit" where
  "check_mount p lstat m =
     (case mt_type m of
        TTmpfs \<Rightarrow> Inr ()
      | TVolume \<Rightarrow>
          if mt_source m \<noteq> tools_volume \<or> mt_driver_config m then Inl (VolumeDenied (mt_source m)) else Inr ()
      | TBind \<Rightarrow>
          if (case mt_propagation m of None \<Rightarrow> False | Some pr \<Rightarrow> pr \<notin> {'''', ''private'', ''rprivate''})
          then Inl PropagationDenied
          else rbind (workspace_path p lstat (mt_source m)) (\<lambda>_. Inr ())
      | TOther _ \<Rightarrow> Inl MountTypeDenied)"

definition host_config_problem :: "policy \<Rightarrow> host_config \<Rightarrow> denial option" where
  "host_config_problem p hc =
     (if hc_privileged hc then Some PrivilegedCtr
      else if hc_cap_add hc \<noteq> [] then Some CapabilitiesAdded
      else if hc_binds hc \<noteq> [] then Some BindsUsed
      else if hc_volumes_from hc \<noteq> [] \<or> hc_links hc \<noteq> [] then Some VolumesFromUsed
      else if hc_devices hc \<noteq> [] \<or> hc_device_cgroup_rules hc \<noteq> [] then Some DevicesUsed
      else if hc_port_bindings hc \<noteq> [] \<or> hc_publish_all hc then Some PortsPublished
      else if hc_sysctls hc \<noteq> [] then Some SysctlsUsed
      else if hc_cgroup_parent hc \<noteq> [] \<or> hc_cgroup hc \<noteq> [] then Some CgroupChosen
      else if hc_masked_paths hc \<noteq> None \<or> hc_readonly_paths hc \<noteq> None then Some PathsUnmasked
      else if hc_pid_mode hc \<noteq> [] \<or> hc_ipc_mode hc \<noteq> [] \<or> hc_uts_mode hc \<noteq> [] \<or> hc_userns_mode hc \<noteq> []
        then Some NamespaceShared
      else if hc_cgroupns_mode hc \<noteq> [] \<and> hc_cgroupns_mode hc \<noteq> ''private'' then Some CgroupnsShared
      else if hc_runtime hc \<noteq> po_runtime p \<and> \<not> (po_runtime p = [] \<and> hc_runtime hc = ''runc'')
        then Some RuntimeDenied
      else None)"

text \<open>
  \<open>CheckCreate\<close>: the managed label of the config, the host config, the endpoint names of the
  networking config.
\<close>

definition check_create ::
  "policy \<Rightarrow> (string \<Rightarrow> file_kind option) \<Rightarrow> string option option \<Rightarrow> host_config option \<Rightarrow>
   string list option \<Rightarrow> denial + unit" where
  "check_create p lstat cfg hco nc =
     (case (cfg, hco) of
        (Some managed, Some hc) \<Rightarrow>
          if managed \<noteq> Some ''true'' then Inl NotManaged
          else (case host_config_problem p hc of
            Some e \<Rightarrow> Inl e
          | None \<Rightarrow>
              rbind (check_all (\<lambda>d. if d = ''nvidia'' then Inr () else Inl DeviceRequestDenied)
                       (hc_device_drivers hc)) (\<lambda>_.
              rbind (check_security_opt p (hc_security_opt hc)) (\<lambda>_.
              rbind (check_network_name (hc_network_mode hc)) (\<lambda>_.
              rbind (case nc of None \<Rightarrow> Inr () | Some names \<Rightarrow> check_all check_network_name names) (\<lambda>_.
              check_all (check_mount p lstat) (hc_mounts hc))))))
      | _ \<Rightarrow> Inl NoConfig)"

section \<open>Commands\<close>

record exec_options =
  xo_privileged :: bool
  xo_user :: string
  xo_env :: "string list"
  xo_working_dir :: string
  xo_attach_stdin :: bool
  xo_tty :: bool
  xo_cmd :: "string list"

definition names_table :: "string \<Rightarrow> bool" where
  "names_table a \<longleftrightarrow>
     a = ''-t'' \<or> has_prefix a ''--table'' \<or>
     (has_prefix a ''-t'' \<and> 2 < length a \<and> \<not> has_prefix a ''--'')"

definition check_iptables :: "string list \<Rightarrow> denial + unit" where
  "check_iptables args =
     (case args of
        op # chain # rest \<Rightarrow>
          if list_ex names_table args then Inl IptTable
          else if op \<in> {''-N'', ''-F'', ''-X''} then
            (if \<not> chain_re chain \<or> rest \<noteq> [] then Inl IptChain else Inr ())
          else if op = ''-A'' then (if \<not> chain_re chain then Inl IptChain else Inr ())
          else if op = ''-I'' \<or> op = ''-D'' then
            (if chain \<noteq> ''FORWARD'' \<and> chain \<noteq> ''INPUT'' then Inl IptHook
             else if (case rest of
                        [i, br, j, target] \<Rightarrow>
                          i = ''-i'' \<and> bridge_re br \<and> j = ''-j'' \<and> (target = ''DROP'' \<or> chain_re target)
                      | _ \<Rightarrow> False)
             then Inr ()
             else Inl IptJump)
          else Inl IptOp
      | _ \<Rightarrow> Inl IptTooFew)"

definition check_exec :: "exec_options \<Rightarrow> bool \<Rightarrow> denial + unit" where
  "check_exec xo netpolicy =
     (if xo_privileged xo then Inl PrivilegedExec
      else if \<not> netpolicy then Inr ()
      else if xo_user xo \<noteq> [] \<or> xo_env xo \<noteq> [] \<or> xo_working_dir xo \<noteq> [] \<or> xo_attach_stdin xo \<or> xo_tty xo
      then Inl NetpolicyOptions
      else case xo_cmd xo of
        [] \<Rightarrow> Inl NetpolicyCommand
      | bin # args \<Rightarrow>
          if bin \<noteq> ''iptables'' \<and> bin \<noteq> ''ip6tables'' then Inl NetpolicyCommand else check_iptables args)"

section \<open>Networks\<close>

record network_request =
  nr_name :: string
  nr_driver :: string
  nr_managed :: "string option"
  nr_options :: "string list"
  nr_ipam :: "(nat \<times> nat \<times> string) option"
  nr_config_from :: bool
  nr_config_only :: bool
  nr_ingress :: bool
  nr_scope :: string

definition check_network_create :: "network_request \<Rightarrow> denial + unit" where
  "check_network_create r =
     (if \<not> session_net_re (nr_name r) then Inl NetName
      else if nr_driver r \<noteq> [] \<and> nr_driver r \<noteq> ''bridge'' then Inl NetDriver
      else if nr_managed r \<noteq> Some ''true'' then Inl NetLabel
      else if nr_options r \<noteq> []
           \<or> (case nr_ipam r of None \<Rightarrow> False
              | Some (configs, opts, driver) \<Rightarrow> 0 < configs \<or> 0 < opts \<or> (driver \<noteq> [] \<and> driver \<noteq> ''default''))
           \<or> nr_config_from r \<or> nr_config_only r \<or> nr_ingress r \<or> (nr_scope r \<noteq> [] \<and> nr_scope r \<noteq> ''local'')
      then Inl NetOptions
      else Inr ())"

section \<open>Accepted bind mounts\<close>

lemma hex_no_slash: "is_hex_lower c \<Longrightarrow> c \<noteq> slash \<and> c \<noteq> CHR ''.''"
  by (auto simp: is_hex_lower_def is_digit_def)

lemma uuid_chars: "uuid_re s \<Longrightarrow> c \<in> set s \<Longrightarrow> is_hex_lower c \<or> c = CHR ''-''"
proof -
  assume u: "uuid_re s" and c: "c \<in> set s"
  have "c = CHR ''-'' \<or> (\<exists>p \<in> set (split_on CHR ''-'' s). c \<in> set p)"
    using c set_split_on by blast
  moreover have "list_all is_hex_lower p" if "p \<in> set (split_on CHR ''-'' s)" for p
    using u that by (auto simp: uuid_re_def list_all2_conv_all_nth in_set_conv_nth hex_run_def)
  ultimately show ?thesis by (auto simp: list_all_iff)
qed

lemma uuid_nonempty: "uuid_re s \<Longrightarrow> s \<noteq> []"
  by (auto simp: uuid_re_def)

lemma workspace_name_proper: "workspace_name_re s \<Longrightarrow> proper_comp s"
proof -
  assume w: "workspace_name_re s"
  have plain: "proper_comp t" if t: "t \<noteq> []" "\<forall>c \<in> set t. c \<noteq> slash \<and> c \<noteq> CHR ''.''" for t
    using t by (cases t) (auto simp: proper_comp_def)
  have u: "\<forall>c \<in> set t. c \<noteq> slash \<and> c \<noteq> CHR ''.''" if "uuid_re t" for t
    using uuid_chars [OF that] hex_no_slash by fastforce
  show ?thesis
  proof (cases "uuid_re s")
    case True
    then show ?thesis using plain u uuid_nonempty by blast
  next
    case False
    with w obtain t where t: "s = ''warm-'' @ t" "uuid_re t"
      by (auto simp: workspace_name_re_def has_prefix_iff)
    then show ?thesis using u [OF t(2)] by (intro plain) auto
  qed
qed

lemma clean_snoc:
  assumes "proper_comp name" "comps q = comps p @ [name]" "rooted q = rooted p" "q \<noteq> []"
  shows "clean q = render (rooted p) (comps (clean p) @ [name])"
proof -
  have "norm_comps r [] (cs @ [name]) = norm_comps r [] cs @ [name]" for r cs
    using assms(1) by (simp add: norm_comps_append proper_comp_def)
  then show ?thesis using assms by (simp add: clean_def [of q] comps_clean)
qed

lemma last_slash_split:
  assumes "last_slash s = (a, b)"
  shows "s = a @ b" "slash \<notin> set b" "a = [] \<or> (\<exists>a'. a = a' @ [slash])"
proof -
  have a: "a = rev (dropWhile (\<lambda>c. c \<noteq> slash) (rev s))" and b: "b = rev (takeWhile (\<lambda>c. c \<noteq> slash) (rev s))"
    using assms by (simp_all add: last_slash_def)
  have "rev s = takeWhile (\<lambda>c. c \<noteq> slash) (rev s) @ dropWhile (\<lambda>c. c \<noteq> slash) (rev s)" by simp
  then show "s = a @ b" unfolding a b by (metis rev_append rev_rev_ident)
  show "slash \<notin> set b" unfolding b by (auto dest: set_takeWhileD)
  show "a = [] \<or> (\<exists>a'. a = a' @ [slash])"
  proof (cases "dropWhile (\<lambda>c. c \<noteq> slash) (rev s)")
    case (Cons c t)
    then have "c = slash" using hd_dropWhile [of "\<lambda>c. c \<noteq> slash" "rev s"] by auto
    with Cons show ?thesis unfolding a by simp
  qed (simp add: a)
qed

lemma clean_no_trailing_slash: "clean p = q @ [slash] \<Longrightarrow> q = []"
proof -
  assume q: "clean p = q @ [slash]"
  let ?cs = "norm_comps (rooted p) [] (comps p)"
  have parts: "\<forall>c \<in> set ?cs. c \<noteq> [] \<and> slash \<notin> set c" using norm_comps_parts by blast
  have lst: "last (join_with [slash] cs) \<noteq> slash" if "cs \<noteq> []" "\<forall>c \<in> set cs. c \<noteq> [] \<and> slash \<notin> set c" for cs
    using that
  proof (induction cs rule: rev_induct)
    case (snoc x xs)
    then have "last x \<noteq> slash" by (auto dest: last_in_set)
    moreover have "\<exists>ys. join_with [slash] (xs @ [x]) = ys @ x"
      by (cases "xs = []") (auto simp: join_with_append)
    ultimately show ?case using snoc.prems by auto
  qed simp
  have ne: "join_with [slash] ?cs \<noteq> []" if "?cs \<noteq> []"
    using join_hd_not_slash(2) [of ?cs] parts that by blast
  have l: "last (clean p) = slash" using q by simp
  show ?thesis
  proof (cases "p \<noteq> [] \<and> ?cs \<noteq> []")
    case True
    then have "last (clean p) \<noteq> slash"
      using lst [OF _ parts] ne by (auto simp: clean_def render_def)
    with l show ?thesis by simp
  next
    case False
    then have "clean p = [slash] \<or> clean p = dot" by (auto simp: clean_def render_def)
    with q show ?thesis by auto
  qed
qed

text \<open>A source that \<open>WorkspacePath\<close> accepts is a session directory directly in the workspace base.\<close>

lemma workspace_path_ok:
  assumes "workspace_path p lstat source = Inr name"
  shows "workspace_name_re name \<and> lstat source = Some Directory \<and> source = join2 (po_workspace_dir p) name"
proof -
  let ?b = "po_workspace_dir p"
  from assms have cl: "clean source = source" and dir: "path_dir source = clean ?b"
    and name: "name = path_base source" "workspace_name_re name" and dirk: "lstat source = Some Directory"
    by (auto simp: workspace_path_def Let_def split: if_splits option.splits)
  note pn = workspace_name_proper [OF name(2)]
  have ne: "source \<noteq> []" using cl clean_nonempty by metis
  obtain a b where ab: "last_slash source = (a, b)" by fastforce
  note s = last_slash_split [OF ab]
  have b: "name = b"
  proof (cases "last source = slash")
    case True
    with ne obtain q where "source = q @ [slash]" by (metis append_butlast_last_id)
    with clean_no_trailing_slash cl have "source = [slash]" by fastforce
    then have "name = [slash]" by (simp add: name path_base_def)
    with pn show ?thesis by (simp add: proper_comp_def)
  next
    case False
    then have "dropWhile (\<lambda>c. c = slash) (rev source) = rev source"
      using ne by (metis dropWhile_eq_self_iff hd_rev)
    then show ?thesis using ne ab by (simp add: name path_base_def)
  qed
  have ca: "clean a = clean ?b" using dir ab by (simp add: path_dir_def)
  have src: "source = render (rooted ?b) (comps (clean ?b) @ [name])"
  proof (cases "a = []")
    case True
    then have d: "clean ?b = dot" using ca by (simp add: clean_def)
    have nr: "\<not> rooted ?b" using rooted_clean [of ?b] d by (simp add: rooted_def has_prefix_def)
    have "comps dot = []" by (simp add: comps_def)
    with True b s d nr show ?thesis by (simp add: render_def)
  next
    case False
    then obtain a' where a': "a = a' @ [slash]" using s(3) by blast
    have "comps source = comps a @ [name]"
      using s(1) a' b pn comps_append_slash [of a' b] comps_append_slash [of a' "[]"]
      by (simp add: comps_def proper_comp_def split_on_no_sep)
    moreover have "rooted source = rooted a" using s(1) False by (simp add: rooted_append)
    ultimately have "clean source = render (rooted a) (comps (clean a) @ [name])"
      by (intro clean_snoc pn ne)
    moreover have "rooted a = rooted ?b" using ca rooted_clean by metis
    ultimately show ?thesis using cl ca by simp
  qed
  moreover have "join2 ?b name = render (rooted ?b) (comps (clean ?b) @ [name])"
  proof (cases "?b = []")
    case True
    have "comps name = [name]" "\<not> rooted name" "name \<noteq> []"
      using pn by (auto simp: comps_def proper_comp_def split_on_no_sep rooted_def has_prefix_iff)
    then have "clean name = render (rooted ?b) (comps (clean ?b) @ [name])"
      using True by (intro clean_snoc pn) (simp_all add: rooted_def has_prefix_def)
    then show ?thesis using True pn by (simp add: join2_def proper_comp_def)
  next
    case False
    have "comps (?b @ [slash] @ name) = comps ?b @ [name]"
      using comps_append_slash [of ?b name] pn by (simp add: comps_def proper_comp_def split_on_no_sep)
    then have "clean (?b @ [slash] @ name) = render (rooted ?b) (comps (clean ?b) @ [name])"
      using False by (intro clean_snoc pn) (simp_all add: rooted_append)
    then show ?thesis using False by (simp add: join2_def)
  qed
  ultimately show ?thesis using name dirk by simp
qed

end
