(* ===== verification/GuardServer.thy ===== *)
theory GuardServer
  imports GuardPolicy
begin

text \<open>
  \<open>internal/dockerguard/guard.go\<close> and \<open>dirs.go\<close>: one request through the guard.  A handler returns
  the status it answers, the calls that reached the daemon or the file system, and the new table of
  exec ids.  What the daemon and the file system answer is a parameter and may differ from one
  request (and one call) to the next.  Request bodies are given decoded, \<open>None\<close> when they do not
  decode.  The quota container (\<open>runQuotaTool\<close>) is one call with the arguments it runs.
\<close>

datatype http_method = GET | HEAD | POST | PUT | DELETE | OtherMethod

record create_body =
  cb_managed :: "string option option"
  cb_host :: "host_config option"
  cb_endpoints :: "string list option"

record volume_body =
  vb_name :: string
  vb_driver :: string
  vb_driver_opts :: "string list"
  vb_cluster :: bool

record workspace_body =
  wb_name :: string
  wb_mode :: nat

record quota_body =
  qb_op :: string
  qb_name :: string
  qb_project :: nat
  qb_bytes :: int

record request =
  rq_method :: http_method
  rq_path :: string
  rq_from_image :: string
  rq_from_src :: string
  rq_name :: string
  rq_create :: "create_body option"
  rq_exec :: "exec_options option"
  rq_network :: "network_request option"
  rq_volume :: "volume_body option"
  rq_workspace :: "workspace_body option"
  rq_quota :: "quota_body option"

record container_info =
  ci_name :: string
  ci_managed :: "string option option"
  ci_host :: "host_config option"

text \<open>Errors of the daemon, as \<open>errdefs\<close> classifies them, and the statuses of the handlers.\<close>

datatype daemon_err = DeNotFound | DeConflict | DeInvalid | DeOther

datatype guard_err = Denied | Status nat | Daemon daemon_err

definition err_status :: "guard_err \<Rightarrow> nat" where
  "err_status e =
     (case e of
        Denied \<Rightarrow> 403
      | Status n \<Rightarrow> n
      | Daemon DeNotFound \<Rightarrow> 404
      | Daemon DeConflict \<Rightarrow> 409
      | Daemon DeInvalid \<Rightarrow> 400
      | Daemon DeOther \<Rightarrow> 500)"

text \<open>What a request sets in motion.\<close>

datatype action =
    Forward http_method string
  | CreateContainer create_body string
  | CreateExec string exec_options string
  | CreateNetwork string
  | CreateVolume
  | MkDir string nat
  | ChOwn string
  | ChMod string nat
  | RemoveAll string
  | QuotaTool "string list"

text \<open>The answers of one request; \<open>an_inspect\<close> is asked at most twice.\<close>

record answers =
  an_inspect :: "nat \<Rightarrow> string \<Rightarrow> daemon_err + container_info"
  an_network :: "string \<Rightarrow> daemon_err + string option"
  an_create :: "daemon_err option"
  an_exec_id :: "daemon_err + string"
  an_lstat :: "string \<Rightarrow> file_kind option"
  an_mkdir_failed :: bool
  an_chown_failed :: bool
  an_chmod_failed :: bool
  an_remove_failed :: bool
  an_quota :: bool
  an_now :: time

record guard_config =
  gc_policy :: policy
  gc_dirs :: "string option"

type_synonym execs = "string \<Rightarrow> time option"

type_synonym outcome = "(guard_err + nat) \<times> action list"

definition deny :: outcome where
  "deny = (Inl Denied, [])"

section \<open>Paths\<close>

definition strip_version :: "string \<Rightarrow> string" where
  "strip_version p =
     (if \<not> has_prefix p ''/v'' then p
      else let ds = takeWhile is_digit (drop 2 p); r = dropWhile is_digit (drop 2 p);
               r' = (case r of
                       [] \<Rightarrow> r
                     | c # t \<Rightarrow> if c = CHR ''.'' \<and> takeWhile is_digit t \<noteq> [] then dropWhile is_digit t else r)
           in if ds = [] then p
              else case r' of
                [] \<Rightarrow> [slash]
              | c # t \<Rightarrow> if c = slash then slash # t else p)"

definition container_re :: "string \<Rightarrow> (string \<times> string) option" where
  "container_re p =
     (case split_on slash p of
        [a, b, i] \<Rightarrow> if a = [] \<and> b = ''containers'' \<and> i \<noteq> [] then Some (i, []) else None
      | [a, b, i, oper] \<Rightarrow>
          if a = [] \<and> b = ''containers'' \<and> i \<noteq> [] \<and> oper \<noteq> [] \<and> list_all is_lower oper then Some (i, oper) else None
      | _ \<Rightarrow> None)"

definition exec_re :: "string \<Rightarrow> (string \<times> string) option" where
  "exec_re p =
     (case split_on slash p of
        [a, b, i, oper] \<Rightarrow>
          if a = [] \<and> b = ''exec'' \<and> hex_run 64 i \<and> oper \<in> {''start'', ''resize'', ''json''} then Some (i, oper) else None
      | _ \<Rightarrow> None)"

definition image_re :: "string \<Rightarrow> bool" where
  "image_re p \<longleftrightarrow>
     has_prefix p ''/images/'' \<and> has_suffix p ''/json'' \<and> 13 < length p \<and>
     CHR 0x0A \<notin> set (take (length p - 13) (drop 8 p))"

definition one_name_re :: "string list \<Rightarrow> string \<Rightarrow> string option" where
  "one_name_re front p =
     (case rev (split_on slash p) of
        name # rest \<Rightarrow> if rest = rev ([] # front) \<and> name \<noteq> [] then Some name else None
      | [] \<Rightarrow> None)"

definition network_re :: "string \<Rightarrow> string option" where
  "network_re p = one_name_re [''networks''] p"

definition workspace_re :: "string \<Rightarrow> string option" where
  "workspace_re p = one_name_re [''vaultrun'', ''workspaces''] p"

definition container_op :: "http_method \<Rightarrow> string \<Rightarrow> bool" where
  "container_op m oper \<longleftrightarrow>
     (m = GET \<and> oper \<in> {''json'', ''logs'', ''stats'', ''archive''}) \<or>
     (m = HEAD \<and> oper = ''archive'') \<or> (m = PUT \<and> oper = ''archive'') \<or>
     (m = POST \<and> oper \<in> {''start'', ''stop'', ''kill'', ''wait'', ''pause'', ''unpause'', ''exec''}) \<or>
     (m = DELETE \<and> oper = [])"

section \<open>Handlers\<close>

definition create_container :: "guard_config \<Rightarrow> answers \<Rightarrow> request \<Rightarrow> outcome" where
  "create_container g an rq =
     (case rq_create rq of
        None \<Rightarrow> (Inl (Status 400), [])
      | Some b \<Rightarrow>
          (case check_create (gc_policy g) (an_lstat an) (cb_managed b) (cb_host b) (cb_endpoints b) of
             Inl _ \<Rightarrow> deny
           | Inr _ \<Rightarrow>
               (case an_create an of Some e \<Rightarrow> Inl (Daemon e) | None \<Rightarrow> Inr 201, [CreateContainer b (rq_name rq)])))"

text \<open>Ids older than 48 hours are dropped when a new one is recorded.\<close>

definition remember_exec :: "time \<Rightarrow> string \<Rightarrow> execs \<Rightarrow> execs" where
  "remember_exec now i ex =
     (\<lambda>k. case ex k of Some t \<Rightarrow> if 48 * 3600000000000 < now - t then None else Some t | None \<Rightarrow> None)(i \<mapsto> now)"

definition create_exec ::
  "answers \<Rightarrow> request \<Rightarrow> string \<Rightarrow> bool \<Rightarrow> execs \<Rightarrow> outcome \<times> execs" where
  "create_exec an rq i netpolicy ex =
     (case rq_exec rq of
        None \<Rightarrow> ((Inl (Status 400), []), ex)
      | Some xo \<Rightarrow>
          (case check_exec xo netpolicy of
             Inl _ \<Rightarrow> (deny, ex)
           | Inr _ \<Rightarrow>
               (case an_exec_id an of
                  Inl e \<Rightarrow> ((Inl (Daemon e), [CreateExec i xo []]), ex)
                | Inr eid \<Rightarrow> ((Inr 201, [CreateExec i xo eid]), remember_exec (an_now an) eid ex))))"

definition create_network :: "answers \<Rightarrow> request \<Rightarrow> outcome" where
  "create_network an rq =
     (case rq_network rq of
        None \<Rightarrow> (Inl (Status 400), [])
      | Some r \<Rightarrow>
          (case check_network_create r of
             Inl _ \<Rightarrow> deny
           | Inr _ \<Rightarrow>
               (case an_create an of Some e \<Rightarrow> Inl (Daemon e) | None \<Rightarrow> Inr 201, [CreateNetwork (nr_name r)])))"

definition create_volume :: "answers \<Rightarrow> request \<Rightarrow> outcome" where
  "create_volume an rq =
     (case rq_volume rq of
        None \<Rightarrow> (Inl (Status 400), [])
      | Some b \<Rightarrow>
          if vb_name b \<noteq> tools_volume \<or> (vb_driver b \<noteq> [] \<and> vb_driver b \<noteq> ''local'') \<or>
             vb_driver_opts b \<noteq> [] \<or> vb_cluster b
          then deny
          else (case an_create an of Some e \<Rightarrow> Inl (Daemon e) | None \<Rightarrow> Inr 201, [CreateVolume]))"

definition check_start :: "guard_config \<Rightarrow> answers \<Rightarrow> string \<Rightarrow> guard_err + unit" where
  "check_start g an i =
     (case an_inspect an 1 i of
        Inl e \<Rightarrow> Inl (Daemon e)
      | Inr info \<Rightarrow>
          (case ci_host info of
             None \<Rightarrow> Inl Denied
           | Some hc \<Rightarrow>
               if hc_binds hc \<noteq> [] then Inl Denied
               else (case check_all (check_mount (gc_policy g) (an_lstat an)) (hc_mounts hc) of
                       Inl _ \<Rightarrow> Inl Denied
                     | Inr _ \<Rightarrow> Inr ())))"

text \<open>\<open>Dirs.handleCreate\<close>, \<open>handleRemove\<close>, \<open>handleQuota\<close>.\<close>

definition handle_create :: "string \<Rightarrow> answers \<Rightarrow> request \<Rightarrow> outcome" where
  "handle_create base an rq =
     (case rq_workspace rq of
        None \<Rightarrow> (Inl (Status 400), [])
      | Some b \<Rightarrow>
          if \<not> workspace_name_re (wb_name b) then deny
          else if wb_mode b \<noteq> 448 \<and> wb_mode b \<noteq> 511 then deny
          else let path = join2 base (wb_name b); mk = MkDir path (wb_mode b) in
            if an_mkdir_failed an then (Inl (Status 500), [mk])
            else case an_lstat an path of
              None \<Rightarrow> (Inl (Status 500), [mk])
            | Some k \<Rightarrow>
                if k \<noteq> Directory then (Inl Denied, [mk])
                else if an_chown_failed an then (Inl (Status 500), [mk, ChOwn path])
                else if an_chmod_failed an then (Inl (Status 500), [mk, ChOwn path, ChMod path (wb_mode b)])
                else (Inr 201, [mk, ChOwn path, ChMod path (wb_mode b)]))"

definition handle_remove :: "string \<Rightarrow> answers \<Rightarrow> string \<Rightarrow> outcome" where
  "handle_remove base an name =
     (if \<not> workspace_name_re name then deny
      else (if an_remove_failed an then Inl (Status 500) else Inr 204, [RemoveAll (join2 base name)]))"

definition tool_mount :: string where
  "tool_mount = ''/vaultrun-workspaces''"

definition handle_quota :: "answers \<Rightarrow> request \<Rightarrow> outcome" where
  "handle_quota an rq =
     (case rq_quota rq of
        None \<Rightarrow> (Inl (Status 400), [])
      | Some q \<Rightarrow>
          let run = (\<lambda>args. (if an_quota an then Inr 200 else Inl (Status 422), [QuotaTool args])) in
          if qb_op q = ''check'' then run [''check'', tool_mount]
          else if qb_op q = ''set'' then
            (if \<not> workspace_name_re (qb_name q) \<or> qb_project q = 0 \<or> qb_bytes q \<le> 0 then deny
             else run [''set'', tool_mount @ ''/'' @ qb_name q, nat_dec (qb_project q), int_dec (qb_bytes q)])
          else deny)"

section \<open>Routing\<close>

text \<open>Requests for one container: \<open>containerKind\<close>, then exec, start or forward.\<close>

definition route_container ::
  "guard_config \<Rightarrow> answers \<Rightarrow> request \<Rightarrow> string \<Rightarrow> string \<Rightarrow> execs \<Rightarrow> outcome \<times> execs" where
  "route_container g an rq i oper ex =
     (if \<not> container_op (rq_method rq) oper then (deny, ex)
      else case an_inspect an 0 i of
        Inl e \<Rightarrow> ((Inl (Daemon e), []), ex)
      | Inr info \<Rightarrow>
          let managed = (ci_managed info = Some (Some ''true''));
              np = po_netpolicy (gc_policy g);
              is_np = (np \<noteq> [] \<and> ci_name info = slash # np)
          in if oper = ''exec'' \<and> (managed \<or> is_np) then create_exec an rq i is_np ex
             else if \<not> managed then (deny, ex)
             else if oper = ''start'' then
               (case check_start g an i of
                  Inl e \<Rightarrow> ((Inl e, []), ex)
                | Inr _ \<Rightarrow> ((Inr 200, [Forward (rq_method rq) (rq_path rq)]), ex))
             else ((Inr 200, [Forward (rq_method rq) (rq_path rq)]), ex))"

definition route_rest :: "guard_config \<Rightarrow> answers \<Rightarrow> request \<Rightarrow> string \<Rightarrow> execs \<Rightarrow> outcome \<times> execs" where
  "route_rest g an rq path ex =
     (let m = rq_method rq; fwd = (Inr 200, [Forward m (rq_path rq)]) in
      case container_re path of
        Some (i, oper) \<Rightarrow> if i \<noteq> ''create'' then route_container g an rq i oper ex else (deny, ex)
      | None \<Rightarrow>
          (case exec_re path of
             Some (i, oper) \<Rightarrow>
               if ((oper = ''json'') \<noteq> (m = GET)) \<or> ex i = None then (deny, ex) else (fwd, ex)
           | None \<Rightarrow>
               (case network_re path of
                  Some name \<Rightarrow>
                    if m = GET \<or> m = DELETE then
                      (case an_network an name of
                         Inl e \<Rightarrow> ((Inl (Daemon e), []), ex)
                       | Inr managed \<Rightarrow> if managed \<noteq> Some ''true'' then (deny, ex) else (fwd, ex))
                    else (deny, ex)
                | None \<Rightarrow> (deny, ex))))"

definition probe_path :: string where
  "probe_path = ''/vaultrun/guard''"

definition route :: "guard_config \<Rightarrow> answers \<Rightarrow> request \<Rightarrow> string \<Rightarrow> execs \<Rightarrow> outcome \<times> execs" where
  "route g an rq path ex =
     (let m = rq_method rq; fwd = (Inr 200, [Forward m (rq_path rq)]) in
      if path = probe_path \<and> m = GET then ((Inr 200, []), ex)
      else if (path = ''/_ping'' \<and> (m = GET \<or> m = HEAD)) \<or>
              ((path = ''/version'' \<or> path = ''/info'' \<or> path = ''/images/json'') \<and> m = GET) \<or>
              (image_re path \<and> m = GET)
      then (fwd, ex)
      else if path = ''/images/create'' \<and> m = POST then
        (if rq_from_image rq = [] \<or> rq_from_src rq \<noteq> [] then (deny, ex) else (fwd, ex))
      else if path = ''/containers/create'' \<and> m = POST then (create_container g an rq, ex)
      else if path = ''/networks/create'' \<and> m = POST then (create_network an rq, ex)
      else if path = ''/volumes/create'' \<and> m = POST then (create_volume an rq, ex)
      else if path = ''/vaultrun/workspaces'' \<and> m = POST \<and> gc_dirs g \<noteq> None
      then (handle_create (the (gc_dirs g)) an rq, ex)
      else if workspace_re path \<noteq> None \<and> m = DELETE \<and> gc_dirs g \<noteq> None
      then (handle_remove (the (gc_dirs g)) an (the (workspace_re path)), ex)
      else if path = ''/vaultrun/xfs-quota'' \<and> m = POST \<and> gc_dirs g \<noteq> None then (handle_quota an rq, ex)
      else route_rest g an rq path ex)"

text \<open>\<open>ServeHTTP\<close>: the status answered, what was set in motion, the exec table afterwards.\<close>

definition serve :: "guard_config \<Rightarrow> answers \<Rightarrow> request \<Rightarrow> execs \<Rightarrow> (nat \<times> action list) \<times> execs" where
  "serve g an rq ex =
     (if contains (rq_path rq) ''..'' \<or> contains (rq_path rq) ''//'' then ((403, []), ex)
      else case route g an rq (strip_version (rq_path rq)) ex of
        ((Inl e, acts), ex') \<Rightarrow> ((err_status e, acts), ex')
      | ((Inr n, acts), ex') \<Rightarrow> ((n, acts), ex'))"

end
