(* ===== verification/IpAddr.thy ===== *)
theory IpAddr
  imports Prelude
begin

text \<open>
  The parts of Go's \<open>net\<close> package that the address filters rely on: \<open>ParseIP\<close>, \<open>ParseCIDR\<close>,
  \<open>IP.String\<close>, \<open>IPNet.Contains\<close>, \<open>IPNet.String\<close> and the address classes.  An address is kept in the
  form \<open>To4\<close> gives it (an IPv4-mapped IPv6 address is an IPv4 address, as every method used by the
  program treats it); the numbers are the 32 and 128 bit values.
\<close>

datatype ip = V4 nat | V6 nat

datatype ipnet = Net4 nat nat | Net6 nat nat

section \<open>Parsing\<close>

definition is_hex_any :: "char \<Rightarrow> bool" where
  "is_hex_any c \<longleftrightarrow> is_hex_lower c \<or> (65 \<le> (of_char c :: nat) \<and> (of_char c :: nat) \<le> 70)"

definition hex_digit :: "char \<Rightarrow> nat" where
  "hex_digit c = (let n = of_char c in if n \<le> 57 then n - 48 else if n \<le> 70 then n - 55 else n - 87)"

definition hex_val :: "string \<Rightarrow> nat" where
  "hex_val s = foldl (\<lambda>a c. 16 * a + hex_digit c) 0 s"

definition octet :: "string \<Rightarrow> nat option" where
  "octet s =
     (if s = [] \<or> \<not> list_all is_digit s then None
      else if 1 < length s \<and> hd s = CHR ''0'' then None
      else if 255 < dec_val s then None
      else Some (dec_val s))"

definition quad :: "nat \<Rightarrow> nat \<Rightarrow> nat \<Rightarrow> nat \<Rightarrow> nat" where
  "quad a b c d = ((a * 256 + b) * 256 + c) * 256 + d"

definition parse_v4 :: "string \<Rightarrow> nat option" where
  "parse_v4 s =
     (case split_on CHR ''.'' s of
        [a, b, c, d] \<Rightarrow>
          (case (octet a, octet b, octet c, octet d) of
             (Some a, Some b, Some c, Some d) \<Rightarrow> Some (quad a b c d)
           | _ \<Rightarrow> None)
      | _ \<Rightarrow> None)"

text \<open>
  The group loop of \<open>netip.parseIPv6\<close>: at most \<open>r\<close> groups to come, the position of the ellipsis, the
  groups read, the rest of the text.
\<close>

fun v6_loop :: "nat \<Rightarrow> nat option \<Rightarrow> nat list \<Rightarrow> string \<Rightarrow> (nat option \<times> nat list \<times> string) option" where
  "v6_loop 0 ell gs s = Some (ell, gs, s)"
| "v6_loop (Suc r) ell gs s =
     (let h = takeWhile is_hex_any s; rest = dropWhile is_hex_any s; gs' = gs @ [hex_val h] in
      if h = [] \<or> 4 < length h then None
      else case rest of
        [] \<Rightarrow> Some (ell, gs', [])
      | c # s2 \<Rightarrow>
          if c = CHR ''.'' then
            (if (ell = None \<and> length gs \<noteq> 6) \<or> r = 0 then None
             else case parse_v4 s of
               None \<Rightarrow> None
             | Some v \<Rightarrow> Some (ell, gs @ [v div 65536, v mod 65536], []))
          else if c \<noteq> CHR '':'' then None
          else case s2 of
            [] \<Rightarrow> None
          | d # s3 \<Rightarrow>
              if d = CHR '':'' then
                (if ell \<noteq> None then None
                 else if s3 = [] then Some (Some (length gs'), gs', [])
                 else v6_loop r (Some (length gs')) gs' s3)
              else v6_loop r ell gs' s2)"

definition v6_value :: "nat list \<Rightarrow> nat" where
  "v6_value gs = foldl (\<lambda>a g. 65536 * a + g) 0 gs"

definition parse_v6 :: "string \<Rightarrow> nat option" where
  "parse_v6 s =
     (if s = ''::'' then Some 0
      else case (if has_prefix s ''::'' then v6_loop 8 (Some 0) [] (drop 2 s) else v6_loop 8 None [] s) of
        None \<Rightarrow> None
      | Some (ell, gs, rest) \<Rightarrow>
          if rest \<noteq> [] then None
          else case ell of
            None \<Rightarrow> if length gs < 8 then None else Some (v6_value gs)
          | Some e \<Rightarrow>
              if length gs < 8
              then Some (v6_value (take e gs @ replicate (8 - length gs) 0 @ drop e gs))
              else None)"

text \<open>\<open>netip.ParseAddr\<close>; a zone is an error for every caller here.\<close>

definition parse_addr :: "string \<Rightarrow> (bool \<times> nat) option" where
  "parse_addr s =
     (if CHR ''%'' \<in> set s then None
      else case dropWhile (\<lambda>c. c \<noteq> CHR ''.'' \<and> c \<noteq> CHR '':'') s of
        [] \<Rightarrow> None
      | c # _ \<Rightarrow>
          if c = CHR ''.'' then map_option (Pair True) (parse_v4 s)
          else map_option (Pair False) (parse_v6 s))"

definition unmap :: "nat \<Rightarrow> ip" where
  "unmap a = (if a div 2 ^ 32 = 65535 then V4 (a mod 2 ^ 32) else V6 a)"

definition parse_ip :: "string \<Rightarrow> ip option" where
  "parse_ip s = map_option (\<lambda>(is4, a). if is4 then V4 a else unmap a) (parse_addr s)"

definition mask_addr :: "nat \<Rightarrow> nat \<Rightarrow> nat" where
  "mask_addr k a = a div 2 ^ k * 2 ^ k"

definition parse_cidr :: "string \<Rightarrow> ipnet option" where
  "parse_cidr s =
     (case dropWhile (\<lambda>c. c \<noteq> CHR ''/'') s of
        [] \<Rightarrow> None
      | _ # m \<Rightarrow>
          (case parse_addr (takeWhile (\<lambda>c. c \<noteq> CHR ''/'') s) of
             None \<Rightarrow> None
           | Some (is4, a) \<Rightarrow>
               if m = [] \<or> \<not> list_all is_digit m \<or> (if is4 then 32 else 128) < dec_val m then None
               else let n = dec_val m in
                 if is4 then Some (Net4 (mask_addr (32 - n) a) n)
                 else let b = mask_addr (128 - n) a in
                   (case unmap b of
                      V4 b4 \<Rightarrow> Some (Net4 b4 (n - 96))
                    | V6 b6 \<Rightarrow> Some (Net6 b6 n))))"

section \<open>Containment and classes\<close>

fun net_contains :: "ipnet \<Rightarrow> ip \<Rightarrow> bool" where
  "net_contains (Net4 b l) (V4 a) \<longleftrightarrow> b div 2 ^ (32 - l) = a div 2 ^ (32 - l)"
| "net_contains (Net6 b l) (V6 a) \<longleftrightarrow> b div 2 ^ (128 - l) = a div 2 ^ (128 - l)"
| "net_contains _ _ \<longleftrightarrow> False"

fun net_base :: "ipnet \<Rightarrow> ip" where
  "net_base (Net4 b l) = V4 b"
| "net_base (Net6 b l) = V6 b"

fun is_v4 :: "ip \<Rightarrow> bool" where
  "is_v4 (V4 _) = True"
| "is_v4 (V6 _) = False"

fun is_loopback :: "ip \<Rightarrow> bool" where
  "is_loopback (V4 a) \<longleftrightarrow> a div 2 ^ 24 = 127"
| "is_loopback (V6 a) \<longleftrightarrow> a = 1"

fun is_link_local_unicast :: "ip \<Rightarrow> bool" where
  "is_link_local_unicast (V4 a) \<longleftrightarrow> a div 2 ^ 16 = 169 * 256 + 254"
| "is_link_local_unicast (V6 a) \<longleftrightarrow> a div 2 ^ 118 = 254 * 4 + 2"

fun is_link_local_multicast :: "ip \<Rightarrow> bool" where
  "is_link_local_multicast (V4 a) \<longleftrightarrow> a div 2 ^ 8 = 224 * 65536"
| "is_link_local_multicast (V6 a) \<longleftrightarrow> a div 2 ^ 120 = 255 \<and> a div 2 ^ 112 mod 16 = 2"

fun is_interface_local_multicast :: "ip \<Rightarrow> bool" where
  "is_interface_local_multicast (V4 a) \<longleftrightarrow> False"
| "is_interface_local_multicast (V6 a) \<longleftrightarrow> a div 2 ^ 120 = 255 \<and> a div 2 ^ 112 mod 16 = 1"

fun is_private :: "ip \<Rightarrow> bool" where
  "is_private (V4 a) \<longleftrightarrow> a div 2 ^ 24 = 10 \<or> a div 2 ^ 20 = 172 * 16 + 1 \<or> a div 2 ^ 16 = 192 * 256 + 168"
| "is_private (V6 a) \<longleftrightarrow> a div 2 ^ 121 = 126"

fun is_unspecified :: "ip \<Rightarrow> bool" where
  "is_unspecified (V4 a) \<longleftrightarrow> a = 0"
| "is_unspecified (V6 a) \<longleftrightarrow> a = 0"

section \<open>Printing\<close>

definition quad_string :: "nat \<Rightarrow> string" where
  "quad_string a =
     join_with ''.'' (map nat_dec [a div 2 ^ 24, a div 2 ^ 16 mod 256, a div 2 ^ 8 mod 256, a mod 256])"

fun nat_hex :: "nat \<Rightarrow> string" where
  "nat_hex n = (let d = char_of (if n mod 16 < 10 then 48 + n mod 16 else 87 + n mod 16)
                in if n < 16 then [d] else nat_hex (n div 16) @ [d])"

declare nat_hex.simps [simp del]

text \<open>Start and length of the first longest run of at least two zero groups.\<close>

fun zero_run :: "nat \<Rightarrow> nat list \<Rightarrow> nat \<times> nat \<Rightarrow> nat \<times> nat" where
  "zero_run i [] best = best"
| "zero_run i (g # gs) best =
     (let l = length (takeWhile (\<lambda>x. x = 0) (g # gs))
      in zero_run (Suc i) gs (if 2 \<le> l \<and> snd best < l then (i, l) else best))"

definition v6_groups :: "nat \<Rightarrow> nat list" where
  "v6_groups a = map (\<lambda>i. a div 2 ^ (112 - 16 * i) mod 65536) [0..<8]"

definition v6_string :: "nat \<Rightarrow> string" where
  "v6_string a =
     (let gs = v6_groups a; (i, l) = zero_run 0 gs (8, 0);
          show_gs = (\<lambda>xs. join_with '':'' (map nat_hex xs))
      in if l = 0 then show_gs gs
         else show_gs (take i gs) @ ''::'' @ show_gs (drop (i + l) gs))"

fun ip_string :: "ip \<Rightarrow> string" where
  "ip_string (V4 a) = quad_string a"
| "ip_string (V6 a) = v6_string a"

fun net_string :: "ipnet \<Rightarrow> string" where
  "net_string (Net4 b l) = quad_string b @ ''/'' @ nat_dec l"
| "net_string (Net6 b l) = v6_string b @ ''/'' @ nat_dec l"

fun ip_ok :: "ip \<Rightarrow> bool" where
  "ip_ok (V4 a) \<longleftrightarrow> a < 2 ^ 32"
| "ip_ok (V6 a) \<longleftrightarrow> a < 2 ^ 128 \<and> a div 2 ^ 32 \<noteq> 65535"

fun net_ok :: "ipnet \<Rightarrow> bool" where
  "net_ok (Net4 b l) \<longleftrightarrow> l \<le> 32 \<and> b < 2 ^ 32 \<and> mask_addr (32 - l) b = b"
| "net_ok (Net6 b l) \<longleftrightarrow> l \<le> 128 \<and> mask_addr (128 - l) b = b"

section \<open>Blocks of addresses are nested or disjoint\<close>

lemma div_pow_le:
  fixes a b :: nat
  assumes "a div 2 ^ i = b div 2 ^ i" "i \<le> j"
  shows "a div 2 ^ j = b div 2 ^ j"
proof -
  have "x div 2 ^ j = x div 2 ^ i div 2 ^ (j - i)" for x :: nat
    using assms(2) by (simp add: div_mult2_eq [symmetric] power_add [symmetric])
  then show ?thesis using assms(1) by metis
qed

lemma nets_nested:
  assumes "net_contains m x" "net_contains n x"
  shows "net_contains m (net_base n) \<or> net_contains n (net_base m)"
proof (cases x)
  case (V4 a)
  then obtain b k c l where m: "m = Net4 b k" and n: "n = Net4 c l" using assms by (cases m; cases n) auto
  have "b div 2 ^ (32 - k) = a div 2 ^ (32 - k)" "c div 2 ^ (32 - l) = a div 2 ^ (32 - l)"
    using assms m n V4 by simp_all
  then show ?thesis using m n
    by (cases "32 - k \<le> 32 - l") (auto dest: div_pow_le [of _ _ _ "32 - l"] div_pow_le [of _ _ _ "32 - k"])
next
  case (V6 a)
  then obtain b k c l where m: "m = Net6 b k" and n: "n = Net6 c l" using assms by (cases m; cases n) auto
  have "b div 2 ^ (128 - k) = a div 2 ^ (128 - k)" "c div 2 ^ (128 - l) = a div 2 ^ (128 - l)"
    using assms m n V6 by simp_all
  then show ?thesis using m n
    by (cases "128 - k \<le> 128 - l") (auto dest: div_pow_le [of _ _ _ "128 - l"] div_pow_le [of _ _ _ "128 - k"])
qed

end
