(* ===== verification/AllowedHosts.thy ===== *)
theory AllowedHosts
  imports IpAddr
begin

text \<open>
  Where a sandbox, a browser and the API itself may connect to: \<open>internal/docker/allowedhosts.go\<close>
  (\<open>ValidateAllowedHosts\<close>), \<open>resolveToIPs\<close> and \<open>resolveExtraHosts\<close> of
  \<open>internal/docker/container.go\<close>, the network policy of \<open>internal/browser/validate.go\<close> and the
  guards of \<open>internal/httputil/safe_client.go\<close>.  DNS is a parameter of the definitions; a parsed
  URL is given by its scheme and host name.
\<close>

section \<open>Letter case\<close>

text \<open>
  \<open>strings.ToLower\<close>.  The two non-ASCII runes with an ASCII lower case are mapped; every other
  non-ASCII rune stays non-ASCII, which is all that comparisons with ASCII text can see.
\<close>

definition lower_char :: "char \<Rightarrow> char" where
  "lower_char c = (if is_upper c then char_of ((of_char c :: nat) + 32) else c)"

fun to_lower :: "string \<Rightarrow> string" where
  "to_lower [] = []"
| "to_lower (a # s) =
     (case s of
        [] \<Rightarrow> [lower_char a]
      | b # s' \<Rightarrow>
          if [a, b] = bytes [196, 176] then CHR ''i'' # to_lower s'
          else case s' of
            [] \<Rightarrow> lower_char a # to_lower s
          | c # s'' \<Rightarrow>
              if [a, b, c] = bytes [226, 132, 170] then CHR ''k'' # to_lower s''
              else lower_char a # to_lower s)"

text \<open>\<open>strings.EqualFold\<close> with an ASCII text: the long s folds too.\<close>

fun fold_long_s :: "string \<Rightarrow> string" where
  "fold_long_s [] = []"
| "fold_long_s (a # s) =
     (case s of
        [] \<Rightarrow> [a]
      | b # s' \<Rightarrow> if [a, b] = bytes [197, 191] then CHR ''s'' # fold_long_s s' else a # fold_long_s s)"

definition equal_fold_localhost :: "string \<Rightarrow> bool" where
  "equal_fold_localhost s \<longleftrightarrow> map lower_char (fold_long_s s) = ''localhost''"

section \<open>Address filters\<close>

definition nets :: "string list \<Rightarrow> ipnet list" where
  "nets cs = map (\<lambda>c. the (parse_cidr c)) cs"

definition blocked_cidrs :: "string list" where
  "blocked_cidrs =
     [''0.0.0.0/8'', ''10.0.0.0/8'', ''100.64.0.0/10'', ''127.0.0.0/8'', ''169.254.0.0/16'',
      ''172.16.0.0/12'', ''192.168.0.0/16'', ''::1/128'', ''fc00::/7'', ''fe80::/10'']"

definition blocked_nets :: "ipnet list" where
  "blocked_nets = nets blocked_cidrs"

definition is_private_ip :: "ip \<Rightarrow> bool" where
  "is_private_ip ip \<longleftrightarrow>
     is_loopback ip \<or> is_link_local_unicast ip \<or> is_link_local_multicast ip \<or>
     is_private ip \<or> is_unspecified ip"

definition overlaps_blocked :: "ipnet \<Rightarrow> bool" where
  "overlaps_blocked n \<longleftrightarrow>
     list_ex (\<lambda>b. net_contains b (net_base n) \<or> net_contains n (net_base b)) blocked_nets"

definition blocked_ip :: "ip \<Rightarrow> bool" where
  "blocked_ip ip \<longleftrightarrow> is_private_ip ip \<or> list_ex (\<lambda>b. net_contains b ip) blocked_nets"

definition browser_cidrs :: "string list" where
  "browser_cidrs =
     [''10.0.0.0/8'', ''172.16.0.0/12'', ''192.168.0.0/16'', ''127.0.0.0/8'', ''169.254.0.0/16'',
      ''100.64.0.0/10'', ''0.0.0.0/8'', ''192.0.0.0/24'', ''198.18.0.0/15'', ''240.0.0.0/4'',
      ''::1/128'', ''fc00::/7'', ''fe80::/10'', ''::/128'']"

definition browser_is_private_ip :: "ip \<Rightarrow> bool" where
  "browser_is_private_ip ip \<longleftrightarrow>
     is_loopback ip \<or> is_link_local_unicast ip \<or> is_link_local_multicast ip \<or> is_unspecified ip \<or>
     is_interface_local_multicast ip \<or> list_ex (\<lambda>n. net_contains n ip) (nets browser_cidrs)"

definition metadata_cidrs :: "string list" where
  "metadata_cidrs = [''169.254.169.254/32'', ''169.254.170.2/32'', ''fd00:ec2::254/128'']"

definition is_metadata_ip :: "ip \<Rightarrow> bool" where
  "is_metadata_ip ip \<longleftrightarrow> list_ex (\<lambda>n. net_contains n ip) (nets metadata_cidrs)"

definition http_cidrs :: "string list" where
  "http_cidrs =
     [''127.0.0.0/8'', ''::1/128'', ''169.254.0.0/16'', ''fe80::/10'', ''10.0.0.0/8'', ''172.16.0.0/12'',
      ''192.168.0.0/16'', ''fc00::/7'', ''0.0.0.0/8'', ''100.64.0.0/10'', ''64:ff9b::/96'', ''::/128'']"

definition http_is_private_ip :: "ip \<Rightarrow> bool" where
  "http_is_private_ip ip \<longleftrightarrow> list_ex (\<lambda>n. net_contains n ip) (nets http_cidrs)"

section \<open>Allowed hosts of a sandbox\<close>

datatype host_err =
    TooMany
  | BadWhitespace string
  | PrivateAddress string
  | BadCidr string
  | InternalCidr string
  | BadHostname string
  | InternalName string
  | NotPublicCidr string
  | PrivateLiteral string
  | Unresolvable string
  | ResolvesPrivate string string

definition max_allowed_hosts :: nat where
  "max_allowed_hosts = 64"

definition hostname_label :: "string \<Rightarrow> bool" where
  "hostname_label l \<longleftrightarrow>
     l \<noteq> [] \<and> length l \<le> 63 \<and> is_alnum (hd l) \<and> is_alnum (last l) \<and>
     list_all (\<lambda>c. is_alnum c \<or> c = CHR ''-'') l"

definition hostname_re :: "string \<Rightarrow> bool" where
  "hostname_re s \<longleftrightarrow> list_all hostname_label (split_on CHR ''.'' s)"

definition validate_allowed_host :: "string \<Rightarrow> host_err + unit" where
  "validate_allowed_host h =
     (if h = [] \<or> h \<noteq> trim_space h then Inl (BadWhitespace h)
      else case parse_ip h of
        Some ip \<Rightarrow> if blocked_ip ip then Inl (PrivateAddress h) else Inr ()
      | None \<Rightarrow>
          if contains h ''/'' then
            (case parse_cidr h of
               None \<Rightarrow> Inl (BadCidr h)
             | Some n \<Rightarrow> if overlaps_blocked n then Inl (InternalCidr h) else Inr ())
          else
            let lower = to_lower (trim_suffix h ''.'') in
            if 253 < length lower \<or> \<not> hostname_re lower then Inl (BadHostname h)
            else if lower = ''localhost'' \<or> has_suffix lower ''.localhost'' \<or>
                    has_suffix lower ''.internal'' \<or> has_suffix lower ''.local''
            then Inl (InternalName h)
            else Inr ())"

definition validate_allowed_hosts :: "string list \<Rightarrow> host_err + unit" where
  "validate_allowed_hosts hosts =
     (if max_allowed_hosts < length hosts then Inl TooMany else check_all validate_allowed_host hosts)"

datatype lookup_result = Addrs "string list" | LookupNotFound | LookupFailed

definition add_seen :: "string \<Rightarrow> string list \<Rightarrow> string list" where
  "add_seen s ips = (if s \<in> set ips then ips else ips @ [s])"

fun resolve_addrs :: "string \<Rightarrow> string list \<Rightarrow> string list \<Rightarrow> host_err + string list" where
  "resolve_addrs h [] ips = Inr ips"
| "resolve_addrs h (a # as) ips =
     (case parse_ip a of
        Some ip \<Rightarrow> if is_private_ip ip then Inl (ResolvesPrivate h a) else resolve_addrs h as (add_seen a ips)
      | None \<Rightarrow> resolve_addrs h as (add_seen a ips))"

definition resolve_host ::
  "(string \<Rightarrow> lookup_result) \<Rightarrow> string \<Rightarrow> string list \<Rightarrow> host_err + string list" where
  "resolve_host lookup h ips =
     (if contains h ''/'' then
        (case parse_cidr h of
           None \<Rightarrow> Inl (NotPublicCidr h)
         | Some n \<Rightarrow> if overlaps_blocked n then Inl (NotPublicCidr h) else Inr (add_seen (net_string n) ips))
      else case parse_ip h of
        Some ip \<Rightarrow> if is_private_ip ip then Inl (PrivateLiteral h) else Inr (add_seen (ip_string ip) ips)
      | None \<Rightarrow>
          (case lookup h of
             LookupNotFound \<Rightarrow> Inl (Unresolvable h)
           | LookupFailed \<Rightarrow> Inr ips
           | Addrs as \<Rightarrow> resolve_addrs h as ips))"

fun resolve_loop ::
  "(string \<Rightarrow> lookup_result) \<Rightarrow> string list \<Rightarrow> string list \<Rightarrow> host_err + string list" where
  "resolve_loop lookup [] ips = Inr ips"
| "resolve_loop lookup (h # hs) ips = rbind (resolve_host lookup h ips) (resolve_loop lookup hs)"

definition resolve_to_ips :: "(string \<Rightarrow> lookup_result) \<Rightarrow> string list \<Rightarrow> host_err + string list" where
  "resolve_to_ips lookup hosts = resolve_loop lookup hosts []"

definition extra_host :: "(string \<Rightarrow> lookup_result) \<Rightarrow> string \<Rightarrow> string list" where
  "extra_host lookup h =
     (if contains h ''/'' then []
      else case parse_ip h of
        Some ip \<Rightarrow> if is_private_ip ip then [] else [h @ '':'' @ ip_string ip]
      | None \<Rightarrow>
          (case lookup h of
             Addrs as \<Rightarrow>
               map (\<lambda>a. h @ '':'' @ a)
                 (filter (\<lambda>a. case parse_ip a of Some ip \<Rightarrow> \<not> is_private_ip ip | None \<Rightarrow> True) as)
           | _ \<Rightarrow> []))"

definition resolve_extra_hosts :: "(string \<Rightarrow> lookup_result) \<Rightarrow> string list \<Rightarrow> string list" where
  "resolve_extra_hosts lookup hosts = concat (map (extra_host lookup) hosts)"

section \<open>Browser navigation\<close>

record network_policy =
  np_block_localhost :: bool
  np_block_metadata :: bool
  np_block_private :: bool
  np_allowed_hosts :: "string list"

datatype nav_err =
    MalformedUrl
  | BadScheme
  | NoHost
  | LocalhostBlocked
  | MetadataBlocked
  | HostNotAllowed
  | ResolveFailed
  | NoAddresses
  | PrivateBlocked

definition blocked_hostnames :: "string list" where
  "blocked_hostnames =
     [''metadata'', ''metadata.google.internal'', ''metadata.goog'', ''instance-data'',
      ''instance-data.ec2.internal'']"

definition check_ip :: "network_policy \<Rightarrow> ip \<Rightarrow> nav_err + unit" where
  "check_ip p ip =
     (if np_block_metadata p \<and> is_metadata_ip ip then Inl MetadataBlocked
      else if np_block_localhost p \<and> is_loopback ip then Inl LocalhostBlocked
      else if np_block_private p \<and> browser_is_private_ip ip then Inl PrivateBlocked
      else Inr ())"

definition host_allowed :: "network_policy \<Rightarrow> string \<Rightarrow> bool" where
  "host_allowed p hostname \<longleftrightarrow>
     (let h = to_lower hostname in
      list_ex (\<lambda>allowed. let a = to_lower allowed in
                 if has_prefix a ''.'' then h = drop 1 a \<or> has_suffix h a else h = a)
        (np_allowed_hosts p))"

text \<open>\<open>lookupIP\<close> yields addresses or fails.\<close>

definition validate_url ::
  "(string \<Rightarrow> ip list option) \<Rightarrow> network_policy \<Rightarrow> (string \<times> string) option \<Rightarrow> nav_err + unit" where
  "validate_url lookup p parsed =
     (case parsed of
        None \<Rightarrow> Inl MalformedUrl
      | Some (scheme, hostname) \<Rightarrow>
          if scheme \<noteq> ''http'' \<and> scheme \<noteq> ''https'' then Inl BadScheme
          else if hostname = [] then Inl NoHost
          else if np_block_localhost p \<and> equal_fold_localhost hostname then Inl LocalhostBlocked
          else if np_block_metadata p \<and> to_lower hostname \<in> set blocked_hostnames then Inl MetadataBlocked
          else if np_allowed_hosts p \<noteq> [] \<and> \<not> host_allowed p hostname then Inl HostNotAllowed
          else case parse_ip hostname of
            Some literal \<Rightarrow> check_ip p literal
          | None \<Rightarrow>
              (case lookup hostname of
                 None \<Rightarrow> Inl ResolveFailed
               | Some ips \<Rightarrow> if ips = [] then Inl NoAddresses else check_all (check_ip p) ips))"

section \<open>Outbound requests of the API\<close>

datatype public_err =
    UrlEmpty
  | UrlInvalid
  | UrlScheme
  | UrlNoHost
  | UrlUnresolvable
  | UrlPrivate string

definition validate_public_url ::
  "(string \<Rightarrow> string list option) \<Rightarrow> string \<Rightarrow> (string \<times> string) option \<Rightarrow> bool \<Rightarrow> public_err + unit" where
  "validate_public_url lookup raw parsed require_https =
     (if raw = [] then Inl UrlEmpty
      else case parsed of
        None \<Rightarrow> Inl UrlInvalid
      | Some (scheme, hostname) \<Rightarrow>
          if (if require_https then scheme \<noteq> ''https'' else scheme \<noteq> ''http'' \<and> scheme \<noteq> ''https'')
          then Inl UrlScheme
          else if hostname = [] then Inl UrlNoHost
          else case lookup hostname of
            None \<Rightarrow> Inl UrlUnresolvable
          | Some addrs \<Rightarrow>
              check_all (\<lambda>a. case parse_ip a of
                               None \<Rightarrow> Inr ()
                             | Some ip \<Rightarrow> if http_is_private_ip ip then Inl (UrlPrivate a) else Inr ()) addrs)"

text \<open>The \<open>Control\<close> hook of the dialer: the host part of the address about to be dialled.\<close>

definition dial_control :: "string option \<Rightarrow> bool" where
  "dial_control host =
     (case host of
        None \<Rightarrow> False
      | Some h \<Rightarrow> (case parse_ip h of None \<Rightarrow> False | Some ip \<Rightarrow> \<not> http_is_private_ip ip))"

end
