(* ===== verification/AllowedHostsProps.thy ===== *)
theory AllowedHostsProps
  imports AllowedHosts
begin

text \<open>
  What the address filters promise.  \<open>address_filter\<close> is the contract every filter of the program
  keeps, \<open>wide_filter\<close> the stronger one that also covers shared (CGNAT) and \<open>0.0.0.0/8\<close> addresses;
  the filters of the code are interpretations of them.
\<close>

section \<open>Evaluation of the literal networks\<close>

lemmas v6_loop_numeral = v6_loop.simps(2) [of "pred_numeral k" for k, folded numeral_eq_Suc]

lemma replicate_numeral: "replicate (numeral k) x = x # replicate (pred_numeral k) x"
  by (simp add: numeral_eq_Suc)

lemmas ip_eval = nets_def parse_cidr_def parse_addr_def parse_v4_def octet_def quad_def parse_v6_def
  v6_value_def hex_val_def hex_digit_def is_hex_any_def is_digit_def is_hex_lower_def dec_val_def
  digit_val_def mask_addr_def unmap_def has_prefix_def Let_def v6_loop_numeral replicate_numeral

lemma blocked_nets_eq:
  "blocked_nets =
     [Net4 0 8, Net4 (10 * 2 ^ 24) 8, Net4 (401 * 2 ^ 22) 10, Net4 (127 * 2 ^ 24) 8,
      Net4 (43518 * 2 ^ 16) 16, Net4 (2753 * 2 ^ 20) 12, Net4 (49320 * 2 ^ 16) 16,
      Net6 1 128, Net6 (126 * 2 ^ 121) 7, Net6 (1018 * 2 ^ 118) 10]"
  by (simp add: blocked_nets_def blocked_cidrs_def ip_eval)

lemma browser_nets_eq:
  "nets browser_cidrs =
     [Net4 (10 * 2 ^ 24) 8, Net4 (2753 * 2 ^ 20) 12, Net4 (49320 * 2 ^ 16) 16, Net4 (127 * 2 ^ 24) 8,
      Net4 (43518 * 2 ^ 16) 16, Net4 (401 * 2 ^ 22) 10, Net4 0 8, Net4 (192 * 2 ^ 24) 24,
      Net4 (50706 * 2 ^ 16) 15, Net4 (15 * 2 ^ 28) 4,
      Net6 1 128, Net6 (126 * 2 ^ 121) 7, Net6 (1018 * 2 ^ 118) 10, Net6 0 128]"
  by (simp add: browser_cidrs_def ip_eval)

lemma http_nets_eq:
  "nets http_cidrs =
     [Net4 (127 * 2 ^ 24) 8, Net6 1 128, Net4 (43518 * 2 ^ 16) 16, Net6 (1018 * 2 ^ 118) 10,
      Net4 (10 * 2 ^ 24) 8, Net4 (2753 * 2 ^ 20) 12, Net4 (49320 * 2 ^ 16) 16,
      Net6 (126 * 2 ^ 121) 7, Net4 0 8, Net4 (401 * 2 ^ 22) 10,
      Net6 524413980667603649783483181312245760 96, Net6 0 128]"
  by (simp add: http_cidrs_def ip_eval)

lemma metadata_nets_eq:
  "nets metadata_cidrs =
     [Net4 2852039166 32, Net4 2852039170 32, Net6 336294982257581694735330614659971547732 128]"
  by (simp add: metadata_cidrs_def ip_eval)

section \<open>The contracts\<close>

locale address_filter =
  fixes blocked :: "ip \<Rightarrow> bool"
  assumes blocks_loopback: "is_loopback ip \<Longrightarrow> blocked ip"
    and blocks_link_local: "is_link_local_unicast ip \<Longrightarrow> blocked ip"
    and blocks_private: "is_private ip \<Longrightarrow> blocked ip"
    and blocks_unspecified: "is_unspecified ip \<Longrightarrow> blocked ip"
begin

lemma blocks_metadata: "is_metadata_ip ip \<Longrightarrow> blocked ip"
proof -
  assume "is_metadata_ip ip"
  then have "is_link_local_unicast ip \<or> is_private ip"
    by (cases ip) (auto simp: is_metadata_ip_def metadata_nets_eq)
  then show ?thesis using blocks_link_local blocks_private by blast
qed

lemma passes_public:
  "\<not> blocked ip \<Longrightarrow> \<not> is_loopback ip \<and> \<not> is_link_local_unicast ip \<and> \<not> is_private ip \<and>
     \<not> is_unspecified ip \<and> \<not> is_metadata_ip ip"
  using blocks_loopback blocks_link_local blocks_private blocks_unspecified blocks_metadata by blast

end

locale wide_filter = address_filter +
  assumes blocks_shared: "a div 2 ^ 22 = 401 \<Longrightarrow> blocked (V4 a)"
    and blocks_this_network: "a div 2 ^ 24 = 0 \<Longrightarrow> blocked (V4 a)"
begin

text \<open>A passed IPv4 address is outside every range of \<open>blockedNets\<close>.\<close>

lemma passes_wide: "\<not> blocked (V4 a) \<Longrightarrow> \<not> list_ex (\<lambda>b. net_contains b (V4 a)) blocked_nets"
  using passes_public [of "V4 a"] blocks_shared [of a] blocks_this_network [of a]
  by (auto simp: blocked_nets_eq)

end

interpretation docker_filter: address_filter is_private_ip
  by unfold_locales (auto simp: is_private_ip_def)

interpretation docker_wide: wide_filter blocked_ip
  by unfold_locales (auto simp: blocked_ip_def is_private_ip_def blocked_nets_eq)

lemma browser_blocks_private: "is_private ip \<Longrightarrow> browser_is_private_ip ip"
  by (cases ip) (auto simp: browser_is_private_ip_def browser_nets_eq)

interpretation browser_wide: wide_filter browser_is_private_ip
  by unfold_locales (auto simp: browser_is_private_ip_def browser_nets_eq browser_blocks_private
      dest: browser_blocks_private)

lemma http_blocks:
  "is_private ip \<or> is_loopback ip \<or> is_link_local_unicast ip \<or> is_unspecified ip \<Longrightarrow> http_is_private_ip ip"
  by (cases ip) (auto simp: http_is_private_ip_def http_nets_eq)

interpretation http_wide: wide_filter http_is_private_ip
proof
  show "a div 2 ^ 22 = 401 \<Longrightarrow> http_is_private_ip (V4 a)" "a div 2 ^ 24 = 0 \<Longrightarrow> http_is_private_ip (V4 a)"
    for a by (auto simp: http_is_private_ip_def http_nets_eq)
qed (use http_blocks in auto)

section \<open>Properties\<close>

lemma overlaps_complete:
  assumes "\<not> overlaps_blocked n" "net_contains n x"
  shows "\<not> list_ex (\<lambda>b. net_contains b x) blocked_nets"
proof
  assume "list_ex (\<lambda>b. net_contains b x) blocked_nets"
  then obtain b where "b \<in> set blocked_nets" "net_contains b x" by (auto simp: list_ex_iff)
  with nets_nested [OF assms(2)] assms(1) show False
    by (fastforce simp: overlaps_blocked_def list_ex_iff)
qed

lemma parse_cidr_slash: "parse_cidr h = Some n \<Longrightarrow> contains h ''/''"
proof -
  assume "parse_cidr h = Some n"
  then obtain c m where cm: "dropWhile (\<lambda>c. c \<noteq> CHR ''/'') h = c # m"
    by (auto simp: parse_cidr_def split: list.splits)
  then have "c = CHR ''/''" using hd_dropWhile [of "\<lambda>c. c \<noteq> CHR ''/''" h] by auto
  then have "h = takeWhile (\<lambda>c. c \<noteq> CHR ''/'') h @ ''/'' @ m"
    using cm takeWhile_dropWhile_id [of "\<lambda>c. c \<noteq> CHR ''/''" h] by simp
  then show ?thesis unfolding contains_iff by blast
qed

text \<open>
  \<open>ValidateAllowedHosts\<close> keeps internal targets out: of at most 64 entries it accepts,
  no IP literal is a blocked address, and no address inside an accepted CIDR block lies in any blocked
  range (checking the two base addresses against each other is enough, blocks being nested or
  disjoint).
\<close>

theorem validated_hosts_public:
  assumes "validate_allowed_hosts hosts = Inr ()"
  shows "length hosts \<le> 64 \<and>
    (\<forall>h ip. h \<in> set hosts \<and> parse_ip h = Some ip \<longrightarrow> \<not> blocked_ip ip) \<and>
    (\<forall>h n x. h \<in> set hosts \<and> parse_ip h = None \<and> parse_cidr h = Some n \<and> net_contains n x \<longrightarrow>
       \<not> list_ex (\<lambda>b. net_contains b x) blocked_nets)"
proof -
  have ok: "validate_allowed_host h = Inr ()" if "h \<in> set hosts" for h
    using assms that by (auto simp: validate_allowed_hosts_def check_all_Inr split: if_splits)
  have "\<not> blocked_ip ip" if "h \<in> set hosts" "parse_ip h = Some ip" for h ip
    using ok [OF that(1)] that(2) by (auto simp: validate_allowed_host_def split: if_splits)
  moreover have "\<not> overlaps_blocked n" if "h \<in> set hosts" "parse_ip h = None" "parse_cidr h = Some n" for h n
    using ok [OF that(1)] that(2,3) parse_cidr_slash [OF that(3)]
    by (auto simp: validate_allowed_host_def split: if_splits)
  moreover have "length hosts \<le> 64"
    using assms by (auto simp: validate_allowed_hosts_def max_allowed_hosts_def split: if_splits)
  ultimately show ?thesis using overlaps_complete by blast
qed

lemma validated_hosts_public_witness:
  "\<not> list_ex (\<lambda>b. net_contains b (V4 (8 * 2 ^ 24 + 5))) blocked_nets"
proof -
  have c: "parse_ip ''8.0.0.0/8'' = None" "parse_cidr ''8.0.0.0/8'' = Some (Net4 (8 * 2 ^ 24) 8)"
    by (simp_all add: parse_ip_def ip_eval)
  have t: "trim_space ''8.0.0.0/8'' = ''8.0.0.0/8''" by code_simp
  have "\<not> overlaps_blocked (Net4 (8 * 2 ^ 24) 8)"
    by (simp add: overlaps_blocked_def blocked_nets_eq)
  then have "validate_allowed_hosts [''8.0.0.0/8''] = Inr ()"
    using c t parse_cidr_slash [OF c(2)]
    by (simp add: validate_allowed_hosts_def validate_allowed_host_def max_allowed_hosts_def)
  from validated_hosts_public [OF this] c have
    "\<forall>x. net_contains (Net4 (8 * 2 ^ 24) 8) x \<longrightarrow> \<not> list_ex (\<lambda>b. net_contains b x) blocked_nets"
    by auto
  then show ?thesis by simp
qed

text \<open>Where an entry of the resolved list comes from.\<close>

definition from_hosts :: "(string \<Rightarrow> lookup_result) \<Rightarrow> string list \<Rightarrow> string \<Rightarrow> bool" where
  "from_hosts lookup hosts s \<longleftrightarrow> (\<exists>h \<in> set hosts.
     (\<exists>n. parse_cidr h = Some n \<and> s = net_string n \<and>
        (\<forall>x. net_contains n x \<longrightarrow> \<not> list_ex (\<lambda>b. net_contains b x) blocked_nets)) \<or>
     (\<exists>ip. parse_ip h = Some ip \<and> s = ip_string ip \<and> \<not> is_private_ip ip) \<or>
     (\<exists>as. parse_ip h = None \<and> lookup h = Addrs as \<and> s \<in> set as \<and>
        (\<forall>ip. parse_ip s = Some ip \<longrightarrow> \<not> is_private_ip ip)))"

lemma add_seen_props: "set (add_seen s ips) = insert s (set ips)" "distinct ips \<Longrightarrow> distinct (add_seen s ips)"
  by (auto simp: add_seen_def)

lemma resolve_addrs_ok:
  "resolve_addrs h as ips = Inr out \<Longrightarrow>
   set out = set ips \<union> set as \<and> (distinct ips \<longrightarrow> distinct out) \<and>
   (\<forall>a ip. a \<in> set as \<and> parse_ip a = Some ip \<longrightarrow> \<not> is_private_ip ip)"
proof (induction h as ips rule: resolve_addrs.induct)
  case (2 h a as ips)
  from "2.prems" have rest: "resolve_addrs h as (add_seen a ips) = Inr out"
    and a: "\<forall>ip. parse_ip a = Some ip \<longrightarrow> \<not> is_private_ip ip"
    by (auto split: option.splits if_splits)
  then have "set out = set (add_seen a ips) \<union> set as \<and> (distinct (add_seen a ips) \<longrightarrow> distinct out) \<and>
      (\<forall>a ip. a \<in> set as \<and> parse_ip a = Some ip \<longrightarrow> \<not> is_private_ip ip)"
    using "2.IH" by (cases "parse_ip a") auto
  then show ?case using a add_seen_props [where s = a and ips = ips] by auto
qed simp

lemma resolve_host_ok:
  assumes "resolve_host lookup h ips = Inr out"
  shows "set ips \<subseteq> set out" "distinct ips \<longrightarrow> distinct out"
    "\<forall>s. s \<in> set out - set ips \<longrightarrow> from_hosts lookup [h] s"
proof -
  have "set ips \<subseteq> set out \<and> (distinct ips \<longrightarrow> distinct out) \<and>
      (\<forall>s. s \<in> set out - set ips \<longrightarrow> from_hosts lookup [h] s)"
  proof (cases "contains h ''/''")
    case True
    with assms obtain n where n: "parse_cidr h = Some n" "\<not> overlaps_blocked n" "out = add_seen (net_string n) ips"
      by (auto simp: resolve_host_def split: option.splits if_splits)
    then show ?thesis using overlaps_complete [OF n(2)] by (auto simp: add_seen_props from_hosts_def)
  next
    case slash: False
    show ?thesis
    proof (cases "parse_ip h")
      case (Some ip)
      with slash assms show ?thesis
        by (auto simp: resolve_host_def add_seen_props from_hosts_def split: if_splits)
    next
      case None
      show ?thesis
      proof (cases "lookup h")
        case (Addrs as)
        with None slash assms have "resolve_addrs h as ips = Inr out" by (simp add: resolve_host_def)
        from resolve_addrs_ok [OF this] None Addrs show ?thesis by (auto simp: from_hosts_def)
      qed (use None slash assms in \<open>auto simp: resolve_host_def\<close>)
    qed
  qed
  then show "set ips \<subseteq> set out" "distinct ips \<longrightarrow> distinct out"
    "\<forall>s. s \<in> set out - set ips \<longrightarrow> from_hosts lookup [h] s" by auto
qed

lemma from_hosts_mono: "from_hosts lookup hs s \<Longrightarrow> set hs \<subseteq> set hs' \<Longrightarrow> from_hosts lookup hs' s"
  unfolding from_hosts_def by blast

lemma resolve_loop_ok:
  "resolve_loop lookup hosts ips = Inr out \<Longrightarrow>
   set ips \<subseteq> set out \<and> (distinct ips \<longrightarrow> distinct out) \<and>
   (\<forall>s. s \<in> set out - set ips \<longrightarrow> from_hosts lookup hosts s)"
proof (induction hosts arbitrary: ips)
  case (Cons h hosts)
  then obtain mid where m: "resolve_host lookup h ips = Inr mid" "resolve_loop lookup hosts mid = Inr out"
    by (auto simp: rbind_eq_Inr)
  note 1 = resolve_host_ok [OF m(1)] and 2 = Cons.IH [OF m(2)]
  have "from_hosts lookup (h # hosts) s" if "s \<in> set out - set ips" for s
  proof (cases "s \<in> set mid")
    case True
    then have "from_hosts lookup [h] s" using 1(3) that by blast
    then show ?thesis by (rule from_hosts_mono) simp
  next
    case False
    then have "from_hosts lookup hosts s" using 2 that by blast
    then show ?thesis by (rule from_hosts_mono) auto
  qed
  with 1 2 show ?case by blast
qed simp

text \<open>
  Every address the egress rules of a sandbox will allow is accounted for: the resolved
  list has no duplicates, and each entry is the text of an accepted CIDR block free of blocked
  addresses, of a literal that is not private, or a DNS answer that is not private.
\<close>

theorem resolved_ips_accounted:
  assumes "resolve_to_ips lookup hosts = Inr ips"
  shows "distinct ips \<and> (\<forall>s. s \<in> set ips \<longrightarrow> from_hosts lookup hosts s)"
  using resolve_loop_ok [OF assms [unfolded resolve_to_ips_def]] by simp

lemma resolved_ips_accounted_witness:
  "from_hosts (\<lambda>_. Addrs [''1.2.3.4'']) [''example.org''] ''1.2.3.4''"
proof -
  have "parse_ip ''example.org'' = None" "parse_ip ''1.2.3.4'' = Some (V4 16909060)"
    by (simp_all add: parse_ip_def ip_eval)
  moreover have "\<not> contains ''example.org'' ''/''" by code_simp
  ultimately have "resolve_to_ips (\<lambda>_. Addrs [''1.2.3.4'']) [''example.org''] = Inr [''1.2.3.4'']"
    by (simp add: resolve_to_ips_def resolve_host_def add_seen_def is_private_ip_def)
  from resolved_ips_accounted [OF this] show ?thesis by simp
qed

text \<open>
  The check of DNS answers is narrower than the check of literals: a host name that
  resolves into the shared range 100.64.0.0/10 (or into 0.0.0.0/8) is accepted, although the same
  address is refused as a literal and inside every CIDR block.
\<close>

theorem shared_range_answer_accepted:
  assumes "parse_ip h = None" "\<not> contains h ''/''" "lookup h = Addrs [a]"
    "parse_ip a = Some (V4 x)" "x div 2 ^ 22 = 401"
  shows "resolve_to_ips lookup [h] = Inr [a] \<and> blocked_ip (V4 x) \<and>
    (\<exists>e. validate_allowed_host a = Inl e)"
proof -
  have "x div 2 ^ 24 = 100"
    using assms(5) div_mult2_eq [of x "2 ^ 22" 4] by simp
  moreover have "x div 2 ^ 20 \<noteq> 2753" "x div 2 ^ 16 \<noteq> 49320" "x div 2 ^ 16 \<noteq> 43518" "x div 2 ^ 8 \<noteq> 14680064"
    using assms(5) div_mult2_eq [of x "2 ^ 20" 4] div_mult2_eq [of x "2 ^ 16" 64]
      div_mult2_eq [of x "2 ^ 8" 16384] by auto
  ultimately have "\<not> is_private_ip (V4 x)" by (auto simp: is_private_ip_def)
  moreover have "blocked_ip (V4 x)" using assms(5) by (rule docker_wide.blocks_shared)
  ultimately show ?thesis
    using assms by (auto simp: resolve_to_ips_def resolve_host_def add_seen_def validate_allowed_host_def)
qed

lemma shared_range_answer_accepted_witness:
  "resolve_to_ips (\<lambda>_. Addrs [''100.100.100.200'']) [''example.org''] = Inr [''100.100.100.200'']"
proof -
  have "parse_ip ''example.org'' = None" "parse_ip ''100.100.100.200'' = Some (V4 1684301000)"
    by (simp_all add: parse_ip_def ip_eval)
  moreover have "\<not> contains ''example.org'' ''/''" by code_simp
  ultimately show ?thesis
    using shared_range_answer_accepted [of "''example.org''" "\<lambda>_. Addrs [''100.100.100.200'']"] by simp
qed

text \<open>
  Browser navigation: when \<open>ValidateURL\<close> permits a URL under a policy that blocks
  private addresses, its scheme is http or https and no address the host stands for (the literal
  itself, or any answer of the resolver) is loopback, link-local, private, unspecified, a metadata
  endpoint or in a range of \<open>blockedNets\<close>.
\<close>

theorem navigation_public:
  assumes "validate_url lookup p (Some (scheme, host)) = Inr ()" "np_block_private p"
    and "ip \<in> (case parse_ip host of Some l \<Rightarrow> {l} | None \<Rightarrow> set (the (lookup host)))"
  shows "scheme \<in> {''http'', ''https''} \<and> host \<noteq> [] \<and>
    \<not> is_loopback ip \<and> \<not> is_link_local_unicast ip \<and> \<not> is_private ip \<and> \<not> is_unspecified ip \<and>
    \<not> is_metadata_ip ip \<and> (\<forall>a. ip = V4 a \<longrightarrow> \<not> list_ex (\<lambda>b. net_contains b ip) blocked_nets)"
proof -
  have url: "scheme \<in> {''http'', ''https''}" "host \<noteq> []" and
    ips: "check_ip p ip = Inr ()"
    using assms(1,3) by (auto simp: validate_url_def check_all_Inr split: if_splits option.splits)
  then have "\<not> browser_is_private_ip ip" using assms(2) by (auto simp: check_ip_def split: if_splits)
  with url browser_wide.passes_public browser_wide.passes_wide show ?thesis by blast
qed

lemma navigation_public_witness:
  "\<not> is_metadata_ip (V4 16909060)"
proof -
  let ?p = "\<lparr>np_block_localhost = True, np_block_metadata = True, np_block_private = True, np_allowed_hosts = []\<rparr>"
  have "parse_ip ''1.2.3.4'' = Some (V4 16909060)" by (simp add: parse_ip_def ip_eval)
  moreover have "\<not> equal_fold_localhost ''1.2.3.4''" "to_lower ''1.2.3.4'' \<notin> set blocked_hostnames" by code_simp+
  moreover have "check_ip ?p (V4 16909060) = Inr ()"
    by (simp add: check_ip_def is_metadata_ip_def metadata_nets_eq browser_is_private_ip_def browser_nets_eq)
  ultimately have "validate_url (\<lambda>_. None) ?p (Some (''http'', ''1.2.3.4'')) = Inr ()"
    by (simp add: validate_url_def)
  from navigation_public [OF this] \<open>parse_ip ''1.2.3.4'' = Some (V4 16909060)\<close> show ?thesis by simp
qed

text \<open>
  Outbound requests of the API: the dialer hook lets a connection through only to a
  parseable address outside the loopback, link-local, private, shared and unspecified ranges, whatever
  the earlier URL check saw.
\<close>

theorem dialed_address_public:
  assumes "dial_control (Some host)"
  shows "\<exists>ip. parse_ip host = Some ip \<and> \<not> is_loopback ip \<and> \<not> is_link_local_unicast ip \<and>
    \<not> is_private ip \<and> \<not> is_unspecified ip \<and> \<not> is_metadata_ip ip \<and>
    (\<forall>a. ip = V4 a \<longrightarrow> \<not> list_ex (\<lambda>b. net_contains b ip) blocked_nets)"
proof -
  obtain ip where "parse_ip host = Some ip" "\<not> http_is_private_ip ip"
    using assms by (auto simp: dial_control_def split: option.splits)
  with http_wide.passes_public http_wide.passes_wide show ?thesis by blast
qed

lemma dialed_address_public_witness: "\<not> is_metadata_ip (V4 16909060)"
proof -
  have p: "parse_ip ''1.2.3.4'' = Some (V4 16909060)" by (simp add: parse_ip_def ip_eval)
  then have "dial_control (Some ''1.2.3.4'')"
    by (simp add: dial_control_def http_is_private_ip_def http_nets_eq)
  from dialed_address_public [OF this] p show ?thesis by auto
qed

end
