(* ===== verification/Egress.thy ===== *)
theory Egress
  imports AllowedHostsProps
begin

text \<open>
  \<open>internal/docker/netpolicy.go\<close>: the iptables commands that install and remove the egress policy of
  one sandbox.  A policy is a list of steps, each a command with the errors the code tolerates for
  it; the program that runs a command is a parameter, which may answer differently every time.
\<close>

type_synonym cmd = "string list"
type_synonym ipt_env = "cmd list \<Rightarrow> cmd \<Rightarrow> string option"

definition name_re :: "string \<Rightarrow> bool" where
  "name_re s \<longleftrightarrow> s \<noteq> [] \<and> list_all (\<lambda>c. is_alnum c \<or> c = CHR ''-'' \<or> c = CHR ''_'') s"

definition chain_name :: "string \<Rightarrow> string" where
  "chain_name container_id = ''vr-'' @ take 12 container_id"

definition input_chain :: "string \<Rightarrow> string" where
  "input_chain chain = chain @ ''-in''"

definition bridge_iface :: "string \<Rightarrow> string" where
  "bridge_iface network_id = ''br-'' @ take 12 network_id"

definition ipt_exists_err :: "string \<Rightarrow> bool" where
  "ipt_exists_err e \<longleftrightarrow>
     contains e ''Chain already exists'' \<or> contains e ''Already exists'' \<or>
     contains e ''already exists'' \<or> contains e ''Duplicate rule''"

definition ipt6_not_found :: "string \<Rightarrow> bool" where
  "ipt6_not_found e \<longleftrightarrow>
     contains e ''executable file not found'' \<or> contains e ''no such file or directory''"

section \<open>Running commands\<close>

record step =
  st_cmd :: cmd
  st_ok :: "string \<Rightarrow> bool"

definition fatal :: "cmd \<Rightarrow> step" where
  "fatal c = \<lparr>st_cmd = c, st_ok = (\<lambda>_. False)\<rparr>"

definition tolerate :: "(string \<Rightarrow> bool) \<Rightarrow> cmd \<Rightarrow> step" where
  "tolerate f c = \<lparr>st_cmd = c, st_ok = f\<rparr>"

definition ipt :: "string list \<Rightarrow> cmd" where
  "ipt args = ''iptables'' # args"

definition ipt6 :: "string list \<Rightarrow> cmd" where
  "ipt6 args = ''ip6tables'' # args"

text \<open>Steps run in order up to the first error that is not tolerated; the commands run are kept.\<close>

fun run_steps :: "ipt_env \<Rightarrow> cmd list \<Rightarrow> step list \<Rightarrow> (cmd \<times> string) option \<times> cmd list" where
  "run_steps env sofar [] = (None, sofar)"
| "run_steps env sofar (s # ss) =
     (case env sofar (st_cmd s) of
        None \<Rightarrow> run_steps env (sofar @ [st_cmd s]) ss
      | Some e \<Rightarrow>
          if st_ok s e then run_steps env (sofar @ [st_cmd s]) ss
          else (Some (st_cmd s, e), sofar @ [st_cmd s]))"

section \<open>The policy\<close>

definition established_rule :: "string list" where
  "established_rule = [''-m'', ''conntrack'', ''--ctstate'', ''ESTABLISHED,RELATED'', ''-j'', ''ACCEPT'']"

definition dns_rule :: "string \<Rightarrow> string \<Rightarrow> string list" where
  "dns_rule proto dns = [''-p'', proto, ''--dport'', ''53'', ''-d'', dns, ''-j'', ''ACCEPT'']"

definition drop_ranges :: "string list" where
  "drop_ranges = map net_string (filter (\<lambda>n. is_v4 (net_base n)) blocked_nets)"

definition v4_target :: "string \<Rightarrow> bool" where
  "v4_target s \<longleftrightarrow>
     (case parse_cidr s of
        Some n \<Rightarrow> is_v4 (net_base n)
      | None \<Rightarrow> (case parse_ip s of Some ip \<Rightarrow> is_v4 ip | None \<Rightarrow> False))"

definition forward_rules :: "string \<Rightarrow> string list \<Rightarrow> bool \<Rightarrow> string list list" where
  "forward_rules dns allowed open_internet =
     [established_rule, dns_rule ''udp'' dns, dns_rule ''tcp'' dns]
     @ (if open_internet then map (\<lambda>n. [''-d'', n, ''-j'', ''DROP'']) drop_ranges else [])
     @ map (\<lambda>ip. [''-d'', ip, ''-j'', ''ACCEPT''])
         (filter v4_target (if open_internet then [''0.0.0.0/0''] else allowed))
     @ [[''-j'', ''DROP'']]"

definition input_rules :: "string \<Rightarrow> string list list" where
  "input_rules dns = [established_rule, dns_rule ''udp'' dns, dns_rule ''tcp'' dns, [''-j'', ''DROP'']]"

definition chain_steps :: "string \<Rightarrow> string list list \<Rightarrow> step list" where
  "chain_steps chain rs =
     [tolerate ipt_exists_err (ipt [''-N'', chain]), fatal (ipt [''-F'', chain])]
     @ map (\<lambda>r. fatal (ipt ([''-A'', chain] @ r))) rs"

definition jump :: "string \<Rightarrow> string \<Rightarrow> string \<Rightarrow> string \<Rightarrow> string list" where
  "jump op hook iface target = [op, hook, ''-i'', iface, ''-j'', target]"

definition egress_steps :: "string \<Rightarrow> string \<Rightarrow> string \<Rightarrow> string list \<Rightarrow> bool \<Rightarrow> step list" where
  "egress_steps chain iface dns allowed open_internet =
     chain_steps chain (forward_rules dns allowed open_internet)
     @ [tolerate ipt_exists_err (ipt (jump ''-I'' ''FORWARD'' iface chain))]
     @ chain_steps (input_chain chain) (input_rules dns)
     @ [tolerate ipt_exists_err (ipt (jump ''-I'' ''INPUT'' iface (input_chain chain))),
        tolerate (\<lambda>e. ipt6_not_found e \<or> ipt_exists_err e) (ipt6 (jump ''-I'' ''FORWARD'' iface ''DROP''))]"

datatype egress_err = BadChain | BadIface | BadDns | CmdFailed cmd string

definition apply_egress ::
  "ipt_env \<Rightarrow> cmd list \<Rightarrow> string \<Rightarrow> string \<Rightarrow> string \<Rightarrow> string list \<Rightarrow> bool \<Rightarrow> egress_err option \<times> cmd list" where
  "apply_egress env sofar chain iface dns allowed open_internet =
     (if \<not> name_re chain then (Some BadChain, sofar)
      else if \<not> name_re iface then (Some BadIface, sofar)
      else if parse_ip dns = None then (Some BadDns, sofar)
      else (case run_steps env sofar (egress_steps chain iface dns allowed open_internet) of
              (None, cs) \<Rightarrow> (None, cs)
            | (Some (c, e), cs) \<Rightarrow> (Some (CmdFailed c e), cs)))"

text \<open>Removal runs every command; errors are only logged.\<close>

definition remove_cmds :: "string \<Rightarrow> string \<Rightarrow> cmd list" where
  "remove_cmds chain iface =
     [ipt (jump ''-D'' ''INPUT'' iface (input_chain chain)),
      ipt [''-F'', input_chain chain], ipt [''-X'', input_chain chain],
      ipt (jump ''-D'' ''FORWARD'' iface chain),
      ipt [''-F'', chain], ipt [''-X'', chain],
      ipt6 (jump ''-D'' ''FORWARD'' iface ''DROP'')]"

definition remove_egress :: "cmd list \<Rightarrow> string \<Rightarrow> string \<Rightarrow> cmd list" where
  "remove_egress sofar chain iface = sofar @ remove_cmds chain iface"

section \<open>Lemmas\<close>

lemma run_steps_ok:
  "run_steps env sofar ss = (None, cs) \<Longrightarrow> cs = sofar @ map st_cmd ss"
  by (induction ss arbitrary: sofar) (fastforce split: option.splits if_splits)+

lemma run_steps_prefix:
  "run_steps env sofar ss = (r, cs) \<Longrightarrow> \<exists>k. cs = sofar @ take k (map st_cmd ss)"
proof (induction ss arbitrary: sofar)
  case (Cons s ss)
  show ?case
  proof (cases "env sofar (st_cmd s) = None \<or> (\<exists>e. env sofar (st_cmd s) = Some e \<and> st_ok s e)")
    case True
    with Cons.prems have "run_steps env (sofar @ [st_cmd s]) ss = (r, cs)" by auto
    from Cons.IH [OF this] obtain k where "cs = (sofar @ [st_cmd s]) @ take k (map st_cmd ss)" by blast
    then show ?thesis by (intro exI [of _ "Suc k"]) simp
  next
    case False
    with Cons.prems show ?thesis by (intro exI [of _ 1]) (auto split: option.splits if_splits)
  qed
qed auto

lemma apply_egress_ok:
  "apply_egress env sofar chain iface dns allowed op = (None, cs) \<Longrightarrow>
   name_re chain \<and> name_re iface \<and> parse_ip dns \<noteq> None \<and>
   cs = sofar @ map st_cmd (egress_steps chain iface dns allowed op)"
  using run_steps_ok by (auto simp: apply_egress_def split: if_splits prod.splits option.splits)

lemma apply_egress_prefix:
  "\<exists>k. snd (apply_egress env sofar chain iface dns allowed op) =
     sofar @ take k (map st_cmd (egress_steps chain iface dns allowed op))"
proof (cases "name_re chain \<and> name_re iface \<and> parse_ip dns \<noteq> None")
  case True
  obtain r cs where r: "run_steps env sofar (egress_steps chain iface dns allowed op) = (r, cs)" by fastforce
  from run_steps_prefix [OF this] True r show ?thesis
    by (cases r) (auto simp: apply_egress_def)
next
  case False
  then show ?thesis by (intro exI [of _ 0]) (auto simp: apply_egress_def)
qed

end
