(* ===== verification/GuardProps.thy ===== *)
theory GuardProps
  imports GuardServer Egress
begin

text \<open>
  What the guard promises: a container it lets through is confined, every action a request sets in
  motion is one of the API's own (over whole runs, with answers chosen by an adversary), and the
  commands that VaultRun's own network policy issues pass the guard's iptables check.

  Whole runs of the guard.  A run is any sequence of requests with any answers of the daemon and the
  file system; the invariant is that the exec table only knows ids of commands created through the
  guard, and every action of the next request is within the policy.
\<close>

section \<open>Confinement of containers\<close>

definition mount_confined :: "policy \<Rightarrow> (string \<Rightarrow> file_kind option) \<Rightarrow> mnt \<Rightarrow> bool" where
  "mount_confined p lstat m \<longleftrightarrow>
     (case mt_type m of
        TTmpfs \<Rightarrow> True
      | TVolume \<Rightarrow> mt_source m = tools_volume \<and> \<not> mt_driver_config m
      | TBind \<Rightarrow> (\<exists>name. workspace_name_re name \<and> proper_comp name \<and>
                   mt_source m = join2 (po_workspace_dir p) name \<and> lstat (mt_source m) = Some Directory)
      | TOther _ \<Rightarrow> False)"

definition host_confined :: "policy \<Rightarrow> (string \<Rightarrow> file_kind option) \<Rightarrow> host_config \<Rightarrow> bool" where
  "host_confined p lstat hc \<longleftrightarrow>
     \<not> hc_privileged hc \<and> hc_cap_add hc = [] \<and> hc_binds hc = [] \<and> hc_volumes_from hc = [] \<and>
     hc_devices hc = [] \<and> hc_port_bindings hc = [] \<and> \<not> hc_publish_all hc \<and> hc_sysctls hc = [] \<and>
     hc_pid_mode hc = [] \<and> hc_ipc_mode hc = [] \<and> hc_uts_mode hc = [] \<and> hc_userns_mode hc = [] \<and>
     hc_cgroupns_mode hc \<in> {'''', ''private''} \<and>
     (hc_runtime hc = po_runtime p \<or> po_runtime p = [] \<and> hc_runtime hc = ''runc'') \<and>
     set (hc_device_drivers hc) \<subseteq> {''nvidia''} \<and>
     list_ex (\<lambda>x. has_prefix x ''no-new-privileges'') (hc_security_opt hc) \<and>
     (\<forall>x. x \<in> set (hc_security_opt hc) \<and> \<not> has_prefix x ''no-new-privileges'' \<longrightarrow>
        po_seccomp p \<noteq> [] \<and> x \<in> {''seccomp='' @ po_seccomp p, ''seccomp:'' @ po_seccomp p}) \<and>
     (hc_network_mode hc \<in> {'''', ''none'', ''bridge'', ''default''} \<or> session_net_re (hc_network_mode hc)) \<and>
     (\<forall>m \<in> set (hc_mounts hc). mount_confined p lstat m)"

lemma check_mount_ok: "check_mount p lstat m = Inr () \<Longrightarrow> mount_confined p lstat m"
  using workspace_path_ok workspace_name_proper
  by (fastforce simp: check_mount_def mount_confined_def rbind_eq_Inr split: mount_type.splits if_splits)

lemma check_security_opt_ok:
  assumes "check_security_opt p opts = Inr ()"
  shows "list_ex (\<lambda>x. has_prefix x ''no-new-privileges'') opts \<and>
    (\<forall>x. x \<in> set opts \<and> \<not> has_prefix x ''no-new-privileges'' \<longrightarrow>
        po_seccomp p \<noteq> [] \<and> x \<in> {''seccomp='' @ po_seccomp p, ''seccomp:'' @ po_seccomp p})"
proof -
  have nn: "has_prefix x ''no-new-privileges''" if "nnp_opt x" for x
    using that by (auto simp: nnp_opt_def has_prefix_def)
  have sec: "x \<in> {''seccomp='' @ po_seccomp p, ''seccomp:'' @ po_seccomp p}"
    if "seccomp_opt x" "drop 8 x = po_seccomp p" for x
    using that by (auto simp: seccomp_opt_def has_prefix_iff)
  have opt: "check_option p x = Inr () \<longleftrightarrow>
      nnp_opt x \<or> seccomp_opt x \<and> po_seccomp p \<noteq> [] \<and> drop 8 x = po_seccomp p" for x
    by (simp add: check_option_def)
  have ex: "\<exists>x \<in> set opts. nnp_opt x" and all: "\<forall>x \<in> set opts. check_option p x = Inr ()"
    using assms by (auto simp: check_security_opt_def rbind_eq_Inr check_all_Inr list_ex_iff split: if_splits)
  show ?thesis
  proof
    from ex nn show "list_ex (\<lambda>x. has_prefix x ''no-new-privileges'') opts" unfolding list_ex_iff by blast
    from all nn sec show "\<forall>x. x \<in> set opts \<and> \<not> has_prefix x ''no-new-privileges'' \<longrightarrow>
        po_seccomp p \<noteq> [] \<and> x \<in> {''seccomp='' @ po_seccomp p, ''seccomp:'' @ po_seccomp p}"
      unfolding opt by blast
  qed
qed

lemma check_create_confined:
  assumes "check_create p lstat cfg (Some hc) nc = Inr ()"
  shows "cfg = Some (Some ''true'') \<and> host_confined p lstat hc"
proof -
  obtain managed where cfg: "cfg = Some managed" "managed = Some ''true''"
    and hp: "host_config_problem p hc = None"
    using assms by (auto simp: check_create_def split: option.splits if_splits)
  then have sec: "check_security_opt p (hc_security_opt hc) = Inr ()"
    and net: "check_network_name (hc_network_mode hc) = Inr ()"
    and mts: "\<forall>m \<in> set (hc_mounts hc). check_mount p lstat m = Inr ()"
    and dev: "\<forall>d \<in> set (hc_device_drivers hc). d = ''nvidia''"
    using assms by (auto simp: check_create_def rbind_eq_Inr check_all_Inr split: if_splits)
  have hc: "\<not> hc_privileged hc \<and> hc_cap_add hc = [] \<and> hc_binds hc = [] \<and> hc_volumes_from hc = [] \<and>
     hc_devices hc = [] \<and> hc_port_bindings hc = [] \<and> \<not> hc_publish_all hc \<and> hc_sysctls hc = [] \<and>
     hc_pid_mode hc = [] \<and> hc_ipc_mode hc = [] \<and> hc_uts_mode hc = [] \<and> hc_userns_mode hc = [] \<and>
     hc_cgroupns_mode hc \<in> {'''', ''private''} \<and>
     (hc_runtime hc = po_runtime p \<or> po_runtime p = [] \<and> hc_runtime hc = ''runc'')"
    using hp unfolding host_config_problem_def by (simp split: if_splits)
  have n: "hc_network_mode hc \<in> {'''', ''none'', ''bridge'', ''default''} \<or> session_net_re (hc_network_mode hc)"
    using net unfolding check_network_name_def by (simp split: if_splits)
  have "\<forall>m \<in> set (hc_mounts hc). mount_confined p lstat m" using mts check_mount_ok by blast
  with cfg hc n check_security_opt_ok [OF sec] dev show ?thesis unfolding host_confined_def by blast
qed


definition demo_policy :: policy where
  "demo_policy = \<lparr>po_workspace_dir = ''/ws'', po_runtime = [], po_seccomp = ''default'', po_netpolicy = ''np''\<rparr>"

definition demo_host :: host_config where
  "demo_host =
     \<lparr>hc_privileged = False, hc_cap_add = [], hc_binds = [], hc_volumes_from = [], hc_links = [],
      hc_devices = [], hc_device_cgroup_rules = [], hc_port_bindings = [], hc_publish_all = False,
      hc_sysctls = [], hc_cgroup_parent = [], hc_cgroup = [], hc_masked_paths = None,
      hc_readonly_paths = None, hc_pid_mode = [], hc_ipc_mode = [], hc_uts_mode = [], hc_userns_mode = [],
      hc_cgroupns_mode = [], hc_runtime = [], hc_device_drivers = [],
      hc_security_opt = [''no-new-privileges'', ''seccomp=default''], hc_network_mode = ''none'',
      hc_mounts = [\<lparr>mt_type = TBind, mt_source = ''/ws/01234567-89ab-cdef-0123-456789abcdef'',
                    mt_propagation = Some ''rprivate'', mt_driver_config = False\<rparr>]\<rparr>"


definition managed_info :: "container_info \<Rightarrow> bool" where
  "managed_info info \<longleftrightarrow> ci_managed info = Some (Some ''true'')"

definition netpolicy_info :: "guard_config \<Rightarrow> container_info \<Rightarrow> bool" where
  "netpolicy_info g info \<longleftrightarrow>
     po_netpolicy (gc_policy g) \<noteq> [] \<and> ci_name info = slash # po_netpolicy (gc_policy g)"

definition start_ok :: "guard_config \<Rightarrow> answers \<Rightarrow> string \<Rightarrow> bool" where
  "start_ok g an i \<longleftrightarrow> (\<exists>info hc. an_inspect an 1 i = Inr info \<and> ci_host info = Some hc \<and> hc_binds hc = [] \<and>
     (\<forall>m \<in> set (hc_mounts hc). mount_confined (gc_policy g) (an_lstat an) m))"

definition read_paths :: "string set" where
  "read_paths = {''/_ping'', ''/version'', ''/info'', ''/images/json''}"

definition forward_ok :: "guard_config \<Rightarrow> answers \<Rightarrow> string set \<Rightarrow> string \<Rightarrow> http_method \<Rightarrow> bool" where
  "forward_ok g an ids path m \<longleftrightarrow>
     (m \<in> {GET, HEAD} \<and> (path \<in> read_paths \<or> image_re path)) \<or>
     (m = POST \<and> path = ''/images/create'') \<or>
     (\<exists>i oper info. container_re path = Some (i, oper) \<and> container_op m oper \<and> oper \<noteq> ''exec'' \<and>
        an_inspect an 0 i = Inr info \<and> managed_info info \<and> (oper = ''start'' \<longrightarrow> start_ok g an i)) \<or>
     (\<exists>i oper. exec_re path = Some (i, oper) \<and> i \<in> ids) \<or>
     (\<exists>n. network_re path = Some n \<and> m \<in> {GET, DELETE} \<and> an_network an n = Inr (Some ''true''))"

definition exec_ok :: "guard_config \<Rightarrow> answers \<Rightarrow> string \<Rightarrow> exec_options \<Rightarrow> bool" where
  "exec_ok g an i xo \<longleftrightarrow> (\<exists>info. an_inspect an 0 i = Inr info \<and> \<not> xo_privileged xo \<and>
     (managed_info info \<or> netpolicy_info g info) \<and>
     (netpolicy_info g info \<longrightarrow> xo_user xo = [] \<and> xo_env xo = [] \<and> \<not> xo_attach_stdin xo \<and>
        (\<exists>bin args. xo_cmd xo = bin # args \<and> bin \<in> {''iptables'', ''ip6tables''} \<and>
           check_iptables args = Inr ())))"

definition base_entry :: "guard_config \<Rightarrow> string \<Rightarrow> bool" where
  "base_entry g p \<longleftrightarrow> (\<exists>base name. gc_dirs g = Some base \<and> workspace_name_re name \<and> p = join2 base name)"

fun action_ok :: "guard_config \<Rightarrow> answers \<Rightarrow> string set \<Rightarrow> string \<Rightarrow> action \<Rightarrow> bool" where
  "action_ok g an ids path (Forward m p) \<longleftrightarrow> forward_ok g an ids path m"
| "action_ok g an ids path (CreateContainer b n) \<longleftrightarrow>
     cb_managed b = Some (Some ''true'') \<and>
     (\<exists>hc. cb_host b = Some hc \<and> host_confined (gc_policy g) (an_lstat an) hc)"
| "action_ok g an ids path (CreateExec i xo eid) \<longleftrightarrow> exec_ok g an i xo"
| "action_ok g an ids path (CreateNetwork n) \<longleftrightarrow> session_net_re n"
| "action_ok g an ids path CreateVolume \<longleftrightarrow> True"
| "action_ok g an ids path (MkDir p mode) \<longleftrightarrow> base_entry g p \<and> mode \<in> {448, 511}"
| "action_ok g an ids path (ChOwn p) \<longleftrightarrow> base_entry g p \<and> an_lstat an p = Some Directory"
| "action_ok g an ids path (ChMod p mode) \<longleftrightarrow>
     base_entry g p \<and> an_lstat an p = Some Directory \<and> mode \<in> {448, 511}"
| "action_ok g an ids path (RemoveAll p) \<longleftrightarrow> base_entry g p"
| "action_ok g an ids path (QuotaTool args) \<longleftrightarrow>
     args = [''check'', tool_mount] \<or>
     (\<exists>name rest. workspace_name_re name \<and> args = [''set'', tool_mount @ ''/'' @ name] @ rest)"

definition created_ids :: "action list \<Rightarrow> string set" where
  "created_ids acts = {eid. \<exists>i xo. CreateExec i xo eid \<in> set acts}"

section \<open>Handlers\<close>

text \<open>What a handler owes: its actions are within the policy and the table only learns created ids.\<close>

definition handled ::
  "guard_config \<Rightarrow> answers \<Rightarrow> string set \<Rightarrow> string \<Rightarrow> execs \<Rightarrow> outcome \<times> execs \<Rightarrow> bool" where
  "handled g an ids path ex res \<longleftrightarrow>
     (dom ex \<subseteq> ids \<longrightarrow>
        (\<forall>a \<in> set (snd (fst res)). action_ok g an ids path a) \<and>
        dom (snd res) \<subseteq> ids \<union> created_ids (snd (fst res)))"

lemma handled_same: "(\<forall>a \<in> set acts. action_ok g an ids path a) \<Longrightarrow> handled g an ids path ex ((r, acts), ex)"
  by (auto simp: handled_def)

lemma handled_deny [simp]: "handled g an ids path ex (deny, ex)"
  by (simp add: deny_def handled_same)

lemma handled_fwd: "forward_ok g an ids path m \<Longrightarrow> handled g an ids path ex ((r, [Forward m p]), ex)"
  by (simp add: handled_same)

lemma handled_create_container: "handled g an ids path ex (create_container g an rq, ex)"
proof (cases "rq_create rq")
  case None
  then show ?thesis by (simp add: create_container_def handled_same)
next
  case (Some b)
  show ?thesis
  proof (cases "check_create (gc_policy g) (an_lstat an) (cb_managed b) (cb_host b) (cb_endpoints b)")
    case (Inl e)
    with Some show ?thesis by (simp add: create_container_def)
  next
    case (Inr u)
    then obtain hc where "cb_host b = Some hc"
      by (cases "cb_host b") (auto simp: check_create_def split: option.splits)
    with Some Inr check_create_confined [of "gc_policy g" "an_lstat an" "cb_managed b"] show ?thesis
      by (simp add: create_container_def handled_same)
  qed
qed

lemma dom_remember: "dom (remember_exec now i ex) \<subseteq> insert i (dom ex)"
  by (auto simp: remember_exec_def dom_def split: option.splits if_splits)

lemma handled_create_exec:
  assumes "an_inspect an 0 i = Inr info" "managed_info info \<or> netpolicy_info g info"
  shows "handled g an ids path ex (create_exec an rq i (netpolicy_info g info) ex)"
proof (cases "rq_exec rq")
  case None
  then show ?thesis by (simp add: create_exec_def handled_same)
next
  case (Some xo)
  show ?thesis
  proof (cases "check_exec xo (netpolicy_info g info)")
    case (Inl e)
    with Some show ?thesis by (simp add: create_exec_def)
  next
    case (Inr u)
    then have "exec_ok g an i xo"
      using assms by (auto simp: exec_ok_def check_exec_def split: if_splits list.splits)
    then have ok: "action_ok g an ids path (CreateExec i xo eid)" for eid by simp
    show ?thesis
    proof (cases "an_exec_id an")
      case (Inl e)
      with Some Inr ok show ?thesis by (simp add: create_exec_def handled_same)
    next
      case eid: (Inr eid)
      with Some Inr ok dom_remember [of "an_now an" eid ex] show ?thesis
        by (auto simp: create_exec_def handled_def created_ids_def)
    qed
  qed
qed

lemma handled_create_network: "handled g an ids path ex (create_network an rq, ex)"
  by (cases "rq_network rq")
    (auto simp: create_network_def check_network_create_def intro!: handled_same split: sum.splits if_splits)

lemma handled_create_volume: "handled g an ids path ex (create_volume an rq, ex)"
  by (cases "rq_volume rq") (auto simp: create_volume_def intro!: handled_same)

lemma base_entryI [simp]:
  "gc_dirs g = Some base \<Longrightarrow> workspace_name_re name \<Longrightarrow> base_entry g (join2 base name)"
  by (auto simp: base_entry_def)

lemma handled_handle_create:
  "gc_dirs g = Some base \<Longrightarrow> handled g an ids path ex (handle_create base an rq, ex)"
  by (cases "rq_workspace rq")
    (auto simp: handle_create_def Let_def intro!: handled_same split: option.splits)

lemma handled_handle_remove:
  "gc_dirs g = Some base \<Longrightarrow> handled g an ids path ex (handle_remove base an name, ex)"
  by (auto simp: handle_remove_def intro!: handled_same)

lemma handled_handle_quota: "handled g an ids path ex (handle_quota an rq, ex)"
  by (cases "rq_quota rq") (auto simp: handle_quota_def Let_def intro!: handled_same)

lemma check_start_ok: "check_start g an i = Inr u \<Longrightarrow> start_ok g an i"
  using check_mount_ok
  by (fastforce simp: check_start_def start_ok_def check_all_Inr split: sum.splits option.splits if_splits)

section \<open>Routing\<close>

lemma handled_route_container:
  assumes "container_re path = Some (i, oper)"
  shows "handled g an ids path ex (route_container g an rq i oper ex)"
proof (cases "container_op (rq_method rq) oper")
  case False
  then show ?thesis by (simp add: route_container_def)
next
  case op: True
  show ?thesis
  proof (cases "an_inspect an 0 i")
    case (Inl e)
    with op show ?thesis by (simp add: route_container_def handled_same)
  next
    case (Inr info)
    have fwd: "forward_ok g an ids path (rq_method rq)"
      if "managed_info info" "oper \<noteq> ''exec''" "oper = ''start'' \<longrightarrow> start_ok g an i"
      unfolding forward_ok_def using that assms op Inr by blast
    consider (exec) "oper = ''exec''" "managed_info info \<or> netpolicy_info g info"
      | (unmanaged) "\<not> managed_info info" "\<not> (oper = ''exec'' \<and> netpolicy_info g info)"
      | (start) "managed_info info" "oper = ''start''"
      | (other) "managed_info info" "oper \<noteq> ''exec''" "oper \<noteq> ''start''" by blast
    then show ?thesis
    proof cases
      case exec
      then have "route_container g an rq i oper ex = create_exec an rq i (netpolicy_info g info) ex"
        using op Inr by (auto simp: route_container_def managed_info_def netpolicy_info_def Let_def)
      then show ?thesis using handled_create_exec [OF Inr exec(2)] by simp
    next
      case unmanaged
      then have "route_container g an rq i oper ex = (deny, ex)"
        using op Inr by (auto simp: route_container_def managed_info_def netpolicy_info_def Let_def)
      then show ?thesis by simp
    next
      case start
      then show ?thesis
      proof (cases "check_start g an i")
        case (Inl e)
        with start op \<open>an_inspect an 0 i = Inr info\<close> show ?thesis
          by (simp add: route_container_def managed_info_def handled_same)
      next
        case (Inr u)
        with start op \<open>an_inspect an 0 i = Inr info\<close> fwd check_start_ok [OF Inr] show ?thesis
          by (simp add: route_container_def managed_info_def handled_fwd)
      qed
    next
      case other
      with op Inr fwd show ?thesis by (simp add: route_container_def managed_info_def handled_fwd)
    qed
  qed
qed

lemma handled_route_rest: "handled g an ids path ex (route_rest g an rq path ex)"
proof (cases "container_re path")
  case (Some c)
  then show ?thesis
    using handled_route_container [of path "fst c" "snd c" g an ids ex rq]
    by (cases c) (simp add: route_rest_def)
next
  case c: None
  show ?thesis
  proof (cases "exec_re path")
    case (Some e)
    obtain i oper where e: "e = (i, oper)" by fastforce
    have "forward_ok g an ids path m" if "i \<in> ids" for m
      using that Some e unfolding forward_ok_def by blast
    then show ?thesis
      using c Some e by (auto simp: route_rest_def handled_def dom_def deny_def Let_def)
  next
    case x: None
    show ?thesis
    proof (cases "network_re path")
      case None
      with c x show ?thesis by (simp add: route_rest_def)
    next
      case (Some n)
      show ?thesis
      proof (cases "rq_method rq \<in> {GET, DELETE} \<and> an_network an n = Inr (Some ''true'')")
        case True
        then have "forward_ok g an ids path (rq_method rq)"
          using Some unfolding forward_ok_def by blast
        with True c x Some show ?thesis by (auto simp: route_rest_def intro!: handled_fwd)
      next
        case False
        with c x Some show ?thesis
          by (auto simp: route_rest_def Let_def intro!: handled_same split: sum.split)
      qed
    qed
  qed
qed

lemma handled_if:
  "(b \<Longrightarrow> handled g an ids path ex x) \<Longrightarrow> (\<not> b \<Longrightarrow> handled g an ids path ex y) \<Longrightarrow>
   handled g an ids path ex (if b then x else y)"
  by simp

lemma handled_read:
  assumes "(path = ''/_ping'' \<and> (m = GET \<or> m = HEAD)) \<or>
     ((path = ''/version'' \<or> path = ''/info'' \<or> path = ''/images/json'') \<and> m = GET) \<or> (image_re path \<and> m = GET)"
  shows "handled g an ids path ex ((Inr 200, [Forward m p]), ex)"
proof (rule handled_fwd)
  have "m \<in> {GET, HEAD} \<and> (path \<in> read_paths \<or> image_re path)"
    unfolding read_paths_def using assms by blast
  then show "forward_ok g an ids path m" unfolding forward_ok_def by blast
qed

lemma handled_pull:
  "path = ''/images/create'' \<and> m = POST \<Longrightarrow> handled g an ids path ex ((Inr 200, [Forward m p]), ex)"
  by (rule handled_fwd) (simp only: forward_ok_def, blast)

lemma handled_dirs:
  assumes "a \<and> b \<and> gc_dirs g \<noteq> None"
  shows "handled g an ids path ex (handle_create (the (gc_dirs g)) an rq, ex)"
    "handled g an ids path ex (handle_remove (the (gc_dirs g)) an name, ex)"
  using assms by (simp_all add: handled_handle_create handled_handle_remove)

lemma handled_route: "handled g an ids path ex (route g an rq path ex)"
  unfolding route_def Let_def
  by (rule handled_if, rule handled_same, simp,
      rule handled_if, erule handled_read,
      rule handled_if, rule handled_if, rule handled_deny, erule handled_pull,
      rule handled_if, rule handled_create_container,
      rule handled_if, rule handled_create_network,
      rule handled_if, rule handled_create_volume,
      rule handled_if, erule handled_dirs,
      rule handled_if, erule handled_dirs,
      rule handled_if, rule handled_handle_quota, rule handled_route_rest)

section \<open>Runs\<close>

record exchange =
  xc_answers :: answers
  xc_request :: request
  xc_actions :: "action list"

definition run_ids :: "exchange list \<Rightarrow> string set" where
  "run_ids tr = created_ids (concat (map xc_actions tr))"

inductive guard_run :: "guard_config \<Rightarrow> exchange list \<Rightarrow> execs \<Rightarrow> bool" for g where
  start: "guard_run g [] (\<lambda>_. None)"
| step: "guard_run g tr ex \<Longrightarrow> serve g an rq ex = ((status, acts), ex') \<Longrightarrow>
     guard_run g (tr @ [\<lparr>xc_answers = an, xc_request = rq, xc_actions = acts\<rparr>]) ex'"

inductive_cases guard_run_snocE: "guard_run g (tr @ [x]) ex"

lemma serve_handled:
  assumes "serve g an rq ex = ((status, acts), ex')" "dom ex \<subseteq> ids"
  shows "(\<forall>a \<in> set acts. action_ok g an ids (strip_version (rq_path rq)) a) \<and> dom ex' \<subseteq> ids \<union> created_ids acts"
proof (cases "contains (rq_path rq) ''..'' \<or> contains (rq_path rq) ''//''")
  case True
  with assms show ?thesis by (auto simp: serve_def)
next
  case False
  obtain r acts0 ex0 where r: "route g an rq (strip_version (rq_path rq)) ex = ((r, acts0), ex0)"
    by (metis prod.collapse)
  with assms(1) False have "acts0 = acts" "ex0 = ex'"
    by (cases r; simp add: serve_def)+
  with r handled_route [of g an ids "strip_version (rq_path rq)" ex rq] assms(2) show ?thesis
    by (simp add: handled_def)
qed

lemma run_ids_snoc: "run_ids (tr @ [x]) = run_ids tr \<union> created_ids (xc_actions x)"
  by (auto simp: run_ids_def created_ids_def)

lemma guard_run_table: "guard_run g tr ex \<Longrightarrow> dom ex \<subseteq> run_ids tr"
proof (induction rule: guard_run.induct)
  case (step tr ex an rq status acts ex')
  from serve_handled [OF step.hyps(2) step.IH] show ?case by (simp add: run_ids_snoc)
qed simp

text \<open>
  Property C5.  Whatever requests arrive and whatever the daemon and the file system answer, every
  action the guard lets happen is within the policy: reads, image pulls, operations on managed
  containers (started only with confined mounts), confined containers, commands in managed containers
  or iptables commands in the netpolicy helper, exec ids only when an earlier action of the same run
  created them, session networks, and session directories of the workspace base.
\<close>

theorem guard_actions_allowed:
  assumes "guard_run g (tr @ [x]) ex" "a \<in> set (xc_actions x)"
  shows "action_ok g (xc_answers x) (run_ids tr) (strip_version (rq_path (xc_request x))) a"
proof -
  from assms(1) obtain ex0 status where "guard_run g tr ex0"
    "serve g (xc_answers x) (xc_request x) ex0 = ((status, xc_actions x), ex)"
    by (elim guard_run_snocE) auto
  from serve_handled [OF this(2) guard_run_table [OF this(1)]] assms(2) show ?thesis by blast
qed

definition demo_exec_id :: string where
  "demo_exec_id = replicate 64 CHR ''a''"

definition demo_answers :: answers where
  "demo_answers =
     \<lparr>an_inspect = (\<lambda>_ _. Inr \<lparr>ci_name = ''/c'', ci_managed = Some (Some ''true''), ci_host = None\<rparr>),
      an_network = (\<lambda>_. Inl DeNotFound), an_create = None, an_exec_id = Inr demo_exec_id,
      an_lstat = (\<lambda>_. None), an_mkdir_failed = False, an_chown_failed = False, an_chmod_failed = False,
      an_remove_failed = False, an_quota = True, an_now = 0\<rparr>"

definition demo_request :: "string \<Rightarrow> request" where
  "demo_request p =
     \<lparr>rq_method = POST, rq_path = p, rq_from_image = [], rq_from_src = [], rq_name = [],
      rq_create = None,
      rq_exec = Some \<lparr>xo_privileged = False, xo_user = [], xo_env = [], xo_working_dir = [],
                      xo_attach_stdin = False, xo_tty = False, xo_cmd = [''ls'']\<rparr>,
      rq_network = None, rq_volume = None, rq_workspace = None, rq_quota = None\<rparr>"

definition demo_guard :: guard_config where
  "demo_guard = \<lparr>gc_policy = \<lparr>po_workspace_dir = ''/w'', po_runtime = [], po_seccomp = [], po_netpolicy = ''np''\<rparr>,
                 gc_dirs = None\<rparr>"

lemma guard_actions_allowed_witness:
  "\<exists>ids. demo_exec_id \<in> ids \<and>
     action_ok demo_guard demo_answers ids (''/exec/'' @ demo_exec_id @ ''/start'')
       (Forward POST (''/v1.47/exec/'' @ demo_exec_id @ ''/start''))"
proof -
  let ?r1 = "demo_request ''/containers/c/exec''"
  let ?r2 = "demo_request (''/v1.47/exec/'' @ demo_exec_id @ ''/start'')"
  define ex1 where "ex1 = snd (serve demo_guard demo_answers ?r1 (\<lambda>_. None))"
  define ex2 where "ex2 = snd (serve demo_guard demo_answers ?r2 ex1)"
  let ?a1 = "[CreateExec ''c'' (the (rq_exec ?r1)) demo_exec_id]"
  let ?a2 = "[Forward POST (''/v1.47/exec/'' @ demo_exec_id @ ''/start'')]"
  let ?t1 = "[\<lparr>xc_answers = demo_answers, xc_request = ?r1, xc_actions = ?a1\<rparr>]"
  have "fst (serve demo_guard demo_answers ?r1 (\<lambda>_. None)) = (201, ?a1)" by code_simp
  then have "serve demo_guard demo_answers ?r1 (\<lambda>_. None) = ((201, ?a1), ex1)" by (simp add: ex1_def prod_eq_iff)
  from guard_run.step [OF guard_run.start this] have run1: "guard_run demo_guard ?t1 ex1" by simp
  have "fst (serve demo_guard demo_answers ?r2 ex1) = (200, ?a2)" unfolding ex1_def by code_simp
  then have "serve demo_guard demo_answers ?r2 ex1 = ((200, ?a2), ex2)" by (simp add: ex2_def prod_eq_iff)
  from guard_run.step [OF run1 this] have run2: "guard_run demo_guard
      (?t1 @ [\<lparr>xc_answers = demo_answers, xc_request = ?r2, xc_actions = ?a2\<rparr>]) ex2" .
  have strip: "strip_version (''/v1.47/exec/'' @ demo_exec_id @ ''/start'') = ''/exec/'' @ demo_exec_id @ ''/start''"
    by code_simp
  have "action_ok demo_guard demo_answers (run_ids ?t1) (strip_version (rq_path ?r2)) (hd ?a2)"
    using guard_actions_allowed [OF run2, of "hd ?a2"] by simp
  moreover have "demo_exec_id \<in> run_ids ?t1" by (auto simp: run_ids_def created_ids_def)
  ultimately show ?thesis using strip by (intro exI [of _ "run_ids ?t1"]) (simp add: demo_request_def)
qed

end
