(* ===== verification/Sandbox.thy ===== *)
theory Sandbox
  imports GuardProps
begin

text \<open>
  \<open>CreateSandbox\<close> and \<open>StopSandbox\<close> of \<open>internal/docker/container.go\<close>, with \<open>supervisorMount\<close>'s
  mount: the calls that reach the daemon and the firewall, in order, and the result.  What the
  daemon, the image verification, DNS and iptables answer is a parameter.  CPU shares (a floating
  point number) are left out.
\<close>

record sb_config =
  sc_session :: string
  sc_image :: string
  sc_workspace :: string
  sc_host_workspace :: string
  sc_network :: bool
  sc_memory_mb :: int
  sc_name :: string
  sc_hosts :: "string list"
  sc_allow_private :: bool
  sc_gpu :: string

record sb_client =
  cl_seccomp :: string
  cl_runtime :: string

record sb_env =
  se_verify :: "string option"
  se_exists :: "bool option"
  se_pull_ok :: bool
  se_egress :: bool
  se_net_id :: "string option"
  se_gateways :: "string list option"
  se_supervisor :: bool
  se_lookup :: "string \<Rightarrow> lookup_result"
  se_ctr_id :: "string option"
  se_ipt :: ipt_env
  se_start_ok :: bool

text \<open>Limits of the container beside the fields of \<open>host_config\<close>.\<close>

record sb_limits =
  sl_memory :: int
  sl_memory_swap :: int
  sl_pids :: int
  sl_readonly :: bool
  sl_cap_drop :: "string list"
  sl_extra_hosts :: "string list"

datatype sb_event =
    EvNetCreate string
  | EvNetInspect string
  | EvNetRemove string
  | EvCtrCreate create_body sb_limits string
  | EvIpt cmd
  | EvCtrStart string
  | EvCtrStop string
  | EvCtrRemove string

datatype sb_err =
    VerifyFailed
  | ImageCheckFailed
  | PullFailed
  | EgressUnavailable
  | NetCreateFailed
  | NoGateway
  | MemoryOverflow
  | CtrCreateFailed
  | HostsInvalid host_err
  | EgressFailed egress_err
  | StartFailed

definition wrap64 :: "int \<Rightarrow> int" where
  "wrap64 i = (i + 2 ^ 63) mod 2 ^ 64 - 2 ^ 63"

definition memory_bytes :: "int \<Rightarrow> int" where
  "memory_bytes mb = wrap64 (wrap64 (mb * 1024) * 1024)"

definition open_internet :: "sb_env \<Rightarrow> sb_config \<Rightarrow> bool" where
  "open_internet e c \<longleftrightarrow> sc_network c \<and> sc_hosts c = [] \<and> \<not> sc_allow_private c \<and> se_egress e"

text \<open>Step 3: the network mode, and the network id and gateway of a dedicated network.\<close>

definition net_name :: "sb_config \<Rightarrow> string" where
  "net_name c = session_net_pfx @ sc_session c"

definition setup_network ::
  "sb_env \<Rightarrow> sb_config \<Rightarrow> (sb_err + string \<times> (string \<times> string) option) \<times> sb_event list" where
  "setup_network e c =
     (if \<not> sc_network c then (Inr (''none'', None), [])
      else if sc_hosts c \<noteq> [] \<or> open_internet e c then
        (if \<not> se_egress e then (Inl EgressUnavailable, [])
         else case se_net_id e of
           None \<Rightarrow> (Inl NetCreateFailed, [EvNetCreate (net_name c)])
         | Some nid \<Rightarrow>
             (case se_gateways e of
                None \<Rightarrow> (Inl NoGateway, [EvNetCreate (net_name c), EvNetInspect nid, EvNetRemove nid])
              | Some gws \<Rightarrow>
                  if gws = [] \<or> hd gws = []
                  then (Inl NoGateway, [EvNetCreate (net_name c), EvNetInspect nid, EvNetRemove nid])
                  else (Inr (net_name c, Some (nid, hd gws)), [EvNetCreate (net_name c), EvNetInspect nid])))
      else (Inr (''bridge'', None), []))"

text \<open>Step 4: the container.\<close>

definition supervisor_mount :: mnt where
  "supervisor_mount =
     \<lparr>mt_type = TVolume, mt_source = ''vaultrun-tools'', mt_propagation = None, mt_driver_config = False\<rparr>"

definition sandbox_mounts :: "sb_env \<Rightarrow> sb_config \<Rightarrow> mnt list" where
  "sandbox_mounts e c =
     [\<lparr>mt_type = TBind,
       mt_source = (if sc_host_workspace c \<noteq> [] then sc_host_workspace c else sc_workspace c),
       mt_propagation = Some ''rprivate'', mt_driver_config = False\<rparr>,
      \<lparr>mt_type = TTmpfs, mt_source = [], mt_propagation = None, mt_driver_config = False\<rparr>]
     @ (if se_supervisor e then [supervisor_mount] else [])"

definition security_opts :: "sb_client \<Rightarrow> string list" where
  "security_opts cl =
     [''no-new-privileges''] @
     (if cl_seccomp cl = [] then []
      else if cl_seccomp cl = ''default'' then [''seccomp=default'']
      else [''seccomp='' @ cl_seccomp cl])"

definition sandbox_host :: "sb_client \<Rightarrow> sb_env \<Rightarrow> sb_config \<Rightarrow> string \<Rightarrow> host_config" where
  "sandbox_host cl e c mode =
     \<lparr>hc_privileged = False, hc_cap_add = [], hc_binds = [], hc_volumes_from = [], hc_links = [],
      hc_devices = [], hc_device_cgroup_rules = [], hc_port_bindings = [], hc_publish_all = False,
      hc_sysctls = [], hc_cgroup_parent = [], hc_cgroup = [], hc_masked_paths = None,
      hc_readonly_paths = None, hc_pid_mode = [], hc_ipc_mode = [], hc_uts_mode = [], hc_userns_mode = [],
      hc_cgroupns_mode = [], hc_runtime = cl_runtime cl,
      hc_device_drivers = (if sc_gpu c \<noteq> [] then [''nvidia''] else []),
      hc_security_opt = security_opts cl, hc_network_mode = mode, hc_mounts = sandbox_mounts e c\<rparr>"

definition sandbox_body :: "sb_client \<Rightarrow> sb_env \<Rightarrow> sb_config \<Rightarrow> string \<Rightarrow> (string \<times> string) option \<Rightarrow> create_body" where
  "sandbox_body cl e c mode net =
     \<lparr>cb_managed = Some (Some ''true''), cb_host = Some (sandbox_host cl e c mode),
      cb_endpoints = (if net = None then None else Some [mode])\<rparr>"

definition sandbox_limits :: "sb_env \<Rightarrow> sb_config \<Rightarrow> sb_limits" where
  "sandbox_limits e c =
     (let m = memory_bytes (sc_memory_mb c)
      in \<lparr>sl_memory = m, sl_memory_swap = m, sl_pids = 512, sl_readonly = True, sl_cap_drop = [''ALL''],
          sl_extra_hosts = resolve_extra_hosts (se_lookup e) (sc_hosts c)\<rparr>)"

text \<open>Step 5: the egress policy before the start; on failure the rules, the container and the network go.\<close>

definition apply_policy ::
  "sb_env \<Rightarrow> sb_config \<Rightarrow> string \<Rightarrow> string \<Rightarrow> string \<Rightarrow> sb_err option \<times> sb_event list" where
  "apply_policy e c cid nid gw =
     (case (if open_internet e c then Inr [] else resolve_to_ips (se_lookup e) (sc_hosts c)) of
        Inl err \<Rightarrow> (Some (HostsInvalid err), [EvCtrRemove cid, EvNetRemove nid])
      | Inr ips \<Rightarrow>
          (case apply_egress (se_ipt e) [] (chain_name cid) (bridge_iface nid) gw ips (open_internet e c) of
             (None, cs) \<Rightarrow> (None, map EvIpt cs)
           | (Some err, cs) \<Rightarrow>
               (Some (EgressFailed err),
                map EvIpt (remove_egress cs (chain_name cid) (bridge_iface nid)) @ [EvCtrRemove cid, EvNetRemove nid])))"

definition start_container ::
  "sb_env \<Rightarrow> string \<Rightarrow> (string \<times> string) option \<Rightarrow> (sb_err + string) \<times> sb_event list" where
  "start_container e cid net =
     (if se_start_ok e then (Inr cid, [EvCtrStart cid])
      else (Inl StartFailed,
            EvCtrStart cid #
            (case net of
               None \<Rightarrow> [EvCtrRemove cid]
             | Some (nid, _) \<Rightarrow>
                 map EvIpt (remove_cmds (chain_name cid) (bridge_iface nid)) @ [EvCtrRemove cid, EvNetRemove nid])))"

definition launch ::
  "sb_client \<Rightarrow> sb_env \<Rightarrow> sb_config \<Rightarrow> string \<Rightarrow> (string \<times> string) option \<Rightarrow> (sb_err + string) \<times> sb_event list" where
  "launch cl e c mode net =
     (if memory_bytes (sc_memory_mb c) < 0 then (Inl MemoryOverflow, [])
      else let create = EvCtrCreate (sandbox_body cl e c mode net) (sandbox_limits e c) (sc_name c) in
        case se_ctr_id e of
          None \<Rightarrow> (Inl CtrCreateFailed, create # (case net of None \<Rightarrow> [] | Some (nid, _) \<Rightarrow> [EvNetRemove nid]))
        | Some cid \<Rightarrow>
            let (bad, evs) = (case net of None \<Rightarrow> (None, []) | Some (nid, gw) \<Rightarrow> apply_policy e c cid nid gw) in
            case bad of
              Some err \<Rightarrow> (Inl err, create # evs)
            | None \<Rightarrow> (let (r, evs') = start_container e cid net in (r, create # evs @ evs')))"

definition create_sandbox :: "sb_client \<Rightarrow> sb_env \<Rightarrow> sb_config \<Rightarrow> (sb_err + string) \<times> sb_event list" where
  "create_sandbox cl e c =
     (case se_verify e of
        None \<Rightarrow> (Inl VerifyFailed, [])
      | Some _ \<Rightarrow>
          (case se_exists e of
             None \<Rightarrow> (Inl ImageCheckFailed, [])
           | Some present \<Rightarrow>
               if \<not> present \<and> \<not> se_pull_ok e then (Inl PullFailed, [])
               else (case setup_network e c of
                       (Inl err, evs) \<Rightarrow> (Inl err, evs)
                     | (Inr (mode, net), evs) \<Rightarrow>
                         (let (r, evs') = launch cl e c mode net in (r, evs @ evs')))))"

text \<open>The label read back, stopping, removing, and cleaning up; \<open>None\<close> when inspecting failed.\<close>

definition stop_sandbox :: "string option \<Rightarrow> string \<Rightarrow> sb_event list" where
  "stop_sandbox net_label cid =
     [EvCtrStop cid, EvCtrRemove cid] @
     (case net_label of
        None \<Rightarrow> []
      | Some nid \<Rightarrow>
          if nid = [] then []
          else map EvIpt (remove_cmds (chain_name cid) (bridge_iface nid)) @ [EvNetRemove nid])"

end
