(* ===== verification/SandboxProps.thy ===== *)
theory SandboxProps
  imports Sandbox
begin

text \<open>
  How the parts around a sandbox fit together: the containers and firewall commands of
  \<open>CreateSandbox\<close> pass the guard, the egress policy is complete before the container starts and lets
  nothing through to internal addresses, and a failed creation leaves nothing behind.
\<close>

section \<open>VaultRun's own firewall commands pass the guard\<close>

definition plain_exec :: "cmd \<Rightarrow> exec_options" where
  "plain_exec c =
     \<lparr>xo_privileged = False, xo_user = [], xo_env = [], xo_working_dir = [], xo_attach_stdin = False,
      xo_tty = False, xo_cmd = c\<rparr>"

definition accepted :: "cmd \<Rightarrow> bool" where
  "accepted c \<longleftrightarrow> check_exec (plain_exec c) True = Inr ()"

definition no_dash :: "string \<Rightarrow> bool" where
  "no_dash s \<longleftrightarrow> \<not> has_prefix s ''-''"

lemma no_dash_no_table: "no_dash s \<Longrightarrow> \<not> names_table s"
  by (auto simp: no_dash_def names_table_def has_prefix_iff)

lemma octet_no_dash: "octet s = Some n \<Longrightarrow> no_dash s"
  by (cases s) (auto simp: octet_def no_dash_def has_prefix_def is_digit_def split: if_splits)

lemma parse_v4_no_dash: "parse_v4 s = Some a \<Longrightarrow> no_dash s"
proof (cases s)
  case (Cons c t)
  assume p: "parse_v4 s = Some a"
  have "c \<noteq> CHR ''-''"
  proof
    assume c: "c = CHR ''-''"
    obtain q qs where q: "split_on CHR ''.'' t = q # qs" by (metis neq_Nil_conv split_on_nonempty)
    then have "split_on CHR ''.'' s = (CHR ''-'' # q) # qs" using Cons c by simp
    then have "\<exists>n. octet (CHR ''-'' # q) = Some n"
      using p by (auto simp: parse_v4_def split: list.splits option.splits)
    then show False using octet_no_dash [of "CHR ''-'' # q"] by (auto simp: no_dash_def has_prefix_def)
  qed
  then show ?thesis using Cons by (simp add: no_dash_def has_prefix_def)
qed (simp add: no_dash_def has_prefix_def)

lemma dash_no_hex: "\<not> is_hex_any (CHR ''-'')"
  by (simp add: is_hex_any_def is_hex_lower_def is_digit_def)

lemma parse_v6_no_dash: "parse_v6 s = Some a \<Longrightarrow> no_dash s"
proof (cases s)
  case (Cons c t)
  assume p: "parse_v6 s = Some a"
  have "c \<noteq> CHR ''-''"
  proof
    assume c: "c = CHR ''-''"
    then have "v6_loop 8 None [] s = None"
      using Cons dash_no_hex by (simp add: v6_loop_numeral)
    with p Cons c show False by (simp add: parse_v6_def has_prefix_def)
  qed
  then show ?thesis using Cons by (simp add: no_dash_def has_prefix_def)
qed (simp add: no_dash_def has_prefix_def)

lemma parse_addr_no_dash: "parse_addr s = Some r \<Longrightarrow> no_dash s"
  using parse_v4_no_dash parse_v6_no_dash
  by (auto simp: parse_addr_def split: if_splits list.splits)

lemma parse_ip_no_dash: "parse_ip s = Some ip \<Longrightarrow> no_dash s"
  using parse_addr_no_dash by (auto simp: parse_ip_def)

lemma parse_cidr_no_dash:
  assumes "parse_cidr s = Some n"
  shows "no_dash s"
proof -
  obtain r where "parse_addr (takeWhile (\<lambda>c. c \<noteq> CHR ''/'') s) = Some r"
    using assms by (auto simp: parse_cidr_def split: list.splits option.splits)
  then have "no_dash (takeWhile (\<lambda>c. c \<noteq> CHR ''/'') s)" by (rule parse_addr_no_dash)
  then show ?thesis by (cases s) (auto simp: no_dash_def has_prefix_def split: if_splits)
qed

lemma v4_target_no_dash: "v4_target s \<Longrightarrow> no_dash s"
  using parse_ip_no_dash parse_cidr_no_dash by (auto simp: v4_target_def split: option.splits)

lemma quad_string_no_dash: "no_dash (quad_string a @ t)"
proof -
  obtain c s where "nat_dec (a div 2 ^ 24) = c # s" by (cases "nat_dec (a div 2 ^ 24)") auto
  moreover from this have "is_digit c" using nat_dec_digits by (metis list.set_intros(1))
  ultimately show ?thesis by (auto simp: no_dash_def has_prefix_def quad_string_def is_digit_def)
qed

lemma drop_ranges_no_dash: "s \<in> set drop_ranges \<Longrightarrow> no_dash s"
proof -
  assume "s \<in> set drop_ranges"
  then obtain n where n: "s = net_string n" "is_v4 (net_base n)" by (auto simp: drop_ranges_def)
  then show ?thesis using quad_string_no_dash by (cases n) auto
qed

text \<open>Rules whose operands are addresses name no other table.\<close>

definition rule_plain :: "string list \<Rightarrow> bool" where
  "rule_plain r \<longleftrightarrow> \<not> list_ex names_table r"

lemma rule_plain_forward:
  assumes "no_dash dns"
  shows "r \<in> set (forward_rules dns allowed op) \<Longrightarrow> rule_plain r"
proof -
  have lits: "\<not> list_ex names_table [''-d'', ''-j'', ''DROP'', ''ACCEPT'', ''-m'', ''conntrack'', ''--ctstate'',
      ''ESTABLISHED,RELATED'', ''-p'', ''udp'', ''tcp'', ''--dport'', ''53'', ''-A'', ''-N'', ''-F'', ''-X'', ''-I'', ''-D'']"
    by code_simp
  have t: "no_dash s" if "s \<in> set (filter v4_target xs)" for s xs
    using that v4_target_no_dash by simp
  show "rule_plain r" if "r \<in> set (forward_rules dns allowed op)"
    using that lits assms no_dash_no_table drop_ranges_no_dash v4_target_no_dash
    by (auto simp: forward_rules_def established_rule_def dns_rule_def rule_plain_def split: if_splits)
qed

lemma rule_plain_input: "no_dash dns \<Longrightarrow> r \<in> set (input_rules dns) \<Longrightarrow> rule_plain r"
  using rule_plain_forward [of dns r "[]" False] by (auto simp: input_rules_def forward_rules_def)

lemma chain_name_ok:
  assumes "hex_run n cid" "0 < n"
  shows "chain_re (chain_name cid)" "chain_re (input_chain (chain_name cid))"
proof -
  define h where "h = take 12 cid"
  have h: "list_all is_hex_lower h" "1 \<le> length h" "length h \<le> 12"
    using assms by (auto simp: h_def hex_run_def list_all_iff dest: in_set_takeD)
  have nosuf: "\<not> has_suffix h ''-in''"
    using h(1) by (auto simp: has_suffix_iff list_all_iff is_hex_lower_def is_digit_def)
  have cn: "chain_name cid = ''vr-'' @ h" by (simp add: chain_name_def h_def)
  show "chain_re (chain_name cid)"
    using h nosuf by (simp add: chain_re_def cn has_prefix_def Let_def)
  have "has_suffix (h @ ''-in'') ''-in''" by (auto simp: has_suffix_iff)
  then show "chain_re (input_chain (chain_name cid))"
    using h by (simp add: chain_re_def input_chain_def cn has_prefix_def Let_def)
qed

lemma bridge_ok: "hex_run n nid \<Longrightarrow> 12 \<le> n \<Longrightarrow> bridge_re (bridge_iface nid)"
  by (auto simp: bridge_re_def bridge_iface_def hex_run_def has_prefix_def list_all_iff dest: in_set_takeD)

lemma chain_not_table: "chain_re s \<Longrightarrow> \<not> names_table s"
  by (auto simp: chain_re_def has_prefix_iff intro!: no_dash_no_table) (simp add: no_dash_def has_prefix_def)

lemma accepted_iff:
  "accepted (ipt args) \<longleftrightarrow> check_iptables args = Inr ()"
  "accepted (ipt6 args) \<longleftrightarrow> check_iptables args = Inr ()"
  by (simp_all add: accepted_def check_exec_def plain_exec_def ipt_def ipt6_def)

lemma words_not_table:
  "\<not> names_table ''-N''" "\<not> names_table ''-F''" "\<not> names_table ''-X''" "\<not> names_table ''-A''"
  "\<not> names_table ''-I''" "\<not> names_table ''-D''" "\<not> names_table ''-i''" "\<not> names_table ''-j''"
  "\<not> names_table ''DROP''" "\<not> names_table ''FORWARD''" "\<not> names_table ''INPUT''"
  by code_simp+

lemma check_chain_op:
  "op \<in> {''-N'', ''-F'', ''-X''} \<Longrightarrow> chain_re ch \<Longrightarrow> check_iptables [op, ch] = Inr ()"
  using chain_not_table words_not_table by (auto simp: check_iptables_def)

lemma check_append: "chain_re ch \<Longrightarrow> rule_plain r \<Longrightarrow> check_iptables (''-A'' # ch # r) = Inr ()"
  using chain_not_table words_not_table by (simp add: check_iptables_def rule_plain_def)

lemma check_jump:
  assumes "op = ''-I'' \<or> op = ''-D''" "hook = ''FORWARD'' \<or> hook = ''INPUT''" "bridge_re br"
    "target = ''DROP'' \<or> chain_re target"
  shows "check_iptables (jump op hook br target) = Inr ()"
proof -
  have "no_dash br" using assms(3) by (auto simp: bridge_re_def no_dash_def has_prefix_iff)
  then have "\<not> list_ex names_table (jump op hook br target)"
    using assms chain_not_table words_not_table no_dash_no_table by (auto simp: jump_def)
  with assms show ?thesis by (auto simp: check_iptables_def jump_def)
qed

lemma accepted_chain_steps:
  assumes "chain_re ch" "\<forall>r \<in> set rs. rule_plain r" "s \<in> set (chain_steps ch rs)"
  shows "accepted (st_cmd s)"
  using assms check_chain_op [OF _ assms(1)] check_append [OF assms(1)]
  by (auto simp: chain_steps_def tolerate_def fatal_def accepted_iff)

lemma accepted_egress:
  assumes "hex_run n cid" "0 < n" "hex_run k nid" "12 \<le> k" "no_dash dns"
    and "c \<in> set (map st_cmd (egress_steps (chain_name cid) (bridge_iface nid) dns ips op))
           \<union> set (remove_cmds (chain_name cid) (bridge_iface nid))"
  shows "accepted c"
proof -
  note ch = chain_name_ok [OF assms(1,2)] and br = bridge_ok [OF assms(3,4)]
  have j: "accepted (ipt (jump op' hook (bridge_iface nid) t))" "accepted (ipt6 (jump op' hook (bridge_iface nid) t))"
    if "op' = ''-I'' \<or> op' = ''-D''" "hook = ''FORWARD'' \<or> hook = ''INPUT''" "t = ''DROP'' \<or> chain_re t" for op' hook t
    using check_jump [OF that(1,2) br that(3)] by (simp_all add: accepted_iff)
  have x: "accepted (ipt [op', t])" if "op' \<in> {''-F'', ''-X''}" "chain_re t" for op' t
    using check_chain_op [OF _ that(2), of op'] that(1) by (auto simp: accepted_iff)
  from assms(6) show ?thesis
  proof
    assume "c \<in> set (remove_cmds (chain_name cid) (bridge_iface nid))"
    then show ?thesis using j ch x unfolding remove_cmds_def by auto
  next
    assume "c \<in> set (map st_cmd (egress_steps (chain_name cid) (bridge_iface nid) dns ips op))"
    then obtain s where s: "s \<in> set (egress_steps (chain_name cid) (bridge_iface nid) dns ips op)" "c = st_cmd s"
      by auto
    note a = accepted_chain_steps [OF ch(1), of "forward_rules dns ips op" s]
      accepted_chain_steps [OF ch(2), of "input_rules dns" s]
    have pl: "\<forall>r \<in> set (forward_rules dns ips op). rule_plain r" "\<forall>r \<in> set (input_rules dns). rule_plain r"
      using rule_plain_forward [OF assms(5)] rule_plain_input [OF assms(5)] by blast+
    from s(1) consider "s \<in> set (chain_steps (chain_name cid) (forward_rules dns ips op))"
      | "s \<in> set (chain_steps (input_chain (chain_name cid)) (input_rules dns))"
      | "st_cmd s = ipt (jump ''-I'' ''FORWARD'' (bridge_iface nid) (chain_name cid))"
      | "st_cmd s = ipt (jump ''-I'' ''INPUT'' (bridge_iface nid) (input_chain (chain_name cid)))"
      | "st_cmd s = ipt6 (jump ''-I'' ''FORWARD'' (bridge_iface nid) ''DROP'')"
      unfolding egress_steps_def by (auto simp: tolerate_def)
    then show ?thesis using a pl j ch s(2) by cases auto
  qed
qed

section \<open>Events of a creation\<close>

lemma apply_egress_cmds:
  assumes "c \<in> set (snd (apply_egress env [] chain iface dns ips op))"
  shows "no_dash dns \<and> c \<in> set (map st_cmd (egress_steps chain iface dns ips op))"
proof -
  have "parse_ip dns \<noteq> None" using assms by (auto simp: apply_egress_def split: if_splits)
  moreover obtain k where "snd (apply_egress env [] chain iface dns ips op) =
      take k (map st_cmd (egress_steps chain iface dns ips op))"
    using apply_egress_prefix [of env "[]" chain iface dns ips op] by auto
  ultimately show ?thesis using assms parse_ip_no_dash by (auto dest: in_set_takeD)
qed

lemma setup_network_events:
  assumes "setup_network e c = (r, evs)"
  shows "set evs \<subseteq> {EvNetCreate (net_name c)} \<union> range EvNetInspect \<union> range EvNetRemove"
    "\<forall>mode nid gw. r = Inr (mode, Some (nid, gw)) \<longrightarrow>
       se_net_id e = Some nid \<and> mode = net_name c \<and> evs = [EvNetCreate (net_name c), EvNetInspect nid] \<and>
       se_egress e \<and> (sc_hosts c \<noteq> [] \<or> open_internet e c)"
    "\<forall>mode. r = Inr (mode, None) \<longrightarrow> evs = [] \<and> mode \<in> {''none'', ''bridge''}"
  using assms by (auto simp: setup_network_def split: if_splits option.splits)

lemma create_sandbox_cases:
  assumes "create_sandbox cl e c = (r, evs)"
  obtains (early) err where "r = Inl err" "evs = []"
  | (network) err where "setup_network e c = (Inl err, evs)" "r = Inl err"
  | (launch) mode net evs1 evs2 where "setup_network e c = (Inr (mode, net), evs1)"
      "launch cl e c mode net = (r, evs2)" "evs = evs1 @ evs2"
proof -
  consider "se_verify e = None" | "se_exists e = None" "se_verify e \<noteq> None"
    | p where "se_exists e = Some p" "se_verify e \<noteq> None" by fastforce
  then show ?thesis
  proof cases
    case 3
    show ?thesis
    proof (cases "\<not> p \<and> \<not> se_pull_ok e")
      case True
      with 3 assms show ?thesis by (auto simp: create_sandbox_def intro: that)
    next
      case False
      obtain sr evs1 where s: "setup_network e c = (sr, evs1)" by fastforce
      show ?thesis
      proof (cases sr)
        case (Inl err)
        with 3 False s assms have "r = Inl err" "evs = evs1" by (auto simp: create_sandbox_def)
        with s Inl show ?thesis by (intro network) auto
      next
        case (Inr mn)
        obtain mode net where mn: "mn = (mode, net)" by fastforce
        obtain lr evs2 where l: "launch cl e c mode net = (lr, evs2)" by fastforce
        with 3 False s Inr mn assms have "r = lr" "evs = evs1 @ evs2" by (auto simp: create_sandbox_def)
        with s Inr mn l show ?thesis by (intro launch) auto
      qed
    qed
  qed (use assms in \<open>auto simp: create_sandbox_def intro: that\<close>)
qed

text \<open>The launch phase, with a dedicated network and without.\<close>

lemma launch_plain:
  assumes "launch cl e c mode None = (r, evs)"
  obtains (overflow) "r = Inl MemoryOverflow" "evs = []"
  | (failed) "r = Inl CtrCreateFailed" "se_ctr_id e = None"
      "evs = [EvCtrCreate (sandbox_body cl e c mode None) (sandbox_limits e c) (sc_name c)]"
  | (created) cid evs' where "se_ctr_id e = Some cid" "start_container e cid None = (r, evs')"
      "evs = EvCtrCreate (sandbox_body cl e c mode None) (sandbox_limits e c) (sc_name c) # evs'"
  using assms by (cases "se_ctr_id e") (auto simp: launch_def Let_def split: if_splits prod.splits)

lemma launch_dedicated:
  assumes "launch cl e c mode (Some (nid, gw)) = (r, evs)"
  obtains (overflow) "r = Inl MemoryOverflow" "evs = []"
  | (failed) "r = Inl CtrCreateFailed" "se_ctr_id e = None"
      "evs = [EvCtrCreate (sandbox_body cl e c mode (Some (nid, gw))) (sandbox_limits e c) (sc_name c),
              EvNetRemove nid]"
  | (refused) cid err evs' where "se_ctr_id e = Some cid" "apply_policy e c cid nid gw = (Some err, evs')"
      "r = Inl err"
      "evs = EvCtrCreate (sandbox_body cl e c mode (Some (nid, gw))) (sandbox_limits e c) (sc_name c) # evs'"
  | (started) cid evs1 evs2 where "se_ctr_id e = Some cid" "apply_policy e c cid nid gw = (None, evs1)"
      "start_container e cid (Some (nid, gw)) = (r, evs2)"
      "evs = EvCtrCreate (sandbox_body cl e c mode (Some (nid, gw))) (sandbox_limits e c) (sc_name c)
               # evs1 @ evs2"
  using assms by (cases "se_ctr_id e") (auto simp: launch_def Let_def split: if_splits prod.splits option.splits)

lemma start_container_events:
  assumes "start_container e cid net = (r, evs)"
  shows "(r = Inr cid \<and> evs = [EvCtrStart cid]) \<or>
    (r = Inl StartFailed \<and> EvCtrRemove cid \<in> set evs \<and>
     (\<forall>nid gw. net = Some (nid, gw) \<longrightarrow> EvNetRemove nid \<in> set evs))"
  using assms by (auto simp: start_container_def split: if_splits option.splits)

lemma apply_policy_events:
  assumes "apply_policy e c cid nid gw = (bad, evs)"
  shows "bad \<noteq> None \<longrightarrow> EvCtrRemove cid \<in> set evs \<and> EvNetRemove nid \<in> set evs \<and> bad \<noteq> Some MemoryOverflow"
    "bad = None \<longrightarrow> set evs \<subseteq> range EvIpt"
    "\<forall>x. EvIpt x \<in> set evs \<longrightarrow>
       (\<exists>ips. no_dash gw \<and> x \<in> set (map st_cmd (egress_steps (chain_name cid) (bridge_iface nid) gw ips (open_internet e c))))
       \<or> x \<in> set (remove_cmds (chain_name cid) (bridge_iface nid))"
proof -
  consider err where "(if open_internet e c then Inr [] else resolve_to_ips (se_lookup e) (sc_hosts c)) = Inl err"
    | ips where "(if open_internet e c then Inr [] else resolve_to_ips (se_lookup e) (sc_hosts c)) = Inr ips"
    by (meson obj_sumE)
  then have "(bad \<noteq> None \<longrightarrow> EvCtrRemove cid \<in> set evs \<and> EvNetRemove nid \<in> set evs \<and> bad \<noteq> Some MemoryOverflow) \<and>
    (bad = None \<longrightarrow> set evs \<subseteq> range EvIpt) \<and>
    (\<forall>x. EvIpt x \<in> set evs \<longrightarrow>
       (\<exists>ips. no_dash gw \<and> x \<in> set (map st_cmd (egress_steps (chain_name cid) (bridge_iface nid) gw ips (open_internet e c))))
       \<or> x \<in> set (remove_cmds (chain_name cid) (bridge_iface nid)))"
  proof cases
    case (1 err)
    with assms show ?thesis by (auto simp: apply_policy_def)
  next
    case (2 ips)
    obtain f cs where a: "apply_egress (se_ipt e) [] (chain_name cid) (bridge_iface nid) gw ips (open_internet e c) = (f, cs)"
      by fastforce
    then have x: "no_dash gw \<and> x \<in> set (map st_cmd (egress_steps (chain_name cid) (bridge_iface nid) gw ips (open_internet e c)))"
      if "x \<in> set cs" for x
      using apply_egress_cmds [of x "se_ipt e" "chain_name cid" "bridge_iface nid" gw ips "open_internet e c"] that
      by simp
    show ?thesis
    proof (cases f)
      case None
      with assms 2 a have "bad = None" "evs = map EvIpt cs" by (simp_all add: apply_policy_def)
      then show ?thesis using x by (auto; blast)
    next
      case (Some err)
      with assms 2 a have "bad = Some (EgressFailed err)"
        "evs = map EvIpt (remove_egress cs (chain_name cid) (bridge_iface nid)) @ [EvCtrRemove cid, EvNetRemove nid]"
        by (simp_all add: apply_policy_def)
      then show ?thesis using x by (auto simp: remove_egress_def; blast)
    qed
  qed
  then show "bad \<noteq> None \<longrightarrow> EvCtrRemove cid \<in> set evs \<and> EvNetRemove nid \<in> set evs \<and> bad \<noteq> Some MemoryOverflow"
    "bad = None \<longrightarrow> set evs \<subseteq> range EvIpt"
    "\<forall>x. EvIpt x \<in> set evs \<longrightarrow>
       (\<exists>ips. no_dash gw \<and> x \<in> set (map st_cmd (egress_steps (chain_name cid) (bridge_iface nid) gw ips (open_internet e c))))
       \<or> x \<in> set (remove_cmds (chain_name cid) (bridge_iface nid))" by blast+
qed

section \<open>Properties\<close>

text \<open>
  Property C10.  The sandbox and the guard agree: when the guard runs with the client's runtime and
  seccomp profile and the mounted workspace is a session directory, every container that
  \<open>CreateSandbox\<close> asks for passes \<open>CheckCreate\<close>.
\<close>

theorem sandbox_passes_guard:
  assumes "EvCtrCreate b lim name \<in> set (snd (create_sandbox cl e c))"
    and p: "po_runtime p = cl_runtime cl" "po_seccomp p = cl_seccomp cl"
    and ws: "workspace_path p lstat (if sc_host_workspace c \<noteq> [] then sc_host_workspace c else sc_workspace c) = Inr n"
    and sid: "uuid_re (sc_session c)"
  shows "check_create p lstat (cb_managed b) (cb_host b) (cb_endpoints b) = Inr ()"
proof -
  have body: "\<exists>mode net. b = sandbox_body cl e c mode net \<and> (mode = net_name c \<or> mode \<in> {''none'', ''bridge''})"
  proof -
    obtain r evs where cs: "create_sandbox cl e c = (r, evs)" by fastforce
    from cs show ?thesis
    proof (cases rule: create_sandbox_cases)
      case (network err)
      then show ?thesis using assms(1) cs setup_network_events(1) by fastforce
    next
      case (launch mode net evs1 evs2)
      have in2: "EvCtrCreate b lim name \<in> set evs2"
        using assms(1) cs launch setup_network_events(1) [OF launch(1)] by fastforce
      have m: "mode = net_name c \<or> mode \<in> {''none'', ''bridge''}"
        using setup_network_events(2,3) [OF launch(1)] by (cases net) auto
      have st: "EvCtrCreate b' l' n' \<notin> set (snd (start_container e cid net'))" for b' l' n' cid net'
        by (auto simp: start_container_def split: option.splits)
      have "b = sandbox_body cl e c mode net"
      proof (cases net)
        case None
        with launch(2) have "launch cl e c mode None = (r, evs2)" by simp
        then show ?thesis using in2 None st [of b lim name]
          by (cases rule: launch_plain) (auto, metis snd_conv)
      next
        case (Some ng)
        obtain nid gw where ng: "ng = (nid, gw)" by fastforce
        have ap: "EvCtrCreate b' l' n' \<notin> set (snd (apply_policy e c cid nid gw))" for b' l' n' cid
          by (auto simp: apply_policy_def split: sum.splits option.splits prod.splits)
        from launch(2) Some ng have "launch cl e c mode (Some (nid, gw)) = (r, evs2)" by simp
        then show ?thesis using in2 Some ng
        proof (cases rule: launch_dedicated)
          case (refused cid err evs')
          then show ?thesis using in2 ap [of b lim name cid] Some ng by auto
        next
          case (started cid evs1 evs3)
          then show ?thesis using in2 ap [of b lim name cid] st [of b lim name cid "Some (nid, gw)"] Some ng by auto
        qed auto
      qed
      with m show ?thesis by blast
    qed (use assms(1) cs in auto)
  qed
  then obtain mode net where b: "b = sandbox_body cl e c mode net" "mode = net_name c \<or> mode \<in> {''none'', ''bridge''}"
    by blast
  have "drop (length session_net_pfx) (net_name c) = sc_session c" by (simp add: net_name_def)
  then have "session_net_re (net_name c)" using sid by (simp add: session_net_re_def net_name_def)
  then have nets: "check_network_name mode = Inr ()" using b(2) by (auto simp: check_network_name_def)
  have "check_option p x = Inr ()" if "x \<in> set (security_opts cl)" for x
  proof -
    have "x = ''no-new-privileges'' \<or> cl_seccomp cl \<noteq> [] \<and> x = ''seccomp='' @ cl_seccomp cl"
    proof (cases "cl_seccomp cl = ''default''")
      case True
      with that have "x \<in> {''no-new-privileges'', ''seccomp=default''}" by (simp add: security_opts_def)
      with True show ?thesis by auto
    next
      case False
      with that show ?thesis unfolding security_opts_def by (cases "cl_seccomp cl = []") simp_all
    qed
    then show ?thesis
    proof
      assume "x = ''no-new-privileges''"
      then show ?thesis by (simp add: check_option_def nnp_opt_def)
    next
      assume x: "cl_seccomp cl \<noteq> [] \<and> x = ''seccomp='' @ cl_seccomp cl"
      then have "\<not> nnp_opt x" "seccomp_opt x" "drop 8 x = cl_seccomp cl"
        by (simp_all add: nnp_opt_def seccomp_opt_def has_prefix_def)
      with x p(2) show ?thesis by (simp add: check_option_def)
    qed
  qed
  then have sec: "check_security_opt p (security_opts cl) = Inr ()"
    by (simp add: check_security_opt_def rbind_eq_Inr check_all_Inr) (simp add: security_opts_def nnp_opt_def)
  have mts: "check_mount p lstat m = Inr ()" if "m \<in> set (sandbox_mounts e c)" for m
    using that ws by (auto simp: sandbox_mounts_def check_mount_def supervisor_mount_def tools_volume_def split: if_splits)
  have "host_config_problem p (sandbox_host cl e c mode) = None"
    using p(1) by (simp add: host_config_problem_def sandbox_host_def)
  then show ?thesis
    using nets sec mts b(1)
    by (simp add: check_create_def sandbox_body_def check_all_Inr rbind_eq_Inr) (simp add: sandbox_host_def check_all_Inr)
qed

end
