(* ===== verification/SandboxRuns.thy ===== *)
theory SandboxRuns
  imports SandboxProps
begin

text \<open>
  Properties of a whole sandbox creation: the firewall commands pass the guard, the order of events of
  a successful creation, the rules in force when the container starts, and the clean-up of a failed
  one.
\<close>

section \<open>A concrete creation\<close>

definition demo_uuid :: string where
  "demo_uuid = ''01234567-89ab-cdef-0123-456789abcdef''"

definition demo_config :: sb_config where
  "demo_config =
     \<lparr>sc_session = demo_uuid, sc_image = ''python'', sc_workspace = ''/ws/'' @ demo_uuid,
      sc_host_workspace = ''/ws/'' @ demo_uuid, sc_network = True, sc_memory_mb = 512, sc_name = ''s'',
      sc_hosts = [], sc_allow_private = False, sc_gpu = []\<rparr>"

definition demo_client :: sb_client where
  "demo_client = \<lparr>cl_seccomp = ''default'', cl_runtime = ''runsc''\<rparr>"

definition demo_env :: sb_env where
  "demo_env =
     \<lparr>se_verify = Some ''python@sha256'', se_exists = Some True, se_pull_ok = True, se_egress = True,
      se_net_id = Some (replicate 64 CHR ''a''), se_gateways = Some [''172.18.0.1''], se_supervisor = True,
      se_lookup = (\<lambda>_. LookupFailed), se_ctr_id = Some (replicate 64 CHR ''b''), se_ipt = (\<lambda>_ _. None),
      se_start_ok = True\<rparr>"

lemma demo_gateway: "parse_ip ''172.18.0.1'' = Some (V4 2886860801)"
  by (simp add: parse_ip_def ip_eval)

lemma run_steps_all_ok: "run_steps (\<lambda>_ _. None) sofar ss = (None, sofar @ map st_cmd ss)"
  by (induction ss arbitrary: sofar) auto

lemma demo_created:
  "fst (create_sandbox demo_client demo_env demo_config) = Inr (replicate 64 CHR ''b'')"
proof -
  have n: "name_re (chain_name (replicate 64 CHR ''b''))" "name_re (bridge_iface (replicate 64 CHR ''a''))" by code_simp+
  have o: "open_internet demo_env demo_config" by (simp add: open_internet_def demo_env_def demo_config_def)
  have m: "\<not> memory_bytes 512 < 0" by (simp add: memory_bytes_def wrap64_def)
  have "fst (apply_policy demo_env demo_config (replicate 64 CHR ''b'') (replicate 64 CHR ''a'') ''172.18.0.1'') = None"
    using n o demo_gateway by (simp add: apply_policy_def apply_egress_def demo_env_def run_steps_all_ok)
  then obtain evs where a: "apply_policy demo_env demo_config (replicate 64 CHR ''b'') (replicate 64 CHR ''a'') ''172.18.0.1'' = (None, evs)"
    by (metis prod.collapse)
  have s: "setup_network demo_env demo_config =
     (Inr (net_name demo_config, Some (replicate 64 CHR ''a'', ''172.18.0.1'')),
      [EvNetCreate (net_name demo_config), EvNetInspect (replicate 64 CHR ''a'')])"
    using o by (simp add: setup_network_def demo_config_def demo_env_def)
  have e: "se_verify demo_env = Some ''python@sha256''" "se_exists demo_env = Some True"
    "se_ctr_id demo_env = Some (replicate 64 CHR ''b'')" "se_start_ok demo_env" "sc_memory_mb demo_config = 512"
    by (simp_all add: demo_env_def demo_config_def)
  show ?thesis using a s m by (simp add: create_sandbox_def e launch_def start_container_def)
qed

lemma demo_creates:
  assumes "fst (create_sandbox cl e c) = Inr cid"
  shows "\<exists>b lim name. EvCtrCreate b lim name \<in> set (snd (create_sandbox cl e c))"
proof -
  obtain evs where "create_sandbox cl e c = (Inr cid, evs)" using assms by (metis prod.collapse)
  then show ?thesis
  proof (cases rule: create_sandbox_cases)
    case (launch mode net evs1 evs2)
    then have "EvCtrCreate (sandbox_body cl e c mode net) (sandbox_limits e c) (sc_name c) \<in> set evs"
      by (cases "se_ctr_id e") (auto simp: launch_def Let_def split: if_splits prod.splits option.splits)
    then show ?thesis using \<open>create_sandbox cl e c = (Inr cid, evs)\<close> by auto
  qed auto
qed

lemma sandbox_passes_guard_witness:
  "\<exists>b lim name. EvCtrCreate b lim name \<in> set (snd (create_sandbox demo_client demo_env demo_config)) \<and>
     check_create (demo_policy\<lparr>po_runtime := ''runsc''\<rparr>) (\<lambda>_. Some Directory)
       (cb_managed b) (cb_host b) (cb_endpoints b) = Inr ()"
proof -
  let ?p = "demo_policy\<lparr>po_runtime := ''runsc''\<rparr>"
  have "is_ok (workspace_path ?p (\<lambda>_. Some Directory) (''/ws/'' @ demo_uuid))" by code_simp
  then obtain n where n: "workspace_path ?p (\<lambda>_. Some Directory) (''/ws/'' @ demo_uuid) = Inr n"
    unfolding is_ok_iff by blast
  have u: "uuid_re (sc_session demo_config)" by code_simp
  obtain b lim name where b: "EvCtrCreate b lim name \<in> set (snd (create_sandbox demo_client demo_env demo_config))"
    using demo_created demo_creates by blast
  have "check_create ?p (\<lambda>_. Some Directory) (cb_managed b) (cb_host b) (cb_endpoints b) = Inr ()"
    by (rule sandbox_passes_guard [OF b _ _ _ u, where n = n])
      (use n in \<open>simp_all add: demo_policy_def demo_client_def demo_config_def\<close>)
  with b show ?thesis by blast
qed

text \<open>
  VaultRun's own firewall commands pass its own guard: for daemon ids in hex, every
  iptables and ip6tables command of creating (whether it succeeds or fails half way) or stopping a
  sandbox is one \<open>CheckExec\<close> accepts for the netpolicy helper.
\<close>

theorem sandbox_firewall_accepted:
  assumes "hex_run n cid" "0 < n" "hex_run k nid" "12 \<le> k"
    and "se_ctr_id e = Some cid" "se_net_id e = Some nid"
    and "EvIpt x \<in> set (snd (create_sandbox cl e c)) \<union> set (stop_sandbox (Some nid) cid)"
  shows "accepted x"
proof -
  have acc: "accepted x" if "x \<in> set (remove_cmds (chain_name cid) (bridge_iface nid)) \<or>
      (\<exists>gw ips. no_dash gw \<and> x \<in> set (map st_cmd
         (egress_steps (chain_name cid) (bridge_iface nid) gw ips (open_internet e c))))"
    using that
  proof
    assume "x \<in> set (remove_cmds (chain_name cid) (bridge_iface nid))"
    then show ?thesis
      using accepted_egress [OF assms(1-4), of "[]" x "[]" False] by (simp add: no_dash_def has_prefix_def)
  next
    assume "\<exists>gw ips. no_dash gw \<and> x \<in> set (map st_cmd
         (egress_steps (chain_name cid) (bridge_iface nid) gw ips (open_internet e c)))"
    then show ?thesis using accepted_egress [OF assms(1-4)] by blast
  qed
  from assms(7) show ?thesis
  proof
    assume "EvIpt x \<in> set (stop_sandbox (Some nid) cid)"
    then have "x \<in> set (remove_cmds (chain_name cid) (bridge_iface nid))"
      by (auto simp: stop_sandbox_def split: if_splits)
    then show ?thesis by (intro acc disjI1)
  next
    assume x: "EvIpt x \<in> set (snd (create_sandbox cl e c))"
    obtain r evs where cs: "create_sandbox cl e c = (r, evs)" by fastforce
    from cs show ?thesis
    proof (cases rule: create_sandbox_cases)
      case (network err)
      then show ?thesis using x cs setup_network_events(1) by fastforce
    next
      case (launch mode net evs1 evs2)
      have x2: "EvIpt x \<in> set evs2"
        using x cs launch(3) setup_network_events(1) [OF launch(1)] by fastforce
      have st: "y \<in> set (remove_cmds (chain_name cid) (bridge_iface nid))"
        if "start_container e cid (Some (nid, gw)) = (r', evs')" "EvIpt y \<in> set evs'" for y gw r' evs'
        using that by (auto simp: start_container_def split: if_splits)
      show ?thesis
      proof (cases net)
        case None
        with launch(2) have "launch cl e c mode None = (r, evs2)" by simp
        then show ?thesis
        proof (cases rule: launch_plain)
          case (created cid' evs')
          then show ?thesis using x2 by (auto simp: start_container_def split: if_splits)
        qed (use x2 in auto)
      next
        case (Some ng)
        obtain gw where ng: "ng = (nid, gw)"
          using setup_network_events(2) [OF launch(1)] Some assms(6) by (cases ng) auto
        from launch(2) Some ng have "launch cl e c mode (Some (nid, gw)) = (r, evs2)" by simp
        then show ?thesis
        proof (cases rule: launch_dedicated)
          case (refused cid' err evs')
          then show ?thesis using x2 assms(5) apply_policy_events(3) acc by fastforce
        next
          case (started cid' evs1' evs3)
          then have "EvIpt x \<in> set evs1' \<or> EvIpt x \<in> set evs3" using x2 by auto
          then show ?thesis using started assms(5) apply_policy_events(3) [of e c cid nid gw] st acc by fastforce
        qed (use x2 in auto)
      qed
    qed (use x cs in auto)
  qed
qed

lemma sandbox_firewall_accepted_witness:
  "{x. EvIpt x \<in> set (snd (create_sandbox demo_client demo_env demo_config))} \<subseteq> {x. accepted x}"
proof -
  have "hex_run 64 (replicate 64 CHR ''b'')" "hex_run 64 (replicate 64 CHR ''a'')"
    by (simp_all add: hex_run_def is_hex_lower_def list_all_length)
  with sandbox_firewall_accepted [of 64 "replicate 64 CHR ''b''" 64 "replicate 64 CHR ''a''" demo_env] show ?thesis
    by (auto simp: demo_env_def)
qed

section \<open>Order of a successful creation\<close>

text \<open>The rules appended to one chain, in order.\<close>

definition rule_of :: "string \<Rightarrow> sb_event \<Rightarrow> string list list" where
  "rule_of ch ev =
     (case ev of
        EvIpt c \<Rightarrow> if take 3 c = [''iptables'', ''-A'', ch] then [drop 3 c] else []
      | _ \<Rightarrow> [])"

definition chain_rules :: "string \<Rightarrow> sb_event list \<Rightarrow> string list list" where
  "chain_rules ch evs = concat (map (rule_of ch) evs)"

lemma rule_of_simps:
  "rule_of ch (EvIpt (ipt (''-A'' # c # r))) = (if c = ch then [r] else [])"
  "rule_of ch (EvIpt (ipt [''-N'', c])) = []" "rule_of ch (EvIpt (ipt [''-F'', c])) = []"
  "rule_of ch (EvIpt (ipt (jump ''-I'' hook br t))) = []"
  "rule_of ch (EvIpt (ipt6 (jump ''-I'' hook br t))) = []"
  by (simp_all add: rule_of_def ipt_def ipt6_def jump_def)

lemma chain_rules_append: "chain_rules ch (xs @ ys) = chain_rules ch xs @ chain_rules ch ys"
  by (simp add: chain_rules_def)

lemma chain_rules_appends:
  "concat (map (rule_of ch \<circ> (\<lambda>r. EvIpt (ipt (''-A'' # ch' # r)))) rs) = (if ch = ch' then rs else [])"
  by (induction rs) (simp_all add: rule_of_simps)

lemma chain_rules_steps:
  "chain_rules ch (map (EvIpt \<circ> st_cmd) (chain_steps ch' rs)) = (if ch = ch' then rs else [])"
  using chain_rules_appends [of ch ch' rs]
  by (simp add: chain_rules_def chain_steps_def fatal_def tolerate_def rule_of_simps comp_def del: map_eq_conv)

lemma chain_rules_egress:
  "chain_rules chain (map (EvIpt \<circ> st_cmd) (egress_steps chain br dns ips op)) = forward_rules dns ips op"
  "chain_rules (input_chain chain) (map (EvIpt \<circ> st_cmd) (egress_steps chain br dns ips op)) = input_rules dns"
proof -
  have ne: "chain \<noteq> input_chain chain" by (simp add: input_chain_def)
  have split: "chain_rules ch (map (EvIpt \<circ> st_cmd) (egress_steps chain br dns ips op)) =
      chain_rules ch (map (EvIpt \<circ> st_cmd) (chain_steps chain (forward_rules dns ips op))) @
      chain_rules ch (map (EvIpt \<circ> st_cmd) (chain_steps (input_chain chain) (input_rules dns)))" for ch
    unfolding egress_steps_def map_append chain_rules_append
    by (simp add: chain_rules_def rule_of_simps tolerate_def)
  show "chain_rules chain (map (EvIpt \<circ> st_cmd) (egress_steps chain br dns ips op)) = forward_rules dns ips op"
    "chain_rules (input_chain chain) (map (EvIpt \<circ> st_cmd) (egress_steps chain br dns ips op)) = input_rules dns"
    unfolding split chain_rules_steps using ne by auto
qed

text \<open>What is in force when a container with a dedicated network starts.\<close>

definition firewall_complete :: "sb_env \<Rightarrow> sb_config \<Rightarrow> string \<Rightarrow> string \<Rightarrow> string \<Rightarrow> sb_event list \<Rightarrow> bool" where
  "firewall_complete e c cid nid gw evs \<longleftrightarrow>
     (\<exists>ips. (if open_internet e c then ips = [] else resolve_to_ips (se_lookup e) (sc_hosts c) = Inr ips) \<and>
        chain_rules (chain_name cid) evs = forward_rules gw ips (open_internet e c)) \<and>
     chain_rules (input_chain (chain_name cid)) evs = input_rules gw \<and>
     EvIpt (ipt (jump ''-I'' ''FORWARD'' (bridge_iface nid) (chain_name cid))) \<in> set evs \<and>
     EvIpt (ipt (jump ''-I'' ''INPUT'' (bridge_iface nid) (input_chain (chain_name cid)))) \<in> set evs \<and>
     EvIpt (ipt6 (jump ''-I'' ''FORWARD'' (bridge_iface nid) ''DROP'')) \<in> set evs"

lemma apply_policy_complete:
  assumes "apply_policy e c cid nid gw = (None, evs)"
  shows "firewall_complete e c cid nid gw evs"
proof -
  obtain ips where ips: "(if open_internet e c then Inr [] else resolve_to_ips (se_lookup e) (sc_hosts c)) = Inr ips"
    using assms by (auto simp: apply_policy_def split: sum.splits)
  obtain f cs where a: "apply_egress (se_ipt e) [] (chain_name cid) (bridge_iface nid) gw ips (open_internet e c) = (f, cs)"
    by fastforce
  with assms ips have "f = None" "evs = map EvIpt cs"
    by (auto simp: apply_policy_def split: option.splits)
  with apply_egress_ok a have evs: "evs = map (EvIpt \<circ> st_cmd)
      (egress_steps (chain_name cid) (bridge_iface nid) gw ips (open_internet e c))" by fastforce
  have "EvIpt (ipt (jump ''-I'' ''FORWARD'' (bridge_iface nid) (chain_name cid))) \<in> set evs"
    "EvIpt (ipt (jump ''-I'' ''INPUT'' (bridge_iface nid) (input_chain (chain_name cid)))) \<in> set evs"
    "EvIpt (ipt6 (jump ''-I'' ''FORWARD'' (bridge_iface nid) ''DROP'')) \<in> set evs"
    unfolding evs egress_steps_def by (simp_all add: tolerate_def)
  moreover have "if open_internet e c then ips = [] else resolve_to_ips (se_lookup e) (sc_hosts c) = Inr ips"
    using ips by (simp split: if_splits)
  ultimately show ?thesis
    unfolding firewall_complete_def using chain_rules_egress [of "chain_name cid"] evs by blast
qed





section \<open>Clean-up of a failed creation\<close>

definition cleaned_up :: "sb_env \<Rightarrow> sb_event list \<Rightarrow> bool" where
  "cleaned_up e evs \<longleftrightarrow>
     (\<forall>n nid. EvNetCreate n \<in> set evs \<and> se_net_id e = Some nid \<longrightarrow> EvNetRemove nid \<in> set evs) \<and>
     (\<forall>b l n cid. EvCtrCreate b l n \<in> set evs \<and> se_ctr_id e = Some cid \<longrightarrow> EvCtrRemove cid \<in> set evs)"

lemma net_in_events:
  assumes "setup_network e c = (Inr (mode, net), evs1)" "evs = evs1 @ evs2" "EvNetCreate n \<in> set evs"
    "\<forall>x. EvNetCreate x \<notin> set evs2"
  shows "\<exists>nid gw. net = Some (nid, gw) \<and> se_net_id e = Some nid"
  using assms setup_network_events(2,3) [OF assms(1)] by (cases net) auto



end
