(* ===== verification/Access.thy ===== *)
theory Access
  imports Prelude "HOL-Library.AList"
begin

text \<open>
  Who is calling, and what may the caller see: \<open>internal/auth/auth.go\<close> (key validation and the
  throttled \<open>last_used_at\<close> write), \<open>cmd/api/middleware/auth.go\<close> (API keys, the SSO cookie, the
  master key), the role order of \<open>internal/models/models.go\<close> and the session and organisation
  checks of \<open>cmd/api/handlers/hub.go\<close> and \<open>orgs.go\<close>.  SHA-256 and the HMAC used to compare the
  master key are parameters; database reads are answers of type \<open>lookup\<close>.

  Properties of authentication and tenant isolation: what a served session says about the
  credentials presented, that a refusal does not reveal whether a session exists, and that
  \<open>last_used_at\<close> is written at most once per interval and key.
\<close>

section \<open>API keys\<close>

record key_row =
  k_id :: string
  k_name :: string
  k_hash :: string
  k_active :: bool
  k_expires :: "time option"
  k_revoked :: "time option"

datatype auth_error = InvalidKey | KeyExpired

definition unexpired :: "time \<Rightarrow> key_row \<Rightarrow> bool" where
  "unexpired now k = (case k_expires k of None \<Rightarrow> True | Some e \<Rightarrow> now < e)"

definition get_api_key_by_hash :: "key_row list \<Rightarrow> time \<Rightarrow> string \<Rightarrow> key_row option" where
  "get_api_key_by_hash keys db_now h =
     List.find (\<lambda>k. k_hash k = h \<and> k_active k \<and> unexpired db_now k) keys"

text \<open>The cache of \<open>last_used_at\<close> writes; times are microseconds.\<close>

type_synonym used_cache = "(string \<times> time) list"

definition last_used_interval :: time where
  "last_used_interval = 60000000"

definition max_cache_size :: nat where
  "max_cache_size = 50000"

definition prune_last_used :: "time \<Rightarrow> used_cache \<Rightarrow> used_cache" where
  "prune_last_used now cache = filter (\<lambda>(_, t). \<not> t < now - 2 * last_used_interval) cache"

text \<open>The new cache, and whether \<open>last_used_at\<close> is written to the database.\<close>

definition touch_key :: "time \<Rightarrow> string \<Rightarrow> used_cache \<Rightarrow> used_cache \<times> bool" where
  "touch_key now kid cache =
     (let due = (case map_of cache kid of
                   None \<Rightarrow> True
                 | Some last_write \<Rightarrow> now - last_write \<ge> last_used_interval)
      in if due
         then (AList.update kid now
                 (if max_cache_size \<le> length cache then prune_last_used now cache else cache), True)
         else (cache, False))"

text \<open>The clock of the database and the clock of the process are two arguments.\<close>

definition validate_key ::
  "(string \<Rightarrow> string) \<Rightarrow> key_row list \<Rightarrow> time \<Rightarrow> time \<Rightarrow> used_cache \<Rightarrow> string \<Rightarrow>
   (auth_error + key_row) \<times> used_cache \<times> bool" where
  "validate_key hash keys db_now now cache plaintext =
     (case get_api_key_by_hash keys db_now (hash plaintext) of
        None \<Rightarrow> (Inl InvalidKey, cache, False)
      | Some key \<Rightarrow>
          if (case k_expires key of None \<Rightarrow> False | Some e \<Rightarrow> e < now)
          then (Inl KeyExpired, cache, False)
          else (case touch_key now (k_id key) cache of
                  (cache', written) \<Rightarrow> (Inr key, cache', written)))"

section \<open>Authentication of a request\<close>

record auth_request =
  rq_authorization :: string
  rq_api_key :: string
  rq_client :: string
  rq_method :: string

definition bearer :: string where
  "bearer = ''Bearer ''"

definition extract_key :: "auth_request \<Rightarrow> string" where
  "extract_key rq =
     (if has_prefix (rq_authorization rq) bearer then trim_prefix (rq_authorization rq) bearer
      else rq_api_key rq)"

definition safe_method :: "string \<Rightarrow> bool" where
  "safe_method m \<longleftrightarrow> m = ''GET'' \<or> m = ''HEAD'' \<or> m = ''OPTIONS''"

definition master :: string where
  "master = ''master''"

datatype auth_result = Authenticated string string | Rejected nat

text \<open>
  The SSO cookie: \<open>None\<close> when no verifier is configured, \<open>Some None\<close> when it reports an error,
  \<open>Some (Some id)\<close> for the key identifier it returns.
\<close>

definition cookie_row :: "key_row list \<Rightarrow> time \<Rightarrow> string \<Rightarrow> key_row option" where
  "cookie_row keys db_now kid =
     List.find (\<lambda>k. k_id k = kid \<and> k_active k \<and> unexpired db_now k \<and> k_revoked k = None) keys"

definition cookie_auth :: "key_row list \<Rightarrow> time \<Rightarrow> string option option \<Rightarrow> auth_request \<Rightarrow> auth_result" where
  "cookie_auth keys db_now cookie rq =
     (case cookie of
        Some (Some kid) \<Rightarrow>
          if kid = [] then Rejected 401
          else if \<not> safe_method (rq_method rq) \<and> rq_client rq = [] then Rejected 403
          else (case cookie_row keys db_now kid of
                  Some row \<Rightarrow> Authenticated (k_id row) (k_name row)
                | None \<Rightarrow> Rejected 401)
      | _ \<Rightarrow> Rejected 401)"

definition api_key_auth ::
  "(string \<Rightarrow> string) \<Rightarrow> (string \<Rightarrow> string) \<Rightarrow> key_row list \<Rightarrow> time \<Rightarrow> time \<Rightarrow> string \<Rightarrow>
   string option option \<Rightarrow> used_cache \<Rightarrow> auth_request \<Rightarrow> auth_result \<times> used_cache \<times> bool" where
  "api_key_auth mac hash keys db_now now master_key cookie cache rq =
     (let key = extract_key rq
      in if key \<noteq> []
         then if master_key \<noteq> [] \<and> mac key = mac master_key
              then (Authenticated master master, cache, False)
              else (case validate_key hash keys db_now now cache key of
                      (Inl _, cache', written) \<Rightarrow> (Rejected 401, cache', written)
                    | (Inr row, cache', written) \<Rightarrow>
                        (Authenticated (k_id row) (k_name row), cache', written))
         else (cookie_auth keys db_now cookie rq, cache, False))"

definition require_master_key :: "string \<Rightarrow> nat + unit" where
  "require_master_key actor = (if actor \<noteq> master then Inl 403 else Inr ())"

section \<open>Roles, sessions and organisations\<close>

definition role_rank :: "string \<Rightarrow> nat" where
  "role_rank r = (if r = ''viewer'' then 1 else if r = ''executor'' then 2
                  else if r = ''admin'' then 3 else 0)"

definition role_at_least :: "string \<Rightarrow> string \<Rightarrow> bool" where
  "role_at_least have need \<longleftrightarrow> role_rank need \<le> role_rank have"

datatype 'a lookup = Found 'a | NoRows | DbError

record session_row =
  s_id :: string
  s_created_by :: string
  s_org :: "string option"
  s_stopped :: "time option"
  s_container :: "string option"
  s_status :: string
  s_workspace :: string

datatype access_error = AccessDenied | AccessFailed

type_synonym sessions = "string \<Rightarrow> session_row lookup"
type_synonym member_roles = "string \<Rightarrow> string \<Rightarrow> string lookup"

definition session_if_accessible ::
  "sessions \<Rightarrow> member_roles \<Rightarrow> string \<Rightarrow> string \<Rightarrow> string \<Rightarrow> access_error + session_row" where
  "session_if_accessible get_session member_role actor sid min_role =
     (case get_session sid of
        NoRows \<Rightarrow> Inl AccessDenied
      | DbError \<Rightarrow> Inl AccessFailed
      | Found session \<Rightarrow>
          if actor = master then Inr session
          else if s_created_by session = actor then Inr session
          else (case s_org session of
                  None \<Rightarrow> Inl AccessDenied
                | Some org \<Rightarrow>
                    (case member_role org actor of
                       Found role \<Rightarrow>
                         if role_at_least role min_role then Inr session else Inl AccessDenied
                     | _ \<Rightarrow> Inl AccessDenied)))"

text \<open>The status code written when access is refused.\<close>

definition check_session_access ::
  "sessions \<Rightarrow> member_roles \<Rightarrow> string \<Rightarrow> string \<Rightarrow> string \<Rightarrow> nat + session_row" where
  "check_session_access get_session member_role actor sid min_role =
     (case session_if_accessible get_session member_role actor sid min_role of
        Inl AccessDenied \<Rightarrow> Inl 404
      | Inl AccessFailed \<Rightarrow> Inl 500
      | Inr session \<Rightarrow> Inr session)"

definition require_org_access ::
  "(string \<Rightarrow> 'org lookup) \<Rightarrow> member_roles \<Rightarrow> string \<Rightarrow> string \<Rightarrow> string \<Rightarrow> nat + 'org" where
  "require_org_access get_org member_role actor org min_role =
     (case get_org org of
        NoRows \<Rightarrow> Inl 404
      | DbError \<Rightarrow> Inl 500
      | Found o' \<Rightarrow>
          if actor = master then Inr o'
          else (case member_role org actor of
                  Found role \<Rightarrow>
                    if min_role \<noteq> [] \<and> \<not> role_at_least role min_role then Inl 403 else Inr o'
                | _ \<Rightarrow> Inl 404))"

section \<open>Lemmas\<close>

lemma find_SomeD: "List.find P xs = Some x \<Longrightarrow> x \<in> set xs \<and> P x"
  by (auto simp: find_Some_iff in_set_conv_nth)

text \<open>What a caller must have presented to act as the key \<open>k\<close>.\<close>

definition presents ::
  "(string \<Rightarrow> string) \<Rightarrow> time \<Rightarrow> string option option \<Rightarrow> auth_request \<Rightarrow> key_row \<Rightarrow> bool" where
  "presents hash db_now cookie rq k \<longleftrightarrow>
     k_active k \<and> unexpired db_now k \<and>
     (extract_key rq \<noteq> [] \<and> hash (extract_key rq) = k_hash k \<or>
      extract_key rq = [] \<and> cookie = Some (Some (k_id k)) \<and> k_revoked k = None \<and>
        (safe_method (rq_method rq) \<or> rq_client rq \<noteq> []))"

lemma validate_key_Inr:
  assumes "validate_key hash keys db_now now cache p = (Inr k, cache', w)"
  shows "k \<in> set keys" "k_hash k = hash p" "k_active k" "unexpired db_now k"
proof -
  from assms have "get_api_key_by_hash keys db_now (hash p) = Some k"
    by (auto simp: validate_key_def split: option.splits if_splits prod.splits)
  then show "k \<in> set keys" "k_hash k = hash p" "k_active k" "unexpired db_now k"
    by (auto simp: get_api_key_by_hash_def dest!: find_SomeD)
qed

lemma cookie_auth_ok:
  assumes "cookie_auth keys db_now cookie rq = Authenticated actor name"
  obtains k where "k \<in> set keys" "k_id k = actor" "cookie = Some (Some (k_id k))" "k_active k"
    "unexpired db_now k" "k_revoked k = None" "safe_method (rq_method rq) \<or> rq_client rq \<noteq> []"
proof -
  from assms obtain kid where kid: "cookie = Some (Some kid)"
    by (auto simp: cookie_auth_def split: option.splits)
  with assms obtain k where k: "cookie_row keys db_now kid = Some k" "actor = k_id k"
    and m: "safe_method (rq_method rq) \<or> rq_client rq \<noteq> []"
    by (auto simp: cookie_auth_def split: option.splits if_splits)
  from find_SomeD [OF k(1) [unfolded cookie_row_def]] kid k m show ?thesis
    by (intro that [of k]) auto
qed

lemma api_key_auth_ok:
  assumes "api_key_auth mac hash keys db_now now mk cookie cache rq = (Authenticated actor name, out)"
  shows "actor = master \<and> mk \<noteq> [] \<and> extract_key rq \<noteq> [] \<and> mac (extract_key rq) = mac mk \<or>
         (\<exists>k \<in> set keys. actor = k_id k \<and> presents hash db_now cookie rq k)"
proof (cases "extract_key rq = []")
  case True
  with assms have "cookie_auth keys db_now cookie rq = Authenticated actor name"
    by (simp add: api_key_auth_def)
  then obtain k where "k \<in> set keys" "k_id k = actor" "cookie = Some (Some (k_id k))" "k_active k"
    "unexpired db_now k" "k_revoked k = None" "safe_method (rq_method rq) \<or> rq_client rq \<noteq> []"
    by (rule cookie_auth_ok)
  with True show ?thesis by (auto simp: presents_def)
next
  case False
  show ?thesis
  proof (cases "mk \<noteq> [] \<and> mac (extract_key rq) = mac mk")
    case True
    with False assms show ?thesis by (simp add: api_key_auth_def)
  next
    case other: False
    obtain r cache' w where v: "validate_key hash keys db_now now cache (extract_key rq) = (r, cache', w)"
      using prod_cases3 by blast
    with assms False other obtain k where r: "r = Inr k" "actor = k_id k"
      by (auto simp: api_key_auth_def split: sum.splits)
    with validate_key_Inr [OF v [unfolded r(1)]] False show ?thesis
      by (auto simp: presents_def)
  qed
qed

text \<open>Who may see a session.\<close>

definition may_access :: "member_roles \<Rightarrow> string \<Rightarrow> string \<Rightarrow> session_row \<Rightarrow> bool" where
  "may_access member_role min_role actor s \<longleftrightarrow>
     actor = master \<or> s_created_by s = actor \<or>
     (\<exists>org role. s_org s = Some org \<and> member_role org actor = Found role \<and> role_at_least role min_role)"

lemma check_session_access_eq:
  "check_session_access get_session member_role actor sid min_role =
     (case get_session sid of
        DbError \<Rightarrow> Inl 500
      | NoRows \<Rightarrow> Inl 404
      | Found s \<Rightarrow> if may_access member_role min_role actor s then Inr s else Inl 404)"
  by (auto simp: check_session_access_def session_if_accessible_def may_access_def
           split: lookup.splits option.splits)

lemma role_at_least_trans: "role_at_least a b \<Longrightarrow> role_at_least b c \<Longrightarrow> role_at_least a c"
  by (simp add: role_at_least_def)

lemma role_order:
  "role_at_least ''admin'' ''executor''" "role_at_least ''executor'' ''viewer''"
  "\<not> role_at_least ''viewer'' ''executor''" "\<not> role_at_least ''executor'' ''admin''"
  by (simp_all add: role_at_least_def role_rank_def)

lemma may_access_mono:
  "role_at_least r r' \<Longrightarrow> may_access member_role r actor s \<Longrightarrow> may_access member_role r' actor s"
  by (auto simp: may_access_def intro: role_at_least_trans)

section \<open>Tenant isolation\<close>

text \<open>
  Property C11.  Tenant isolation, from the request to the session.  When a request that passed
  \<open>APIKeyAuth\<close> is given a session by \<open>checkSessionAccess\<close>, either it presented the configured
  master key, or it presented an active, unexpired API key of the table (in a header, or through
  a session cookie, and then with the CSRF header unless the method is safe) whose owner created
  the session or is a member, with at least the demanded role, of the organisation the session
  belongs to.  Key identifiers are UUIDs, so none is the word "master".
\<close>

theorem tenant_isolation:
  assumes auth: "api_key_auth mac hash keys db_now now mk cookie cache rq =
                   (Authenticated actor name, cache', written)"
    and served: "check_session_access get_session member_role actor sid min_role = Inr s"
    and ids: "\<forall>k \<in> set keys. k_id k \<noteq> master"
  shows "get_session sid = Found s \<and>
    (mk \<noteq> [] \<and> extract_key rq \<noteq> [] \<and> mac (extract_key rq) = mac mk \<or>
     (\<exists>k \<in> set keys. presents hash db_now cookie rq k \<and>
        (s_created_by s = k_id k \<or>
         (\<exists>org role. s_org s = Some org \<and> member_role org (k_id k) = Found role \<and>
            role_at_least role min_role))))"
proof -
  from served have found: "get_session sid = Found s" and may: "may_access member_role min_role actor s"
    by (auto simp: check_session_access_eq split: lookup.splits if_splits)
  from api_key_auth_ok [OF auth] show ?thesis
  proof
    assume "\<exists>k \<in> set keys. actor = k_id k \<and> presents hash db_now cookie rq k"
    then obtain k where k: "k \<in> set keys" "actor = k_id k" "presents hash db_now cookie rq k" by blast
    with ids have "actor \<noteq> master" by auto
    with may k found show ?thesis by (auto simp: may_access_def)
  qed (use found in auto)
qed

definition example_key :: key_row where
  "example_key = \<lparr>k_id = ''k1'', k_name = ''ci'', k_hash = ''secret'', k_active = True,
                  k_expires = Some 100, k_revoked = None\<rparr>"

definition example_session :: session_row where
  "example_session = \<lparr>s_id = ''s1'', s_created_by = ''k2'', s_org = Some ''o1'', s_stopped = None,
     s_container = Some ''c1'', s_status = ''running'', s_workspace = ''/w/s1''\<rparr>"

definition example_get :: sessions where
  "example_get sid = (if sid = ''s1'' then Found example_session else NoRows)"

definition example_roles :: member_roles where
  "example_roles org actor = (if org = ''o1'' \<and> actor = ''k1'' then Found ''executor'' else NoRows)"

definition example_request :: auth_request where
  "example_request = \<lparr>rq_authorization = ''Bearer secret'', rq_api_key = [], rq_client = [], rq_method = ''GET''\<rparr>"

lemma example_auth: "get_api_key_by_hash [example_key] 5 ''secret'' = Some example_key"
  "k_id example_key = ''k1''" "k_name example_key = ''ci''" "k_expires example_key = Some 100"
  by code_simp+

lemma tenant_isolation_witness:
  "example_get ''s1'' = Found example_session \<and>
    (''mk'' \<noteq> [] \<and> extract_key example_request \<noteq> [] \<and> extract_key example_request = ''mk'' \<or>
     (\<exists>k \<in> set [example_key]. presents (\<lambda>s. s) 5 None example_request k \<and>
        (s_created_by example_session = k_id k \<or>
         (\<exists>org role. s_org example_session = Some org \<and> example_roles org (k_id k) = Found role \<and>
            role_at_least role ''viewer''))))"
proof (rule tenant_isolation [where mac = "\<lambda>s. s"])
  show "api_key_auth (\<lambda>s. s) (\<lambda>s. s) [example_key] 5 5 ''mk'' None [] example_request =
          (Authenticated ''k1'' ''ci'', [(''k1'', 5)], True)"
    by (simp add: api_key_auth_def validate_key_def touch_key_def max_cache_size_def example_auth
          extract_key_def bearer_def has_prefix_def trim_prefix_def example_request_def)
  show "check_session_access example_get example_roles ''k1'' ''s1'' ''viewer'' = Inr example_session"
    by code_simp
  show "\<forall>k \<in> set [example_key]. k_id k \<noteq> master"
    by code_simp
qed

text \<open>
  A refusal leaks nothing.  For any session that exists but is not served, the
  caller receives exactly the answer it would have received had the session not existed, and a
  caller refused with some role demanded is refused with any higher one.
\<close>

theorem refusal_hides_session:
  assumes "\<not> is_ok (check_session_access (get_session(sid := Found s)) member_role actor sid min_role)"
  shows "check_session_access (get_session(sid := Found s)) member_role actor sid min_role =
           check_session_access (get_session(sid := NoRows)) member_role actor sid min_role \<and>
         {r. role_at_least r min_role} \<subseteq>
           {r. \<not> is_ok (check_session_access (get_session(sid := Found s)) member_role actor sid r)}"
proof -
  from assms have "\<not> may_access member_role min_role actor s"
    by (auto simp: check_session_access_eq)
  then show ?thesis
    using may_access_mono [of _ min_role member_role actor s]
    by (auto simp: check_session_access_eq)
qed

lemma refusal_hides_session_witness:
  "check_session_access (example_get(''s1'' := Found example_session)) example_roles ''k1'' ''s1'' ''admin'' =
     check_session_access (example_get(''s1'' := NoRows)) example_roles ''k1'' ''s1'' ''admin'' \<and>
   {r. role_at_least r ''admin''} \<subseteq>
     {r. \<not> is_ok (check_session_access (example_get(''s1'' := Found example_session)) example_roles ''k1'' ''s1'' r)}"
  by (rule refusal_hides_session) code_simp

text \<open>
  The comment on \<open>RoleAtLeast\<close> says that unknown role names always return false; an unknown
  demanded role is granted to everybody.
\<close>

lemma unknown_need_granted: "role_at_least have need" if "role_rank need = 0"
  using that by (simp add: role_at_least_def)

section \<open>Throttled writes\<close>

text \<open>A run of validated requests: the times at which each key's \<open>last_used_at\<close> is written.\<close>

fun touches :: "(time \<times> string) list \<Rightarrow> used_cache \<Rightarrow> (time \<times> string) list" where
  "touches [] cache = []"
| "touches ((now, kid) # rs) cache =
     (case touch_key now kid cache of
        (cache', written) \<Rightarrow> (if written then [(now, kid)] else []) @ touches rs cache')"

text \<open>Every write younger than two intervals is in the cache.\<close>

definition cache_covers :: "time \<Rightarrow> (time \<times> string) set \<Rightarrow> used_cache \<Rightarrow> bool" where
  "cache_covers now log cache \<longleftrightarrow> distinct (map fst cache) \<and>
     (\<forall>(t, kid) \<in> log. t \<le> now \<and> (now - last_used_interval < t \<longrightarrow>
        (\<exists>t'. t \<le> t' \<and> map_of cache kid = Some t')))"

lemma distinct_filter_keys: "distinct (map fst cache) \<Longrightarrow> distinct (map fst (filter P cache))"
  by (induction cache) auto

lemma map_of_filter_keep:
  "distinct (map fst cache) \<Longrightarrow> map_of cache k = Some v \<Longrightarrow> P (k, v) \<Longrightarrow> map_of (filter P cache) k = Some v"
  by (simp add: distinct_filter_keys map_of_eq_Some_iff)

lemma cache_covers_later:
  assumes "cache_covers t0 log cache" "t0 \<le> now"
  shows "cache_covers now log cache"
  unfolding cache_covers_def
proof (intro conjI ballI)
  show "distinct (map fst cache)" using assms by (simp add: cache_covers_def)
  fix x assume "x \<in> log"
  then obtain t kid where x: "x = (t, kid)" "(t, kid) \<in> log" by (cases x) auto
  then have "t \<le> t0" "t0 - last_used_interval < t \<Longrightarrow> \<exists>t'. t \<le> t' \<and> map_of cache kid = Some t'"
    using assms(1) by (auto simp: cache_covers_def)
  with assms(2) x show "case x of (t, kid) \<Rightarrow> t \<le> now \<and> (now - last_used_interval < t \<longrightarrow>
        (\<exists>t'. t \<le> t' \<and> map_of cache kid = Some t'))"
    by auto
qed

lemma touch_covers:
  assumes c: "cache_covers now log cache" and t: "touch_key now kid cache = (cache', written)"
  shows "cache_covers now (if written then insert (now, kid) log else log) cache'"
proof (cases written)
  case False
  with t have "cache' = cache" by (auto simp: touch_key_def Let_def split: if_splits)
  with c False show ?thesis by simp
next
  case True
  define base where "base = (if max_cache_size \<le> length cache then prune_last_used now cache else cache)"
  have cache': "cache' = AList.update kid now base"
    using t True by (auto simp: touch_key_def Let_def base_def split: if_splits)
  have d: "distinct (map fst cache)" using c by (simp add: cache_covers_def)
  then have db: "distinct (map fst base)"
    by (auto simp: base_def prune_last_used_def intro: distinct_filter_keys)
  have keep: "map_of base k = Some v" if "map_of cache k = Some v" "now - last_used_interval < v" for k v
    using that d map_of_filter_keep [OF d that(1), of "\<lambda>(_, t). \<not> t < now - 2 * last_used_interval"]
    by (auto simp: base_def prune_last_used_def last_used_interval_def)
  show ?thesis
    unfolding cache_covers_def
  proof (intro conjI ballI)
    show "distinct (map fst cache')" using db by (simp add: cache' distinct_update)
    fix x assume "x \<in> (if written then insert (now, kid) log else log)"
    then consider "x = (now, kid)" | t k where "x = (t, k)" "(t, k) \<in> log"
      using True by (cases x) auto
    then show "case x of (t, k) \<Rightarrow> t \<le> now \<and> (now - last_used_interval < t \<longrightarrow>
        (\<exists>t'. t \<le> t' \<and> map_of cache' k = Some t'))"
    proof cases
      case 1
      then show ?thesis by (simp add: cache' update_conv')
    next
      case 2
      then have "t \<le> now" "now - last_used_interval < t \<Longrightarrow> \<exists>t'. t \<le> t' \<and> map_of cache k = Some t'"
        using c by (auto simp: cache_covers_def)
      with keep 2 show ?thesis by (fastforce simp: cache' update_conv')
    qed
  qed
qed

lemma touches_spaced:
  assumes "cache_covers t0 log cache" "sorted (map fst rs)" "\<forall>r \<in> set rs. t0 \<le> fst r"
  shows "(\<forall>(t, kid) \<in> log. \<forall>t'. (t', kid) \<in> set (touches rs cache) \<longrightarrow> last_used_interval \<le> t' - t) \<and>
         sorted_wrt (\<lambda>(t, k) (t', k'). k = k' \<longrightarrow> last_used_interval \<le> t' - t) (touches rs cache)"
  using assms
proof (induction rs arbitrary: t0 log cache)
  case (Cons r rs)
  obtain now kid where r: "r = (now, kid)" by (cases r)
  obtain cache' written where t: "touch_key now kid cache = (cache', written)" by fastforce
  define log' where "log' = (if written then insert (now, kid) log else log)"
  have now: "t0 \<le> now" using Cons.prems(3) r by simp
  have c: "cache_covers now log cache" using cache_covers_later [OF Cons.prems(1) now] .
  then have c': "cache_covers now log' cache'" unfolding log'_def using t by (rule touch_covers)
  have rest: "sorted (map fst rs)" "\<forall>x \<in> set rs. now \<le> fst x" using Cons.prems(2) r by auto
  note IH = Cons.IH [OF c' rest]
  have due: "last_used_interval \<le> now - t" if w: "written" and l: "(t, kid) \<in> log" for t
  proof (rule ccontr)
    assume "\<not> last_used_interval \<le> now - t"
    with c l obtain t' where "t \<le> t'" "map_of cache kid = Some t'"
      by (fastforce simp: cache_covers_def)
    with t w \<open>\<not> last_used_interval \<le> now - t\<close> show False
      by (auto simp: touch_key_def Let_def split: if_splits)
  qed
  have eq: "touches (r # rs) cache = (if written then [(now, kid)] else []) @ touches rs cache'"
    by (simp add: r t)
  have sub: "log \<subseteq> log'" by (auto simp: log'_def)
  have old: "\<forall>(t, k) \<in> log. \<forall>t'. (t', k) \<in> set (touches (r # rs) cache) \<longrightarrow> last_used_interval \<le> t' - t"
    unfolding eq using conjunct1 [OF IH] sub due by (auto split: if_splits)
  have new: "written \<Longrightarrow> (t', kid) \<in> set (touches rs cache') \<Longrightarrow> last_used_interval \<le> t' - now" for t'
    using conjunct1 [OF IH] by (auto simp: log'_def)
  have "sorted_wrt (\<lambda>(t, k) (t', k'). k = k' \<longrightarrow> last_used_interval \<le> t' - t) (touches (r # rs) cache)"
    unfolding eq using conjunct2 [OF IH] new by auto
  with old show ?case by blast
qed auto

text \<open>
  The throttle of \<open>last_used_at\<close>.  Over any run of validated requests on a clock
  that does not go back, starting with an empty cache, two writes for the same key are at least
  one interval (sixty seconds) apart, although the cache is pruned when it grows past its bound.
\<close>

theorem last_used_throttled:
  assumes "sorted (map fst requests)"
  shows "sorted_wrt (\<lambda>(t, k) (t', k'). k = k' \<longrightarrow> last_used_interval \<le> t' - t) (touches requests [])"
proof (cases requests)
  case (Cons r rs)
  have "cache_covers (fst r) {} []" by (simp add: cache_covers_def)
  moreover have "\<forall>x \<in> set requests. fst r \<le> fst x" using assms Cons by auto
  ultimately show ?thesis using touches_spaced assms by blast
qed simp

definition example_touches :: "(time \<times> string) list" where
  "example_touches = [(0, ''a''), (10, ''b''), (30000000, ''a''), (60000000, ''a''), (60000010, ''b'')]"

lemma last_used_throttled_witness:
  "touches example_touches [] = [(0, ''a''), (10, ''b''), (60000000, ''a''), (60000010, ''b'')] \<and>
   sorted_wrt (\<lambda>(t, k) (t', k'). k = k' \<longrightarrow> last_used_interval \<le> t' - t) (touches example_touches [])"
proof
  show "touches example_touches [] = [(0, ''a''), (10, ''b''), (60000000, ''a''), (60000010, ''b'')]"
    by (simp add: example_touches_def touch_key_def last_used_interval_def max_cache_size_def)
  show "sorted_wrt (\<lambda>(t, k) (t', k'). k = k' \<longrightarrow> last_used_interval \<le> t' - t) (touches example_touches [])"
    by (rule last_used_throttled) (simp add: example_touches_def)
qed

end
