(* ===== verification/FilesHandler.thy ===== *)
theory FilesHandler
  imports WorkspaceFiles Access "HOL-Library.Word"
begin

text \<open>
  \<open>cmd/api/handlers/files.go\<close>: upload, download, deletion and the ZIP export of workspace files.
  A handler is a computation over the \<open>os.Root\<close> operations of \<open>WorkspaceFiles\<close> that returns the
  status code with the database and audit events it caused.  The access check is the function of
  the theory \<open>Access\<close> applied to the role the handler demands; the policy hook, the answers of
  the database and the multipart parser are parameters.

  Properties of the file handlers: nothing in a workspace is touched before the access check and
  the policy agreed, every operation stays inside the workspace, and the policy sees the path that
  the workspace uses, provided the request does not hide it in percent escapes.
\<close>

section \<open>Paths and names\<close>

datatype path_error = HasDotDot | NamesRoot

definition clean_user_path :: "string \<Rightarrow> path_error + string" where
  "clean_user_path raw =
     (case check_path raw of
        Inl _ \<Rightarrow> Inl HasDotDot
      | Inr _ \<Rightarrow>
          let cleaned = clean (slash # raw)
          in if cleaned = [slash] then Inl NamesRoot else Inr cleaned)"

text \<open>The loop of \<open>sanitizeFilename\<close> runs over runes: a multi-byte rune becomes one underscore.\<close>

definition safe_name_char :: "char \<Rightarrow> bool" where
  "safe_name_char c \<longleftrightarrow> is_alnum c \<or> c = CHR ''.'' \<or> c = CHR ''-'' \<or> c = CHR ''_''"

function sanitize_runes :: "string \<Rightarrow> string" where
  "sanitize_runes s =
     (if s = [] then []
      else (if safe_name_char (hd s) then hd s else CHR ''_'') #
           sanitize_runes (drop (fst (rune_width s)) s))"
  by pat_completeness auto
termination
proof (relation "measure length", goal_cases)
  case (2 s)
  then have "s \<noteq> []" by simp
  then have "0 < fst (rune_width s)" "0 < length s" by (auto intro: rune_width_pos)
  then show "(drop (fst (rune_width s)) s, s) \<in> measure length" by auto
qed simp

declare sanitize_runes.simps [simp del]

text \<open>\<open>strings.Trim(s, "_.") == ""\<close>: every character is in the cut set.\<close>

definition all_trimmed :: "string \<Rightarrow> bool" where
  "all_trimmed s \<longleftrightarrow> list_all (\<lambda>c. c = CHR ''_'' \<or> c = CHR ''.'') s"

definition sanitize_filename :: "string \<Rightarrow> string" where
  "sanitize_filename name =
     (if name = [] then ''file''
      else let s = sanitize_runes name
           in if s = [] \<or> all_trimmed s then ''file'' else s)"

section \<open>Events\<close>

datatype file_event =
    UpsertFile string int string        \<comment> \<open>path, size, content type\<close>
  | DeleteFileRow string
  | AuditUploaded string int
  | AuditDownloaded string
  | AuditDeleted string

text \<open>What the handler answers: a status, and for a download the disposition and content type.\<close>

datatype response = Status nat | Attachment string string

type_synonym outcome = "response \<times> file_event list"

datatype ws_reply = UploadMessage ws_error | GenericMessage

definition upload_error_message :: "ws_error \<Rightarrow> ws_reply" where
  "upload_error_message e =
     (case e of
        PathTraversal \<Rightarrow> UploadMessage e
      | ExceedsMax _ \<Rightarrow> UploadMessage e
      | SymlinkEscape \<Rightarrow> UploadMessage e
      | SymlinkTarget \<Rightarrow> UploadMessage e
      | _ \<Rightarrow> GenericMessage)"

section \<open>Upload\<close>

record upload_form =
  uf_filename :: string
  uf_size :: "64 word"
  uf_path :: string                    \<comment> \<open>the form field, empty when missing\<close>
  uf_length :: nat                     \<comment> \<open>bytes in the body of the part\<close>
  uf_type :: string                    \<comment> \<open>\<open>http.DetectContentType\<close> of the first 512 bytes\<close>
  uf_opens :: bool

record files_config =
  fc_max_file_mb :: "64 word"
  fc_max_workspace_mb :: "64 word"
  fc_default_mode :: nat

type_synonym access = "string \<Rightarrow> nat + session_row"
type_synonym policy_hook = "string \<Rightarrow> bool \<Rightarrow> bool"

definition mega :: "64 word" where
  "mega = 1024 * 1024"

text \<open>\<open>SumWorkspaceBytes\<close> answers \<open>None\<close> on a database error, which only logs.\<close>

definition over_cap :: "files_config \<Rightarrow> 64 word option \<Rightarrow> 64 word \<Rightarrow> bool" where
  "over_cap cfg used sz \<longleftrightarrow>
     0 < sint (fc_max_workspace_mb cfg) \<and>
     (case used of None \<Rightarrow> False
      | Some t \<Rightarrow> sint (fc_max_workspace_mb cfg * mega) < sint (t + sz))"

definition store_upload ::
  "env \<Rightarrow> files_config \<Rightarrow> bool \<Rightarrow> upload_form \<Rightarrow> string \<Rightarrow> (trace, outcome) state" where
  "store_upload env cfg upsert_ok form user_path = do {
     w \<leftarrow> write_file env (fc_default_mode cfg) user_path (uf_length form)
            (sint (fc_max_file_mb cfg * mega));
     case w of
       Inl _ \<Rightarrow> State_Monad.return (Status 400, [])
     | Inr n \<Rightarrow>
         let path = clean (slash # user_path);
             row = UpsertFile path n (uf_type form)
         in State_Monad.return
              (if \<not> upsert_ok then (Status 500, [row])
               else (Status 201, [row, AuditUploaded path n])) }"

definition admit_upload ::
  "files_config \<Rightarrow> policy_hook \<Rightarrow> 64 word option \<Rightarrow> upload_form \<Rightarrow> nat + string" where
  "admit_upload cfg policy used form =
     (case clean_user_path (if uf_path form = [] then uf_filename form else uf_path form) of
        Inl _ \<Rightarrow> Inl 400
      | Inr user_path \<Rightarrow>
          if over_cap cfg used (uf_size form) then Inl 413
          else if \<not> policy user_path True then Inl 403
          else if \<not> uf_opens form then Inl 500
          else Inr user_path)"

definition upload ::
  "env \<Rightarrow> files_config \<Rightarrow> access \<Rightarrow> policy_hook \<Rightarrow> 64 word option \<Rightarrow> bool \<Rightarrow> string option \<Rightarrow>
   upload_form option \<Rightarrow> (trace, outcome) state" where
  "upload env cfg access policy used upsert_ok sid form =
     (case sid of
        None \<Rightarrow> State_Monad.return (Status 400, [])
      | Some _ \<Rightarrow>
        (case access ''executor'' of
           Inl code \<Rightarrow> State_Monad.return (Status code, [])
         | Inr session \<Rightarrow>
             if s_stopped session \<noteq> None then State_Monad.return (Status 409, [])
             else (case form of
                     None \<Rightarrow> State_Monad.return (Status 400, [])
                   | Some f \<Rightarrow>
                     (case admit_upload cfg policy used f of
                        Inl code \<Rightarrow> State_Monad.return (Status code, [])
                      | Inr user_path \<Rightarrow> store_upload env cfg upsert_ok f user_path))))"

section \<open>Download and deletion\<close>

definition param_path :: "string \<Rightarrow> nat + string" where
  "param_path p =
     (if p = [] \<or> p = [slash] then Inl 400
      else case clean_user_path p of Inl _ \<Rightarrow> Inl 400 | Inr q \<Rightarrow> Inr q)"

text \<open>\<open>mime.TypeByExtension\<close> is a parameter; \<open>filepath.Ext\<close> is the suffix from the last dot.\<close>

definition path_ext :: "string \<Rightarrow> string" where
  "path_ext p =
     (let b = snd (last_slash p)
      in if CHR ''.'' \<in> set b
         then CHR ''.'' # rev (takeWhile (\<lambda>c. c \<noteq> CHR ''.'') (rev b)) else [])"

definition detect_content_type :: "(string \<Rightarrow> string) \<Rightarrow> string \<Rightarrow> string" where
  "detect_content_type type_by_ext path =
     (let ext = path_ext path
      in if ext \<noteq> [] \<and> type_by_ext ext \<noteq> [] then type_by_ext ext else ''application/octet-stream'')"

definition disposition :: "string \<Rightarrow> string" where
  "disposition user_path =
     ''attachment; filename='' @ [CHR 0x22] @ sanitize_filename (path_base user_path) @ [CHR 0x22]"

definition download ::
  "env \<Rightarrow> access \<Rightarrow> policy_hook \<Rightarrow> (string \<Rightarrow> string) \<Rightarrow> string option \<Rightarrow> string \<Rightarrow>
   (trace, outcome) state" where
  "download env access policy type_by_ext sid param =
     (case sid of
        None \<Rightarrow> State_Monad.return (Status 400, [])
      | Some _ \<Rightarrow>
        (case param_path param of
           Inl code \<Rightarrow> State_Monad.return (Status code, [])
         | Inr user_path \<Rightarrow>
           (case access ''viewer'' of
              Inl code \<Rightarrow> State_Monad.return (Status code, [])
            | Inr _ \<Rightarrow>
              if \<not> policy user_path False then State_Monad.return (Status 403, [])
              else do {
                f \<leftarrow> open_file env user_path;
                State_Monad.return
                  (case f of
                     Inl e \<Rightarrow> (Status (if e = IsDirectory then 400 else 404), [])
                   | Inr _ \<Rightarrow>
                       (Attachment (disposition user_path) (detect_content_type type_by_ext user_path),
                        [AuditDownloaded user_path])) })))"

text \<open>The answer of \<open>DeleteFile\<close>: \<open>Inr\<close> when a row was deleted.\<close>

definition delete_file ::
  "env \<Rightarrow> access \<Rightarrow> policy_hook \<Rightarrow> unit lookup \<Rightarrow> string option \<Rightarrow> string \<Rightarrow>
   (trace, outcome) state" where
  "delete_file env access policy row sid param =
     (case sid of
        None \<Rightarrow> State_Monad.return (Status 400, [])
      | Some _ \<Rightarrow>
        (case param_path param of
           Inl code \<Rightarrow> State_Monad.return (Status code, [])
         | Inr user_path \<Rightarrow>
           (case access ''executor'' of
              Inl code \<Rightarrow> State_Monad.return (Status code, [])
            | Inr _ \<Rightarrow>
              if \<not> policy user_path True then State_Monad.return (Status 403, [])
              else do {
                _ \<leftarrow> remove_path env user_path;
                State_Monad.return
                  (case row of
                     NoRows \<Rightarrow> (Status 404, [DeleteFileRow user_path])
                   | DbError \<Rightarrow> (Status 500, [DeleteFileRow user_path])
                   | Found _ \<Rightarrow> (Status 204, [DeleteFileRow user_path, AuditDeleted user_path])) })))"

section \<open>The ZIP export\<close>

text \<open>
  One entry of the walk: its name, whether the walk reported an error or a directory, the kind of
  the opened file (\<open>None\<close> when it could not be opened or stated), and whether creating the archive
  member and copying succeeded.  The result is the list of members and whether the walk ended.
\<close>

record zip_item =
  z_rel :: string
  z_skip :: bool
  z_opened :: "file_kind option"
  z_created :: bool
  z_copied :: bool

definition zip_name :: "string \<Rightarrow> string" where
  "zip_name rel = map (\<lambda>c. if c = CHR 0x5C then CHR ''_'' else c) rel"

fun workspace_zip :: "zip_item list \<Rightarrow> string list \<times> bool" where
  "workspace_zip [] = ([], True)"
| "workspace_zip (z # zs) =
     (if z_skip z \<or> z_opened z \<noteq> Some Regular then workspace_zip zs
      else if \<not> z_created z then ([], False)
      else if \<not> z_copied z then ([zip_name (z_rel z)], False)
      else (case workspace_zip zs of (ns, ok) \<Rightarrow> (zip_name (z_rel z) # ns, ok)))"

section \<open>The handlers as clients of the workspace root\<close>

named_theorems handler_defs \<open>the definitions of the file handlers\<close>
declare upload_def [handler_defs] download_def [handler_defs] delete_file_def [handler_defs]
  store_upload_def [handler_defs]

lemma emits_open_file: "emits safe_op (open_file env p)"
  unfolding open_file_def by (intro emits_intros) (auto dest: rel_path_inside)

lemma emits_remove_path: "emits safe_op (remove_path env p)"
  unfolding remove_path_def by (intro emits_intros) (auto dest: rel_path_not_root)

lemma emits_store_upload: "emits safe_op (store_upload env cfg ok f p)"
  unfolding store_upload_def Let_def
  by (intro emits_bind emits_write_file) (simp split: sum.splits)

lemma emits_upload: "emits safe_op (upload env cfg access policy used ok sid form)"
  unfolding upload_def
  by (simp add: emits_store_upload split: option.splits sum.splits)

lemma emits_download: "emits safe_op (download env access policy tbe sid param)"
  unfolding download_def
  by (auto intro!: emits_intros emits_open_file split: option.splits sum.splits)

lemma emits_delete_file: "emits safe_op (delete_file env access policy row sid param)"
  unfolding delete_file_def
  by (auto intro!: emits_intros emits_remove_path split: option.splits sum.splits)

interpretation h_upload: root_client
  "\<lambda>(cfg, access, policy, used, ok, sid, form) env. upload env cfg access policy used ok sid form"
  by unfold_locales (auto simp: emits_upload)

interpretation h_download: root_client
  "\<lambda>(access, policy, tbe, sid, param) env. download env access policy tbe sid param"
  by unfold_locales (auto simp: emits_download)

interpretation h_delete: root_client
  "\<lambda>(access, policy, row, sid, param) env. delete_file env access policy row sid param"
  by unfold_locales (auto simp: emits_delete_file)

section \<open>Gates\<close>

text \<open>
  What the first file operation of a request presupposes: access with the role, and a policy that
  allows the cleaned form of the path the request named.
\<close>

definition gated :: "access \<Rightarrow> policy_hook \<Rightarrow> string \<Rightarrow> bool \<Rightarrow> string \<Rightarrow> bool" where
  "gated access policy role w raw \<longleftrightarrow>
     is_ok (access role) \<and> (\<exists>p. clean_user_path raw = Inr p \<and> policy p w)"

definition named_path :: "upload_form \<Rightarrow> string" where
  "named_path f = (if uf_path f = [] then uf_filename f else uf_path f)"

lemma admit_upload_ok:
  "admit_upload cfg policy used f = Inr p \<Longrightarrow> clean_user_path (named_path f) = Inr p \<and> policy p True"
  unfolding admit_upload_def named_path_def [symmetric]
  by (auto split: sum.splits if_splits)

lemma admit_upload_fst: "admit_upload cfg policy used f \<noteq> Inl 201"
  unfolding admit_upload_def by (auto split: sum.splits)

lemma param_path_ok: "param_path p = Inr q \<Longrightarrow> clean_user_path p = Inr q"
  by (auto simp: param_path_def split: sum.splits if_splits)

lemma upload_gated:
  assumes "snd (run_state (upload env cfg access policy used ok sid form) tr) \<noteq> tr"
  obtains f s where "form = Some f" "access ''executor'' = Inr s" "s_stopped s = None"
    "gated access policy ''executor'' True (named_path f)"
  using assms
  by (auto simp: upload_def run_simps gated_def dest!: admit_upload_ok
      split: option.splits sum.splits if_splits)

lemma download_gated:
  "snd (run_state (download env access policy tbe sid param) tr) \<noteq> tr \<Longrightarrow>
   gated access policy ''viewer'' False param"
  by (auto simp: download_def run_simps gated_def dest!: param_path_ok
      split: option.splits sum.splits if_splits prod.splits)

lemma delete_gated:
  "snd (run_state (delete_file env access policy row sid param) tr) \<noteq> tr \<Longrightarrow>
   gated access policy ''executor'' True param"
  by (auto simp: delete_file_def run_simps gated_def dest!: param_path_ok
      split: option.splits sum.splits if_splits prod.splits)

text \<open>
  The file endpoints act only behind their gates.  Whatever the sandbox does to its
  directory meanwhile, an upload, a download or a deletion performs no operation on the workspace
  unless the caller holds the demanded role (executor to write or delete, viewer to read) and the
  policy allows the cleaned path of the request; an upload moreover needs a session that is not
  stopped; and every operation they do perform names a path inside the workspace.
\<close>

theorem file_handlers_gated:
  "(snd (run_state (upload env cfg access policy used ok sid form) []) = [] \<or>
      (\<exists>f s. form = Some f \<and> access ''executor'' = Inr s \<and> s_stopped s = None \<and>
         gated access policy ''executor'' True (named_path f))) \<and>
   (snd (run_state (download env access policy tbe sid param) []) = [] \<or>
      gated access policy ''viewer'' False param) \<and>
   (snd (run_state (delete_file env access policy row sid param) []) = [] \<or>
      gated access policy ''executor'' True param) \<and>
   list_all safe_op (snd (run_state (upload env cfg access policy used ok sid form) []) @
     snd (run_state (download env access policy tbe sid param) []) @
     snd (run_state (delete_file env access policy row sid param) []))"
proof (intro conjI)
  show "snd (run_state (upload env cfg access policy used ok sid form) []) = [] \<or>
      (\<exists>f s. form = Some f \<and> access ''executor'' = Inr s \<and> s_stopped s = None \<and>
         gated access policy ''executor'' True (named_path f))"
    using upload_gated [of env cfg access policy used ok sid form "[]"] by metis
  show "snd (run_state (download env access policy tbe sid param) []) = [] \<or>
      gated access policy ''viewer'' False param"
    using download_gated by metis
  show "snd (run_state (delete_file env access policy row sid param) []) = [] \<or>
      gated access policy ''executor'' True param"
    using delete_gated by metis
  show "list_all safe_op (snd (run_state (upload env cfg access policy used ok sid form) []) @
     snd (run_state (download env access policy tbe sid param) []) @
     snd (run_state (delete_file env access policy row sid param) []))"
    using h_upload.trace_safe [where req = "(cfg, access, policy, used, ok, sid, form)"]
      h_download.trace_safe [where req = "(access, policy, tbe, sid, param)"]
      h_delete.trace_safe [where req = "(access, policy, row, sid, param)"]
    by simp
qed

section \<open>The path the policy sees\<close>

lemma path_unescape_no_percent: "CHR ''%'' \<notin> set s \<Longrightarrow> path_unescape s = Some s"
  by (induction s) auto

lemma set_join: "set (join_with [slash] cs) \<subseteq> insert slash (\<Union> (set ` set cs))"
  by (induction "[slash]" cs rule: join_with.induct) auto

lemma set_comps: "c \<in> set (comps p) \<Longrightarrow> set c \<subseteq> set p"
proof -
  have "x \<in> set (split_on slash s) \<Longrightarrow> set x \<subseteq> set s" for x s
  proof (induction s arbitrary: x)
    case (Cons a s)
    obtain q qs where "split_on slash s = q # qs" by (metis neq_Nil_conv split_on_nonempty)
    with Cons show ?case by (fastforce split: if_splits)
  qed simp
  then show "c \<in> set (comps p) \<Longrightarrow> set c \<subseteq> set p" by (auto simp: comps_def)
qed

lemma clean_user_path_shape:
  assumes "clean_user_path raw = Inr p" "decode_fix raw = raw"
  shows "p = slash # join_with [slash] (comps raw)" "comps raw \<noteq> []" "check_path raw = Inr raw"
proof -
  from assms obtain d where d: "check_path raw = Inr d" "p = clean (slash # raw)" "p \<noteq> [slash]"
    by (auto simp: clean_user_path_def Let_def split: sum.splits if_splits)
  then show c: "check_path raw = Inr raw" using assms(2) check_path_Inr by metis
  show p: "p = slash # join_with [slash] (comps raw)"
    using d(2) clean_rooted_no_dotdot [OF check_path_comps(2) [OF c]] by simp
  with d(3) show "comps raw \<noteq> []" by auto
qed

text \<open>
  Policy rules see the canonical path, for requests without percent escapes: when
  the raw path holds no percent sign, the path given to the policy is absolute and already clean,
  and the workspace operates on exactly that path below its root.  The hypothesis is needed: see
  \<open>policy_sees_escaped_path\<close>.
\<close>

theorem policy_sees_fs_path:
  assumes "CHR ''%'' \<notin> set raw" "clean_user_path raw = Inr p"
  shows "clean p = p \<and> rel_path p = Inr (tl p) \<and> p = slash # tl p \<and> local_path (tl p)"
proof -
  have fix_raw: "decode_fix raw = raw"
    using path_unescape_no_percent [OF assms(1)] by (simp add: decode_fix_id)
  note shape = clean_user_path_shape [OF assms(2) fix_raw]
  have cp: "comps p = comps raw"
    using comps_join [of "comps raw"] comps_parts [of _ raw] by (simp add: shape(1))
  have proper: "\<forall>c \<in> set (comps raw). proper_comp c" using check_path_comps(1) [OF shape(3)] .
  have "CHR ''%'' \<notin> set p"
    using set_join [of "comps raw"] set_comps [of _ raw] assms(1) unfolding shape(1) by fastforce
  then have fix_p: "decode_fix p = p"
    using path_unescape_no_percent by (simp add: decode_fix_id)
  have "dotdot \<notin> set (split_on slash p)"
  proof -
    have "dotdot \<notin> set (comps p)" using proper cp by (auto simp: proper_comp_def)
    then show ?thesis by (simp add: comps_def)
  qed
  then have "check_path p = Inr p" using fix_p by (simp add: check_path_Inr)
  then have "rel_path p = Inr (tl p)"
    using shape(1,2) cp by (simp add: rel_path_eq)
  moreover have "clean p = p"
    using clean_rooted_no_dotdot [of "join_with [slash] (comps raw)"] shape(1) cp proper
    by (auto simp: proper_comp_def)
  moreover have "local_path (tl p)"
    unfolding local_path_def using shape(1,2) proper by auto
  ultimately show ?thesis using shape(1) by simp
qed

lemma policy_sees_fs_path_witness:
  "clean_user_path ''./a//b'' = Inr ''/a/b'' \<and> clean ''/a/b'' = ''/a/b'' \<and> rel_path ''/a/b'' = Inr ''a/b''"
proof -
  have "clean_user_path ''./a//b'' = Inr ''/a/b''" by code_simp
  with policy_sees_fs_path [of "''./a//b''" "''/a/b''"] show ?thesis by simp
qed

text \<open>
  With an escape the policy and the workspace disagree: a policy that protects \<open>/secret\<close> is asked
  about another path than the one that is written.
\<close>

definition protect_secret :: policy_hook where
  "protect_secret p w \<longleftrightarrow> \<not> has_prefix p ''/secret''"

lemma policy_sees_escaped_path:
  "clean_user_path ''%73ecret/x'' = Inr ''/%73ecret/x'' \<and>
   protect_secret ''/%73ecret/x'' True \<and>
   rel_path ''/%73ecret/x'' = Inr ''secret/x'' \<and>
   \<not> protect_secret ''/secret/x'' True"
  by code_simp

section \<open>Names in headers and archives\<close>

lemma safe_underscore: "safe_name_char CHR ''_''"
  by (simp add: safe_name_char_def)

lemma sanitize_runes_safe: "list_all safe_name_char (sanitize_runes s)"
proof (induction s rule: sanitize_runes.induct)
  case (1 s)
  show ?case
  proof (cases "s = []")
    case True
    then show ?thesis by (simp add: sanitize_runes.simps [of "[]"])
  next
    case False
    then show ?thesis
      using 1 safe_underscore by (subst sanitize_runes.simps) simp
  qed
qed

lemma safe_char_width: "safe_name_char c \<Longrightarrow> fst (rune_width (c # s)) = 1"
proof -
  assume "safe_name_char c"
  then have "in_range 0 127 c"
    by (auto simp: safe_name_char_def char_class_defs in_range_def)
  then show ?thesis by simp
qed

lemma sanitize_runes_id: "list_all safe_name_char s \<Longrightarrow> sanitize_runes s = s"
proof (induction s)
  case (Cons c s)
  then show ?case using safe_char_width [of c s] by (simp add: sanitize_runes.simps [of "c # s"])
qed (simp add: sanitize_runes.simps)

lemma sanitize_file: "sanitize_filename ''file'' = ''file''"
  by code_simp

lemma sanitize_filename_safe:
  "list_all safe_name_char (sanitize_filename n)" "\<not> all_trimmed (sanitize_filename n)"
proof -
  have f: "list_all safe_name_char ''file''" "\<not> all_trimmed ''file''" by code_simp+
  then show "list_all safe_name_char (sanitize_filename n)"
    using sanitize_runes_safe by (simp add: sanitize_filename_def Let_def)
  show "\<not> all_trimmed (sanitize_filename n)"
    using f(2) by (simp add: sanitize_filename_def Let_def)
qed

lemma sanitize_filename_idem: "sanitize_filename (sanitize_filename n) = sanitize_filename n"
proof -
  have "sanitize_filename n \<noteq> []"
    using sanitize_filename_safe(2) [of n] by (auto simp: all_trimmed_def)
  with sanitize_filename_safe [of n] show ?thesis
    by (subst sanitize_filename_def) (simp add: Let_def sanitize_runes_id)
qed

text \<open>The quoted file name of a download cannot end the header value early.\<close>

lemma disposition_quotes:
  "\<exists>n. disposition p = ''attachment; filename='' @ CHR 0x22 # n @ [CHR 0x22] \<and> list_all safe_name_char n"
  by (rule exI [of _ "sanitize_filename (path_base p)"])
    (simp add: disposition_def sanitize_filename_safe)

lemma zip_name_no_backslash: "n \<in> set (fst (workspace_zip zs)) \<Longrightarrow> CHR 0x5C \<notin> set n"
proof (induction zs)
  case (Cons z zs)
  have "CHR 0x5C \<notin> set (zip_name r)" for r by (auto simp: zip_name_def)
  with Cons show ?case by (auto split: if_splits prod.splits)
qed simp

text \<open>A stored upload: the row and the audit entry carry the bytes written, within the limit.\<close>

lemma upload_stored:
  assumes mx: "0 \<le> sint (fc_max_file_mb cfg * mega)" and acc: "is_ok (access ''executor'')"
    and r: "fst (run_state (upload env cfg access policy used ok sid form) tr) = (Status 201, evs)"
  shows "\<exists>f q. form = Some f \<and> int (uf_length f) \<le> sint (fc_max_file_mb cfg * mega) \<and>
    evs = [UpsertFile q (int (uf_length f)) (uf_type f), AuditUploaded q (int (uf_length f))]"
proof -
  have w: "run_state (write_file env dm p len (sint (fc_max_file_mb cfg * mega))) t = (Inr n, t') \<Longrightarrow>
      n = int len \<and> int len \<le> sint (fc_max_file_mb cfg * mega)" for dm p len t n t'
    using write_file_result [OF mx, of env dm p len t n] by simp
  from acc obtain s where s: "access ''executor'' = Inr s" by (auto simp: is_ok_iff)
  with r obtain f p where f: "form = Some f" "admit_upload cfg policy used f = Inr p"
    "fst (run_state (store_upload env cfg ok f p) tr) = (Status 201, evs)"
    using admit_upload_fst
    by (auto simp: upload_def run_simps split: option.splits sum.splits if_splits)
  from f(3) show ?thesis
    by (auto simp: store_upload_def Let_def run_simps f(1) dest!: w split: sum.splits if_splits prod.splits)
qed

end
