(* ===== verification/Redact.thy ===== *)
theory Redact
  imports Prelude
begin

text \<open>
  \<open>internal/secrets/redact.go\<close>: the redactor that removes injected secret values from command
  output.  A needle is kept with its first byte apart, since \<open>NewRedactor\<close> never stores an empty
  pattern.  A Go map of secrets is a list of name and value pairs in the order the iteration
  happens to take; every statement holds for all orders.

  Properties of the secret redactor: what is left in the output of a stream however it is cut into
  writes, when the stream agrees with redacting everything at once, and where it does not.
\<close>

section \<open>Base64\<close>

definition b64_char :: "bool \<Rightarrow> nat \<Rightarrow> char" where
  "b64_char url n =
     (if n < 26 then char_of (65 + n)
      else if n < 52 then char_of (71 + n)
      else if n < 62 then char_of (n - 4)
      else if n = 62 then (if url then CHR ''-'' else CHR ''+'')
      else (if url then CHR ''_'' else CHR ''/''))"

abbreviation byte :: "char \<Rightarrow> nat" where
  "byte c \<equiv> of_char c"

text \<open>\<open>base64.StdEncoding\<close>, \<open>URLEncoding\<close> and their \<open>Raw\<close> variants without padding.\<close>

fun b64_encode :: "bool \<Rightarrow> bool \<Rightarrow> string \<Rightarrow> string" where
  "b64_encode url pad (a # b # c # s) =
     b64_char url (byte a div 4) #
     b64_char url ((byte a mod 4) * 16 + byte b div 16) #
     b64_char url ((byte b mod 16) * 4 + byte c div 64) #
     b64_char url (byte c mod 64) # b64_encode url pad s"
| "b64_encode url pad [a, b] =
     [b64_char url (byte a div 4), b64_char url ((byte a mod 4) * 16 + byte b div 16),
      b64_char url ((byte b mod 16) * 4)] @ (if pad then ''='' else [])"
| "b64_encode url pad [a] =
     [b64_char url (byte a div 4), b64_char url ((byte a mod 4) * 16)] @ (if pad then ''=='' else [])"
| "b64_encode url pad [] = []"

section \<open>Building the needles\<close>

record needle =
  n_first :: char
  n_rest :: string
  n_repl :: string

definition n_pat :: "needle \<Rightarrow> string" where
  "n_pat n = n_first n # n_rest n"

definition min_redact_len :: nat where
  "min_redact_len = 4"

definition add_needle :: "string \<Rightarrow> string \<Rightarrow> needle list \<Rightarrow> needle list" where
  "add_needle name pat ns =
     (case pat of
        [] \<Rightarrow> ns
      | c # s \<Rightarrow>
          if pat \<in> set (map n_pat ns) then ns
          else ns @ [\<lparr>n_first = c, n_rest = s, n_repl = ''[REDACTED:'' @ name @ '']''\<rparr>])"

definition add_secret :: "string \<times> string \<Rightarrow> needle list \<Rightarrow> needle list" where
  "add_secret nv ns =
     (case nv of (name, val) \<Rightarrow>
        if length val < min_redact_len then ns
        else fold (add_needle name)
               [val, b64_encode False True val, b64_encode False False val,
                b64_encode True True val, b64_encode True False val] ns)"

text \<open>\<open>None\<close> is the nil redactor.  The sort is by decreasing length.\<close>

definition new_redactor :: "(string \<times> string) list \<Rightarrow> needle list option" where
  "new_redactor secrets =
     (let ns = fold add_secret secrets []
      in if ns = [] then None
         else Some (sort_key (\<lambda>n. - int (length (n_pat n))) ns))"

section \<open>Scanning\<close>

definition could_extend :: "needle list \<Rightarrow> string \<Rightarrow> bool" where
  "could_extend ns tail \<longleftrightarrow>
     list_ex (\<lambda>n. length tail < length (n_pat n) \<and> has_prefix (n_pat n) tail) ns"

definition starts :: "needle list \<Rightarrow> char \<Rightarrow> bool" where
  "starts ns c \<longleftrightarrow> list_ex (\<lambda>n. n_first n = c) ns"

function process :: "needle list \<Rightarrow> bool \<Rightarrow> string \<Rightarrow> string \<times> string" where
  "process ns final [] = ([], [])"
| "process ns final (c # s) =
     (if \<not> starts ns c then (case process ns final s of (out, rest) \<Rightarrow> (c # out, rest))
      else case List.find (\<lambda>n. has_prefix (c # s) (n_pat n)) ns of
        Some n \<Rightarrow>
          (case process ns final (drop (length (n_pat n)) (c # s)) of
             (out, rest) \<Rightarrow> (n_repl n @ out, rest))
      | None \<Rightarrow>
          if \<not> final \<and> could_extend ns (c # s) then ([], c # s)
          else (case process ns final s of (out, rest) \<Rightarrow> (c # out, rest)))"
  by pat_completeness auto
termination
  by (relation "measure (\<lambda>(_, _, s). length s)") (auto simp: n_pat_def)

declare process.simps(2) [simp del]

definition redact :: "needle list option \<Rightarrow> string \<Rightarrow> string" where
  "redact r s =
     (case r of
        None \<Rightarrow> s
      | Some ns \<Rightarrow> if s = [] then s else fst (process ns True s))"

section \<open>The writer\<close>

text \<open>
  One \<open>Write\<close>: the result (an error of the underlying writer is passed on), the new held-back tail
  and what was handed to the underlying writer.  \<open>sink_ok\<close> tells whether that write succeeds.
\<close>

definition redact_write :: "needle list \<Rightarrow> bool \<Rightarrow> string \<Rightarrow> string \<Rightarrow> (unit + nat) \<times> string \<times> string" where
  "redact_write ns sink_ok hold p =
     (case process ns False (hold @ p) of
        (out, rest) \<Rightarrow>
          (if out \<noteq> [] \<and> \<not> sink_ok then Inl () else Inr (length p), rest, out))"

definition redact_close :: "needle list \<Rightarrow> string \<Rightarrow> string" where
  "redact_close ns hold = (if hold = [] then [] else fst (process ns True hold))"

text \<open>Everything handed to the underlying writer by a sequence of writes and the final close.\<close>

fun stream :: "needle list \<Rightarrow> string \<Rightarrow> string list \<Rightarrow> string" where
  "stream ns hold [] = redact_close ns hold"
| "stream ns hold (p # ps) =
     (case redact_write ns True hold p of (_, hold', out) \<Rightarrow> out @ stream ns hold' ps)"

fun hold_after :: "needle list \<Rightarrow> string \<Rightarrow> string list \<Rightarrow> string" where
  "hold_after ns hold [] = hold"
| "hold_after ns hold (p # ps) = hold_after ns (fst (snd (redact_write ns True hold p))) ps"

definition redacted_stream :: "needle list option \<Rightarrow> string list \<Rightarrow> string" where
  "redacted_stream r ps = (case r of None \<Rightarrow> concat ps | Some ns \<Rightarrow> stream ns [] ps)"

section \<open>Specification\<close>

text \<open>
  \<open>redaction P ns\<close> relates an input to an output in which occurrences of needles, chosen by
  \<open>P\<close>, are replaced, and every byte that is copied is one at which no needle starts.
\<close>

inductive redaction :: "(needle \<Rightarrow> string \<Rightarrow> bool) \<Rightarrow> needle list \<Rightarrow> string \<Rightarrow> string \<Rightarrow> bool"
  for P ns where
  done_input: "redaction P ns [] []"
| replace: "n \<in> set ns \<Longrightarrow> P n (n_pat n @ s) \<Longrightarrow> redaction P ns s out \<Longrightarrow>
    redaction P ns (n_pat n @ s) (n_repl n @ out)"
| copy: "\<forall>n \<in> set ns. \<not> has_prefix (c # s) (n_pat n) \<Longrightarrow> redaction P ns s out \<Longrightarrow>
    redaction P ns (c # s) (c # out)"

inductive_cases redaction_NilE: "redaction P ns [] out"
inductive_cases redaction_ConsE: "redaction P ns (c # s) out"

text \<open>The needle is the longest one that matches here.\<close>

definition longest_at :: "needle list \<Rightarrow> needle \<Rightarrow> string \<Rightarrow> bool" where
  "longest_at ns n s \<longleftrightarrow>
     (\<forall>m \<in> set ns. has_prefix s (n_pat m) \<longrightarrow> length (n_pat m) \<le> length (n_pat n))"

definition prefix_free :: "needle list \<Rightarrow> bool" where
  "prefix_free ns \<longleftrightarrow> (\<forall>n \<in> set ns. \<forall>m \<in> set ns. has_prefix (n_pat n) (n_pat m) \<longrightarrow> n = m)"

section \<open>Lemmas\<close>

lemma process_final_rest: "snd (process ns True s) = []"
proof (induction ns True s rule: process.induct)
  case (2 ns c s)
  then show ?case by (auto simp: process.simps(2) split: option.splits prod.splits)
qed simp

lemma not_starts_no_prefix: "\<not> starts ns c \<Longrightarrow> n \<in> set ns \<Longrightarrow> \<not> has_prefix (c # s) (n_pat n)"
  by (auto simp: starts_def list_ex_iff n_pat_def has_prefix_def)

lemma has_prefix_extend:
  "has_prefix (s @ t) p \<Longrightarrow> has_prefix s p \<or> length s < length p \<and> has_prefix p s"
proof -
  assume "has_prefix (s @ t) p"
  then have "take (length p) s @ take (length p - length s) t = p" by (simp add: has_prefix_def)
  then show ?thesis
    by (cases "length p \<le> length s") (auto simp: has_prefix_def not_le, metis append_eq_conv_conj le_eq_less_or_eq take_all)
qed

lemma has_prefix_append_split: "has_prefix s p \<Longrightarrow> s = p @ drop (length p) s"
  by (metis append_take_drop_id has_prefix_def)

lemma find_longest:
  assumes "sorted (map (\<lambda>n. - int (length (n_pat n))) ns)"
    "List.find (\<lambda>n. has_prefix s (n_pat n)) ns = Some n"
  shows "longest_at ns n s"
  using assms
proof (induction ns)
  case (Cons m ns)
  then show ?case
    by (cases "has_prefix s (n_pat m)") (auto simp: longest_at_def)
qed simp

lemma find_SomeE: "List.find Q xs = Some x \<Longrightarrow> x \<in> set xs \<and> Q x"
  by (auto simp: find_Some_iff in_set_conv_nth)

text \<open>
  The core of the proofs: whatever is redacted from the unprocessed tail with further input \<open>t\<close>
  extends the output to a redaction of the whole.
\<close>

lemma process_redaction:
  assumes "process ns final buf = (out, rest)" "redaction P ns (rest @ t) out'" "final \<Longrightarrow> t = []"
    "\<And>n s. List.find (\<lambda>m. has_prefix s (n_pat m)) ns = Some n \<Longrightarrow> P n (s @ t)"
  shows "redaction P ns (buf @ t) (out @ out')"
  using assms
proof (induction ns final buf arbitrary: out rest rule: process.induct)
  case (2 ns final c s)
  note tail = "2.prems"(2) and fin = "2.prems"(3) and sel = "2.prems"(4)
  have copied: "redaction P ns ((c # s) @ t) (out @ out')"
    if p: "process ns final s = (o1, rest)" "out = c # o1"
      and none: "\<forall>n \<in> set ns. \<not> has_prefix (c # s @ t) (n_pat n)"
      and IH: "redaction P ns (s @ t) (o1 @ out')" for o1
    using redaction.copy [where P = P, OF none IH] p(2) by simp
  show ?case
  proof (cases "starts ns c")
    case False
    obtain o1 where p: "process ns final s = (o1, rest)" "out = c # o1"
      using "2.prems"(1) False by (auto simp: process.simps(2) split: prod.splits)
    show ?thesis
      using copied [OF p] not_starts_no_prefix [OF False] "2.IH"(1) [OF False p(1) tail fin sel] by simp
  next
    case st: True
    show ?thesis
    proof (cases "List.find (\<lambda>n. has_prefix (c # s) (n_pat n)) ns")
      case (Some n)
      let ?s = "drop (length (n_pat n)) (c # s)"
      obtain o1 where p: "process ns final ?s = (o1, rest)" "out = n_repl n @ o1"
        using "2.prems"(1) st Some by (auto simp: process.simps(2) split: prod.splits)
      have n: "n \<in> set ns" "c # s = n_pat n @ ?s"
        using find_SomeE [OF Some] has_prefix_append_split by blast+
      have IH: "redaction P ns (?s @ t) (o1 @ out')"
        using "2.IH"(3) [OF _ Some p(1) tail fin sel] st by simp
      have "redaction P ns (n_pat n @ ?s @ t) (n_repl n @ o1 @ out')"
        using redaction.replace [OF n(1) _ IH] sel [OF Some] n(2) by (metis append.assoc)
      then show ?thesis using p(2) n(2) by (metis append.assoc)
    next
      case None
      then have no: "\<forall>n \<in> set ns. \<not> has_prefix (c # s) (n_pat n)"
        by (simp add: find_None_iff)
      show ?thesis
      proof (cases "\<not> final \<and> could_extend ns (c # s)")
        case True
        then show ?thesis
          using "2.prems"(1,2) st None by (simp add: process.simps(2))
      next
        case False
        obtain o1 where p: "process ns final s = (o1, rest)" "out = c # o1"
          using "2.prems"(1) st None False by (auto simp: process.simps(2) split: prod.splits)
        have "\<forall>n \<in> set ns. \<not> has_prefix (c # s @ t) (n_pat n)"
        proof (cases final)
          case True
          with fin no show ?thesis by simp
        next
          case nf: False
          with False have "\<not> could_extend ns (c # s)" by simp
          then show ?thesis
            using no has_prefix_extend [of "c # s" t]
            by (fastforce simp: could_extend_def list_ex_iff)
        qed
        then show ?thesis
          using copied [OF p] "2.IH"(2) [OF _ None False p(1) tail fin sel] st by simp
      qed
    qed
  qed
qed simp

lemma redact_redaction:
  assumes "\<And>n s. List.find (\<lambda>m. has_prefix s (n_pat m)) ns = Some n \<Longrightarrow> P n s"
  shows "redaction P ns s (fst (process ns True s))"
proof -
  have "process ns True s = (fst (process ns True s), [])"
    by (metis process_final_rest prod.collapse)
  from process_redaction [OF this, where t = "[]" and P = P and out' = "[]"] show ?thesis
    using assms redaction.done_input by simp
qed

lemma stream_redaction:
  "redaction (\<lambda>_ _. True) ns (hold @ concat ps) (stream ns hold ps)"
proof (induction ps arbitrary: hold)
  case Nil
  show ?case
    using redact_redaction [of ns "\<lambda>_ _. True" hold] redaction.done_input
    by (auto simp: redact_close_def)
next
  case (Cons p ps)
  obtain out rest where p: "process ns False (hold @ p) = (out, rest)" by fastforce
  from process_redaction [OF p Cons] show ?case
    using p by (simp add: redact_write_def)
qed

lemma process_rest:
  "process ns final buf = (out, rest) \<Longrightarrow> rest = [] \<or> could_extend ns rest"
proof (induction ns final buf arbitrary: out rest rule: process.induct)
  case (2 ns final c s)
  then show ?case
    by (auto simp: process.simps(2) split: if_splits option.splits prod.splits)
qed simp

lemma hold_after_bounded:
  "hold = [] \<or> could_extend ns hold \<Longrightarrow> hold_after ns hold ps = [] \<or> could_extend ns (hold_after ns hold ps)"
proof (induction ps arbitrary: hold)
  case (Cons p ps)
  obtain out rest where p: "process ns False (hold @ p) = (out, rest)" by fastforce
  with process_rest [OF p] Cons show ?case by (simp add: redact_write_def)
qed simp

text \<open>Without a needle that is a prefix of another, the redaction is unique.\<close>

lemma redaction_unique:
  assumes "redaction P ns s a" "redaction Q ns s b" "prefix_free ns"
  shows "a = b"
  using assms(1,2)
proof (induction arbitrary: b rule: redaction.induct)
  case done_input
  then show ?case
  proof (cases rule: redaction.cases)
    case (replace n s' o')
    then show ?thesis by (simp add: n_pat_def)
  qed auto
next
  case (replace n s out)
  from replace.prems show ?case
  proof (cases rule: redaction.cases)
    case done_input
    then show ?thesis by (simp add: n_pat_def)
  next
    case r: (replace m s' o')
    have "has_prefix (n_pat n) (n_pat m) \<or> has_prefix (n_pat m) (n_pat n)"
    proof -
      have "n_pat n @ s = n_pat m @ s'" using r(1) by simp
      then show ?thesis unfolding has_prefix_iff by (metis append_eq_append_conv2)
    qed
    with assms(3) r(3) replace.hyps(1) have "m = n" by (auto simp: prefix_free_def)
    with r replace.IH [of o'] show ?thesis by simp
  next
    case c: (copy c s' o')
    then have "\<not> has_prefix (n_pat n @ s) (n_pat n)" using replace.hyps(1) by simp
    then show ?thesis by simp
  qed
next
  case (copy c s out)
  from copy.prems show ?case
  proof (cases rule: redaction.cases)
    case r: (replace m s' o')
    then have "has_prefix (c # s) (n_pat m)" by simp
    with copy.hyps(1) r(3) show ?thesis by blast
  next
    case r: (copy o')
    with copy.IH [of o'] show ?thesis by simp
  qed
qed

text \<open>The needles are sorted by decreasing length.\<close>

lemma new_redactor_sorted:
  "new_redactor secrets = Some ns \<Longrightarrow> sorted (map (\<lambda>n. - int (length (n_pat n))) ns)"
  by (auto simp: new_redactor_def Let_def split: if_splits)


definition example_needles :: "needle list" where
  "example_needles = the (new_redactor [(''KEY'', ''abcdef'')])"

lemma example_needles: "new_redactor [(''KEY'', ''abcdef'')] = Some example_needles"
  by code_simp


text \<open>
  Property C13.  For secrets of which no needle (value or base64 form) is a prefix of another, the
  stream is redacted exactly as if it had arrived at once: the result does not depend on how the
  output was cut into writes.
\<close>

theorem stream_equals_batch:
  assumes "new_redactor secrets = Some ns" "prefix_free ns"
  shows "redacted_stream (new_redactor secrets) ps = redact (new_redactor secrets) (concat ps)"
proof -
  have "redaction (\<lambda>_ _. True) ns (concat ps) (stream ns [] ps)"
    using stream_redaction [of ns "[]" ps] by simp
  moreover have "redaction (\<lambda>_ _. True) ns (concat ps) (fst (process ns True (concat ps)))"
    by (rule redact_redaction) simp
  ultimately have "stream ns [] ps = fst (process ns True (concat ps))"
    using assms(2) by (rule redaction_unique)
  then show ?thesis
    by (cases "concat ps = []") (simp_all only: redacted_stream_def redact_def assms option.case if_False if_cancel process.simps(1) fst_conv)
qed

lemma stream_equals_batch_witness:
  "redacted_stream (new_redactor [(''KEY'', ''abcdef'')]) [''YWJ'', ''jZGVm'', ''abc''] =
     redact (new_redactor [(''KEY'', ''abcdef'')]) ''YWJjZGVmabc''"
proof -
  have "prefix_free example_needles" by code_simp
  from stream_equals_batch [OF example_needles this, of "[''YWJ'', ''jZGVm'', ''abc'']"] show ?thesis
    by simp
qed

text \<open>
  The hypothesis is needed.  When one secret is a prefix of another and a write ends between them,
  the shorter one is replaced at once and the rest of the longer one is passed through, although
  the needles are sorted so that a secret that contains a shorter one is replaced whole.
\<close>

lemma split_write_leaks_suffix:
  "redact (new_redactor [(''A'', ''pass''), (''B'', ''password1'')]) ''password1'' = ''[REDACTED:B]'' \<and>
   redacted_stream (new_redactor [(''A'', ''pass''), (''B'', ''password1'')]) [''pass'', ''word1''] =
     ''[REDACTED:A]word1''"
  by code_simp

end
