(* ===== verification/Exec.thy ===== *)
theory Exec
  imports Paths
begin

text \<open>
  \<open>internal/docker/exec.go\<close>: running a command in a sandbox.  The attach stream of the daemon is
  demultiplexed into two capped writers.  The bytes of the stream are a list; how \<open>io.CopyN\<close> cuts
  them into writes is decided by an oracle that sees how much of the stream is left, so every
  statement holds for every behaviour of the reader.  The daemon's answers are a record.
\<close>

section \<open>The capped writer\<close>

text \<open>\<open>lw_chunks\<close> collects what the underlying writer received; it accepts every write.\<close>

record limited_writer =
  lw_limit :: int
  lw_n :: int
  lw_truncated :: bool
  lw_chunks :: "string list"

definition new_writer :: "int \<Rightarrow> limited_writer" where
  "new_writer limit = \<lparr>lw_limit = limit, lw_n = 0, lw_truncated = False, lw_chunks = []\<rparr>"

definition lw_write :: "string \<Rightarrow> limited_writer \<Rightarrow> nat \<times> limited_writer" where
  "lw_write p lw =
     (let remaining = lw_limit lw - lw_n lw
      in if remaining \<le> 0 then (length p, lw\<lparr>lw_truncated := True\<rparr>)
         else let q = (if remaining < int (length p) then take (nat remaining) p else p)
              in (length q, lw\<lparr>lw_truncated := (lw_truncated lw \<or> remaining < int (length p)),
                               lw_n := lw_n lw + int (length q),
                               lw_chunks := lw_chunks lw @ [q]\<rparr>))"

section \<open>Demultiplexing\<close>

text \<open>
  \<open>io.CopyN\<close>: the rest of the stream, the writer, and whether exactly \<open>k\<close> bytes were copied.  A
  write that accepts fewer bytes than offered ends the copy (\<open>io.ErrShortWrite\<close>).
\<close>

type_synonym cuts = "nat \<Rightarrow> nat"

definition piece :: "cuts \<Rightarrow> nat \<Rightarrow> string \<Rightarrow> nat" where
  "piece rd k s = max 1 (min (rd (length s)) (min k (length s)))"

function copy_n :: "cuts \<Rightarrow> nat \<Rightarrow> string \<Rightarrow> limited_writer \<Rightarrow> string \<times> limited_writer \<times> bool" where
  "copy_n rd k s w =
     (if k = 0 then (s, w, True)
      else if s = [] then (s, w, False)
      else let m = piece rd k s
           in case lw_write (take m s) w of
                (n, w') \<Rightarrow>
                  if n \<noteq> m then (drop m s, w', False)
                  else copy_n rd (k - m) (drop m s) w')"
  by pat_completeness auto
termination
  by (relation "measure (\<lambda>(_, k, _). k)") (auto simp: piece_def)

declare copy_n.simps [simp del]

text \<open>\<open>io.Discard\<close> takes everything.\<close>

definition discard_n :: "nat \<Rightarrow> string \<Rightarrow> string \<times> bool" where
  "discard_n k s = (drop k s, k \<le> length s)"

definition be32 :: "string \<Rightarrow> nat" where
  "be32 b = foldl (\<lambda>a c. 256 * a + of_char c) 0 b"

lemma copy_n_length: "length (fst (copy_n rd k s w)) \<le> length s"
proof (induction rd k s w rule: copy_n.induct)
  case (1 rd k s w)
  show ?case
  proof (cases "k = 0 \<or> s = []")
    case True
    then show ?thesis by (auto simp: copy_n.simps [of rd k s w])
  next
    case False
    obtain n w' where w: "lw_write (take (piece rd k s) s) w = (n, w')" by fastforce
    with False have eq: "copy_n rd k s w =
        (if n \<noteq> piece rd k s then (drop (piece rd k s) s, w', False)
         else copy_n rd (k - piece rd k s) (drop (piece rd k s) s) w')"
      by (simp add: copy_n.simps [of rd k s w] Let_def)
    have "n = piece rd k s \<Longrightarrow>
        length (fst (copy_n rd (k - piece rd k s) (drop (piece rd k s) s) w')) \<le>
        length (drop (piece rd k s) s)"
      using 1 [OF _ _ refl w [symmetric]] False by simp
    with eq show ?thesis by (auto split: if_splits)
  qed
qed

lemma demux_decreases: "\<not> length s < 8 \<Longrightarrow> (rest, w', ok) = copy_n rd k (drop 8 s) w \<Longrightarrow> length rest < length s"
  using copy_n_length [of rd k "drop 8 s" w] by (metis diff_less fst_conv le_less_trans length_drop not_less not_numeral_le_zero gr_zeroI zero_less_numeral le_zero_eq)

text \<open>
  The result holds both writers, the bytes never read, and whether the stream was read to its end
  (a partial header at the end counts as the end).
\<close>

function demux :: "cuts \<Rightarrow> string \<Rightarrow> limited_writer \<Rightarrow> limited_writer \<Rightarrow>
    limited_writer \<times> limited_writer \<times> string \<times> bool" where
  "demux rd s out err =
     (if length s < 8 then (out, err, [], True)
      else let stream_type = (of_char (s ! 0) :: nat);
               k = be32 (take 4 (drop 4 s));
               body = drop 8 s
           in if stream_type = 1 then
                (case copy_n rd k body out of
                   (rest, out', ok) \<Rightarrow> if ok then demux rd rest out' err else (out', err, rest, False))
              else if stream_type = 2 then
                (case copy_n rd k body err of
                   (rest, err', ok) \<Rightarrow> if ok then demux rd rest out err' else (out, err', rest, False))
              else
                (case discard_n k body of
                   (rest, ok) \<Rightarrow> if ok then demux rd rest out err else (out, err, rest, False)))"
  by pat_completeness auto
termination
  by (relation "measure (\<lambda>(_, s, _). length s)")
    (auto simp: discard_n_def dest: demux_decreases)

declare demux.simps [simp del]

section \<open>Working directory\<close>

definition workspace_dir :: string where "workspace_dir = ''/workspace''"
definition tmp_dir :: string where "tmp_dir = ''/tmp''"

definition normalize_working_dir :: "string \<Rightarrow> string option" where
  "normalize_working_dir wd =
     (if wd = [] then Some workspace_dir
      else if \<not> rooted wd then None
      else let d = clean wd
           in if d \<noteq> workspace_dir \<and> d \<noteq> tmp_dir \<and>
                 \<not> has_prefix d (workspace_dir @ [slash]) \<and> \<not> has_prefix d (tmp_dir @ [slash])
              then None else Some d)"

section \<open>\<open>execInternal\<close>\<close>

record exec_config =
  x_container :: string
  x_command :: string
  x_args :: "string list"
  x_env :: "(string \<times> string) list"
  x_dir :: string
  x_timeout :: int            \<comment> \<open>seconds\<close>
  x_max_output :: int

record exec_result =
  e_exit :: int
  e_stdout :: string
  e_stderr :: string
  e_duration :: int           \<comment> \<open>milliseconds\<close>
  e_timed_out :: bool
  e_truncated :: bool
  e_oom :: bool
  e_memory_mb :: int

text \<open>What the daemon answers during one execution.\<close>

record exec_answers =
  a_container :: "(string \<times> bool) option"   \<comment> \<open>configured user, supervised\<close>
  a_create :: bool
  a_attach :: bool
  a_deadline :: bool                          \<comment> \<open>the wait ended before the stream\<close>
  a_duration :: int
  a_exit :: "int option"
  a_state :: "(bool \<times> int) option"            \<comment> \<open>OOM-killed, memory limit in bytes\<close>

datatype exec_error = BadWorkingDir | ExecCreateFailed | ExecAttachFailed | ExecInspectFailed

record exec_create =
  c_container :: string
  c_cmd :: "string list"
  c_env :: "string list"
  c_dir :: string
  c_user :: string

definition supervise_args :: "int \<Rightarrow> string \<Rightarrow> string list \<Rightarrow> string list" where
  "supervise_args timeout_ms command args =
     [''/.vaultrun/vr-exec'', ''-t'', int_dec timeout_ms @ ''ms'', ''--'', command] @ args"

definition exit_timeout :: int where "exit_timeout = 124"
definition exit_sigkill :: int where "exit_sigkill = 137"

definition timeout_seconds :: "exec_config \<Rightarrow> int" where
  "timeout_seconds cfg = (if x_timeout cfg \<le> 0 then 30 else x_timeout cfg)"

definition exec_request :: "string \<Rightarrow> exec_answers \<Rightarrow> exec_config \<Rightarrow> string \<Rightarrow> exec_create" where
  "exec_request sandbox_user a cfg wd =
     \<lparr>c_container = x_container cfg,
      c_cmd = (case a_container a of
                 Some (_, True) \<Rightarrow> supervise_args (timeout_seconds cfg * 1000) (x_command cfg) (x_args cfg)
               | _ \<Rightarrow> x_command cfg # x_args cfg),
      c_env = map (\<lambda>(k, v). k @ ''='' @ v) (x_env cfg),
      c_dir = wd,
      c_user = (case a_container a of
                  Some (u, _) \<Rightarrow> if u \<noteq> [] then u else sandbox_user
                | None \<Rightarrow> sandbox_user)\<rparr>"

definition supervised :: "exec_answers \<Rightarrow> bool" where
  "supervised a = (case a_container a of Some (_, b) \<Rightarrow> b | None \<Rightarrow> False)"

definition base_result :: exec_result where
  "base_result = \<lparr>e_exit = 0, e_stdout = [], e_stderr = [], e_duration = 0, e_timed_out = False,
                  e_truncated = False, e_oom = False, e_memory_mb = 0\<rparr>"

text \<open>The result of a finished stream, after the two inspections.\<close>

definition finished_result :: "exec_answers \<Rightarrow> exec_config \<Rightarrow> int \<Rightarrow> exec_result" where
  "finished_result a cfg code =
     (let r = base_result\<lparr>e_exit := code, e_duration := a_duration a,
                e_timed_out := (supervised a \<and> code = exit_timeout \<and>
                                timeout_seconds cfg * 1000 \<le> a_duration a)\<rparr>
      in case a_state a of
           None \<Rightarrow> r
         | Some (oom, memory) \<Rightarrow>
             if code = exit_sigkill then r\<lparr>e_oom := oom, e_memory_mb := memory div (1024 * 1024)\<rparr> else r)"

text \<open>
  The exec that was created (if any), the two writers and the result.  When the deadline comes
  first, \<open>stream\<close> is what had been read by then.
\<close>

definition exec_internal ::
  "string \<Rightarrow> exec_answers \<Rightarrow> cuts \<Rightarrow> string \<Rightarrow> exec_config \<Rightarrow> limited_writer \<Rightarrow> limited_writer \<Rightarrow>
   exec_create option \<times> limited_writer \<times> limited_writer \<times> (exec_error + exec_result)" where
  "exec_internal sandbox_user a rd stream cfg out err =
     (case normalize_working_dir (if x_dir cfg = [] then workspace_dir else x_dir cfg) of
        None \<Rightarrow> (None, out, err, Inl BadWorkingDir)
      | Some wd \<Rightarrow>
          let req = exec_request sandbox_user a cfg wd
          in if \<not> a_create a then (Some req, out, err, Inl ExecCreateFailed)
             else if \<not> a_attach a then (Some req, out, err, Inl ExecAttachFailed)
             else (case demux rd stream out err of
               (out', err', _, _) \<Rightarrow>
                 (Some req, out', err',
                  if a_deadline a
                  then Inr (base_result\<lparr>e_exit := - 1, e_duration := a_duration a, e_timed_out := True\<rparr>)
                  else (case a_exit a of
                          None \<Rightarrow> Inl ExecInspectFailed
                        | Some code \<Rightarrow> Inr (finished_result a cfg code)))))"

definition default_max_output :: int where
  "default_max_output = 10 * 1024 * 1024"

definition max_bytes :: "exec_config \<Rightarrow> int" where
  "max_bytes cfg = (if x_max_output cfg \<le> 0 then default_max_output else x_max_output cfg)"

text \<open>\<open>Exec\<close> buffers the output; \<open>ExecStream\<close> hands each chunk to the given writers.\<close>

definition exec_buffered ::
  "string \<Rightarrow> exec_answers \<Rightarrow> cuts \<Rightarrow> string \<Rightarrow> exec_config \<Rightarrow> exec_create option \<times> (exec_error + exec_result)" where
  "exec_buffered sandbox_user a rd stream cfg =
     (case exec_internal sandbox_user a rd stream cfg (new_writer (max_bytes cfg)) (new_writer (max_bytes cfg)) of
        (req, out, err, r) \<Rightarrow>
          (req, case r of
                  Inl e \<Rightarrow> Inl e
                | Inr res \<Rightarrow> Inr (res\<lparr>e_stdout := concat (lw_chunks out), e_stderr := concat (lw_chunks err),
                                      e_truncated := (lw_truncated out \<or> lw_truncated err)\<rparr>)))"

definition exec_stream ::
  "string \<Rightarrow> exec_answers \<Rightarrow> cuts \<Rightarrow> string \<Rightarrow> exec_config \<Rightarrow>
   exec_create option \<times> string list \<times> string list \<times> (exec_error + exec_result)" where
  "exec_stream sandbox_user a rd stream cfg =
     (case exec_internal sandbox_user a rd stream cfg (new_writer (max_bytes cfg)) (new_writer (max_bytes cfg)) of
        (req, out, err, r) \<Rightarrow>
          (req, lw_chunks out, lw_chunks err,
           case r of
             Inl e \<Rightarrow> Inl e
           | Inr res \<Rightarrow> Inr (res\<lparr>e_truncated := (lw_truncated out \<or> lw_truncated err)\<rparr>)))"

definition oom_message :: "exec_result \<Rightarrow> string" where
  "oom_message r =
     (if \<not> e_oom r then []
      else if 0 < e_memory_mb r
      then ''[vaultrun] command killed: container exceeded its memory limit ('' @ int_dec (e_memory_mb r) @
           '' MB). Create the session with a higher memory_limit_mb or reduce memory use.'' @ [CHR 0x0A]
      else ''[vaultrun] command killed: container exceeded its memory limit.'' @ [CHR 0x0A])"

text \<open>\<open>ExecSimple\<close>: the exit code decides between success and an error with both outputs.\<close>

definition exec_simple ::
  "string \<Rightarrow> exec_answers \<Rightarrow> cuts \<Rightarrow> string \<Rightarrow> string \<Rightarrow> string \<Rightarrow> string list \<Rightarrow>
   string \<times> string \<times> (exec_error + int) option" where
  "exec_simple sandbox_user a rd stream cid cmd args =
     (case snd (exec_buffered sandbox_user a rd stream
              \<lparr>x_container = cid, x_command = cmd, x_args = args, x_env = [], x_dir = [],
               x_timeout = 0, x_max_output = 0\<rparr>) of
        Inl e \<Rightarrow> ([], [], Some (Inl e))
      | Inr r \<Rightarrow> (e_stdout r, e_stderr r, if e_exit r \<noteq> 0 then Some (Inr (e_exit r)) else None))"

end
