(* ===== verification/Runner.thy ===== *)
theory Runner
  imports Exec Redact
begin

text \<open>
  \<open>internal/runner/runner.go\<close>: a command run from its validation to its record.  The runner is a
  function from the answers of its collaborators (policy, database, the execution of theory
  \<open>Exec\<close>, the workspace walks) to the run it returns and the events it causes, in order.
\<close>

section \<open>Requests, rows and events\<close>

record run_request =
  q_container :: string
  q_command :: string
  q_args :: "string list"
  q_env :: "(string \<times> string) list"
  q_secret_env :: "(string \<times> string) list"
  q_dir :: string
  q_timeout :: int
  q_actor :: string
  q_callback :: string
  q_workspace :: string

datatype run_status = Pending | Running | Completed | Failed | Timeout

record run_row =
  r_command :: string
  r_args :: "string list"
  r_env :: "(string \<times> string) list"
  r_dir :: string
  r_timeout :: int
  r_callback :: "string option"
  r_status :: run_status
  r_exit :: "int option"
  r_stdout :: "string option"
  r_stderr :: "string option"
  r_duration :: "int option"
  r_truncated :: bool

record run_update =
  u_status :: run_status
  u_exit :: "int option"
  u_stdout :: "string option"
  u_stderr :: "string option"
  u_duration :: int

datatype run_error =
    CommandRequired | EnvKeyInvalid | EnvValueInvalid | DeniedByPolicy | RecordFailed

datatype run_event =
    EvCreateRun run_row
  | EvAuditStarted string "string list"
  | EvExec exec_config
  | EvUpdateRun run_update
  | EvAuditFinished bool run_status int      \<comment> \<open>True for \<open>command.failed\<close>\<close>
  | EvUpsertArtifact string int string
  | EvCheckpoint int int string string

section \<open>Argument redaction\<close>

definition sensitive_flags :: "string list" where
  "sensitive_flags = [''--password'', ''--passwd'', ''--token'', ''--secret'', ''--api-key'',
     ''--apikey'', ''--auth'', ''--credential'', ''--private-key'']"

text \<open>\<open>strings.ToLower\<close> on ASCII; bytes of other runes are left alone.\<close>

definition to_lower :: "string \<Rightarrow> string" where
  "to_lower s = map (\<lambda>c. if is_upper c then char_of ((of_char c :: nat) + 32) else c) s"

definition stars :: string where "stars = ''***''"

text \<open>The first flag of the list that the argument matches, and whether with a value attached.\<close>

fun flag_match :: "string list \<Rightarrow> bool \<Rightarrow> string \<Rightarrow> (string \<times> bool) option" where
  "flag_match [] nxt lower = None"
| "flag_match (p # ps) nxt lower =
     (if has_prefix lower (p @ ''='') then Some (p, True)
      else if lower = p \<and> nxt then Some (p, False)
      else flag_match ps nxt lower)"

text \<open>The loop reads each argument after earlier iterations may have replaced it.\<close>

function redact_args :: "string list \<Rightarrow> string list" where
  "redact_args [] = []"
| "redact_args (a # as) =
     (case flag_match sensitive_flags (as \<noteq> []) (to_lower a) of
        None \<Rightarrow> a # redact_args as
      | Some (p, True) \<Rightarrow> (take (length p) a @ ''='' @ stars) # redact_args as
      | Some (_, False) \<Rightarrow> a # redact_args (case as of [] \<Rightarrow> [] | _ # bs \<Rightarrow> stars # bs))"
  by pat_completeness auto
termination
  by (relation "measure length") (auto split: list.splits)

declare redact_args.simps [simp del]

section \<open>\<open>prepareRun\<close>\<close>

definition bad_env_key :: "string \<Rightarrow> bool" where
  "bad_env_key k \<longleftrightarrow> list_ex (\<lambda>c. c = CHR ''='' \<or> c = CHR 0x00 \<or> c = CHR 0x0A \<or> c = CHR 0x0D) k"

definition run_timeout :: "int \<Rightarrow> int" where
  "run_timeout t = (if t \<le> 0 \<or> 3600 < t then 30 else t)"

definition new_run_row :: "run_request \<Rightarrow> run_row" where
  "new_run_row q =
     \<lparr>r_command = q_command q, r_args = q_args q, r_env = q_env q,
      r_dir = (if q_dir q = [] then workspace_dir else q_dir q),
      r_timeout = run_timeout (q_timeout q),
      r_callback = (if q_callback q \<noteq> [] then Some (q_callback q) else None),
      r_status = Pending, r_exit = None, r_stdout = None, r_stderr = None, r_duration = None,
      r_truncated = False\<rparr>"

type_synonym command_policy = "string \<Rightarrow> string list \<Rightarrow> bool"

definition prepare_run ::
  "command_policy \<Rightarrow> bool \<Rightarrow> run_request \<Rightarrow> (run_error + run_row) \<times> run_event list" where
  "prepare_run policy create_ok q =
     (if q_command q = [] then (Inl CommandRequired, [])
      else if list_ex (\<lambda>(k, _). bad_env_key k) (q_env q) then (Inl EnvKeyInvalid, [])
      else if list_ex (\<lambda>(_, v). CHR 0x00 \<in> set v) (q_env q) then (Inl EnvValueInvalid, [])
      else if \<not> policy (q_command q) (q_args q) then (Inl DeniedByPolicy, [])
      else let row = new_run_row q
           in if \<not> create_ok then (Inl RecordFailed, [EvCreateRun row])
              else (Inr row, [EvCreateRun row, EvAuditStarted (q_command q) (redact_args (q_args q))]))"

section \<open>Execution\<close>

definition max_output_bytes :: int where
  "max_output_bytes = 10 * 1024 * 1024"

text \<open>The merged environment: a secret replaces a variable of the same name.\<close>

definition exec_env :: "run_request \<Rightarrow> (string \<times> string) list" where
  "exec_env q =
     (if q_secret_env q = [] then q_env q
      else filter (\<lambda>(k, _). k \<notin> set (map fst (q_secret_env q))) (q_env q) @ q_secret_env q)"

definition run_config :: "run_request \<Rightarrow> run_row \<Rightarrow> exec_config" where
  "run_config q row =
     \<lparr>x_container = q_container q, x_command = q_command q, x_args = q_args q, x_env = exec_env q,
      x_dir = r_dir row, x_timeout = r_timeout row, x_max_output = max_output_bytes\<rparr>"

definition resolve_status :: "exec_error + exec_result \<Rightarrow> run_status" where
  "resolve_status r =
     (case r of
        Inl _ \<Rightarrow> Failed
      | Inr res \<Rightarrow> if e_timed_out res then Timeout else if e_exit res \<noteq> 0 then Failed else Completed)"

definition add_oom :: "exec_result \<Rightarrow> exec_result" where
  "add_oom res =
     (let msg = oom_message res
      in if msg = [] then res
         else if e_stderr res \<noteq> [] \<and> \<not> has_suffix (e_stderr res) [CHR 0x0A]
         then res\<lparr>e_stderr := e_stderr res @ [CHR 0x0A] @ msg\<rparr>
         else res\<lparr>e_stderr := e_stderr res @ msg\<rparr>)"

definition redact_result :: "(string \<times> string) list \<Rightarrow> exec_result \<Rightarrow> exec_result" where
  "redact_result secrets res =
     (let rd = new_redactor secrets
      in add_oom (res\<lparr>e_stdout := redact rd (e_stdout res), e_stderr := redact rd (e_stderr res)\<rparr>))"

definition audit_finished :: "run_status \<Rightarrow> int \<Rightarrow> run_event" where
  "audit_finished st dur = EvAuditFinished (st = Failed \<or> st = Timeout) st dur"

subsection \<open>Artifact detection\<close>

text \<open>One entry of a workspace walk: the path below the workspace, its time, size and type.\<close>

record walk_file =
  wf_rel :: string
  wf_mtime :: int
  wf_size :: int
  wf_symlink :: bool
  wf_type :: string           \<comment> \<open>\<open>mime.TypeByExtension\<close>\<close>

definition snapshot_dir :: "string \<Rightarrow> walk_file list \<Rightarrow> string \<rightharpoonup> int" where
  "snapshot_dir dir ws = (if dir = [] then Map.empty else map_of (rev (map (\<lambda>w. (wf_rel w, wf_mtime w)) ws)))"

definition changed :: "(string \<rightharpoonup> int) \<Rightarrow> walk_file \<Rightarrow> bool" where
  "changed pre w = (case pre (wf_rel w) of None \<Rightarrow> True | Some t \<Rightarrow> t < wf_mtime w)"

definition artifact_type :: "walk_file \<Rightarrow> string" where
  "artifact_type w =
     (if wf_symlink w then ''inode/symlink''
      else if wf_type w = [] then ''application/octet-stream'' else wf_type w)"

definition detect_artifacts :: "(string \<rightharpoonup> int) \<Rightarrow> walk_file list \<Rightarrow> run_event list" where
  "detect_artifacts pre ws =
     map (\<lambda>w. EvUpsertArtifact (slash # wf_rel w) (wf_size w) (artifact_type w)) (filter (changed pre) ws)"

subsection \<open>The runs\<close>

text \<open>What the collaborators answer after the command has ended.\<close>

record run_answers =
  ra_pre :: "walk_file list"
  ra_post :: "walk_file list"
  ra_elapsed :: int             \<comment> \<open>time since the start, used when there is no result\<close>
  ra_update_ok :: bool
  ra_reload_ok :: bool
  ra_checkpoint :: bool         \<comment> \<open>a checkpoint hook is installed\<close>

definition duration_of :: "run_answers \<Rightarrow> exec_error + exec_result \<Rightarrow> int" where
  "duration_of a r = (case r of Inl _ \<Rightarrow> ra_elapsed a | Inr res \<Rightarrow> e_duration res)"

definition apply_update :: "run_update \<Rightarrow> run_row \<Rightarrow> run_row" where
  "apply_update u row =
     row\<lparr>r_status := u_status u, r_exit := u_exit u, r_stdout := u_stdout u, r_stderr := u_stderr u,
         r_duration := Some (u_duration u)\<rparr>"

definition truncated_result :: "exec_error + exec_result \<Rightarrow> bool" where
  "truncated_result r = (case r of Inl _ \<Rightarrow> False | Inr res \<Rightarrow> e_truncated res)"

text \<open>
  The run given back: the reloaded row (the stored one, so the pending row when the update failed),
  or the in-memory row brought up to date when the reload failed.
\<close>

definition returned_run :: "run_answers \<Rightarrow> exec_error + exec_result \<Rightarrow> run_update \<Rightarrow> run_row \<Rightarrow> run_row" where
  "returned_run a r u row =
     (let stored = (if ra_update_ok a then apply_update u row else row)
      in (if ra_reload_ok a then stored else apply_update u row)
           \<lparr>r_truncated := truncated_result r\<rparr>)"

definition after_run ::
  "run_answers \<Rightarrow> run_request \<Rightarrow> run_update \<Rightarrow> run_event list" where
  "after_run a q u =
     [EvUpdateRun u, audit_finished (u_status u) (u_duration u)] @
     (if q_workspace q \<noteq> [] then detect_artifacts (snapshot_dir (q_workspace q) (ra_pre a)) (ra_post a)
      else [])"

text \<open>The update and the checkpoint of a buffered run, from its redacted result.\<close>

definition run_result_update :: "run_answers \<Rightarrow> exec_error + exec_result \<Rightarrow> run_update" where
  "run_result_update a r =
     (case r of
        Inl _ \<Rightarrow> \<lparr>u_status = resolve_status r, u_exit = None, u_stdout = None, u_stderr = None,
                  u_duration = duration_of a r\<rparr>
      | Inr res \<Rightarrow> \<lparr>u_status = resolve_status r, u_exit = Some (e_exit res), u_stdout = Some (e_stdout res),
                    u_stderr = Some (e_stderr res), u_duration = duration_of a r\<rparr>)"

definition run_checkpoint :: "run_answers \<Rightarrow> exec_error + exec_result \<Rightarrow> run_event list" where
  "run_checkpoint a r =
     (case r of
        Inl _ \<Rightarrow> []
      | Inr res \<Rightarrow>
          if ra_checkpoint a then [EvCheckpoint (e_exit res) (duration_of a r) (e_stdout res) (e_stderr res)]
          else [])"

definition execute_impl ::
  "(exec_config \<Rightarrow> exec_error + exec_result) \<Rightarrow> run_answers \<Rightarrow> run_request \<Rightarrow> run_row \<Rightarrow>
   run_row \<times> run_event list" where
  "execute_impl exec a q row =
     (let cfg = run_config q row;
          r = map_sum id (redact_result (q_secret_env q)) (exec cfg);
          u = run_result_update a r
      in (returned_run a r u row, EvExec cfg # after_run a q u @ run_checkpoint a r))"

text \<open>
  The streaming run: the chunks pass through a redacting writer each, both closed at the end, and
  the out-of-memory note follows on standard error.  The output is not stored.
\<close>

definition stream_impl ::
  "(exec_config \<Rightarrow> string list \<times> string list \<times> (exec_error + exec_result)) \<Rightarrow> run_answers \<Rightarrow>
   run_request \<Rightarrow> run_row \<Rightarrow> run_row \<times> run_event list \<times> string \<times> string" where
  "stream_impl exec a q row =
     (let cfg = run_config q row; rd = new_redactor (q_secret_env q)
      in case exec cfg of
           (out, err, r) \<Rightarrow>
             let u = (run_result_update a r)\<lparr>u_stdout := None, u_stderr := None\<rparr>
             in (returned_run a r u row, EvExec cfg # after_run a q u,
                 redacted_stream rd out,
                 redacted_stream rd err @ (case r of Inl _ \<Rightarrow> [] | Inr res \<Rightarrow> oom_message res)))"

definition execute_run ::
  "command_policy \<Rightarrow> bool \<Rightarrow> (exec_config \<Rightarrow> exec_error + exec_result) \<Rightarrow> run_answers \<Rightarrow> run_request \<Rightarrow>
   (run_error + run_row) \<times> run_event list" where
  "execute_run policy create_ok exec a q =
     (case prepare_run policy create_ok q of
        (Inl e, evs) \<Rightarrow> (Inl e, evs)
      | (Inr row, evs) \<Rightarrow> (case execute_impl exec a q row of (run, evs') \<Rightarrow> (Inr run, evs @ evs')))"

definition stream_run ::
  "command_policy \<Rightarrow> bool \<Rightarrow> (exec_config \<Rightarrow> string list \<times> string list \<times> (exec_error + exec_result)) \<Rightarrow>
   run_answers \<Rightarrow> run_request \<Rightarrow> (run_error + run_row) \<times> run_event list \<times> string \<times> string" where
  "stream_run policy create_ok exec a q =
     (case prepare_run policy create_ok q of
        (Inl e, evs) \<Rightarrow> (Inl e, evs, [], [])
      | (Inr row, evs) \<Rightarrow>
          (case stream_impl exec a q row of (run, evs', out, err) \<Rightarrow> (Inr run, evs @ evs', out, err)))"

end
