(* ===== verification/Quota.thy ===== *)
theory Quota
  imports Access
begin

text \<open>
  \<open>internal/quota/quota.go\<close>: the watcher that pauses sandboxes whose workspace is over its cap.
  The state is the set of paused containers; measuring a workspace and the calls to the daemon may
  fail, which are answers given per session or container.
\<close>

text \<open>The measured size: regular files of the walk, entries whose information is gone skipped.\<close>

definition quota_size :: "(bool \<times> int option) list \<Rightarrow> int" where
  "quota_size ws = sum_list (map (\<lambda>(regular, info). if regular then (case info of None \<Rightarrow> 0 | Some n \<Rightarrow> n) else 0) ws)"

text \<open>The daemon and the measurement: which calls work for a container.\<close>

record quota_env =
  qe_size :: "string \<Rightarrow> int option"      \<comment> \<open>by session; \<open>None\<close> when measuring failed\<close>
  qe_inspect :: "string \<Rightarrow> bool"
  qe_pause :: "string \<Rightarrow> bool"
  qe_unpause :: "string \<Rightarrow> bool"

datatype quota_event = QuotaExceeded string int

datatype quota_error = OverQuota | UnpauseFailed

definition is_paused :: "quota_env \<Rightarrow> string set \<Rightarrow> string \<Rightarrow> bool" where
  "is_paused env paused cid \<longleftrightarrow> qe_inspect env cid \<and> cid \<in> paused"

definition quota_pause :: "quota_env \<Rightarrow> string set \<Rightarrow> string \<Rightarrow> string \<Rightarrow> int \<Rightarrow> string set \<times> quota_event list" where
  "quota_pause env paused sid cid sz =
     (if \<not> qe_pause env cid then (paused, []) else (insert cid paused, [QuotaExceeded sid sz]))"

text \<open>\<open>max_bytes\<close> is \<open>None\<close> for the nil enforcer.\<close>

definition admit ::
  "int option \<Rightarrow> quota_env \<Rightarrow> string set \<Rightarrow> session_row \<Rightarrow>
   (quota_error + unit) \<times> string set \<times> quota_event list" where
  "admit max_bytes env paused s =
     (case (max_bytes, s_container s) of
        (Some limit, Some cid) \<Rightarrow>
          if limit \<le> 0 then (Inr (), paused, [])
          else (case qe_size env (s_id s) of
            None \<Rightarrow> (Inr (), paused, [])
          | Some sz \<Rightarrow>
              if limit < sz then
                (if is_paused env paused cid then (Inl OverQuota, paused, [])
                 else (case quota_pause env paused (s_id s) cid sz of
                         (paused', evs) \<Rightarrow> (Inl OverQuota, paused', evs)))
              else if is_paused env paused cid then
                (if qe_unpause env cid then (Inr (), paused - {cid}, [])
                 else (Inl UnpauseFailed, paused, []))
              else (Inr (), paused, []))
      | _ \<Rightarrow> (Inr (), paused, []))"

definition sweep_one :: "int \<Rightarrow> quota_env \<Rightarrow> session_row \<Rightarrow> string set \<Rightarrow> string set \<times> quota_event list" where
  "sweep_one limit env s paused =
     (case s_container s of
        None \<Rightarrow> (paused, [])
      | Some cid \<Rightarrow>
          (case qe_size env (s_id s) of
             None \<Rightarrow> (paused, [])
           | Some sz \<Rightarrow>
               if sz \<le> limit then (paused, [])
               else if is_paused env paused cid then (paused, [])
               else quota_pause env paused (s_id s) cid sz))"

text \<open>One tick of \<open>Run\<close>; the list of sessions is \<open>None\<close> when the database did not answer.\<close>

fun sweep_all :: "int \<Rightarrow> quota_env \<Rightarrow> session_row list \<Rightarrow> string set \<Rightarrow> string set \<times> quota_event list" where
  "sweep_all limit env [] paused = (paused, [])"
| "sweep_all limit env (s # ss) paused =
     (case sweep_one limit env s paused of
        (paused', evs) \<Rightarrow>
          (case sweep_all limit env ss paused' of (paused'', evs') \<Rightarrow> (paused'', evs @ evs')))"

definition sweep :: "int \<Rightarrow> quota_env \<Rightarrow> session_row list option \<Rightarrow> string set \<Rightarrow> string set \<times> quota_event list" where
  "sweep limit env sessions paused =
     (case sessions of None \<Rightarrow> (paused, []) | Some ss \<Rightarrow> sweep_all limit env ss paused)"

section \<open>Lemmas\<close>

lemma sweep_one_mono: "sweep_one limit env s paused = (paused', evs) \<Longrightarrow> paused \<subseteq> paused'"
  by (auto simp: sweep_one_def quota_pause_def split: option.splits if_splits)

lemma sweep_all_mono: "sweep_all limit env ss paused = (paused', evs) \<Longrightarrow> paused \<subseteq> paused'"
proof (induction ss arbitrary: paused evs)
  case (Cons s ss)
  then show ?case using sweep_one_mono by (fastforce split: prod.splits)
qed simp

lemma sweep_all_pauses:
  assumes "sweep_all limit env ss paused = (paused', evs)" "s \<in> set ss" "s_container s = Some cid"
    "qe_size env (s_id s) = Some sz" "limit < sz" "qe_pause env cid"
  shows "cid \<in> paused'"
  using assms(1,2)
proof (induction ss arbitrary: paused evs)
  case (Cons t ss)
  obtain p1 e1 where one: "sweep_one limit env t paused = (p1, e1)" by fastforce
  with Cons.prems(1) obtain e2 where rest: "sweep_all limit env ss p1 = (paused', e2)"
    by (auto split: prod.splits)
  show ?case
  proof (cases "s = t")
    case True
    with one assms(3-6) have "cid \<in> p1"
      by (auto simp: sweep_one_def quota_pause_def is_paused_def split: if_splits)
    with sweep_all_mono [OF rest] show ?thesis by blast
  next
    case False
    with Cons.IH [OF rest] Cons.prems(2) show ?thesis by simp
  qed
qed simp

text \<open>A run that is admitted, when measuring worked, is under the cap in a running container.\<close>

lemma admit_ok:
  assumes "admit (Some limit) env paused s = (Inr (), paused', evs)" "0 < limit"
    "s_container s = Some cid" "qe_size env (s_id s) = Some sz"
  shows "sz \<le> limit \<and> (qe_inspect env cid \<longrightarrow> cid \<notin> paused') \<and> paused' = paused - (if is_paused env paused cid then {cid} else {})"
  using assms by (auto simp: admit_def is_paused_def split: if_splits prod.splits)

lemma admit_over:
  assumes "0 < limit" "s_container s = Some cid" "qe_size env (s_id s) = Some sz" "limit < sz"
  shows "fst (admit (Some limit) env paused s) = Inl OverQuota"
    and "qe_pause env cid \<Longrightarrow> cid \<in> fst (snd (admit (Some limit) env paused s))"
  using assms by (auto simp: admit_def quota_pause_def is_paused_def split: prod.splits)

end
