(* ===== verification/RunsHandler.thy ===== *)
theory RunsHandler
  imports Runner Quota
begin

text \<open>
  \<open>cmd/api/handlers/runs.go\<close>: the three endpoints that run a command (synchronous, streaming,
  queued), their gates, and the secrets they may inject.  The handler is modelled up to the call of
  the runner: it answers a status code or hands a \<open>run_request\<close> over, and reports which secrets it
  asked the provider for.  The handlers share the admission of a request (\<open>admit_run_request\<close>).
\<close>

section \<open>Secrets\<close>

fun denied_secret :: "string list option \<Rightarrow> string list \<Rightarrow> string option" where
  "denied_secret None requested = None"
| "denied_secret (Some allowed) requested = List.find (\<lambda>n. n \<notin> set allowed) requested"

datatype run_audit = SecretDenied string

text \<open>\<open>key_id\<close> is the actor parsed as a UUID; the allowlist lookup is by that identifier.\<close>

definition authorize_secrets ::
  "string \<Rightarrow> string option \<Rightarrow> (string \<Rightarrow> string list option lookup) \<Rightarrow> string list \<Rightarrow>
   (nat + unit) \<times> run_audit list" where
  "authorize_secrets actor key_id allowlist requested =
     (if actor = master then (Inr (), [])
      else case key_id of
        None \<Rightarrow> (Inl 403, [])
      | Some kid \<Rightarrow>
          (case allowlist kid of
             Found allowed \<Rightarrow>
               (case denied_secret allowed requested of
                  None \<Rightarrow> (Inr (), [])
                | Some n \<Rightarrow> (Inl 403, [SecretDenied n]))
           | _ \<Rightarrow> (Inl 500, [])))"

text \<open>
  Resolving the names in order: the secrets found so far, or 400 at the first one that is missing;
  the second component lists the names the provider was asked for.
\<close>

fun resolve_secrets :: "(string \<Rightarrow> string option) \<Rightarrow> string list \<Rightarrow>
    (nat + (string \<times> string) list) \<times> string list" where
  "resolve_secrets get [] = (Inr [], [])"
| "resolve_secrets get (n # ns) =
     (case get n of
        None \<Rightarrow> (Inl 400, [n])
      | Some v \<Rightarrow>
          (case resolve_secrets get ns of
             (Inl c, asked) \<Rightarrow> (Inl c, n # asked)
           | (Inr env, asked) \<Rightarrow> (Inr ((n, v) # filter (\<lambda>(k, _). k \<noteq> n) env), n # asked)))"

section \<open>Validation\<close>

record run_body =
  b_command :: string
  b_args :: "string list"
  b_env :: "(string \<times> string) list"
  b_dir :: string
  b_timeout :: int
  b_secrets :: "string list"
  b_callback :: string

definition validate_command :: "string \<Rightarrow> bool" where
  "validate_command command \<longleftrightarrow>
     trim_space command \<noteq> [] \<and>
     \<not> list_ex (\<lambda>c. c = CHR '' '' \<or> c = CHR 0x09 \<or> c = CHR 0x0D \<or> c = CHR 0x0A) command"

definition validate_working_dir :: "string \<Rightarrow> string option" where
  "validate_working_dir wd = (if wd = [] then Some [] else normalize_working_dir wd)"

text \<open>What the handlers depend on.\<close>

record run_deps =
  rd_access :: "string \<Rightarrow> nat + session_row"
  rd_actor :: string
  rd_key_id :: "string option"
  rd_allowlist :: "string \<Rightarrow> string list option lookup"
  rd_provider :: "(string \<Rightarrow> string option) option"   \<comment> \<open>\<open>None\<close> when no provider is configured\<close>
  rd_max_timeout :: int
  rd_quota :: "int option"
  rd_quota_env :: quota_env
  rd_paused :: "string set"

text \<open>The session part of the gate: a running session within its quota.\<close>

definition gate_session :: "run_deps \<Rightarrow> (nat + session_row \<times> string) \<times> string set" where
  "gate_session d =
     (case rd_access d ''executor'' of
        Inl code \<Rightarrow> (Inl code, rd_paused d)
      | Inr s \<Rightarrow>
          if s_stopped s \<noteq> None then (Inl 409, rd_paused d)
          else (case s_container s of
            None \<Rightarrow> (Inl 409, rd_paused d)
          | Some cid \<Rightarrow>
              if s_status s \<noteq> ''running'' then (Inl 409, rd_paused d)
              else (case admit (rd_quota d) (rd_quota_env d) (rd_paused d) s of
                      (Inl OverQuota, paused, _) \<Rightarrow> (Inl 507, paused)
                    | (Inl UnpauseFailed, paused, _) \<Rightarrow> (Inl 500, paused)
                    | (Inr _, paused, _) \<Rightarrow> (Inr (s, cid), paused))))"

text \<open>The secrets of the request: an environment, the names asked for and the audit entries.\<close>

definition gate_secrets :: "run_deps \<Rightarrow> run_body \<Rightarrow>
    (nat + (string \<times> string) list) \<times> string list \<times> run_audit list" where
  "gate_secrets d b =
     (case rd_provider d of
        None \<Rightarrow> (Inr [], [], [])
      | Some get \<Rightarrow>
          if b_secrets b = [] then (Inr [], [], [])
          else (case authorize_secrets (rd_actor d) (rd_key_id d) (rd_allowlist d) (b_secrets b) of
                  (Inl code, evs) \<Rightarrow> (Inl code, [], evs)
                | (Inr _, evs) \<Rightarrow>
                    (case resolve_secrets get (b_secrets b) of (r, asked) \<Rightarrow> (r, asked, evs))))"

text \<open>
  The body of the three handlers up to the runner.  The body is \<open>None\<close> when it does not bind; the
  callback check is the SSRF validation of \<open>httputil\<close> and always passes for the other handlers.
\<close>

definition admit_body :: "run_deps \<Rightarrow> (string \<Rightarrow> bool) \<Rightarrow> session_row \<Rightarrow> string \<Rightarrow> run_body \<Rightarrow>
    (nat + run_request) \<times> string list \<times> run_audit list" where
  "admit_body d callback_ok s cid b =
     (if b_command b = [] \<or> \<not> validate_command (b_command b) then (Inl 400, [], [])
      else case validate_working_dir (b_dir b) of
        None \<Rightarrow> (Inl 400, [], [])
      | Some dir \<Rightarrow>
          if b_callback b \<noteq> [] \<and> \<not> callback_ok (b_callback b) then (Inl 400, [], [])
          else (case gate_secrets d b of
            (Inl code, asked, evs) \<Rightarrow> (Inl code, asked, evs)
          | (Inr senv, asked, evs) \<Rightarrow>
              if b_timeout b < 0 \<or> rd_max_timeout d < b_timeout b then (Inl 400, asked, evs)
              else (Inr \<lparr>q_container = cid, q_command = b_command b, q_args = b_args b, q_env = b_env b,
                         q_secret_env = senv, q_dir = dir, q_timeout = b_timeout b,
                         q_actor = rd_actor d, q_callback = b_callback b,
                         q_workspace = s_workspace s\<rparr>, asked, evs)))"

definition admit_run_request ::
  "run_deps \<Rightarrow> (string \<Rightarrow> bool) \<Rightarrow> string option \<Rightarrow> run_body option \<Rightarrow>
   (nat + run_request) \<times> string list \<times> run_audit list" where
  "admit_run_request d callback_ok sid body =
     (case sid of
        None \<Rightarrow> (Inl 400, [], [])
      | Some _ \<Rightarrow>
          (case fst (gate_session d) of
             Inl code \<Rightarrow> (Inl code, [], [])
           | Inr (s, cid) \<Rightarrow>
               (case body of
                  None \<Rightarrow> (Inl 400, [], [])
                | Some b \<Rightarrow> admit_body d callback_ok s cid b)))"

section \<open>The handlers\<close>

text \<open>Synchronous execution: a rejected run is 400, the run itself 200.\<close>

definition run_execute ::
  "run_deps \<Rightarrow> command_policy \<Rightarrow> bool \<Rightarrow> (exec_config \<Rightarrow> exec_error + exec_result) \<Rightarrow> run_answers \<Rightarrow>
   string option \<Rightarrow> run_body option \<Rightarrow> (nat \<times> run_row option) \<times> run_event list" where
  "run_execute d policy create_ok exec a sid body =
     (case admit_run_request d (\<lambda>_. True) sid (map_option (\<lambda>b. b\<lparr>b_callback := []\<rparr>) body) of
        (Inl code, _) \<Rightarrow> ((code, None), [])
      | (Inr q, _) \<Rightarrow>
          (case execute_run policy create_ok exec a q of
             (Inl _, evs) \<Rightarrow> ((400, None), evs)
           | (Inr run, evs) \<Rightarrow> ((200, Some run), evs)))"

text \<open>
  The streaming run always answers 200 once the stream has begun; the events are the redacted
  chunks and a final one, which carries the error text of a rejected run.
\<close>

definition run_stream ::
  "run_deps \<Rightarrow> command_policy \<Rightarrow> bool \<Rightarrow>
   (exec_config \<Rightarrow> string list \<times> string list \<times> (exec_error + exec_result)) \<Rightarrow> run_answers \<Rightarrow> bool \<Rightarrow>
   string option \<Rightarrow> run_body option \<Rightarrow>
   nat \<times> (run_error + run_row) option \<times> run_event list \<times> string \<times> string" where
  "run_stream d policy create_ok exec a can_flush sid body =
     (case admit_run_request d (\<lambda>_. True) sid (map_option (\<lambda>b. b\<lparr>b_callback := []\<rparr>) body) of
        (Inl code, _) \<Rightarrow> (code, None, [], [], [])
      | (Inr q, _) \<Rightarrow>
          if \<not> can_flush then (500, None, [], [], [])
          else (case stream_run policy create_ok exec a q of
                  (r, evs, out, err) \<Rightarrow> (200, Some r, evs, out, err)))"

text \<open>Queued execution: the row is created first, then the job is submitted.\<close>

definition run_async ::
  "run_deps \<Rightarrow> bool \<Rightarrow> command_policy \<Rightarrow> bool \<Rightarrow> (string \<Rightarrow> bool) \<Rightarrow> (run_request \<times> run_row \<Rightarrow> bool) \<Rightarrow>
   string option \<Rightarrow> run_body option \<Rightarrow> nat \<times> run_event list \<times> (run_request \<times> run_row) option" where
  "run_async d configured policy create_ok callback_ok submit sid body =
     (if \<not> configured then (503, [], None)
      else case admit_run_request d callback_ok sid body of
        (Inl code, _) \<Rightarrow> (code, [], None)
      | (Inr q, _) \<Rightarrow>
          (case prepare_run policy create_ok q of
             (Inl _, evs) \<Rightarrow> (400, evs, None)
           | (Inr row, evs) \<Rightarrow>
               if \<not> submit (q, row) then (503, evs, None) else (202, evs, Some (q, row))))"

section \<open>Lemmas\<close>

text \<open>What the actor may inject: anything for the master key, else what its key lists.\<close>

definition may_inject :: "run_deps \<Rightarrow> string \<Rightarrow> bool" where
  "may_inject d n \<longleftrightarrow>
     rd_actor d = master \<or>
     (\<exists>kid. rd_key_id d = Some kid \<and>
        (rd_allowlist d kid = Found None \<or> (\<exists>l. rd_allowlist d kid = Found (Some l) \<and> n \<in> set l)))"

lemma authorize_ok:
  assumes "authorize_secrets (rd_actor d) (rd_key_id d) (rd_allowlist d) ns = (Inr u, evs)" "n \<in> set ns"
  shows "may_inject d n"
proof (cases "rd_actor d = master")
  case False
  with assms obtain kid allowed where k: "rd_key_id d = Some kid" "rd_allowlist d kid = Found allowed"
    "denied_secret allowed ns = None"
    by (auto simp: authorize_secrets_def split: option.splits lookup.splits)
  with assms(2) show ?thesis
    by (cases allowed) (auto simp: may_inject_def find_None_iff)
qed (simp add: may_inject_def)

lemma resolve_secrets_asked: "set (snd (resolve_secrets get ns)) \<subseteq> set ns"
  by (induction ns) (auto split: option.splits sum.splits prod.splits)

lemma resolve_secrets_Cons:
  assumes "resolve_secrets get (m # ns) = (Inr env, asked)"
  obtains v env' asked' where "get m = Some v" "resolve_secrets get ns = (Inr env', asked')"
    "env = (m, v) # filter (\<lambda>(k, _). k \<noteq> m) env'"
proof -
  obtain v where v: "get m = Some v" using assms by (cases "get m") auto
  obtain r asked' where r: "resolve_secrets get ns = (r, asked')" by fastforce
  show ?thesis using assms that [OF v] v r by (cases r) auto
qed

lemma resolve_secrets_ok:
  assumes "resolve_secrets get ns = (Inr env, asked)" "(n, v) \<in> set env"
  shows "n \<in> set ns \<and> get n = Some v"
  using assms
proof (induction ns arbitrary: env asked)
  case (Cons m ns)
  from Cons.prems(1) show ?case
  proof (rule resolve_secrets_Cons)
    fix w env' asked'
    assume r: "get m = Some w" "resolve_secrets get ns = (Inr env', asked')"
      "env = (m, w) # filter (\<lambda>(k, _). k \<noteq> m) env'"
    show ?thesis
    proof (cases "(n, v) = (m, w)")
      case False
      with Cons.prems(2) r(3) have "(n, v) \<in> set env'" by auto
      with Cons.IH [OF r(2)] show ?thesis by simp
    qed (use r(1) in simp)
  qed
qed simp

lemma gate_secrets_cases:
  assumes "gate_secrets d b = (r, asked, evs)"
  obtains "asked = []" "\<And>env. r = Inr env \<Longrightarrow> env = []"
  | get u evs' where "rd_provider d = Some get"
      "authorize_secrets (rd_actor d) (rd_key_id d) (rd_allowlist d) (b_secrets b) = (Inr u, evs')"
      "resolve_secrets get (b_secrets b) = (r, asked)"
proof (cases "rd_provider d")
  case None
  with assms that(1) show ?thesis by (auto simp: gate_secrets_def)
next
  case (Some get)
  obtain x evs' where a:
    "authorize_secrets (rd_actor d) (rd_key_id d) (rd_allowlist d) (b_secrets b) = (x, evs')" by fastforce
  show ?thesis
  proof (cases "b_secrets b = []")
    case True
    with assms Some that(1) show ?thesis by (auto simp: gate_secrets_def)
  next
    case False
    show ?thesis
    proof (cases x)
      case (Inl c)
      with False assms Some a that(1) show ?thesis by (auto simp: gate_secrets_def)
    next
      case (Inr u)
      with False assms Some a have "resolve_secrets get (b_secrets b) = (r, asked)"
        by (simp add: gate_secrets_def split: prod.splits)
      with Some a Inr that(2) show ?thesis by simp
    qed
  qed
qed

lemma gate_secrets_asked:
  assumes "gate_secrets d b = (r, asked, evs)" "n \<in> set asked"
  shows "may_inject d n"
  using assms(1)
proof (cases rule: gate_secrets_cases)
  case (2 get u evs')
  have "n \<in> set (b_secrets b)" using resolve_secrets_asked [of get "b_secrets b"] 2(3) assms(2) by auto
  with authorize_ok [OF 2(2)] show ?thesis .
qed (use assms(2) in simp)

lemma gate_secrets_ok:
  assumes "gate_secrets d b = (Inr env, asked, evs)" "(n, v) \<in> set env"
  shows "may_inject d n \<and> (\<exists>get. rd_provider d = Some get \<and> get n = Some v)"
  using assms(1)
proof (cases rule: gate_secrets_cases)
  case (2 get u evs')
  with resolve_secrets_ok [OF 2(3) assms(2)] authorize_ok [OF 2(2)] show ?thesis by blast
qed (use assms(2) in simp)

lemma gate_session_ok:
  assumes "fst (gate_session d) = Inr (s, cid)"
  shows "rd_access d ''executor'' = Inr s" "s_stopped s = None" "s_container s = Some cid"
    "s_status s = ''running''"
    "fst (admit (rd_quota d) (rd_quota_env d) (rd_paused d) s) = Inr ()"
proof -
  define role where "role = ''executor''"
  define running where "running = ''running''"
  note def = gate_session_def [of d, folded role_def running_def]
  obtain t where t: "rd_access d role = Inr t"
    using assms def by (cases "rd_access d role") simp_all
  have st: "s_stopped t = None" using assms t by (cases "s_stopped t") (simp_all add: def)
  obtain c where c: "s_container t = Some c"
    using assms t st by (cases "s_container t") (simp_all add: def)
  have run: "s_status t = running"
    using assms t st c by (cases "s_status t = running") (simp_all add: def)
  obtain r p e where a: "admit (rd_quota d) (rd_quota_env d) (rd_paused d) t = (r, p, e)"
    using prod_cases3 by blast
  have r: "r = Inr ()"
  proof (cases r)
    case (Inl x)
    with assms t st c run a show ?thesis by (cases x) (simp_all add: def)
  qed simp
  have "s = t" "cid = c" using assms t st c run a r by (simp_all add: def)
  with t st c run a r show "rd_access d ''executor'' = Inr s" "s_stopped s = None" "s_container s = Some cid"
    "s_status s = ''running''" "fst (admit (rd_quota d) (rd_quota_env d) (rd_paused d) s) = Inr ()"
    by (simp_all only: role_def running_def fst_conv)
qed

end
