(* ===== verification/ExecProps.thy ===== *)
theory ExecProps
  imports Exec
begin

text \<open>
  Properties of command execution: the demultiplexer against a specification that parses the frames
  without writers, the round trip of framed output, and what the truncation flag promises.
\<close>

section \<open>Specification of the stream\<close>

text \<open>The frames of a stream: type and payload, the last one cut where the stream ends.\<close>

function parse_frames :: "string \<Rightarrow> (nat \<times> string) list" where
  "parse_frames s =
     (if length s < 8 then []
      else let k = be32 (take 4 (drop 4 s)); body = drop 8 s
           in (of_char (s ! 0), take k body) #
              (if k \<le> length body then parse_frames (drop k body) else []))"
  by pat_completeness auto
termination
  by (relation "measure length") auto

declare parse_frames.simps [simp del]

definition payload :: "nat \<Rightarrow> (nat \<times> string) list \<Rightarrow> string" where
  "payload t fs = concat (map snd (filter (\<lambda>f. fst f = t) fs))"

lemma payload_simps [simp]:
  "payload t [] = []"
  "payload t ((u, p) # fs) = (if u = t then p @ payload t fs else payload t fs)"
  by (simp_all add: payload_def)

section \<open>The capped writer\<close>

text \<open>The writer has been offered \<open>data\<close>: it holds the first \<open>limit\<close> bytes and flags the rest.\<close>

definition covers :: "limited_writer \<Rightarrow> string \<Rightarrow> bool" where
  "covers w data \<longleftrightarrow> 0 < lw_limit w \<and> concat (lw_chunks w) = take (nat (lw_limit w)) data \<and>
     lw_n w = int (length (concat (lw_chunks w))) \<and>
     (lw_truncated w \<longleftrightarrow> nat (lw_limit w) < length data)"

lemma covers_new: "0 < l \<Longrightarrow> covers (new_writer l) []"
  by (simp add: covers_def new_writer_def)

lemma covers_write:
  assumes "covers w data" "lw_write p w = (n, w')" "p \<noteq> []"
  shows "covers w' (data @ p) \<and> lw_limit w' = lw_limit w \<and> (n = length p \<or> lw_truncated w')"
proof (cases "lw_limit w - lw_n w \<le> 0")
  case True
  obtain a q where "p = a # q" using assms(3) by (cases p) auto
  with True assms(1,2) show ?thesis
    by (auto simp: covers_def lw_write_def Let_def min_def split: if_splits)
next
  case False
  define r where "r = nat (lw_limit w - lw_n w)"
  have c: "0 < lw_limit w" "concat (lw_chunks w) = take (nat (lw_limit w)) data"
    "lw_n w = int (length (concat (lw_chunks w)))"
    "lw_truncated w \<longleftrightarrow> nat (lw_limit w) < length data"
    using assms(1) by (auto simp: covers_def)
  have len: "length data < nat (lw_limit w)"
    using False c(1,2,3) by (auto simp: min_def split: if_splits)
  then have r: "r = nat (lw_limit w) - length data" "lw_limit w - lw_n w = int r" "\<not> lw_truncated w"
    using c by (auto simp: r_def min_def)
  have eq: "lw_write p w =
      (let q = (if int r < int (length p) then take r p else p)
       in (length q, w\<lparr>lw_truncated := (lw_truncated w \<or> int r < int (length p)),
             lw_n := lw_n w + int (length q), lw_chunks := lw_chunks w @ [q]\<rparr>))"
    using False unfolding lw_write_def Let_def r(2) nat_int by (simp only: if_False)
  have lim: "nat (lw_limit w) = length data + r" using len r(1) by simp
  have chunks: "concat (lw_chunks w) = data" using c(2) len by simp
  show ?thesis
  proof (cases "int r < int (length p)")
    case True
    then have "w' = w\<lparr>lw_truncated := True, lw_n := lw_n w + int r, lw_chunks := lw_chunks w @ [take r p]\<rparr>"
      using assms(2) eq by (auto simp: Let_def)
    then show ?thesis using c(1,3) chunks lim True by (simp add: covers_def)
  next
    case le: False
    then have "w' = w\<lparr>lw_truncated := False, lw_n := lw_n w + int (length p), lw_chunks := lw_chunks w @ [p]\<rparr>"
      "n = length p"
      using assms(2) eq r(3) by (auto simp: Let_def)
    then show ?thesis using c(1,3) chunks lim le by (simp add: covers_def)
  qed
qed

lemma covers_truncated: "covers w data \<Longrightarrow> lw_truncated w \<longleftrightarrow> lw_limit w < int (length data)"
  by (auto simp: covers_def)

lemma copy_n_stop: "copy_n rd 0 s w = (s, w, True)" "0 < k \<Longrightarrow> copy_n rd k [] w = ([], w, False)"
  by (simp_all add: copy_n.simps)

lemma copy_n_covers:
  assumes "covers w data" "copy_n rd k s w = (rest, w', ok)"
  shows "\<exists>m \<le> min k (length s). covers w' (data @ take m s) \<and> rest = drop m s \<and>
     lw_limit w' = lw_limit w \<and> (ok \<longrightarrow> m = k) \<and> (\<not> ok \<longrightarrow> lw_truncated w' \<or> m = length s \<and> m < k)"
  using assms
proof (induction rd k s w arbitrary: data rule: copy_n.induct)
  case (1 rd k s w)
  consider "k = 0" | "k \<noteq> 0" "s = []" | "k \<noteq> 0" "s \<noteq> []" by blast
  then show ?case
  proof cases
    case 3
    define m where "m = piece rd k s"
    have m: "0 < m" "m \<le> k" "m \<le> length s" using 3 by (auto simp: m_def piece_def Suc_le_eq)
    obtain n w1 where w: "lw_write (take m s) w = (n, w1)" by fastforce
    have ne: "take m s \<noteq> []" using m 3 by auto
    note c = covers_write [OF "1.prems"(1) w ne]
    have eq: "copy_n rd k s w = (if n \<noteq> m then (drop m s, w1, False) else copy_n rd (k - m) (drop m s) w1)"
      using 3 w by (simp add: copy_n.simps [of rd k s w] Let_def m_def)
    show ?thesis
    proof (cases "n = m")
      case False
      with eq "1.prems"(2) have "rest = drop m s" "w' = w1" "\<not> ok" by auto
      with c m False show ?thesis by (intro exI [of _ m]) auto
    next
      case True
      with eq "1.prems"(2) have "copy_n rd (k - m) (drop m s) w1 = (rest, w', ok)" by simp
      from "1.IH" [OF 3 m_def w [symmetric] _ conjunct1 [OF c] this] True obtain j where
        j: "j \<le> min (k - m) (length (drop m s))" "covers w' ((data @ take m s) @ take j (drop m s))"
          "rest = drop j (drop m s)" "lw_limit w' = lw_limit w1" "ok \<longrightarrow> j = k - m"
          "\<not> ok \<longrightarrow> lw_truncated w' \<or> j = length (drop m s) \<and> j < k - m"
        by auto
      have "take (m + j) s = take m s @ take j (drop m s)" by (simp add: take_add)
      with j c m show ?thesis by (intro exI [of _ "m + j"]) (auto simp: add.commute)
    qed
  qed (use 1 in \<open>auto simp: copy_n_stop\<close>)
qed

section \<open>The demultiplexer\<close>

text \<open>What a demultiplexed stream has offered to the two writers.\<close>

definition offered :: "limited_writer \<Rightarrow> limited_writer \<Rightarrow> string \<Rightarrow> string \<Rightarrow> (nat \<times> string) list \<Rightarrow> bool" where
  "offered out err d1 d2 fs \<longleftrightarrow>
     (\<exists>p1 p2. covers out (d1 @ p1) \<and> covers err (d2 @ p2) \<and>
        prefix p1 (payload 1 fs) \<and> prefix p2 (payload 2 fs) \<and>
        (lw_truncated out \<or> lw_truncated err \<or> p1 = payload 1 fs \<and> p2 = payload 2 fs))"

lemma demux_unfold:
  assumes "\<not> length s < 8"
  shows "demux rd s out err =
     (let k = be32 (take 4 (drop 4 s)); body = drop 8 s in
      if of_char (s ! 0) = (1::nat) then
        (case copy_n rd k body out of
           (rest, out', ok) \<Rightarrow> if ok then demux rd rest out' err else (out', err, rest, False))
      else if of_char (s ! 0) = (2::nat) then
        (case copy_n rd k body err of
           (rest, err', ok) \<Rightarrow> if ok then demux rd rest out err' else (out, err', rest, False))
      else if k \<le> length body then demux rd (drop k body) out err
      else (out, err, drop k body, False))"
  using assms by (subst demux.simps) (simp add: Let_def discard_n_def)

lemma parse_frames_unfold:
  assumes "\<not> length s < 8"
  shows "parse_frames s =
     (of_char (s ! 0), take (be32 (take 4 (drop 4 s))) (drop 8 s)) #
     (if be32 (take 4 (drop 4 s)) \<le> length (drop 8 s)
      then parse_frames (drop (be32 (take 4 (drop 4 s))) (drop 8 s)) else [])"
  using assms by (subst parse_frames.simps) (simp add: Let_def)

lemma prefix_take: "prefix (take m s) (take k s)" if "m \<le> k"
  using that by (metis min.absorb2 take_is_prefix take_take min.commute)

lemma demux_offered:
  assumes "covers out d1" "covers err d2" "demux rd s out err = (out', err', rest, ok)"
  shows "offered out' err' d1 d2 (parse_frames s) \<and> lw_limit out' = lw_limit out \<and> lw_limit err' = lw_limit err"
  using assms
proof (induction s arbitrary: out err d1 d2 rule: measure_induct_rule [of length])
  case (less s)
  show ?case
  proof (cases "length s < 8")
    case True
    then have "out' = out" "err' = err" "parse_frames s = []"
      using less.prems(3) by (simp_all add: demux.simps [of rd s] parse_frames.simps [of s])
    with less.prems show ?thesis
      by (auto simp: offered_def intro!: exI [of _ "[]"])
  next
    case False
    define k where "k = be32 (take 4 (drop 4 s))"
    define body where "body = drop 8 s"
    note unf = demux_unfold [OF False, of rd out err, folded k_def body_def, unfolded Let_def]
    note pf = parse_frames_unfold [OF False, folded k_def body_def]
    have shorter: "length (drop m body) < length s" for m using False by (simp add: body_def)
    consider "of_char (s ! 0) = (1::nat)" | "of_char (s ! 0) = (2::nat)"
      | "of_char (s ! 0) \<noteq> (1::nat)" "of_char (s ! 0) \<noteq> (2::nat)" by blast
    then show ?thesis
    proof cases
      case 1
      obtain r o1 b where cp: "copy_n rd k body out = (r, o1, b)" using prod_cases3 by blast
      from copy_n_covers [OF less.prems(1) cp] obtain m where
        m: "m \<le> min k (length body)" "covers o1 (d1 @ take m body)" "r = drop m body"
          "lw_limit o1 = lw_limit out" "b \<longrightarrow> m = k"
          "\<not> b \<longrightarrow> lw_truncated o1 \<or> m = length body \<and> m < k" by blast
      show ?thesis
      proof (cases b)
        case True
        with m have mk: "m = k" "k \<le> length body" by auto
        have "demux rd r o1 err = (out', err', rest, ok)" using less.prems(3) unf 1 cp True by simp
        from less.IH [OF _ m(2) less.prems(2) this] shorter m(3)
        obtain p1 p2 where "covers out' ((d1 @ take m body) @ p1)" "covers err' (d2 @ p2)"
          "prefix p1 (payload 1 (parse_frames r))" "prefix p2 (payload 2 (parse_frames r))"
          "lw_truncated out' \<or> lw_truncated err' \<or>
             p1 = payload 1 (parse_frames r) \<and> p2 = payload 2 (parse_frames r)"
          "lw_limit out' = lw_limit o1" "lw_limit err' = lw_limit err"
          by (auto simp: offered_def)
        then show ?thesis
          using mk m(3,4) 1 unfolding offered_def pf
          by (intro conjI exI [of _ "take m body @ p1"] exI [of _ p2]) (auto simp: prefix_def)
      next
        case nb: False
        with less.prems(3) unf 1 cp have "out' = o1" "err' = err" by auto
        moreover have "prefix (take m body) (take k body)" using m(1) by (simp add: prefix_take)
        moreover have "m = length body \<and> m < k \<Longrightarrow> take m body = take k body" by simp
        ultimately show ?thesis
          using m nb less.prems(2) 1 unfolding offered_def pf
          by (intro conjI exI [of _ "take m body"] exI [of _ "[]"]) (auto simp: prefix_def)
      qed
    next
      case 2
      then have n1: "of_char (s ! 0) \<noteq> (1::nat)" by simp
      obtain r e1 b where cp: "copy_n rd k body err = (r, e1, b)" using prod_cases3 by blast
      from copy_n_covers [OF less.prems(2) cp] obtain m where
        m: "m \<le> min k (length body)" "covers e1 (d2 @ take m body)" "r = drop m body"
          "lw_limit e1 = lw_limit err" "b \<longrightarrow> m = k"
          "\<not> b \<longrightarrow> lw_truncated e1 \<or> m = length body \<and> m < k" by blast
      show ?thesis
      proof (cases b)
        case True
        with m have mk: "m = k" "k \<le> length body" by auto
        have "demux rd r out e1 = (out', err', rest, ok)" using less.prems(3) unf 2 cp True by simp
        from less.IH [OF _ less.prems(1) m(2) this] shorter m(3)
        obtain p1 p2 where "covers out' (d1 @ p1)" "covers err' ((d2 @ take m body) @ p2)"
          "prefix p1 (payload 1 (parse_frames r))" "prefix p2 (payload 2 (parse_frames r))"
          "lw_truncated out' \<or> lw_truncated err' \<or>
             p1 = payload 1 (parse_frames r) \<and> p2 = payload 2 (parse_frames r)"
          "lw_limit out' = lw_limit out" "lw_limit err' = lw_limit e1"
          by (auto simp: offered_def)
        then show ?thesis
          using mk m(3,4) 2 unfolding offered_def pf
          by (intro conjI exI [of _ p1] exI [of _ "take m body @ p2"]) (auto simp: prefix_def)
      next
        case nb: False
        with less.prems(3) unf 2 cp have "out' = out" "err' = e1" by auto
        moreover have "prefix (take m body) (take k body)" using m(1) by (simp add: prefix_take)
        moreover have "m = length body \<and> m < k \<Longrightarrow> take m body = take k body" by simp
        ultimately show ?thesis
          using m nb less.prems(1) 2 unfolding offered_def pf
          by (intro conjI exI [of _ "[]"] exI [of _ "take m body"]) (auto simp: prefix_def)
      qed
    next
      case 3
      show ?thesis
      proof (cases "k \<le> length body")
        case True
        with less.prems(3) unf 3 have "demux rd (drop k body) out err = (out', err', rest, ok)" by simp
        from less.IH [OF shorter less.prems(1,2) this] show ?thesis
          using 3 True unfolding offered_def pf by simp
      next
        case False
        with less.prems(3) unf 3 have "out' = out" "err' = err" by auto
        with less.prems(1,2) 3 False show ?thesis
          unfolding offered_def pf by (intro conjI exI [of _ "[]"]) auto
      qed
    qed
  qed
qed

section \<open>Results\<close>

lemma exec_result_flags:
  "e_stdout (finished_result a cfg code) = []" "e_timed_out base_result = False"
  by (auto simp: finished_result_def base_result_def Let_def split: option.splits)

lemma exec_buffered_demux:
  assumes "exec_buffered user a rd stream cfg = (req, Inr r)"
  obtains out err rest ok where
    "demux rd stream (new_writer (max_bytes cfg)) (new_writer (max_bytes cfg)) = (out, err, rest, ok)"
    "e_stdout r = concat (lw_chunks out)" "e_stderr r = concat (lw_chunks err)"
    "e_truncated r \<longleftrightarrow> lw_truncated out \<or> lw_truncated err"
proof -
  obtain out err rest ok where d:
    "demux rd stream (new_writer (max_bytes cfg)) (new_writer (max_bytes cfg)) = (out, err, rest, ok)"
    using prod_cases4 by blast
  show ?thesis
    using assms that [OF d]
    by (auto simp: exec_buffered_def exec_internal_def d Let_def split: option.splits if_splits)
qed

text \<open>
  Property C14.  The output of a run is never invented and never silently cut.  Whatever the daemon
  sends and however the stream is read, each reported output is a prefix of what the command wrote
  to that descriptor, at most the cap long; the truncation flag is set exactly when one of the two
  exceeded the cap, and when it is not set both outputs are complete.
\<close>

theorem exec_output_honest:
  "case snd (exec_buffered user a rd stream cfg) of
     Inl e \<Rightarrow> True
   | Inr r \<Rightarrow>
       prefix (e_stdout r) (payload 1 (parse_frames stream)) \<and>
       prefix (e_stderr r) (payload 2 (parse_frames stream)) \<and>
       int (length (e_stdout r)) \<le> max_bytes cfg \<and> int (length (e_stderr r)) \<le> max_bytes cfg \<and>
       (e_truncated r \<longleftrightarrow>
          max_bytes cfg < int (length (payload 1 (parse_frames stream))) \<or>
          max_bytes cfg < int (length (payload 2 (parse_frames stream)))) \<and>
       (e_truncated r \<or>
          e_stdout r = payload 1 (parse_frames stream) \<and> e_stderr r = payload 2 (parse_frames stream))"
proof (cases "snd (exec_buffered user a rd stream cfg)")
  case (Inr r)
  then obtain req where "exec_buffered user a rd stream cfg = (req, Inr r)"
    by (metis prod.collapse)
  then obtain out err rest ok where
    d: "demux rd stream (new_writer (max_bytes cfg)) (new_writer (max_bytes cfg)) = (out, err, rest, ok)"
    and r: "e_stdout r = concat (lw_chunks out)" "e_stderr r = concat (lw_chunks err)"
      "e_truncated r \<longleftrightarrow> lw_truncated out \<or> lw_truncated err"
    by (rule exec_buffered_demux)
  have pos: "0 < max_bytes cfg" by (simp add: max_bytes_def default_max_output_def)
  from demux_offered [OF covers_new [OF pos] covers_new [OF pos] d] obtain p1 p2 where
    p: "covers out p1" "covers err p2" "prefix p1 (payload 1 (parse_frames stream))"
      "prefix p2 (payload 2 (parse_frames stream))"
      "lw_truncated out \<or> lw_truncated err \<or>
         p1 = payload 1 (parse_frames stream) \<and> p2 = payload 2 (parse_frames stream)"
    and lim: "lw_limit out = max_bytes cfg" "lw_limit err = max_bytes cfg"
    by (auto simp: offered_def new_writer_def)
  have o: "concat (lw_chunks out) = take (nat (max_bytes cfg)) p1"
    "concat (lw_chunks err) = take (nat (max_bytes cfg)) p2"
    "lw_truncated out \<longleftrightarrow> max_bytes cfg < int (length p1)"
    "lw_truncated err \<longleftrightarrow> max_bytes cfg < int (length p2)"
    using p(1,2) lim by (auto simp: covers_def)
  have len: "length p1 \<le> length (payload 1 (parse_frames stream))"
    "length p2 \<le> length (payload 2 (parse_frames stream))"
    using p(3,4) by (auto dest: prefix_length_le)
  have "prefix (take n p1) (payload 1 (parse_frames stream))"
    "prefix (take n p2) (payload 2 (parse_frames stream))" for n
    using p(3,4) take_is_prefix prefix_order.trans by blast+
  with r o p(5) len pos show ?thesis
    unfolding Inr sum.case by auto
qed simp

section \<open>Frames round trip\<close>

definition byte_of :: "nat \<Rightarrow> char" where
  "byte_of n = char_of n"

definition frame :: "nat \<times> string \<Rightarrow> string" where
  "frame f = [char_of (fst f), char_of (0::nat), char_of (0::nat), char_of (0::nat),
     char_of (length (snd f) div 16777216), char_of (length (snd f) div 65536),
     char_of (length (snd f) div 256), char_of (length (snd f))] @ snd f"

lemma of_char_of_mod: "(of_char (char_of n :: char) :: nat) = n mod 256"
  by simp

lemma be32_frame:
  assumes "n < 4294967296"
  shows "be32 [char_of (n div 16777216), char_of (n div 65536), char_of (n div 256), char_of n] = n"
proof -
  have "n div 16777216 mod 256 = n div 16777216" using assms by (simp add: div_less_iff_less_mult)
  then have "be32 [char_of (n div 16777216), char_of (n div 65536), char_of (n div 256), char_of n] =
      256 * (256 * (256 * (n div 16777216) + n div 65536 mod 256) + n div 256 mod 256) + n mod 256"
    by (simp add: be32_def)
  also have "\<dots> = n"
  proof -
    have "n div 65536 = n div 256 div 256" "n div 16777216 = n div 256 div 256 div 256"
      by (simp_all add: div_mult2_eq [symmetric])
    then show ?thesis by simp
  qed
  finally show ?thesis .
qed

lemma parse_frame:
  assumes "length p < 4294967296" "t < 256"
  shows "parse_frames (frame (t, p) @ s) = (t, p) # parse_frames s"
proof -
  have f: "frame (t, p) = [char_of t, char_of (0::nat), char_of (0::nat), char_of (0::nat),
     char_of (length p div 16777216), char_of (length p div 65536),
     char_of (length p div 256), char_of (length p)] @ p"
    by (simp add: frame_def)
  show ?thesis
    unfolding f using assms(2) be32_frame [OF assms(1)]
    by (subst parse_frames_unfold) simp_all
qed

lemma parse_concat_frames:
  "\<forall>(t, p) \<in> set fs. t < 256 \<and> length p < 4294967296 \<Longrightarrow> parse_frames (concat (map frame fs)) = fs"
proof (induction fs)
  case (Cons f fs)
  then show ?case by (cases f) (simp add: parse_frame)
qed (simp add: parse_frames.simps)

text \<open>
  Property C15.  Framed output round-trips.  When the daemon sends a sequence of frames, and neither
  standard output nor standard error is longer than the cap, the demultiplexer recovers exactly the
  bytes of each, whatever the sizes in which the connection delivers them, and a buffered execution
  that succeeds reports them unflagged.
\<close>

theorem frames_roundtrip:
  assumes "\<forall>(t, p) \<in> set fs. t < 256 \<and> length p < 4294967296"
    "int (length (payload 1 fs)) \<le> max_bytes cfg" "int (length (payload 2 fs)) \<le> max_bytes cfg"
    "exec_buffered user a rd (concat (map frame fs)) cfg = (req, Inr r)"
  shows "e_stdout r = payload 1 fs \<and> e_stderr r = payload 2 fs \<and> \<not> e_truncated r"
proof -
  have pf: "parse_frames (concat (map frame fs)) = fs" using assms(1) by (rule parse_concat_frames)
  from assms(4) obtain out err rest ok where
    d: "demux rd (concat (map frame fs)) (new_writer (max_bytes cfg)) (new_writer (max_bytes cfg)) =
          (out, err, rest, ok)"
    and r: "e_stdout r = concat (lw_chunks out)" "e_stderr r = concat (lw_chunks err)"
      "e_truncated r \<longleftrightarrow> lw_truncated out \<or> lw_truncated err"
    by (rule exec_buffered_demux)
  have pos: "0 < max_bytes cfg" by (simp add: max_bytes_def default_max_output_def)
  from demux_offered [OF covers_new [OF pos] covers_new [OF pos] d] obtain p1 p2 where
    p: "covers out p1" "covers err p2" "prefix p1 (payload 1 fs)" "prefix p2 (payload 2 fs)"
      "lw_truncated out \<or> lw_truncated err \<or> p1 = payload 1 fs \<and> p2 = payload 2 fs"
    and lim: "lw_limit out = max_bytes cfg" "lw_limit err = max_bytes cfg"
    by (auto simp: offered_def new_writer_def pf)
  have "length p1 \<le> length (payload 1 fs)" "length p2 \<le> length (payload 2 fs)"
    using p(3,4) by (auto dest: prefix_length_le)
  with p lim assms(2,3) have t: "\<not> lw_truncated out" "\<not> lw_truncated err"
    by (auto simp: covers_truncated)
  with p lim assms(2,3) r show ?thesis by (auto simp: covers_def)
qed

definition example_config :: exec_config where
  "example_config = \<lparr>x_container = ''c'', x_command = ''ls'', x_args = [], x_env = [], x_dir = [],
                     x_timeout = 5, x_max_output = 100\<rparr>"

definition example_answers :: exec_answers where
  "example_answers = \<lparr>a_container = None, a_create = True, a_attach = True, a_deadline = False,
                      a_duration = 7, a_exit = Some 0, a_state = None\<rparr>"

definition example_frames :: "(nat \<times> string) list" where
  "example_frames = [(1, ''ab''), (2, ''e''), (0, ''in''), (1, ''c'')]"

definition example_run :: "exec_create option \<times> (exec_error + exec_result)" where
  "example_run = exec_buffered ''nobody'' example_answers (\<lambda>_. 1) (concat (map frame example_frames)) example_config"

lemma small_chars:
  "char_of (0::nat) = CHR 0x00" "char_of (Suc 0) = CHR 0x01" "char_of (1::nat) = CHR 0x01"
  "char_of (2::nat) = CHR 0x02" "char_of (3::nat) = CHR 0x03" "char_of (Suc (Suc 0)) = CHR 0x02"
  "char_of (Suc (Suc (Suc 0))) = CHR 0x03"
  by code_simp+

lemma example_bytes: "concat (map frame example_frames) =
  [CHR 0x01, CHR 0x00, CHR 0x00, CHR 0x00, CHR 0x00, CHR 0x00, CHR 0x00, CHR 0x02, CHR ''a'', CHR ''b'',
   CHR 0x02, CHR 0x00, CHR 0x00, CHR 0x00, CHR 0x00, CHR 0x00, CHR 0x00, CHR 0x01, CHR ''e'',
   CHR 0x00, CHR 0x00, CHR 0x00, CHR 0x00, CHR 0x00, CHR 0x00, CHR 0x00, CHR 0x02, CHR ''i'', CHR ''n'',
   CHR 0x01, CHR 0x00, CHR 0x00, CHR 0x00, CHR 0x00, CHR 0x00, CHR 0x00, CHR 0x01, CHR ''c'']"
  by (simp add: frame_def example_frames_def small_chars)

lemma frames_roundtrip_witness:
  "\<exists>req r. example_run = (req, Inr r) \<and> e_stdout r = ''abc'' \<and> e_stderr r = ''e'' \<and> \<not> e_truncated r"
proof -
  have ok: "is_ok (snd example_run)"
    unfolding example_run_def example_bytes by code_simp
  then obtain req r where run: "example_run = (req, Inr r)"
    by (metis is_ok_iff prod.collapse)
  have "\<forall>(t, p) \<in> set example_frames. t < 256 \<and> length p < 4294967296"
    by (simp add: example_frames_def)
  moreover have "max_bytes example_config = 100" by (simp add: max_bytes_def example_config_def)
  moreover have "payload 1 example_frames = ''abc''" "payload 2 example_frames = ''e''"
    by code_simp+
  ultimately have "e_stdout r = ''abc'' \<and> e_stderr r = ''e'' \<and> \<not> e_truncated r"
    using frames_roundtrip [OF _ _ _ run [unfolded example_run_def]] by simp
  with run show ?thesis by blast
qed

text \<open>
  Dropping the excess is not what happens at the cap: the write that crosses it is short, which
  ends the demultiplexing.  Later frames of the other descriptor are lost and the rest of the stream
  is never read, so the exit status is asked for while the command may still be running.
\<close>

lemma small_frame: "length p < 256 \<Longrightarrow> frame (t, p) =
  [char_of t, CHR 0x00, CHR 0x00, CHR 0x00, CHR 0x00, CHR 0x00, CHR 0x00, char_of (length p)] @ p"
  by (simp add: frame_def small_chars)

lemma cap_ends_demux:
  "case demux (\<lambda>_. 3) (frame (1, ''abc'') @ frame (1, ''def'') @ frame (2, ''err'')) (new_writer 4) (new_writer 4) of
     (out, err, rest, ended) \<Rightarrow>
       concat (lw_chunks out) = ''abcd'' \<and> lw_chunks err = [] \<and> rest = frame (2, ''err'') \<and> \<not> ended"
proof -
  have f: "frame (1, ''abc'') = [CHR 0x01, CHR 0x00, CHR 0x00, CHR 0x00, CHR 0x00, CHR 0x00, CHR 0x00, CHR 0x03] @ ''abc''"
    "frame (1, ''def'') = [CHR 0x01, CHR 0x00, CHR 0x00, CHR 0x00, CHR 0x00, CHR 0x00, CHR 0x00, CHR 0x03] @ ''def''"
    "frame (2, ''err'') = [CHR 0x02, CHR 0x00, CHR 0x00, CHR 0x00, CHR 0x00, CHR 0x00, CHR 0x00, CHR 0x03] @ ''err''"
    by (simp_all add: small_frame small_chars)
  show ?thesis unfolding f by code_simp
qed

section \<open>The working directory\<close>

text \<open>What the sandbox is asked for is inside the two allowed trees and holds no \<open>..\<close>.\<close>

lemma normalize_working_dir_ok:
  assumes "normalize_working_dir wd = Some d"
  shows "clean d = d \<and> dotdot \<notin> set (comps d) \<and>
    (d = workspace_dir \<or> d = tmp_dir \<or> has_prefix d (workspace_dir @ [slash]) \<or> has_prefix d (tmp_dir @ [slash]))"
proof (cases "wd = []")
  case True
  with assms have "d = workspace_dir" by (simp add: normalize_working_dir_def)
  moreover have "clean workspace_dir = workspace_dir" "dotdot \<notin> set (comps workspace_dir)" by code_simp+
  ultimately show ?thesis by simp
next
  case False
  with assms have d: "d = clean wd" "rooted wd"
    and r: "d = workspace_dir \<or> d = tmp_dir \<or> has_prefix d (workspace_dir @ [slash]) \<or> has_prefix d (tmp_dir @ [slash])"
    by (auto simp: normalize_working_dir_def Let_def split: if_splits)
  have "dotdot \<notin> set (comps d)"
    using norm_comps_rooted [of "[]" "comps wd"] d by (simp add: comps_clean)
  with d r show ?thesis by (simp add: clean_idem)
qed

end
