(* ===== verification/RunnerProps.thy ===== *)
theory RunnerProps
  imports Runner ExecProps
begin

text \<open>
  Properties of a run: what must have happened before a command executes and what follows it, and
  that the values of injected secrets reach neither the database, nor the audit log, nor the caller,
  except through output that the redactor passes.
\<close>

section \<open>The shape of a run\<close>

lemma prepare_run_ok:
  assumes "prepare_run policy create_ok q = (Inr row, evs)"
  shows "policy (q_command q) (q_args q)" "create_ok" "row = new_run_row q" "q_command q \<noteq> []"
    "evs = [EvCreateRun row, EvAuditStarted (q_command q) (redact_args (q_args q))]"
    "list_all (\<lambda>(k, v). \<not> bad_env_key k \<and> CHR 0x00 \<notin> set v) (q_env q)"
  using assms
  by (auto simp: prepare_run_def Let_def list_all_iff list_ex_iff split: if_splits)

lemma prepare_run_error:
  assumes "prepare_run policy create_ok q = (Inl e, evs)"
  shows "evs = [] \<or> e = RecordFailed \<and> evs = [EvCreateRun (new_run_row q)]"
  using assms by (auto simp: prepare_run_def Let_def split: if_splits)

lemma run_timeout_range: "1 \<le> run_timeout t \<and> run_timeout t \<le> 3600"
  by (simp add: run_timeout_def)

fun follow_up :: "run_event \<Rightarrow> bool" where
  "follow_up (EvUpsertArtifact _ _ _) = True"
| "follow_up (EvCheckpoint _ _ _ _) = True"
| "follow_up _ = False"

lemma detect_artifacts_follow: "list_all follow_up (detect_artifacts pre ws)"
  by (simp add: detect_artifacts_def list_all_iff)

text \<open>
  Property C16.  A command runs only after its record and its audit entry, and is always accounted
  for.  An execution either fails before anything ran, leaving at most the pending row, or causes
  exactly this sequence: the pending row, the audit entry that the command starts (with redacted
  arguments), the execution itself, one update of the row, one audit entry with the same status and
  duration, and then only artifact rows and the checkpoint.  It runs only when the policy allows
  the command with its arguments, with a timeout between one second and one hour.
\<close>

theorem run_accounted:
  "case execute_run policy create_ok exec a q of
     (Inl e, evs) \<Rightarrow> evs = [] \<or> e = RecordFailed \<and> evs = [EvCreateRun (new_run_row q)]
   | (Inr run, evs) \<Rightarrow>
       policy (q_command q) (q_args q) \<and>
       (\<exists>cfg u rest. evs = [EvCreateRun (new_run_row q),
            EvAuditStarted (q_command q) (redact_args (q_args q)), EvExec cfg, EvUpdateRun u,
            EvAuditFinished (u_status u \<noteq> Completed) (u_status u) (u_duration u)] @ rest \<and>
          list_all follow_up rest \<and> x_command cfg = q_command q \<and> x_args cfg = q_args q \<and>
          1 \<le> x_timeout cfg \<and> x_timeout cfg \<le> 3600 \<and> u_status u \<in> {Completed, Failed, Timeout})"
proof (cases "prepare_run policy create_ok q")
  case (Pair r evs)
  show ?thesis
  proof (cases r)
    case (Inl e)
    then show ?thesis
      using prepare_run_error Pair by (simp add: execute_run_def)
  next
    case (Inr row)
    note p = prepare_run_ok [OF Pair [unfolded Inr]]
    define res where "res = map_sum id (redact_result (q_secret_env q)) (exec (run_config q row))"
    define u where "u = run_result_update a res"
    define rest where "rest = (if q_workspace q \<noteq> []
      then detect_artifacts (snapshot_dir (q_workspace q) (ra_pre a)) (ra_post a) else []) @ run_checkpoint a res"
    have e: "execute_impl exec a q row = (returned_run a res u row, EvExec (run_config q row) # EvUpdateRun u #
        audit_finished (u_status u) (u_duration u) # rest)"
      by (simp add: execute_impl_def Let_def after_run_def res_def u_def rest_def)
    have follow: "list_all follow_up rest"
      using detect_artifacts_follow by (simp add: rest_def run_checkpoint_def split: sum.splits)
    have st: "u_status u \<in> {Completed, Failed, Timeout}"
      by (auto simp: u_def run_result_update_def resolve_status_def split: sum.splits)
    then have af: "audit_finished (u_status u) (u_duration u) =
        EvAuditFinished (u_status u \<noteq> Completed) (u_status u) (u_duration u)"
      by (auto simp: audit_finished_def)
    have cfg: "x_command (run_config q row) = q_command q" "x_args (run_config q row) = q_args q"
      "1 \<le> x_timeout (run_config q row)" "x_timeout (run_config q row) \<le> 3600"
      using run_timeout_range by (simp_all add: run_config_def p(3) new_run_row_def)
    show ?thesis
      using Pair Inr e st af cfg p follow
      by (auto simp: execute_run_def intro!: exI [of _ "run_config q row"] exI [of _ u])
  qed
qed

section \<open>Secrets\<close>

text \<open>Everything a run leaves behind, except the execution request itself.\<close>

fun visible :: "run_event \<Rightarrow> bool" where
  "visible (EvExec _) = False"
| "visible _ = True"

definition outcome_after_redaction ::
  "(string \<times> string) list \<Rightarrow> exec_error + exec_result \<Rightarrow> exec_error + exec_result" where
  "outcome_after_redaction secrets r = map_sum id (redact_result secrets) r"

lemma new_run_row_secret: "new_run_row (q\<lparr>q_secret_env := s\<rparr>) = new_run_row q"
  by (simp add: new_run_row_def)

lemma prepare_run_secret: "prepare_run policy ok (q\<lparr>q_secret_env := s\<rparr>) = prepare_run policy ok q"
  by (simp add: prepare_run_def new_run_row_secret Let_def)

text \<open>
  Property C17.  Non-interference for secrets.  Take two executions of the same request that differ
  only in the secrets injected, and in what the command printed.  If the redacted results are equal,
  then the run returned to the caller and every database write, audit entry, artifact row and
  checkpoint are equal too: secret values reach the outside only as arguments of the execution, or
  through output that the redactor lets pass.
\<close>

theorem secrets_not_recorded:
  assumes "\<And>row. outcome_after_redaction s1 (exec1 (run_config (q\<lparr>q_secret_env := s1\<rparr>) row)) =
                   outcome_after_redaction s2 (exec2 (run_config (q\<lparr>q_secret_env := s2\<rparr>) row))"
  shows "fst (execute_run policy ok exec1 a (q\<lparr>q_secret_env := s1\<rparr>)) =
           fst (execute_run policy ok exec2 a (q\<lparr>q_secret_env := s2\<rparr>)) \<and>
         filter visible (snd (execute_run policy ok exec1 a (q\<lparr>q_secret_env := s1\<rparr>))) =
           filter visible (snd (execute_run policy ok exec2 a (q\<lparr>q_secret_env := s2\<rparr>)))"
proof -
  have r: "map_sum id (redact_result s1) (exec1 (run_config (q\<lparr>q_secret_env := s1\<rparr>) row)) =
           map_sum id (redact_result s2) (exec2 (run_config (q\<lparr>q_secret_env := s2\<rparr>) row))" for row
    using assms by (simp add: outcome_after_redaction_def)
  have impl: "fst (execute_impl exec1 a (q\<lparr>q_secret_env := s1\<rparr>) row) =
      fst (execute_impl exec2 a (q\<lparr>q_secret_env := s2\<rparr>) row) \<and>
    filter visible (snd (execute_impl exec1 a (q\<lparr>q_secret_env := s1\<rparr>) row)) =
      filter visible (snd (execute_impl exec2 a (q\<lparr>q_secret_env := s2\<rparr>) row))" for row
    by (simp add: execute_impl_def Let_def r after_run_def)
  show ?thesis
    using impl
    by (auto simp: execute_run_def prepare_run_secret split: prod.splits sum.splits)
      (metis fst_conv snd_conv)+
qed

definition example_request :: run_request where
  "example_request = \<lparr>q_container = ''c'', q_command = ''env'', q_args = [''--token'', ''t''], q_env = [(''A'', ''1'')],
     q_secret_env = [], q_dir = [], q_timeout = 10, q_actor = ''k'', q_callback = [], q_workspace = ''/w''\<rparr>"

definition example_run_answers :: run_answers where
  "example_run_answers = \<lparr>ra_pre = [], ra_post = [], ra_elapsed = 0, ra_update_ok = True,
     ra_reload_ok = True, ra_checkpoint = True\<rparr>"

definition print_key :: "string \<Rightarrow> exec_config \<Rightarrow> exec_error + exec_result" where
  "print_key v cfg = Inr (base_result\<lparr>e_stdout := ''KEY='' @ v\<rparr>)"

lemma print_key_redacted:
  "outcome_after_redaction [(''KEY'', ''alpha1'')] (print_key ''alpha1'' cfg) =
     Inr (base_result\<lparr>e_stdout := ''KEY=[REDACTED:KEY]''\<rparr>)"
  "outcome_after_redaction [(''KEY'', ''beta22'')] (print_key ''beta22'' cfg) =
     Inr (base_result\<lparr>e_stdout := ''KEY=[REDACTED:KEY]''\<rparr>)"
proof -
  have "redact (new_redactor [(''KEY'', ''alpha1'')]) ''KEY=alpha1'' = ''KEY=[REDACTED:KEY]''"
    "redact (new_redactor [(''KEY'', ''beta22'')]) ''KEY=beta22'' = ''KEY=[REDACTED:KEY]''"
    by code_simp+
  then show
  "outcome_after_redaction [(''KEY'', ''alpha1'')] (print_key ''alpha1'' cfg) =
     Inr (base_result\<lparr>e_stdout := ''KEY=[REDACTED:KEY]''\<rparr>)"
  "outcome_after_redaction [(''KEY'', ''beta22'')] (print_key ''beta22'' cfg) =
     Inr (base_result\<lparr>e_stdout := ''KEY=[REDACTED:KEY]''\<rparr>)"
    by (simp_all add: outcome_after_redaction_def print_key_def redact_result_def Let_def add_oom_def
        oom_message_def base_result_def redact_def split: option.splits)
qed

lemma secrets_not_recorded_witness:
  "fst (execute_run (\<lambda>_ _. True) True (print_key ''alpha1'') example_run_answers
          (example_request\<lparr>q_secret_env := [(''KEY'', ''alpha1'')]\<rparr>)) =
   fst (execute_run (\<lambda>_ _. True) True (print_key ''beta22'') example_run_answers
          (example_request\<lparr>q_secret_env := [(''KEY'', ''beta22'')]\<rparr>))"
  using print_key_redacted
  by (intro conjunct1 [OF secrets_not_recorded]) (simp only: print_key_redacted)

text \<open>
  Two behaviours worth knowing.  A timeout above one hour, which the handlers accept up to
  \<open>MAX_SESSION_TIMEOUT_SEC\<close> (a day by default), becomes thirty seconds; and when the update of the
  row fails but the reload succeeds, the caller is given the pending row.
\<close>

lemma long_timeout_becomes_default: "run_timeout 7200 = 30"
  by (simp add: run_timeout_def)

lemma failed_update_returns_pending:
  "\<not> ra_update_ok a \<Longrightarrow> ra_reload_ok a \<Longrightarrow> r_status (returned_run a r u row) = r_status row"
  by (simp add: returned_run_def Let_def)

section \<open>Arguments in the audit log\<close>

lemma redact_args_length: "length (redact_args as) = length as"
proof (induction as rule: redact_args.induct)
  case (2 a as)
  then show ?case
    by (subst redact_args.simps) (auto split: option.splits bool.splits list.splits)
qed (simp add: redact_args.simps)

lemma redact_args_example:
  "redact_args [''--user'', ''bob'', ''--Password'', ''hunter2'', ''--API-KEY=k3y'', ''--token''] =
     [''--user'', ''bob'', ''--Password'', ''***'', ''--API-KEY=***'', ''--token'']"
  by code_simp

end
