(* ===== verification/RunsProps.thy ===== *)
theory RunsProps
  imports RunsHandler RunnerProps
begin

text \<open>
  Properties of the run endpoints: what a request that reaches the runner has passed, and which
  secrets are looked up on the way.
\<close>

lemma validate_command_plain:
  assumes "validate_command c"
  shows "c \<noteq> [] \<and> CHR '' '' \<notin> set c"
proof
  have "trim_space [] = []" by code_simp
  with assms show "c \<noteq> []" unfolding validate_command_def by metis
  show "CHR '' '' \<notin> set c"
    using assms unfolding validate_command_def list_ex_iff by blast
qed

definition dir_allowed :: "string \<Rightarrow> bool" where
  "dir_allowed d \<longleftrightarrow> d = [] \<or> clean d = d \<and> dotdot \<notin> set (comps d) \<and>
    (d = workspace_dir \<or> d = tmp_dir \<or> has_prefix d (workspace_dir @ [slash]) \<or> has_prefix d (tmp_dir @ [slash]))"

lemma validate_working_dir_ok: "validate_working_dir wd = Some d \<Longrightarrow> dir_allowed d"
  using normalize_working_dir_ok [of wd d]
  by (auto simp: validate_working_dir_def dir_allowed_def split: if_splits)

text \<open>What the handlers guarantee of a request they hand to the runner.\<close>

definition admitted :: "run_deps \<Rightarrow> session_row \<Rightarrow> run_request \<Rightarrow> bool" where
  "admitted d s q \<longleftrightarrow>
     rd_access d ''executor'' = Inr s \<and> s_stopped s = None \<and> s_status s = ''running'' \<and>
     s_container s = Some (q_container q) \<and>
     fst (admit (rd_quota d) (rd_quota_env d) (rd_paused d) s) = Inr () \<and>
     q_command q \<noteq> [] \<and> CHR '' '' \<notin> set (q_command q) \<and> dir_allowed (q_dir q) \<and>
     0 \<le> q_timeout q \<and> q_timeout q \<le> rd_max_timeout d \<and> q_actor q = rd_actor d \<and>
     set (q_secret_env q) \<subseteq>
       {(n, v). may_inject d n \<and> (\<exists>get. rd_provider d = Some get \<and> get n = Some v)}"

lemma admit_body_ok:
  assumes "admit_body d cb s cid b = (Inr q, asked, evs)"
  obtains env where "gate_secrets d b = (Inr env, asked, evs)" "q_secret_env q = env"
    "q_container q = cid" "validate_command (q_command q)" "dir_allowed (q_dir q)"
    "0 \<le> q_timeout q" "q_timeout q \<le> rd_max_timeout d" "q_actor q = rd_actor d"
proof -
  have v: "validate_command (b_command b)"
    using assms by (simp add: admit_body_def split: if_splits)
  obtain dir where dir: "validate_working_dir (b_dir b) = Some dir"
    using assms v by (cases "validate_working_dir (b_dir b)") (auto simp: admit_body_def split: if_splits)
  obtain r asked' evs' where g: "gate_secrets d b = (r, asked', evs')" using prod_cases3 by blast
  show ?thesis
  proof (cases r)
    case (Inl c)
    with assms v dir g show ?thesis by (simp add: admit_body_def split: if_splits)
  next
    case (Inr env)
    with assms v dir g show ?thesis
      by (intro that [of env]) (auto simp: admit_body_def validate_working_dir_ok split: if_splits)
  qed
qed

lemma admit_body_asked:
  assumes "admit_body d cb s cid b = (r, asked, evs)" "n \<in> set asked"
  shows "may_inject d n"
proof -
  obtain r' asked' evs' where g: "gate_secrets d b = (r', asked', evs')" using prod_cases3 by blast
  have "asked = [] \<or> asked = asked'"
    using assms(1) g by (auto simp: admit_body_def split: if_splits option.splits sum.splits)
  with gate_secrets_asked [OF g] assms(2) show ?thesis by auto
qed

text \<open>
  The run endpoints are gated, and secrets are least-privilege.  Whichever of the
  three endpoints is called, the runner receives a request only for a running session that is not
  stopped, to which the caller has executor access, whose workspace is admitted by the quota; with
  a command that is a single word, a working directory inside the allowed trees and a timeout in
  range.  Every secret it carries is one the caller may inject, with the provider's value; and even
  when the request fails, the provider was asked only for secrets the caller may inject.
\<close>

theorem run_request_gated:
  "case admit_run_request d callback_ok sid body of
     (r, asked, evs) \<Rightarrow>
       set asked \<subseteq> {n. may_inject d n} \<and>
       (case r of Inl code \<Rightarrow> True | Inr q \<Rightarrow> \<exists>s. admitted d s q)"
proof -
  obtain r asked evs where a: "admit_run_request d callback_ok sid body = (r, asked, evs)"
    using prod_cases3 by blast
  show ?thesis
  proof (cases "\<exists>s cid b. sid \<noteq> None \<and> fst (gate_session d) = Inr (s, cid) \<and> body = Some b")
    case False
    have "asked = [] \<and> (\<exists>c. r = Inl c)"
    proof (cases sid)
      case (Some i)
      with False a show ?thesis
        by (cases "fst (gate_session d)"; cases body) (auto simp: admit_run_request_def)
    qed (use a in \<open>auto simp: admit_run_request_def\<close>)
    with a show ?thesis by auto
  next
    case True
    then obtain s cid b where t: "sid \<noteq> None" "fst (gate_session d) = Inr (s, cid)" "body = Some b"
      by blast
    with a have body: "admit_body d callback_ok s cid b = (r, asked, evs)"
      by (auto simp: admit_run_request_def)
    have "\<exists>s. admitted d s q" if r: "r = Inr q" for q
      using body [unfolded r]
    proof (rule admit_body_ok)
      fix env
      assume "gate_secrets d b = (Inr env, asked, evs)" "q_secret_env q = env"
        "q_container q = cid" "validate_command (q_command q)" "dir_allowed (q_dir q)"
        "0 \<le> q_timeout q" "q_timeout q \<le> rd_max_timeout d" "q_actor q = rd_actor d"
      with gate_session_ok [OF t(2)] validate_command_plain [of "q_command q"]
        gate_secrets_ok [of d b env asked evs]
      have "admitted d s q"
        unfolding admitted_def by blast
      then show ?thesis by blast
    qed
    moreover have "set asked \<subseteq> {n. may_inject d n}" using admit_body_asked [OF body] by blast
    ultimately show ?thesis by (simp add: a split: sum.splits)
  qed
qed

text \<open>
  When the job queue is full the run has already been recorded: the caller is told 503, and the
  pending row and the entry saying that the command started remain.
\<close>

lemma queue_full_leaves_pending:
  assumes "run_async d True policy create_ok cb (\<lambda>_. False) sid body = (503, evs, job)"
    "admit_run_request d cb sid body = (Inr q, asked, aud)" "prepare_run policy create_ok q = (Inr row, evs')"
  shows "job = None \<and> evs = [EvCreateRun row, EvAuditStarted (q_command q) (redact_args (q_args q))] \<and>
    r_status row = Pending"
  using assms prepare_run_ok [OF assms(3)]
  by (simp add: run_async_def new_run_row_def)

end
