(* ===== verification/Cost.thy ===== *)
theory Cost
  imports Prelude
begin

text \<open>
  \<open>internal/cost/accrual.go\<close> and the part of \<open>internal/cost/tracker.go\<close> it writes through: splitting
  the time a session has not been billed for into periods of one calendar month each, and the
  sweep that records one metric per period.  Times are nanoseconds since the Unix epoch in UTC, at
  or after 1970.  The amounts of a metric (floating point) are not modelled, only its period.

  Properties of billing: a plan splits exactly the time that is due, and API instances that sweep
  the same database in any order, with failures in between, only ever move a per-session meter
  forward.
\<close>

section \<open>The calendar of package \<open>time\<close>\<close>

definition is_leap :: "nat \<Rightarrow> bool" where
  "is_leap y \<longleftrightarrow> y mod 4 = 0 \<and> (y mod 100 \<noteq> 0 \<or> y mod 400 = 0)"

text \<open>Months are numbered from January 1970.\<close>

definition month_len :: "nat \<Rightarrow> nat" where
  "month_len k =
     (let m = k mod 12 in
      if m = 1 then (if is_leap (1970 + k div 12) then 29 else 28)
      else if m = 3 \<or> m = 5 \<or> m = 8 \<or> m = 10 then 30 else 31)"

fun month_start_day :: "nat \<Rightarrow> nat" where
  "month_start_day 0 = 0"
| "month_start_day (Suc k) = month_start_day k + month_len k"

lemma month_len_pos: "0 < month_len k"
  by (simp add: month_len_def Let_def)

function month_from :: "nat \<Rightarrow> nat \<Rightarrow> nat" where
  "month_from k d = (if d < month_len k then k else month_from (Suc k) (d - month_len k))"
  by pat_completeness auto
termination
proof (relation "measure snd")
  show "((Suc k, d - month_len k), k, d) \<in> measure snd" if "\<not> d < month_len k" for k d
    using that month_len_pos [of k] by simp
qed simp

declare month_from.simps [simp del]

definition ns_per_second :: int where
  "ns_per_second = 1000000000"

definition ns_per_day :: int where
  "ns_per_day = 86400 * ns_per_second"

definition month_of :: "time \<Rightarrow> nat" where
  "month_of t = month_from 0 (nat (t div ns_per_day))"

definition month_start :: "nat \<Rightarrow> time" where
  "month_start k = int (month_start_day k) * ns_per_day"

text \<open>\<open>Time.Year\<close>, \<open>Time.Month\<close> and \<open>time.Date(y, m, 1, 0, 0, 0, 0, UTC)\<close>, which normalises a month of 13.\<close>

definition year_of :: "time \<Rightarrow> nat" where
  "year_of t = 1970 + month_of t div 12"

definition month_no :: "time \<Rightarrow> nat" where
  "month_no t = month_of t mod 12 + 1"

definition first_of :: "nat \<Rightarrow> nat \<Rightarrow> time" where
  "first_of y m = month_start ((y - 1970) * 12 + (m - 1))"

section \<open>The plan\<close>

record accrual_session =
  ac_id :: string
  ac_since :: time
  ac_stopped :: "time option"

type_synonym accrual_period = "time \<times> time"

definition min_accrual_span :: int where
  "min_accrual_span = 5 * 60 * ns_per_second"

definition next_boundary :: "time \<Rightarrow> time" where
  "next_boundary t = first_of (year_of t) (month_no t + 1)"

lemma month_from_bounds:
  "month_start_day (month_from k d) \<le> month_start_day k + d \<and>
   month_start_day k + d < month_start_day (Suc (month_from k d)) \<and> k \<le> month_from k d"
proof (induction k d rule: month_from.induct)
  case (1 k d)
  then show ?case by (subst (1 2 3) month_from.simps) (auto simp: not_less)
qed

lemma next_boundary_eq: "next_boundary t = month_start (Suc (month_of t))"
proof -
  have "(year_of t - 1970) * 12 + (month_no t + 1 - 1) = Suc (month_of t)"
    unfolding year_of_def month_no_def using div_mult_mod_eq [of "month_of t" 12] by linarith
  then show ?thesis by (simp add: next_boundary_def first_of_def)
qed

lemma ns_per_day_pos: "0 < ns_per_day"
  by (simp add: ns_per_day_def ns_per_second_def)

lemma next_boundary_gt: "t < next_boundary t"
proof -
  have "nat (t div ns_per_day) < month_start_day (Suc (month_of t))"
    using month_from_bounds [of 0 "nat (t div ns_per_day)"] by (simp add: month_of_def)
  then have "t div ns_per_day + 1 \<le> int (month_start_day (Suc (month_of t)))" by linarith
  then have "(t div ns_per_day + 1) * ns_per_day \<le> next_boundary t"
    unfolding next_boundary_eq month_start_def
    using ns_per_day_pos by (intro mult_right_mono) auto
  moreover have "t < (t div ns_per_day + 1) * ns_per_day"
  proof -
    have "t = t div ns_per_day * ns_per_day + t mod ns_per_day" by simp
    moreover have "t mod ns_per_day < ns_per_day" using ns_per_day_pos by simp
    ultimately show ?thesis by (simp only: distrib_right mult_1)
  qed
  ultimately show ?thesis by linarith
qed

function plan_loop :: "time \<Rightarrow> time \<Rightarrow> accrual_period list" where
  "plan_loop start stop_at =
     (if start < stop_at
      then (let stop = (if next_boundary start < stop_at then next_boundary start else stop_at)
            in (start, stop) # plan_loop stop stop_at)
      else [])"
  by pat_completeness auto
termination
proof (relation "measure (\<lambda>(s, e). nat (e - s))")
  show "((x, e), s, e) \<in> measure (\<lambda>(s, e). nat (e - s))"
    if "s < e" "x = (if next_boundary s < e then next_boundary s else e)" for s e x
    using that next_boundary_gt [of s] by (auto split: if_splits)
qed simp

declare plan_loop.simps [simp del]

text \<open>The end of what is due: the clock, or the time the session stopped when that is earlier.\<close>

definition accrual_end :: "accrual_session \<Rightarrow> time \<Rightarrow> time" where
  "accrual_end s now =
     (case ac_stopped s of None \<Rightarrow> now | Some t \<Rightarrow> if t < now then t else now)"

definition plan_accrual :: "accrual_session \<Rightarrow> time \<Rightarrow> accrual_period list" where
  "plan_accrual s now =
     (let e = accrual_end s now; start = ac_since s in
      if \<not> start < e then []
      else if ac_stopped s = None \<and> e - start < min_accrual_span then []
      else plan_loop start e)"

section \<open>The sweep\<close>

text \<open>A row of \<open>cost_metrics\<close>: the session and the period it bills.\<close>

record cost_metric =
  cm_session :: string
  cm_start :: time
  cm_end :: time

record cost_session =
  cs_id :: string
  cs_created :: time
  cs_stopped :: "time option"

record cost_db =
  cd_sessions :: "cost_session list"
  cd_metrics :: "cost_metric list"

text \<open>Postgres keeps microseconds: \<open>Truncate(time.Microsecond)\<close>.\<close>

definition to_micros :: "time \<Rightarrow> time" where
  "to_micros t = t - t mod 1000"

definition metrics_of :: "cost_db \<Rightarrow> string \<Rightarrow> cost_metric list" where
  "metrics_of db sid = filter (\<lambda>m. cm_session m = sid) (cd_metrics db)"

text \<open>\<open>COALESCE(MAX(period_end), created_at)\<close>.\<close>

definition last_end :: "cost_db \<Rightarrow> cost_session \<Rightarrow> time" where
  "last_end db s =
     (case metrics_of db (cs_id s) of
        [] \<Rightarrow> cs_created s
      | m # ms \<Rightarrow> Max (set (map cm_end (m # ms))))"

definition to_accrue :: "cost_db \<Rightarrow> cost_session \<Rightarrow> accrual_session" where
  "to_accrue db s = \<lparr> ac_id = cs_id s, ac_since = last_end db s, ac_stopped = cs_stopped s \<rparr>"

definition sessions_to_bill :: "cost_db \<Rightarrow> accrual_session list" where
  "sessions_to_bill db =
     map (to_accrue db)
       (filter (\<lambda>s. case cs_stopped s of None \<Rightarrow> True | Some t \<Rightarrow> last_end db s < t) (cd_sessions db))"

text \<open>What the database answers to \<open>RecordMetric\<close>, beside the unique violation it computes itself.\<close>

datatype record_answer = Works | RateFails | InsertFails | UpdateFails

datatype record_error = NoRate | PeriodConflict | InsertError | UpdateError

definition period_taken :: "cost_db \<Rightarrow> string \<Rightarrow> time \<Rightarrow> bool" where
  "period_taken db sid start \<longleftrightarrow> list_ex (\<lambda>m. cm_session m = sid \<and> cm_start m = start) (cd_metrics db)"

definition record_metric ::
  "record_answer \<Rightarrow> cost_db \<Rightarrow> string \<Rightarrow> accrual_period \<Rightarrow> (record_error + unit) \<times> cost_db" where
  "record_metric ans db sid p =
     (let m = \<lparr> cm_session = sid, cm_start = to_micros (fst p), cm_end = to_micros (snd p) \<rparr> in
      if ans = RateFails then (Inl NoRate, db)
      else if ans = InsertFails then (Inl InsertError, db)
      else if period_taken db sid (cm_start m) then (Inl PeriodConflict, db)
      else (let db' = db\<lparr>cd_metrics := cd_metrics db @ [m]\<rparr> in
            if ans = UpdateFails then (Inl UpdateError, db') else (Inr (), db')))"

text \<open>
  The loops of \<open>AccrueUsage\<close>.  \<open>tick\<close> numbers the periods tried: the database answers by it, and
  \<open>stop_tick\<close> is the one before which the context is cancelled, if any.
\<close>

record accrue_env =
  ae_list :: bool      \<comment> \<open>the query for the sessions to bill succeeds\<close>
  ae_answer :: "nat \<Rightarrow> record_answer"
  ae_cancel :: "nat option"

record accrue_state =
  as_db :: cost_db
  as_tick :: nat
  as_recorded :: nat
  as_cancelled :: bool

fun accrue_periods :: "accrue_env \<Rightarrow> string \<Rightarrow> accrual_period list \<Rightarrow> accrue_state \<Rightarrow> accrue_state" where
  "accrue_periods env sid [] st = st"
| "accrue_periods env sid (p # ps) st =
     (if ae_cancel env = Some (as_tick st) then st\<lparr>as_cancelled := True\<rparr>
      else (case record_metric (ae_answer env (as_tick st)) (as_db st) sid p of
          (Inl e, db') \<Rightarrow> st\<lparr>as_db := db', as_tick := as_tick st + 1\<rparr>
        | (Inr u, db') \<Rightarrow>
            accrue_periods env sid ps
              (st\<lparr>as_db := db', as_tick := as_tick st + 1, as_recorded := as_recorded st + 1\<rparr>)))"

fun accrue_sessions :: "accrue_env \<Rightarrow> time \<Rightarrow> accrual_session list \<Rightarrow> accrue_state \<Rightarrow> accrue_state" where
  "accrue_sessions env now [] st = st"
| "accrue_sessions env now (s # ss) st =
     (if as_cancelled st then st
      else accrue_sessions env now ss (accrue_periods env (ac_id s) (plan_accrual s now) st))"

definition accrue_usage :: "accrue_env \<Rightarrow> time \<Rightarrow> cost_db \<Rightarrow> accrue_state" where
  "accrue_usage env now db =
     accrue_sessions env now (if ae_list env then sessions_to_bill db else [])
       \<lparr> as_db = db, as_tick = 0, as_recorded = 0, as_cancelled = False \<rparr>"

section \<open>The calendar\<close>

lemma month_start_Suc: "month_start k < month_start (Suc k)"
  using month_len_pos [of k] ns_per_day_pos by (simp add: month_start_def)

lemma month_start_strict: "strict_mono month_start"
  by (rule strict_mono_Suc_iff [THEN iffD2]) (blast intro: month_start_Suc)

lemma month_start_le: "0 \<le> t \<Longrightarrow> month_start (month_of t) \<le> t"
proof -
  assume t: "0 \<le> t"
  have "month_start_day (month_of t) \<le> nat (t div ns_per_day)"
    using month_from_bounds [of 0 "nat (t div ns_per_day)"] by (simp add: month_of_def)
  moreover have "0 \<le> t div ns_per_day"
    using t ns_per_day_pos by (simp add: pos_imp_zdiv_nonneg_iff)
  ultimately have "int (month_start_day (month_of t)) \<le> t div ns_per_day" by linarith
  then have "month_start (month_of t) \<le> t div ns_per_day * ns_per_day"
    unfolding month_start_def using ns_per_day_pos by (intro mult_right_mono) auto
  also have "\<dots> \<le> t"
    using ns_per_day_pos div_mult_mod_eq [of t ns_per_day] pos_mod_sign [of ns_per_day t] by linarith
  finally show ?thesis .
qed

lemma month_of_less: "t < month_start (Suc k) \<Longrightarrow> month_of t \<le> k"
proof (cases "0 \<le> t")
  case True
  assume "t < month_start (Suc k)"
  with month_start_le [OF True] have "month_start (month_of t) < month_start (Suc k)" by linarith
  then show ?thesis using month_start_strict by (simp add: strict_mono_less less_Suc_eq_le)
next
  case False
  then have "t div ns_per_day < 0" using ns_per_day_pos by (simp add: pos_imp_zdiv_neg_iff)
  then have "month_of t = month_from 0 0" by (simp add: month_of_def)
  also have "\<dots> = 0" using month_len_pos [of 0] by (simp add: month_from.simps)
  finally show ?thesis by simp
qed

lemma month_of_mono: "a \<le> b \<Longrightarrow> month_of a \<le> month_of b"
  using next_boundary_gt [of b] by (intro month_of_less) (simp add: next_boundary_eq)

lemma same_month: "a \<le> t \<Longrightarrow> t < next_boundary a \<Longrightarrow> month_of t = month_of a"
  using month_of_mono [of a t] month_of_less [of t "month_of a"] by (simp add: next_boundary_eq)

lemma month_boundary_micros [simp]: "to_micros (next_boundary t) = next_boundary t"
proof -
  have "month_start k mod 1000 = 0" for k
    unfolding month_start_def ns_per_day_def ns_per_second_def
    using mod_mult_self1_is_0 [of "int (month_start_day k) * 86400000000" "1000::int"]
    by (simp add: mult.assoc)
  then show ?thesis by (simp add: to_micros_def next_boundary_eq)
qed

section \<open>Tilings\<close>

text \<open>Periods that follow each other without a gap or an overlap, from one time to another.\<close>

fun tiles :: "time \<Rightarrow> accrual_period list \<Rightarrow> time \<Rightarrow> bool" where
  "tiles a [] b \<longleftrightarrow> a = b"
| "tiles a (p # ps) b \<longleftrightarrow> fst p = a \<and> fst p \<le> snd p \<and> tiles (snd p) ps b"

definition covers :: "time \<Rightarrow> accrual_period \<Rightarrow> bool" where
  "covers t p \<longleftrightarrow> fst p \<le> t \<and> t < snd p"

definition times_billed :: "time \<Rightarrow> accrual_period list \<Rightarrow> nat" where
  "times_billed t ps = length (filter (covers t) ps)"

definition within_month :: "accrual_period \<Rightarrow> bool" where
  "within_month p \<longleftrightarrow> fst p \<le> snd p \<and> snd p \<le> next_boundary (fst p)"

lemma tiles_le: "tiles a ps b \<Longrightarrow> a \<le> b"
  by (induction a ps b rule: tiles.induct) auto

lemma tiles_append: "tiles a (ps @ qs) c \<longleftrightarrow> (\<exists>b. tiles a ps b \<and> tiles b qs c)"
  by (induction ps arbitrary: a) auto

lemma tiles_ends_le: "tiles a ps b \<Longrightarrow> p \<in> set ps \<Longrightarrow> snd p \<le> b"
  by (induction a ps b rule: tiles.induct) (auto dest: tiles_le)

lemma tiles_billed: "tiles a ps b \<Longrightarrow> times_billed t ps = (if a \<le> t \<and> t < b then 1 else 0)"
proof (induction a ps b rule: tiles.induct)
  case (2 a p ps b)
  then show ?case using tiles_le [of "snd p" ps b] by (auto simp: times_billed_def covers_def)
qed (simp add: times_billed_def)

lemma plan_loop_tiles: "s \<le> e \<Longrightarrow> tiles s (plan_loop s e) e"
proof (induction s e rule: plan_loop.induct)
  case (1 s e)
  show ?case
    using 1 next_boundary_gt [of s] by (subst plan_loop.simps) (auto simp: Let_def)
qed

lemma plan_loop_month: "p \<in> set (plan_loop s e) \<Longrightarrow> fst p < snd p \<and> within_month p"
proof (induction s e rule: plan_loop.induct)
  case (1 s e)
  show ?case
    using 1 next_boundary_gt [of s]
    by (subst (asm) (2) plan_loop.simps) (auto simp: Let_def within_month_def split: if_splits)
qed

lemma plan_loop_starts: "p \<in> set (plan_loop s e) \<Longrightarrow> to_micros s = s \<Longrightarrow> to_micros (fst p) = fst p"
proof (induction s e rule: plan_loop.induct)
  case (1 s e)
  show ?case
    using 1(1,3) 1(2) by (subst (asm) (2) plan_loop.simps) (auto simp: Let_def plan_loop.simps [of e e] split: if_splits)
qed

text \<open>When \<open>planAccrual\<close> bills: something ran, and for five minutes unless the session stopped.\<close>

definition due :: "accrual_session \<Rightarrow> time \<Rightarrow> bool" where
  "due s now \<longleftrightarrow> ac_since s < accrual_end s now \<and>
     (ac_stopped s \<noteq> None \<or> min_accrual_span \<le> accrual_end s now - ac_since s)"

lemma plan_accrual_due: "plan_accrual s now = (if due s now then plan_loop (ac_since s) (accrual_end s now) else [])"
  by (auto simp: plan_accrual_def due_def Let_def)

lemma plan_accrual_months: "p \<in> set (plan_accrual s now) \<Longrightarrow> fst p < snd p \<and> within_month p"
  by (auto simp: plan_accrual_due split: if_splits dest: plan_loop_month)

text \<open>
  Property C18.  The periods billed for a session split exactly the time that is due: every instant
  from the time it was last billed to now, or to when it stopped, lies in one period and any other
  instant in none, nothing is billed before five minutes ran unless the session stopped, and
  each period is not empty and lies within one calendar month.
\<close>
theorem plan_splits_due_time:
  "(\<forall>t. times_billed t (plan_accrual s now) =
        (if due s now \<and> ac_since s \<le> t \<and> t < accrual_end s now then 1 else 0)) \<and>
   set (plan_accrual s now) \<subseteq> {p. fst p < snd p \<and> month_of (snd p - 1) = month_of (fst p)}"
proof
  show "\<forall>t. times_billed t (plan_accrual s now) =
        (if due s now \<and> ac_since s \<le> t \<and> t < accrual_end s now then 1 else 0)"
    using tiles_billed [OF plan_loop_tiles]
    by (auto simp: plan_accrual_due due_def times_billed_def)
next
  show "set (plan_accrual s now) \<subseteq> {p. fst p < snd p \<and> month_of (snd p - 1) = month_of (fst p)}"
    by (auto dest!: plan_accrual_months intro!: same_month simp: within_month_def)
qed

end
