(* ===== verification/CostRuns.thy ===== *)
theory CostRuns
  imports Cost
begin

text \<open>
  Several API instances run \<open>AccrueUsage\<close> against one database.  A step is one access to the
  database by one instance, or a session that is created or stops; an instance keeps the sessions
  it listed at the start of its sweep and the plan of the one it is working on, so both may be
  stale.  The sweeps refine a machine that only knows until when each session is billed.
\<close>

record sweeper =
  sw_now :: time
  sw_todo :: "accrual_session list"
  sw_sid :: string
  sw_plan :: "accrual_period list"

record bill_world =
  bw_db :: cost_db
  bw_inst :: "nat \<Rightarrow> sweeper"

definition set_inst :: "bill_world \<Rightarrow> nat \<Rightarrow> sweeper \<Rightarrow> bill_world" where
  "set_inst w i sw = w\<lparr>bw_inst := (bw_inst w)(i := sw)\<rparr>"

definition set_stopped :: "string \<Rightarrow> time \<Rightarrow> cost_session \<Rightarrow> cost_session" where
  "set_stopped sid t s = (if cs_id s = sid then s\<lparr>cs_stopped := Some t\<rparr> else s)"

inductive bill_step :: "bill_world \<Rightarrow> bill_world \<Rightarrow> bool" where
  list_sessions:
    "sw_todo (bw_inst w i) = [] \<Longrightarrow> sw_plan (bw_inst w i) = [] \<Longrightarrow>
     bill_step w (set_inst w i
       ((bw_inst w i)\<lparr>sw_now := now, sw_todo := sessions_to_bill (bw_db w)\<rparr>))"
| next_session:
    "sw_plan (bw_inst w i) = [] \<Longrightarrow> sw_todo (bw_inst w i) = a # rest \<Longrightarrow>
     bill_step w (set_inst w i
       ((bw_inst w i)\<lparr>sw_todo := rest, sw_sid := ac_id a, sw_plan := plan_accrual a (sw_now (bw_inst w i))\<rparr>))"
| recorded:
    "sw_plan (bw_inst w i) = p # ps \<Longrightarrow>
     record_metric ans (bw_db w) (sw_sid (bw_inst w i)) p = (Inr u, db') \<Longrightarrow>
     bill_step w (set_inst (w\<lparr>bw_db := db'\<rparr>) i ((bw_inst w i)\<lparr>sw_plan := ps\<rparr>))"
| not_recorded:
    "sw_plan (bw_inst w i) = p # ps \<Longrightarrow>
     record_metric ans (bw_db w) (sw_sid (bw_inst w i)) p = (Inl e, db') \<Longrightarrow>
     bill_step w (set_inst (w\<lparr>bw_db := db'\<rparr>) i ((bw_inst w i)\<lparr>sw_plan := []\<rparr>))"
| cancelled:
    "bill_step w (set_inst w i ((bw_inst w i)\<lparr>sw_todo := [], sw_plan := []\<rparr>))"
| session_created:
    "cs_id s \<notin> cs_id ` set (cd_sessions (bw_db w)) \<Longrightarrow> to_micros (cs_created s) = cs_created s \<Longrightarrow>
     bill_step w (w\<lparr>bw_db := (bw_db w)\<lparr>cd_sessions := cd_sessions (bw_db w) @ [s]\<rparr>\<rparr>)"
| session_stopped:
    "bill_step w (w\<lparr>bw_db := (bw_db w)\<lparr>cd_sessions := map (set_stopped sid t) (cd_sessions (bw_db w))\<rparr>\<rparr>)"

definition bill_init :: bill_world where
  "bill_init =
     \<lparr> bw_db = \<lparr> cd_sessions = [], cd_metrics = [] \<rparr>,
       bw_inst = (\<lambda>_. \<lparr> sw_now = 0, sw_todo = [], sw_sid = [], sw_plan = [] \<rparr>) \<rparr>"

inductive bill_reach :: "bill_world \<Rightarrow> bool" where
  start: "bill_reach bill_init"
| step: "bill_reach w \<Longrightarrow> bill_step w w' \<Longrightarrow> bill_reach w'"

section \<open>The abstract machine: until when each session is billed\<close>

inductive meter_step :: "(string \<rightharpoonup> time) \<Rightarrow> (string \<rightharpoonup> time) \<Rightarrow> bool" where
  opened: "m sid = None \<Longrightarrow> meter_step m (m(sid \<mapsto> t))"
| advanced: "m sid = Some a \<Longrightarrow> within_month (a, b) \<Longrightarrow> meter_step m (m(sid \<mapsto> b))"

fun find_session :: "cost_session list \<Rightarrow> string \<Rightarrow> cost_session option" where
  "find_session [] sid = None"
| "find_session (s # ss) sid = (if cs_id s = sid then Some s else find_session ss sid)"

definition billed_until :: "cost_db \<Rightarrow> string \<Rightarrow> time option" where
  "billed_until db sid = map_option (last_end db) (find_session (cd_sessions db) sid)"

definition period_of :: "cost_metric \<Rightarrow> accrual_period" where
  "period_of m = (cm_start m, cm_end m)"

definition billed :: "cost_db \<Rightarrow> string \<Rightarrow> accrual_period list" where
  "billed db sid = map period_of (metrics_of db sid)"

section \<open>The invariant\<close>

text \<open>The metrics of a session tile the time from its creation to where it is billed until.\<close>

definition session_ok :: "cost_db \<Rightarrow> cost_session \<Rightarrow> bool" where
  "session_ok db s \<longleftrightarrow>
     tiles (cs_created s) (billed db (cs_id s)) (last_end db s) \<and>
     to_micros (cs_created s) = cs_created s \<and>
     (\<forall>p \<in> set (billed db (cs_id s)). to_micros (snd p) = snd p)"

text \<open>Where a plan may start: at the meter, or at a period that was billed meanwhile.\<close>

definition may_start :: "cost_db \<Rightarrow> string \<Rightarrow> time \<Rightarrow> bool" where
  "may_start db sid t \<longleftrightarrow>
     to_micros t = t \<and> (billed_until db sid = Some t \<or> (\<exists>p \<in> set (billed db sid). fst p = t))"

definition sweeper_ok :: "cost_db \<Rightarrow> sweeper \<Rightarrow> bool" where
  "sweeper_ok db sw \<longleftrightarrow>
     (\<forall>a \<in> set (sw_todo sw). may_start db (ac_id a) (ac_since a)) \<and>
     (\<forall>p \<in> set (sw_plan sw). within_month p \<and> to_micros (fst p) = fst p) \<and>
     (\<forall>p ps. sw_plan sw = p # ps \<longrightarrow> may_start db (sw_sid sw) (fst p) \<and> (\<exists>e. tiles (fst p) (p # ps) e))"

definition bill_ok :: "bill_world \<Rightarrow> bool" where
  "bill_ok w \<longleftrightarrow>
     distinct (map cs_id (cd_sessions (bw_db w))) \<and>
     cm_session ` set (cd_metrics (bw_db w)) \<subseteq> cs_id ` set (cd_sessions (bw_db w)) \<and>
     (\<forall>s \<in> set (cd_sessions (bw_db w)). session_ok (bw_db w) s) \<and>
     (\<forall>i. sweeper_ok (bw_db w) (bw_inst w i))"

lemma find_session_Some: "distinct (map cs_id ss) \<Longrightarrow> find_session ss sid = Some s \<longleftrightarrow> s \<in> set ss \<and> cs_id s = sid"
  by (induction ss) auto

lemma find_session_None: "find_session ss sid = None \<longleftrightarrow> sid \<notin> cs_id ` set ss"
  by (induction ss) auto

lemma find_session_append:
  "find_session (ss @ ts) sid = (case find_session ss sid of None \<Rightarrow> find_session ts sid | Some s \<Rightarrow> Some s)"
  by (induction ss) auto

lemma to_micros_le: "to_micros t \<le> t"
  by (simp add: to_micros_def)

lemma to_micros_mono: "a \<le> b \<Longrightarrow> to_micros a \<le> to_micros b"
proof -
  have "to_micros t = 1000 * (t div 1000)" for t :: time
    unfolding to_micros_def using mult_div_mod_eq [of 1000 t] by linarith
  then show "a \<le> b \<Longrightarrow> ?thesis" by (simp add: zdiv_mono1)
qed

lemma to_micros_idem [simp]: "to_micros (to_micros t) = to_micros t"
  by (simp add: to_micros_def mod_diff_eq mod_diff_left_eq)

section \<open>Recording a period\<close>

definition add_metric :: "cost_db \<Rightarrow> string \<Rightarrow> accrual_period \<Rightarrow> cost_db" where
  "add_metric db sid p =
     db\<lparr>cd_metrics := cd_metrics db @ [\<lparr> cm_session = sid, cm_start = to_micros (fst p), cm_end = to_micros (snd p) \<rparr>]\<rparr>"

text \<open>Whatever is answered, the database is left as it is, or the period is appended and was free.\<close>

lemma record_metric_db:
  assumes "record_metric ans db sid p = (r, db')"
  shows "(db' = db \<and> is_ok r = False) \<or> (db' = add_metric db sid p \<and> \<not> period_taken db sid (to_micros (fst p)))"
  using assms by (auto simp: record_metric_def Let_def add_metric_def split: if_splits)

lemma add_metric_sessions [simp]: "cd_sessions (add_metric db sid p) = cd_sessions db"
  by (simp add: add_metric_def)

lemma billed_add [simp]:
  "billed (add_metric db sid p) sid' =
     billed db sid' @ (if sid' = sid then [(to_micros (fst p), to_micros (snd p))] else [])"
  by (simp add: billed_def metrics_of_def add_metric_def period_of_def)

lemma last_end_billed:
  "last_end db s = (if billed db (cs_id s) = [] then cs_created s else Max (snd ` set (billed db (cs_id s))))"
proof -
  have "snd \<circ> period_of = cm_end" by (auto simp: period_of_def)
  then have "snd ` set (billed db (cs_id s)) = cm_end ` set (metrics_of db (cs_id s))"
    by (simp add: billed_def image_comp)
  then show ?thesis by (auto simp: last_end_def billed_def split: list.splits)
qed

lemma period_taken_billed: "period_taken db sid t \<longleftrightarrow> (\<exists>p \<in> set (billed db sid). fst p = t)"
  by (auto simp: period_taken_def billed_def metrics_of_def period_of_def list_ex_iff)

lemma last_end_tiles:
  assumes "tiles a ps b"
  shows "(if ps = [] then a else Max (snd ` set ps)) = b"
proof (cases ps rule: rev_cases)
  case (snoc qs q)
  with assms have "snd q = b" by (auto simp: tiles_append)
  moreover have "p \<in> set ps \<Longrightarrow> snd p \<le> b" for p using tiles_ends_le [OF assms] .
  ultimately have "Max (snd ` set ps) = b" using snoc by (intro Max_eqI) auto
  then show ?thesis using snoc by simp
qed (use assms in simp)

lemma add_metric_session:
  assumes s: "session_ok db s" and id: "cs_id s = sid" and p: "within_month p" "fst p = last_end db s" "to_micros (fst p) = fst p"
  shows "session_ok (add_metric db sid p) s \<and> last_end (add_metric db sid p) s = to_micros (snd p)"
proof -
  have le: "fst p \<le> to_micros (snd p)"
    using p(1,3) to_micros_mono [of "fst p" "snd p"] by (simp add: within_month_def)
  have t: "tiles (cs_created s) (billed (add_metric db sid p) (cs_id s)) (to_micros (snd p))"
    using s id p(2,3) le by (auto simp: session_ok_def tiles_append)
  have "last_end (add_metric db sid p) s = to_micros (snd p)"
    using last_end_tiles [OF t] by (simp add: last_end_billed)
  then show ?thesis using s id t by (auto simp: session_ok_def)
qed

lemma add_metric_other: "cs_id s \<noteq> sid \<Longrightarrow> session_ok (add_metric db sid p) s = session_ok db s \<and> last_end (add_metric db sid p) s = last_end db s"
  by (simp add: session_ok_def last_end_billed)


lemma may_start_meter:
  "may_start db sid t \<Longrightarrow> \<not> period_taken db sid t \<Longrightarrow> billed_until db sid = Some t"
  by (auto simp: may_start_def period_taken_billed)

lemma billed_until_eq:
  "distinct (map cs_id (cd_sessions db)) \<Longrightarrow>
   billed_until db sid = Some t \<longleftrightarrow> (\<exists>s \<in> set (cd_sessions db). cs_id s = sid \<and> last_end db s = t)"
  by (auto simp: billed_until_def find_session_Some)

lemma last_end_micros: "session_ok db s \<Longrightarrow> to_micros (last_end db s) = last_end db s"
proof (cases "billed db (cs_id s) = []")
  case False
  assume ok: "session_ok db s"
  have "last_end db s = Max (snd ` set (billed db (cs_id s)))" using False by (simp add: last_end_billed)
  also have "\<dots> \<in> snd ` set (billed db (cs_id s))" using False by (intro Max_in) auto
  finally obtain q where "q \<in> set (billed db (cs_id s))" "last_end db s = snd q" by (rule imageE)
  with ok show ?thesis by (simp add: session_ok_def)
qed (simp add: session_ok_def last_end_billed)

text \<open>The database part of the invariant, and what a period must satisfy to be appended.\<close>

definition db_ok :: "cost_db \<Rightarrow> bool" where
  "db_ok db \<longleftrightarrow>
     distinct (map cs_id (cd_sessions db)) \<and>
     cm_session ` set (cd_metrics db) \<subseteq> cs_id ` set (cd_sessions db) \<and>
     (\<forall>s \<in> set (cd_sessions db). session_ok db s)"

lemma bill_ok_alt: "bill_ok w \<longleftrightarrow> db_ok (bw_db w) \<and> (\<forall>i. sweeper_ok (bw_db w) (bw_inst w i))"
  by (auto simp: bill_ok_def db_ok_def)

definition next_period :: "cost_db \<Rightarrow> string \<Rightarrow> accrual_period \<Rightarrow> bool" where
  "next_period db sid p \<longleftrightarrow> within_month p \<and> to_micros (fst p) = fst p \<and> billed_until db sid = Some (fst p)"

lemma add_metric_db_ok:
  assumes "db_ok db" "next_period db sid p"
  shows "db_ok (add_metric db sid p)"
proof -
  obtain s where s: "s \<in> set (cd_sessions db)" "cs_id s = sid" "last_end db s = fst p"
    using assms by (auto simp: db_ok_def next_period_def billed_until_eq)
  have "session_ok (add_metric db sid p) s'" if "s' \<in> set (cd_sessions db)" for s'
  proof (cases "cs_id s' = sid")
    case True
    with that s assms(1) have "s' = s" by (auto simp: db_ok_def distinct_map dest: inj_onD)
    then show ?thesis
      using add_metric_session [of db s sid p] s assms by (auto simp: db_ok_def next_period_def)
  qed (use add_metric_other assms(1) that in \<open>auto simp: db_ok_def\<close>)
  then show ?thesis using assms(1) s by (auto simp: db_ok_def add_metric_def)
qed

lemma billed_until_add:
  assumes "db_ok db" "next_period db sid p"
  shows "billed_until (add_metric db sid p) = (billed_until db)(sid \<mapsto> to_micros (snd p))"
proof
  fix sid'
  show "billed_until (add_metric db sid p) sid' = ((billed_until db)(sid \<mapsto> to_micros (snd p))) sid'"
  proof (cases "sid' = sid")
    case True
    obtain s where s: "find_session (cd_sessions db) sid = Some s" "last_end db s = fst p"
      using assms(2) by (auto simp: next_period_def billed_until_def)
    then have "s \<in> set (cd_sessions db)" "cs_id s = sid"
      using assms(1) by (auto simp: db_ok_def find_session_Some)
    then show ?thesis
      using True s add_metric_session [of db s sid p] assms
      by (auto simp: db_ok_def next_period_def billed_until_def)
  next
    case False
    then show ?thesis
      using assms(1) by (auto simp: billed_until_def db_ok_def find_session_Some add_metric_other
          split: option.splits intro!: option.map_cong)
  qed
qed

lemma may_start_add:
  assumes "db_ok db" "next_period db sid p" "may_start db sid' t"
  shows "may_start (add_metric db sid p) sid' t"
  using assms by (auto simp: may_start_def billed_until_add next_period_def)

lemma sweeper_ok_add:
  assumes "db_ok db" "next_period db sid p" "sweeper_ok db sw"
  shows "sweeper_ok (add_metric db sid p) sw"
  using assms(3) may_start_add [OF assms(1,2)] unfolding sweeper_ok_def by blast

section \<open>Planning\<close>

lemma sweeper_ok_list:
  assumes "db_ok db" "sw_plan sw = []"
  shows "sweeper_ok db (sw\<lparr>sw_now := now, sw_todo := sessions_to_bill db\<rparr>)"
proof -
  have "may_start db (cs_id s) (last_end db s)" if "s \<in> set (cd_sessions db)" for s
    using assms(1) that by (auto simp: may_start_def db_ok_def billed_until_eq last_end_micros)
  then show ?thesis
    using assms(2) by (auto simp: sweeper_ok_def sessions_to_bill_def to_accrue_def)
qed

lemma plan_loop_hd: "plan_loop s e = p # ps \<Longrightarrow> fst p = s"
  by (subst (asm) plan_loop.simps) (auto simp: Let_def split: if_splits)

lemma plan_accrual_start:
  assumes "plan_accrual a now = p # ps"
  shows "fst p = ac_since a" "\<exists>e. tiles (fst p) (p # ps) e"
proof -
  have *: "plan_loop (ac_since a) (accrual_end a now) = p # ps" "due a now"
    using assms by (auto simp: plan_accrual_due split: if_splits)
  then show "fst p = ac_since a" by (auto dest: plan_loop_hd)
  then show "\<exists>e. tiles (fst p) (p # ps) e"
    using * plan_loop_tiles [of "ac_since a" "accrual_end a now"] by (auto simp: due_def)
qed

lemma sweeper_ok_next:
  assumes "sweeper_ok db sw" "sw_todo sw = a # rest"
  shows "sweeper_ok db (sw\<lparr>sw_todo := rest, sw_sid := ac_id a, sw_plan := plan_accrual a now\<rparr>)"
proof -
  have a: "may_start db (ac_id a) (ac_since a)" using assms by (simp add: sweeper_ok_def)
  have "to_micros (fst p) = fst p" if "p \<in> set (plan_accrual a now)" for p
    using that a plan_loop_starts [of p "ac_since a"]
    by (auto simp: plan_accrual_due may_start_def split: if_splits)
  then show ?thesis
    using assms a plan_accrual_start [of a now] plan_accrual_months [of _ a now]
    by (auto simp: sweeper_ok_def)
qed

lemma sweeper_ok_drop: "sweeper_ok db sw \<Longrightarrow> sweeper_ok db (sw\<lparr>sw_plan := []\<rparr>)"
  by (simp add: sweeper_ok_def)

section \<open>Every step keeps the invariant and moves the meter\<close>

lemma sweeper_ok_recorded:
  assumes db: "db_ok db" and sw: "sweeper_ok db sw" "sw_plan sw = p # ps"
    and free: "\<not> period_taken db (sw_sid sw) (to_micros (fst p))"
  shows "next_period db (sw_sid sw) p \<and> sweeper_ok (add_metric db (sw_sid sw) p) (sw\<lparr>sw_plan := ps\<rparr>)"
proof
  have p: "within_month p" "to_micros (fst p) = fst p" "may_start db (sw_sid sw) (fst p)"
    and rest: "\<forall>q \<in> set ps. within_month q \<and> to_micros (fst q) = fst q"
    using sw by (auto simp: sweeper_ok_def)
  then show next_p: "next_period db (sw_sid sw) p"
    using free by (simp add: next_period_def may_start_meter)
  obtain e where e: "tiles (snd p) ps e" using sw by (auto simp: sweeper_ok_def)
  have "may_start (add_metric db (sw_sid sw) p) (sw_sid sw) (fst q) \<and> (\<exists>e. tiles (fst q) (q # qs) e)"
    if "ps = q # qs" for q qs
  proof -
    have "fst q = snd p" "to_micros (snd p) = snd p" using e rest that by auto
    then show ?thesis using that e billed_until_add [OF db next_p] by (auto simp: may_start_def)
  qed
  then show "sweeper_ok (add_metric db (sw_sid sw) p) (sw\<lparr>sw_plan := ps\<rparr>)"
    using rest sweeper_ok_add [OF db next_p sw(1)] by (auto simp: sweeper_ok_def)
qed

lemma meter_add:
  assumes "db_ok db" "next_period db sid p"
  shows "meter_step (billed_until db) (billed_until (add_metric db sid p))"
proof -
  have "within_month (fst p, to_micros (snd p))"
    using assms(2) to_micros_le [of "snd p"] to_micros_mono [of "fst p" "snd p"]
    by (auto simp: within_month_def next_period_def)
  then show ?thesis
    using assms by (auto simp: billed_until_add next_period_def intro: advanced)
qed

lemma session_created_ok:
  assumes db: "db_ok db" and s: "cs_id s \<notin> cs_id ` set (cd_sessions db)" "to_micros (cs_created s) = cs_created s"
  shows "db_ok (db\<lparr>cd_sessions := cd_sessions db @ [s]\<rparr>)"
    and "meter_step (billed_until db) (billed_until (db\<lparr>cd_sessions := cd_sessions db @ [s]\<rparr>))"
    and "may_start db sid t \<Longrightarrow> may_start (db\<lparr>cd_sessions := cd_sessions db @ [s]\<rparr>) sid t"
proof -
  let ?db = "db\<lparr>cd_sessions := cd_sessions db @ [s]\<rparr>"
  have "cm_session m \<noteq> cs_id s" if "m \<in> set (cd_metrics db)" for m
    using db s(1) that unfolding db_ok_def by (metis imageI subsetD)
  then have none: "billed db (cs_id s) = []"
    by (auto simp: billed_def metrics_of_def filter_empty_conv)
  have same: "billed ?db = billed db" "last_end ?db = last_end db"
    by (auto simp: billed_def metrics_of_def last_end_def fun_eq_iff)
  have "session_ok ?db s' = session_ok db s'" for s' by (simp add: session_ok_def same)
  moreover have "session_ok db s" using none s(2) by (simp add: session_ok_def last_end_billed)
  ultimately show "db_ok ?db" using db s(1) by (auto simp: db_ok_def)
  have fresh: "find_session (cd_sessions db) (cs_id s) = None" using s(1) by (simp add: find_session_None)
  then have new: "billed_until db (cs_id s) = None" by (simp add: billed_until_def)
  have until: "billed_until ?db = (billed_until db)(cs_id s \<mapsto> last_end db s)"
    using fresh by (auto simp: billed_until_def same find_session_append fun_eq_iff split: option.splits)
  with new show "meter_step (billed_until db) (billed_until ?db)" by (auto intro: opened)
  show "may_start db sid t \<Longrightarrow> may_start ?db sid t"
    using new until by (auto simp: may_start_def same)
qed

lemma session_stopped_ok:
  fixes db sid t
  defines "db' \<equiv> db\<lparr>cd_sessions := map (set_stopped sid t) (cd_sessions db)\<rparr>"
  shows "db_ok db \<Longrightarrow> db_ok db'" and "billed_until db' = billed_until db" and "may_start db' = may_start db"
proof -
  have id: "cs_id (set_stopped sid t s) = cs_id s" "cs_created (set_stopped sid t s) = cs_created s" for s
    by (auto simp: set_stopped_def)
  have same: "billed db' = billed db" by (auto simp: db'_def billed_def metrics_of_def fun_eq_iff)
  have last: "last_end db' (set_stopped sid t s) = last_end db s" for s by (simp add: last_end_billed same id)
  have ids: "map cs_id (cd_sessions db') = map cs_id (cd_sessions db)" by (simp add: db'_def id comp_def)
  have ok: "session_ok db' (set_stopped sid t s) = session_ok db s" for s by (simp add: session_ok_def same id last)
  have "cs_id ` set (cd_sessions db') = cs_id ` set (cd_sessions db)" using ids by (metis list.set_map)
  moreover have "\<forall>s \<in> set (cd_sessions db'). session_ok db' s" if "\<forall>s \<in> set (cd_sessions db). session_ok db s"
    using that ok by (auto simp: db'_def)
  moreover have "cd_metrics db' = cd_metrics db" by (simp add: db'_def)
  ultimately show "db_ok db \<Longrightarrow> db_ok db'" using ids by (simp only: db_ok_def) blast
  have "find_session (map (set_stopped sid t) ss) x = map_option (set_stopped sid t) (find_session ss x)" for ss x
    by (induction ss) (auto simp: id)
  then have "find_session (cd_sessions db') x = map_option (set_stopped sid t) (find_session (cd_sessions db) x)" for x
    by (simp add: db'_def)
  then show until: "billed_until db' = billed_until db"
    by (simp add: billed_until_def fun_eq_iff option.map_comp comp_def last)
  show "may_start db' = may_start db" by (auto simp: may_start_def until same fun_eq_iff)
qed

lemma bill_step_ok:
  assumes "bill_step w w'" "bill_ok w"
  shows "bill_ok w' \<and> (billed_until (bw_db w') = billed_until (bw_db w) \<or>
           meter_step (billed_until (bw_db w)) (billed_until (bw_db w')))"
  using assms
proof cases
  case (list_sessions i now)
  then show ?thesis
    using assms(2) sweeper_ok_list by (auto simp: bill_ok_alt set_inst_def)
next
  case (next_session i a rest)
  then show ?thesis
    using assms(2) sweeper_ok_next by (auto simp: bill_ok_alt set_inst_def)
next
  case (recorded i p ps ans u db')
  have db': "db' = add_metric (bw_db w) (sw_sid (bw_inst w i)) p"
    and free: "\<not> period_taken (bw_db w) (sw_sid (bw_inst w i)) (to_micros (fst p))"
    using record_metric_db [OF recorded(3)] by auto
  note ok = sweeper_ok_recorded [OF _ _ recorded(2) free]
  then show ?thesis
    using assms(2) recorded(1) add_metric_db_ok sweeper_ok_add meter_add
    by (auto simp: bill_ok_alt set_inst_def db')
next
  case (not_recorded i p ps ans e db')
  consider "db' = bw_db w"
    | "db' = add_metric (bw_db w) (sw_sid (bw_inst w i)) p"
      "\<not> period_taken (bw_db w) (sw_sid (bw_inst w i)) (to_micros (fst p))"
    using record_metric_db [OF not_recorded(3)] by auto
  then show ?thesis
  proof cases
    case 1
    then show ?thesis using assms(2) not_recorded(1) sweeper_ok_drop by (auto simp: bill_ok_alt set_inst_def)
  next
    case 2
    note next_p = sweeper_ok_recorded [OF _ _ not_recorded(2) 2(2), THEN conjunct1]
    show ?thesis
      using assms(2) not_recorded(1) next_p add_metric_db_ok sweeper_ok_add meter_add sweeper_ok_drop
      by (auto simp: bill_ok_alt set_inst_def 2)
  qed
next
  case (cancelled i)
  then show ?thesis using assms(2) by (auto simp: bill_ok_alt set_inst_def sweeper_ok_def)
next
  case (session_created s)
  then show ?thesis
    using assms(2) session_created_ok [where db = "bw_db w" and s = s]
    by (simp add: bill_ok_alt) (simp add: sweeper_ok_def)
next
  case (session_stopped sid t)
  then show ?thesis
    using assms(2) session_stopped_ok [where db = "bw_db w"] by (simp add: bill_ok_alt sweeper_ok_def)
qed

lemma bill_init_ok: "bill_ok bill_init"
  by (simp add: bill_ok_def bill_init_def sweeper_ok_def)

lemma bill_reach_ok: "bill_reach w \<Longrightarrow> bill_ok w"
  by (induction rule: bill_reach.induct) (auto simp: bill_init_ok bill_step_ok)

lemma reach_billed_once:
  assumes "bill_ok w" "s \<in> set (cd_sessions (bw_db w))"
  shows "times_billed t (billed (bw_db w) (cs_id s)) =
     (if cs_created s \<le> t \<and> t < last_end (bw_db w) s then 1 else 0)"
  using assms by (intro tiles_billed) (auto simp: bill_ok_def session_ok_def)

text \<open>
  Property C19.  Any number of instances may sweep the same database at once, with stale lists, failed
  writes and cancellations anywhere: each step leaves the meter that says until when every session
  is billed, or moves it forward within a calendar month, or opens it for a new session; and the
  recorded periods of a session bill every instant from its creation to its meter exactly once and
  no other instant.
\<close>
theorem sweeps_refine_meter:
  assumes "bill_reach w" "bill_step w w'"
  shows "(billed_until (bw_db w') = billed_until (bw_db w) \<or>
          meter_step (billed_until (bw_db w)) (billed_until (bw_db w'))) \<and>
         (\<forall>t. \<forall>s \<in> set (cd_sessions (bw_db w')).
            times_billed t (billed (bw_db w') (cs_id s)) =
              (if cs_created s \<le> t \<and> t < last_end (bw_db w') s then 1 else 0))"
  using bill_step_ok [OF assms(2) bill_reach_ok [OF assms(1)]] reach_billed_once by blast

theorem sweeps_refine_meter_witness:
  "let s = \<lparr> cs_id = ''s'', cs_created = 7000, cs_stopped = None \<rparr>;
       w' = bill_init\<lparr>bw_db := (bw_db bill_init)\<lparr>cd_sessions := cd_sessions (bw_db bill_init) @ [s]\<rparr>\<rparr>
   in billed_until (bw_db w') = billed_until (bw_db bill_init) \<or>
      meter_step (billed_until (bw_db bill_init)) (billed_until (bw_db w'))"
proof -
  have "bill_step bill_init (bill_init\<lparr>bw_db := (bw_db bill_init)\<lparr>cd_sessions := cd_sessions (bw_db bill_init) @
      [\<lparr> cs_id = ''s'', cs_created = 7000, cs_stopped = None \<rparr>]\<rparr>\<rparr>)"
    by (rule session_created) (simp_all add: bill_init_def to_micros_def)
  from sweeps_refine_meter [OF start this, THEN conjunct1] show ?thesis by (simp add: Let_def)
qed

section \<open>The sequential sweep is one of these runs\<close>

definition idle :: "bill_world \<Rightarrow> nat \<Rightarrow> bool" where
  "idle w i \<longleftrightarrow> sw_todo (bw_inst w i) = [] \<and> sw_plan (bw_inst w i) = []"

lemma bill_step_then: "bill_step w v \<Longrightarrow> bill_step\<^sup>*\<^sup>* v u \<Longrightarrow> bill_step\<^sup>*\<^sup>* w u"
  by (rule converse_rtranclp_into_rtranclp)

lemma accrue_periods_steps:
  assumes "sw_plan (bw_inst w i) = ps" "sw_sid (bw_inst w i) = sid" "as_db st = bw_db w" "\<not> as_cancelled st"
  shows "\<exists>w'. bill_step\<^sup>*\<^sup>* w w' \<and> bw_db w' = as_db (accrue_periods env sid ps st) \<and>
           sw_plan (bw_inst w' i) = [] \<and> sw_now (bw_inst w' i) = sw_now (bw_inst w i) \<and>
           sw_todo (bw_inst w' i) = (if as_cancelled (accrue_periods env sid ps st) then [] else sw_todo (bw_inst w i))"
  using assms
proof (induction ps arbitrary: w st)
  case Nil
  then show ?case by (intro exI [of _ w]) auto
next
  case (Cons p ps)
  obtain r db' where rec: "record_metric (ae_answer env (as_tick st)) (bw_db w) sid p = (r, db')" by fastforce
  show ?case
  proof (cases "ae_cancel env = Some (as_tick st)")
    case True
    then show ?thesis
      using cancelled [of w i] Cons.prems
      by (intro exI [of _ "set_inst w i ((bw_inst w i)\<lparr>sw_todo := [], sw_plan := []\<rparr>)"])
         (auto simp: set_inst_def)
  next
    case no_cancel: False
    show ?thesis
    proof (cases r)
      case (Inl e)
      then show ?thesis
        using not_recorded [of w i p ps _ e db'] rec Cons.prems no_cancel
        by (intro exI [of _ "set_inst (w\<lparr>bw_db := db'\<rparr>) i ((bw_inst w i)\<lparr>sw_plan := []\<rparr>)"])
           (auto simp: set_inst_def)
    next
      case (Inr u)
      let ?w = "set_inst (w\<lparr>bw_db := db'\<rparr>) i ((bw_inst w i)\<lparr>sw_plan := ps\<rparr>)"
      let ?st = "st\<lparr>as_db := db', as_tick := as_tick st + 1, as_recorded := as_recorded st + 1\<rparr>"
      have one: "bill_step w ?w" using recorded [of w i p ps _ u db'] rec Cons.prems Inr by auto
      have eq: "accrue_periods env sid (p # ps) st = accrue_periods env sid ps ?st"
        using rec Inr no_cancel Cons.prems by simp
      obtain w' where w': "bill_step\<^sup>*\<^sup>* ?w w'" "bw_db w' = as_db (accrue_periods env sid ps ?st)"
        "sw_plan (bw_inst w' i) = []" "sw_now (bw_inst w' i) = sw_now (bw_inst ?w i)"
        "sw_todo (bw_inst w' i) = (if as_cancelled (accrue_periods env sid ps ?st) then [] else sw_todo (bw_inst ?w i))"
        using Cons.IH [of ?w ?st] Cons.prems by (auto simp: set_inst_def)
      show ?thesis
        unfolding eq using bill_step_then [OF one w'(1)] w'(2-)
        by (intro exI [of _ w']) (simp add: set_inst_def)
    qed
  qed
qed

lemma accrue_sessions_steps:
  assumes "sw_todo (bw_inst w i) = (if as_cancelled st then [] else ss)" "sw_plan (bw_inst w i) = []"
    "sw_now (bw_inst w i) = now" "as_db st = bw_db w"
  shows "\<exists>w'. bill_step\<^sup>*\<^sup>* w w' \<and> bw_db w' = as_db (accrue_sessions env now ss st) \<and> idle w' i"
  using assms
proof (induction ss arbitrary: w st)
  case Nil
  then show ?case by (intro exI [of _ w]) (auto simp: idle_def)
next
  case (Cons a ss)
  show ?case
  proof (cases "as_cancelled st")
    case True
    then show ?thesis using Cons.prems by (intro exI [of _ w]) (auto simp: idle_def)
  next
    case False
    let ?w = "set_inst w i ((bw_inst w i)\<lparr>sw_todo := ss, sw_sid := ac_id a, sw_plan := plan_accrual a now\<rparr>)"
    let ?st = "accrue_periods env (ac_id a) (plan_accrual a now) st"
    have one: "bill_step w ?w" using next_session [of w i a ss] Cons.prems False by auto
    obtain w1 where w1: "bill_step\<^sup>*\<^sup>* ?w w1" "bw_db w1 = as_db ?st" "sw_plan (bw_inst w1 i) = []"
      "sw_now (bw_inst w1 i) = now" "sw_todo (bw_inst w1 i) = (if as_cancelled ?st then [] else ss)"
      using accrue_periods_steps [of ?w i "plan_accrual a now" "ac_id a" st env] Cons.prems False
      by (auto simp: set_inst_def)
    obtain w2 where w2: "bill_step\<^sup>*\<^sup>* w1 w2" "bw_db w2 = as_db (accrue_sessions env now ss ?st)" "idle w2 i"
      using Cons.IH [of w1 ?st] w1 by auto
    have "bill_step\<^sup>*\<^sup>* w w2" using one w1(1) w2(1) by (meson converse_rtranclp_into_rtranclp rtranclp_trans)
    then show ?thesis using w2 False by auto
  qed
qed

text \<open>A sweep of one idle instance, run without the others, is a run of the step relation.\<close>

lemma accrue_usage_steps:
  assumes "idle w i"
  shows "\<exists>w'. bill_step\<^sup>*\<^sup>* w w' \<and> bw_db w' = as_db (accrue_usage env now (bw_db w)) \<and> idle w' i"
proof (cases "ae_list env")
  case True
  let ?w = "set_inst w i ((bw_inst w i)\<lparr>sw_now := now, sw_todo := sessions_to_bill (bw_db w)\<rparr>)"
  have one: "bill_step w ?w" using assms list_sessions [of w i now] by (simp add: idle_def)
  have "\<exists>w'. bill_step\<^sup>*\<^sup>* ?w w' \<and> bw_db w' = as_db (accrue_usage env now (bw_db w)) \<and> idle w' i"
    unfolding accrue_usage_def
    using assms True by (intro accrue_sessions_steps) (auto simp: set_inst_def idle_def)
  then show ?thesis using bill_step_then [of w ?w, OF one] by blast
next
  case False
  then show ?thesis using assms by (intro exI [of _ w]) (simp add: accrue_usage_def)
qed

text \<open>
  A sweep whose clock reads less than a microsecond after a month began records an empty period at
  the boundary; every later period of the session then starts where that row does and is refused by
  the unique constraint, so the session is never billed again.
\<close>

definition all_works :: accrue_env where
  "all_works = \<lparr> ae_list = True, ae_answer = (\<lambda>_. Works), ae_cancel = None \<rparr>"

lemma empty_period_blocks_billing:
  assumes s: "cd_sessions db = [s]" "billed db (cs_id s) \<noteq> []"
    and empty: "(last_end db s, last_end db s) \<in> set (billed db (cs_id s))" "to_micros (last_end db s) = last_end db s"
  shows "as_db (accrue_usage all_works now db) = db"
proof -
  have "period_taken db (cs_id s) (last_end db s)"
    unfolding period_taken_billed using empty(1) by (rule rev_bexI) simp
  then have taken: "record_metric Works db (cs_id s) p = (Inl PeriodConflict, db)" if "fst p = last_end db s" for p
    using empty(2) that by (simp add: record_metric_def Let_def)
  have "as_db (accrue_periods all_works (cs_id s) (plan_accrual (to_accrue db s) now)
          \<lparr> as_db = db, as_tick = 0, as_recorded = 0, as_cancelled = False \<rparr>) = db"
  proof (cases "plan_accrual (to_accrue db s) now")
    case (Cons p ps)
    then show ?thesis
      using plan_accrual_start(1) [OF Cons] taken [of p] by (simp add: all_works_def to_accrue_def)
  qed simp
  then show ?thesis by (simp add: accrue_usage_def sessions_to_bill_def s to_accrue_def all_works_def)
qed

text \<open>January 1970 has 2678400 seconds; the sweep runs half a microsecond into February.\<close>

definition midnight_db :: cost_db where
  "midnight_db = \<lparr> cd_sessions = [\<lparr> cs_id = ''s'', cs_created = 2678000000000000, cs_stopped = None \<rparr>], cd_metrics = [] \<rparr>"

lemma january: "month_of 2678000000000000 = 0" "month_of 2678400000000000 = 1"
  by (simp_all add: month_of_def ns_per_day_def ns_per_second_def month_from.simps month_len_def is_leap_def)

lemma midnight_sweep:
  "as_db (accrue_usage all_works 2678400000000500 midnight_db) =
     midnight_db\<lparr>cd_metrics :=
       [\<lparr> cm_session = ''s'', cm_start = 2678000000000000, cm_end = 2678400000000000 \<rparr>,
        \<lparr> cm_session = ''s'', cm_start = 2678400000000000, cm_end = 2678400000000000 \<rparr>]\<rparr>"
proof -
  have "month_start 1 = 2678400000000000" "month_start 2 = 5097600000000000"
    by (simp_all add: month_start_def month_len_def is_leap_def ns_per_day_def ns_per_second_def numeral_2_eq_2)
  then have "next_boundary 2678000000000000 = 2678400000000000" "next_boundary 2678400000000000 = 5097600000000000"
    by (simp_all add: next_boundary_eq january numeral_2_eq_2)
  then have "plan_loop 2678000000000000 2678400000000500 =
      [(2678000000000000, 2678400000000000), (2678400000000000, 2678400000000500)]"
    by (subst plan_loop.simps, subst plan_loop.simps, subst plan_loop.simps) simp
  then show ?thesis
    by (simp add: accrue_usage_def all_works_def sessions_to_bill_def midnight_db_def to_accrue_def last_end_def metrics_of_def
        plan_accrual_def accrual_end_def min_accrual_span_def ns_per_second_def record_metric_def all_works_def
        period_taken_def to_micros_def)
qed

lemma midnight_sweep_blocks_billing:
  "as_db (accrue_usage all_works now (as_db (accrue_usage all_works 2678400000000500 midnight_db))) =
   as_db (accrue_usage all_works 2678400000000500 midnight_db)"
  unfolding midnight_sweep
  by (rule empty_period_blocks_billing)
     (auto simp: midnight_db_def billed_def metrics_of_def period_of_def last_end_def to_micros_def)

end
