(* ===== verification/JobQueue.thy ===== *)
theory JobQueue
  imports Runner "HOL-Library.Multiset"
begin

text \<open>
  \<open>internal/jobqueue/queue.go\<close>: the in-memory queue of asynchronous runs (a bounded channel and a
  pool of workers) and the webhook that reports a finished run, with its retries.

  Properties of the in-memory queue and of the webhook: no job is lost, duplicated or reordered,
  draining ends with every accepted job finished, and a webhook ends after three attempts at most.
\<close>

section \<open>Jobs\<close>

record job =
  j_run_id :: string
  j_session :: string
  j_req :: run_request
  j_run :: run_row
  j_callback :: string

text \<open>The deadline a worker gives the runner, in seconds.\<close>

definition job_timeout :: "int \<Rightarrow> int" where
  "job_timeout seconds = (if seconds \<le> 0 then 5 * 60 else seconds)"

section \<open>The webhook\<close>

record callback_payload =
  cp_run_id :: string
  cp_status :: "run_status option"
  cp_exit :: "int option"
  cp_error :: string
  cp_run :: "run_row option"

definition callback_payload_of :: "(string \<times> run_row) option \<Rightarrow> string option \<Rightarrow> callback_payload" where
  "callback_payload_of run err =
     (let p = (case run of
                 None \<Rightarrow> \<lparr> cp_run_id = [], cp_status = None, cp_exit = None, cp_error = [], cp_run = None \<rparr>
               | Some (rid, r) \<Rightarrow>
                   \<lparr> cp_run_id = rid, cp_status = Some (r_status r), cp_exit = r_exit r, cp_error = [], cp_run = Some r \<rparr>)
      in case err of
           None \<Rightarrow> p
         | Some e \<Rightarrow> p\<lparr>cp_error := e, cp_status := (if cp_status p = None then Some Failed else cp_status p)\<rparr>)"

text \<open>
  Third-party and runtime parts: the JSON encoder, the keyed hash (in hexadecimal) and whether a
  URL can be made into a request.
\<close>

record callback_env =
  ce_marshal :: "callback_payload \<Rightarrow> string option"
  ce_hmac :: "string \<Rightarrow> string \<Rightarrow> string"
  ce_url_ok :: "string \<Rightarrow> bool"

record callback_request =
  cb_url :: string
  cb_body :: string
  cb_signature :: "string option"

datatype http_answer = NetError | Code int

datatype callback_event = Post callback_request | Sleep int

definition callback_max_attempts :: nat where
  "callback_max_attempts = 3"

definition callback_initial_delay :: int where
  "callback_initial_delay = 2"

text \<open>The loop over attempts; \<open>ans\<close> is what the receiver answers to each.\<close>

function callback_loop :: "(nat \<Rightarrow> http_answer) \<Rightarrow> callback_request \<Rightarrow> nat \<Rightarrow> int \<Rightarrow> callback_event list" where
  "callback_loop ans rq attempt backoff =
     (if callback_max_attempts < attempt then []
      else Post rq #
        (case ans attempt of
           NetError \<Rightarrow>
             if attempt < callback_max_attempts
             then Sleep backoff # callback_loop ans rq (attempt + 1) (backoff * 2) else []
         | Code status \<Rightarrow>
             if 500 \<le> status \<and> attempt < callback_max_attempts
             then Sleep backoff # callback_loop ans rq (attempt + 1) (backoff * 2) else []))"
  by pat_completeness auto
termination
  by (relation "measure (\<lambda>(ans, rq, attempt, backoff). callback_max_attempts + 1 - attempt)") auto

declare callback_loop.simps [simp del]

definition send_callback ::
  "callback_env \<Rightarrow> (nat \<Rightarrow> http_answer) \<Rightarrow> string \<Rightarrow> string \<Rightarrow> (string \<times> run_row) option \<Rightarrow> string option \<Rightarrow>
   callback_event list" where
  "send_callback env ans secret url run err =
     (case ce_marshal env (callback_payload_of run err) of
        None \<Rightarrow> []
      | Some b \<Rightarrow>
          let sig = (if secret = [] then None else Some (''sha256='' @ ce_hmac env secret b)) in
          if \<not> ce_url_ok env url then []
          else callback_loop ans \<lparr> cb_url = url, cb_body = b, cb_signature = sig \<rparr> 1 callback_initial_delay)"

section \<open>One job\<close>

datatype job_event =
    Deadline int
  | RunnerDid run_event
  | Callback callback_event

record worker_env =
  we_exec :: "int \<Rightarrow> exec_config \<Rightarrow> exec_error + exec_result"   \<comment> \<open>under a deadline\<close>
  we_answers :: run_answers
  we_callback :: callback_env
  we_receiver :: "nat \<Rightarrow> http_answer"
  we_secret :: string

definition work_job :: "worker_env \<Rightarrow> job \<Rightarrow> job_event list" where
  "work_job env j =
     (let timeout = job_timeout (q_timeout (j_req j)) in
      case execute_impl (we_exec env timeout) (we_answers env) (j_req j) (j_run j) of
        (run, evs) \<Rightarrow>
          Deadline timeout # map RunnerDid evs @
          (if j_callback j = [] then []
           else map Callback (send_callback (we_callback env) (we_receiver env) (we_secret env) (j_callback j)
                  (Some (j_run_id j, run)) None)))"

section \<open>The in-memory queue\<close>

datatype 'j worker = Idle | Busy 'j | Exited

record 'j memq =
  mq_cap :: nat
  mq_buf :: "'j list"
  mq_closed :: bool
  mq_workers :: "'j worker list"
  mq_done :: "'j list"

definition new_queue :: "int \<Rightarrow> int \<Rightarrow> 'j memq" where
  "new_queue workers buf_size =
     (let w = (if workers \<le> 0 then 4 else workers); b = (if buf_size \<le> 0 then 256 else buf_size) in
      \<lparr> mq_cap = nat b, mq_buf = [], mq_closed = False, mq_workers = replicate (nat w) Idle, mq_done = [] \<rparr>)"

text \<open>A send on a closed channel panics; the deferred \<open>recover\<close> turns that into \<open>false\<close>.\<close>

definition mem_submit :: "'j \<Rightarrow> 'j memq \<Rightarrow> bool \<times> 'j memq" where
  "mem_submit j q =
     (if mq_closed q then (False, q)
      else if length (mq_buf q) < mq_cap q then (True, q\<lparr>mq_buf := mq_buf q @ [j]\<rparr>)
      else (False, q))"

definition mem_len :: "'j memq \<Rightarrow> nat" where
  "mem_len q = length (mq_buf q)"

text \<open>What \<open>Drain\<close> does to the channel, and what it waits for.\<close>

definition mem_close :: "'j memq \<Rightarrow> 'j memq" where
  "mem_close q = q\<lparr>mq_closed := True\<rparr>"

definition mem_drained :: "'j memq \<Rightarrow> bool" where
  "mem_drained q \<longleftrightarrow> list_all (\<lambda>w. w = Exited) (mq_workers q)"

text \<open>The steps of the workers: receive a job, finish it, or leave the loop of a closed channel.\<close>

definition take_job :: "nat \<Rightarrow> 'j memq \<Rightarrow> 'j memq option" where
  "take_job i q =
     (if i < length (mq_workers q) \<and> mq_workers q ! i = Idle
      then (case mq_buf q of [] \<Rightarrow> None | j # rest \<Rightarrow> Some (q\<lparr>mq_buf := rest, mq_workers := (mq_workers q)[i := Busy j]\<rparr>))
      else None)"

definition finish_job :: "nat \<Rightarrow> 'j memq \<Rightarrow> 'j memq option" where
  "finish_job i q =
     (if i < length (mq_workers q)
      then (case mq_workers q ! i of
              Busy j \<Rightarrow> Some (q\<lparr>mq_workers := (mq_workers q)[i := Idle], mq_done := mq_done q @ [j]\<rparr>)
            | _ \<Rightarrow> None)
      else None)"

definition leave_loop :: "nat \<Rightarrow> 'j memq \<Rightarrow> 'j memq option" where
  "leave_loop i q =
     (if i < length (mq_workers q) \<and> mq_workers q ! i = Idle \<and> mq_closed q \<and> mq_buf q = []
      then Some (q\<lparr>mq_workers := (mq_workers q)[i := Exited]\<rparr>) else None)"

inductive worker_step :: "'j memq \<Rightarrow> 'j memq \<Rightarrow> bool" where
  takes: "take_job i q = Some q' \<Longrightarrow> worker_step q q'"
| finishes: "finish_job i q = Some q' \<Longrightarrow> worker_step q q'"
| leaves: "leave_loop i q = Some q' \<Longrightarrow> worker_step q q'"

text \<open>States that can be reached, with the jobs accepted so far in their order.\<close>

inductive mem_reach :: "int \<Rightarrow> int \<Rightarrow> 'j list \<Rightarrow> 'j memq \<Rightarrow> bool" for workers buf_size where
  fresh: "mem_reach workers buf_size [] (new_queue workers buf_size)"
| accepted: "mem_reach workers buf_size acc q \<Longrightarrow> mem_submit j q = (True, q') \<Longrightarrow>
     mem_reach workers buf_size (acc @ [j]) q'"
| refused: "mem_reach workers buf_size acc q \<Longrightarrow> mem_submit j q = (False, q') \<Longrightarrow>
     mem_reach workers buf_size acc q'"
| closed: "mem_reach workers buf_size acc q \<Longrightarrow> mem_reach workers buf_size acc (mem_close q)"
| worked: "mem_reach workers buf_size acc q \<Longrightarrow> worker_step q q' \<Longrightarrow> mem_reach workers buf_size acc q'"

section \<open>The queue interface\<close>

text \<open>
  What the API relies on in the interface \<open>Queue\<close>: the entry of an accepted job joins the pending
  ones at the end, and a refused one leaves the queue as it is.
\<close>

locale queue_contract =
  fixes submit :: "'j \<Rightarrow> 'q \<Rightarrow> bool \<times> 'q"
    and entry :: "'j \<Rightarrow> 'm"
    and pending :: "'q \<Rightarrow> 'm list"
  assumes accepted_joins: "submit j q = (True, q') \<Longrightarrow> pending q' = pending q @ [entry j]"
    and refused_same: "submit j q = (False, q') \<Longrightarrow> q' = q"
begin

fun submit_all :: "'j list \<Rightarrow> 'q \<Rightarrow> 'j list \<times> 'q" where
  "submit_all [] q = ([], q)"
| "submit_all (j # js) q =
     (case submit j q of
        (ok, q') \<Rightarrow> (case submit_all js q' of (acc, q'') \<Rightarrow> (if ok then j # acc else acc, q'')))"

lemma submit_all_pending:
  "submit_all js q = (acc, q') \<Longrightarrow> pending q' = pending q @ map entry acc \<and> subseq acc js"
proof (induction js arbitrary: q q' acc)
  case (Cons j js)
  obtain ok q1 where one: "submit j q = (ok, q1)" by fastforce
  obtain acc1 q2 where rest: "submit_all js q1 = (acc1, q2)" by fastforce
  show ?case
    using Cons.prems Cons.IH [OF rest] one rest accepted_joins [of j q q1] refused_same [of j q q1]
    by (cases ok) auto
qed simp

lemma submit_pending: "submit j q = (ok, q') \<Longrightarrow> pending q' = pending q @ (if ok then [entry j] else [])"
  using accepted_joins [of j q q'] refused_same [of j q q'] by (cases ok) auto

end

interpretation memq: queue_contract mem_submit "\<lambda>j. j" mq_buf
  by unfold_locales (auto simp: mem_submit_def split: if_splits)

section \<open>No job is lost\<close>

fun busy :: "'j worker list \<Rightarrow> 'j multiset" where
  "busy [] = {#}"
| "busy (w # ws) = (case w of Busy j \<Rightarrow> {#j#} | _ \<Rightarrow> {#}) + busy ws"

lemma busy_update:
  "i < length ws \<Longrightarrow> busy (ws[i := w]) + busy [ws ! i] = busy ws + busy [w]"
  by (induction ws arbitrary: i) (auto simp: less_Suc_eq_0_disj ac_simps)

lemma busy_idle: "busy (replicate n Idle) = {#}"
  by (induction n) auto

lemma busy_exited: "list_all (\<lambda>w. w = Exited) ws \<Longrightarrow> busy ws = {#}"
  by (induction ws) auto

definition memq_ok :: "'j list \<Rightarrow> 'j memq \<Rightarrow> bool" where
  "memq_ok acc q \<longleftrightarrow>
     mset acc = mset (mq_buf q) + busy (mq_workers q) + mset (mq_done q) \<and>
     suffix (mq_buf q) acc \<and> length (mq_buf q) \<le> mq_cap q \<and>
     (Exited \<in> set (mq_workers q) \<longrightarrow> mq_closed q \<and> mq_buf q = [])"

lemma set_update_other: "x \<in> set (ws[i := w]) \<Longrightarrow> x \<noteq> w \<Longrightarrow> x \<in> set ws"
  by (induction ws arbitrary: i) (auto split: nat.splits)

lemma worker_step_ok:
  assumes "worker_step q q'" "memq_ok acc q"
  shows "memq_ok acc q' \<and> mq_closed q' = mq_closed q"
  using assms(1)
proof cases
  case (takes i)
  then obtain j rest where q': "i < length (mq_workers q)" "mq_workers q ! i = Idle" "mq_buf q = j # rest"
    "q' = q\<lparr>mq_buf := rest, mq_workers := (mq_workers q)[i := Busy j]\<rparr>"
    by (auto simp: take_job_def split: if_splits list.splits)
  have "suffix rest acc" using assms(2) q'(3) by (auto simp: memq_ok_def suffix_def)
  moreover have "Exited \<notin> set (mq_workers q)" using assms(2) q'(3) by (auto simp: memq_ok_def)
  then have "Exited \<notin> set ((mq_workers q)[i := Busy j])" using set_update_other by fastforce
  ultimately show ?thesis
    using assms(2) q' busy_update [OF q'(1), of "Busy j"] by (auto simp: memq_ok_def)
next
  case (finishes i)
  then obtain j where q': "i < length (mq_workers q)" "mq_workers q ! i = Busy j"
    "q' = q\<lparr>mq_workers := (mq_workers q)[i := Idle], mq_done := mq_done q @ [j]\<rparr>"
    by (auto simp: finish_job_def split: if_splits worker.splits)
  have "Exited \<in> set ((mq_workers q)[i := Idle]) \<Longrightarrow> Exited \<in> set (mq_workers q)"
    using set_update_other by fastforce
  then show ?thesis
    using assms(2) q' busy_update [OF q'(1), of Idle] by (auto simp: memq_ok_def)
next
  case (leaves i)
  then have q': "i < length (mq_workers q)" "mq_workers q ! i = Idle" "mq_closed q" "mq_buf q = []"
    "q' = q\<lparr>mq_workers := (mq_workers q)[i := Exited]\<rparr>"
    by (auto simp: leave_loop_def split: if_splits)
  then show ?thesis
    using assms(2) busy_update [OF q'(1), of Exited] by (auto simp: memq_ok_def)
qed

lemma mem_reach_ok: "mem_reach workers buf_size acc q \<Longrightarrow> memq_ok acc q"
proof (induction rule: mem_reach.induct)
  case fresh
  then show ?case by (auto simp: memq_ok_def new_queue_def Let_def busy_idle)
next
  case (accepted acc q j q')
  then have q': "\<not> mq_closed q" "length (mq_buf q) < mq_cap q" "q' = q\<lparr>mq_buf := mq_buf q @ [j]\<rparr>"
    by (auto simp: mem_submit_def split: if_splits)
  have "suffix (mq_buf q @ [j]) (acc @ [j])"
    using accepted.IH by (auto simp: memq_ok_def suffix_def)
  then show ?case using accepted.IH q' by (auto simp: memq_ok_def)
next
  case (refused acc q j q')
  then show ?case using memq.refused_same by fastforce
next
  case (closed acc q)
  then show ?case by (auto simp: memq_ok_def mem_close_def)
next
  case (worked acc q q')
  then show ?case using worker_step_ok by blast
qed

section \<open>Draining\<close>

fun worker_work :: "'j worker \<Rightarrow> nat" where
  "worker_work Idle = 1"
| "worker_work (Busy j) = 2"
| "worker_work Exited = 0"

definition work_left :: "'j memq \<Rightarrow> nat" where
  "work_left q = 2 * length (mq_buf q) + sum_list (map worker_work (mq_workers q))"

lemma work_update:
  "i < length ws \<Longrightarrow>
   sum_list (map worker_work (ws[i := w])) + worker_work (ws ! i) = sum_list (map worker_work ws) + worker_work w"
  by (induction ws arbitrary: i) (auto simp: less_Suc_eq_0_disj)

lemma worker_step_decreases: "worker_step q q' \<Longrightarrow> work_left q' < work_left q"
proof (induction rule: worker_step.induct)
  case (takes i q q')
  then obtain j rest where "i < length (mq_workers q)" "mq_workers q ! i = Idle" "mq_buf q = j # rest"
    "q' = q\<lparr>mq_buf := rest, mq_workers := (mq_workers q)[i := Busy j]\<rparr>"
    by (auto simp: take_job_def split: if_splits list.splits)
  then show ?case using work_update [of i "mq_workers q" "Busy j"] by (simp add: work_left_def)
next
  case (finishes i q q')
  then obtain j where "i < length (mq_workers q)" "mq_workers q ! i = Busy j"
    "q' = q\<lparr>mq_workers := (mq_workers q)[i := Idle], mq_done := mq_done q @ [j]\<rparr>"
    by (auto simp: finish_job_def split: if_splits worker.splits)
  then show ?case using work_update [of i "mq_workers q" Idle] by (simp add: work_left_def)
next
  case (leaves i q q')
  then show ?case
    using work_update [of i "mq_workers q" Exited]
    by (auto simp: work_left_def leave_loop_def split: if_splits)
qed

lemma drain_progress:
  assumes "mq_closed q" "\<not> mem_drained q"
  shows "\<exists>q'. worker_step q q'"
proof -
  obtain i where i: "i < length (mq_workers q)" "mq_workers q ! i \<noteq> Exited"
    using assms(2) by (auto simp: mem_drained_def list_all_length)
  show ?thesis
  proof (cases "mq_workers q ! i")
    case Idle
    then show ?thesis
      using i assms(1) takes [of i q] leaves [of i q]
      by (cases "mq_buf q") (auto simp: take_job_def leave_loop_def)
  next
    case (Busy j)
    then show ?thesis using i finishes [of i q] by (auto simp: finish_job_def)
  qed (use i in simp)
qed

lemma worker_steps_ok:
  "worker_step\<^sup>*\<^sup>* q q' \<Longrightarrow> memq_ok acc q \<Longrightarrow> memq_ok acc q' \<and> mq_closed q' = mq_closed q"
  by (induction rule: rtranclp_induct) (auto dest: worker_step_ok)

lemma no_endless_work: "\<not> (\<exists>f. \<forall>n. worker_step (f n) (f (Suc n)))"
proof
  assume "\<exists>f :: nat \<Rightarrow> 'j memq. \<forall>n. worker_step (f n) (f (Suc n))"
  then obtain f :: "nat \<Rightarrow> 'j memq" where f: "worker_step (f n) (f (Suc n))" for n by blast
  have "work_left (f n) + n \<le> work_left (f 0)" for n
  proof (induction n)
    case (Suc n)
    then show ?case using worker_step_decreases [OF f, of n] by linarith
  qed simp
  from this [of "Suc (work_left (f 0))"] show False by simp
qed

lemma drained_all_done:
  assumes "memq_ok acc q" "mq_closed q" "mem_drained q" "mq_workers q \<noteq> []"
  shows "mq_buf q = [] \<and> mset (mq_done q) = mset acc"
proof -
  have "Exited \<in> set (mq_workers q)"
    using assms(3,4) by (cases "mq_workers q") (auto simp: mem_drained_def)
  then show ?thesis using assms by (auto simp: memq_ok_def mem_drained_def busy_exited)
qed

lemma workers_exist: "mem_reach workers buf_size acc q \<Longrightarrow> mq_workers q \<noteq> []"
proof (induction rule: mem_reach.induct)
  case (worked acc q q')
  from worked(2,3) show ?case
    by cases (auto simp: take_job_def finish_job_def leave_loop_def split: if_splits list.splits worker.splits)
qed (auto simp: new_queue_def Let_def mem_submit_def mem_close_def split: if_splits)

lemma worker_steps_reach:
  "worker_step\<^sup>*\<^sup>* q q' \<Longrightarrow> mem_reach workers buf_size acc q \<Longrightarrow> mem_reach workers buf_size acc q'"
  by (induction rule: rtranclp_induct) (auto intro: worked)

text \<open>
  Property C20.  Once the queue is drained it takes no further job, its workers cannot work for ever
  whatever their order, and when none can take a step all have left, nothing is buffered, and the
  jobs finished are exactly those ever accepted, each once.
\<close>
theorem drain_completes:
  assumes "mem_reach workers buf_size acc q" "mq_closed q"
  shows "(\<forall>j. mem_submit j q = (False, q)) \<and>
         \<not> (\<exists>f. f 0 = q \<and> (\<forall>n. worker_step (f n) (f (Suc n)))) \<and>
         (\<forall>q'. worker_step\<^sup>*\<^sup>* q q' \<longrightarrow> \<not> (\<exists>q''. worker_step q' q'') \<longrightarrow>
            mem_drained q' \<and> mq_buf q' = [] \<and> mset (mq_done q') = mset acc)"
proof (intro conjI allI impI)
  show "mem_submit j q = (False, q)" for j using assms(2) by (simp add: mem_submit_def)
  show "\<not> (\<exists>f. f 0 = q \<and> (\<forall>n. worker_step (f n) (f (Suc n))))" using no_endless_work by blast
  fix q' assume star: "worker_step\<^sup>*\<^sup>* q q'" and stuck: "\<not> (\<exists>q''. worker_step q' q'')"
  have reach: "mem_reach workers buf_size acc q'" using worker_steps_reach [OF star assms(1)] .
  have ok: "memq_ok acc q'" "mq_closed q'"
    using worker_steps_ok [OF star mem_reach_ok [OF assms(1)]] assms(2) by auto
  then show drained: "mem_drained q'" using drain_progress stuck by blast
  show "mq_buf q' = []" "mset (mq_done q') = mset acc"
    using drained_all_done [OF ok drained workers_exist [OF reach]] by auto
qed

theorem drain_completes_witness:
  "let q = mem_close (snd (mem_submit (7::nat) (new_queue 0 0)));
       q' = q\<lparr>mq_buf := [], mq_workers := [Exited, Exited, Exited, Exited], mq_done := [7]\<rparr>
   in mset (mq_done q') = {#7#} \<and> mem_submit 8 q = (False, q)"
proof -
  have new: "mem_submit (7::nat) (new_queue 0 0) =
      (True, (new_queue 0 0)\<lparr>mq_buf := [7]\<rparr>)" by (simp add: mem_submit_def new_queue_def)
  have "mem_reach 0 0 ([] @ [7::nat]) ((new_queue 0 0)\<lparr>mq_buf := [7]\<rparr>)"
    by (rule accepted [OF fresh new])
  from drain_completes [OF closed [OF this], THEN conjunct1] show ?thesis
    by (simp add: new mem_close_def Let_def)
qed

section \<open>The webhook\<close>

definition posts :: "callback_event list \<Rightarrow> callback_request list" where
  "posts evs = concat (map (\<lambda>e. case e of Post r \<Rightarrow> [r] | Sleep _ \<Rightarrow> []) evs)"

definition slept :: "callback_event list \<Rightarrow> int" where
  "slept evs = sum_list (map (\<lambda>e. case e of Post _ \<Rightarrow> 0 | Sleep d \<Rightarrow> d) evs)"

lemma posts_simps [simp]: "posts [] = []" "posts (Post r # evs) = r # posts evs" "posts (Sleep d # evs) = posts evs"
  by (simp_all add: posts_def)

lemma slept_simps [simp]: "slept [] = 0" "slept (Post r # evs) = slept evs" "slept (Sleep d # evs) = d + slept evs"
  by (simp_all add: slept_def)

fun retryable :: "http_answer \<Rightarrow> bool" where
  "retryable NetError = True"
| "retryable (Code c) = (500 \<le> c)"

lemma callback_loop_step:
  "callback_loop ans rq attempt backoff =
     (if 3 < attempt then []
      else Post rq # (if retryable (ans attempt) \<and> attempt < 3
                      then Sleep backoff # callback_loop ans rq (attempt + 1) (backoff * 2) else []))"
  by (subst callback_loop.simps) (simp add: callback_max_attempts_def split: http_answer.splits)

lemma callback_loop_eq:
  "callback_loop ans rq 1 d =
     Post rq #
       (if retryable (ans 1)
        then Sleep d # Post rq # (if retryable (ans 2) then [Sleep (d * 2), Post rq] else [])
        else [])"
  by (subst callback_loop_step, subst callback_loop_step, subst callback_loop_step) (simp add: numeral_2_eq_2)

text \<open>
  Property C21.  Reporting a run ends: the webhook is posted once, again after a network error or a
  server error, at most three times and with six seconds of waiting in all; every attempt goes to
  the callback address with the same body, signed under the configured secret or not at all.
\<close>
theorem callback_attempts_bounded:
  "let evs = send_callback env ans secret url run err in
     length (posts evs) =
       (case ce_marshal env (callback_payload_of run err) of
          None \<Rightarrow> 0
        | Some _ \<Rightarrow> if ce_url_ok env url then 1 + length (takeWhile retryable [ans 1, ans 2]) else 0) \<and>
     slept evs \<le> 6 \<and>
     set (posts evs) \<subseteq>
       {rq. cb_url rq = url \<and> ce_marshal env (callback_payload_of run err) = Some (cb_body rq) \<and>
            cb_signature rq = (if secret = [] then None else Some (''sha256='' @ ce_hmac env secret (cb_body rq)))}"
  by (simp add: send_callback_def callback_loop_eq [simplified] callback_initial_delay_def Let_def split: option.splits)

end
