(* ===== verification/RedisQueue.thy ===== *)
theory RedisQueue
  imports JobQueue
begin

text \<open>
  \<open>internal/jobqueue/redis.go\<close>: the durable queue on a Redis stream.  The stream, its consumer group
  and the pending-entry list are Redis; the steps say what VaultRun asks of them and what it does
  with a message.  Message ids are positions in the stream and times are seconds.
\<close>

section \<open>The payload\<close>

record job_payload =
  p_run_id :: string
  p_session :: string
  p_container :: string
  p_command :: string
  p_args :: "string list"
  p_env :: "(string \<times> string) list"
  p_dir :: string
  p_timeout :: int
  p_actor :: string
  p_callback :: string
  p_workspace :: string

definition payload_of :: "job \<Rightarrow> job_payload" where
  "payload_of j =
     (let q = j_req j in
      \<lparr> p_run_id = j_run_id j, p_session = j_session j, p_container = q_container q,
        p_command = q_command q, p_args = q_args q, p_env = q_env q, p_dir = q_dir q,
        p_timeout = q_timeout q, p_actor = q_actor q, p_callback = j_callback j,
        p_workspace = q_workspace q \<rparr>)"

definition request_of :: "job_payload \<Rightarrow> run_request" where
  "request_of p =
     \<lparr> q_container = p_container p, q_command = p_command p, q_args = p_args p, q_env = p_env p,
       q_secret_env = [], q_dir = p_dir p, q_timeout = p_timeout p, q_actor = p_actor p,
       q_callback = p_callback p, q_workspace = p_workspace p \<rparr>"

text \<open>The JSON codec, the UUID parser and the run rows of the database.\<close>

record redis_env =
  re_encode :: "job_payload \<Rightarrow> string option"
  re_decode :: "string \<Rightarrow> job_payload option"
  re_uuid :: "string \<Rightarrow> bool"
  re_get_run :: "string \<Rightarrow> run_row option"

text \<open>What is done for a message before it is acknowledged, which it is in every case.\<close>

definition process_message :: "worker_env \<Rightarrow> redis_env \<Rightarrow> string option \<Rightarrow> job_event list" where
  "process_message w env payload =
     (case payload of
        None \<Rightarrow> []
      | Some raw \<Rightarrow>
          (case re_decode env raw of
             None \<Rightarrow> []
           | Some p \<Rightarrow>
               if \<not> re_uuid env (p_run_id p) then []
               else if \<not> re_uuid env (p_session p) then []
               else (case re_get_run env (p_run_id p) of
                  None \<Rightarrow> []
                | Some row \<Rightarrow>
                    work_job w \<lparr> j_run_id = p_run_id p, j_session = p_session p, j_req = request_of p,
                      j_run = row, j_callback = p_callback p \<rparr>)))"

section \<open>The stream, the consumer group and the workers\<close>

definition reaper_min_idle :: int where
  "reaper_min_idle = 2 * 60"

record redisq =
  rq_stream :: "string option list"
  rq_cursor :: nat                      \<comment> \<open>the group's next undelivered message\<close>
  rq_pel :: "nat \<rightharpoonup> int"                \<comment> \<open>unacknowledged messages, with their last delivery\<close>
  rq_now :: int
  rq_stopped :: bool
  rq_workers :: "nat worker list"
  rq_claimed :: "nat list"              \<comment> \<open>messages the reaper has claimed and not begun\<close>
  rq_reaping :: "nat option"
  rq_finished :: "nat list"

definition new_redis :: "int \<Rightarrow> int \<Rightarrow> redisq" where
  "new_redis workers now =
     \<lparr> rq_stream = [], rq_cursor = 0, rq_pel = Map.empty, rq_now = now, rq_stopped = False,
       rq_workers = replicate (nat (if workers \<le> 0 then 4 else workers)) Idle,
       rq_claimed = [], rq_reaping = None, rq_finished = [] \<rparr>"

text \<open>\<open>reachable\<close> says whether \<open>XADD\<close> works.\<close>

definition redis_submit :: "redis_env \<Rightarrow> bool \<Rightarrow> job \<Rightarrow> redisq \<Rightarrow> bool \<times> redisq" where
  "redis_submit env reachable j q =
     (case re_encode env (payload_of j) of
        None \<Rightarrow> (False, q)
      | Some b \<Rightarrow> if \<not> reachable then (False, q) else (True, q\<lparr>rq_stream := rq_stream q @ [Some b]\<rparr>))"

text \<open>\<open>Len\<close>: the number of messages of the stream, or -1.\<close>

definition redis_len :: "bool \<Rightarrow> redisq \<Rightarrow> int" where
  "redis_len reachable q = (if reachable then int (length (rq_stream q)) else - 1)"

definition redis_stop :: "redisq \<Rightarrow> redisq" where
  "redis_stop q = q\<lparr>rq_stopped := True\<rparr>"

definition ack_message :: "bool \<Rightarrow> nat \<Rightarrow> redisq \<Rightarrow> redisq" where
  "ack_message works m q = (if works then q\<lparr>rq_pel := (rq_pel q)(m := None)\<rparr> else q)"

text \<open>\<open>XREADGROUP\<close> with \<open>>\<close> hands a worker the next undelivered message.\<close>

definition read_message :: "nat \<Rightarrow> redisq \<Rightarrow> redisq option" where
  "read_message i q =
     (if i < length (rq_workers q) \<and> rq_workers q ! i = Idle \<and> \<not> rq_stopped q \<and> rq_cursor q < length (rq_stream q)
      then Some (q\<lparr>rq_workers := (rq_workers q)[i := Busy (rq_cursor q)],
                   rq_pel := (rq_pel q)(rq_cursor q \<mapsto> rq_now q), rq_cursor := rq_cursor q + 1\<rparr>)
      else None)"

definition worker_finishes :: "bool \<Rightarrow> nat \<Rightarrow> redisq \<Rightarrow> redisq option" where
  "worker_finishes acked i q =
     (if i < length (rq_workers q)
      then (case rq_workers q ! i of
              Busy m \<Rightarrow> Some (ack_message acked m (q\<lparr>rq_workers := (rq_workers q)[i := Idle], rq_finished := rq_finished q @ [m]\<rparr>))
            | _ \<Rightarrow> None)
      else None)"

definition worker_stops :: "nat \<Rightarrow> redisq \<Rightarrow> redisq option" where
  "worker_stops i q =
     (if i < length (rq_workers q) \<and> rq_workers q ! i = Idle \<and> rq_stopped q
      then Some (q\<lparr>rq_workers := (rq_workers q)[i := Exited]\<rparr>) else None)"

text \<open>\<open>XAUTOCLAIM\<close>: Redis hands over some of the messages that are idle long enough.\<close>

definition stale :: "redisq \<Rightarrow> nat \<Rightarrow> bool" where
  "stale q m \<longleftrightarrow> (case rq_pel q m of None \<Rightarrow> False | Some t \<Rightarrow> reaper_min_idle \<le> rq_now q - t)"

definition reaper_claims :: "nat list \<Rightarrow> redisq \<Rightarrow> redisq option" where
  "reaper_claims ms q =
     (if rq_claimed q = [] \<and> rq_reaping q = None \<and> list_all (stale q) ms \<and> length ms \<le> 10
      then Some (q\<lparr>rq_claimed := ms, rq_pel := (\<lambda>m. if m \<in> set ms then Some (rq_now q) else rq_pel q m)\<rparr>)
      else None)"

definition reaper_begins :: "redisq \<Rightarrow> redisq option" where
  "reaper_begins q =
     (case (rq_reaping q, rq_claimed q) of
        (None, m # ms) \<Rightarrow> Some (q\<lparr>rq_claimed := ms, rq_reaping := Some m\<rparr>)
      | _ \<Rightarrow> None)"

definition reaper_finishes :: "bool \<Rightarrow> redisq \<Rightarrow> redisq option" where
  "reaper_finishes acked q =
     (case rq_reaping q of
        None \<Rightarrow> None
      | Some m \<Rightarrow> Some (ack_message acked m (q\<lparr>rq_reaping := None, rq_finished := rq_finished q @ [m]\<rparr>)))"

text \<open>The process dies and is started again: the stream and the pending entries stay.\<close>

definition restart :: "redisq \<Rightarrow> redisq" where
  "restart q =
     q\<lparr>rq_stopped := False, rq_workers := replicate (length (rq_workers q)) Idle, rq_claimed := [], rq_reaping := None\<rparr>"

inductive redis_step :: "redis_env \<Rightarrow> redisq \<Rightarrow> redisq \<Rightarrow> bool" for env where
  submits: "redis_submit env up j q = (ok, q') \<Longrightarrow> redis_step env q q'"
| stops: "redis_step env q (redis_stop q)"
| reads: "read_message i q = Some q' \<Longrightarrow> redis_step env q q'"
| worked: "worker_finishes acked i q = Some q' \<Longrightarrow> redis_step env q q'"
| worker_leaves: "worker_stops i q = Some q' \<Longrightarrow> redis_step env q q'"
| claims: "reaper_claims ms q = Some q' \<Longrightarrow> redis_step env q q'"
| begins: "reaper_begins q = Some q' \<Longrightarrow> redis_step env q q'"
| reaped: "reaper_finishes acked q = Some q' \<Longrightarrow> redis_step env q q'"
| time_passes: "0 \<le> d \<Longrightarrow> redis_step env q (q\<lparr>rq_now := rq_now q + d\<rparr>)"
| restarts: "redis_step env q (restart q)"

inductive redis_reach :: "redis_env \<Rightarrow> redisq \<Rightarrow> bool" for env where
  fresh: "redis_reach env (new_redis workers now)"
| step: "redis_reach env q \<Longrightarrow> redis_step env q q' \<Longrightarrow> redis_reach env q'"

interpretation redisq: queue_contract "redis_submit env up" "\<lambda>j. re_encode env (payload_of j)" rq_stream
  for env :: redis_env and up :: bool
  by unfold_locales (auto simp: redis_submit_def split: option.splits if_splits)

section \<open>What a message becomes\<close>

lemma request_of_payload:
  "request_of (payload_of j) = (j_req j)\<lparr>q_secret_env := [], q_callback := j_callback j\<rparr>"
  by (simp add: request_of_def payload_of_def Let_def)

lemma message_executed:
  assumes "re_encode env (payload_of j) = Some raw" "re_decode env raw = Some (payload_of j)"
    "re_uuid env (j_run_id j)" "re_uuid env (j_session j)" "re_get_run env (j_run_id j) = Some row"
  shows "process_message w env (Some raw) =
    work_job w (j\<lparr>j_req := (j_req j)\<lparr>q_secret_env := [], q_callback := j_callback j\<rparr>, j_run := row\<rparr>)"
proof -
  have "p_run_id (payload_of j) = j_run_id j" "p_session (payload_of j) = j_session j"
    "p_callback (payload_of j) = j_callback j"
    by (simp_all add: payload_of_def Let_def)
  then show ?thesis
    using assms by (simp add: process_message_def request_of_payload) (cases j, simp)
qed

text \<open>The command runs with the environment of the request and without the secrets it was given.\<close>

lemma message_drops_secrets:
  assumes "re_encode env (payload_of j) = Some raw" "re_decode env raw = Some (payload_of j)"
    "re_uuid env (j_run_id j)" "re_uuid env (j_session j)" "re_get_run env (j_run_id j) = Some row"
    and e: "RunnerDid (EvExec cfg) \<in> set (process_message w env (Some raw))"
  shows "cfg = run_config ((j_req j)\<lparr>q_secret_env := [], q_callback := j_callback j\<rparr>) row"
  using e unfolding message_executed [OF assms(1-5)]
  by (auto simp: work_job_def execute_impl_def after_run_def run_checkpoint_def detect_artifacts_def audit_finished_def Let_def
      split: prod.splits if_splits sum.splits)

section \<open>Messages are not lost\<close>

definition redis_ok :: "redisq \<Rightarrow> bool" where
  "redis_ok q \<longleftrightarrow>
     rq_cursor q \<le> length (rq_stream q) \<and>
     {m. m < rq_cursor q} \<subseteq> dom (rq_pel q) \<union> set (rq_finished q) \<and>
     rq_workers q \<noteq> []"

lemma redis_step_ok: "redis_step env q q' \<Longrightarrow> redis_ok q \<Longrightarrow> redis_ok q'"
proof (induction rule: redis_step.induct)
  case (submits up j q ok q')
  then show ?case by (auto simp: redis_submit_def redis_ok_def split: option.splits if_splits)
next
  case (reads i q q')
  then show ?case
    by (auto simp: read_message_def redis_ok_def less_Suc_eq split: if_splits)
next
  case (worked acked i q q')
  then show ?case
    by (auto simp: worker_finishes_def ack_message_def redis_ok_def split: if_splits worker.splits)
next
  case (worker_leaves i q q')
  then show ?case by (auto simp: worker_stops_def redis_ok_def split: if_splits)
next
  case (claims ms q q')
  then have q': "rq_cursor q' = rq_cursor q" "rq_stream q' = rq_stream q" "rq_finished q' = rq_finished q"
    "rq_workers q' = rq_workers q" "dom (rq_pel q) \<subseteq> dom (rq_pel q')"
    by (auto simp: reaper_claims_def split: if_splits)
  then show ?case using claims(2) unfolding redis_ok_def by (metis Un_mono order_refl order_trans)
next
  case (begins q q')
  then show ?case by (auto simp: reaper_begins_def redis_ok_def split: option.splits list.splits)
next
  case (reaped acked q q')
  then show ?case by (auto simp: reaper_finishes_def ack_message_def redis_ok_def split: option.splits if_splits)
qed (auto simp: redis_ok_def redis_stop_def restart_def)

lemma redis_reach_ok: "redis_reach env q \<Longrightarrow> redis_ok q"
proof (induction rule: redis_reach.induct)
  case (fresh workers now)
  then show ?case by (simp add: redis_ok_def new_redis_def)
next
  case (step q q')
  then show ?case by (blast intro: redis_step_ok)
qed

lemma finish_next_message:
  assumes q: "rq_cursor q < length (rq_stream q)" "rq_workers q ! 0 = Idle" "rq_workers q \<noteq> []" "\<not> rq_stopped q"
  shows "\<exists>q'. (redis_step env)\<^sup>*\<^sup>* q q' \<and> rq_finished q' = rq_finished q @ [rq_cursor q] \<and>
     rq_cursor q' = rq_cursor q + 1 \<and> rq_stream q' = rq_stream q \<and> rq_workers q' ! 0 = Idle \<and>
     rq_workers q' \<noteq> [] \<and> \<not> rq_stopped q'"
proof -
  obtain q1 where q1: "read_message 0 q = Some q1" "rq_workers q1 = (rq_workers q)[0 := Busy (rq_cursor q)]"
    "rq_finished q1 = rq_finished q" "rq_cursor q1 = rq_cursor q + 1" "rq_stream q1 = rq_stream q" "\<not> rq_stopped q1"
    using q by (simp add: read_message_def)
  obtain q2 where q2: "worker_finishes True 0 q1 = Some q2" "rq_finished q2 = rq_finished q1 @ [rq_cursor q]"
    "rq_cursor q2 = rq_cursor q1" "rq_stream q2 = rq_stream q1" "rq_workers q2 = (rq_workers q1)[0 := Idle]" "\<not> rq_stopped q2"
    using q q1 by (simp add: worker_finishes_def ack_message_def)
  have "(redis_step env)\<^sup>*\<^sup>* q q2"
    using reads [OF q1(1)] worked [OF q2(1)] by (meson converse_rtranclp_into_rtranclp r_into_rtranclp)
  then show ?thesis using q q1 q2 by (intro exI [of _ q2]) auto
qed

lemma finish_undelivered:
  assumes "rq_cursor q \<le> m" "m < length (rq_stream q)" "rq_workers q ! 0 = Idle" "rq_workers q \<noteq> []" "\<not> rq_stopped q"
  shows "\<exists>q'. (redis_step env)\<^sup>*\<^sup>* q q' \<and> m \<in> set (rq_finished q')"
  using assms
proof (induction "m - rq_cursor q" arbitrary: q)
  case 0
  then have "m = rq_cursor q" by simp
  then show ?case using finish_next_message [of q env] 0 by fastforce
next
  case (Suc k)
  obtain q1 where q1: "(redis_step env)\<^sup>*\<^sup>* q q1" "rq_cursor q1 = rq_cursor q + 1" "rq_stream q1 = rq_stream q"
    "rq_workers q1 ! 0 = Idle" "rq_workers q1 \<noteq> []" "\<not> rq_stopped q1"
    using finish_next_message [of q env] Suc.prems by auto
  have "\<exists>q'. (redis_step env)\<^sup>*\<^sup>* q1 q' \<and> m \<in> set (rq_finished q')"
    using Suc.hyps(2) Suc.prems q1 by (intro Suc.hyps(1)) auto
  then show ?case using q1(1) by (meson rtranclp_trans)
qed

lemma finish_pending:
  assumes "m \<in> dom (rq_pel q)" "rq_claimed q = []" "rq_reaping q = None"
  shows "\<exists>q'. (redis_step env)\<^sup>*\<^sup>* q q' \<and> m \<in> set (rq_finished q')"
proof -
  obtain t where t: "rq_pel q m = Some t" using assms(1) by blast
  define d where "d = max 0 (t + reaper_min_idle - rq_now q)"
  let ?q1 = "q\<lparr>rq_now := rq_now q + d\<rparr>"
  have "stale ?q1 m" using t by (simp add: stale_def d_def)
  then obtain q2 where q2: "reaper_claims [m] ?q1 = Some q2" "rq_claimed q2 = [m]" "rq_reaping q2 = None"
    using assms by (simp add: reaper_claims_def)
  obtain q3 where q3: "reaper_begins q2 = Some q3" "rq_reaping q3 = Some m"
    using q2 by (simp add: reaper_begins_def)
  obtain q4 where q4: "reaper_finishes True q3 = Some q4" "m \<in> set (rq_finished q4)"
    using q3 by (simp add: reaper_finishes_def ack_message_def)
  have "redis_step env q ?q1" by (rule time_passes) (simp add: d_def)
  then have "(redis_step env)\<^sup>*\<^sup>* q q4"
    using claims [OF q2(1)] begins [OF q3(1)] reaped [OF q4(1)]
    by (meson converse_rtranclp_into_rtranclp r_into_rtranclp)
  then show ?thesis using q4 by blast
qed


definition redis_demo_env :: redis_env where
  "redis_demo_env = \<lparr> re_encode = (\<lambda>p. Some (p_run_id p)), re_decode = (\<lambda>_. None), re_uuid = (\<lambda>_. True), re_get_run = (\<lambda>_. None) \<rparr>"

lemma demo_submitted:
  fixes j :: job
  shows "redis_reach redis_demo_env ((new_redis 1 0)\<lparr>rq_stream := [Some (j_run_id j)]\<rparr>)"
proof -
  have "redis_submit redis_demo_env True j (new_redis 1 0) = (True, (new_redis 1 0)\<lparr>rq_stream := [Some (j_run_id j)]\<rparr>)"
    by (simp add: redis_submit_def redis_demo_env_def payload_of_def new_redis_def Let_def)
  from redis_reach.step [OF fresh submits [OF this]] show ?thesis .
qed


text \<open>
  The reaper takes a message that is two minutes old, while a run may take an hour: a worker and the
  reaper then execute the same run at the same time.
\<close>

lemma redis_runs_twice:
  "\<exists>q. redis_reach redis_demo_env q \<and> rq_workers q ! 0 = Busy 0 \<and> rq_reaping q = Some 0"
proof -
  let ?q0 = "(new_redis 1 0)\<lparr>rq_stream := [Some ''r'']\<rparr>"
  let ?q1 = "?q0\<lparr>rq_workers := [Busy 0], rq_pel := [0 \<mapsto> 0], rq_cursor := 1\<rparr>"
  let ?q2 = "?q1\<lparr>rq_now := 120\<rparr>"
  let ?q3 = "?q2\<lparr>rq_claimed := [0], rq_pel := [0 \<mapsto> 120]\<rparr>"
  let ?q4 = "?q3\<lparr>rq_claimed := [], rq_reaping := Some 0\<rparr>"
  have r0: "redis_reach redis_demo_env ?q0" using demo_submitted [of "(undefined :: job)\<lparr>j_run_id := ''r''\<rparr>"] by simp
  have "read_message 0 ?q0 = Some ?q1" by (simp add: read_message_def new_redis_def)
  note r1 = redis_reach.step [OF r0 reads [OF this]]
  have "redis_step redis_demo_env ?q1 ?q2" using time_passes [of 120 redis_demo_env ?q1] by (simp add: new_redis_def)
  note r2 = redis_reach.step [OF r1 this]
  have "reaper_claims [0] ?q2 = Some ?q3"
    by (simp add: reaper_claims_def stale_def reaper_min_idle_def new_redis_def fun_eq_iff)
  note r3 = redis_reach.step [OF r2 claims [OF this]]
  have "reaper_begins ?q3 = Some ?q4" by (simp add: reaper_begins_def new_redis_def)
  note r4 = redis_reach.step [OF r3 begins [OF this]]
  then show ?thesis by (intro exI [of _ ?q4]) simp
qed

end
