(* ===== verification/SessionCreate.thy ===== *)
theory SessionCreate
  imports Complex_Main Access SandboxProps
begin

text \<open>
  \<open>cmd/api/handlers/sessions.go\<close>: creating a session (validation and defaults, the actor's quota, the
  organisation, workspace, disk quota and snapshot, labels, the database row and the sandbox),
  deleting it and replacing its labels.  What is done to the workspace, the database and the sandbox
  is a list of events.  CPU limits are rationals where the code has floating point.
\<close>

section \<open>Requests\<close>

record create_request =
  cr_name :: "string option"
  cr_image :: string
  cr_network :: bool
  cr_cpu :: rat
  cr_memory :: int
  cr_timeout :: int
  cr_labels :: "(string \<times> string) list"
  cr_hosts :: "string list"
  cr_org :: "string option"
  cr_snapshot :: "string option"
  cr_gpu :: bool
  cr_replay :: bool

definition session_name_char :: "char \<Rightarrow> bool" where
  "session_name_char c \<longleftrightarrow> is_alnum c \<or> c \<in> {CHR '' '', CHR ''.'', CHR ''_'', CHR ''-''}"

definition session_name_re :: "string \<Rightarrow> bool" where
  "session_name_re s =
     (case s of [] \<Rightarrow> False | c # cs \<Rightarrow> is_alnum c \<and> list_all session_name_char cs \<and> length cs \<le> 63)"

definition normal_name :: "string option \<Rightarrow> nat + string option" where
  "normal_name n =
     (case n of
        None \<Rightarrow> Inr None
      | Some raw \<Rightarrow>
          (let name = trim_space raw in
           if name = [] then Inr None
           else if \<not> session_name_re name \<or> has_suffix name '' '' then Inl 400
           else Inr (Some name)))"

definition max_labels :: nat where "max_labels = 32"
definition max_label_key_len :: nat where "max_label_key_len = 63"
definition max_label_value_len :: nat where "max_label_value_len = 256"

definition validate_labels :: "(string \<times> string) list \<Rightarrow> bool" where
  "validate_labels labels \<longleftrightarrow>
     length labels \<le> max_labels \<and>
     list_all (\<lambda>(k, v). k \<noteq> [] \<and> length k \<le> max_label_key_len \<and> length v \<le> max_label_value_len) labels"

section \<open>Configuration and surroundings\<close>

record session_limits =
  ml_cpu :: rat
  ml_memory :: int
  ml_timeout :: int
  ml_sessions :: int

text \<open>\<open>SessionLimits\<close> of \<open>internal/config\<close>, from the parsed settings.\<close>

definition session_limits_of :: "rat \<Rightarrow> int \<Rightarrow> int \<Rightarrow> int \<Rightarrow> session_limits" where
  "session_limits_of cpu mem tmo sessions =
     \<lparr> ml_cpu = (if cpu \<le> 0 then 8 else cpu), ml_memory = (if mem \<le> 0 then 8192 else mem),
       ml_timeout = (if tmo \<le> 0 then 86400 else tmo), ml_sessions = (if sessions < 0 then 0 else sessions) \<rparr>"

record create_config =
  cc_limits :: session_limits
  cc_default_image :: string
  cc_images :: "string list"
  cc_gpu_devices :: string
  cc_prefix :: string
  cc_base :: string
  cc_host_base :: string
  cc_allow_private :: bool

definition image_allowed :: "(string \<Rightarrow> string \<Rightarrow> bool) \<Rightarrow> string list \<Rightarrow> string \<Rightarrow> bool" where
  "image_allowed equal_fold allowlist img \<longleftrightarrow>
     allowlist = [] \<or> list_ex (\<lambda>a. equal_fold a img) allowlist"

text \<open>What the database, the file system and the daemon answer to one creation.\<close>

record create_env =
  en_equal_fold :: "string \<Rightarrow> string \<Rightarrow> bool"
  en_gpu_supported :: bool
  en_actor :: string
  en_active :: "nat option"                  \<comment> \<open>active sessions of the actor\<close>
  en_uuid :: "string \<Rightarrow> string option"
  en_org :: "string \<Rightarrow> unit lookup"
  en_roles :: member_roles
  en_sessions :: sessions
  en_id :: string
  en_workspace :: "string option"            \<comment> \<open>the created workspace\<close>
  en_quota :: "bool option"                  \<comment> \<open>\<open>None\<close> without a disk quota\<close>
  en_snapshot :: "string \<Rightarrow> (string \<times> string) lookup"   \<comment> \<open>its session and archive\<close>
  en_restored :: bool
  en_inserted :: bool
  en_updated :: bool
  en_stop_label :: "string option"
  en_image_unavailable :: bool      \<comment> \<open>the daemon's error on the image is the caller's fault\<close>
  en_client :: sb_client
  en_sandbox :: sb_env

record session_record =
  sr_id :: string
  sr_name :: "string option"
  sr_image :: string
  sr_network :: bool
  sr_cpu :: rat
  sr_memory :: int
  sr_timeout :: int
  sr_workspace :: string
  sr_labels :: "(string \<times> string) list"
  sr_hosts :: "string list"
  sr_created_by :: string
  sr_org :: "string option"
  sr_replay :: bool

datatype session_event =
    WsCreate
  | WsQuota
  | WsRestore string
  | WsDelete
  | RowInsert session_record
  | RowFail
  | RowRunning string
  | RowStop
  | Sandboxed sb_event
  | SnapshotRowDelete string
  | ArchiveRemove string
  | LabelsUpdate "(string \<times> string) list"
  | AuditSession string

section \<open>Create\<close>

definition min_cpu_limit :: rat where "min_cpu_limit = 1 / 100"
definition min_memory_limit_mb :: int where "min_memory_limit_mb = 6"

text \<open>The checks before defaults are applied.\<close>

definition check_raw :: "create_config \<Rightarrow> create_env \<Rightarrow> create_request \<Rightarrow> nat + unit" where
  "check_raw cfg e r =
     (if cr_cpu r < 0 then Inl 400
      else if cr_memory r < 0 then Inl 400
      else if 0 < cr_cpu r \<and> cr_cpu r < min_cpu_limit then Inl 400
      else if 0 < cr_memory r \<and> cr_memory r < min_memory_limit_mb then Inl 400
      else if cr_timeout r < 0 then Inl 400
      else if cr_hosts r \<noteq> [] \<and> \<not> cr_network r then Inl 400
      else if \<not> is_ok (validate_allowed_hosts (cr_hosts r)) then Inl 400
      else if cr_gpu r \<and> cc_gpu_devices cfg \<noteq> [] \<and> \<not> en_gpu_supported e then Inl 501
      else Inr ())"

definition with_defaults :: "create_config \<Rightarrow> create_request \<Rightarrow> create_request" where
  "with_defaults cfg r =
     r\<lparr>cr_image := (if cr_image r = [] then cc_default_image cfg else cr_image r),
       cr_cpu := (if cr_cpu r \<le> 0 then 1 else cr_cpu r),
       cr_memory := (if cr_memory r \<le> 0 then 512 else cr_memory r),
       cr_timeout := (if cr_timeout r \<le> 0 then 300 else cr_timeout r)\<rparr>"

definition check_limits :: "create_config \<Rightarrow> create_env \<Rightarrow> create_request \<Rightarrow> nat + unit" where
  "check_limits cfg e r =
     (let l = cc_limits cfg in
      if ml_cpu l < cr_cpu r then Inl 400
      else if ml_memory l < cr_memory r then Inl 400
      else if ml_timeout l < cr_timeout r then Inl 400
      else if \<not> image_allowed (en_equal_fold e) (cc_images cfg) (cr_image r) then Inl 400
      else Inr ())"

definition check_active :: "create_config \<Rightarrow> create_env \<Rightarrow> nat + unit" where
  "check_active cfg e =
     (let m = ml_sessions (cc_limits cfg) in
      if 0 < m \<and> en_actor e \<noteq> master
      then (case en_active e of None \<Rightarrow> Inl 500 | Some n \<Rightarrow> if m \<le> int n then Inl 429 else Inr ())
      else Inr ())"

definition check_org :: "create_env \<Rightarrow> string option \<Rightarrow> nat + string option" where
  "check_org e org =
     (case org of
        None \<Rightarrow> Inr None
      | Some raw \<Rightarrow>
          if raw = [] then Inr None
          else (case en_uuid e raw of
             None \<Rightarrow> Inl 400
           | Some oid \<Rightarrow>
               (case en_org e oid of
                  Found _ \<Rightarrow>
                    if en_actor e = master then Inr (Some oid)
                    else (case en_roles e oid (en_actor e) of
                            Found role \<Rightarrow> if role_at_least role ''executor'' then Inr (Some oid) else Inl 403
                          | _ \<Rightarrow> Inl 403)
                | _ \<Rightarrow> Inl 400)))"

definition admit_session :: "create_config \<Rightarrow> create_env \<Rightarrow> create_request \<Rightarrow> nat + create_request \<times> string option" where
  "admit_session cfg e r =
     rbind (normal_name (cr_name r)) (\<lambda>name.
     rbind (check_raw cfg e r) (\<lambda>_.
     (let r' = with_defaults cfg (r\<lparr>cr_name := name\<rparr>) in
     rbind (check_limits cfg e r') (\<lambda>_.
     rbind (check_active cfg e) (\<lambda>_.
     rbind (check_org e (cr_org r)) (\<lambda>org. Inr (r', org)))))))"

text \<open>The workspace with its quota and the snapshot restored into it.\<close>

definition restore_snapshot_into :: "create_env \<Rightarrow> string option \<Rightarrow> (nat + unit) \<times> session_event list" where
  "restore_snapshot_into e snapshot =
     (case snapshot of
        None \<Rightarrow> (Inr (), [])
      | Some raw \<Rightarrow>
          if raw = [] then (Inr (), [])
          else (case en_uuid e raw of
             None \<Rightarrow> (Inl 400, [WsDelete])
           | Some snap \<Rightarrow>
               (case en_snapshot e snap of
                  NoRows \<Rightarrow> (Inl 404, [WsDelete])
                | DbError \<Rightarrow> (Inl 500, [WsDelete])
                | Found (sid, archive) \<Rightarrow>
                    (case check_session_access (en_sessions e) (en_roles e) (en_actor e) sid ''viewer'' of
                       Inl code \<Rightarrow> (Inl code, [WsDelete])
                     | Inr _ \<Rightarrow>
                         if en_restored e then (Inr (), [WsRestore archive])
                         else (Inl 500, [WsRestore archive, WsDelete])))))"

definition prepare_workspace :: "create_env \<Rightarrow> string option \<Rightarrow> (nat + string) \<times> session_event list" where
  "prepare_workspace e snapshot =
     (case en_workspace e of
        None \<Rightarrow> (Inl 500, [])
      | Some path \<Rightarrow>
          if en_quota e = Some False then (Inl 500, [WsCreate, WsQuota, WsDelete])
          else (let q = (if en_quota e = None then [] else [WsQuota]) in
                case restore_snapshot_into e snapshot of
                  (Inl code, evs) \<Rightarrow> (Inl code, WsCreate # q @ evs)
                | (Inr _, evs) \<Rightarrow> (Inr path, WsCreate # q @ evs)))"

text \<open>\<open>strings.Replace(s, old, new, 1)\<close> for a non-empty \<open>old\<close>.\<close>

fun replace_first :: "string \<Rightarrow> string \<Rightarrow> string \<Rightarrow> string" where
  "replace_first old new [] = []"
| "replace_first old new (c # s) =
     (if has_prefix (c # s) old then new @ drop (length old) (c # s) else c # replace_first old new s)"

definition host_workspace :: "create_config \<Rightarrow> string \<Rightarrow> string" where
  "host_workspace cfg path =
     (if cc_host_base cfg = [] then path else replace_first (cc_base cfg) (cc_host_base cfg) path)"

definition session_of :: "create_env \<Rightarrow> create_request \<Rightarrow> string option \<Rightarrow> string \<Rightarrow> session_record" where
  "session_of e r org path =
     \<lparr> sr_id = en_id e, sr_name = cr_name r, sr_image = cr_image r, sr_network = cr_network r,
       sr_cpu = cr_cpu r, sr_memory = cr_memory r, sr_timeout = cr_timeout r, sr_workspace = path,
       sr_labels = cr_labels r, sr_hosts = cr_hosts r, sr_created_by = en_actor e, sr_org = org,
       sr_replay = cr_replay r \<rparr>"

definition sandbox_config_of :: "create_config \<Rightarrow> create_env \<Rightarrow> create_request \<Rightarrow> string \<Rightarrow> sb_config" where
  "sandbox_config_of cfg e r path =
     \<lparr> sc_session = en_id e, sc_image = cr_image r, sc_workspace = path,
       sc_host_workspace = host_workspace cfg path, sc_network = cr_network r,
       sc_memory_mb = cr_memory r, sc_name = cc_prefix cfg @ ''-'' @ en_id e, sc_hosts = cr_hosts r,
       sc_allow_private = cc_allow_private cfg,
       sc_gpu = (if cr_gpu r \<and> cc_gpu_devices cfg \<noteq> [] then cc_gpu_devices cfg else []) \<rparr>"

definition sandbox_status :: "create_env \<Rightarrow> sb_err \<Rightarrow> nat" where
  "sandbox_status e err =
     (case err of
        PullFailed \<Rightarrow> if en_image_unavailable e then 400 else 500
      | ImageCheckFailed \<Rightarrow> if en_image_unavailable e then 400 else 500
      | HostsInvalid _ \<Rightarrow> 400
      | EgressUnavailable \<Rightarrow> 501
      | _ \<Rightarrow> 500)"

definition start_session ::
  "create_config \<Rightarrow> create_env \<Rightarrow> create_request \<Rightarrow> string option \<Rightarrow> string \<Rightarrow> nat \<times> session_event list" where
  "start_session cfg e r org path =
     (if \<not> en_inserted e then (500, [WsDelete])
      else (let row = RowInsert (session_of e r org path) in
        case create_sandbox (en_client e) (en_sandbox e) (sandbox_config_of cfg e r path) of
          (Inl err, evs) \<Rightarrow> (sandbox_status e err, row # map Sandboxed evs @ [RowFail, WsDelete])
        | (Inr cid, evs) \<Rightarrow>
            if \<not> en_updated e
            then (500, row # map Sandboxed evs @ map Sandboxed (stop_sandbox (en_stop_label e) cid) @ [WsDelete])
            else (201, row # map Sandboxed evs @ [RowRunning cid, AuditSession ''session.created''])))"

definition create_session :: "create_config \<Rightarrow> create_env \<Rightarrow> create_request option \<Rightarrow> nat \<times> session_event list" where
  "create_session cfg e req =
     (case req of
        None \<Rightarrow> (400, [])
      | Some r \<Rightarrow>
          (case admit_session cfg e r of
             Inl code \<Rightarrow> (code, [])
           | Inr (r', org) \<Rightarrow>
               (case prepare_workspace e (cr_snapshot r') of
                  (Inl code, evs) \<Rightarrow> (code, evs)
                | (Inr path, evs) \<Rightarrow>
                    if \<not> validate_labels (cr_labels r') then (400, evs)
                    else (case start_session cfg e r' org path of (code, evs') \<Rightarrow> (code, evs @ evs')))))"

section \<open>Delete and labels\<close>

text \<open>
  \<open>snaps\<close> are the snapshots of the session with what deleting each row answers (the archive to
  remove), \<open>None\<close> when they could not be listed; stopping the sandbox is best effort.
\<close>

definition delete_snapshots :: "(string \<times> string option) list option \<Rightarrow> session_event list" where
  "delete_snapshots snaps =
     (case snaps of
        None \<Rightarrow> []
      | Some ss \<Rightarrow>
          concat (map (\<lambda>(sid, r). SnapshotRowDelete sid # (case r of None \<Rightarrow> [] | Some archive \<Rightarrow> [ArchiveRemove archive])) ss))"

definition delete_session ::
  "sessions \<Rightarrow> member_roles \<Rightarrow> string \<Rightarrow> string option \<Rightarrow> (string \<times> string option) list option \<Rightarrow> bool \<Rightarrow>
   string option \<Rightarrow> nat \<times> session_event list" where
  "delete_session get_session roles actor stop_label snaps stop_ok sid =
     (case sid of
        None \<Rightarrow> (400, [])
      | Some i \<Rightarrow>
          (case check_session_access get_session roles actor i ''admin'' of
             Inl code \<Rightarrow> (code, [])
           | Inr s \<Rightarrow>
               (let evs = (case s_container s of None \<Rightarrow> [] | Some cid \<Rightarrow> map Sandboxed (stop_sandbox stop_label cid)) @
                          delete_snapshots snaps @ [WsDelete, RowStop]
                in if stop_ok then (200, evs @ [AuditSession ''session.deleted'']) else (500, evs))))"

definition update_labels ::
  "sessions \<Rightarrow> member_roles \<Rightarrow> string \<Rightarrow> bool \<Rightarrow> string option \<Rightarrow> (string \<times> string) list option \<Rightarrow> nat \<times> session_event list" where
  "update_labels get_session roles actor db_ok sid body =
     (case sid of
        None \<Rightarrow> (400, [])
      | Some i \<Rightarrow>
          (case check_session_access get_session roles actor i ''executor'' of
             Inl code \<Rightarrow> (code, [])
           | Inr _ \<Rightarrow>
               (case body of
                  None \<Rightarrow> (400, [])
                | Some labels \<Rightarrow>
                    if \<not> validate_labels labels then (400, [])
                    else if \<not> db_ok then (500, [LabelsUpdate labels])
                    else (200, [LabelsUpdate labels]))))"

end
