(* ===== verification/SessionProps.thy ===== *)
theory SessionProps
  imports SessionCreate
begin

text \<open>
  Properties of session creation: what is stored and started is well formed and within the limits,
  and what a failed creation leaves behind.
\<close>

section \<open>Events of the sandbox\<close>

lemma launch_events:
  assumes "ev \<in> set (snd (launch cl e c mode net))"
  shows "(\<exists>b. ev = EvCtrCreate b (sandbox_limits e c) (sc_name c)) \<or>
         (\<exists>x. ev = EvNetRemove x) \<or> (\<exists>x. ev = EvIpt x) \<or> (\<exists>x. ev = EvCtrStart x) \<or> (\<exists>x. ev = EvCtrRemove x)"
proof -
  let ?ok = "\<lambda>ev. (\<exists>b. ev = EvCtrCreate b (sandbox_limits e c) (sc_name c)) \<or>
         (\<exists>x. ev = EvNetRemove x) \<or> (\<exists>x. ev = EvIpt x) \<or> (\<exists>x. ev = EvCtrStart x) \<or> (\<exists>x. ev = EvCtrRemove x)"
  have policy: "set (snd (apply_policy e c cid nid gw)) \<subseteq> {ev. ?ok ev}" for cid nid gw
    by (auto simp: apply_policy_def split: sum.splits option.splits prod.splits)
  have start: "set (snd (start_container e cid net)) \<subseteq> {ev. ?ok ev}" for cid
    by (auto simp: start_container_def split: option.splits)
  have chosen: "set (snd (case net of None \<Rightarrow> (None, []) | Some (nid, gw) \<Rightarrow> apply_policy e c cid nid gw)) \<subseteq> {ev. ?ok ev}" for cid
    using policy by (auto split: option.splits prod.splits)
  show ?thesis
  proof (cases "memory_bytes (sc_memory_mb c) < 0 \<or> se_ctr_id e = None")
    case True
    then show ?thesis using assms by (auto simp: launch_def Let_def split: if_splits option.splits)
  next
    case False
    then obtain cid where cid: "se_ctr_id e = Some cid" "\<not> memory_bytes (sc_memory_mb c) < 0" by auto
    obtain bad evs where b: "(case net of None \<Rightarrow> (None, []) | Some (nid, gw) \<Rightarrow> apply_policy e c cid nid gw) = (bad, evs)"
      by fastforce
    obtain r evs' where s: "start_container e cid net = (r, evs')" by fastforce
    have "set evs \<subseteq> {ev. ?ok ev}" "set evs' \<subseteq> {ev. ?ok ev}"
      using chosen [of cid] start [of cid] by (simp_all add: b s)
    then show ?thesis
      using assms cid b s by (cases bad) (auto simp: launch_def Let_def)
  qed
qed

lemma sandbox_events:
  assumes "ev \<in> set (snd (create_sandbox cl e c))"
  shows "(\<exists>b. ev = EvCtrCreate b (sandbox_limits e c) (sc_name c)) \<or>
         (\<forall>b l n x. ev \<noteq> EvCtrCreate b l n \<and> ev \<noteq> EvCtrStop x)"
proof -
  have net: "set (snd (setup_network e c)) \<subseteq> {ev. \<forall>b l n x. ev \<noteq> EvCtrCreate b l n \<and> ev \<noteq> EvCtrStop x}"
    by (auto simp: setup_network_def split: option.splits)
  obtain r evs where cs: "create_sandbox cl e c = (r, evs)" by fastforce
  then show ?thesis
  proof (cases rule: create_sandbox_cases)
    case (network err)
    then show ?thesis using assms cs net by auto
  next
    case (launch mode net1 evs1 evs2)
    then have "ev \<in> set (snd (setup_network e c)) \<or> ev \<in> set (snd (Sandbox.launch cl e c mode net1))"
      using assms cs by auto
    then show ?thesis using net launch_events by blast
  qed (use assms cs in simp)
qed

section \<open>What is stored\<close>

definition may_create_in :: "create_env \<Rightarrow> string option \<Rightarrow> bool" where
  "may_create_in e org \<longleftrightarrow>
     (case org of
        None \<Rightarrow> True
      | Some oid \<Rightarrow>
          en_actor e = master \<or>
          (\<exists>role. en_roles e oid (en_actor e) = Found role \<and> role_at_least role ''executor''))"

text \<open>A well-formed session of the actor: its row respects the limits and the formats.\<close>

definition session_wf :: "create_config \<Rightarrow> create_env \<Rightarrow> session_record \<Rightarrow> bool" where
  "session_wf cfg e s \<longleftrightarrow>
     (case sr_name s of None \<Rightarrow> True | Some n \<Rightarrow> session_name_re n) \<and>
     min_cpu_limit \<le> sr_cpu s \<and> sr_cpu s \<le> ml_cpu (cc_limits cfg) \<and>
     min_memory_limit_mb \<le> sr_memory s \<and> sr_memory s \<le> ml_memory (cc_limits cfg) \<and>
     0 < sr_timeout s \<and> sr_timeout s \<le> ml_timeout (cc_limits cfg) \<and>
     image_allowed (en_equal_fold e) (cc_images cfg) (sr_image s) \<and>
     is_ok (validate_allowed_hosts (sr_hosts s)) \<and> (sr_network s \<or> sr_hosts s = []) \<and>
     validate_labels (sr_labels s) \<and> sr_created_by s = en_actor e \<and> may_create_in e (sr_org s)"

lemma normal_name_ok: "normal_name n = Inr n' \<Longrightarrow> (case n' of None \<Rightarrow> True | Some m \<Rightarrow> session_name_re m)"
  by (auto simp: normal_name_def Let_def split: option.splits if_splits)

lemma check_org_ok: "check_org e org = Inr org' \<Longrightarrow> may_create_in e org'"
  by (auto simp: check_org_def may_create_in_def split: option.splits lookup.splits if_splits)

lemma check_raw_ok:
  assumes "check_raw cfg e r = Inr u"
  shows "0 \<le> cr_cpu r" "0 \<le> cr_memory r" "0 \<le> cr_timeout r"
    "cr_cpu r = 0 \<or> min_cpu_limit \<le> cr_cpu r" "cr_memory r = 0 \<or> min_memory_limit_mb \<le> cr_memory r"
    "is_ok (validate_allowed_hosts (cr_hosts r))" "cr_network r \<or> cr_hosts r = []"
  using assms by (auto simp: check_raw_def split: if_splits)

lemma check_limits_ok:
  assumes "check_limits cfg e r = Inr u"
  shows "cr_cpu r \<le> ml_cpu (cc_limits cfg)" "cr_memory r \<le> ml_memory (cc_limits cfg)"
    "cr_timeout r \<le> ml_timeout (cc_limits cfg)" "image_allowed (en_equal_fold e) (cc_images cfg) (cr_image r)"
  using assms by (auto simp: check_limits_def Let_def split: if_splits)

lemma admit_session_ok:
  assumes "admit_session cfg e r = Inr (r', org)" "validate_labels (cr_labels r')"
  shows "session_wf cfg e (session_of e r' org path)"
proof -
  obtain name where n: "normal_name (cr_name r) = Inr name" and raw: "check_raw cfg e r = Inr ()"
    and r': "r' = with_defaults cfg (r\<lparr>cr_name := name\<rparr>)"
    and lim: "check_limits cfg e r' = Inr ()" and org: "check_org e (cr_org r) = Inr org"
    using assms(1) by (auto simp: admit_session_def rbind_eq_Inr Let_def)
  note raw' = check_raw_ok [OF raw] and lim' = check_limits_ok [OF lim]
  have "min_cpu_limit \<le> cr_cpu r'" "min_memory_limit_mb \<le> cr_memory r'" "0 < cr_timeout r'"
    using raw' by (auto simp: r' with_defaults_def min_cpu_limit_def min_memory_limit_mb_def)
  moreover have "cr_name r' = name" "cr_hosts r' = cr_hosts r" "cr_network r' = cr_network r"
    by (simp_all add: r' with_defaults_def)
  ultimately show ?thesis
    using lim' raw'(6,7) normal_name_ok [OF n] check_org_ok [OF org] assms(2)
    by (simp add: session_wf_def session_of_def)
qed

lemma prepare_workspace_events:
  "set (snd (prepare_workspace e snapshot)) \<subseteq> {WsCreate, WsQuota, WsDelete} \<union> range WsRestore"
  by (auto simp: prepare_workspace_def restore_snapshot_into_def Let_def
      split: option.splits if_splits lookup.splits sum.splits prod.splits)

lemma admit_session_code: "admit_session cfg e r = Inl code \<Longrightarrow> code \<noteq> 201"
  by (auto simp: admit_session_def normal_name_def check_raw_def check_limits_def check_active_def check_org_def
      rbind_def Let_def split: sum.splits option.splits lookup.splits if_splits)

lemma check_access_code: "check_session_access gs mr a sid role = Inl code \<Longrightarrow> code \<noteq> 201"
  by (auto simp: check_session_access_def split: sum.splits access_error.splits)

lemma prepare_workspace_refused:
  "prepare_workspace e snapshot = (Inl code, evs) \<Longrightarrow> code \<noteq> 201 \<and> (WsCreate \<in> set evs \<longrightarrow> WsDelete \<in> set evs)"
  by (auto simp: prepare_workspace_def restore_snapshot_into_def Let_def check_access_code
      split: option.splits if_splits lookup.splits sum.splits prod.splits)

lemma prepare_workspace_ready:
  "prepare_workspace e snapshot = (Inr path, evs) \<Longrightarrow> WsCreate \<in> set evs \<and> WsDelete \<notin> set evs"
  by (auto simp: prepare_workspace_def restore_snapshot_into_def Let_def
      split: option.splits if_splits lookup.splits sum.splits prod.splits)

text \<open>How a creation went: refused at a stage, or started.\<close>

lemma create_session_cases:
  assumes "create_session cfg e req = (code, evs)"
  obtains (refused) "evs = []" "code \<noteq> 201" "case req of None \<Rightarrow> True | Some r \<Rightarrow> \<not> is_ok (admit_session cfg e r)"
  | (no_workspace) r r' org where "req = Some r" "admit_session cfg e r = Inr (r', org)"
      "prepare_workspace e (cr_snapshot r') = (Inl code, evs)"
  | (bad_labels) r r' org path where "req = Some r" "admit_session cfg e r = Inr (r', org)"
      "prepare_workspace e (cr_snapshot r') = (Inr path, evs)" "\<not> validate_labels (cr_labels r')" "code = 400"
  | (started) r r' org path evs1 evs2 where "req = Some r" "admit_session cfg e r = Inr (r', org)"
      "prepare_workspace e (cr_snapshot r') = (Inr path, evs1)" "validate_labels (cr_labels r')"
      "start_session cfg e r' org path = (code, evs2)" "evs = evs1 @ evs2"
proof -
  consider "req = None" | r c where "req = Some r" "admit_session cfg e r = Inl c"
    | r r' org where "req = Some r" "admit_session cfg e r = Inr (r', org)"
    by (metis old.prod.exhaust option.exhaust old.sum.exhaust)
  then show ?thesis
  proof cases
    case 1
    then show ?thesis using assms by (intro refused) (auto simp: create_session_def)
  next
    case 2
    then show ?thesis using assms admit_session_code [of cfg e r] by (intro refused) (auto simp: create_session_def)
  next
    case 3
    obtain p evs1 where ws: "prepare_workspace e (cr_snapshot r') = (p, evs1)" by fastforce
    show ?thesis
    proof (cases p)
      case (Inl c)
      then show ?thesis using 3 ws assms by (intro no_workspace [of r r' org]) (auto simp: create_session_def)
    next
      case (Inr path)
      show ?thesis
      proof (cases "validate_labels (cr_labels r')")
        case True
        then show ?thesis
          using 3 ws Inr assms
          by (intro started [of r r' org path evs1 "snd (start_session cfg e r' org path)"])
             (auto simp: create_session_def split: prod.splits)
      next
        case False
        then show ?thesis
          using 3 ws Inr assms by (intro bad_labels [of r r' org path]) (auto simp: create_session_def)
      qed
    qed
  qed
qed

lemma start_session_rows:
  assumes "start_session cfg e r org path = (code, evs)"
  shows "RowInsert s \<in> set evs \<Longrightarrow> s = session_of e r org path"
    and "Sandboxed (EvCtrCreate b l n) \<in> set evs \<Longrightarrow>
           l = sandbox_limits (en_sandbox e) (sandbox_config_of cfg e r path)"
proof -
  let ?c = "sandbox_config_of cfg e r path"
  obtain res sevs where cs: "create_sandbox (en_client e) (en_sandbox e) ?c = (res, sevs)" by fastforce
  have "set evs \<subseteq> {RowInsert (session_of e r org path), WsDelete, RowFail, AuditSession ''session.created''} \<union>
      range RowRunning \<union> Sandboxed ` (set sevs \<union> set (stop_sandbox (en_stop_label e) (projr res)))"
    using assms cs by (auto simp: start_session_def Let_def split: if_splits sum.splits)
  moreover have "EvCtrCreate b l n \<notin> set (stop_sandbox (en_stop_label e) cid)" for cid
    by (auto simp: stop_sandbox_def split: option.splits if_splits)
  ultimately show "RowInsert s \<in> set evs \<Longrightarrow> s = session_of e r org path"
    and "Sandboxed (EvCtrCreate b l n) \<in> set evs \<Longrightarrow> l = sandbox_limits (en_sandbox e) ?c"
    using sandbox_events [of "EvCtrCreate b l n" "en_client e" "en_sandbox e" ?c] cs by auto
qed


section \<open>What a failed creation leaves\<close>

definition ws_left :: "session_event list \<Rightarrow> bool" where
  "ws_left evs \<longleftrightarrow> WsCreate \<in> set evs \<and> WsDelete \<notin> set evs"

definition row_left :: "session_event list \<Rightarrow> bool" where
  "row_left evs \<longleftrightarrow> (\<exists>s. RowInsert s \<in> set evs) \<and> RowFail \<notin> set evs"

text \<open>The two ways in which a failed creation does not clean up.\<close>

definition labels_refused :: "create_config \<Rightarrow> create_env \<Rightarrow> create_request option \<Rightarrow> bool" where
  "labels_refused cfg e req =
     (case req of
        None \<Rightarrow> False
      | Some r \<Rightarrow>
          (case admit_session cfg e r of
             Inl _ \<Rightarrow> False
           | Inr (r', _) \<Rightarrow> is_ok (fst (prepare_workspace e (cr_snapshot r'))) \<and> \<not> validate_labels (cr_labels r')))"

definition sandbox_stopped :: "session_event list \<Rightarrow> bool" where
  "sandbox_stopped evs \<longleftrightarrow> (\<exists>cid. Sandboxed (EvCtrStop cid) \<in> set evs)"

definition running_recorded :: "session_event list \<Rightarrow> bool" where
  "running_recorded evs \<longleftrightarrow> (\<exists>cid. RowRunning cid \<in> set evs)"

lemma start_session_left:
  assumes "start_session cfg e r org path = (code, evs)"
  shows "WsCreate \<notin> set evs" "WsDelete \<in> set evs \<longleftrightarrow> code \<noteq> 201"
    "row_left evs \<longleftrightarrow> code = 201 \<or> sandbox_stopped evs" "running_recorded evs \<longleftrightarrow> code = 201"
proof -
  obtain res sevs where cs: "create_sandbox (en_client e) (en_sandbox e) (sandbox_config_of cfg e r path) = (res, sevs)"
    by fastforce
  have no_stop: "EvCtrStop x \<notin> set sevs" for x
    using sandbox_events [of "EvCtrStop x" "en_client e" "en_sandbox e" "sandbox_config_of cfg e r path"] cs by auto
  have stops: "Sandboxed (EvCtrStop cid) \<in> Sandboxed ` set (stop_sandbox lbl cid)" for lbl cid
    by (simp add: stop_sandbox_def)
  have status: "sandbox_status e err \<noteq> 201" for err by (auto simp: sandbox_status_def split: sb_err.splits)
  show "WsCreate \<notin> set evs" "WsDelete \<in> set evs \<longleftrightarrow> code \<noteq> 201" "running_recorded evs \<longleftrightarrow> code = 201"
    using assms cs status
    by (auto simp: start_session_def Let_def running_recorded_def split: if_splits sum.splits)
  show "row_left evs \<longleftrightarrow> code = 201 \<or> sandbox_stopped evs"
  proof (cases "en_inserted e \<and> \<not> en_updated e \<and> is_ok res")
    case True
    then obtain cid where "res = Inr cid" by (auto simp: is_ok_iff)
    then have evs: "evs = RowInsert (session_of e r org path) # map Sandboxed sevs @
        map Sandboxed (stop_sandbox (en_stop_label e) cid) @ [WsDelete]"
      using True assms cs by (simp add: start_session_def)
    have "sandbox_stopped evs"
      unfolding sandbox_stopped_def evs using stops [of cid] by (intro exI [of _ cid]) simp
    moreover have "row_left evs" by (auto simp: evs row_left_def)
    ultimately show ?thesis by blast
  next
    case False
    then show ?thesis
      using assms cs status no_stop
      by (auto simp: start_session_def Let_def row_left_def sandbox_stopped_def split: if_splits sum.splits)
  qed
qed


end
