(* ===== verification/NlPolicy.thy ===== *)
theory NlPolicy
  imports Complex_Main IpAddr
begin

text \<open>
  \<open>internal/nlpolicy\<close>: a policy that a language model wrote from a caller's text is validated and
  compiled to a Rego module, a Docker configuration and iptables commands.  The policy is
  untrusted.  Go's \<open>%q\<close> is a parameter; CPU limits are rationals.
\<close>

section \<open>Policies\<close>

record nl_policy =
  np_cpu :: rat
  np_memory :: int
  np_timeout :: int
  np_network :: bool
  np_hosts :: "string list"
  np_ports :: "int list"
  np_dns :: bool
  np_loopback :: bool
  np_allowed_commands :: "string list"
  np_blocked_commands :: "string list"
  np_block_sudo :: bool
  np_allowed_paths :: "string list"
  np_blocked_paths :: "string list"
  np_read_only :: bool
  np_explanation :: string

datatype nl_problem =
    ExplanationTooLong | ExplanationNewline | ExplanationControl
  | TooManyCommands | EmptyCommand | CommandTooLong | CommandNotPlain
  | TooManyPaths | EmptyPath | PathTooLong | PathNul | PathControl
  | TooManyHosts | EmptyHost | HostTooLong | HostMeta | HostUrl | HostNotCidr | HostInvalid
  | TooManyPorts | PortRange
  | CpuRange | MemoryRange | TimeoutRange

definition max_commands_per_list :: nat where "max_commands_per_list = 200"
definition max_paths_per_list :: nat where "max_paths_per_list = 200"
definition max_policy_hosts :: nat where "max_policy_hosts = 200"
definition max_blocked_ports :: nat where "max_blocked_ports = 100"
definition max_explanation_len :: nat where "max_explanation_len = 2000"
definition max_command_len :: nat where "max_command_len = 200"
definition max_path_len :: nat where "max_path_len = 4096"
definition max_host_len :: nat where "max_host_len = 253"
definition max_natural_language_len :: nat where "max_natural_language_len = 4000"

datatype description_problem = EmptyDescription | DescriptionTooLong

definition validate_natural_language :: "string \<Rightarrow> description_problem + unit" where
  "validate_natural_language s =
     (if trim_space s = [] then Inl EmptyDescription
      else if max_natural_language_len < length s then Inl DescriptionTooLong
      else Inr ())"

definition newline :: char where "newline = CHR 0x0A"

definition is_control :: "char \<Rightarrow> bool" where
  "is_control c \<longleftrightarrow> (of_char c :: nat) < 32"

text \<open>
  The loops over runes compare with ASCII values only; in UTF-8 such a rune is the byte itself.
\<close>

fun explanation_runes :: "string \<Rightarrow> nl_problem option" where
  "explanation_runes [] = None"
| "explanation_runes (r # rs) =
     (if r = newline \<or> r = CHR 0x0D then Some ExplanationNewline
      else if is_control r \<and> r \<noteq> CHR 0x09 then Some ExplanationControl
      else explanation_runes rs)"

definition validate_explanation :: "string \<Rightarrow> nl_problem option" where
  "validate_explanation s =
     (if max_explanation_len < length s then Some ExplanationTooLong else explanation_runes s)"

text \<open>The regular expression of a plain command: an optional slash, a letter or digit, then a class.\<close>

definition command_char :: "char \<Rightarrow> bool" where
  "command_char c \<longleftrightarrow> is_alnum c \<or> c \<in> {CHR ''.'', CHR ''_'', CHR ''-'', CHR ''/'', CHR ''+''}"

definition command_re :: "string \<Rightarrow> bool" where
  "command_re s =
     (let t = (case s of [] \<Rightarrow> [] | c # cs \<Rightarrow> if c = CHR ''/'' then cs else s)
      in case t of [] \<Rightarrow> False | c # cs \<Rightarrow> is_alnum c \<and> list_all command_char cs)"

fun first_problem :: "('a \<Rightarrow> nl_problem option) \<Rightarrow> 'a list \<Rightarrow> nl_problem option" where
  "first_problem f [] = None"
| "first_problem f (x # xs) = (case f x of None \<Rightarrow> first_problem f xs | Some p \<Rightarrow> Some p)"

definition validate_command_list :: "string list \<Rightarrow> nl_problem option" where
  "validate_command_list cs =
     (if max_commands_per_list < length cs then Some TooManyCommands
      else first_problem (\<lambda>c.
        if c = [] then Some EmptyCommand
        else if max_command_len < length c then Some CommandTooLong
        else if \<not> command_re c then Some CommandNotPlain else None) cs)"

definition validate_path_list :: "string list \<Rightarrow> nl_problem option" where
  "validate_path_list ps =
     (if max_paths_per_list < length ps then Some TooManyPaths
      else first_problem (\<lambda>p.
        if p = [] then Some EmptyPath
        else if max_path_len < length p then Some PathTooLong
        else if CHR 0x00 \<in> set p then Some PathNul
        else if list_ex is_control p then Some PathControl else None) ps)"

text \<open>The characters of \<open>strings.ContainsAny\<close>, and the regular expression of a host or CIDR block.\<close>

definition host_meta :: "char set" where
  "host_meta =
     {CHR '' '', CHR 0x09, CHR 0x0A, CHR 0x0D, CHR '';'', CHR ''|'', CHR ''&'', CHR ''$'', CHR 0x60,
      CHR ''<'', CHR ''>'', CHR ''('', CHR '')'', CHR 0x27, CHR 0x22, CHR 0x5C, CHR ''!'', CHR ''*'',
      CHR ''?'', CHR ''['', CHR '']'', CHR ''{'', CHR ''}'', CHR ''#''}"

definition host_char :: "char \<Rightarrow> bool" where
  "host_char c \<longleftrightarrow> is_alnum c \<or> c \<in> {CHR ''.'', CHR ''-'', CHR '':''}"

definition host_body :: "string \<Rightarrow> bool" where
  "host_body s \<longleftrightarrow> s \<noteq> [] \<and> is_alnum (hd s) \<and> is_alnum (last s) \<and> list_all host_char s"

definition host_re :: "string \<Rightarrow> bool" where
  "host_re s =
     (let b = takeWhile (\<lambda>c. c \<noteq> CHR ''/'') s; rest = dropWhile (\<lambda>c. c \<noteq> CHR ''/'') s
      in host_body b \<and>
         (case rest of [] \<Rightarrow> True | _ # ds \<Rightarrow> ds \<noteq> [] \<and> length ds \<le> 3 \<and> list_all is_digit ds))"

definition is_cidr :: "string \<Rightarrow> bool" where
  "is_cidr s \<longleftrightarrow> parse_cidr s \<noteq> None"

definition validate_host :: "string \<Rightarrow> nl_problem option" where
  "validate_host h =
     (if h = [] then Some EmptyHost
      else if max_host_len < length h then Some HostTooLong
      else if list_ex (\<lambda>c. c \<in> host_meta) h then Some HostMeta
      else if contains h ''://'' then Some HostUrl
      else if CHR ''/'' \<in> set h \<and> \<not> is_cidr h then Some HostNotCidr
      else if \<not> host_re h then Some HostInvalid else None)"

definition validate_host_list :: "string list \<Rightarrow> nl_problem option" where
  "validate_host_list hs =
     (if max_policy_hosts < length hs then Some TooManyHosts else first_problem validate_host hs)"

definition validate_port_list :: "int list \<Rightarrow> nl_problem option" where
  "validate_port_list ps =
     (if max_blocked_ports < length ps then Some TooManyPorts
      else first_problem (\<lambda>p. if p < 1 \<or> 65535 < p then Some PortRange else None) ps)"

definition validate_resource_limits :: "nl_policy \<Rightarrow> nl_problem option" where
  "validate_resource_limits p =
     (if np_cpu p < 0 \<or> 64 < np_cpu p then Some CpuRange
      else if np_memory p < 0 \<or> 262144 < np_memory p then Some MemoryRange
      else if np_timeout p < 0 \<or> 86400 < np_timeout p then Some TimeoutRange else None)"

text \<open>\<open>Policy.Validate\<close> collects the problems; the policy is refused when there is any.\<close>

definition validate_policy :: "nl_policy \<Rightarrow> nl_problem list + unit" where
  "validate_policy p =
     (let problems = List.map_filter id
        [validate_explanation (np_explanation p),
         validate_command_list (np_allowed_commands p), validate_command_list (np_blocked_commands p),
         validate_path_list (np_blocked_paths p), validate_path_list (np_allowed_paths p),
         validate_host_list (np_hosts p), validate_port_list (np_ports p), validate_resource_limits p]
      in if problems = [] then Inr () else Inl problems)"

section \<open>Compilation to Rego\<close>

text \<open>The module, line by line; \<open>q\<close> is the verb \<open>%q\<close>.\<close>

definition rego_set :: "(string \<Rightarrow> string) \<Rightarrow> string \<Rightarrow> string list \<Rightarrow> string list" where
  "rego_set q name xs = [name @ '' = {''] @ map (\<lambda>x. ''  '' @ q x @ '','') xs @ [''}'', []]"

definition allowed_commands_lines :: "(string \<Rightarrow> string) \<Rightarrow> nl_policy \<Rightarrow> string list" where
  "allowed_commands_lines q p =
     (if np_allowed_commands p = [] then []
      else [''# Allowed commands''] @ rego_set q ''allowed_commands'' (np_allowed_commands p) @
        [''allow {'', ''  input.command'', ''  allowed_commands[input.command]'', ''}'', []])"

definition blocked_commands_lines :: "(string \<Rightarrow> string) \<Rightarrow> nl_policy \<Rightarrow> string list" where
  \<open>blocked_commands_lines q p =
     (if np_blocked_commands p = [] then []
      else [''# Blocked commands''] @ rego_set q ''blocked_commands'' (np_blocked_commands p) @
        [''deny[msg] {'', ''  blocked_commands[input.command]'',
         ''  msg := sprintf("Command %v is blocked", [input.command])'', ''}'', []])\<close>

definition sudo_lines :: "nl_policy \<Rightarrow> string list" where
  \<open>sudo_lines p =
     (if \<not> np_block_sudo p then []
      else [''# Block sudo/su'', ''deny[msg] {'', ''  input.command'',
            ''  regex.match('' @ [CHR 0x60] @ ''^(sudo|su)$'' @ [CHR 0x60] @ '', input.command)'',
            ''  msg := "Privileged commands (sudo/su) are blocked"'', ''}'', []])\<close>

definition blocked_paths_lines :: "(string \<Rightarrow> string) \<Rightarrow> nl_policy \<Rightarrow> string list" where
  \<open>blocked_paths_lines q p =
     (if np_blocked_paths p = [] then []
      else [''# Blocked file paths''] @ rego_set q ''blocked_paths'' (np_blocked_paths p) @
        [''deny[msg] {'', ''  input.path'', ''  some blocked_path'', ''  blocked_paths[blocked_path]'',
         ''  startswith(input.path, blocked_path)'',
         ''  msg := sprintf("Access to path %v is blocked", [input.path])'', ''}'', []])\<close>

definition opa_lines :: "(string \<Rightarrow> string) \<Rightarrow> nl_policy \<Rightarrow> string list" where
  "opa_lines q p =
     [''package vaultrun'', [], ''# Auto-generated policy from natural language'', ''# '' @ np_explanation p, [],
      ''default allow = false'', []] @
     allowed_commands_lines q p @ blocked_commands_lines q p @ sudo_lines p @ blocked_paths_lines q p @
     (if np_allowed_commands p = [] \<and> np_blocked_commands p = []
      then [''# Allow all commands (no restrictions)'', ''allow {'', ''  true'', ''}''] else [])"

definition compile_to_opa :: "(string \<Rightarrow> string) \<Rightarrow> nl_policy \<Rightarrow> nl_problem list + string" where
  "compile_to_opa q p =
     rbind (validate_policy p) (\<lambda>_. Inr (concat (map (\<lambda>l. l @ [newline]) (opa_lines q p))))"

section \<open>Docker and iptables\<close>

record docker_config =
  dk_cpu :: rat
  dk_memory :: int
  dk_network_mode :: string
  dk_cap_add :: "string list"
  dk_cap_drop :: "string list"
  dk_read_only :: bool

definition compile_to_docker :: "nl_policy \<Rightarrow> nl_problem list + docker_config" where
  "compile_to_docker p =
     rbind (validate_policy p) (\<lambda>_. Inr
       \<lparr> dk_cpu = np_cpu p, dk_memory = np_memory p,
         dk_network_mode = (if np_network p then ''bridge'' else ''none''),
         dk_cap_add = (if np_read_only p then [] else [''CHOWN'', ''DAC_OVERRIDE'', ''FOWNER'', ''SETGID'', ''SETUID'']),
         dk_cap_drop = [''ALL''], dk_read_only = np_read_only p \<rparr>)"

definition host_rules :: "string \<Rightarrow> string list" where
  "host_rules h = [''# Allow '' @ h, ''iptables -A OUTPUT -d '' @ h @ '' -j ACCEPT'']"

definition port_rule :: "int \<Rightarrow> string" where
  "port_rule p = ''iptables -A OUTPUT -p tcp --dport '' @ int_dec p @ '' -j DROP''"

definition network_lines :: "nl_policy \<Rightarrow> string list" where
  "network_lines p =
     (if np_network p
      then [''# Generated network rules'', ''iptables -P OUTPUT DROP''] @
        (if np_dns p then [''iptables -A OUTPUT -p udp --dport 53 -j ACCEPT''] else []) @
        (if np_loopback p then [''iptables -A OUTPUT -o lo -j ACCEPT''] else []) @
        concat (map host_rules (np_hosts p)) @ map port_rule (np_ports p)
      else [''# Network disabled'', ''iptables -P OUTPUT DROP'', ''iptables -P INPUT DROP''])"

record network_rules =
  nr_enabled :: bool
  nr_hosts :: "string list"
  nr_ports :: "int list"
  nr_dns :: bool
  nr_iptables :: "string list"

definition compile_to_network :: "nl_policy \<Rightarrow> nl_problem list + network_rules" where
  "compile_to_network p =
     rbind (validate_policy p) (\<lambda>_. Inr
       \<lparr> nr_enabled = np_network p, nr_hosts = np_hosts p, nr_ports = np_ports p, nr_dns = np_dns p,
         nr_iptables = network_lines p \<rparr>)"

record compiled_policy =
  cp_source :: nl_policy
  cp_opa :: string
  cp_docker :: docker_config
  cp_network :: network_rules

definition compile_all :: "(string \<Rightarrow> string) \<Rightarrow> nl_policy \<Rightarrow> nl_problem list + compiled_policy" where
  "compile_all q p =
     rbind (compile_to_opa q p) (\<lambda>opa.
     rbind (compile_to_docker p) (\<lambda>docker.
     rbind (compile_to_network p) (\<lambda>network.
       Inr \<lparr> cp_source = p, cp_opa = opa, cp_docker = docker, cp_network = network \<rparr>)))"

section \<open>Handlers\<close>

text \<open>
  \<open>cmd/api/handlers/nlpolicy.go\<close>.  The parser (the language model) answers with any policy, or an
  error; the defaults are those \<open>OpenAIParser.Parse\<close> fills in.
\<close>

definition parser_defaults :: "nl_policy \<Rightarrow> nl_policy" where
  "parser_defaults p =
     p\<lparr>np_cpu := (if np_cpu p = 0 then 1 else np_cpu p), np_memory := (if np_memory p = 0 then 512 else np_memory p),
       np_timeout := (if np_timeout p = 0 then 300 else np_timeout p)\<rparr>"

definition mock_policy :: nl_policy where
  "mock_policy =
     \<lparr> np_cpu = 1, np_memory = 512, np_timeout = 300, np_network = False, np_hosts = [], np_ports = [],
       np_dns = False, np_loopback = False, np_allowed_commands = [], np_blocked_commands = [],
       np_block_sudo = True, np_allowed_paths = [''/workspace''], np_blocked_paths = [''/etc'', ''/root'', ''/proc''],
       np_read_only = False, np_explanation = ''Basic restricted policy (generated by mock parser)'' \<rparr>"

datatype policy_reply = Refuse nat | ParsedPolicy nl_policy | Compiled compiled_policy

definition parse_policy :: "(string \<Rightarrow> nl_policy option) \<Rightarrow> string option \<Rightarrow> policy_reply" where
  "parse_policy llm body =
     (case body of
        None \<Rightarrow> Refuse 400
      | Some text \<Rightarrow>
          if \<not> is_ok (validate_natural_language text) then Refuse 400
          else (case llm text of
             None \<Rightarrow> Refuse 500
           | Some p \<Rightarrow> if is_ok (validate_policy p) then ParsedPolicy p else Refuse 422))"

definition reply_compiled :: "nl_problem list + compiled_policy \<Rightarrow> policy_reply" where
  "reply_compiled r = (case r of Inl _ \<Rightarrow> Refuse 422 | Inr c \<Rightarrow> Compiled c)"

definition compile_policy :: "(string \<Rightarrow> string) \<Rightarrow> (string \<Rightarrow> nl_policy option) \<Rightarrow> string option \<Rightarrow> policy_reply" where
  "compile_policy q llm body =
     (case body of
        None \<Rightarrow> Refuse 400
      | Some text \<Rightarrow>
          if \<not> is_ok (validate_natural_language text) then Refuse 400
          else (case llm text of None \<Rightarrow> Refuse 500 | Some p \<Rightarrow> reply_compiled (compile_all q p)))"

text \<open>\<open>templates\<close> maps a name to the text of a built-in template.\<close>

definition from_template ::
  "(string \<Rightarrow> string) \<Rightarrow> (string \<Rightarrow> nl_policy option) \<Rightarrow> (string \<times> string) list \<Rightarrow> string \<Rightarrow> policy_reply" where
  "from_template q llm templates name =
     (case map_of templates name of
        None \<Rightarrow> Refuse 404
      | Some text \<Rightarrow> (case llm text of None \<Rightarrow> Refuse 500 | Some p \<Rightarrow> reply_compiled (compile_all q p)))"

end
