(* ===== verification/NlPolicyProps.thy ===== *)
theory NlPolicyProps
  imports NlPolicy
begin

text \<open>
  What a compiled policy can contain: untrusted text stays inside the comment and the string literals
  of the Rego module and inside one argument of an iptables command, and what the generated network
  rules decide.
\<close>

section \<open>What validation gives\<close>

lemma first_problem_None: "first_problem f xs = None \<longleftrightarrow> (\<forall>x \<in> set xs. f x = None)"
  by (induction xs) (auto split: option.splits)

lemma map_filter_id_Nil: "List.map_filter id xs = [] \<longleftrightarrow> (\<forall>x \<in> set xs. x = None)"
  by (induction xs) (auto simp: List.map_filter_def split: option.splits)

lemma validate_policy_ok:
  assumes "validate_policy p = Inr u"
  shows "validate_explanation (np_explanation p) = None"
    "h \<in> set (np_hosts p) \<Longrightarrow> validate_host h = None"
    "c \<in> set (np_allowed_commands p) \<union> set (np_blocked_commands p) \<Longrightarrow> command_re c"
    "n \<in> set (np_ports p) \<Longrightarrow> 1 \<le> n \<and> n \<le> 65535"
proof -
  define xs where "xs =
    [validate_explanation (np_explanation p), validate_command_list (np_allowed_commands p),
     validate_command_list (np_blocked_commands p), validate_path_list (np_blocked_paths p),
     validate_path_list (np_allowed_paths p), validate_host_list (np_hosts p),
     validate_port_list (np_ports p), validate_resource_limits p]"
  have "validate_policy p = (if List.map_filter id xs = [] then Inr () else Inl (List.map_filter id xs))"
    unfolding validate_policy_def xs_def Let_def by (rule refl)
  with assms have "\<forall>x \<in> set xs. x = None" by (simp add: map_filter_id_Nil split: if_splits)
  then have all: "validate_explanation (np_explanation p) = None"
    "validate_command_list (np_allowed_commands p) = None" "validate_command_list (np_blocked_commands p) = None"
    "validate_host_list (np_hosts p) = None" "validate_port_list (np_ports p) = None"
    by (simp_all add: xs_def)
  show "validate_explanation (np_explanation p) = None" by (rule all)
  show "h \<in> set (np_hosts p) \<Longrightarrow> validate_host h = None"
    using all(4) by (auto simp: validate_host_list_def first_problem_None split: if_splits)
  show "c \<in> set (np_allowed_commands p) \<union> set (np_blocked_commands p) \<Longrightarrow> command_re c"
    using all(2,3) by (auto simp: validate_command_list_def first_problem_None split: if_splits)
  show "n \<in> set (np_ports p) \<Longrightarrow> 1 \<le> n \<and> n \<le> 65535"
    using all(5) by (force simp: validate_port_list_def first_problem_None split: if_splits)
qed

lemma explanation_runes_newline: "explanation_runes s = None \<Longrightarrow> newline \<notin> set s"
  by (induction s) (auto split: if_splits)

lemma validate_host_plain: "validate_host h = None \<Longrightarrow> h \<noteq> [] \<and> set h \<inter> host_meta = {}"
  by (auto simp: validate_host_def list_ex_iff split: if_splits)

section \<open>The Rego module\<close>

lemma split_lines:
  "(\<forall>l \<in> set ls. c \<notin> set l) \<Longrightarrow> split_on c (concat (map (\<lambda>l. l @ [c]) ls)) = ls @ [[]]"
  by (induction ls) (simp_all add: split_on_append_sep split_on_no_sep)

definition plain_line :: "string \<Rightarrow> bool" where
  "plain_line l \<longleftrightarrow> newline \<notin> set l"

lemma rego_set_plain:
  assumes "\<forall>x. newline \<notin> set (q x)" "plain_line name"
  shows "list_all plain_line (rego_set q name xs)"
  using assms by (auto simp: rego_set_def plain_line_def newline_def list_all_iff)

lemma opa_lines_plain:
  assumes "\<forall>x. newline \<notin> set (q x)" "newline \<notin> set (np_explanation p)"
  shows "list_all plain_line (opa_lines q p)"
proof -
  have sets: "list_all plain_line (rego_set q n xs)" if "plain_line n" for n xs
    using rego_set_plain assms(1) that by blast
  have "list_all plain_line (allowed_commands_lines q p)"
    unfolding allowed_commands_lines_def using sets [of "''allowed_commands''"]
    by (simp add: plain_line_def newline_def)
  moreover have "list_all plain_line (blocked_commands_lines q p)"
    unfolding blocked_commands_lines_def using sets [of "''blocked_commands''"]
    by (simp add: plain_line_def newline_def)
  moreover have "list_all plain_line (blocked_paths_lines q p)"
    unfolding blocked_paths_lines_def using sets [of "''blocked_paths''"]
    by (simp add: plain_line_def newline_def)
  moreover have "list_all plain_line (sudo_lines p)" by (simp add: sudo_lines_def plain_line_def newline_def)
  ultimately show ?thesis
    using assms(2) by (simp add: opa_lines_def) (simp add: plain_line_def newline_def)
qed

text \<open>
  The module compiled from an untrusted policy consists of exactly the intended lines:
  when quoting yields no line break, no explanation, command or path adds a line of its own, so the
  only rules are those of the template.
\<close>
theorem compiled_module_lines:
  assumes "\<forall>s. newline \<notin> set (q s)" "compile_to_opa q p = Inr text"
  shows "split_on newline text = opa_lines q p @ [[]]"
proof -
  from assms(2) have v: "validate_policy p = Inr ()" and t: "text = concat (map (\<lambda>l. l @ [newline]) (opa_lines q p))"
    by (auto simp: compile_to_opa_def rbind_eq_Inr)
  have "newline \<notin> set (np_explanation p)"
    using validate_policy_ok(1) [OF v] explanation_runes_newline by (simp add: validate_explanation_def split: if_splits)
  from opa_lines_plain [OF assms(1) this] show ?thesis
    unfolding t by (intro split_lines) (simp add: list_all_iff plain_line_def)
qed

lemma mock_policy_valid: "validate_policy mock_policy = Inr ()"
  by code_simp

theorem compiled_module_lines_witness:
  "\<exists>text. compile_to_opa (\<lambda>_. ''x'') mock_policy = Inr text \<and>
     split_on newline text = opa_lines (\<lambda>_. ''x'') mock_policy @ [[]]"
proof -
  have "\<forall>s. newline \<notin> set ((\<lambda>_. ''x'') s)" by (simp add: newline_def)
  then show ?thesis
    using compiled_module_lines [of "\<lambda>_. ''x''" mock_policy] by (simp add: compile_to_opa_def mock_policy_valid)
qed

text \<open>
  The module has an \<open>allow\<close> rule when commands are listed, or when none are listed and none blocked:
  an empty list allows every command, and a list of blocked commands alone allows none.
\<close>

lemma allow_rule_present:
  "''allow {'' \<in> set (opa_lines q p) \<longleftrightarrow> np_allowed_commands p \<noteq> [] \<or> np_blocked_commands p = []"
proof -
  have sets: "''allow {'' \<notin> set (rego_set q n xs)" if "n \<in> {''blocked_commands'', ''blocked_paths''}" for n xs
    using that by (auto simp: rego_set_def)
  have "''allow {'' \<notin> set (blocked_commands_lines q p)" "''allow {'' \<notin> set (blocked_paths_lines q p)"
    using sets by (auto simp: blocked_commands_lines_def blocked_paths_lines_def)
  moreover have "''allow {'' \<notin> set (sudo_lines p)" by (simp add: sudo_lines_def)
  moreover have "np_allowed_commands p \<noteq> [] \<Longrightarrow> ''allow {'' \<in> set (allowed_commands_lines q p)"
    by (simp add: allowed_commands_lines_def)
  moreover have "np_allowed_commands p = [] \<Longrightarrow> allowed_commands_lines q p = []"
    by (simp add: allowed_commands_lines_def)
  ultimately show ?thesis by (cases "np_allowed_commands p = []") (simp_all add: opa_lines_def)
qed

section \<open>The iptables commands\<close>

record packet =
  pk_proto :: string
  pk_dport :: int
  pk_iface :: string

text \<open>
  What an appended command says about a packet, from the words of its line; whether the packet goes
  to a host is a parameter.  The first command that matches decides, else the policy of the chain.
\<close>

definition rule_verdict :: "(string \<Rightarrow> bool) \<Rightarrow> packet \<Rightarrow> string \<Rightarrow> bool option" where
  "rule_verdict goes_to pk line =
     (let ws = split_on CHR '' '' line in
      if take 3 ws \<noteq> [''iptables'', ''-A'', ''OUTPUT''] then None
      else if length ws = 7 \<and> ws ! 3 = ''-d'' \<and> ws ! 5 = ''-j''
        then (if goes_to (ws ! 4) then Some (ws ! 6 = ''ACCEPT'') else None)
      else if length ws = 7 \<and> ws ! 3 = ''-o'' \<and> ws ! 5 = ''-j''
        then (if pk_iface pk = ws ! 4 then Some (ws ! 6 = ''ACCEPT'') else None)
      else if length ws = 9 \<and> ws ! 3 = ''-p'' \<and> ws ! 5 = ''--dport'' \<and> ws ! 7 = ''-j''
        then (if pk_proto pk = ws ! 4 \<and> int_dec (pk_dport pk) = ws ! 6 then Some (ws ! 8 = ''ACCEPT'') else None)
      else None)"

definition chain_accepts :: "(string \<Rightarrow> bool) \<Rightarrow> packet \<Rightarrow> string list \<Rightarrow> bool" where
  "chain_accepts goes_to pk ls =
     (case List.map_filter (rule_verdict goes_to pk) ls of
        v # _ \<Rightarrow> v
      | [] \<Rightarrow> ''iptables -P OUTPUT DROP'' \<notin> set ls)"

lemma split_word: "CHR '' '' \<notin> set h \<Longrightarrow> split_on CHR '' '' (h @ CHR '' '' # b) = h # split_on CHR '' '' b"
  by (simp add: split_on_append_sep split_on_no_sep)

lemma host_verdict:
  assumes "CHR '' '' \<notin> set h" "h \<noteq> []"
  shows "rule_verdict goes_to pk (''iptables -A OUTPUT -d '' @ h @ '' -j ACCEPT'') = (if goes_to h then Some True else None)"
proof -
  have "split_on CHR '' '' (''iptables -A OUTPUT -d '' @ h @ '' -j ACCEPT'') =
      [''iptables'', ''-A'', ''OUTPUT'', ''-d'', h, ''-j'', ''ACCEPT'']"
    using assms by (simp add: split_word)
  then show ?thesis by (simp add: rule_verdict_def Let_def)
qed

lemma int_dec_no_space: "CHR '' '' \<notin> set (int_dec i)"
  by (auto simp: int_dec_def is_digit_def dest!: nat_dec_digits)

lemma port_verdict:
  "rule_verdict goes_to pk (port_rule n) \<in> {None, Some False}"
proof -
  have "split_on CHR '' '' (port_rule n) =
      [''iptables'', ''-A'', ''OUTPUT'', ''-p'', ''tcp'', ''--dport'', int_dec n, ''-j'', ''DROP'']"
    using int_dec_no_space [of n] by (simp add: port_rule_def split_word)
  then show ?thesis by (simp add: rule_verdict_def Let_def)
qed

lemma comment_verdict: "rule_verdict goes_to pk (CHR ''#'' # l) = None"
proof -
  have "take 3 (split_on CHR '' '' (CHR ''#'' # l)) \<noteq> [''iptables'', ''-A'', ''OUTPUT'']"
    by (auto split: list.splits simp: take_Cons')
  then show ?thesis by (simp add: rule_verdict_def)
qed

lemma fixed_verdicts:
  "rule_verdict goes_to pk ''iptables -P OUTPUT DROP'' = None"
  "rule_verdict goes_to pk ''iptables -P INPUT DROP'' = None"
  "rule_verdict goes_to pk ''iptables -A OUTPUT -p udp --dport 53 -j ACCEPT'' =
     (if pk_proto pk = ''udp'' \<and> int_dec (pk_dport pk) = ''53'' then Some True else None)"
  "rule_verdict goes_to pk ''iptables -A OUTPUT -o lo -j ACCEPT'' =
     (if pk_iface pk = ''lo'' then Some True else None)"
  by (simp_all add: rule_verdict_def Let_def)

lemma int_dec_53: "int_dec n = ''53'' \<longleftrightarrow> n = 53"
proof
  have "int_dec 53 = ''53''" by code_simp
  then show "n = 53 \<Longrightarrow> int_dec n = ''53''" by simp
  assume n: "int_dec n = ''53''"
  have "0 \<le> n" using n by (auto simp: int_dec_def split: if_splits)
  then have "nat_dec (nat n) = nat_dec (nat 53)"
    using n \<open>int_dec 53 = ''53''\<close> by (simp add: int_dec_def)
  with \<open>0 \<le> n\<close> show "n = 53" by (auto dest: nat_dec_inj)
qed

text \<open>Lines that say accept or nothing: the chain accepts when one of them does.\<close>

lemma map_filter_accepts:
  assumes "\<forall>l \<in> set xs. f l \<in> {None, Some True}" "\<forall>l \<in> set ys. f l \<in> {None, Some False}"
  shows "(case List.map_filter f (xs @ ys) of v # _ \<Rightarrow> v | [] \<Rightarrow> False) \<longleftrightarrow> (\<exists>l \<in> set xs. f l = Some True)"
  using assms(1)
proof (induction xs)
  case Nil
  show ?case
    using assms(2) by (induction ys) (auto simp: List.map_filter_simps split: option.splits)
next
  case (Cons l xs)
  then show ?case by (auto simp: List.map_filter_simps split: option.splits)
qed

definition accept_lines :: "nl_policy \<Rightarrow> string list" where
  "accept_lines p =
     [''# Generated network rules'', ''iptables -P OUTPUT DROP''] @
     (if np_dns p then [''iptables -A OUTPUT -p udp --dport 53 -j ACCEPT''] else []) @
     (if np_loopback p then [''iptables -A OUTPUT -o lo -j ACCEPT''] else []) @
     concat (map host_rules (np_hosts p))"

lemma accept_lines_verdict:
  assumes "\<forall>h \<in> set (np_hosts p). h \<noteq> [] \<and> CHR '' '' \<notin> set h"
  shows "(\<forall>l \<in> set (accept_lines p). rule_verdict goes_to pk l \<in> {None, Some True}) \<and>
    ((\<exists>l \<in> set (accept_lines p). rule_verdict goes_to pk l = Some True) \<longleftrightarrow>
      np_dns p \<and> pk_proto pk = ''udp'' \<and> pk_dport pk = 53 \<or> np_loopback p \<and> pk_iface pk = ''lo'' \<or>
      (\<exists>h \<in> set (np_hosts p). goes_to h))"
proof -
  define f where "f = rule_verdict goes_to pk"
  define dns where "dns = ''iptables -A OUTPUT -p udp --dport 53 -j ACCEPT''"
  define lo where "lo = ''iptables -A OUTPUT -o lo -j ACCEPT''"
  define pol where "pol = ''iptables -P OUTPUT DROP''"
  define gen where "gen = ''# Generated network rules''"
  define cmt where "cmt = (\<lambda>h. ''# Allow '' @ h)"
  define acc where "acc = (\<lambda>h. ''iptables -A OUTPUT -d '' @ h @ '' -j ACCEPT'')"
  have f: "f dns = (if pk_proto pk = ''udp'' \<and> pk_dport pk = 53 then Some True else None)"
    "f lo = (if pk_iface pk = ''lo'' then Some True else None)" "f pol = None"
    using fixed_verdicts [of goes_to pk] by (simp_all add: f_def dns_def lo_def pol_def int_dec_53)
  have g: "f gen = None" "f (cmt h) = None" for h
    using comment_verdict [of goes_to pk] by (simp_all add: f_def gen_def cmt_def)
  have h: "f (acc h) = (if goes_to h then Some True else None)" if "h \<in> set (np_hosts p)" for h
    using host_verdict assms that unfolding f_def acc_def by blast
  have folded: "accept_lines p = [gen, pol] @ (if np_dns p then [dns] else []) @ (if np_loopback p then [lo] else []) @
      concat (map (\<lambda>h. [cmt h, acc h]) (np_hosts p))"
    unfolding accept_lines_def host_rules_def gen_def pol_def dns_def lo_def cmt_def acc_def by (rule refl)
  have lines: "set (accept_lines p) =
      {gen, pol} \<union> (if np_dns p then {dns} else {}) \<union> (if np_loopback p then {lo} else {}) \<union>
      cmt ` set (np_hosts p) \<union> acc ` set (np_hosts p)"
    unfolding folded by auto
  have hosts: "(\<exists>l \<in> acc ` set (np_hosts p). f l = Some True) \<longleftrightarrow> (\<exists>x \<in> set (np_hosts p). goes_to x)"
    by (simp add: h cong: bex_cong)
  have comments: "(\<exists>l \<in> cmt ` set (np_hosts p). f l = Some True) \<longleftrightarrow> False" by (simp add: g)
  show ?thesis
  proof
    show "\<forall>l \<in> set (accept_lines p). rule_verdict goes_to pk l \<in> {None, Some True}"
      unfolding lines f_def [symmetric] using f g h by (auto split: if_splits)
    show "(\<exists>l \<in> set (accept_lines p). rule_verdict goes_to pk l = Some True) \<longleftrightarrow>
      np_dns p \<and> pk_proto pk = ''udp'' \<and> pk_dport pk = 53 \<or> np_loopback p \<and> pk_iface pk = ''lo'' \<or>
      (\<exists>h \<in> set (np_hosts p). goes_to h)"
      unfolding lines f_def [symmetric] bex_Un hosts comments using f g
      by (cases "pk_dport pk = 53"; cases "pk_proto pk = ''udp''"; simp split: if_splits)
  qed
qed


definition blocking_policy :: nl_policy where
  "blocking_policy = mock_policy\<lparr>np_network := True, np_hosts := [''pypi.org''], np_ports := [25]\<rparr>"

lemma blocking_policy_valid: "validate_policy blocking_policy = Inr ()"
  by code_simp


end
