(* ===== verification/Cleanup.thy ===== *)
theory Cleanup
  imports Prelude
begin

text \<open>
  \<open>internal/cleanup/cleanup.go\<close>: the sweep that stops idle sessions, the reconciliation of sessions
  whose container is gone at start-up, and the removal of workspaces of stopped sessions.  The state
  is the session rows, the workspace directories and the containers that exist; calls that may fail
  have their answers in \<open>cleanup_env\<close>.
\<close>

record cl_row =
  cl_id :: string
  cl_container :: "string option"
  cl_status :: string
  cl_stopped :: bool
  cl_updated :: time

record cl_state =
  cl_rows :: "cl_row list"
  cl_dirs :: "string set"
  cl_containers :: "string set"
  cl_expired :: "(string \<times> string) list"    \<comment> \<open>audit entries \<open>session.expired\<close> with their reason\<close>

record cleanup_env =
  cl_list_ok :: bool
  cl_stop_ok :: "string \<Rightarrow> bool"            \<comment> \<open>the daemon stops and removes a container\<close>
  cl_db_ok :: "string \<Rightarrow> bool"              \<comment> \<open>\<open>StopSession\<close> works\<close>
  cl_has_ws :: bool
  cl_rm_ok :: "string \<Rightarrow> bool"
  cl_has_audit :: bool
  cl_gone :: "string \<Rightarrow> bool option"        \<comment> \<open>\<open>None\<close> when inspecting failed\<close>
  cl_dirs_ok :: bool
  cl_get_ok :: "string \<Rightarrow> bool"

definition is_active :: "cl_row \<Rightarrow> bool" where
  "is_active s \<longleftrightarrow> (cl_status s = ''created'' \<or> cl_status s = ''running'') \<and> \<not> cl_stopped s"

definition list_active :: "cl_state \<Rightarrow> cl_row list" where
  "list_active st = filter is_active (cl_rows st)"

definition should_stop :: "time \<Rightarrow> cl_row \<Rightarrow> bool" where
  "should_stop cutoff s \<longleftrightarrow> cl_updated s < cutoff"

text \<open>The statement of \<open>StopSession\<close>; \<open>now\<close> is the clock of the database.\<close>

definition mark_stopped :: "time \<Rightarrow> string \<Rightarrow> cl_row \<Rightarrow> cl_row" where
  "mark_stopped now sid r = (if cl_id r = sid then r\<lparr>cl_status := ''stopped'', cl_stopped := True, cl_updated := now\<rparr> else r)"

definition remove_dir :: "cleanup_env \<Rightarrow> string \<Rightarrow> cl_state \<Rightarrow> cl_state" where
  "remove_dir env sid st =
     (if cl_has_ws env \<and> cl_rm_ok env sid then st\<lparr>cl_dirs := cl_dirs st - {sid}\<rparr> else st)"

definition log_expired :: "cleanup_env \<Rightarrow> string \<Rightarrow> string \<Rightarrow> cl_state \<Rightarrow> cl_state" where
  "log_expired env sid reason st =
     (if cl_has_audit env then st\<lparr>cl_expired := cl_expired st @ [(sid, reason)]\<rparr> else st)"

text \<open>Marking a session stopped, and what follows when that works.\<close>

definition close_session :: "cleanup_env \<Rightarrow> time \<Rightarrow> string \<Rightarrow> string \<Rightarrow> cl_state \<Rightarrow> cl_state" where
  "close_session env now reason sid st =
     (if \<not> cl_db_ok env sid then st
      else log_expired env sid reason (remove_dir env sid
             (st\<lparr>cl_rows := map (mark_stopped now sid) (cl_rows st)\<rparr>)))"

definition stop_container :: "cleanup_env \<Rightarrow> cl_row \<Rightarrow> cl_state \<Rightarrow> cl_state" where
  "stop_container env s st =
     (case cl_container s of
        None \<Rightarrow> st
      | Some cid \<Rightarrow> if cl_stop_ok env cid then st\<lparr>cl_containers := cl_containers st - {cid}\<rparr> else st)"

definition stop_idle_session :: "cleanup_env \<Rightarrow> time \<Rightarrow> cl_row \<Rightarrow> cl_state \<Rightarrow> cl_state" where
  "stop_idle_session env now s st = close_session env now ''idle_timeout'' (cl_id s) (stop_container env s st)"

definition sweep_idle :: "cleanup_env \<Rightarrow> time \<Rightarrow> time \<Rightarrow> cl_state \<Rightarrow> cl_state" where
  "sweep_idle env now idle_for st =
     (if \<not> cl_list_ok env then st
      else fold (\<lambda>s st. if should_stop (now - idle_for) s then stop_idle_session env now s st else st)
             (list_active st) st)"

definition container_missing :: "cleanup_env \<Rightarrow> cl_row \<Rightarrow> bool" where
  "container_missing env s \<longleftrightarrow>
     (case cl_container s of None \<Rightarrow> False | Some cid \<Rightarrow> cid \<noteq> [] \<and> cl_gone env cid = Some True)"

definition stopped_row :: "cl_state \<Rightarrow> string \<Rightarrow> bool" where
  "stopped_row st sid \<longleftrightarrow> list_ex (\<lambda>r. cl_id r = sid \<and> cl_stopped r) (cl_rows st)"

text \<open>\<open>ids\<close> are the directories whose names are session identifiers, in the order they are read.\<close>

definition remove_stopped_workspaces :: "cleanup_env \<Rightarrow> string list \<Rightarrow> cl_state \<Rightarrow> cl_state" where
  "remove_stopped_workspaces env ids st =
     (if \<not> cl_has_ws env \<or> \<not> cl_dirs_ok env then st
      else fold (\<lambda>sid st. if \<not> cl_get_ok env sid \<or> \<not> stopped_row st sid then st else remove_dir env sid st) ids st)"

definition reconcile_orphans :: "cleanup_env \<Rightarrow> time \<Rightarrow> string list \<Rightarrow> cl_state \<Rightarrow> cl_state" where
  "reconcile_orphans env now ids st =
     (if \<not> cl_list_ok env then st
      else remove_stopped_workspaces env ids
        (fold (\<lambda>s st. if container_missing env s then close_session env now ''container_missing'' (cl_id s) st else st)
           (list_active st) st))"

section \<open>Closing the sessions of a list\<close>

text \<open>Which sessions of a list are closed, and the state after.\<close>

lemma close_session_fields:
  "cl_rows (close_session env now reason sid st) =
     (if cl_db_ok env sid then map (mark_stopped now sid) (cl_rows st) else cl_rows st)"
  "cl_dirs (close_session env now reason sid st) =
     cl_dirs st - (if cl_db_ok env sid \<and> cl_has_ws env \<and> cl_rm_ok env sid then {sid} else {})"
  "cl_containers (close_session env now reason sid st) = cl_containers st"
  by (auto simp: close_session_def log_expired_def remove_dir_def)

lemma stop_container_fields [simp]:
  "cl_rows (stop_container env s st) = cl_rows st" "cl_dirs (stop_container env s st) = cl_dirs st"
  "cl_containers (stop_container env s st) \<subseteq> cl_containers st"
  by (auto simp: stop_container_def split: option.splits)

definition mark_all :: "time \<Rightarrow> string set \<Rightarrow> cl_row \<Rightarrow> cl_row" where
  "mark_all now ids r = (if cl_id r \<in> ids then r\<lparr>cl_status := ''stopped'', cl_stopped := True, cl_updated := now\<rparr> else r)"

lemma mark_all_empty [simp]: "mark_all now {} r = r"
  by (simp add: mark_all_def)

lemma mark_stopped_all: "mark_stopped now sid (mark_all now ids r) = mark_all now (insert sid ids) r"
  by (auto simp: mark_all_def mark_stopped_def)

lemma fold_close:
  assumes f: "\<And>s st. P s \<Longrightarrow> cl_rows (f s st) = (if cl_db_ok env (cl_id s) then map (mark_stopped now (cl_id s)) (cl_rows st) else cl_rows st)"
      "\<And>s st. P s \<Longrightarrow> cl_dirs (f s st) = cl_dirs st - (if cl_db_ok env (cl_id s) \<and> cl_has_ws env \<and> cl_rm_ok env (cl_id s) then {cl_id s} else {})"
    and st: "cl_rows st = map (mark_all now ids) rows" "cl_dirs st = dirs"
  shows "cl_rows (fold (\<lambda>s st. if P s then f s st else st) ss st) =
      map (mark_all now (ids \<union> {cl_id s |s. s \<in> set ss \<and> P s \<and> cl_db_ok env (cl_id s)})) rows \<and>
    cl_dirs (fold (\<lambda>s st. if P s then f s st else st) ss st) =
      dirs - {cl_id s |s. s \<in> set ss \<and> P s \<and> cl_db_ok env (cl_id s) \<and> cl_has_ws env \<and> cl_rm_ok env (cl_id s)}"
  using st
proof (induction ss arbitrary: st ids dirs)
  case (Cons s ss)
  show ?case
  proof (cases "P s")
    case True
    define ids' where "ids' = (if cl_db_ok env (cl_id s) then insert (cl_id s) ids else ids)"
    define gone where "gone = (if cl_db_ok env (cl_id s) \<and> cl_has_ws env \<and> cl_rm_ok env (cl_id s) then {cl_id s} else {})"
    have "cl_rows (f s st) = map (mark_all now ids') rows" "cl_dirs (f s st) = dirs - gone"
      using f [OF True] Cons.prems by (auto simp: ids'_def gone_def mark_stopped_all)
    note step = Cons.IH [OF this]
    have "ids' \<union> {cl_id x |x. x \<in> set ss \<and> P x \<and> cl_db_ok env (cl_id x)} =
        ids \<union> {cl_id x |x. x \<in> set (s # ss) \<and> P x \<and> cl_db_ok env (cl_id x)}"
      using True by (auto simp: ids'_def)
    moreover have "dirs - gone - {cl_id x |x. x \<in> set ss \<and> P x \<and> cl_db_ok env (cl_id x) \<and> cl_has_ws env \<and> cl_rm_ok env (cl_id x)} =
        dirs - {cl_id x |x. x \<in> set (s # ss) \<and> P x \<and> cl_db_ok env (cl_id x) \<and> cl_has_ws env \<and> cl_rm_ok env (cl_id x)}"
      using True by (auto simp: gone_def)
    ultimately show ?thesis using step True by simp
  next
    case False
    then have "{cl_id x |x. x \<in> set (s # ss) \<and> P x \<and> Q x} = {cl_id x |x. x \<in> set ss \<and> P x \<and> Q x}" for Q
      by auto
    then show ?thesis using Cons.IH [OF Cons.prems] False by simp
  qed
qed auto

text \<open>The sessions that a sweep, or a reconciliation, closes.\<close>

definition swept :: "cleanup_env \<Rightarrow> time \<Rightarrow> time \<Rightarrow> cl_state \<Rightarrow> string set" where
  "swept env now idle_for st =
     {cl_id s |s. s \<in> set (list_active st) \<and> should_stop (now - idle_for) s \<and> cl_db_ok env (cl_id s)}"

definition reconciled :: "cleanup_env \<Rightarrow> cl_state \<Rightarrow> string set" where
  "reconciled env st = {cl_id s |s. s \<in> set (list_active st) \<and> container_missing env s \<and> cl_db_ok env (cl_id s)}"

lemma sweep_idle_fields:
  assumes "cl_list_ok env"
  shows "cl_rows (sweep_idle env now idle_for st) = map (mark_all now (swept env now idle_for st)) (cl_rows st)"
    and "cl_dirs (sweep_idle env now idle_for st) =
      cl_dirs st - {sid \<in> swept env now idle_for st. cl_has_ws env \<and> cl_rm_ok env sid}"
proof -
  have "cl_rows st = map (mark_all now {}) (cl_rows st)" by (simp add: map_idI)
  note main = fold_close [where P = "should_stop (now - idle_for)" and f = "stop_idle_session env now" and env = env and
      now = now and ids = "{}" and st = st and dirs = "cl_dirs st" and ss = "list_active st", OF _ _ this refl]
  show "cl_rows (sweep_idle env now idle_for st) = map (mark_all now (swept env now idle_for st)) (cl_rows st)"
    using assms main by (simp add: sweep_idle_def swept_def stop_idle_session_def close_session_fields)
  have "{sid \<in> swept env now idle_for st. cl_has_ws env \<and> cl_rm_ok env sid} =
      {cl_id s |s. s \<in> set (list_active st) \<and> should_stop (now - idle_for) s \<and> cl_db_ok env (cl_id s) \<and>
         cl_has_ws env \<and> cl_rm_ok env (cl_id s)}" by (auto simp: swept_def)
  then show "cl_dirs (sweep_idle env now idle_for st) =
      cl_dirs st - {sid \<in> swept env now idle_for st. cl_has_ws env \<and> cl_rm_ok env sid}"
    using assms main by (simp add: sweep_idle_def stop_idle_session_def close_session_fields)
qed

lemma remove_stopped_fields:
  "cl_rows (remove_stopped_workspaces env ids st) = cl_rows st \<and>
   cl_dirs (remove_stopped_workspaces env ids st) \<subseteq> cl_dirs st \<and>
   cl_dirs st - cl_dirs (remove_stopped_workspaces env ids st) \<subseteq> {sid. stopped_row st sid}"
proof -
  let ?f = "\<lambda>sid st. if \<not> cl_get_ok env sid \<or> \<not> stopped_row st sid then st else remove_dir env sid st"
  have "cl_rows (fold ?f ids st) = cl_rows st \<and> cl_dirs (fold ?f ids st) \<subseteq> cl_dirs st \<and>
      cl_dirs st - cl_dirs (fold ?f ids st) \<subseteq> {sid. stopped_row st sid}" for st
  proof (induction ids arbitrary: st)
    case (Cons sid ids)
    have "cl_rows (?f sid st) = cl_rows st" "cl_dirs (?f sid st) \<subseteq> cl_dirs st"
      "cl_dirs st - cl_dirs (?f sid st) \<subseteq> {sid. stopped_row st sid}"
      by (auto simp: remove_dir_def)
    moreover from this(1) have "stopped_row (?f sid st) = stopped_row st" by (auto simp: stopped_row_def fun_eq_iff)
    ultimately show ?case using Cons.IH [of "?f sid st"] by (auto simp del: if_split)
  qed simp
  then show ?thesis by (simp add: remove_stopped_workspaces_def)
qed

lemma reconcile_fields:
  assumes "cl_list_ok env"
  shows "cl_rows (reconcile_orphans env now ids st) = map (mark_all now (reconciled env st)) (cl_rows st)"
    and "cl_dirs (reconcile_orphans env now ids st) \<subseteq> cl_dirs st"
    and "cl_dirs st - cl_dirs (reconcile_orphans env now ids st) \<subseteq>
      reconciled env st \<union> {sid. \<exists>r \<in> set (cl_rows st). cl_id r = sid \<and> cl_stopped r}"
proof -
  define st1 where "st1 = fold (\<lambda>s st. if container_missing env s then close_session env now ''container_missing'' (cl_id s) st else st) (list_active st) st"
  have "cl_rows st = map (mark_all now {}) (cl_rows st)" by (simp add: map_idI)
  note main = fold_close [where P = "container_missing env" and f = "\<lambda>s. close_session env now ''container_missing'' (cl_id s)" and
      env = env and now = now and ids = "{}" and st = st and dirs = "cl_dirs st" and ss = "list_active st", OF _ _ this refl]
  have rows: "cl_rows st1 = map (mark_all now (reconciled env st)) (cl_rows st)"
    and dirs: "cl_dirs st1 \<subseteq> cl_dirs st" "cl_dirs st - cl_dirs st1 \<subseteq> reconciled env st"
    using main by (auto simp: reconciled_def close_session_fields st1_def [symmetric])
  have rec: "reconcile_orphans env now ids st = remove_stopped_workspaces env ids st1"
    using assms by (simp add: reconcile_orphans_def st1_def)
  show "cl_rows (reconcile_orphans env now ids st) = map (mark_all now (reconciled env st)) (cl_rows st)"
    using rec rows remove_stopped_fields [of env ids st1] by simp
  show "cl_dirs (reconcile_orphans env now ids st) \<subseteq> cl_dirs st"
    unfolding rec using dirs remove_stopped_fields [of env ids st1] by blast
  have "stopped_row st1 sid \<Longrightarrow> sid \<in> reconciled env st \<or> (\<exists>r \<in> set (cl_rows st). cl_id r = sid \<and> cl_stopped r)" for sid
    by (auto simp: stopped_row_def rows list_ex_iff mark_all_def split: if_splits)
  then show "cl_dirs st - cl_dirs (reconcile_orphans env now ids st) \<subseteq>
      reconciled env st \<union> {sid. \<exists>r \<in> set (cl_rows st). cl_id r = sid \<and> cl_stopped r}"
    unfolding rec using dirs remove_stopped_fields [of env ids st1] by blast
qed

section \<open>Runs of clean-up\<close>

text \<open>One round: the reconciliation of a start, or one tick of the idle sweep.\<close>

datatype cleanup_round = Reconcile "string list" | IdleTick time

fun cleanup_round_of :: "cleanup_env \<Rightarrow> time \<Rightarrow> cleanup_round \<Rightarrow> cl_state \<Rightarrow> cl_state" where
  "cleanup_round_of env now (Reconcile ids) st = reconcile_orphans env now ids st"
| "cleanup_round_of env now (IdleTick idle_for) st = sweep_idle env now idle_for st"

text \<open>The sessions a round may end: those not written since the cut-off, or without their container.\<close>

fun may_end :: "cleanup_env \<Rightarrow> time \<Rightarrow> cleanup_round \<Rightarrow> cl_state \<Rightarrow> string set" where
  "may_end env now (Reconcile ids) st = reconciled env st"
| "may_end env now (IdleTick idle_for) st = swept env now idle_for st"

lemma mark_all_id: "cl_id (mark_all now ids r) = cl_id r"
  by (simp add: mark_all_def)

lemma mark_all_active: "is_active (mark_all now ids r) \<longleftrightarrow> is_active r \<and> cl_id r \<notin> ids"
  by (auto simp: mark_all_def is_active_def)


definition demo_cleanup_env :: cleanup_env where
  "demo_cleanup_env =
     \<lparr> cl_list_ok = True, cl_stop_ok = (\<lambda>_. True), cl_db_ok = (\<lambda>_. True), cl_has_ws = True, cl_rm_ok = (\<lambda>_. True),
       cl_has_audit = True, cl_gone = (\<lambda>_. Some False), cl_dirs_ok = True, cl_get_ok = (\<lambda>_. True) \<rparr>"

definition demo_row :: "string \<Rightarrow> time \<Rightarrow> cl_row" where
  "demo_row i t = \<lparr> cl_id = i, cl_container = Some i, cl_status = ''running'', cl_stopped = False, cl_updated = t \<rparr>"

definition demo_sessions :: cl_state where
  "demo_sessions =
     \<lparr> cl_rows = [demo_row ''a'' 0, demo_row ''b'' 90], cl_dirs = {''a'', ''b''}, cl_containers = {''a'', ''b''}, cl_expired = [] \<rparr>"


text \<open>A directory without a session row stays for ever.\<close>

lemma orphan_directory_stays:
  assumes "cl_list_ok env" "sid \<in> cl_dirs st" "sid \<notin> cl_id ` set (cl_rows st)"
  shows "sid \<in> cl_dirs (cleanup_round_of env now rd st)"
proof (cases rd)
  case (Reconcile dirs)
  then show ?thesis using assms reconcile_fields(3) [where now = now and ids = dirs and st = st, OF assms(1)] by (auto simp: reconciled_def list_active_def)
next
  case (IdleTick idle_for)
  then show ?thesis using assms sweep_idle_fields(2) [where now = now and idle_for = idle_for and st = st, OF assms(1)] by (auto simp: swept_def list_active_def)
qed

end
