(* ===== verification/RateLimit.thy ===== *)
theory RateLimit
  imports Complex_Main Access
begin

text \<open>
  \<open>cmd/api/middleware/ratelimit.go\<close>: the token buckets per client or actor with their garbage
  collection, and the counters per minute in Redis that fall back to them.  Times are rational
  seconds of the monotonic clock where the code has floating point.
\<close>

record bucket =
  bk_tokens :: rat
  bk_last :: rat

type_synonym limiter = "string \<rightharpoonup> bucket"

definition capacity :: "int \<Rightarrow> rat" where
  "capacity per_minute = of_int per_minute"

definition refill_rate :: "int \<Rightarrow> rat" where
  "refill_rate per_minute = of_int per_minute / 60"

text \<open>The tokens of a bucket at a time, and the decision of \<open>bucket.allow\<close>.\<close>

definition refilled :: "int \<Rightarrow> rat \<Rightarrow> bucket \<Rightarrow> rat" where
  "refilled n now b = min (capacity n) (bk_tokens b + (now - bk_last b) * refill_rate n)"

definition bucket_allow :: "int \<Rightarrow> rat \<Rightarrow> bucket \<Rightarrow> bool \<times> bucket" where
  "bucket_allow n now b =
     (let t = refilled n now b in
      if 1 \<le> t then (True, \<lparr> bk_tokens = t - 1, bk_last = now \<rparr>)
      else (False, \<lparr> bk_tokens = t, bk_last = now \<rparr>))"

definition fresh_bucket :: "int \<Rightarrow> rat \<Rightarrow> bucket" where
  "fresh_bucket n now = \<lparr> bk_tokens = capacity n, bk_last = now \<rparr>"

definition limiter_allow :: "int \<Rightarrow> string \<Rightarrow> rat \<Rightarrow> limiter \<Rightarrow> bool \<times> limiter" where
  "limiter_allow n key now l =
     (case bucket_allow n now (case l key of None \<Rightarrow> fresh_bucket n now | Some b \<Rightarrow> b) of
        (ok, b) \<Rightarrow> (ok, l(key \<mapsto> b)))"

definition limiter_gc :: "rat \<Rightarrow> limiter \<Rightarrow> limiter" where
  "limiter_gc now l =
     (\<lambda>k. case l k of None \<Rightarrow> None | Some b \<Rightarrow> if now - bk_last b > 10 * 60 then None else Some b)"

text \<open>The middlewares: the status to abort with, if any.\<close>

definition rate_limit :: "int \<Rightarrow> string \<Rightarrow> rat \<Rightarrow> limiter \<Rightarrow> nat option \<times> limiter" where
  "rate_limit n ip now l =
     (case limiter_allow n ip now l of (ok, l') \<Rightarrow> (if ok then None else Some 429, l'))"

definition actor_rate_limit :: "int \<Rightarrow> string \<Rightarrow> rat \<Rightarrow> limiter \<Rightarrow> nat option \<times> limiter" where
  "actor_rate_limit n actor now l =
     (if actor = master then (None, l)
      else (case limiter_allow n actor now l of (ok, l') \<Rightarrow> (if ok then None else Some 429, l')))"

section \<open>Counters in Redis\<close>

record redis_limiter =
  rl_counts :: "string \<times> int \<Rightarrow> int"
  rl_fallback :: limiter

text \<open>
  \<open>up\<close> says whether \<open>INCR\<close> works; the key holds the minute, so its expiry after 90 seconds never
  resets a counter that is still asked for.
\<close>

definition redis_allow :: "int \<Rightarrow> bool \<Rightarrow> string \<Rightarrow> int \<Rightarrow> rat \<Rightarrow> redis_limiter \<Rightarrow> bool \<times> redis_limiter" where
  "redis_allow n up key unix now r =
     (if \<not> up then (case limiter_allow n key now (rl_fallback r) of (ok, l) \<Rightarrow> (ok, r\<lparr>rl_fallback := l\<rparr>))
      else (let k = (key, unix div 60); count = rl_counts r k + 1
            in (\<not> n < count, r\<lparr>rl_counts := (rl_counts r)(k := count)\<rparr>)))"

definition redis_rate_limit :: "int \<Rightarrow> bool \<Rightarrow> string \<Rightarrow> int \<Rightarrow> rat \<Rightarrow> redis_limiter \<Rightarrow> nat option \<times> redis_limiter" where
  "redis_rate_limit n up ip unix now r =
     (case redis_allow n up ip unix now r of (ok, r') \<Rightarrow> (if ok then None else Some 429, r'))"

definition redis_actor_rate_limit :: "int \<Rightarrow> bool \<Rightarrow> string \<Rightarrow> int \<Rightarrow> rat \<Rightarrow> redis_limiter \<Rightarrow> nat option \<times> redis_limiter" where
  "redis_actor_rate_limit n up actor unix now r =
     (if actor = master then (None, r)
      else (case redis_allow n up actor unix now r of (ok, r') \<Rightarrow> (if ok then None else Some 429, r')))"

section \<open>Sequences of requests\<close>

datatype limit_event = Request string rat | GcTick rat

fun event_time :: "limit_event \<Rightarrow> rat" where
  "event_time (Request k t) = t"
| "event_time (GcTick t) = t"

fun limit_step :: "int \<Rightarrow> limit_event \<Rightarrow> limiter \<Rightarrow> limiter" where
  "limit_step n (Request k t) l = snd (limiter_allow n k t l)"
| "limit_step n (GcTick t) l = limiter_gc t l"

text \<open>How many requests of one key pass.\<close>

fun passed :: "int \<Rightarrow> string \<Rightarrow> limit_event list \<Rightarrow> limiter \<Rightarrow> nat" where
  "passed n key [] l = 0"
| "passed n key (e # es) l =
     (case e of Request k t \<Rightarrow> if k = key \<and> fst (limiter_allow n k t l) then 1 else 0 | GcTick t \<Rightarrow> 0) +
     passed n key es (limit_step n e l)"

definition bucket_ok :: "int \<Rightarrow> rat \<Rightarrow> bucket \<Rightarrow> bool" where
  "bucket_ok n now b \<longleftrightarrow> 0 \<le> bk_tokens b \<and> bk_tokens b \<le> capacity n \<and> bk_last b \<le> now"

definition limiter_ok :: "int \<Rightarrow> rat \<Rightarrow> limiter \<Rightarrow> bool" where
  "limiter_ok n now l \<longleftrightarrow> (\<forall>k b. l k = Some b \<longrightarrow> bucket_ok n now b)"

text \<open>The tokens a key could use at a time.\<close>

definition available :: "int \<Rightarrow> string \<Rightarrow> rat \<Rightarrow> limiter \<Rightarrow> rat" where
  "available n key now l = (case l key of None \<Rightarrow> capacity n | Some b \<Rightarrow> refilled n now b)"

lemma refilled_bounds: "0 \<le> n \<Longrightarrow> bucket_ok n now b \<Longrightarrow> 0 \<le> refilled n now b \<and> refilled n now b \<le> capacity n"
  by (simp add: refilled_def bucket_ok_def capacity_def refill_rate_def)

lemma refilled_same [simp]: "t \<le> capacity n \<Longrightarrow> refilled n now \<lparr> bk_tokens = t, bk_last = now \<rparr> = t"
  by (simp add: refilled_def)

lemma bucket_ok_later: "bucket_ok n now b \<Longrightarrow> now \<le> later \<Longrightarrow> bucket_ok n later b"
  by (simp add: bucket_ok_def)

lemma fresh_ok: "0 \<le> n \<Longrightarrow> bucket_ok n now (fresh_bucket n now)"
  by (simp add: bucket_ok_def fresh_bucket_def capacity_def)

lemma bucket_allow_ok:
  assumes "0 \<le> n" "bucket_ok n now b" "bucket_allow n now b = (ok, b')"
  shows "bucket_ok n now b' \<and> refilled n now b' + (if ok then 1 else 0) = refilled n now b"
  using assms refilled_bounds [OF assms(1,2)]
  by (auto simp: bucket_allow_def Let_def bucket_ok_def split: if_splits)

lemma limit_step_ok:
  assumes "0 \<le> n" "limiter_ok n now l" "now \<le> event_time e"
  shows "limiter_ok n (event_time e) (limit_step n e l)"
proof (cases e)
  case (Request k t)
  define b where "b = (case l k of None \<Rightarrow> fresh_bucket n t | Some b \<Rightarrow> b)"
  have b: "bucket_ok n t b"
    using assms Request fresh_ok by (auto simp: b_def limiter_ok_def intro: bucket_ok_later split: option.splits)
  obtain ok b' where a: "bucket_allow n t b = (ok, b')" by fastforce
  have "limit_step n e l = l(k \<mapsto> b')" using a by (simp add: Request limiter_allow_def b_def)
  then show ?thesis
    using bucket_allow_ok [OF assms(1) b a] assms Request by (auto simp: limiter_ok_def intro: bucket_ok_later)
next
  case (GcTick t)
  then show ?thesis
    using assms by (auto simp: limiter_ok_def limiter_gc_def intro: bucket_ok_later split: option.splits if_splits)
qed

lemma collected_was_full:
  assumes "0 \<le> n" "bucket_ok n now b" "now - bk_last b > 10 * 60"
  shows "refilled n now b = capacity n"
proof -
  have "600 * refill_rate n \<le> (now - bk_last b) * refill_rate n"
    using assms by (intro mult_right_mono) (auto simp: refill_rate_def)
  moreover have "capacity n \<le> 600 * refill_rate n" using assms(1) by (simp add: capacity_def refill_rate_def)
  ultimately show ?thesis using assms(2) by (simp add: refilled_def bucket_ok_def)
qed

text \<open>A step pays for what it lets pass; collecting a bucket changes nothing.\<close>

lemma limit_step_pays:
  assumes n: "0 \<le> n" and l: "limiter_ok n (event_time e) l"
  shows "available n key (event_time e) (limit_step n e l) +
     (case e of Request k t \<Rightarrow> if k = key \<and> fst (limiter_allow n k t l) then 1 else 0 | GcTick t \<Rightarrow> 0) =
     available n key (event_time e) l"
proof (cases e)
  case (Request k t)
  define b where "b = (case l k of None \<Rightarrow> fresh_bucket n t | Some b \<Rightarrow> b)"
  have b: "bucket_ok n t b"
    using l n Request fresh_ok by (auto simp: b_def limiter_ok_def split: option.splits)
  obtain ok b' where a: "bucket_allow n t b = (ok, b')" by fastforce
  have "limiter_allow n k t l = (ok, l(k \<mapsto> b'))" using a by (simp add: limiter_allow_def b_def)
  moreover have "available n k t l = refilled n t b"
    by (simp add: available_def b_def fresh_bucket_def split: option.splits)
  ultimately show ?thesis
    using bucket_allow_ok [OF n b a] by (cases "k = key") (auto simp: Request available_def)
next
  case (GcTick t)
  then show ?thesis
    using l n collected_was_full [OF n]
    by (auto simp: available_def limiter_gc_def limiter_ok_def split: option.splits)
qed

lemma available_later:
  assumes "0 \<le> n" "now \<le> later"
  shows "available n key later l \<le> available n key now l + refill_rate n * (later - now)"
proof (cases "l key")
  case None
  then show ?thesis using assms by (simp add: available_def refill_rate_def)
next
  case (Some b)
  have "0 \<le> refill_rate n * (later - now)" using assms by (simp add: refill_rate_def)
  then show ?thesis using Some by (auto simp: available_def refilled_def algebra_simps min_def)
qed

lemma passed_bound:
  assumes "0 \<le> n" "limiter_ok n now l" "sorted (map event_time es)" "\<forall>e \<in> set es. now \<le> event_time e \<and> event_time e \<le> until"
    "now \<le> until"
  shows "rat_of_nat (passed n key es l) \<le> available n key now l + refill_rate n * (until - now)"
  using assms(2-5)
proof (induction es arbitrary: l now)
  case Nil
  have "0 \<le> available n key now l"
    using Nil.prems(1) assms(1) refilled_bounds [of n now]
    by (auto simp: available_def limiter_ok_def capacity_def split: option.splits)
  then show ?case using assms(1) Nil.prems(4) by (simp add: refill_rate_def)
next
  case (Cons e es)
  let ?t = "event_time e"
  let ?paid = "case e of Request k t \<Rightarrow> if k = key \<and> fst (limiter_allow n k t l) then 1 else 0 | GcTick t \<Rightarrow> (0 :: nat)"
  have t: "now \<le> ?t" "?t \<le> until" using Cons.prems(3) by auto
  have l: "limiter_ok n ?t l" using Cons.prems(1) t(1) by (auto simp: limiter_ok_def intro: bucket_ok_later)
  have rest: "rat_of_nat (passed n key es (limit_step n e l)) \<le>
      available n key ?t (limit_step n e l) + refill_rate n * (until - ?t)"
    using Cons.prems t by (intro Cons.IH limit_step_ok [OF assms(1)]) auto
  have "rat_of_nat ?paid = (case e of Request k t \<Rightarrow> if k = key \<and> fst (limiter_allow n k t l) then 1 else 0 | GcTick t \<Rightarrow> 0)"
    by (cases e) auto
  then have "rat_of_nat (passed n key (e # es) l) \<le> available n key ?t l + refill_rate n * (until - ?t)"
    using rest limit_step_pays [OF assms(1) l, of key] by simp
  also have "\<dots> \<le> available n key now l + refill_rate n * (?t - now) + refill_rate n * (until - ?t)"
    using available_later [OF assms(1) t(1)] by simp
  finally show ?case by (simp add: algebra_simps)
qed

lemma limit_run_ok:
  assumes "0 \<le> n" "sorted (map event_time es)" "\<forall>e \<in> set es. start \<le> event_time e \<and> event_time e \<le> until"
    "start \<le> until" "limiter_ok n start l"
  shows "limiter_ok n until (fold (limit_step n) es l)"
  using assms(2-5)
proof (induction es arbitrary: l start)
  case Nil
  then show ?case by (auto simp: limiter_ok_def intro: bucket_ok_later)
next
  case (Cons e es)
  have "limiter_ok n (event_time e) (limit_step n e l)"
    using Cons.prems assms(1) by (intro limit_step_ok) auto
  then show ?case using Cons.prems by (simp, intro Cons.IH [of "event_time e"]) auto
qed

text \<open>
  Property C27.  Whatever requests of whatever callers came before, and whenever unused buckets are
  collected, a caller gets through at most its limit per minute at once plus one minute's share for
  the time the window lasts.
\<close>
theorem rate_limit_bound:
  assumes "0 \<le> n" "sorted (map event_time (before @ window))"
    "\<forall>e \<in> set window. start \<le> event_time e \<and> event_time e \<le> until" "\<forall>e \<in> set before. event_time e \<le> start" "start \<le> until"
  shows "rat_of_nat (passed n key window (fold (limit_step n) before Map.empty)) \<le>
    of_int n + of_int n / 60 * (until - start)"
proof -
  let ?l = "fold (limit_step n) before Map.empty"
  define t0 where "t0 = (case before of [] \<Rightarrow> start | e # _ \<Rightarrow> event_time e)"
  have "\<forall>e \<in> set before. t0 \<le> event_time e" "t0 \<le> start"
    using assms(2,4) by (auto simp: t0_def sorted_append split: list.splits)
  then have "limiter_ok n start ?l"
    using assms(1,2,4) by (intro limit_run_ok [of n before t0]) (auto simp: sorted_append limiter_ok_def)
  note ok = this
  have "available n key start ?l \<le> capacity n"
    using ok refilled_bounds [OF assms(1)] by (auto simp: available_def limiter_ok_def split: option.splits)
  moreover have "rat_of_nat (passed n key window ?l) \<le> available n key start ?l + refill_rate n * (until - start)"
    using assms ok by (intro passed_bound) (auto simp: sorted_append)
  ultimately show ?thesis by (simp add: capacity_def refill_rate_def)
qed

lemma rate_limit_bound_witness:
  "rat_of_nat (passed 2 ''a'' [Request ''a'' 5, Request ''a'' 5, Request ''a'' 6] (fold (limit_step 2) [Request ''a'' 5] Map.empty)) \<le>
     of_int 2 + of_int 2 / 60 * (6 - 5)"
  by (rule rate_limit_bound) auto

text \<open>In one minute the counters of Redis let at most the limit pass.\<close>

fun redis_passed :: "int \<Rightarrow> string \<times> int \<Rightarrow> (string \<times> int \<times> rat) list \<Rightarrow> redis_limiter \<Rightarrow> int" where
  "redis_passed n k [] r = 0"
| "redis_passed n k ((key, unix, now) # rs) r =
     (case redis_allow n True key unix now r of
        (ok, r') \<Rightarrow> (if ok \<and> (key, unix div 60) = k then 1 else 0) + redis_passed n k rs r')"

lemma redis_minute_bound:
  "redis_passed n k rs r \<le> max 0 (n - rl_counts r k)"
proof (induction rs arbitrary: r)
  case (Cons x rs)
  obtain key unix now where x: "x = (key, unix, now)" by (cases x)
  define r' where "r' = r\<lparr>rl_counts := (rl_counts r)((key, unix div 60) := rl_counts r (key, unix div 60) + 1)\<rparr>"
  have step: "redis_allow n True key unix now r = (\<not> n < rl_counts r (key, unix div 60) + 1, r')"
    by (simp add: redis_allow_def r'_def Let_def)
  show ?case
    using Cons.IH [of r'] unfolding x
    by (cases "(key, unix div 60) = k") (auto simp: step r'_def max_def split: if_splits)
qed simp

end
