(* ===== verification/Tasks.thy ===== *)
theory Tasks
  imports Complex_Main Prelude "HOL-Library.AList"
begin

text \<open>
  \<open>sdk/mcp/tasks.go\<close> and \<open>tasks_input.go\<close>: long-running tool calls of the MCP server as tasks that
  clients poll, answer and cancel.  This theory holds the data, the operations of the in-memory
  store and the handlers of \<open>tasks/get\<close>, \<open>tasks/cancel\<close> and \<open>tasks/update\<close>; \<open>TaskSteps\<close> runs them
  concurrently and \<open>RedisTasks\<close> has the store that is shared through Redis.  Times and durations are
  microseconds; an absent time is Go's zero time.
\<close>

section \<open>JSON values\<close>

text \<open>
  What \<open>encoding/json\<close> makes of a text: numbers keep the decimal form their \<open>float64\<close> prints with.
  Reading and printing the text itself is an argument of the definitions that need it.
\<close>

datatype json =
    JNull
  | JBool bool
  | JNum string
  | JStr string
  | JArr "json list"
  | JObj "(string \<times> json) list"

record json_codec =
  js_parse :: "string \<Rightarrow> json option"
  js_print :: "json \<Rightarrow> string"

text \<open>Decoding into \<open>map[string]any\<close>: the last duplicate wins, and \<open>null\<close> gives an empty map.\<close>

fun json_object :: "json \<Rightarrow> (string \<times> json) list option" where
  "json_object (JObj ms) = Some (rev ms)"
| "json_object JNull = Some []"
| "json_object _ = None"

definition decode_object :: "json_codec \<Rightarrow> string \<Rightarrow> (string \<times> json) list option" where
  "decode_object cd raw = Option.bind (js_parse cd raw) json_object"

section \<open>Tasks\<close>

datatype task_status = TWorking | TInputRequired | TCompleted | TFailed | TCancelled

definition default_task_ttl :: int where
  "default_task_ttl = 30 * 60 * 1000000"

definition default_task_max_age :: int where
  "default_task_max_age = 2 * 60 * 60 * 1000000"

definition default_max_inflight :: int where
  "default_max_inflight = 64"

definition max_task_message_runes :: nat where
  "max_task_message_runes = 4096"

definition max_task_result_bytes :: nat where
  "max_task_result_bytes = 1048576"

definition max_input_request_keys :: nat where
  "max_input_request_keys = 8"

definition max_input_payload_bytes :: nat where
  "max_input_payload_bytes = 16 * 1024"

definition task_confirm_key :: string where
  "task_confirm_key = ''confirm''"

record input_request =
  ir_method :: string
  ir_params :: string

record input_response =
  is_action :: string
  is_content :: string
  is_error :: string

record task_rec =
  t_id :: string
  t_status :: task_status
  t_tool :: string
  t_owner :: string
  t_created :: time
  t_updated :: time
  t_finished :: "time option"
  t_result :: "string option"
  t_error :: string
  t_progress :: rat
  t_message :: string
  t_poll :: int
  t_requests :: "(string \<times> input_request) list"
  t_responses :: "(string \<times> input_response) list"
  t_used :: "string list"
  t_cancel :: bool          \<comment> \<open>the record carries the function that cancels the task\<close>

definition terminal_status :: "task_status \<Rightarrow> bool" where
  "terminal_status st \<longleftrightarrow> st = TCompleted \<or> st = TFailed \<or> st = TCancelled"

definition terminal :: "task_rec \<Rightarrow> bool" where
  "terminal t \<longleftrightarrow> terminal_status (t_status t)"

definition status_text :: "task_status \<Rightarrow> string" where
  "status_text st =
     (case st of
        TWorking \<Rightarrow> ''working''
      | TInputRequired \<Rightarrow> ''input_required''
      | TCompleted \<Rightarrow> ''completed''
      | TFailed \<Rightarrow> ''failed''
      | TCancelled \<Rightarrow> ''cancelled'')"

text \<open>Task ids are a prefix and something the UUID library parses (\<open>uuid\<close>).\<close>

definition valid_task_id :: "(string \<Rightarrow> bool) \<Rightarrow> string \<Rightarrow> bool" where
  "valid_task_id uuid i \<longleftrightarrow> has_prefix i ''task_'' \<and> uuid (drop (length ''task_'') i)"

section \<open>The store in memory\<close>

record task_store =
  ts_tasks :: "(string \<times> task_rec) list"
  ts_cancels :: "string set"             \<comment> \<open>tasks with a registered cancel function\<close>
  ts_waiters :: "string set"             \<comment> \<open>tasks with an open waiter channel\<close>
  ts_ttl :: int
  ts_max_age :: int
  ts_max_inflight :: int

text \<open>Positive numbers in the environment replace the defaults (seconds, seconds, tasks).\<close>

definition task_store_config :: "int option \<Rightarrow> int option \<Rightarrow> int option \<Rightarrow> int \<times> int \<times> int" where
  "task_store_config ttl max_age inflight =
     (case ttl of Some n \<Rightarrow> if 0 < n then n * 1000000 else default_task_ttl | None \<Rightarrow> default_task_ttl,
      case max_age of Some n \<Rightarrow> if 0 < n then n * 1000000 else default_task_max_age | None \<Rightarrow> default_task_max_age,
      case inflight of Some n \<Rightarrow> if 0 < n then n else default_max_inflight | None \<Rightarrow> default_max_inflight)"

definition new_task_store :: "int \<times> int \<times> int \<Rightarrow> task_store" where
  "new_task_store cfg =
     (case cfg of (ttl, max_age, inflight) \<Rightarrow>
        \<lparr> ts_tasks = [], ts_cancels = {}, ts_waiters = {}, ts_ttl = ttl, ts_max_age = max_age,
          ts_max_inflight = inflight \<rparr>)"

definition find_task :: "task_store \<Rightarrow> string \<Rightarrow> task_rec option" where
  "find_task s i = map_of (ts_tasks s) i"

definition set_task :: "string \<Rightarrow> task_rec \<Rightarrow> task_store \<Rightarrow> task_store" where
  "set_task i t s = s\<lparr>ts_tasks := AList.update i t (ts_tasks s)\<rparr>"

definition inflight_locked :: "task_store \<Rightarrow> nat" where
  "inflight_locked s = length (filter (\<lambda>(i, t). \<not> terminal t) (ts_tasks s))"

text \<open>\<open>get\<close> returns a copy without the cancel function.\<close>

definition get_task :: "(string \<Rightarrow> bool) \<Rightarrow> string \<Rightarrow> task_store \<Rightarrow> task_rec option" where
  "get_task uuid i s =
     (if \<not> valid_task_id uuid i then None
      else map_option (\<lambda>t. t\<lparr>t_cancel := False\<rparr>) (find_task s i))"

datatype put_error = InvalidTaskId | InflightFull

definition put_task :: "(string \<Rightarrow> bool) \<Rightarrow> task_rec \<Rightarrow> task_store \<Rightarrow> put_error + task_store" where
  "put_task uuid t s =
     (if \<not> valid_task_id uuid (t_id t) then Inl InvalidTaskId
      else if ts_max_inflight s \<le> int (inflight_locked s) then Inl InflightFull
      else let s' = set_task (t_id t) t s in
        Inr (if t_cancel t then s'\<lparr>ts_cancels := insert (t_id t) (ts_cancels s')\<rparr> else s'))"

text \<open>
  An update is a closure: it reads and changes the record and the variables \<open>'v\<close> it captures, and
  says whether it changed the record.
\<close>

type_synonym 'v task_update = "task_rec \<Rightarrow> 'v \<Rightarrow> bool \<times> task_rec \<times> 'v"

definition update_task ::
  "(string \<Rightarrow> bool) \<Rightarrow> time \<Rightarrow> string \<Rightarrow> 'v task_update \<Rightarrow> 'v \<Rightarrow> task_store \<Rightarrow> bool \<times> 'v \<times> task_store" where
  "update_task uuid now i f v s =
     (if \<not> valid_task_id uuid i then (False, v, s)
      else case find_task s i of
             None \<Rightarrow> (False, v, s)
           | Some t \<Rightarrow>
               (case f t v of (changed, t', v') \<Rightarrow>
                  (True, v', set_task i (if changed then t'\<lparr>t_updated := now\<rparr> else t') s)))"

text \<open>
  \<open>updateMaybeTerminal\<close> wraps the closure with one that notes a task that has just ended; the
  status to report is the second component of its variables.
\<close>

definition noting_end :: "'v task_update \<Rightarrow> ('v \<times> task_status option) task_update" where
  "noting_end f t v =
     (case f t (fst v) of (changed, t', u) \<Rightarrow>
        (changed, t', (u, if changed \<and> \<not> terminal t \<and> terminal t' then Some (t_status t') else snd v)))"

definition update_maybe_terminal ::
  "(string \<Rightarrow> bool) \<Rightarrow> time \<Rightarrow> string \<Rightarrow> 'v task_update \<Rightarrow> 'v \<Rightarrow> task_store \<Rightarrow>
   bool \<times> 'v \<times> task_status option \<times> task_store" where
  "update_maybe_terminal uuid now i f v s =
     (case update_task uuid now i (noting_end f) (v, None) s of
        (ok, (v', became), s') \<Rightarrow> (ok, v', became, s'))"

definition take_cancel :: "string \<Rightarrow> task_store \<Rightarrow> bool \<times> task_store" where
  "take_cancel i s =
     (i \<in> ts_cancels s,
      (case find_task s i of None \<Rightarrow> s | Some t \<Rightarrow> set_task i (t\<lparr>t_cancel := False\<rparr>) s)
        \<lparr>ts_cancels := ts_cancels s - {i}\<rparr>)"

definition store_cancel :: "string \<Rightarrow> task_store \<Rightarrow> task_store" where
  "store_cancel i s = s\<lparr>ts_cancels := insert i (ts_cancels s)\<rparr>"

definition register_waiter :: "string \<Rightarrow> task_store \<Rightarrow> task_store" where
  "register_waiter i s = s\<lparr>ts_waiters := insert i (ts_waiters s)\<rparr>"

definition signal_waiters :: "string \<Rightarrow> task_store \<Rightarrow> task_store" where
  "signal_waiters i s = s\<lparr>ts_waiters := ts_waiters s - {i}\<rparr>"

section \<open>How a task ends\<close>

definition end_task :: "task_status \<Rightarrow> string \<Rightarrow> string \<Rightarrow> time \<Rightarrow> task_rec \<Rightarrow> task_rec" where
  "end_task st err msg now t =
     t\<lparr>t_status := st, t_error := err, t_message := msg, t_progress := 1, t_finished := Some now\<rparr>"

text \<open>The closures that end a task leave one alone that has ended.\<close>

definition ending :: "(task_rec \<Rightarrow> task_rec) \<Rightarrow> 'v task_update" where
  "ending g t v = (if terminal t then (False, t, v) else (True, g t, v))"

text \<open>
  The sweep of the memory store: tasks that are too old fail, finished ones are dropped after their
  time to live.  It returns the tasks whose cancel function is called afterwards.
\<close>

definition too_old :: "task_store \<Rightarrow> time \<Rightarrow> task_rec \<Rightarrow> bool" where
  "too_old s now t \<longleftrightarrow> \<not> terminal t \<and> t_created t < now - ts_max_age s"

definition timed_out :: "time \<Rightarrow> task_rec \<Rightarrow> task_rec" where
  "timed_out now t =
     (end_task TFailed ''task exceeded max age'' ''timed out'' now t)\<lparr>t_updated := now, t_cancel := False\<rparr>"

definition evictable :: "task_store \<Rightarrow> time \<Rightarrow> task_rec \<Rightarrow> bool" where
  "evictable s now t \<longleftrightarrow>
     terminal t \<and> (case t_finished t of Some e \<Rightarrow> e | None \<Rightarrow> t_updated t) < now - ts_ttl s"

definition expire_one :: "task_store \<Rightarrow> time \<Rightarrow> string \<times> task_rec \<Rightarrow> string \<times> task_rec" where
  "expire_one s now = (\<lambda>(i, t). (i, if too_old s now t then timed_out now t else t))"

definition expire_tasks :: "time \<Rightarrow> task_store \<Rightarrow> string set \<times> task_store" where
  "expire_tasks now s =
     (let aged = filter (\<lambda>(i, t). too_old s now t) (ts_tasks s);
          marked = map (expire_one s now) (ts_tasks s);
          gone = filter (\<lambda>(i, t). evictable s now t) marked in
      (fst ` set (filter (\<lambda>(i, t). t_cancel t) aged),
       s\<lparr>ts_tasks := filter (\<lambda>(i, t). \<not> evictable s now t) marked,
         ts_cancels := ts_cancels s - fst ` set aged - fst ` set gone\<rparr>))"

end
