(* ===== verification/TaskHandlers.thy ===== *)
theory TaskHandlers
  imports Tasks
begin

text \<open>
  The rest of \<open>sdk/mcp/tasks.go\<close> and \<open>tasks_input.go\<close>: asking the client for input, what counts as an
  approval, how the answer of a tool ends its task, and the handlers.
\<close>

section \<open>Errors\<close>

datatype task_error =
    UnknownTask string
  | RequestsRequired
  | TooManyRequests
  | InvalidRequestKey
  | RequestTooLarge string
  | TooManyResponses
  | InvalidResponseKey
  | ResponseTooLarge string
  | AlreadyFinished string
  | MessageTooLong
  | InputTooLarge

text \<open>Their texts; \<open>quote\<close> is the \<open>%q\<close> verb.\<close>

definition task_error_text :: "(string \<Rightarrow> string) \<Rightarrow> task_error \<Rightarrow> string" where
  "task_error_text quote e =
     (case e of
        UnknownTask i \<Rightarrow> ''unknown taskId '' @ quote i
      | RequestsRequired \<Rightarrow> ''inputRequests required''
      | TooManyRequests \<Rightarrow> ''too many inputRequests (max 8)''
      | InvalidRequestKey \<Rightarrow> ''invalid inputRequests key''
      | RequestTooLarge k \<Rightarrow> ''inputRequests['' @ quote k @ ''] exceeds size limit''
      | TooManyResponses \<Rightarrow> ''too many inputResponses (max 8)''
      | InvalidResponseKey \<Rightarrow> ''invalid inputResponses key''
      | ResponseTooLarge k \<Rightarrow> ''inputResponses['' @ quote k @ ''] exceeds size limit''
      | AlreadyFinished i \<Rightarrow> ''task '' @ quote i @ '' is already finished''
      | MessageTooLong \<Rightarrow> ''message exceeds 4096 character limit''
      | InputTooLarge \<Rightarrow> ''input exceeds 16384 byte limit'')"

section \<open>Input requests\<close>

definition approval_elicitation :: "json_codec \<Rightarrow> string \<Rightarrow> (string \<times> input_request) list" where
  "approval_elicitation cd message =
     [(task_confirm_key,
       \<lparr> ir_method = ''elicitation/create'',
         ir_params = js_print cd
           (JObj [(''message'', JStr message), (''mode'', JStr ''form''),
                  (''requestedSchema'', JObj
                     [(''properties'', JObj
                         [(''approved'', JObj
                             [(''description'', JStr ''Whether to proceed with the operation.''),
                              (''type'', JStr ''boolean'')])]),
                      (''required'', JArr [JStr ''approved'']),
                      (''type'', JStr ''object'')])]) \<rparr>)]"

definition check_request :: "string \<times> input_request \<Rightarrow> task_error + unit" where
  "check_request = (\<lambda>(k, r).
     rbind (ensure (k \<noteq> [] \<and> length k \<le> 64) InvalidRequestKey)
       (\<lambda>_. ensure (length (ir_params r) \<le> max_input_payload_bytes) (RequestTooLarge k)))"

text \<open>A key is used once in the life of a task.\<close>

definition add_request :: "string \<times> input_request \<Rightarrow> task_rec \<Rightarrow> task_rec" where
  "add_request = (\<lambda>(k, r) t.
     if k \<in> set (t_used t) then t
     else if map_of (t_requests t) k \<noteq> None then t
     else t\<lparr>t_requests := (k, r) # t_requests t, t_used := k # t_used t\<rparr>)"

definition requesting :: "(string \<times> input_request) list \<Rightarrow> bool task_update" where
  "requesting reqs t entered =
     (if terminal t \<or> t_status t = TCancelled then (False, t, entered)
      else let t' = fold add_request reqs t in
        (True, t'\<lparr>t_status := TInputRequired, t_message := ''waiting for input''\<rparr>,
         entered \<or> t_status t' \<noteq> TInputRequired))"

definition request_checks ::
  "(string \<Rightarrow> bool) \<Rightarrow> string \<Rightarrow> (string \<times> input_request) list \<Rightarrow> task_error + unit" where
  "request_checks uuid i reqs =
     rbind (ensure (valid_task_id uuid i) (UnknownTask i)) (\<lambda>_.
     rbind (ensure (reqs \<noteq> []) RequestsRequired) (\<lambda>_.
     rbind (ensure (length reqs \<le> max_input_request_keys) TooManyRequests) (\<lambda>_.
     check_all check_request reqs)))"

definition request_input ::
  "(string \<Rightarrow> bool) \<Rightarrow> time \<Rightarrow> string \<Rightarrow> (string \<times> input_request) list \<Rightarrow> task_store \<Rightarrow>
   (task_error + unit) \<times> task_store" where
  "request_input uuid now i reqs s =
     (case request_checks uuid i reqs of
        Inl e \<Rightarrow> (Inl e, s)
      | Inr _ \<Rightarrow>
          (case update_task uuid now i (requesting reqs) False s of
             (ok, entered, s') \<Rightarrow>
               if \<not> ok then (Inl (UnknownTask i), s') else (Inr (), signal_waiters i s')))"

section \<open>Responses\<close>

definition check_response :: "string \<times> input_response \<Rightarrow> task_error + unit" where
  "check_response = (\<lambda>(k, r).
     rbind (ensure (length k \<le> 64) InvalidResponseKey)
       (\<lambda>_. ensure (length (is_content r) + length (is_error r) + length (is_action r) \<le> max_input_payload_bytes)
          (ResponseTooLarge k)))"

definition response_checks ::
  "(string \<Rightarrow> bool) \<Rightarrow> string \<Rightarrow> (string \<times> input_response) list \<Rightarrow> task_error + unit" where
  "response_checks uuid i resps =
     rbind (ensure (valid_task_id uuid i) (UnknownTask i)) (\<lambda>_.
     rbind (ensure (length resps \<le> max_input_request_keys) TooManyResponses) (\<lambda>_.
     check_all check_response resps))"

definition take_response :: "string \<times> input_response \<Rightarrow> task_rec \<times> bool \<Rightarrow> task_rec \<times> bool" where
  "take_response = (\<lambda>(k, r) (t, changed).
     if map_of (t_requests t) k = None then (t, changed)
     else (t\<lparr>t_responses := AList.update k r (t_responses t), t_requests := AList.delete k (t_requests t)\<rparr>, True))"

text \<open>The captured variables are \<open>terminal\<close> and \<open>allSatisfied\<close>.\<close>

definition answering :: "(string \<times> input_response) list \<Rightarrow> (bool \<times> bool) task_update" where
  "answering resps t v =
     (case v of (was_terminal, satisfied) \<Rightarrow>
        if terminal t then (False, t, (True, satisfied))
        else if t_status t \<noteq> TInputRequired \<or> t_requests t = [] then (False, t, v)
        else (case fold take_response resps (t, False) of (t', changed) \<Rightarrow>
          if \<not> changed then (False, t', v)
          else if t_requests t' = []
            then (True, t'\<lparr>t_status := TWorking, t_message := ''input received''\<rparr>, (was_terminal, True))
          else (True, t'\<lparr>t_message := ''waiting for remaining input''\<rparr>, v)))"

definition apply_input_responses ::
  "(string \<Rightarrow> bool) \<Rightarrow> time \<Rightarrow> string \<Rightarrow> (string \<times> input_response) list \<Rightarrow> task_store \<Rightarrow>
   (task_error + bool) \<times> task_store" where
  "apply_input_responses uuid now i resps s =
     (case response_checks uuid i resps of
        Inl e \<Rightarrow> (Inl e, s)
      | Inr _ \<Rightarrow>
          (case update_task uuid now i (answering resps) (False, False) s of
             (ok, (was_terminal, satisfied), s') \<Rightarrow>
               if \<not> ok then (Inl (UnknownTask i), s')
               else if was_terminal then (Inl (AlreadyFinished i), s')
               else (Inr satisfied, if satisfied then signal_waiters i s' else s')))"

text \<open>One turn of the loop of \<open>waitForInput\<close>; \<open>WaitOn\<close> blocks on the channel, the context or the poll timer.\<close>

datatype wait_result = WaitDone "(string \<times> input_response) list" | WaitError string | WaitOn

definition wait_check :: "(string \<Rightarrow> bool) \<Rightarrow> (string \<Rightarrow> string) \<Rightarrow> string \<Rightarrow> task_store \<Rightarrow> wait_result" where
  "wait_check uuid quote i s =
     (case get_task uuid i s of
        None \<Rightarrow> WaitError (task_error_text quote (UnknownTask i))
      | Some t \<Rightarrow>
          if t_status t = TCancelled \<or> t_status t = TFailed \<or> t_status t = TCompleted
          then WaitError (if t_status t = TCancelled then ''context canceled''
                          else ''task '' @ status_text (t_status t))
          else if t_status t = TWorking \<and> t_requests t = [] then WaitDone (t_responses t)
          else if t_status t \<noteq> TInputRequired then WaitDone (t_responses t)
          else WaitOn)"

section \<open>Approval\<close>

text \<open>
  Decoding into a struct with one field \<open>Approved *bool\<close>: a member matches in any case (the letters
  have no other folds), the last match wins, and a member of the wrong type is an error.
\<close>

definition ascii_fold :: "string \<Rightarrow> string" where
  "ascii_fold s = map (\<lambda>c. if is_upper c then char_of ((of_char c :: nat) + 32) else c) s"

fun approved_members :: "(string \<times> json) list \<Rightarrow> bool option \<Rightarrow> bool option option" where
  "approved_members [] b = Some b"
| "approved_members ((k, v) # ms) b =
     (if ascii_fold k \<noteq> ''approved'' then approved_members ms b
      else case v of
        JBool x \<Rightarrow> approved_members ms (Some x)
      | JNull \<Rightarrow> approved_members ms None
      | _ \<Rightarrow> None)"

definition decode_approved :: "json_codec \<Rightarrow> string \<Rightarrow> bool option option" where
  "decode_approved cd raw =
     (case js_parse cd raw of
        Some (JObj ms) \<Rightarrow> approved_members ms None
      | Some JNull \<Rightarrow> Some None
      | _ \<Rightarrow> None)"

definition response_approved :: "json_codec \<Rightarrow> input_response \<Rightarrow> bool" where
  "response_approved cd r =
     (if is_action r = ''decline'' \<or> is_action r = ''cancel'' then False
      else if is_content r = [] then is_action r = ''accept'' \<or> is_action r = []
      else case decode_approved cd (is_content r) of
        None \<Rightarrow> False
      | Some (Some b) \<Rightarrow> b
      | Some None \<Rightarrow> is_action r = ''accept'')"

text \<open>A missing response is the zero value.\<close>

definition no_response :: input_response where
  "no_response = \<lparr> is_action = [], is_content = [], is_error = [] \<rparr>"

definition confirm_response :: "(string \<times> input_response) list \<Rightarrow> input_response" where
  "confirm_response resps = (case map_of resps task_confirm_key of Some r \<Rightarrow> r | None \<Rightarrow> no_response)"

section \<open>Control flags in the arguments of a tool\<close>

definition flag_set :: "json option \<Rightarrow> bool" where
  "flag_set v =
     (case v of
        Some (JBool b) \<Rightarrow> b
      | Some (JStr x) \<Rightarrow> x = ''true'' \<or> x = ''1''
      | _ \<Rightarrow> False)"

definition wants_confirm :: "json_codec \<Rightarrow> string \<Rightarrow> bool" where
  "wants_confirm cd args =
     (if args = [] then False
      else case decode_object cd args of None \<Rightarrow> False | Some m \<Rightarrow> flag_set (map_of m ''confirm''))"

definition wants_async_task :: "json_codec \<Rightarrow> string \<Rightarrow> bool" where
  "wants_async_task cd args =
     (if args = [] then False
      else case decode_object cd args of None \<Rightarrow> False | Some m \<Rightarrow> flag_set (map_of m ''async''))"

text \<open>
  Marshalling a map prints each key once; the printer sorts the members and does the same for nested
  objects.  A null decodes into a nil map.
\<close>

definition strip_task_control_flags :: "json_codec \<Rightarrow> string \<Rightarrow> string" where
  "strip_task_control_flags cd args =
     (if args = [] then args
      else case js_parse cd args of
        Some JNull \<Rightarrow> js_print cd JNull
      | Some (JObj ms) \<Rightarrow>
          js_print cd (JObj (AList.delete ''confirm'' (AList.delete ''async'' (AList.clearjunk (rev ms)))))
      | _ \<Rightarrow> args)"

section \<open>The answer of the tool\<close>

record tool_reply =
  tr_error :: bool
  tr_texts :: "string list"
  tr_json :: string            \<comment> \<open>the reply, marshalled\<close>

datatype tool_answer = ToolErr string | ToolReply tool_reply

text \<open>\<open>json_quote\<close> prints a Go string as a JSON string.\<close>

definition truncate_task_result :: "(string \<Rightarrow> string) \<Rightarrow> string \<Rightarrow> string" where
  "truncate_task_result json_quote b =
     (if length b \<le> max_task_result_bytes then b
      else ''{\"bytes\":'' @ nat_dec (length b) @ '',\"kept\":'' @ nat_dec max_task_result_bytes @
           '',\"preview\":'' @ json_quote (take max_task_result_bytes b) @ '',\"truncated\":true}'')"

definition tool_end :: "(string \<Rightarrow> string) \<Rightarrow> time \<Rightarrow> bool \<Rightarrow> tool_answer \<Rightarrow> task_rec \<Rightarrow> task_rec" where
  "tool_end json_quote now ctx_cancelled ans t =
     (if ctx_cancelled then end_task TCancelled ''cancelled'' ''cancelled'' now t
      else case ans of
        ToolErr e \<Rightarrow> end_task TFailed e ''failed'' now t
      | ToolReply r \<Rightarrow>
          let t' = t\<lparr>t_result := Some (truncate_task_result json_quote (tr_json r))\<rparr> in
          if tr_error r
          then end_task TFailed (case tr_texts r of x # _ \<Rightarrow> x | [] \<Rightarrow> ''tool returned isError'') ''failed'' now t'
          else end_task TCompleted (t_error t') ''completed'' now t')"

text \<open>What ends a task whose confirmation failed.\<close>

definition wait_failed :: "time \<Rightarrow> bool \<Rightarrow> string \<Rightarrow> task_rec \<Rightarrow> task_rec" where
  "wait_failed now ctx_cancelled e t =
     (if ctx_cancelled then end_task TCancelled ''cancelled'' ''cancelled'' now t
      else end_task TFailed e ''failed while waiting for input'' now t)"

section \<open>Access to a task\<close>

definition task_access :: "task_rec \<Rightarrow> string \<Rightarrow> bool" where
  "task_access t actor \<longleftrightarrow> t_owner t = [] \<or> actor = [] \<or> t_owner t = actor"

definition authorize_task_access :: "task_rec \<Rightarrow> string \<Rightarrow> task_error + unit" where
  "authorize_task_access t actor = ensure (task_access t actor) (UnknownTask (t_id t))"

section \<open>Handlers\<close>

record task_view =
  tv_id :: string
  tv_status :: task_status
  tv_tool :: string
  tv_created :: time
  tv_updated :: time
  tv_progress :: rat
  tv_message :: string
  tv_poll :: int
  tv_result :: "string option"
  tv_error :: string
  tv_requests :: "(string \<times> input_request) list"

definition view_of :: "task_rec \<Rightarrow> task_view" where
  "view_of t =
     \<lparr> tv_id = t_id t, tv_status = t_status t, tv_tool = t_tool t, tv_created = t_created t,
       tv_updated = t_updated t, tv_progress = t_progress t, tv_message = t_message t, tv_poll = t_poll t,
       tv_result = t_result t, tv_error = t_error t, tv_requests = t_requests t \<rparr>"

definition get_task_result :: "(string \<Rightarrow> bool) \<Rightarrow> string \<Rightarrow> string \<Rightarrow> task_store \<Rightarrow> task_error + task_view" where
  "get_task_result uuid actor i s =
     (if i = [] \<or> \<not> valid_task_id uuid i then Inl (UnknownTask i)
      else case get_task uuid i s of
        None \<Rightarrow> Inl (UnknownTask i)
      | Some t \<Rightarrow> rbind (authorize_task_access t actor) (\<lambda>_. Inr (view_of t)))"

text \<open>The first part of cancelling and updating: look the task up and authorise.\<close>

definition authorize_if_found ::
  "(string \<Rightarrow> bool) \<Rightarrow> string \<Rightarrow> string \<Rightarrow> task_store \<Rightarrow> task_error + unit" where
  "authorize_if_found uuid actor i s =
     (case get_task uuid i s of None \<Rightarrow> Inr () | Some t \<Rightarrow> authorize_task_access t actor)"

definition cancel_admit :: "(string \<Rightarrow> bool) \<Rightarrow> string \<Rightarrow> string \<Rightarrow> task_store \<Rightarrow> task_error + unit" where
  "cancel_admit uuid actor i s =
     (if i = [] \<or> \<not> valid_task_id uuid i then Inl (UnknownTask i) else authorize_if_found uuid actor i s)"

text \<open>The captured variables are \<open>alreadyTerminal\<close> and \<open>statusAfter\<close>.\<close>

definition cancelling :: "time \<Rightarrow> (bool \<times> task_status) task_update" where
  "cancelling now t v =
     (if terminal t then (False, t, (True, t_status t))
      else (True, end_task TCancelled ''cancelled'' ''cancellation requested'' now t, (fst v, TCancelled)))"

definition cancel_mark ::
  "(string \<Rightarrow> bool) \<Rightarrow> time \<Rightarrow> string \<Rightarrow> task_store \<Rightarrow> bool \<times> (bool \<times> task_status) \<times> task_store" where
  "cancel_mark uuid now i s =
     (case update_maybe_terminal uuid now i (cancelling now) (False, TWorking) s of (ok, v, _, s') \<Rightarrow> (ok, v, s'))"

text \<open>The Boolean says whether the context of the task was cancelled.\<close>

definition cancel_task_result ::
  "(string \<Rightarrow> bool) \<Rightarrow> time \<Rightarrow> string \<Rightarrow> string \<Rightarrow> task_store \<Rightarrow>
   (task_error + task_status \<times> string) \<times> bool \<times> task_store" where
  "cancel_task_result uuid now actor i s =
     (case cancel_admit uuid actor i s of
        Inl e \<Rightarrow> (Inl e, False, s)
      | Inr _ \<Rightarrow>
          (case cancel_mark uuid now i s of
             (ok, (already, status_after), s1) \<Rightarrow>
               if \<not> ok then (Inl (UnknownTask i), False, s1)
               else if already then (Inr (status_after, ''task already finished''), False, s1)
               else (case take_cancel i s1 of (fn, s2) \<Rightarrow>
                 (Inr (status_after, ''cancellation requested''), fn, signal_waiters i s2))))"

record update_params =
  up_id :: string
  up_message :: string
  up_progress :: rat
  up_responses :: "(string \<times> input_response) list"
  up_input :: string

text \<open>\<open>string([]rune(m)[:n])\<close>: a malformed byte becomes U+FFFD.\<close>

fun first_runes :: "nat \<Rightarrow> string \<Rightarrow> string" where
  "first_runes 0 s = []"
| "first_runes (Suc n) s =
     (if s = [] then []
      else case rune_width s of (w, ok) \<Rightarrow>
        (if ok then take w s else bytes [239, 191, 189]) @ first_runes n (drop w s))"

definition clamp_task_message :: "string \<Rightarrow> string" where
  "clamp_task_message m =
     (if rune_count m \<le> max_task_message_runes then m else first_runes max_task_message_runes m)"

definition update_admit :: "(string \<Rightarrow> bool) \<Rightarrow> string \<Rightarrow> update_params option \<Rightarrow> task_store \<Rightarrow> task_error + update_params" where
  "update_admit uuid actor params s =
     (case params of
        None \<Rightarrow> Inl (UnknownTask [])
      | Some p \<Rightarrow>
          if up_id p = [] \<or> \<not> valid_task_id uuid (up_id p) then Inl (UnknownTask (up_id p))
          else if max_task_message_runes < rune_count (up_message p) then Inl MessageTooLong
          else if max_input_payload_bytes < length (up_input p) then Inl InputTooLarge
          else rbind (authorize_if_found uuid actor (up_id p) s) (\<lambda>_. Inr p))"

text \<open>The legacy \<open>input\<close> is an accepting answer to the confirmation unless there is one.\<close>

definition effective_responses :: "update_params \<Rightarrow> (string \<times> input_response) list" where
  "effective_responses p =
     (if up_input p = [] \<or> map_of (up_responses p) task_confirm_key \<noteq> None then up_responses p
      else (task_confirm_key, \<lparr> is_action = ''accept'', is_content = up_input p, is_error = [] \<rparr>) # up_responses p)"

definition updating :: "update_params \<Rightarrow> bool task_update" where
  "updating p t was_terminal =
     (if terminal t then (False, t, True)
      else
        let t1 = (if up_message p \<noteq> [] then t\<lparr>t_message := clamp_task_message (up_message p)\<rparr> else t);
            pr = min 1 (up_progress p);
            new_progress = (0 < up_progress p \<and> t_progress t1 \<noteq> pr);
            t2 = (if new_progress then t1\<lparr>t_progress := pr\<rparr> else t1)
        in (up_message p \<noteq> [] \<or> new_progress, t2, was_terminal))"

definition update_reply ::
  "(string \<Rightarrow> bool) \<Rightarrow> string \<Rightarrow> task_store \<Rightarrow> task_error + task_status \<times> string \<times> rat" where
  "update_reply uuid i s =
     (case get_task uuid i s of
        None \<Rightarrow> Inl (UnknownTask i)
      | Some t \<Rightarrow> Inr (t_status t, t_message t, t_progress t))"

definition update_fields ::
  "(string \<Rightarrow> bool) \<Rightarrow> time \<Rightarrow> update_params \<Rightarrow> task_store \<Rightarrow>
   (task_error + task_status \<times> string \<times> rat) \<times> task_store" where
  "update_fields uuid now p s =
     (case update_task uuid now (up_id p) (updating p) False s of
        (ok, was_terminal, s') \<Rightarrow>
          (if \<not> ok then Inl (UnknownTask (up_id p))
           else if was_terminal \<and> effective_responses p = [] then Inl (AlreadyFinished (up_id p))
           else update_reply uuid (up_id p) s', s'))"

definition update_task_result ::
  "(string \<Rightarrow> bool) \<Rightarrow> time \<Rightarrow> string \<Rightarrow> update_params option \<Rightarrow> task_store \<Rightarrow>
   (task_error + task_status \<times> string \<times> rat) \<times> task_store" where
  "update_task_result uuid now actor params s =
     (case update_admit uuid actor params s of
        Inl e \<Rightarrow> (Inl e, s)
      | Inr p \<Rightarrow>
          if effective_responses p = [] then update_fields uuid now p s
          else (case apply_input_responses uuid now (up_id p) (effective_responses p) s of
            (Inl e, s') \<Rightarrow> (Inl e, s')
          | (Inr _, s') \<Rightarrow> update_fields uuid now p s'))"

section \<open>Starting a task\<close>

definition new_task :: "time \<Rightarrow> string \<Rightarrow> string \<Rightarrow> string \<Rightarrow> task_rec" where
  "new_task now i owner name =
     \<lparr> t_id = i, t_status = TWorking, t_tool = name, t_owner = owner, t_created = now, t_updated = now,
       t_finished = None, t_result = None, t_error = [], t_progress = 0, t_message = ''started'',
       t_poll = 2000, t_requests = [], t_responses = [], t_used = [], t_cancel = True \<rparr>"

text \<open>What the caller learns: a text, or the id, the tool and whether a confirmation is wanted.\<close>

definition start_tool_task ::
  "(string \<Rightarrow> bool) \<Rightarrow> json_codec \<Rightarrow> time \<Rightarrow> string \<Rightarrow> string \<Rightarrow> string \<Rightarrow> string \<Rightarrow> task_store \<Rightarrow>
   (string + string \<times> string \<times> bool) \<times> task_store" where
  "start_tool_task uuid cd now i owner name args s =
     (case put_task uuid (new_task now i owner name) s of
        Inl InflightFull \<Rightarrow>
          (Inl (''error: too many in-flight tasks (max '' @ int_dec (ts_max_inflight s) @
                ''); wait or cancel existing ones''), s)
      | Inl InvalidTaskId \<Rightarrow> (Inl ''error: failed to start task: invalid task id'', s)
      | Inr s' \<Rightarrow> (Inr (i, name, wants_confirm cd args), store_cancel i s'))"

end
