(* ===== verification/TaskSteps.thy ===== *)
theory TaskSteps
  imports TaskHandlers
begin

text \<open>
  The tasks of the MCP server running at the same time, on the in-memory store: the goroutines that
  \<open>startToolTask\<close> starts, the requests of clients, each in the parts between which others may run, and
  the sweep.  Every rule is one operation under the store's lock or one turn of a goroutine between
  two of them.

  A run of the tasks in full, used as the concrete instance of their properties: a task with a
  confirmation is started, asks, is approved by its owner, calls its tool and ends.
\<close>

section \<open>The goroutine of a task\<close>

datatype worker_pc =
    AskConfirm
  | RequestFailed string
  | AwaitInput
  | WaitFailed string
  | Declined
  | CallTool
  | Calling
  | ToolReturned tool_answer
  | Deferred
  | Finished

record task_job =
  tj_tool :: string
  tj_args :: string
  tj_confirm :: bool
  tj_pc :: worker_pc

record task_env =
  te_uuid :: "string \<Rightarrow> bool"
  te_codec :: json_codec
  te_quote :: "string \<Rightarrow> string"        \<comment> \<open>the \<open>%q\<close> verb\<close>
  te_json_quote :: "string \<Rightarrow> string"

text \<open>Requests of clients between the parts of their handlers.\<close>

datatype client =
    NoRequest
  | CancelAdmitted string string               \<comment> \<open>actor and task\<close>
  | CancelMarked string
  | UpdateAdmitted string update_params
  | UpdateAnswered string update_params

text \<open>
  What is observable outside of the store: accepted tasks with their owner, tool and arguments, calls
  of tools, and answers to input requests by an actor that were not refused.
\<close>

datatype task_event =
    TaskStarted string string string string
  | ToolCalled string string string
  | Answered string string "(string \<times> input_response) list"

record task_system =
  sy_store :: task_store
  sy_now :: time
  sy_jobs :: "string \<rightharpoonup> task_job"
  sy_cancelled :: "string set"        \<comment> \<open>tasks whose context is cancelled\<close>
  sy_firing :: "string set"           \<comment> \<open>cancel functions taken and about to be called\<close>
  sy_clients :: "nat \<Rightarrow> client"
  sy_log :: "task_event list"

definition with_store :: "task_store \<Rightarrow> task_system \<Rightarrow> task_system" where
  "with_store st s = s\<lparr>sy_store := st\<rparr>"

definition set_pc :: "string \<Rightarrow> worker_pc \<Rightarrow> task_system \<Rightarrow> task_system" where
  "set_pc i pc s = s\<lparr>sy_jobs := (sy_jobs s)(i := map_option (\<lambda>j. j\<lparr>tj_pc := pc\<rparr>) (sy_jobs s i))\<rparr>"

text \<open>An update that may end the task, as the goroutine makes it, without captured variables.\<close>

definition worker_ends :: "task_env \<Rightarrow> string \<Rightarrow> (task_rec \<Rightarrow> task_rec) \<Rightarrow> task_system \<Rightarrow> task_system" where
  "worker_ends env i g s =
     (case update_maybe_terminal (te_uuid env) (sy_now s) i (ending g) () (sy_store s) of
        (_, _, _, st) \<Rightarrow> set_pc i Deferred (with_store st s))"

definition worker_asks :: "task_env \<Rightarrow> string \<Rightarrow> task_job \<Rightarrow> task_system \<Rightarrow> task_system" where
  "worker_asks env i j s =
     (let msg = ''Approve running tool '' @ te_quote env (tj_tool j) @ ''?'' in
      case request_input (te_uuid env) (sy_now s) i (approval_elicitation (te_codec env) msg) (sy_store s) of
        (Inl e, st) \<Rightarrow> set_pc i (RequestFailed (task_error_text (te_quote env) e)) (with_store st s)
      | (Inr _, st) \<Rightarrow> set_pc i AwaitInput (with_store st s))"

definition worker_polls :: "task_env \<Rightarrow> string \<Rightarrow> task_system \<Rightarrow> task_system" where
  "worker_polls env i s =
     (case wait_check (te_uuid env) (te_quote env) i (sy_store s) of
        WaitDone resps \<Rightarrow>
          set_pc i (if response_approved (te_codec env) (confirm_response resps) then CallTool else Declined) s
      | WaitError e \<Rightarrow> set_pc i (WaitFailed e) s
      | WaitOn \<Rightarrow> with_store (register_waiter i (sy_store s)) s)"

definition worker_calls :: "task_env \<Rightarrow> string \<Rightarrow> task_job \<Rightarrow> task_system \<Rightarrow> task_system" where
  "worker_calls env i j s =
     (set_pc i Calling s)\<lparr>sy_log := sy_log s @ [ToolCalled i (tj_tool j) (strip_task_control_flags (te_codec env) (tj_args j))]\<rparr>"

text \<open>The deferred calls: wake waiters, drop the cancel function, cancel the context.\<close>

definition worker_leaves :: "string \<Rightarrow> task_system \<Rightarrow> task_system" where
  "worker_leaves i s =
     (set_pc i Finished (with_store (snd (take_cancel i (signal_waiters i (sy_store s)))) s))
       \<lparr>sy_cancelled := insert i (sy_cancelled s)\<rparr>"

inductive task_worker_step :: "task_env \<Rightarrow> string \<Rightarrow> task_system \<Rightarrow> task_system \<Rightarrow> bool" for env i where
  asks: "sy_jobs s i = Some j \<Longrightarrow> tj_pc j = AskConfirm \<Longrightarrow> task_worker_step env i s (worker_asks env i j s)"
| request_failed: "sy_jobs s i = Some j \<Longrightarrow> tj_pc j = RequestFailed e \<Longrightarrow>
     task_worker_step env i s (worker_ends env i (end_task TFailed e ''failed to request confirmation'' (sy_now s)) s)"
| polls: "sy_jobs s i = Some j \<Longrightarrow> tj_pc j = AwaitInput \<Longrightarrow> task_worker_step env i s (worker_polls env i s)"
| wait_cancelled: "sy_jobs s i = Some j \<Longrightarrow> tj_pc j = AwaitInput \<Longrightarrow> i \<in> sy_cancelled s \<Longrightarrow>
     task_worker_step env i s (set_pc i (WaitFailed ''context canceled'') s)"
| wait_failed: "sy_jobs s i = Some j \<Longrightarrow> tj_pc j = WaitFailed e \<Longrightarrow>
     task_worker_step env i s (worker_ends env i (wait_failed (sy_now s) (i \<in> sy_cancelled s) e) s)"
| declined: "sy_jobs s i = Some j \<Longrightarrow> tj_pc j = Declined \<Longrightarrow>
     task_worker_step env i s (worker_ends env i (end_task TFailed ''confirmation declined'' ''declined'' (sy_now s)) s)"
| calls: "sy_jobs s i = Some j \<Longrightarrow> tj_pc j = CallTool \<Longrightarrow> task_worker_step env i s (worker_calls env i j s)"
| returns: "sy_jobs s i = Some j \<Longrightarrow> tj_pc j = Calling \<Longrightarrow> task_worker_step env i s (set_pc i (ToolReturned ans) s)"
| records: "sy_jobs s i = Some j \<Longrightarrow> tj_pc j = ToolReturned ans \<Longrightarrow>
     task_worker_step env i s (worker_ends env i (tool_end (te_json_quote env) (sy_now s) (i \<in> sy_cancelled s) ans) s)"
| leaves: "sy_jobs s i = Some j \<Longrightarrow> tj_pc j = Deferred \<Longrightarrow> task_worker_step env i s (worker_leaves i s)"

section \<open>Clients, the sweep and the clock\<close>

definition set_client :: "nat \<Rightarrow> client \<Rightarrow> task_system \<Rightarrow> task_system" where
  "set_client n c s = s\<lparr>sy_clients := (sy_clients s)(n := c)\<rparr>"

fun mentions :: "client \<Rightarrow> string \<Rightarrow> bool" where
  "mentions (CancelAdmitted _ i) k \<longleftrightarrow> i = k"
| "mentions (CancelMarked i) k \<longleftrightarrow> i = k"
| "mentions (UpdateAdmitted _ p) k \<longleftrightarrow> up_id p = k"
| "mentions (UpdateAnswered _ p) k \<longleftrightarrow> up_id p = k"
| "mentions NoRequest k \<longleftrightarrow> False"

text \<open>
  The UUID of a new task is new: no task has had it and no request that is under way names it.
\<close>

definition fresh_task_id :: "task_env \<Rightarrow> string \<Rightarrow> task_system \<Rightarrow> bool" where
  "fresh_task_id env i s \<longleftrightarrow> valid_task_id (te_uuid env) i \<and> sy_jobs s i = None \<and> (\<forall>n. \<not> mentions (sy_clients s n) i)"

definition system_starts ::
  "task_env \<Rightarrow> string \<Rightarrow> string \<Rightarrow> string \<Rightarrow> string \<Rightarrow> task_system \<Rightarrow> task_system" where
  "system_starts env i owner name args s =
     (case start_tool_task (te_uuid env) (te_codec env) (sy_now s) i owner name args (sy_store s) of
        (Inl _, st) \<Rightarrow> with_store st s
      | (Inr (_, _, confirm), st) \<Rightarrow>
          (with_store st s)\<lparr>sy_jobs := (sy_jobs s)(i \<mapsto>
             \<lparr> tj_tool = name, tj_args = args, tj_confirm = confirm, tj_pc = (if confirm then AskConfirm else CallTool) \<rparr>),
             sy_log := sy_log s @ [TaskStarted i owner name args]\<rparr>)"

definition client_marks :: "task_env \<Rightarrow> nat \<Rightarrow> string \<Rightarrow> task_system \<Rightarrow> task_system" where
  "client_marks env n i s =
     (case cancel_mark (te_uuid env) (sy_now s) i (sy_store s) of
        (ok, (already, _), st) \<Rightarrow>
          set_client n (if ok \<and> \<not> already then CancelMarked i else NoRequest) (with_store st s))"

definition client_takes :: "nat \<Rightarrow> string \<Rightarrow> task_system \<Rightarrow> task_system" where
  "client_takes n i s =
     (case take_cancel i (sy_store s) of
        (fn, st) \<Rightarrow>
          (set_client n NoRequest (with_store (signal_waiters i st) s))
            \<lparr>sy_firing := (if fn then insert i (sy_firing s) else sy_firing s)\<rparr>)"

definition client_answers :: "task_env \<Rightarrow> nat \<Rightarrow> string \<Rightarrow> update_params \<Rightarrow> task_system \<Rightarrow> task_system" where
  "client_answers env n actor p s =
     (if effective_responses p = [] then set_client n (UpdateAnswered actor p) s
      else case apply_input_responses (te_uuid env) (sy_now s) (up_id p) (effective_responses p) (sy_store s) of
        (Inl _, st) \<Rightarrow> set_client n NoRequest (with_store st s)
      | (Inr _, st) \<Rightarrow>
          (set_client n (UpdateAnswered actor p) (with_store st s))
            \<lparr>sy_log := sy_log s @ [Answered actor (up_id p) (effective_responses p)]\<rparr>)"

definition client_updates :: "task_env \<Rightarrow> nat \<Rightarrow> update_params \<Rightarrow> task_system \<Rightarrow> task_system" where
  "client_updates env n p s =
     set_client n NoRequest (with_store (snd (update_fields (te_uuid env) (sy_now s) p (sy_store s))) s)"

definition system_sweeps :: "task_system \<Rightarrow> task_system" where
  "system_sweeps s =
     (case expire_tasks (sy_now s) (sy_store s) of
        (fns, st) \<Rightarrow> (with_store st s)\<lparr>sy_firing := sy_firing s \<union> fns\<rparr>)"

inductive task_step :: "task_env \<Rightarrow> task_system \<Rightarrow> task_system \<Rightarrow> bool" for env where
  starts: "fresh_task_id env i s \<Longrightarrow> task_step env s (system_starts env i owner name args s)"
| works: "task_worker_step env i s s' \<Longrightarrow> task_step env s s'"
| cancel_admitted: "sy_clients s n = NoRequest \<Longrightarrow> cancel_admit (te_uuid env) actor i (sy_store s) = Inr () \<Longrightarrow>
     task_step env s (set_client n (CancelAdmitted actor i) s)"
| cancel_marks: "sy_clients s n = CancelAdmitted actor i \<Longrightarrow> task_step env s (client_marks env n i s)"
| cancel_takes: "sy_clients s n = CancelMarked i \<Longrightarrow> task_step env s (client_takes n i s)"
| update_admitted: "sy_clients s n = NoRequest \<Longrightarrow> update_admit (te_uuid env) actor params (sy_store s) = Inr p \<Longrightarrow>
     task_step env s (set_client n (UpdateAdmitted actor p) s)"
| update_answers: "sy_clients s n = UpdateAdmitted actor p \<Longrightarrow> task_step env s (client_answers env n actor p s)"
| update_sets: "sy_clients s n = UpdateAnswered actor p \<Longrightarrow> task_step env s (client_updates env n p s)"
| sweeps: "task_step env s (system_sweeps s)"
| fires: "i \<in> sy_firing s \<Longrightarrow>
     task_step env s (s\<lparr>sy_firing := sy_firing s - {i}, sy_cancelled := insert i (sy_cancelled s)\<rparr>)"
| time_passes: "0 \<le> d \<Longrightarrow> task_step env s (s\<lparr>sy_now := sy_now s + d\<rparr>)"

definition new_system :: "int \<times> int \<times> int \<Rightarrow> time \<Rightarrow> task_system" where
  "new_system cfg now =
     \<lparr> sy_store = new_task_store cfg, sy_now = now, sy_jobs = Map.empty, sy_cancelled = {}, sy_firing = {},
       sy_clients = (\<lambda>_. NoRequest), sy_log = [] \<rparr>"

inductive task_reach :: "task_env \<Rightarrow> int \<times> int \<times> int \<Rightarrow> task_system \<Rightarrow> bool" for env cfg where
  fresh: "task_reach env cfg (new_system cfg now)"
| step: "task_reach env cfg s \<Longrightarrow> task_step env s s' \<Longrightarrow> task_reach env cfg s'"

definition demo_id :: string where "demo_id = ''task_1''"

definition tasks_env :: task_env where
  "tasks_env =
     \<lparr> te_uuid = (\<lambda>_. True),
       te_codec = \<lparr> js_parse = (\<lambda>r. if r = ''c'' then Some (JObj [(''confirm'', JBool True)]) else None),
                    js_print = (\<lambda>_. ''p'') \<rparr>,
       te_quote = (\<lambda>x. x), te_json_quote = (\<lambda>x. x) \<rparr>"

definition demo_answer :: update_params where
  "demo_answer =
     \<lparr> up_id = demo_id, up_message = [], up_progress = 0,
       up_responses = [(''confirm'', \<lparr> is_action = ''accept'', is_content = [], is_error = [] \<rparr>)], up_input = [] \<rparr>"

definition demo_job :: "worker_pc \<Rightarrow> task_job" where
  "demo_job pc = \<lparr> tj_tool = ''run_command'', tj_args = ''c'', tj_confirm = True, tj_pc = pc \<rparr>"

definition demo0 :: task_system where "demo0 = new_system (task_store_config None None (Some 1)) 0"
definition demo1 :: task_system where "demo1 = system_starts tasks_env demo_id ''u'' ''run_command'' ''c'' demo0"
definition demo2 :: task_system where "demo2 = worker_asks tasks_env demo_id (demo_job AskConfirm) demo1"
definition demo3 :: task_system where "demo3 = set_client 0 (UpdateAdmitted ''u'' demo_answer) demo2"
definition demo4 :: task_system where "demo4 = client_answers tasks_env 0 ''u'' demo_answer demo3"
definition demo5 :: task_system where "demo5 = worker_polls tasks_env demo_id demo4"
definition demo6 :: task_system where "demo6 = worker_calls tasks_env demo_id (demo_job CallTool) demo5"

lemma demo_pcs:
  "sy_jobs demo1 demo_id = Some (demo_job AskConfirm)"
  "sy_jobs demo4 demo_id = Some (demo_job AwaitInput)"
  "sy_jobs demo5 demo_id = Some (demo_job CallTool)"
  by code_simp+

lemma demo_admitted:
  "update_admit (te_uuid tasks_env) ''u'' (Some demo_answer) (sy_store demo2) = Inr demo_answer"
  by code_simp

lemma demo_clients: "sy_clients demo2 0 = NoRequest" "sy_clients demo3 0 = UpdateAdmitted ''u'' demo_answer"
  by code_simp+

lemma demo_log:
  "sy_log demo6 =
     [TaskStarted demo_id ''u'' ''run_command'' ''c'', Answered ''u'' demo_id (up_responses demo_answer)] @
     ToolCalled demo_id ''run_command'' ''p'' # []"
  by code_simp

lemma demo_reach:
  "task_reach tasks_env (task_store_config None None (Some 1)) demo1"
  "task_reach tasks_env (task_store_config None None (Some 1)) demo6"
proof -
  have f: "fresh_task_id tasks_env demo_id demo0"
    by (simp add: fresh_task_id_def tasks_env_def demo_id_def demo0_def new_system_def valid_task_id_def has_prefix_def)
  have r0: "task_reach tasks_env (task_store_config None None (Some 1)) demo0" by (simp add: demo0_def fresh)
  show r1: "task_reach tasks_env (task_store_config None None (Some 1)) demo1"
    unfolding demo1_def by (rule step [OF r0 starts [OF f]])
  have r2: "task_reach tasks_env (task_store_config None None (Some 1)) demo2"
    unfolding demo2_def by (rule step [OF r1 works [OF asks [OF demo_pcs(1)]]]) (simp add: demo_job_def)
  have r3: "task_reach tasks_env (task_store_config None None (Some 1)) demo3"
    unfolding demo3_def by (rule step [OF r2 update_admitted [OF demo_clients(1) demo_admitted]])
  have r4: "task_reach tasks_env (task_store_config None None (Some 1)) demo4"
    unfolding demo4_def by (rule step [OF r3 update_answers [OF demo_clients(2)]])
  have r5: "task_reach tasks_env (task_store_config None None (Some 1)) demo5"
    unfolding demo5_def by (rule step [OF r4 works [OF polls [OF demo_pcs(2)]]]) (simp add: demo_job_def)
  show "task_reach tasks_env (task_store_config None None (Some 1)) demo6"
    unfolding demo6_def by (rule step [OF r5 works [OF calls [OF demo_pcs(3)]]]) (simp add: demo_job_def)
qed

text \<open>The same task left alone for three hours, and swept.\<close>

definition demo_old :: task_system where "demo_old = demo1\<lparr>sy_now := sy_now demo1 + 3 * 60 * 60 * 1000000\<rparr>"
definition demo_swept :: task_system where "demo_swept = system_sweeps demo_old"

definition demo_rec :: task_rec where
  "demo_rec = new_task 0 demo_id ''u'' ''run_command''"

lemma demo_find:
  "find_task (sy_store demo_old) demo_id = Some demo_rec"
  "find_task (sy_store demo_swept) demo_id = Some (timed_out (3 * 60 * 60 * 1000000) demo_rec)"
  by code_simp+

lemma demo_facts:
  "\<not> terminal demo_rec" "terminal (timed_out (3 * 60 * 60 * 1000000) demo_rec)"
  "t_created demo_rec < sy_now demo_old - ts_max_age (sy_store demo_old)" "0 \<le> ts_ttl (sy_store demo_old)"
  "demo_id \<in> sy_firing demo_swept"
  by code_simp+

lemma demo_late:
  "task_reach tasks_env (task_store_config None None (Some 1)) demo_old"
  "task_reach tasks_env (task_store_config None None (Some 1)) demo_swept"
proof -
  show o: "task_reach tasks_env (task_store_config None None (Some 1)) demo_old"
    unfolding demo_old_def by (rule step [OF demo_reach(1) time_passes]) simp
  show "task_reach tasks_env (task_store_config None None (Some 1)) demo_swept"
    unfolding demo_swept_def by (rule step [OF o sweeps])
qed

end
