(* ===== verification/TaskProps.thy ===== *)
theory TaskProps
  imports TaskSteps
begin

text \<open>
  What holds of the tasks whatever their goroutines, clients and the sweep do at the same time: how a
  record changes in one step, the form of the records, the cap on tasks in flight, finality of the
  end of a task, approval before a tool runs, and that sweeps bound the age of what is stored.
\<close>

named_theorems task_finds \<open>what the operations of the store do to a lookup\<close>

section \<open>Lookups\<close>

lemma find_set_task [task_finds]: "find_task (set_task i t s) k = (if k = i then Some t else find_task s k)"
  by (simp add: find_task_def set_task_def update_conv')

lemma find_simps [task_finds, simp]:
  "find_task (s\<lparr>ts_cancels := c\<rparr>) k = find_task s k"
  "find_task (register_waiter i s) k = find_task s k"
  "find_task (signal_waiters i s) k = find_task s k"
  "find_task (store_cancel i s) k = find_task s k"
  by (simp_all add: find_task_def register_waiter_def signal_waiters_def store_cancel_def)

lemma find_take_cancel [task_finds]:
  "find_task (snd (take_cancel i s)) k =
     (if k = i then map_option (\<lambda>t. t\<lparr>t_cancel := False\<rparr>) (find_task s i) else find_task s k)"
  by (simp add: take_cancel_def find_set_task split: option.splits)

definition updated_rec :: "time \<Rightarrow> 'v task_update \<Rightarrow> 'v \<Rightarrow> task_rec \<Rightarrow> task_rec" where
  "updated_rec now f v t = (case f t v of (c, t', v') \<Rightarrow> if c then t'\<lparr>t_updated := now\<rparr> else t')"

lemma find_update_task [task_finds]:
  "update_task uuid now i f v s = (ok, v', s') \<Longrightarrow>
     find_task s' k =
       (if ok \<and> k = i then map_option (updated_rec now f v) (find_task s i) else find_task s k)"
  by (auto simp: update_task_def updated_rec_def find_set_task split: if_splits option.splits prod.splits)

lemma update_task_ok:
  "update_task uuid now i f v s = (ok, v', s') \<Longrightarrow>
     ok \<longleftrightarrow> valid_task_id uuid i \<and> find_task s i \<noteq> None"
  by (auto simp: update_task_def split: if_splits option.splits prod.splits)

lemma find_put_task [task_finds]:
  "put_task uuid t s = Inr s' \<Longrightarrow> find_task s' k = (if k = t_id t then Some t else find_task s k)"
  by (auto simp: put_task_def find_set_task Let_def split: if_splits)

lemma updated_noting_end:
  "updated_rec now (noting_end f) (v, b) t = updated_rec now f v t"
  by (auto simp: updated_rec_def noting_end_def split: prod.splits)

section \<open>Distinct ids\<close>

definition distinct_ids :: "task_store \<Rightarrow> bool" where
  "distinct_ids s \<longleftrightarrow> distinct (map fst (ts_tasks s))"

lemma distinct_set_task [inv_intros]: "distinct_ids s \<Longrightarrow> distinct_ids (set_task i t s)"
  by (simp add: distinct_ids_def set_task_def distinct_update)

lemma distinct_simps [simp]:
  "distinct_ids (s\<lparr>ts_cancels := c\<rparr>) = distinct_ids s"
  "distinct_ids (register_waiter i s) = distinct_ids s"
  "distinct_ids (signal_waiters i s) = distinct_ids s"
  "distinct_ids (store_cancel i s) = distinct_ids s"
  by (simp_all add: distinct_ids_def register_waiter_def signal_waiters_def store_cancel_def)

lemma distinct_take_cancel [inv_intros]: "distinct_ids s \<Longrightarrow> distinct_ids (snd (take_cancel i s))"
  by (simp add: take_cancel_def distinct_set_task split: option.splits)

lemma distinct_update_task [inv_intros]:
  "update_task uuid now i f v s = (ok, v', s') \<Longrightarrow> distinct_ids s \<Longrightarrow> distinct_ids s'"
  by (auto simp: update_task_def distinct_set_task split: if_splits option.splits prod.splits)

lemma distinct_put_task [inv_intros]: "put_task uuid t s = Inr s' \<Longrightarrow> distinct_ids s \<Longrightarrow> distinct_ids s'"
  by (auto simp: put_task_def distinct_set_task Let_def split: if_splits)

lemma map_of_filter_distinct:
  "distinct (map fst xs) \<Longrightarrow>
     map_of (filter (\<lambda>(k, x). P k x) xs) k = (case map_of xs k of Some x \<Rightarrow> if P k x then Some x else None | None \<Rightarrow> None)"
proof (induction xs)
  case (Cons a xs)
  then have "map_of xs (fst a) = None" by (simp add: map_of_eq_None_iff)
  with Cons show ?case by (cases a) (auto split: option.splits)
qed simp

lemma map_of_expire_one:
  "map_of (map (expire_one s now) xs) k = map_option (\<lambda>t. if too_old s now t then timed_out now t else t) (map_of xs k)"
  by (induction xs) (auto simp: expire_one_def)

lemma fst_expire_one: "map fst (map (expire_one s now) xs) = map fst xs"
  by (induction xs) (auto simp: expire_one_def)

lemma expire_tasks_list:
  "expire_tasks now s = (fns, s') \<Longrightarrow>
     ts_tasks s' = filter (\<lambda>(i, t). \<not> evictable s now t) (map (expire_one s now) (ts_tasks s))"
  by (auto simp: expire_tasks_def Let_def)

lemma find_expire [task_finds]:
  assumes e: "expire_tasks now s = (fns, s')" and d: "distinct_ids s"
  shows "find_task s' k =
    (case find_task s k of
       None \<Rightarrow> None
     | Some t \<Rightarrow> let t1 = (if too_old s now t then timed_out now t else t) in if evictable s now t1 then None else Some t1)"
proof -
  have "distinct (map fst (map (expire_one s now) (ts_tasks s)))"
    unfolding fst_expire_one using d by (simp add: distinct_ids_def)
  from map_of_filter_distinct [OF this, of "\<lambda>_ t. \<not> evictable s now t" k]
  show ?thesis
    unfolding find_task_def expire_tasks_list [OF e] map_of_expire_one
    by (auto simp: Let_def split: option.splits)
qed

lemma distinct_expire [inv_intros]:
  assumes e: "expire_tasks now s = (fns, s')" and d: "distinct_ids s"
  shows "distinct_ids s'"
proof -
  have "distinct (map fst (map (expire_one s now) (ts_tasks s)))"
    unfolding fst_expire_one using d by (simp add: distinct_ids_def)
  then show ?thesis
    unfolding distinct_ids_def expire_tasks_list [OF e] by (rule distinct_map_filter)
qed

section \<open>How a record changes in one step\<close>

inductive task_move :: "task_env \<Rightarrow> task_system \<Rightarrow> task_system \<Rightarrow> string \<Rightarrow> task_rec \<Rightarrow> task_rec \<Rightarrow> bool" for env s s' i where
  same: "task_move env s s' i t t"
| detached: "(\<exists>n. sy_clients s n = CancelMarked i) \<or> (\<exists>j. sy_jobs s i = Some j \<and> tj_pc j = Deferred) \<Longrightarrow>
     task_move env s s' i t (t\<lparr>t_cancel := False\<rparr>)"
| ended: "\<not> terminal t \<Longrightarrow> terminal_status st \<Longrightarrow> st = TCompleted \<longrightarrow> res \<noteq> None \<Longrightarrow> length msg \<le> 50 \<Longrightarrow>
     task_move env s s' i t
       ((end_task st err msg (sy_now s) (t\<lparr>t_result := res\<rparr>))\<lparr>t_updated := sy_now s, t_cancel := c\<rparr>)"
| asked: "sy_jobs s i = Some j \<Longrightarrow> tj_pc j = AskConfirm \<Longrightarrow> sy_jobs s' i = Some j' \<Longrightarrow> tj_pc j' \<noteq> AskConfirm \<Longrightarrow> \<not> terminal t \<Longrightarrow>
     task_move env s s' i t
       ((fold add_request (approval_elicitation (te_codec env) msg) t)
          \<lparr>t_status := TInputRequired, t_message := ''waiting for input'', t_updated := sy_now s\<rparr>)"
| answered: "sy_clients s n = UpdateAdmitted actor p \<Longrightarrow> up_id p = i \<Longrightarrow> \<not> terminal t \<Longrightarrow>
     Answered actor i (effective_responses p) \<in> set (sy_log s') \<Longrightarrow>
     task_move env s s' i t (updated_rec (sy_now s) (answering (effective_responses p)) v t)"
| fields_set: "sy_clients s n = UpdateAnswered actor p \<Longrightarrow> up_id p = i \<Longrightarrow> \<not> terminal t \<Longrightarrow>
     task_move env s s' i t (updated_rec (sy_now s) (updating p) v t)"

lemma updated_terminal:
  "terminal t \<Longrightarrow> updated_rec now (ending g) v t = t"
  "terminal t \<Longrightarrow> updated_rec now (answering resps) w t = t"
  "terminal t \<Longrightarrow> updated_rec now (updating p) b t = t"
  "terminal t \<Longrightarrow> updated_rec now (requesting reqs) b t = t"
  "terminal t \<Longrightarrow> updated_rec now (cancelling now') x t = t"
  by (auto simp: updated_rec_def ending_def answering_def updating_def requesting_def cancelling_def split: prod.splits)

lemma updated_ending: "\<not> terminal t \<Longrightarrow> updated_rec now (ending g) v t = (g t)\<lparr>t_updated := now\<rparr>"
  by (simp add: updated_rec_def ending_def)

lemma move_answered: "sy_clients s n = UpdateAdmitted actor p \<Longrightarrow> up_id p = i \<Longrightarrow>
     terminal t \<or> Answered actor i (effective_responses p) \<in> set (sy_log s') \<Longrightarrow>
     task_move env s s' i t (updated_rec (sy_now s) (answering (effective_responses p)) v t)"
  by (cases "terminal t") (auto simp: updated_terminal intro: task_move.intros)

lemma move_fields: "sy_clients s n = UpdateAnswered actor p \<Longrightarrow> up_id p = i \<Longrightarrow>
     task_move env s s' i t (updated_rec (sy_now s) (updating p) v t)"
  by (cases "terminal t") (auto simp: updated_terminal intro: task_move.intros)

lemma move_end:
  assumes "terminal_status st" "st = TCompleted \<longrightarrow> res \<noteq> None" "length msg \<le> 50"
  shows "task_move env s s' i t
    (if terminal t then t
     else (end_task st err msg (sy_now s) (t\<lparr>t_result := res\<rparr>))\<lparr>t_updated := sy_now s\<rparr>)"
proof (cases "terminal t")
  case False
  from ended [OF this assms, where c = "t_cancel t" and err = err and env = env and s = s and s' = s' and i = i] False show ?thesis
    by (simp add: end_task_def)
qed (simp add: same)

lemma move_plain_end:
  assumes "terminal_status st" "st \<noteq> TCompleted" "length msg \<le> 50"
  shows "task_move env s s' i t
    (if terminal t then t else (end_task st err msg (sy_now s) t)\<lparr>t_updated := sy_now s\<rparr>)"
proof -
  have eq: "t\<lparr>t_result := t_result t\<rparr> = t" by simp
  show ?thesis using move_end [of st "t_result t" msg env s s' i t err, unfolded eq] assms by blast
qed

text \<open>Updates that end the task.\<close>

lemma find_worker_ends:
  "find_task (sy_store (worker_ends env i g s)) k =
     (if k = i \<and> valid_task_id (te_uuid env) i
      then map_option (\<lambda>t. if terminal t then t else (g t)\<lparr>t_updated := sy_now s\<rparr>) (find_task (sy_store s) i)
      else find_task (sy_store s) k)"
proof -
  obtain ok v st where u: "update_task (te_uuid env) (sy_now s) i (noting_end (ending g)) ((), None) (sy_store s) = (ok, v, st)"
    by (metis prod_cases3)
  have "sy_store (worker_ends env i g s) = st"
    by (cases v) (simp add: worker_ends_def update_maybe_terminal_def u set_pc_def with_store_def)
  moreover have "updated_rec (sy_now s) (noting_end (ending g)) ((), None) t =
      (if terminal t then t else (g t)\<lparr>t_updated := sy_now s\<rparr>)" for t
    by (simp add: updated_noting_end updated_terminal updated_ending)
  ultimately show ?thesis
    using find_update_task [OF u, of k] update_task_ok [OF u] by (auto simp: option.map_comp cong: option.map_cong)
qed

lemma worker_ends_effect:
  assumes "find_task (sy_store (worker_ends env i g s)) k = Some t'"
    and "\<And>t. task_move env s s' i t (if terminal t then t else (g t)\<lparr>t_updated := sy_now s\<rparr>)"
  shows "\<exists>t. find_task (sy_store s) k = Some t \<and> task_move env s s' k t t'"
proof -
  consider t where "k = i" "find_task (sy_store s) k = Some t"
      "t' = (if terminal t then t else (g t)\<lparr>t_updated := sy_now s\<rparr>)"
    | "find_task (sy_store s) k = Some t'"
    using assms(1) by (auto simp: find_worker_ends split: if_splits)
  then show ?thesis using assms(2) same by cases auto
qed

lemma move_tool_end:
  "task_move env s s' i t
     (if terminal t then t else (tool_end jq (sy_now s) cancelled ans t)\<lparr>t_updated := sy_now s\<rparr>)"
proof (cases "cancelled \<or> (\<exists>e. ans = ToolErr e)")
  case True
  then show ?thesis
    using move_plain_end [of TCancelled "''cancelled''" env s s' i t "''cancelled''"]
      move_plain_end [of TFailed "''failed''" env s s' i t]
    by (auto simp: tool_end_def terminal_status_def)
next
  case False
  then obtain r where "ans = ToolReply r" "\<not> cancelled" by (cases ans) auto
  then show ?thesis
    using move_end [of TFailed "Some (truncate_task_result jq (tr_json r))" "''failed''" env s s' i t]
      move_end [of TCompleted "Some (truncate_task_result jq (tr_json r))" "''completed''" env s s' i t "t_error t"]
    by (auto simp: tool_end_def terminal_status_def Let_def split: list.split)
qed

text \<open>The other operations.\<close>

definition moves :: "task_env \<Rightarrow> task_system \<Rightarrow> task_system \<Rightarrow> task_store \<Rightarrow> bool" where
  "moves env s s' st \<longleftrightarrow>
     (\<forall>k t'. find_task st k = Some t' \<longrightarrow>
        (\<exists>t. find_task (sy_store s) k = Some t \<and> task_move env s s' k t t'))"

lemma moves_same [intro!]: "moves env s s' (sy_store s)"
  by (auto simp: moves_def intro: same)

lemma moves_finds: "(\<And>k. find_task st k = find_task (sy_store s) k) \<Longrightarrow> moves env s s' st"
  by (auto simp: moves_def intro: same)

lemma moves_update:
  assumes "update_task uuid now i f v (sy_store s) = (ok, v', st)"
    and "\<And>t. task_move env s s' i t (updated_rec now f v t)"
  shows "moves env s s' st"
  using assms(2) by (auto simp: moves_def find_update_task [OF assms(1)] intro: same split: if_splits)

lemma moves_signal [simp]: "moves env s s' (signal_waiters i st) = moves env s s' st"
  by (simp add: moves_def)

lemma moves_worker_ends:
  "(\<And>t. task_move env s s' i t (if terminal t then t else (g t)\<lparr>t_updated := sy_now s\<rparr>)) \<Longrightarrow>
     moves env s s' (sy_store (worker_ends env i g s))"
  unfolding moves_def using worker_ends_effect by blast

lemma store_simps [simp]:
  "sy_store (with_store st s) = st" "sy_store (set_pc i pc s) = sy_store s" "sy_store (set_client n c s) = sy_store s"
  by (simp_all add: with_store_def set_pc_def set_client_def)

lemma moves_request:
  assumes "request_input (te_uuid env) (sy_now s) i (approval_elicitation (te_codec env) msg) (sy_store s) = (r, st)"
    and "sy_jobs s i = Some j" "tj_pc j = AskConfirm" "sy_jobs s' i = Some j'" "tj_pc j' \<noteq> AskConfirm"
  shows "moves env s s' st"
proof (cases "request_checks (te_uuid env) i (approval_elicitation (te_codec env) msg)")
  case (Inl e)
  then have "st = sy_store s" using assms(1) by (simp add: request_input_def)
  then show ?thesis by blast
next
  case (Inr x)
  obtain ok b st1 where u: "update_task (te_uuid env) (sy_now s) i (requesting (approval_elicitation (te_codec env) msg)) False (sy_store s) = (ok, b, st1)"
    by (metis prod_cases3)
  have "task_move env s s' i t (updated_rec (sy_now s) (requesting (approval_elicitation (te_codec env) msg)) False t)" for t
  proof (cases "terminal t")
    case False
    then have "updated_rec (sy_now s) (requesting (approval_elicitation (te_codec env) msg)) False t =
        (fold add_request (approval_elicitation (te_codec env) msg) t)
          \<lparr>t_status := TInputRequired, t_message := ''waiting for input'', t_updated := sy_now s\<rparr>"
      by (auto simp: updated_rec_def requesting_def Let_def terminal_def terminal_status_def)
    with asked [of s i j s' j' t env msg, OF assms(2-5) False] show ?thesis by simp
  qed (simp add: updated_terminal same)
  from moves_update [OF u this] show ?thesis
    using assms(1) Inr u by (auto simp: request_input_def split: if_splits)
qed

lemma moves_cancel_mark:
  assumes "cancel_mark (te_uuid env) (sy_now s) i (sy_store s) = (ok, v, st)"
  shows "moves env s s' st"
proof -
  obtain v' where u: "update_task (te_uuid env) (sy_now s) i (noting_end (cancelling (sy_now s))) ((False, TWorking), None) (sy_store s) = (ok, v', st)"
    using assms by (auto simp: cancel_mark_def update_maybe_terminal_def split: prod.splits)
  have "task_move env s s' i t (updated_rec (sy_now s) (noting_end (cancelling (sy_now s))) ((False, TWorking), None) t)" for t
  proof -
    have "updated_rec (sy_now s) (noting_end (cancelling (sy_now s))) ((False, TWorking), None) t =
        (if terminal t then t else (end_task TCancelled ''cancelled'' ''cancellation requested'' (sy_now s) t)\<lparr>t_updated := sy_now s\<rparr>)"
      unfolding updated_noting_end by (simp add: updated_rec_def cancelling_def)
    then show ?thesis
      using move_plain_end [of TCancelled "''cancellation requested''" env s s' i t "''cancelled''"]
      by (simp add: terminal_status_def del: if_split)
  qed
  from moves_update [OF u this] show ?thesis .
qed

lemma moves_answers:
  assumes a: "apply_input_responses (te_uuid env) (sy_now s) (up_id p) (effective_responses p) (sy_store s) = (r, st)"
    and c: "sy_clients s n = UpdateAdmitted actor p"
    and l: "\<And>x. r = Inr x \<Longrightarrow> Answered actor (up_id p) (effective_responses p) \<in> set (sy_log s')"
  shows "moves env s s' st"
proof (cases "response_checks (te_uuid env) (up_id p) (effective_responses p)")
  case (Inl e)
  then have "st = sy_store s" using a by (simp add: apply_input_responses_def)
  then show ?thesis by blast
next
  case (Inr x)
  let ?f = "answering (effective_responses p) :: (bool \<times> bool) task_update"
  obtain ok b d st1 where u: "update_task (te_uuid env) (sy_now s) (up_id p) ?f (False, False) (sy_store s) = (ok, (b, d), st1)"
    by (metis prod_cases3 surj_pair)
  have st: "find_task st k = find_task st1 k" for k
    using a Inr u by (auto simp: apply_input_responses_def split: if_splits)
  have "terminal t \<or> Answered actor (up_id p) (effective_responses p) \<in> set (sy_log s')"
    if "ok" "find_task (sy_store s) (up_id p) = Some t" for t
  proof (cases b)
    case True
    have "?f t (False, False) = (fst (?f t (False, False)), fst (snd (?f t (False, False))), (b, d))"
      using u that by (auto simp: update_task_def split: if_splits prod.splits)
    with True have "terminal t" by (auto simp: answering_def split: if_splits prod.splits)
    then show ?thesis ..
  next
    case False
    then show ?thesis using a Inr u that l by (auto simp: apply_input_responses_def split: if_splits)
  qed
  with move_answered [OF c refl] show ?thesis
    by (auto simp: moves_def st find_update_task [OF u] intro: same split: if_splits)
qed

lemma moves_fields:
  assumes "sy_clients s n = UpdateAnswered actor p"
  shows "moves env s s' (snd (update_fields (te_uuid env) (sy_now s) p (sy_store s)))"
proof -
  obtain ok b st where u: "update_task (te_uuid env) (sy_now s) (up_id p) (updating p) False (sy_store s) = (ok, b, st)"
    by (metis prod_cases3)
  from moves_update [OF u move_fields [OF assms refl]] show ?thesis using u by (simp add: update_fields_def)
qed

lemma moves_take_cancel:
  "(\<exists>n. sy_clients s n = CancelMarked i) \<or> (\<exists>j. sy_jobs s i = Some j \<and> tj_pc j = Deferred) \<Longrightarrow>
     moves env s s' (snd (take_cancel i (sy_store s)))"
  by (auto simp: moves_def find_take_cancel intro: same detached split: if_splits)

lemma moves_expire:
  assumes "expire_tasks (sy_now s) (sy_store s) = (fns, st)" "distinct_ids (sy_store s)"
  shows "moves env s s' st"
proof -
  have "task_move env s s' k t (timed_out (sy_now s) t)" if "too_old (sy_store s) (sy_now s) t" for k t
  proof -
    have "\<not> terminal t" using that by (simp add: too_old_def)
    from ended [OF this, where st = TFailed and res = "t_result t" and msg = "''timed out''" and env = env and s = s
        and s' = s' and i = k and err = "''task exceeded max age''" and c = False]
    show ?thesis by (simp add: timed_out_def end_task_def terminal_status_def)
  qed
  then show ?thesis
    by (auto simp: moves_def find_expire [OF assms] Let_def intro: same split: option.splits if_splits)
qed

lemma task_worker_step_moves: "task_worker_step env i s s' \<Longrightarrow> moves env s s' (sy_store s')"
proof (induction rule: task_worker_step.induct)
  case (asks s j)
  let ?r = "request_input (te_uuid env) (sy_now s) i
    (approval_elicitation (te_codec env) (''Approve running tool '' @ te_quote env (tj_tool j) @ ''?'')) (sy_store s)"
  have "\<exists>pc. worker_asks env i j s = set_pc i pc (with_store (snd ?r) s) \<and> pc \<noteq> AskConfirm"
    by (simp add: worker_asks_def Let_def split: prod.split sum.split) blast
  then obtain pc where "worker_asks env i j s = set_pc i pc (with_store (snd ?r) s)" "pc \<noteq> AskConfirm"
    by blast
  then have "sy_jobs (worker_asks env i j s) i = Some (j\<lparr>tj_pc := pc\<rparr>)" "sy_store (worker_asks env i j s) = snd ?r"
    using asks by (simp_all add: set_pc_def with_store_def)
  with moves_request [OF surjective_pairing asks, of "worker_asks env i j s"] \<open>pc \<noteq> AskConfirm\<close>
  show ?case by simp
next
  case (request_failed s j e)
  show ?case by (rule moves_worker_ends, rule move_plain_end) (simp_all add: terminal_status_def)
next
  case (polls s j)
  show ?case by (auto simp: worker_polls_def moves_def intro: same split: wait_result.splits)
next
  case (wait_failed s j e)
  show ?case
  proof (rule moves_worker_ends)
    show "task_move env s s1 i t (if terminal t then t else (TaskHandlers.wait_failed (sy_now s) (i \<in> sy_cancelled s) e t)\<lparr>t_updated := sy_now s\<rparr>)" for s1 t
      using move_plain_end [of TCancelled "''cancelled''" env s s1 i t "''cancelled''"]
        move_plain_end [of TFailed "''failed while waiting for input''" env s s1 i t e]
      by (auto simp: wait_failed_def terminal_status_def)
  qed
next
  case (declined s j)
  show ?case by (rule moves_worker_ends, rule move_plain_end) (simp_all add: terminal_status_def)
next
  case (records s j ans)
  show ?case by (rule moves_worker_ends, rule move_tool_end)
next
  case (leaves s j)
  have "moves env s s' (snd (take_cancel i (signal_waiters i (sy_store s))))" for s'
    using leaves by (auto simp: moves_def find_take_cancel intro: same detached split: if_splits)
  then show ?case by (simp add: worker_leaves_def)
qed (auto simp: worker_calls_def)

theorem task_step_moves:
  assumes "task_step env s s'" "distinct_ids (sy_store s)" "find_task (sy_store s') k = Some t'"
  shows "(\<exists>t. find_task (sy_store s) k = Some t \<and> task_move env s s' k t t') \<or>
    (\<exists>owner name args. fresh_task_id env k s \<and> s' = system_starts env k owner name args s \<and>
       t' = new_task (sy_now s) k owner name \<and> sy_jobs s' k \<noteq> None)"
  using assms
proof (induction rule: task_step.induct)
  case (starts i s owner name args)
  show ?case
  proof (cases "put_task (te_uuid env) (new_task (sy_now s) i owner name) (sy_store s)")
    case (Inl e)
    then have "sy_store (system_starts env i owner name args s) = sy_store s"
      by (cases e) (simp_all add: system_starts_def start_tool_task_def)
    with starts show ?thesis by (auto intro: same)
  next
    case (Inr st)
    then have "find_task (sy_store (system_starts env i owner name args s)) k =
        (if k = i then Some (new_task (sy_now s) i owner name) else find_task (sy_store s) k)"
      and j: "sy_jobs (system_starts env i owner name args s) i \<noteq> None"
      using find_put_task [OF Inr, of k]
      by (simp_all add: system_starts_def start_tool_task_def new_task_def with_store_def)
    with starts show ?thesis by (cases "k = i") (auto intro: same)
  qed
next
  case (works i s s')
  with task_worker_step_moves show ?case by (auto simp: moves_def)
next
  case (cancel_marks s n actor i)
  then show ?case using moves_cancel_mark [of env s i] by (auto simp: client_marks_def moves_def split: prod.splits)
next
  case (cancel_takes s n i)
  have "sy_store (client_takes n i s) = signal_waiters i (snd (take_cancel i (sy_store s)))"
    by (simp add: client_takes_def split: prod.split)
  then have "moves env s (client_takes n i s) (sy_store (client_takes n i s))"
    using moves_take_cancel [of s i] cancel_takes(1) by auto
  with cancel_takes show ?case by (auto simp: moves_def)
next
  case (update_answers s n actor p)
  then have "moves env s (client_answers env n actor p s) (sy_store (client_answers env n actor p s))"
    using moves_answers [of env s p] by (auto simp: client_answers_def split: prod.splits sum.splits)
  with update_answers show ?case by (auto simp: moves_def)
next
  case (update_sets s n actor p)
  then show ?case using moves_fields [of s n actor p] by (auto simp: client_updates_def moves_def)
next
  case (sweeps s)
  then show ?case using moves_expire by (auto simp: system_sweeps_def moves_def split: prod.splits)
qed (auto intro: same)

end
