(* ===== verification/TaskRuns.thy ===== *)
theory TaskRuns
  imports TaskProps
begin

text \<open>
  Invariants of the concurrent runs of \<open>TaskSteps\<close>, built on how one step changes a record
  (\<open>TaskProps\<close>), and the properties of tasks.
\<close>

section \<open>The form of a record\<close>

definition inputs_ok :: "task_rec \<Rightarrow> bool" where
  "inputs_ok t \<longleftrightarrow>
     distinct (map fst (t_requests t)) \<and>
     fst ` set (t_requests t) \<union> fst ` set (t_responses t) = set (t_used t) \<and>
     fst ` set (t_requests t) \<inter> fst ` set (t_responses t) = {}"

definition status_ok :: "task_rec \<Rightarrow> bool" where
  "status_ok t \<longleftrightarrow>
     (t_status t = TInputRequired \<longleftrightarrow> \<not> terminal t \<and> t_requests t \<noteq> []) \<and>
     (terminal t \<longleftrightarrow> t_finished t \<noteq> None) \<and>
     (terminal t \<longrightarrow> t_progress t = 1) \<and>
     (t_status t = TCompleted \<longrightarrow> t_result t \<noteq> None)"

definition bounds_ok :: "time \<Rightarrow> task_rec \<Rightarrow> bool" where
  "bounds_ok now t \<longleftrightarrow>
     0 \<le> t_progress t \<and> t_progress t \<le> 1 \<and> rune_count (t_message t) \<le> max_task_message_runes \<and>
     t_created t \<le> t_updated t \<and> t_updated t \<le> now \<and>
     (\<forall>e. t_finished t = Some e \<longrightarrow> t_created t \<le> e \<and> e \<le> now)"

definition task_ok :: "time \<Rightarrow> string \<Rightarrow> task_rec \<Rightarrow> bool" where
  "task_ok now i t \<longleftrightarrow> t_id t = i \<and> inputs_ok t \<and> status_ok t \<and> bounds_ok now t"

lemma terminal_simps [simp]:
  "terminal (t\<lparr>t_updated := u\<rparr>) = terminal t"
  "terminal (t\<lparr>t_cancel := c\<rparr>) = terminal t"
  "terminal (t\<lparr>t_message := m\<rparr>) = terminal t"
  "terminal (t\<lparr>t_progress := p\<rparr>) = terminal t"
  "terminal (t\<lparr>t_status := st\<rparr>) = terminal_status st"
  "terminal (end_task st err msg now t) = terminal_status st"
  by (simp_all add: terminal_def end_task_def)

lemma terminal_status_simps [simp]:
  "terminal_status TCompleted" "terminal_status TFailed" "terminal_status TCancelled"
  "\<not> terminal_status TWorking" "\<not> terminal_status TInputRequired"
  by (simp_all add: terminal_status_def)

lemma terminal_not_waiting: "terminal_status st \<Longrightarrow> st \<noteq> TInputRequired"
  by auto

lemma short_message: "length m \<le> 50 \<Longrightarrow> rune_count m \<le> max_task_message_runes"
  using rune_count_le_length [of m] by (simp add: max_task_message_runes_def)

lemma task_ok_later: "task_ok now i t \<Longrightarrow> now \<le> now' \<Longrightarrow> task_ok now' i t"
  by (fastforce simp: task_ok_def bounds_ok_def)

lemma task_ok_detached: "task_ok now i t \<Longrightarrow> task_ok now i (t\<lparr>t_cancel := False\<rparr>)"
  by (simp add: task_ok_def bounds_ok_def status_ok_def inputs_ok_def)

lemma new_task_ok: "task_ok now i (new_task now i owner name)"
  using rune_count_le_length [of "''started''"]
  by (simp add: task_ok_def bounds_ok_def status_ok_def inputs_ok_def new_task_def terminal_def max_task_message_runes_def)

lemma ended_ok:
  assumes "task_ok now i t" "\<not> terminal t" "terminal_status st" "st = TCompleted \<longrightarrow> res \<noteq> None" "length msg \<le> 50"
  shows "task_ok now i ((end_task st err msg now (t\<lparr>t_result := res\<rparr>))\<lparr>t_updated := now, t_cancel := c\<rparr>)"
  using assms short_message [OF assms(5)] terminal_not_waiting [OF assms(3)]
  by (auto simp: task_ok_def bounds_ok_def status_ok_def inputs_ok_def end_task_def terminal_def)

text \<open>The single request of the server.\<close>

lemma add_approval:
  "t_used t = [] \<Longrightarrow> t_requests t = [] \<Longrightarrow>
     \<exists>r. fold add_request (approval_elicitation cd msg) t =
       t\<lparr>t_requests := [(task_confirm_key, r)], t_used := [task_confirm_key]\<rparr>"
  by (rule exI [of _ "snd (hd (approval_elicitation cd msg))"]) (simp add: approval_elicitation_def add_request_def)

lemma asked_ok:
  assumes "task_ok now i t" "t_used t = []" "\<not> terminal t"
  shows "task_ok now i
    ((fold add_request (approval_elicitation cd msg) t)
       \<lparr>t_status := TInputRequired, t_message := ''waiting for input'', t_updated := now\<rparr>)"
proof -
  have io: "t_requests t = []" "t_responses t = []"
    using assms(1,2) by (auto simp: task_ok_def inputs_ok_def)
  then obtain r where "fold add_request (approval_elicitation cd msg) t =
       t\<lparr>t_requests := [(task_confirm_key, r)], t_used := [task_confirm_key]\<rparr>"
    using add_approval [OF assms(2), of cd msg] by blast
  then show ?thesis
    using assms io short_message [of "''waiting for input''"]
    by (auto simp: task_ok_def bounds_ok_def status_ok_def inputs_ok_def)
qed

text \<open>Answers to outstanding requests.\<close>

lemma fst_delete: "fst ` set (AList.delete k al) = fst ` set al - {k}"
  by (auto simp: AList.delete_eq image_iff)

lemma fst_update: "fst ` set (AList.update k v al) = insert k (fst ` set al)"
  by (simp add: AList.dom_update)

lemma take_response_keeps:
  assumes "take_response (k, r) (t, b) = (t', b')" "inputs_ok t"
  shows "inputs_ok t'" "t' = t\<lparr>t_responses := t_responses t', t_requests := t_requests t'\<rparr>"
    "\<not> b' \<Longrightarrow> t' = t \<and> \<not> b"
    "map_of (t_responses t') k' = Some r' \<Longrightarrow> map_of (t_responses t) k' = Some r' \<or> k' = k \<and> r' = r \<and> k \<in> fst ` set (t_requests t)"
    "fst ` set (t_requests t') = fst ` set (t_requests t) - {k}"
proof -
  consider "map_of (t_requests t) k = None" "t' = t" "b' = b"
    | "map_of (t_requests t) k \<noteq> None" "b'"
      "t' = t\<lparr>t_responses := AList.update k r (t_responses t), t_requests := AList.delete k (t_requests t)\<rparr>"
    using assms(1) by (auto simp: take_response_def split: if_splits)
  then have "inputs_ok t' \<and> t' = t\<lparr>t_responses := t_responses t', t_requests := t_requests t'\<rparr> \<and>
    (\<not> b' \<longrightarrow> t' = t \<and> \<not> b) \<and>
    (map_of (t_responses t') k' = Some r' \<longrightarrow> map_of (t_responses t) k' = Some r' \<or> k' = k \<and> r' = r \<and> k \<in> fst ` set (t_requests t)) \<and>
    fst ` set (t_requests t') = fst ` set (t_requests t) - {k}"
  proof cases
    case 1
    then show ?thesis using assms(2) by (auto simp: map_of_eq_None_iff)
  next
    case 2
    then have "k \<in> fst ` set (t_requests t)" by (metis map_of_eq_None_iff)
    with 2 assms(2) show ?thesis
      by (auto simp: inputs_ok_def fst_delete fst_update AList.distinct_delete update_conv' split: if_splits)
  qed
  then show "inputs_ok t'" "t' = t\<lparr>t_responses := t_responses t', t_requests := t_requests t'\<rparr>"
    "\<not> b' \<Longrightarrow> t' = t \<and> \<not> b"
    "map_of (t_responses t') k' = Some r' \<Longrightarrow> map_of (t_responses t) k' = Some r' \<or> k' = k \<and> r' = r \<and> k \<in> fst ` set (t_requests t)"
    "fst ` set (t_requests t') = fst ` set (t_requests t) - {k}"
    by blast+
qed

lemma fold_take_response:
  assumes "fold take_response resps (t, b) = (t', b')" "inputs_ok t"
  shows "inputs_ok t' \<and> t' = t\<lparr>t_responses := t_responses t', t_requests := t_requests t'\<rparr> \<and>
    (\<not> b' \<longrightarrow> t' = t \<and> \<not> b) \<and>
    (\<forall>k r. map_of (t_responses t') k = Some r \<longrightarrow> map_of (t_responses t) k = Some r \<or>
       map_of resps k = Some r \<and> k \<in> fst ` set (t_requests t))"
  using assms
proof (induction resps arbitrary: t b)
  case (Cons kr resps)
  obtain k r where kr: "kr = (k, r)" by (cases kr)
  obtain t1 b1 where one: "take_response (k, r) (t, b) = (t1, b1)" by fastforce
  note k1 = take_response_keeps [OF one Cons.prems(2)]
  have "fold take_response resps (t1, b1) = (t', b')" using Cons.prems(1) one kr by simp
  from Cons.IH [OF this k1(1)] have i: "inputs_ok t'" "t' = t1\<lparr>t_responses := t_responses t', t_requests := t_requests t'\<rparr>"
    "\<not> b' \<longrightarrow> t' = t1 \<and> \<not> b1"
    "map_of (t_responses t') k' = Some r' \<Longrightarrow> map_of (t_responses t1) k' = Some r' \<or> map_of resps k' = Some r' \<and> k' \<in> fst ` set (t_requests t1)"
    for k' r' by blast+
  have "t' = t\<lparr>t_responses := t_responses t', t_requests := t_requests t'\<rparr>"
    by (subst i(2), subst k1(2)) simp
  moreover have "map_of (t_responses t) k' = Some r' \<or> map_of (kr # resps) k' = Some r' \<and> k' \<in> fst ` set (t_requests t)"
    if "map_of (t_responses t') k' = Some r'" for k' r'
    using i(4) [OF that] k1(4) [of k' r'] kr unfolding k1(5) by (auto split: if_splits)
  ultimately show ?case using i k1(3) by blast
qed auto

lemma answered_cases:
  assumes "\<not> terminal t" "inputs_ok t"
  obtains (ignored) "updated_rec now (answering resps) v t = t"
  | (taken) t1 st msg where "t_status t = TInputRequired" "t_requests t \<noteq> []" "inputs_ok t1"
      "t1 = t\<lparr>t_responses := t_responses t1, t_requests := t_requests t1\<rparr>"
      "\<And>k r. map_of (t_responses t1) k = Some r \<Longrightarrow> map_of (t_responses t) k = Some r \<or>
         map_of resps k = Some r \<and> k \<in> fst ` set (t_requests t)"
      "st = (if t_requests t1 = [] then TWorking else TInputRequired)" "length msg \<le> 50"
      "updated_rec now (answering resps) v t = t1\<lparr>t_status := st, t_message := msg, t_updated := now\<rparr>"
proof (cases "t_status t \<noteq> TInputRequired \<or> t_requests t = []")
  case True
  then have "updated_rec now (answering resps) v t = t"
    using assms by (auto simp: updated_rec_def answering_def split: prod.split)
  then show ?thesis by (rule ignored)
next
  case False
  then have w: "t_status t = TInputRequired" "t_requests t \<noteq> []" by auto
  obtain t1 b where f: "fold take_response resps (t, False) = (t1, b)" by fastforce
  note k = fold_take_response [OF f assms(2)]
  then have eq: "t1 = t\<lparr>t_responses := t_responses t1, t_requests := t_requests t1\<rparr>" by blast
  have st: "t_status t1 = TInputRequired" using arg_cong [OF eq, of t_status] w by simp
  have u: "updated_rec now (answering resps) v t =
      (if b then t1\<lparr>t_status := (if t_requests t1 = [] then TWorking else TInputRequired),
         t_message := (if t_requests t1 = [] then ''input received'' else ''waiting for remaining input''),
         t_updated := now\<rparr> else t1)"
    using f w assms(1) st by (cases t1) (simp add: updated_rec_def answering_def split: prod.split)
  show ?thesis
  proof (cases b)
    case True
    show ?thesis
      by (rule taken [of t1 _ "if t_requests t1 = [] then ''input received'' else ''waiting for remaining input''"])
        (use w k u True eq in auto)
  next
    case False
    with k u ignored show ?thesis by auto
  qed
qed

lemma answered_ok:
  assumes "task_ok now i t" "\<not> terminal t"
  shows "task_ok now i (updated_rec now (answering resps) v t)"
proof -
  have "inputs_ok t" using assms by (simp add: task_ok_def)
  from assms(2) this show ?thesis
  proof (cases rule: answered_cases [of t now resps v])
    case ignored
    then show ?thesis using assms by simp
  next
    case (taken t1 st msg)
    note s = arg_cong [OF taken(4), of t_id] arg_cong [OF taken(4), of t_finished] arg_cong [OF taken(4), of t_created]
      arg_cong [OF taken(4), of t_progress] arg_cong [OF taken(4), of t_updated]
    show ?thesis
      using assms taken(3,6) s short_message [OF taken(7)] unfolding taken(8)
      by (auto simp: task_ok_def bounds_ok_def status_ok_def inputs_ok_def terminal_def)
  qed
qed

lemma fields_ok:
  assumes "task_ok now i t" "\<not> terminal t" "rune_count (up_message p) \<le> max_task_message_runes"
  shows "task_ok now i (updated_rec now (updating p) v t)"
proof -
  have "task_ok now i (t\<lparr>t_message := m, t_progress := pr, t_updated := u\<rparr>)"
    if "rune_count m \<le> max_task_message_runes" "0 \<le> pr" "pr \<le> 1" "u = now \<or> u = t_updated t" for m pr u
    using assms(1,2) that by (auto simp: task_ok_def bounds_ok_def status_ok_def inputs_ok_def terminal_def)
  note ok = this [of "t_message (updated_rec now (updating p) v t)" "t_progress (updated_rec now (updating p) v t)"
      "t_updated (updated_rec now (updating p) v t)"]
  have t: "rune_count (t_message t) \<le> max_task_message_runes" "0 \<le> t_progress t" "t_progress t \<le> 1"
    using assms(1) by (simp_all add: task_ok_def bounds_ok_def)
  have eq: "updated_rec now (updating p) v t =
      t\<lparr>t_message := t_message (updated_rec now (updating p) v t),
        t_progress := t_progress (updated_rec now (updating p) v t),
        t_updated := t_updated (updated_rec now (updating p) v t)\<rparr>"
    using assms(2) by (simp add: updated_rec_def updating_def Let_def)
  show ?thesis
    by (subst eq, rule ok) (use assms t in \<open>auto simp: updated_rec_def updating_def Let_def clamp_task_message_def\<close>)
qed

section \<open>Records stay well formed\<close>

definition ask_ok :: "task_system \<Rightarrow> bool" where
  "ask_ok s \<longleftrightarrow> (\<forall>k t j. find_task (sy_store s) k = Some t \<longrightarrow> sy_jobs s k = Some j \<longrightarrow> tj_pc j = AskConfirm \<longrightarrow> t_used t = [])"

definition message_ok :: "client \<Rightarrow> bool" where
  "message_ok c \<longleftrightarrow>
     (case c of
        UpdateAdmitted _ p \<Rightarrow> rune_count (up_message p) \<le> max_task_message_runes
      | UpdateAnswered _ p \<Rightarrow> rune_count (up_message p) \<le> max_task_message_runes
      | _ \<Rightarrow> True)"

definition records_ok :: "task_system \<Rightarrow> bool" where
  "records_ok s \<longleftrightarrow>
     distinct_ids (sy_store s) \<and>
     (\<forall>k t. find_task (sy_store s) k = Some t \<longrightarrow> task_ok (sy_now s) k t \<and> sy_jobs s k \<noteq> None) \<and>
     ask_ok s \<and> (\<forall>n. message_ok (sy_clients s n))"

lemma move_ok:
  assumes "task_move env s s' k t t'" "records_ok s" "find_task (sy_store s) k = Some t"
  shows "task_ok (sy_now s) k t'"
proof -
  have ok: "task_ok (sy_now s) k t" using assms(2,3) by (simp add: records_ok_def)
  from assms(1) show ?thesis
  proof cases
    case (asked j j' msg)
    then have "t_used t = []" using assms(2,3) by (simp add: records_ok_def ask_ok_def)
    with asked ok show ?thesis by (simp add: asked_ok)
  next
    case (fields_set n actor p v)
    then have "message_ok (UpdateAnswered actor p)" using assms(2) by (metis records_ok_def)
    with fields_set ok show ?thesis by (simp add: fields_ok message_ok_def)
  qed (use ok in \<open>simp_all add: task_ok_detached ended_ok answered_ok\<close>)
qed

text \<open>Jobs keep what they were started with; only their own goroutine moves them on.\<close>

definition same_job :: "task_job \<Rightarrow> task_job \<Rightarrow> bool" where
  "same_job j j' \<longleftrightarrow> tj_tool j' = tj_tool j \<and> tj_args j' = tj_args j \<and> tj_confirm j' = tj_confirm j"

lemma set_pc_jobs: "sy_jobs s i = Some j \<Longrightarrow> sy_jobs (set_pc i pc s) = (sy_jobs s)(i \<mapsto> j\<lparr>tj_pc := pc\<rparr>)"
  by (simp add: set_pc_def)

lemma system_simps [simp]:
  "sy_now (set_pc i pc s) = sy_now s" "sy_now (with_store st s) = sy_now s" "sy_now (set_client n c s) = sy_now s"
  "sy_jobs (with_store st s) = sy_jobs s" "sy_jobs (set_client n c s) = sy_jobs s"
  "sy_clients (with_store st s) = sy_clients s" "sy_clients (set_pc i pc s) = sy_clients s"
  "sy_clients (set_client n c s) = (sy_clients s)(n := c)"
  "sy_log (with_store st s) = sy_log s" "sy_log (set_pc i pc s) = sy_log s" "sy_log (set_client n c s) = sy_log s"
  by (simp_all add: set_pc_def with_store_def set_client_def)

lemma worker_ends_simps [simp]:
  "sy_now (worker_ends env i g s) = sy_now s" "sy_clients (worker_ends env i g s) = sy_clients s"
  "sy_log (worker_ends env i g s) = sy_log s"
  "sy_jobs (worker_ends env i g s) = sy_jobs (set_pc i Deferred s)"
  by (simp_all add: worker_ends_def set_pc_def with_store_def split: prod.split)

lemma task_worker_step_jobs:
  assumes "task_worker_step env i s s'"
  obtains j pc where "sy_jobs s i = Some j" "sy_jobs s' = (sy_jobs s)(i \<mapsto> j\<lparr>tj_pc := pc\<rparr>)" "pc \<noteq> AskConfirm"
  using assms
proof (induction arbitrary: thesis rule: task_worker_step.induct)
  case (asks s j)
  have "\<exists>st pc. worker_asks env i j s = set_pc i pc (with_store st s) \<and> pc \<noteq> AskConfirm"
    by (simp add: worker_asks_def Let_def split: prod.split sum.split) blast
  then obtain st pc where "worker_asks env i j s = set_pc i pc (with_store st s)" "pc \<noteq> AskConfirm" by blast
  then show ?case using asks by (intro asks(3) [of j pc]) (simp_all add: set_pc_jobs)
next
  case (polls s j)
  have j: "j\<lparr>tj_pc := AwaitInput\<rparr> = j" using polls(2) by simp
  show ?case
  proof (cases "wait_check (te_uuid env) (te_quote env) i (sy_store s)")
    case WaitOn
    then show ?thesis
      using polls j by (intro polls(3) [of j AwaitInput]) (simp_all add: worker_polls_def fun_upd_idem)
  qed (use polls in \<open>auto simp: worker_polls_def set_pc_jobs intro!: polls(3)\<close>)
next
  case (calls s j)
  then show ?case by (intro calls(3) [of j Calling]) (simp_all add: worker_calls_def set_pc_jobs)
next
  case (leaves s j)
  then show ?case by (intro leaves(3) [of j Finished]) (simp_all add: worker_leaves_def set_pc_jobs)
qed (auto simp: set_pc_jobs)

lemma task_worker_step_simps:
  "task_worker_step env i s s' \<Longrightarrow> sy_now s' = sy_now s \<and> sy_clients s' = sy_clients s"
  by (induction rule: task_worker_step.induct)
    (auto simp: worker_asks_def worker_polls_def worker_calls_def worker_leaves_def Let_def split: prod.splits sum.splits wait_result.splits)

lemma start_store:
  "start_tool_task uuid cd now i owner name args st = (r, st') \<Longrightarrow>
     (\<exists>e. r = Inl e) \<and> st' = st \<or>
     (\<exists>st1. r = Inr (i, name, wants_confirm cd args) \<and> put_task uuid (new_task now i owner name) st = Inr st1 \<and>
        st' = store_cancel i st1)"
  by (auto simp: start_tool_task_def split: sum.splits put_error.splits)

text \<open>A start either leaves everything as it is or adds the job and the record.\<close>

lemma system_starts_cases:
  obtains (refused) "system_starts env i owner name args s = s"
  | (accepted) st where "put_task (te_uuid env) (new_task (sy_now s) i owner name) (sy_store s) = Inr st"
      "system_starts env i owner name args s = (with_store (store_cancel i st) s)
         \<lparr>sy_jobs := (sy_jobs s)(i \<mapsto> \<lparr> tj_tool = name, tj_args = args, tj_confirm = wants_confirm (te_codec env) args,
             tj_pc = (if wants_confirm (te_codec env) args then AskConfirm else CallTool) \<rparr>),
          sy_log := sy_log s @ [TaskStarted i owner name args]\<rparr>"
proof -
  obtain r st where st: "start_tool_task (te_uuid env) (te_codec env) (sy_now s) i owner name args (sy_store s) = (r, st)"
    by fastforce
  from start_store [OF st] show ?thesis
  proof (elim disjE exE conjE)
    fix e assume "r = Inl e" "st = sy_store s"
    then show ?thesis using st by (intro refused) (simp add: system_starts_def with_store_def)
  next
    fix st1 assume "r = Inr (i, name, wants_confirm (te_codec env) args)" "st = store_cancel i st1"
      "put_task (te_uuid env) (new_task (sy_now s) i owner name) (sy_store s) = Inr st1"
    then show ?thesis using st by (intro accepted) (simp_all add: system_starts_def)
  qed
qed

lemma task_step_jobs:
  assumes "task_step env s s'" "sy_jobs s' k = Some j'"
  shows "(\<exists>j. sy_jobs s k = Some j \<and> same_job j j' \<and> (tj_pc j' = AskConfirm \<longrightarrow> tj_pc j = AskConfirm)) \<or>
    (\<exists>owner name args. fresh_task_id env k s \<and> s' = system_starts env k owner name args s)"
  using assms
proof (induction rule: task_step.induct)
  case (starts i s owner name args)
  show ?case
  proof (cases "k = i")
    case True
    with starts(1) show ?thesis by blast
  next
    case False
    then show ?thesis
      using starts by (cases rule: system_starts_cases [of env i owner name args s]) (auto simp: same_job_def)
  qed
next
  case (works i s s')
  from works(1) obtain j pc where "sy_jobs s i = Some j" "sy_jobs s' = (sy_jobs s)(i \<mapsto> j\<lparr>tj_pc := pc\<rparr>)" "pc \<noteq> AskConfirm"
    by (rule task_worker_step_jobs)
  then show ?case using works(2) by (auto simp: same_job_def split: if_splits)
qed (auto simp: same_job_def client_marks_def client_takes_def client_answers_def client_updates_def system_sweeps_def
    split: prod.splits sum.splits if_splits)

lemma job_pc_step:
  assumes "task_step env s s'" "sy_jobs s k = Some j" "sy_jobs s' k = Some j'"
  shows "tj_pc j' = tj_pc j \<or> task_worker_step env k s s'"
  using assms
proof (induction rule: task_step.induct)
  case (starts i s owner name args)
  then show ?case
    by (cases rule: system_starts_cases [of env i owner name args s]) (auto simp: fresh_task_id_def split: if_splits)
next
  case (works i s s')
  from works(1) obtain j0 pc where "sy_jobs s' = (sy_jobs s)(i \<mapsto> j0\<lparr>tj_pc := pc\<rparr>)" by (rule task_worker_step_jobs)
  with works show ?case by (auto split: if_splits)
qed (auto simp: client_marks_def client_takes_def client_answers_def client_updates_def system_sweeps_def
    split: prod.splits sum.splits if_splits)

lemma jobs_stay: "task_step env s s' \<Longrightarrow> sy_jobs s k \<noteq> None \<Longrightarrow> sy_jobs s' k \<noteq> None"
proof (induction rule: task_step.induct)
  case (starts i s owner name args)
  then show ?case by (cases rule: system_starts_cases [of env i owner name args s]) auto
next
  case (works i s s')
  from works(1) obtain j pc where "sy_jobs s' = (sy_jobs s)(i \<mapsto> j\<lparr>tj_pc := pc\<rparr>)" by (rule task_worker_step_jobs)
  then show ?case using works by auto
qed (auto simp: client_marks_def client_takes_def client_answers_def client_updates_def system_sweeps_def
    split: prod.splits sum.splits if_splits)

lemma task_step_now: "task_step env s s' \<Longrightarrow> sy_now s \<le> sy_now s'"
proof (induction rule: task_step.induct)
  case (starts i s owner name args)
  then show ?case by (cases rule: system_starts_cases [of env i owner name args s]) auto
next
  case (works i s s')
  then show ?case by (simp add: task_worker_step_simps)
qed (auto simp: client_marks_def client_takes_def client_answers_def client_updates_def system_sweeps_def
    split: prod.splits sum.splits)

lemma distinct_cancel_mark: "cancel_mark uuid now i st = (ok, v, st') \<Longrightarrow> distinct_ids st \<Longrightarrow> distinct_ids st'"
  by (auto simp: cancel_mark_def update_maybe_terminal_def split: prod.splits intro: inv_intros)

lemma distinct_request: "request_input uuid now i reqs st = (r, st') \<Longrightarrow> distinct_ids st \<Longrightarrow> distinct_ids st'"
  by (auto simp: request_input_def split: prod.splits sum.splits if_splits intro: inv_intros)

lemma distinct_apply: "apply_input_responses uuid now i resps st = (r, st') \<Longrightarrow> distinct_ids st \<Longrightarrow> distinct_ids st'"
  by (auto simp: apply_input_responses_def split: prod.splits sum.splits if_splits intro: inv_intros)

lemma distinct_fields: "distinct_ids st \<Longrightarrow> distinct_ids (snd (update_fields uuid now p st))"
  by (auto simp: update_fields_def split: prod.splits intro: inv_intros)

lemma distinct_worker_ends: "distinct_ids (sy_store s) \<Longrightarrow> distinct_ids (sy_store (worker_ends env i g s))"
  by (auto simp: worker_ends_def update_maybe_terminal_def split: prod.splits intro: inv_intros)

lemma task_worker_step_distinct: "task_worker_step env i s s' \<Longrightarrow> distinct_ids (sy_store s) \<Longrightarrow> distinct_ids (sy_store s')"
proof (induction rule: task_worker_step.induct)
  case (asks s j)
  then show ?case
    by (auto simp: worker_asks_def Let_def split: prod.splits sum.splits intro: distinct_request)
next
  case (leaves s j)
  then show ?case by (simp add: worker_leaves_def distinct_take_cancel)
qed (auto simp: worker_polls_def worker_calls_def split: wait_result.splits intro: distinct_worker_ends)

lemma task_step_distinct: "task_step env s s' \<Longrightarrow> distinct_ids (sy_store s) \<Longrightarrow> distinct_ids (sy_store s')"
proof (induction rule: task_step.induct)
  case (starts i s owner name args)
  then show ?case
    by (cases rule: system_starts_cases [of env i owner name args s]) (auto intro: inv_intros)
next
  case (cancel_takes s n i)
  then show ?case
    using distinct_take_cancel by (auto simp: client_takes_def split: prod.split) (metis snd_conv)
next
  case (sweeps s)
  then show ?case by (auto simp: system_sweeps_def split: prod.split intro: inv_intros)
qed (auto simp: client_marks_def client_answers_def client_updates_def split: prod.splits sum.splits
    intro: task_worker_step_distinct distinct_cancel_mark distinct_apply distinct_fields)

lemma update_admit_cases:
  "update_admit uuid actor params st = Inr p \<Longrightarrow>
     params = Some p \<and> valid_task_id uuid (up_id p) \<and> rune_count (up_message p) \<le> max_task_message_runes \<and>
     (\<forall>t. find_task st (up_id p) = Some t \<longrightarrow> task_access t actor)"
  by (auto simp: update_admit_def rbind_eq_Inr authorize_if_found_def get_task_def authorize_task_access_def task_access_def
      split: option.splits if_splits)

lemma cancel_admit_cases:
  "cancel_admit uuid actor i st = Inr () \<Longrightarrow>
     valid_task_id uuid i \<and> (\<forall>t. find_task st i = Some t \<longrightarrow> task_access t actor)"
  by (auto simp: cancel_admit_def authorize_if_found_def get_task_def authorize_task_access_def task_access_def
      split: option.splits if_splits)

lemma task_step_message_ok:
  "task_step env s s' \<Longrightarrow> \<forall>n. message_ok (sy_clients s n) \<Longrightarrow> message_ok (sy_clients s' m)"
proof (induction rule: task_step.induct)
  case (starts i s owner name args)
  then show ?case by (cases rule: system_starts_cases [of env i owner name args s]) auto
next
  case (works i s s')
  then show ?case by (simp add: task_worker_step_simps)
next
  case (update_admitted s n actor params p)
  then show ?case using update_admit_cases [OF update_admitted(2)] by (simp add: message_ok_def)
next
  case (update_answers s n actor p)
  then have "message_ok (UpdateAdmitted actor p)" by metis
  then have "message_ok (UpdateAnswered actor p)" by (simp add: message_ok_def)
  with update_answers show ?case
    by (auto simp: client_answers_def message_ok_def split: prod.split sum.split)
qed (auto simp: client_marks_def client_takes_def client_updates_def system_sweeps_def message_ok_def
    split: prod.splits)

lemma move_used:
  assumes "task_move env s s' k t t'" "sy_jobs s' k = Some j" "tj_pc j = AskConfirm" "inputs_ok t"
  shows "t_used t' = t_used t"
  using assms(1)
proof cases
  case (answered n actor p v)
  note nt = answered(4)
  from nt assms(4) show ?thesis
  proof (cases rule: answered_cases [of t "sy_now s" "effective_responses p" v])
    case (taken t1 st msg)
    from arg_cong [OF taken(4), of t_used] show ?thesis using answered(1) taken(8) by simp
  qed (use answered in simp)
next
  case (fields_set n actor p v)
  then show ?thesis by (simp add: updated_rec_def updating_def Let_def)
qed (use assms in \<open>auto simp: end_task_def\<close>)

lemma move_terminal: "task_move env s s' k t t' \<Longrightarrow> terminal t \<Longrightarrow> t' = t \<or> t' = t\<lparr>t_cancel := False\<rparr>"
  by (induction rule: task_move.induct) auto

lemma records_ok_step:
  assumes "task_step env s s'" "records_ok s"
  shows "records_ok s'"
proof -
  have d: "distinct_ids (sy_store s)" using assms(2) by (simp add: records_ok_def)
  note moved = task_step_moves [OF assms(1) d]
  have old: "task_ok (sy_now s) k t \<and> sy_jobs s k \<noteq> None" if "find_task (sy_store s) k = Some t" for k t
    using assms(2) that by (simp add: records_ok_def)
  have "task_ok (sy_now s') k t' \<and> sy_jobs s' k \<noteq> None" if t': "find_task (sy_store s') k = Some t'" for k t'
    using moved [OF t']
  proof (elim disjE exE conjE)
    fix t assume t: "find_task (sy_store s) k = Some t" "task_move env s s' k t t'"
    have "sy_jobs s' k \<noteq> None" using jobs_stay [OF assms(1)] old [OF t(1)] by blast
    then show ?thesis
      using task_ok_later [OF move_ok [OF t(2) assms(2) t(1)] task_step_now [OF assms(1)]] by blast
  next
    fix owner name assume "t' = new_task (sy_now s) k owner name" "sy_jobs s' k \<noteq> None"
    then show ?thesis using task_ok_later [OF new_task_ok task_step_now [OF assms(1)]] by simp
  qed
  moreover have "t_used t' = []"
    if t': "find_task (sy_store s') k = Some t'" and j': "sy_jobs s' k = Some j'" "tj_pc j' = AskConfirm" for k t' j'
    using moved [OF t']
  proof (elim disjE exE conjE)
    fix t assume t: "find_task (sy_store s) k = Some t" "task_move env s s' k t t'"
    then obtain j where j: "sy_jobs s k = Some j" using old by blast
    then have "tj_pc j = AskConfirm" using task_step_jobs [OF assms(1) j'(1)] j' by (auto simp: fresh_task_id_def)
    then have "t_used t = []" using assms(2) t(1) j by (auto simp: records_ok_def ask_ok_def)
    moreover have "inputs_ok t" using old [OF t(1)] by (simp add: task_ok_def)
    ultimately show ?thesis using move_used [OF t(2) j'] by simp
  qed (simp add: new_task_def)
  ultimately show ?thesis
    using task_step_distinct [OF assms(1) d] task_step_message_ok [OF assms(1)] assms(2)
    by (auto simp: records_ok_def ask_ok_def)
qed

lemma records_ok_reach: "task_reach env cfg s \<Longrightarrow> records_ok s"
proof (induction rule: task_reach.induct)
  case (fresh now)
  then show ?case
    by (auto simp: records_ok_def new_system_def new_task_store_def distinct_ids_def find_task_def ask_ok_def message_ok_def
        split: prod.splits)
next
  case (step s s')
  then show ?case by (blast intro: records_ok_step)
qed

end
