(* ===== verification/TaskClaims.thy ===== *)
theory TaskClaims
  imports TaskRuns TaskSteps
begin

text \<open>
  The properties of tasks over all interleavings: approval before a tool runs, finality, the cap on
  tasks in flight, what a sweep leaves, and what an actor learns of the tasks of others.
\<close>

section \<open>Approval\<close>

definition approved_by :: "task_env \<Rightarrow> task_event list \<Rightarrow> string \<Rightarrow> string \<Rightarrow> bool" where
  "approved_by env evs k owner \<longleftrightarrow>
     (\<exists>actor resps r. Answered actor k resps \<in> set evs \<and> map_of resps task_confirm_key = Some r \<and>
        response_approved (te_codec env) r \<and> (owner = [] \<or> actor = [] \<or> owner = actor))"

lemma approved_by_append [simp]: "approved_by env evs k owner \<Longrightarrow> approved_by env (evs @ es) k owner"
  by (auto simp: approved_by_def)

fun may_call :: "worker_pc \<Rightarrow> bool" where
  "may_call CallTool \<longleftrightarrow> True"
| "may_call Calling \<longleftrightarrow> True"
| "may_call (ToolReturned _) \<longleftrightarrow> True"
| "may_call _ \<longleftrightarrow> False"

fun has_called :: "worker_pc \<Rightarrow> bool" where
  "has_called Calling \<longleftrightarrow> True"
| "has_called (ToolReturned _) \<longleftrightarrow> True"
| "has_called Deferred \<longleftrightarrow> True"
| "has_called Finished \<longleftrightarrow> True"
| "has_called _ \<longleftrightarrow> False"

text \<open>What is known of the record of a task that \<open>owner\<close> started.\<close>

definition record_inv :: "task_event list \<Rightarrow> string \<Rightarrow> string \<Rightarrow> task_rec \<Rightarrow> bool" where
  "record_inv evs k owner t \<longleftrightarrow>
     t_owner t = owner \<and>
     (\<forall>key r. map_of (t_responses t) key = Some r \<longrightarrow>
        (\<exists>actor resps. Answered actor k resps \<in> set evs \<and> map_of resps key = Some r \<and>
           (owner = [] \<or> actor = [] \<or> owner = actor)))"

definition job_inv :: "task_env \<Rightarrow> task_system \<Rightarrow> string \<Rightarrow> string \<Rightarrow> task_job \<Rightarrow> bool" where
  "job_inv env s k owner j \<longleftrightarrow>
     tj_confirm j = wants_confirm (te_codec env) (tj_args j) \<and>
     (\<forall>t. find_task (sy_store s) k = Some t \<longrightarrow> record_inv (sy_log s) k owner t \<and>
        (tj_pc j = AwaitInput \<longrightarrow> terminal t \<or> task_confirm_key \<in> set (t_used t))) \<and>
     (tj_confirm j \<and> may_call (tj_pc j) \<longrightarrow> approved_by env (sy_log s) k owner)"

definition client_inv :: "task_system \<Rightarrow> client \<Rightarrow> bool" where
  "client_inv s c \<longleftrightarrow>
     (\<forall>actor p t. c = UpdateAdmitted actor p \<longrightarrow> find_task (sy_store s) (up_id p) = Some t \<longrightarrow> task_access t actor)"

lemma record_inv_append [simp]: "record_inv evs k owner t \<Longrightarrow> record_inv (evs @ es) k owner t"
  unfolding record_inv_def by (metis Un_iff set_append)

text \<open>The log grows; a start is logged for a fresh task only, a call by its goroutine only.\<close>

lemma task_worker_step_log:
  "task_worker_step env i s s' \<Longrightarrow>
     sy_log s' = sy_log s \<or>
     (\<exists>j. sy_jobs s i = Some j \<and> tj_pc j = CallTool \<and> sy_jobs s' = (sy_jobs s)(i \<mapsto> j\<lparr>tj_pc := Calling\<rparr>) \<and>
        sy_log s' = sy_log s @ [ToolCalled i (tj_tool j) (strip_task_control_flags (te_codec env) (tj_args j))])"
  by (induction rule: task_worker_step.induct)
    (auto simp: worker_asks_def worker_polls_def worker_calls_def worker_leaves_def Let_def set_pc_jobs
      split: prod.splits sum.splits wait_result.splits)

lemma task_step_log:
  assumes "task_step env s s'"
  shows "\<exists>es. sy_log s' = sy_log s @ es \<and>
    (\<forall>e \<in> set es. (\<exists>k owner name args. e = TaskStarted k owner name args \<and> sy_jobs s k = None \<and>
         s' = system_starts env k owner name args s \<and> (\<exists>pc. pc \<noteq> AwaitInput \<and> (may_call pc \<longrightarrow> \<not> wants_confirm (te_codec env) args) \<and>
           sy_jobs s' k = Some \<lparr> tj_tool = name, tj_args = args, tj_confirm = wants_confirm (te_codec env) args, tj_pc = pc \<rparr>)) \<or>
       (\<exists>actor k resps. e = Answered actor k resps) \<or>
       (\<exists>k j. es = [e] \<and> e = ToolCalled k (tj_tool j) (strip_task_control_flags (te_codec env) (tj_args j)) \<and>
         sy_jobs s k = Some j \<and> tj_pc j = CallTool \<and> sy_jobs s' = (sy_jobs s)(k \<mapsto> j\<lparr>tj_pc := Calling\<rparr>)))"
  using assms
proof (induction rule: task_step.induct)
  case (starts i s owner name args)
  then have "sy_jobs s i = None" by (simp add: fresh_task_id_def)
  then show ?case
    by (cases rule: system_starts_cases [of env i owner name args s]) auto
next
  case (works i s s')
  from task_worker_step_log [OF works]
  consider "sy_log s' = sy_log s"
    | j where "sy_jobs s i = Some j" "tj_pc j = CallTool" "sy_jobs s' = (sy_jobs s)(i \<mapsto> j\<lparr>tj_pc := Calling\<rparr>)"
      "sy_log s' = sy_log s @ [ToolCalled i (tj_tool j) (strip_task_control_flags (te_codec env) (tj_args j))]"
    by blast
  then show ?case
  proof cases
    case 2
    show ?thesis by (rule exI [of _ "[ToolCalled i (tj_tool j) (strip_task_control_flags (te_codec env) (tj_args j))]"])
      (use 2 in \<open>simp only: list.set ball_simps, blast\<close>)
  qed simp
qed (auto simp: client_marks_def client_takes_def client_answers_def client_updates_def system_sweeps_def
    split: prod.splits sum.splits if_splits)

lemma asked_uses_key:
  assumes "request_input uuid now k (approval_elicitation cd msg) st = (Inr u, st')" "find_task st' k = Some t"
    "\<And>t0. find_task st k = Some t0 \<Longrightarrow> inputs_ok t0"
  shows "terminal t \<or> task_confirm_key \<in> set (t_used t)"
proof -
  let ?f = "requesting (approval_elicitation cd msg)"
  obtain ok b st1 where u: "update_task uuid now k ?f False st = (ok, b, st1)" by (metis prod_cases3)
  then have "ok" "find_task st1 k = Some t"
    using assms by (auto simp: request_input_def split: sum.splits if_splits)
  then obtain t0 where t0: "find_task st k = Some t0" "t = updated_rec now ?f False t0"
    by (auto simp: find_update_task [OF u])
  then have "map_of (t_requests t0) task_confirm_key \<noteq> None \<longrightarrow> task_confirm_key \<in> set (t_used t0)"
    using assms(3) by (metis UnI1 inputs_ok_def map_of_eq_None_iff)
  then show ?thesis
    using t0(2) by (auto simp: updated_rec_def requesting_def Let_def approval_elicitation_def add_request_def terminal_def
        split: prod.splits if_splits)
qed

lemma worker_enters:
  assumes "task_worker_step env k s s'" "sy_jobs s k = Some j" "sy_jobs s' k = Some j'"
    "\<And>t0. find_task (sy_store s) k = Some t0 \<Longrightarrow> inputs_ok t0"
  shows "(tj_pc j' = AwaitInput \<longrightarrow> tj_pc j = AwaitInput \<or>
      (\<forall>t. find_task (sy_store s') k = Some t \<longrightarrow> terminal t \<or> task_confirm_key \<in> set (t_used t)))"
    and "may_call (tj_pc j') \<longrightarrow> may_call (tj_pc j) \<or>
      (tj_pc j = AwaitInput \<and> (\<exists>resps. wait_check (te_uuid env) (te_quote env) k (sy_store s) = WaitDone resps \<and>
         response_approved (te_codec env) (confirm_response resps)))"
    and "has_called (tj_pc j) \<longrightarrow> has_called (tj_pc j')"
proof -
  have "(tj_pc j' = AwaitInput \<longrightarrow> tj_pc j = AwaitInput \<or>
      (\<forall>t. find_task (sy_store s') k = Some t \<longrightarrow> terminal t \<or> task_confirm_key \<in> set (t_used t))) \<and>
    (may_call (tj_pc j') \<longrightarrow> may_call (tj_pc j) \<or>
      (tj_pc j = AwaitInput \<and> (\<exists>resps. wait_check (te_uuid env) (te_quote env) k (sy_store s) = WaitDone resps \<and>
         response_approved (te_codec env) (confirm_response resps)))) \<and>
    (has_called (tj_pc j) \<longrightarrow> has_called (tj_pc j'))"
    using assms
  proof (induction rule: task_worker_step.induct)
    case (asks s j0)
    obtain r st where r: "request_input (te_uuid env) (sy_now s) k
      (approval_elicitation (te_codec env) (''Approve running tool '' @ te_quote env (tj_tool j0) @ ''?'')) (sy_store s) = (r, st)"
      by fastforce
    show ?case
    proof (cases r)
      case (Inr u)
      then show ?thesis
        using asks r asked_uses_key [of "te_uuid env" "sy_now s" k "te_codec env" _ "sy_store s" u st]
        by (auto simp: worker_asks_def Let_def set_pc_def)
    qed (use asks r in \<open>auto simp: worker_asks_def Let_def set_pc_def\<close>)
  next
    case (polls s j0)
    then show ?case
      by (cases "wait_check (te_uuid env) (te_quote env) k (sy_store s)") (auto simp: worker_polls_def set_pc_def split: if_splits)
  qed (auto simp: set_pc_def worker_calls_def worker_leaves_def)
  then show "(tj_pc j' = AwaitInput \<longrightarrow> tj_pc j = AwaitInput \<or>
      (\<forall>t. find_task (sy_store s') k = Some t \<longrightarrow> terminal t \<or> task_confirm_key \<in> set (t_used t)))"
    "may_call (tj_pc j') \<longrightarrow> may_call (tj_pc j) \<or>
      (tj_pc j = AwaitInput \<and> (\<exists>resps. wait_check (te_uuid env) (te_quote env) k (sy_store s) = WaitDone resps \<and>
         response_approved (te_codec env) (confirm_response resps)))"
    "has_called (tj_pc j) \<longrightarrow> has_called (tj_pc j')"
    by blast+
qed

definition approve_ok :: "task_env \<Rightarrow> task_system \<Rightarrow> bool" where
  "approve_ok env s \<longleftrightarrow>
     (\<forall>k j. sy_jobs s k = Some j \<longrightarrow> (\<exists>owner. TaskStarted k owner (tj_tool j) (tj_args j) \<in> set (sy_log s))) \<and>
     (\<forall>k owner tool args. TaskStarted k owner tool args \<in> set (sy_log s) \<longrightarrow>
        (\<exists>j. sy_jobs s k = Some j \<and> tj_tool j = tool \<and> tj_args j = args \<and> job_inv env s k owner j)) \<and>
     (\<forall>n. client_inv s (sy_clients s n))"

lemma move_used_mono: "task_move env s s' k t t' \<Longrightarrow> inputs_ok t \<Longrightarrow> set (t_used t) \<subseteq> set (t_used t')"
proof (induction rule: task_move.induct)
  case (answered n actor p t v)
  from answered(3,5) show ?case
  proof (cases rule: answered_cases [of t "sy_now s" "effective_responses p" v])
    case (taken t1 st msg)
    from arg_cong [OF taken(4), of t_used] show ?thesis using taken(8) by simp
  qed simp
next
  case (fields_set n actor p t v)
  then show ?case by (simp add: updated_rec_def updating_def Let_def)
qed (auto simp: end_task_def approval_elicitation_def add_request_def)

lemma move_record_inv:
  assumes "task_move env s s' k t t'" "record_inv (sy_log s) k owner t" "inputs_ok t"
    "\<And>n. client_inv s (sy_clients s n)" "find_task (sy_store s) k = Some t" "sy_log s' = sy_log s @ es"
  shows "record_inv (sy_log s') k owner t'"
proof -
  have kept: "record_inv (sy_log s') k owner t'" if "t_owner t' = t_owner t" "t_responses t' = t_responses t"
  proof -
    have "record_inv (sy_log s') k owner t" using assms(2,6) by simp
    with that show ?thesis by (simp add: record_inv_def)
  qed
  show ?thesis
    using assms(1)
  proof cases
    case (answered n actor p v)
    have acc: "owner = [] \<or> actor = [] \<or> owner = actor"
      using assms(2,5) assms(4) [of n] answered(2,3) by (auto simp: client_inv_def record_inv_def task_access_def)
    from answered(4) assms(3) show ?thesis
    proof (cases rule: answered_cases [of t "sy_now s" "effective_responses p" v])
      case ignored
      then show ?thesis using answered(1) assms(2,6) by simp
    next
      case (taken t1 st msg)
      have "t_owner t1 = t_owner t" using arg_cong [OF taken(4), of t_owner] by simp
      moreover have "record_inv (sy_log s') k owner t" using assms(2,6) by simp
      moreover have "t_owner t' = t_owner t1" "t_responses t' = t_responses t1" using answered(1) taken(8) by simp_all
      ultimately show ?thesis
        using taken(5) acc answered(5) unfolding record_inv_def by metis
    qed
  qed (rule kept; simp add: end_task_def approval_elicitation_def add_request_def updated_rec_def updating_def Let_def)+
qed

lemma wait_done_approved:
  assumes w: "wait_check (te_uuid env) (te_quote env) k (sy_store s) = WaitDone resps"
    and y: "response_approved (te_codec env) (confirm_response resps)"
    and r: "records_ok s" and j: "job_inv env s k owner j" "tj_pc j = AwaitInput"
  shows "approved_by env (sy_log s) k owner"
proof -
  obtain t where t: "find_task (sy_store s) k = Some t" "\<not> terminal t" "t_status t \<noteq> TInputRequired" "resps = t_responses t"
    using w by (auto simp: wait_check_def get_task_def terminal_def terminal_status_def split: option.splits if_splits)
  have ok: "status_ok t" "inputs_ok t" using r t(1) by (auto simp: records_ok_def task_ok_def)
  then have "t_requests t = []" using t by (auto simp: status_ok_def)
  moreover have inv: "record_inv (sy_log s) k owner t" "task_confirm_key \<in> set (t_used t)"
    using j t by (auto simp: job_inv_def)
  ultimately have "task_confirm_key \<in> fst ` set (t_responses t)" using ok by (auto simp: inputs_ok_def)
  then obtain x where x: "map_of (t_responses t) task_confirm_key = Some x"
    by (metis map_of_eq_None_iff not_None_eq)
  then have "confirm_response resps = x" using t by (simp add: confirm_response_def)
  with x y inv(1) show ?thesis unfolding record_inv_def approved_by_def by metis
qed

lemma job_inv_step:
  assumes st: "task_step env s s'" and r: "records_ok s" and c: "\<And>n. client_inv s (sy_clients s n)"
    and j: "sy_jobs s k = Some j" "sy_jobs s' k = Some j'" and i: "job_inv env s k owner j"
  shows "job_inv env s' k owner j' \<and> same_job j j'"
proof -
  obtain es where es: "sy_log s' = sy_log s @ es" using task_step_log [OF st] by blast
  have same: "same_job j j'" using task_step_jobs [OF st j(2)] j(1) by (auto simp: fresh_task_id_def)
  have d: "distinct_ids (sy_store s)" using r by (simp add: records_ok_def)
  have inp: "find_task (sy_store s) k = Some t \<Longrightarrow> inputs_ok t" for t
    using r by (auto simp: records_ok_def task_ok_def)
  have "record_inv (sy_log s') k owner t' \<and> (tj_pc j' = AwaitInput \<longrightarrow> terminal t' \<or> task_confirm_key \<in> set (t_used t'))"
    if t': "find_task (sy_store s') k = Some t'" for t'
  proof -
    obtain t where t: "find_task (sy_store s) k = Some t" "task_move env s s' k t t'"
      using task_step_moves [OF st d t'] j(1) by (auto simp: fresh_task_id_def)
    have "record_inv (sy_log s) k owner t" using i t by (simp add: job_inv_def)
    then have one: "record_inv (sy_log s') k owner t'"
      using move_record_inv [OF t(2) _ inp [OF t(1)] c t(1) es] by blast
    have "terminal t' \<or> task_confirm_key \<in> set (t_used t')" if a: "tj_pc j' = AwaitInput"
    proof (cases "tj_pc j = AwaitInput")
      case True
      then have "terminal t \<or> task_confirm_key \<in> set (t_used t)" using i t by (simp add: job_inv_def)
      then show ?thesis using move_terminal [OF t(2)] move_used_mono [OF t(2) inp [OF t(1)]] by auto
    next
      case False
      then have "task_worker_step env k s s'" using job_pc_step [OF st j] a by auto
      from worker_enters(1) [OF this j inp] a False t' show ?thesis by blast
    qed
    with one show ?thesis by blast
  qed
  moreover have "approved_by env (sy_log s') k owner" if a: "tj_confirm j'" "may_call (tj_pc j')"
  proof (cases "may_call (tj_pc j)")
    case True
    then show ?thesis using i a same es by (simp add: job_inv_def same_job_def)
  next
    case False
    then have "task_worker_step env k s s'" using job_pc_step [OF st j] a by auto
    from worker_enters(2) [OF this j inp] a False
    show ?thesis using wait_done_approved [OF _ _ r i] es by fastforce
  qed
  ultimately show ?thesis using i same by (auto simp: job_inv_def same_job_def)
qed

lemma move_owner: "task_move env s s' k t t' \<Longrightarrow> inputs_ok t \<Longrightarrow> t_owner t' = t_owner t"
proof (induction rule: task_move.induct)
  case (answered n actor p t v)
  from answered(3,5) show ?case
  proof (cases rule: answered_cases [of t "sy_now s" "effective_responses p" v])
    case (taken t1 st msg)
    from arg_cong [OF taken(4), of t_owner] show ?thesis using taken(8) by simp
  qed simp
qed (auto simp: end_task_def approval_elicitation_def add_request_def updated_rec_def updating_def Let_def)

lemma clients_step:
  assumes "task_step env s s'" "sy_clients s' n = UpdateAdmitted actor p"
  shows "sy_clients s n = UpdateAdmitted actor p \<or>
    sy_store s' = sy_store s \<and> (\<forall>t. find_task (sy_store s) (up_id p) = Some t \<longrightarrow> task_access t actor)"
  using assms
proof (induction rule: task_step.induct)
  case (starts i s owner name args)
  then show ?case by (cases rule: system_starts_cases [of env i owner name args s]) auto
next
  case (works i s s')
  then show ?case by (simp add: task_worker_step_simps)
next
  case (update_admitted s m actor' params p')
  then show ?case using update_admit_cases [OF update_admitted(2)] by (auto split: if_splits)
qed (auto simp: client_marks_def client_takes_def client_answers_def client_updates_def system_sweeps_def
    split: prod.splits sum.splits if_splits)

lemma client_inv_step:
  assumes st: "task_step env s s'" and r: "records_ok s" and c: "client_inv s (sy_clients s n)"
  shows "client_inv s' (sy_clients s' n)"
  unfolding client_inv_def
proof (intro allI impI)
  fix actor p t' assume n: "sy_clients s' n = UpdateAdmitted actor p" and t': "find_task (sy_store s') (up_id p) = Some t'"
  have d: "distinct_ids (sy_store s)" using r by (simp add: records_ok_def)
  from clients_step [OF st n] show "task_access t' actor"
  proof
    assume old: "sy_clients s n = UpdateAdmitted actor p"
    from task_step_moves [OF st d t'] show ?thesis
    proof (elim disjE exE conjE)
      fix t assume t: "find_task (sy_store s) (up_id p) = Some t" "task_move env s s' (up_id p) t t'"
      have "inputs_ok t" using r t(1) by (auto simp: records_ok_def task_ok_def)
      with move_owner [OF t(2)] c old t(1) show ?thesis by (auto simp: client_inv_def task_access_def)
    next
      fix owner name args assume "fresh_task_id env (up_id p) s"
      then show ?thesis using old by (auto simp: fresh_task_id_def dest!: spec [of _ n])
    qed
  qed (use t' in auto)
qed

lemma started_job_inv:
  assumes "sy_jobs s k = None" "s' = system_starts env k owner name args s" "sy_jobs s' k = Some j"
    "tj_pc j \<noteq> AwaitInput" "may_call (tj_pc j) \<longrightarrow> \<not> wants_confirm (te_codec env) args"
  shows "tj_tool j = name \<and> tj_args j = args \<and> job_inv env s' k owner j"
proof (cases rule: system_starts_cases [of env k owner name args s])
  case refused
  then show ?thesis using assms by simp
next
  case (accepted st)
  have "find_task (sy_store s') k = Some (new_task (sy_now s) k owner name)"
    using find_put_task [OF accepted(1), of k] accepted(2) assms(2) by (simp add: new_task_def)
  moreover have "tj_tool j = name" "tj_args j = args" "tj_confirm j = wants_confirm (te_codec env) args"
    using assms(2,3) accepted(2) by auto
  ultimately show ?thesis using assms(4,5) by (auto simp: job_inv_def record_inv_def new_task_def)
qed

lemma approve_ok_step:
  assumes st: "task_step env s s'" and r: "records_ok s" and a: "approve_ok env s"
  shows "approve_ok env s'"
proof -
  obtain es where es: "sy_log s' = sy_log s @ es"
    and new: "\<And>e. e \<in> set es \<Longrightarrow> (\<exists>k owner name args. e = TaskStarted k owner name args \<and> sy_jobs s k = None \<and>
         s' = system_starts env k owner name args s \<and> (\<exists>pc. pc \<noteq> AwaitInput \<and> (may_call pc \<longrightarrow> \<not> wants_confirm (te_codec env) args) \<and>
           sy_jobs s' k = Some \<lparr> tj_tool = name, tj_args = args, tj_confirm = wants_confirm (te_codec env) args, tj_pc = pc \<rparr>)) \<or>
       (\<forall>k owner name args. e \<noteq> TaskStarted k owner name args)"
    using task_step_log [OF st] by blast
  have c: "client_inv s (sy_clients s n)" for n using a by (simp add: approve_ok_def)
  have "\<exists>owner. TaskStarted k owner (tj_tool j') (tj_args j') \<in> set (sy_log s')" if j': "sy_jobs s' k = Some j'" for k j'
    using task_step_jobs [OF st j']
  proof (elim disjE exE conjE)
    fix j assume j: "sy_jobs s k = Some j" "same_job j j'"
    then obtain owner where "TaskStarted k owner (tj_tool j) (tj_args j) \<in> set (sy_log s)"
      using a unfolding approve_ok_def by blast
    then show ?thesis using es j by (auto simp: same_job_def)
  next
    fix owner name args assume f: "fresh_task_id env k s" "s' = system_starts env k owner name args s"
    show ?thesis
      by (cases rule: system_starts_cases [of env k owner name args s]) (use f j' in \<open>auto simp: fresh_task_id_def\<close>)
  qed
  moreover have "\<exists>j. sy_jobs s' k = Some j \<and> tj_tool j = tool \<and> tj_args j = args \<and> job_inv env s' k owner j"
    if l: "TaskStarted k owner tool args \<in> set (sy_log s')" for k owner tool args
  proof (cases "TaskStarted k owner tool args \<in> set (sy_log s)")
    case True
    then obtain j where j: "sy_jobs s k = Some j" "tj_tool j = tool" "tj_args j = args" "job_inv env s k owner j"
      using a unfolding approve_ok_def by blast
    then obtain j' where j': "sy_jobs s' k = Some j'" using jobs_stay [OF st, of k] by auto
    from job_inv_step [OF st r c j(1) j' j(4)] j j' show ?thesis by (auto simp: same_job_def)
  next
    case False
    then have "TaskStarted k owner tool args \<in> set es" using l es by simp
    from new [OF this] obtain pc where n: "sy_jobs s k = None" "s' = system_starts env k owner tool args s"
      "pc \<noteq> AwaitInput" "may_call pc \<longrightarrow> \<not> wants_confirm (te_codec env) args"
      "sy_jobs s' k = Some \<lparr> tj_tool = tool, tj_args = args, tj_confirm = wants_confirm (te_codec env) args, tj_pc = pc \<rparr>"
      by auto
    from started_job_inv [OF n(1,2,5)] n(3,4,5) show ?thesis by simp
  qed
  ultimately show ?thesis
    unfolding approve_ok_def using client_inv_step [OF st r c] by blast
qed

lemma approve_ok_reach: "task_reach env cfg s \<Longrightarrow> approve_ok env s"
proof (induction rule: task_reach.induct)
  case (fresh now)
  then show ?case by (simp add: approve_ok_def new_system_def client_inv_def)
next
  case (step s s')
  then show ?case by (blast intro: approve_ok_step records_ok_reach)
qed

section \<open>Calls of tools\<close>

definition call_ok :: "task_env \<Rightarrow> task_event list \<Rightarrow> string \<Rightarrow> string \<Rightarrow> string \<Rightarrow> bool" where
  "call_ok env pre k tool a \<longleftrightarrow>
     (\<exists>owner args. TaskStarted k owner tool args \<in> set pre) \<and>
     (\<forall>owner tool' args. TaskStarted k owner tool' args \<in> set pre \<longrightarrow>
        tool' = tool \<and> a = strip_task_control_flags (te_codec env) args \<and>
        (wants_confirm (te_codec env) args \<longrightarrow> approved_by env pre k owner)) \<and>
     (\<forall>tool' a'. ToolCalled k tool' a' \<notin> set pre)"

definition calls_ok :: "task_env \<Rightarrow> task_system \<Rightarrow> bool" where
  "calls_ok env s \<longleftrightarrow>
     (\<forall>pre k tool a post. sy_log s = pre @ ToolCalled k tool a # post \<longrightarrow> call_ok env pre k tool a) \<and>
     (\<forall>k tool a. ToolCalled k tool a \<in> set (sy_log s) \<longrightarrow> (\<exists>j. sy_jobs s k = Some j \<and> has_called (tj_pc j)))"

lemma split_before:
  assumes "xs @ es = pre @ x # post" "x \<notin> set es"
  obtains post' where "xs = pre @ x # post'"
proof -
  from assms(1) obtain us where "xs = pre @ us \<and> us @ es = x # post \<or> xs @ us = pre \<and> es = us @ x # post"
    by (auto simp: append_eq_append_conv2)
  then show ?thesis using assms(2) that by (cases us) auto
qed

lemma split_last:
  assumes "xs @ [e] = pre @ x # post"
  obtains "pre = xs" "e = x" | post' where "xs = pre @ x # post'"
  using assms by (cases post rule: rev_cases) auto

lemma calls_ok_step:
  assumes st: "task_step env s s'" and r: "records_ok s" and a: "approve_ok env s" and c: "calls_ok env s"
  shows "calls_ok env s'"
proof -
  have inp: "find_task (sy_store s) k = Some t \<Longrightarrow> inputs_ok t" for k t
    using r by (auto simp: records_ok_def task_ok_def)
  have keep: "\<exists>j'. sy_jobs s' k = Some j' \<and> has_called (tj_pc j')"
    if j: "sy_jobs s k = Some j" "has_called (tj_pc j)" for k j
  proof -
    obtain j' where j': "sy_jobs s' k = Some j'" using jobs_stay [OF st, of k] j(1) by auto
    from job_pc_step [OF st j(1) j'] worker_enters(3) [OF _ j(1) j' inp] j(2) j' show ?thesis by auto
  qed
  obtain es where es: "sy_log s' = sy_log s @ es"
    and new: "\<And>e. e \<in> set es \<Longrightarrow> (\<forall>k tool a. e \<noteq> ToolCalled k tool a) \<or>
       (\<exists>k j. es = [e] \<and> e = ToolCalled k (tj_tool j) (strip_task_control_flags (te_codec env) (tj_args j)) \<and>
         sy_jobs s k = Some j \<and> tj_pc j = CallTool \<and> sy_jobs s' = (sy_jobs s)(k \<mapsto> j\<lparr>tj_pc := Calling\<rparr>))"
    using task_step_log [OF st] by blast
  consider "\<forall>k tool a. ToolCalled k tool a \<notin> set es"
    | k j where "es = [ToolCalled k (tj_tool j) (strip_task_control_flags (te_codec env) (tj_args j))]"
         "sy_jobs s k = Some j" "tj_pc j = CallTool" "sy_jobs s' = (sy_jobs s)(k \<mapsto> j\<lparr>tj_pc := Calling\<rparr>)"
    using new by blast
  then show ?thesis
  proof cases
    case 1
    have "call_ok env pre k tool x" if "sy_log s' = pre @ ToolCalled k tool x # post" for pre k tool x post
      using split_before [OF that [unfolded es]] 1 c unfolding calls_ok_def by metis
    then show ?thesis using c keep es 1 unfolding calls_ok_def by fastforce
  next
    case (2 k j)
    have "\<not> has_called (tj_pc j)" using 2 by simp
    then have none: "ToolCalled k tool x \<notin> set (sy_log s)" for tool x
      using c 2(2) unfolding calls_ok_def by fastforce
    have "TaskStarted k owner tool args \<in> set (sy_log s) \<Longrightarrow> tool = tj_tool j \<and> args = tj_args j \<and> job_inv env s k owner j"
      for owner tool args
      using a 2(2) unfolding approve_ok_def by fastforce
    then have now: "call_ok env (sy_log s) k (tj_tool j) (strip_task_control_flags (te_codec env) (tj_args j))"
      using none a 2(2,3) unfolding call_ok_def approve_ok_def job_inv_def by (metis may_call.simps(1))
    have "call_ok env pre k' tool x" if l: "sy_log s' = pre @ ToolCalled k' tool x # post" for pre k' tool x post
      using l [unfolded es 2(1)]
    proof (cases rule: split_last)
      case 1
      then show ?thesis using now by simp
    next
      case (2 post')
      then show ?thesis using c unfolding calls_ok_def by blast
    qed
    moreover have "\<exists>j'. sy_jobs s' k' = Some j' \<and> has_called (tj_pc j')" if "ToolCalled k' tool x \<in> set (sy_log s')" for k' tool x
    proof (cases "k' = k")
      case False
      then have "ToolCalled k' tool x \<in> set (sy_log s)" using that es 2(1) by simp
      then show ?thesis using c keep unfolding calls_ok_def by blast
    qed (simp add: 2(4))
    ultimately show ?thesis unfolding calls_ok_def by blast
  qed
qed

lemma calls_ok_reach: "task_reach env cfg s \<Longrightarrow> calls_ok env s"
proof (induction rule: task_reach.induct)
  case (fresh now)
  then show ?case by (simp add: calls_ok_def new_system_def)
next
  case (step s s')
  then show ?case by (blast intro: calls_ok_step records_ok_reach approve_ok_reach)
qed

text \<open>
  Property C28.  A tool of a task is called only after the task was accepted, once, with the arguments
  the task was started with less the control flags; and when the caller asked for a confirmation, only
  after an actor with access to the task answered the request with an approval.  This holds for all
  interleavings of goroutines, clients, sweeps and time.
\<close>
theorem tool_runs_approved:
  assumes "task_reach env cfg s" "sy_log s = pre @ ToolCalled k tool a # post"
  shows "(\<exists>owner args. TaskStarted k owner tool args \<in> set pre) \<and>
    (\<forall>owner tool' args. TaskStarted k owner tool' args \<in> set pre \<longrightarrow>
       tool' = tool \<and> a = strip_task_control_flags (te_codec env) args \<and>
       (wants_confirm (te_codec env) args \<longrightarrow>
          (\<exists>actor resps r. Answered actor k resps \<in> set pre \<and> map_of resps task_confirm_key = Some r \<and>
             response_approved (te_codec env) r \<and> (owner = [] \<or> actor = [] \<or> owner = actor)))) \<and>
    (\<forall>tool' a'. ToolCalled k tool' a' \<notin> set pre \<union> set post)"
proof -
  have c: "calls_ok env s" using calls_ok_reach [OF assms(1)] .
  then have "call_ok env pre k tool a" using assms(2) unfolding calls_ok_def by blast
  moreover have "ToolCalled k tool' a' \<notin> set post" for tool' a'
  proof
    assume "ToolCalled k tool' a' \<in> set post"
    then obtain us vs where "post = us @ ToolCalled k tool' a' # vs" by (meson split_list)
    then have "sy_log s = (pre @ ToolCalled k tool a # us) @ ToolCalled k tool' a' # vs" using assms(2) by simp
    then have "call_ok env (pre @ ToolCalled k tool a # us) k tool' a'" using c unfolding calls_ok_def by blast
    then have "ToolCalled k tool a \<notin> set (pre @ ToolCalled k tool a # us)" unfolding call_ok_def by blast
    then show False by simp
  qed
  ultimately show ?thesis unfolding call_ok_def approved_by_def by blast
qed

theorem tool_runs_approved_witness:
  "\<exists>actor resps r. Answered actor demo_id resps \<in> set (sy_log demo6) \<and>
     map_of resps task_confirm_key = Some r \<and> response_approved (te_codec tasks_env) r"
proof -
  have w: "wants_confirm (te_codec tasks_env) ''c''" by code_simp
  have t: "TaskStarted demo_id ''u'' ''run_command'' ''c'' \<in>
    set [TaskStarted demo_id ''u'' ''run_command'' ''c'', Answered ''u'' demo_id (up_responses demo_answer)]" by simp
  from tool_runs_approved [OF demo_reach(2) demo_log] t w
  have "\<exists>actor resps r. Answered actor demo_id resps \<in>
      set [TaskStarted demo_id ''u'' ''run_command'' ''c'', Answered ''u'' demo_id (up_responses demo_answer)] \<and>
     map_of resps task_confirm_key = Some r \<and> response_approved (te_codec tasks_env) r" by blast
  then show ?thesis unfolding demo_log by force
qed

end
