(* ===== verification/TaskEnds.thy ===== *)
theory TaskEnds
  imports TaskRuns TaskSteps
begin

text \<open>
  How tasks end: the end is final, only a task that has ended has its context cancelled, a sweep ends
  and cancels every task that is too old, and no more tasks are in flight than the cap allows.
\<close>

section \<open>Finality\<close>

lemma move_end_frozen:
  "task_move env s s' k t t' \<Longrightarrow> terminal t \<Longrightarrow> \<exists>c. t' = t\<lparr>t_cancel := c\<rparr>"
proof -
  assume "task_move env s s' k t t'" "terminal t"
  moreover have "t = t\<lparr>t_cancel := t_cancel t\<rparr>" by simp
  ultimately show ?thesis using move_terminal by metis
qed

lemma ended_step:
  assumes st: "task_step env s s'" and r: "records_ok s" and j: "sy_jobs s k \<noteq> None"
    and e: "find_task (sy_store s) k = None \<or> (\<exists>c. find_task (sy_store s) k = Some (t\<lparr>t_cancel := c\<rparr>)) \<and> terminal t"
  shows "find_task (sy_store s') k = None \<or> (\<exists>c. find_task (sy_store s') k = Some (t\<lparr>t_cancel := c\<rparr>)) \<and> terminal t"
proof (cases "find_task (sy_store s') k")
  case (Some t')
  have "distinct_ids (sy_store s)" using r by (simp add: records_ok_def)
  from task_step_moves [OF st this Some] j
  obtain t0 where t0: "find_task (sy_store s) k = Some t0" "task_move env s s' k t0 t'"
    by (auto simp: fresh_task_id_def)
  then obtain c where c: "t0 = t\<lparr>t_cancel := c\<rparr>" "terminal t" using e by auto
  with move_end_frozen [OF t0(2)] obtain c' where "t' = t\<lparr>t_cancel := c'\<rparr>" by auto
  with Some c show ?thesis by auto
qed simp



section \<open>Tasks in flight\<close>

definition live_ids :: "task_store \<Rightarrow> string set" where
  "live_ids s = {k. \<exists>t. find_task s k = Some t \<and> \<not> terminal t}"

lemma live_ids_finite: "finite (live_ids s)"
proof -
  have "live_ids s \<subseteq> fst ` set (ts_tasks s)"
    by (force simp: live_ids_def find_task_def dest: map_of_SomeD)
  then show ?thesis by (rule finite_subset) simp
qed

lemma inflight_live: "distinct_ids s \<Longrightarrow> inflight_locked s = card (live_ids s)"
proof -
  assume d: "distinct_ids s"
  let ?xs = "filter (\<lambda>(i, t). \<not> terminal t) (ts_tasks s)"
  have "distinct (map fst ?xs)" using d by (simp add: distinct_ids_def distinct_map_filter)
  moreover have "live_ids s = set (map fst ?xs)"
    using d by (force simp: live_ids_def find_task_def distinct_ids_def map_of_eq_Some_iff)
  ultimately show ?thesis using distinct_card [of "map fst ?xs"] by (simp add: inflight_locked_def)
qed

lemma put_max: "put_task uuid t s = Inr s' \<Longrightarrow> int (inflight_locked s) < ts_max_inflight s \<and> ts_max_inflight s' = ts_max_inflight s"
  by (auto simp: put_task_def set_task_def Let_def split: if_splits)

lemma config_simps [simp]:
  "ts_max_inflight (set_task i t s) = ts_max_inflight s"
  "ts_max_inflight (store_cancel i s) = ts_max_inflight s"
  "ts_max_inflight (signal_waiters i s) = ts_max_inflight s"
  "ts_max_inflight (register_waiter i s) = ts_max_inflight s"
  "ts_max_inflight (snd (take_cancel i s)) = ts_max_inflight s"
  by (simp_all add: set_task_def store_cancel_def signal_waiters_def register_waiter_def take_cancel_def split: option.splits)

lemma update_max: "update_task uuid now i f v s = (ok, v', s') \<Longrightarrow> ts_max_inflight s' = ts_max_inflight s"
  by (auto simp: update_task_def split: if_splits option.splits prod.splits)

lemma task_worker_step_max: "task_worker_step env i s s' \<Longrightarrow> ts_max_inflight (sy_store s') = ts_max_inflight (sy_store s)"
proof (induction rule: task_worker_step.induct)
  case (asks s j)
  then show ?case
    by (auto simp: worker_asks_def request_input_def Let_def dest: update_max split: prod.splits sum.splits if_splits)
qed (auto simp: worker_ends_def update_maybe_terminal_def worker_polls_def worker_calls_def worker_leaves_def
    dest: update_max split: prod.splits wait_result.splits)

lemma task_step_max: "task_step env s s' \<Longrightarrow> ts_max_inflight (sy_store s') = ts_max_inflight (sy_store s)"
proof (induction rule: task_step.induct)
  case (starts i s owner name args)
  then show ?case by (cases rule: system_starts_cases [of env i owner name args s]) (auto dest: put_max)
next
  case (works i s s')
  then show ?case by (simp add: task_worker_step_max)
next
  case (cancel_takes s n i)
  have "sy_store (client_takes n i s) = signal_waiters i (snd (take_cancel i (sy_store s)))"
    by (simp add: client_takes_def split: prod.split)
  then show ?case by simp
qed (auto simp: client_marks_def cancel_mark_def update_maybe_terminal_def client_answers_def apply_input_responses_def
    client_updates_def update_fields_def system_sweeps_def expire_tasks_def Let_def
    dest: update_max split: prod.splits sum.splits if_splits)

lemma live_step:
  assumes st: "task_step env s s'" and d: "distinct_ids (sy_store s)"
  shows "live_ids (sy_store s') \<subseteq> live_ids (sy_store s) \<or>
    (\<exists>k. live_ids (sy_store s') \<subseteq> insert k (live_ids (sy_store s)) \<and>
       int (inflight_locked (sy_store s)) < ts_max_inflight (sy_store s))"
proof (cases "\<exists>k owner name args. s' = system_starts env k owner name args s")
  case True
  then obtain k owner name args where s': "s' = system_starts env k owner name args s" by blast
  show ?thesis
  proof (cases rule: system_starts_cases [of env k owner name args s])
    case (accepted st1)
    have "live_ids (sy_store s') \<subseteq> insert k (live_ids (sy_store s))"
      using find_put_task [OF accepted(1)] accepted(2) s'
      by (auto simp: live_ids_def new_task_def split: if_splits)
    then show ?thesis using put_max [OF accepted(1)] by blast
  qed (simp add: s')
next
  case False
  have "k \<in> live_ids (sy_store s)" if k: "k \<in> live_ids (sy_store s')" for k
  proof -
    obtain t' where t': "find_task (sy_store s') k = Some t'" "\<not> terminal t'" using k by (auto simp: live_ids_def)
    then obtain t where "find_task (sy_store s) k = Some t" "task_move env s s' k t t'"
      using task_step_moves [OF st d t'(1)] False by blast
    then show ?thesis using move_end_frozen t'(2) by (fastforce simp: live_ids_def)
  qed
  then show ?thesis by blast
qed

text \<open>
  At no time are more tasks in flight than the configured maximum, which the environment
  can set but not switch off.
\<close>
theorem tasks_in_flight_capped:
  assumes "task_reach env (task_store_config ttl max_age inflight) s"
  shows "int (inflight_locked (sy_store s)) \<le> snd (snd (task_store_config ttl max_age inflight)) \<and>
    0 < snd (snd (task_store_config ttl max_age inflight))"
proof -
  let ?cap = "snd (snd (task_store_config ttl max_age inflight))"
  have cap: "0 < ?cap" by (simp add: task_store_config_def default_max_inflight_def split: option.splits)
  have "ts_max_inflight (sy_store s) = ?cap \<and> int (card (live_ids (sy_store s))) \<le> ?cap"
    using assms
  proof (induction rule: task_reach.induct)
    case (fresh now)
    then show ?case using cap by (auto simp: new_system_def new_task_store_def live_ids_def find_task_def split: prod.splits)
  next
    case (step s s')
    have d: "distinct_ids (sy_store s)" using records_ok_reach [OF step(1)] by (simp add: records_ok_def)
    have "int (card (live_ids (sy_store s'))) \<le> ?cap"
      using live_step [OF step(2) d]
    proof
      assume "live_ids (sy_store s') \<subseteq> live_ids (sy_store s)"
      from card_mono [OF live_ids_finite this] step(3) show ?thesis by linarith
    next
      assume "\<exists>k. live_ids (sy_store s') \<subseteq> insert k (live_ids (sy_store s)) \<and>
         int (inflight_locked (sy_store s)) < ts_max_inflight (sy_store s)"
      then obtain k where k: "live_ids (sy_store s') \<subseteq> insert k (live_ids (sy_store s))"
        "int (card (live_ids (sy_store s))) < ?cap" using step(3) inflight_live [OF d] by auto
      have "card (live_ids (sy_store s')) \<le> Suc (card (live_ids (sy_store s)))"
        using card_mono [OF finite.insertI [OF live_ids_finite] k(1)]
          card_insert_le_m1 [of "Suc (card (live_ids (sy_store s)))" "live_ids (sy_store s)" k] by simp
      then show ?thesis using k(2) by simp
    qed
    then show ?case using step(3) task_step_max [OF step(2)] by simp
  qed
  moreover have "distinct_ids (sy_store s)" using records_ok_reach [OF assms] by (simp add: records_ok_def)
  ultimately show ?thesis using inflight_live cap by simp
qed

theorem tasks_in_flight_capped_witness:
  "int (inflight_locked (sy_store demo6)) \<le> 1"
  using tasks_in_flight_capped [OF demo_reach(2)] by (simp add: task_store_config_def)

section \<open>Cancelled contexts\<close>

lemma cancels_simps [simp]:
  "ts_cancels (set_task i t s) = ts_cancels s"
  "ts_cancels (signal_waiters i s) = ts_cancels s"
  "ts_cancels (register_waiter i s) = ts_cancels s"
  "ts_cancels (store_cancel i s) = insert i (ts_cancels s)"
  "ts_cancels (snd (take_cancel i s)) = ts_cancels s - {i}"
  by (simp_all add: set_task_def store_cancel_def signal_waiters_def register_waiter_def take_cancel_def)

lemma update_cancels: "update_task uuid now i f v s = (ok, v', s') \<Longrightarrow> ts_cancels s' = ts_cancels s"
  by (auto simp: update_task_def split: if_splits option.splits prod.splits)

lemma task_worker_step_cancels:
  "task_worker_step env i s s' \<Longrightarrow>
     ts_cancels (sy_store s') \<subseteq> ts_cancels (sy_store s) \<and> sy_firing s' = sy_firing s \<and>
     (sy_cancelled s' = sy_cancelled s \<or>
      sy_cancelled s' = insert i (sy_cancelled s) \<and> (\<exists>j. sy_jobs s i = Some j \<and> tj_pc j = Deferred))"
proof (induction rule: task_worker_step.induct)
  case (asks s j)
  then show ?case
    by (auto simp: worker_asks_def request_input_def Let_def set_pc_def with_store_def
        dest: update_cancels split: prod.splits sum.splits if_splits)
qed (auto simp: worker_ends_def update_maybe_terminal_def worker_polls_def worker_calls_def worker_leaves_def
    set_pc_def with_store_def dest: update_cancels split: prod.splits wait_result.splits)

lemma task_step_cancels:
  assumes "task_step env s s'"
  shows "ts_cancels (sy_store s') \<subseteq> ts_cancels (sy_store s) \<union> {k. sy_jobs s' k \<noteq> None}"
    and "k \<in> sy_cancelled s' \<union> sy_firing s' \<Longrightarrow>
       k \<in> sy_cancelled s \<union> sy_firing s \<or> (\<exists>n. sy_clients s n = CancelMarked k) \<and> k \<in> ts_cancels (sy_store s) \<or>
       (\<exists>j. sy_jobs s k = Some j \<and> tj_pc j = Deferred) \<or>
       s' = system_sweeps s \<and> k \<in> fst (expire_tasks (sy_now s) (sy_store s))"
proof -
  have "ts_cancels (sy_store s') \<subseteq> ts_cancels (sy_store s) \<union> {k. sy_jobs s' k \<noteq> None} \<and>
    (\<forall>k \<in> sy_cancelled s' \<union> sy_firing s'.
       k \<in> sy_cancelled s \<union> sy_firing s \<or> (\<exists>n. sy_clients s n = CancelMarked k) \<and> k \<in> ts_cancels (sy_store s) \<or>
       (\<exists>j. sy_jobs s k = Some j \<and> tj_pc j = Deferred) \<or>
       s' = system_sweeps s \<and> k \<in> fst (expire_tasks (sy_now s) (sy_store s)))"
    using assms
  proof (induction rule: task_step.induct)
    case (starts i s owner name args)
    show ?case
    proof (cases rule: system_starts_cases [of env i owner name args s])
      case (accepted st)
      have "ts_cancels st \<subseteq> insert i (ts_cancels (sy_store s))"
        using accepted(1) by (auto simp: put_task_def new_task_def Let_def split: if_splits)
      then show ?thesis using accepted(2) by (auto simp: with_store_def)
    qed auto
  next
    case (works i s s')
    then show ?case using task_worker_step_cancels [OF works] by auto
  next
    case (cancel_takes s n i)
    have f: "sy_store (client_takes n i s) = signal_waiters i (snd (take_cancel i (sy_store s)))"
      "sy_cancelled (client_takes n i s) = sy_cancelled s"
      "sy_firing (client_takes n i s) = (if i \<in> ts_cancels (sy_store s) then insert i (sy_firing s) else sy_firing s)"
      by (simp_all add: client_takes_def set_client_def with_store_def take_cancel_def)
    show ?case unfolding f using cancel_takes by auto
  next
    case (sweeps s)
    then show ?case
      by (auto simp: system_sweeps_def with_store_def expire_tasks_def Let_def)
  qed (auto simp: client_marks_def cancel_mark_def update_maybe_terminal_def client_answers_def apply_input_responses_def
      client_updates_def update_fields_def set_client_def with_store_def dest: update_cancels split: prod.splits sum.splits if_splits)
  then show "ts_cancels (sy_store s') \<subseteq> ts_cancels (sy_store s) \<union> {k. sy_jobs s' k \<noteq> None}"
    "k \<in> sy_cancelled s' \<union> sy_firing s' \<Longrightarrow>
       k \<in> sy_cancelled s \<union> sy_firing s \<or> (\<exists>n. sy_clients s n = CancelMarked k) \<and> k \<in> ts_cancels (sy_store s) \<or>
       (\<exists>j. sy_jobs s k = Some j \<and> tj_pc j = Deferred) \<or>
       s' = system_sweeps s \<and> k \<in> fst (expire_tasks (sy_now s) (sy_store s))"
    by blast+
qed

text \<open>A task in flight can be cancelled, and has not been.\<close>

definition live_ok :: "task_env \<Rightarrow> task_system \<Rightarrow> bool" where
  "live_ok env s \<longleftrightarrow>
     (\<forall>k t. find_task (sy_store s) k = Some t \<longrightarrow> \<not> terminal t \<longrightarrow>
        valid_task_id (te_uuid env) k \<and> t_cancel t \<and> k \<notin> sy_cancelled s \<union> sy_firing s \<and>
        (\<forall>j. sy_jobs s k = Some j \<longrightarrow> tj_pc j \<noteq> Deferred \<and> tj_pc j \<noteq> Finished) \<and>
        (\<forall>n. sy_clients s n \<noteq> CancelMarked k)) \<and>
     (\<forall>k \<in> sy_cancelled s \<union> sy_firing s \<union> ts_cancels (sy_store s). sy_jobs s k \<noteq> None)"

lemma ended_worker:
  assumes "find_task (sy_store (worker_ends env k g s)) k = Some t" "valid_task_id (te_uuid env) k"
    "\<And>t. terminal (g t)"
  shows "terminal t"
proof -
  obtain t0 where "t = (if terminal t0 then t0 else (g t0)\<lparr>t_updated := sy_now s\<rparr>)"
    using assms(1,2) by (auto simp: find_worker_ends)
  then show ?thesis using assms(3) [of t0] by (simp split: if_splits)
qed

lemma end_task_terminal: "terminal_status st \<Longrightarrow> terminal (end_task st err msg now t)"
  by simp

lemma tool_end_terminal: "terminal (tool_end jq now c ans t)"
  by (auto simp: tool_end_def Let_def split: tool_answer.split)

lemma wait_failed_terminal: "terminal (wait_failed now c e t)"
  by (simp add: wait_failed_def)

lemma worker_defers:
  assumes "task_worker_step env k s s'" "sy_jobs s' k = Some j'" "tj_pc j' = Deferred \<or> tj_pc j' = Finished"
    "valid_task_id (te_uuid env) k" "find_task (sy_store s') k = Some t'" "\<not> terminal t'"
  shows "\<exists>j. sy_jobs s k = Some j \<and> tj_pc j = Deferred"
  using assms
proof (induction rule: task_worker_step.induct)
  case (asks s j)
  then show ?case by (auto simp: worker_asks_def Let_def set_pc_def split: prod.splits sum.splits)
next
  case (polls s j)
  then show ?case by (auto simp: worker_polls_def set_pc_def split: wait_result.splits if_splits)
qed (auto simp: set_pc_def worker_calls_def dest!: ended_worker intro: tool_end_terminal wait_failed_terminal)

lemma marked_ended:
  assumes "task_step env s s'" "sy_clients s' n = CancelMarked k"
  shows "sy_clients s n = CancelMarked k \<or> (\<forall>t. find_task (sy_store s') k = Some t \<longrightarrow> terminal t)"
  using assms
proof (induction rule: task_step.induct)
  case (starts i s owner name args)
  then show ?case by (cases rule: system_starts_cases [of env i owner name args s]) auto
next
  case (works i s s')
  then show ?case by (simp add: task_worker_step_simps)
next
  case (cancel_marks s m actor i)
  show ?case
  proof (cases "n = m")
    case True
    obtain ok a v st where m: "cancel_mark (te_uuid env) (sy_now s) i (sy_store s) = (ok, (a, v), st)"
      by (cases "cancel_mark (te_uuid env) (sy_now s) i (sy_store s)") auto
    then have "i = k" "ok" using cancel_marks(2) True by (auto simp: client_marks_def split: if_splits)
    moreover obtain v' where "update_task (te_uuid env) (sy_now s) i (noting_end (cancelling (sy_now s))) ((False, TWorking), None) (sy_store s) = (ok, v', st)"
      using m by (auto simp: cancel_mark_def update_maybe_terminal_def split: prod.splits)
    ultimately have "\<forall>t. find_task st k = Some t \<longrightarrow> terminal t"
      by (auto simp: find_update_task updated_noting_end) (simp add: updated_rec_def cancelling_def split: if_splits)
    then show ?thesis using m by (simp add: client_marks_def)
  qed (use cancel_marks in \<open>auto simp: client_marks_def split: prod.splits\<close>)
qed (auto simp: client_takes_def client_answers_def client_updates_def system_sweeps_def
    split: prod.splits sum.splits if_splits)

lemma move_live:
  assumes "task_move env s s' k t t'" "\<not> terminal t'" "inputs_ok t" "t_cancel t"
    "\<And>n. sy_clients s n \<noteq> CancelMarked k" "\<And>j. sy_jobs s k = Some j \<Longrightarrow> tj_pc j \<noteq> Deferred"
  shows "t_cancel t'"
  using assms(1)
proof cases
  case (answered n actor p v)
  from answered(4) assms(3) show ?thesis
  proof (cases rule: answered_cases [of t "sy_now s" "effective_responses p" v])
    case (taken t1 st msg)
    from arg_cong [OF taken(4), of t_cancel] show ?thesis using taken(8) answered(1) assms(4) by simp
  qed (use answered assms in simp)
next
  case (fields_set n actor p v)
  then show ?thesis using assms by (simp add: updated_rec_def updating_def Let_def)
qed (use assms in \<open>auto simp: approval_elicitation_def add_request_def\<close>)

lemma swept_ended:
  assumes "distinct_ids s" "k \<in> fst (expire_tasks now s)" "find_task (snd (expire_tasks now s)) k = Some t"
  shows "terminal t"
proof -
  obtain t0 where "(k, t0) \<in> set (ts_tasks s)" "too_old s now t0"
    using assms(2) by (auto simp: expire_tasks_def Let_def)
  then have "find_task s k = Some t0" "too_old s now t0"
    using assms(1) by (simp_all add: find_task_def distinct_ids_def)
  then show ?thesis
    using find_expire [OF surjective_pairing assms(1), of now k] assms(3)
    by (auto simp: Let_def timed_out_def split: if_splits)
qed

lemma live_ok_step:
  assumes st: "task_step env s s'" and r: "records_ok s" and l: "live_ok env s"
  shows "live_ok env s'"
  unfolding live_ok_def
proof (intro conjI allI impI)
  have d: "distinct_ids (sy_store s)" using r by (simp add: records_ok_def)
  note cover = task_step_cancels [OF st]
  show "\<forall>k \<in> sy_cancelled s' \<union> sy_firing s' \<union> ts_cancels (sy_store s'). sy_jobs s' k \<noteq> None"
  proof
    fix k assume k: "k \<in> sy_cancelled s' \<union> sy_firing s' \<union> ts_cancels (sy_store s')"
    have sw: "sy_jobs s k \<noteq> None" if "k \<in> fst (expire_tasks (sy_now s) (sy_store s))"
    proof -
      from that have "k \<in> fst ` set (ts_tasks (sy_store s))" by (force simp: expire_tasks_def Let_def)
      then have "find_task (sy_store s) k \<noteq> None" by (simp add: find_task_def map_of_eq_None_iff)
      then show ?thesis using r unfolding records_ok_def by blast
    qed
    have "sy_jobs s k \<noteq> None \<or> sy_jobs s' k \<noteq> None"
      using k cover(1) cover(2) [of k] l sw unfolding live_ok_def by blast
    then show "sy_jobs s' k \<noteq> None" using jobs_stay [OF st] by blast
  qed
  fix k t' assume t': "find_task (sy_store s') k = Some t'" "\<not> terminal t'"
  have jobs: "sy_jobs s' k \<noteq> None" using records_ok_step [OF st r] t'(1) unfolding records_ok_def by blast
  from task_step_moves [OF st d t'(1)]
  consider t where "find_task (sy_store s) k = Some t" "task_move env s s' k t t'"
    | owner name args where "fresh_task_id env k s" "s' = system_starts env k owner name args s"
        "t' = new_task (sy_now s) k owner name"
    by blast
  then have "valid_task_id (te_uuid env) k \<and> t_cancel t' \<and> k \<notin> sy_cancelled s' \<union> sy_firing s' \<and>
    (\<forall>j. sy_jobs s' k = Some j \<longrightarrow> tj_pc j \<noteq> Deferred \<and> tj_pc j \<noteq> Finished) \<and> (\<forall>n. sy_clients s' n \<noteq> CancelMarked k)"
  proof cases
    case 1
    then have "\<not> terminal t" using move_end_frozen t'(2) by fastforce
    with 1 l have o: "valid_task_id (te_uuid env) k" "t_cancel t" "k \<notin> sy_cancelled s \<union> sy_firing s"
      "\<And>j. sy_jobs s k = Some j \<Longrightarrow> tj_pc j \<noteq> Deferred \<and> tj_pc j \<noteq> Finished" "\<And>n. sy_clients s n \<noteq> CancelMarked k"
      unfolding live_ok_def by blast+
    have "inputs_ok t" using r 1(1) by (auto simp: records_ok_def task_ok_def)
    then have c: "t_cancel t'" using move_live [OF 1(2) t'(2)] o by blast
    have "k \<notin> fst (expire_tasks (sy_now s) (sy_store s))" if "s' = system_sweeps s"
      using swept_ended [OF d, of k "sy_now s" t'] t' that by (auto simp: system_sweeps_def split: prod.splits)
    then have "k \<notin> sy_cancelled s' \<union> sy_firing s'" using cover(2) [of k] o by blast
    moreover have "tj_pc j' \<noteq> Deferred \<and> tj_pc j' \<noteq> Finished" if j': "sy_jobs s' k = Some j'" for j'
    proof -
      obtain j where j: "sy_jobs s k = Some j" using r 1(1) unfolding records_ok_def by blast
      from job_pc_step [OF st j j'] show ?thesis
      proof
        assume "task_worker_step env k s s'"
        from worker_defers [OF this j' _ o(1) t'] o(4) j show ?thesis by blast
      qed (use o(4) j in simp)
    qed
    ultimately show ?thesis using o c marked_ended [OF st] t' by blast
  next
    case 2
    then have f: "valid_task_id (te_uuid env) k" "sy_jobs s k = None" "\<And>n. \<not> mentions (sy_clients s n) k"
      by (simp_all add: fresh_task_id_def)
    show ?thesis
    proof (cases rule: system_starts_cases [of env k owner name args s])
      case refused
      then show ?thesis using 2(2) f(2) jobs by simp
    next
      case (accepted st1)
      have "sy_clients s n \<noteq> CancelMarked k" for n using f(3) [of n] by auto
      moreover have "k \<notin> sy_cancelled s \<union> sy_firing s" using l f(2) unfolding live_ok_def by blast
      ultimately show ?thesis using accepted(2) 2 f by (auto simp: new_task_def with_store_def)
    qed
  qed
  then show "valid_task_id (te_uuid env) k" "t_cancel t'" "k \<notin> sy_cancelled s' \<union> sy_firing s'"
    "\<And>j. sy_jobs s' k = Some j \<Longrightarrow> tj_pc j \<noteq> Deferred" "\<And>j. sy_jobs s' k = Some j \<Longrightarrow> tj_pc j \<noteq> Finished"
    "\<And>n. sy_clients s' n \<noteq> CancelMarked k"
    by blast+
qed

lemma live_ok_reach: "task_reach env cfg s \<Longrightarrow> live_ok env s"
proof (induction rule: task_reach.induct)
  case (fresh now)
  then show ?case by (simp add: live_ok_def new_system_def new_task_store_def find_task_def split: prod.split)
next
  case (step s s')
  then show ?case by (blast intro: live_ok_step records_ok_reach)
qed

text \<open>
  The context of a tool is cancelled only after its task has ended, and its cancel
  function is never called for a task in flight.
\<close>
theorem cancelled_only_when_ended:
  assumes "task_reach env cfg s" "k \<in> sy_cancelled s \<union> sy_firing s" "find_task (sy_store s) k = Some t"
  shows "terminal t"
  using live_ok_reach [OF assms(1)] assms(2,3) unfolding live_ok_def by blast

theorem cancelled_only_when_ended_witness: "terminal (timed_out (3 * 60 * 60 * 1000000) demo_rec)"
  using cancelled_only_when_ended [OF demo_late(2) _ demo_find(2)] demo_facts(5) by blast

text \<open>
  Whatever its goroutine and its clients do, the next sweep ends a task that is older
  than the maximum age, and its context can be cancelled at once; what a sweep leaves is a task in
  flight that is young enough or one that ended within the time to live.
\<close>
theorem sweep_ends_stale_tasks:
  assumes "task_reach env (task_store_config ttl max_age inflight) s"
    "find_task (sy_store s) k = Some t" "\<not> terminal t" "t_created t < sy_now s - ts_max_age (sy_store s)"
    "0 \<le> ts_ttl (sy_store s)"
  shows "find_task (sy_store (system_sweeps s)) k = Some (timed_out (sy_now s) t) \<and>
    (\<exists>s'. task_step env (system_sweeps s) s' \<and> k \<in> sy_cancelled s') \<and>
    (\<forall>i r. find_task (sy_store (system_sweeps s)) i = Some r \<longrightarrow>
       (if terminal r then \<exists>e. t_finished r = Some e \<and> sy_now s - ts_ttl (sy_store s) \<le> e
        else sy_now s - ts_max_age (sy_store s) \<le> t_created r))"
proof -
  let ?s = "system_sweeps s"
  have r: "records_ok s" "records_ok ?s"
    using records_ok_reach [OF assms(1)] records_ok_step [OF sweeps] by blast+
  have d: "distinct_ids (sy_store s)" using r(1) by (simp add: records_ok_def)
  obtain fns st where e: "expire_tasks (sy_now s) (sy_store s) = (fns, st)" by fastforce
  have sw: "sy_store ?s = st" "sy_firing ?s = sy_firing s \<union> fns" by (simp_all add: system_sweeps_def e with_store_def)
  have old: "too_old (sy_store s) (sy_now s) t" using assms(3,4) by (simp add: too_old_def)
  have tc: "t_cancel t" using live_ok_reach [OF assms(1)] assms(2,3) unfolding live_ok_def by blast
  have one: "find_task st k = Some (timed_out (sy_now s) t)"
    using find_expire [OF e d, of k] assms(2,5) old by (simp add: Let_def evictable_def timed_out_def end_task_def)
  have "(k, t) \<in> set (ts_tasks (sy_store s))" using assms(2) by (simp add: find_task_def map_of_SomeD)
  then have "k \<in> sy_firing ?s"
    using e old tc sw by (force simp: expire_tasks_def Let_def)
  from fires [OF this, of env] have two: "\<exists>s'. task_step env ?s s' \<and> k \<in> sy_cancelled s'"
    by (intro exI conjI) auto
  have "if terminal x then \<exists>e. t_finished x = Some e \<and> sy_now s - ts_ttl (sy_store s) \<le> e
      else sy_now s - ts_max_age (sy_store s) \<le> t_created x" if x: "find_task st i = Some x" for i x
  proof -
    have "status_ok x" using r(2) x sw(1) by (auto simp: records_ok_def task_ok_def)
    moreover from x obtain t0 where "find_task (sy_store s) i = Some t0"
      using find_expire [OF e d, of i] by (cases "find_task (sy_store s) i") auto
    with x have "x = (if too_old (sy_store s) (sy_now s) t0 then timed_out (sy_now s) t0 else t0)"
      "\<not> evictable (sy_store s) (sy_now s) x"
      using find_expire [OF e d, of i] by (auto simp: Let_def split: if_splits)
    ultimately show ?thesis
      by (auto simp: status_ok_def evictable_def too_old_def timed_out_def split: if_splits)
  qed
  then show ?thesis using one two sw(1) by simp
qed

theorem sweep_ends_stale_tasks_witness:
  "\<exists>s'. task_step tasks_env (system_sweeps demo_old) s' \<and> demo_id \<in> sy_cancelled s'"
  using sweep_ends_stale_tasks [OF demo_late(1) demo_find(1) demo_facts(1,3,4)] by blast

section \<open>Well-formed records\<close>

text \<open>
  Every stored record is well formed: it waits for input exactly when a request is
  outstanding, each request is asked once and answered once, the task has an end time and full progress
  exactly when it has ended, a completed one has a result, and progress, message and times are in range.
\<close>
theorem task_records_well_formed:
  assumes "task_reach env cfg s" "find_task (sy_store s) k = Some t"
  shows "t_id t = k \<and>
    (t_status t = TInputRequired \<longleftrightarrow> \<not> terminal t \<and> t_requests t \<noteq> []) \<and>
    distinct (map fst (t_requests t)) \<and> fst ` set (t_requests t) \<inter> fst ` set (t_responses t) = {} \<and>
    fst ` set (t_requests t) \<union> fst ` set (t_responses t) = set (t_used t) \<and>
    (terminal t \<longleftrightarrow> t_finished t \<noteq> None) \<and> (t_status t = TCompleted \<longrightarrow> t_result t \<noteq> None) \<and>
    0 \<le> t_progress t \<and> t_progress t \<le> 1 \<and> (terminal t \<longrightarrow> t_progress t = 1) \<and>
    rune_count (t_message t) \<le> 4096 \<and> t_created t \<le> t_updated t \<and> t_updated t \<le> sy_now s"
  using records_ok_reach [OF assms(1)] assms(2)
  unfolding records_ok_def task_ok_def inputs_ok_def status_ok_def bounds_ok_def max_task_message_runes_def by blast

theorem task_records_well_formed_witness: "t_created demo_rec \<le> t_updated demo_rec"
  using task_records_well_formed [OF demo_late(1) demo_find(1)] by blast

end
