(* ===== verification/TaskOwners.thy ===== *)
theory TaskOwners
  imports TaskProps
begin

text \<open>
  What the handlers of tasks tell and do to an actor without access to a task: nothing that they would
  not tell and do if the task did not exist, except when it sends an answer that is refused for its form.
\<close>

definition forget_task :: "string \<Rightarrow> task_store \<Rightarrow> task_store" where
  "forget_task k s = s\<lparr>ts_tasks := AList.delete k (ts_tasks s)\<rparr>"

lemma find_forget [simp]: "find_task (forget_task k s) k = None"
  by (simp add: forget_task_def find_task_def delete_conv')

lemma update_forgotten [simp]: "update_task uuid now k f v (forget_task k s) = (False, v, forget_task k s)"
  by (simp add: update_task_def)

lemma get_forgotten [simp]: "get_task uuid k (forget_task k s) = None"
  by (simp add: get_task_def)

definition foreign :: "task_store \<Rightarrow> string \<Rightarrow> string \<Rightarrow> bool" where
  "foreign s k actor \<longleftrightarrow> (\<exists>t. find_task s k = Some t \<and> t_id t = k \<and> \<not> task_access t actor)"

lemma foreign_refused:
  "foreign s k actor \<Longrightarrow> valid_task_id uuid k \<Longrightarrow> authorize_if_found uuid actor k s = Inl (UnknownTask k)"
  by (auto simp: foreign_def authorize_if_found_def get_task_def authorize_task_access_def task_access_def)

lemma forgotten_admitted: "authorize_if_found uuid actor k (forget_task k s) = Inr ()"
  by (simp add: authorize_if_found_def)

lemma cancel_forgotten:
  "cancel_task_result uuid now actor k (forget_task k s) = (Inl (UnknownTask k), False, forget_task k s)"
  by (simp add: cancel_task_result_def cancel_admit_def forgotten_admitted cancel_mark_def update_maybe_terminal_def)

lemma update_forgotten_reply:
  assumes "valid_task_id uuid (up_id p)" "rune_count (up_message p) \<le> max_task_message_runes"
    "length (up_input p) \<le> max_input_payload_bytes"
  shows "update_task_result uuid now actor (Some p) (forget_task (up_id p) s) =
    (case if effective_responses p = [] then Inr () else response_checks uuid (up_id p) (effective_responses p) of
       Inl e \<Rightarrow> Inl e | Inr _ \<Rightarrow> Inl (UnknownTask (up_id p)), forget_task (up_id p) s)"
proof -
  have "up_id p \<noteq> []" using assms(1) by (auto simp: valid_task_id_def has_prefix_def)
  then have a: "update_admit uuid actor (Some p) (forget_task (up_id p) s) = Inr p"
    using assms by (simp add: update_admit_def forgotten_admitted)
  show ?thesis
    by (cases "response_checks uuid (up_id p) (effective_responses p)")
      (simp_all add: update_task_result_def a update_fields_def apply_input_responses_def)
qed


text \<open>
  An update with an answer of the wrong form tells whether the task exists: the form is looked at only
  when no foreign task was found.
\<close>

lemma refused_answer_reveals_task:
  assumes "foreign s (up_id p) actor" "valid_task_id uuid (up_id p)"
    "rune_count (up_message p) \<le> max_task_message_runes" "length (up_input p) \<le> max_input_payload_bytes"
    "max_input_request_keys < length (effective_responses p)"
  shows "fst (update_task_result uuid now actor (Some p) s) = Inl (UnknownTask (up_id p)) \<and>
    fst (update_task_result uuid now actor (Some p) (forget_task (up_id p) s)) = Inl TooManyResponses"
proof -
  have "up_id p \<noteq> []" using assms(2) by (auto simp: valid_task_id_def has_prefix_def)
  moreover have "response_checks uuid (up_id p) (effective_responses p) = Inl TooManyResponses"
    using assms(2,5) by (simp add: response_checks_def rbind_def ensure_def)
  moreover have "effective_responses p \<noteq> []" using assms(5) by auto
  ultimately show ?thesis
    using foreign_refused [OF assms(1,2)] update_forgotten_reply [OF assms(2-4), of now actor s] assms(2-4)
    by (simp add: update_task_result_def update_admit_def)
qed

text \<open>A response that carries only an error counts as an approval.\<close>

lemma error_response_approves:
  "response_approved cd \<lparr> is_action = [], is_content = [], is_error = e \<rparr>"
  by (simp add: response_approved_def)


end
