(* ===== verification/Programs.thy ===== *)
theory Programs
  imports Prelude
begin

text \<open>
  Code that works on shared stores (Redis, Postgres) from many goroutines and servers.  An operation
  is a tree of atomic calls and their answers; a call may fail before or after it took effect.  Any
  number of operations run interleaved.  The theory gives the trees, the interleaving and what follows
  for it from facts about one call or about one tree.
\<close>

section \<open>Operations as trees of calls\<close>

datatype ('c, 'a, 'r) prog = Return 'r | Call 'c "'a \<Rightarrow> ('c, 'a, 'r) prog"

primrec pbind :: "('c, 'a, 'r) prog \<Rightarrow> ('r \<Rightarrow> ('c, 'a, 'q) prog) \<Rightarrow> ('c, 'a, 'q) prog" where
  "pbind (Return r) f = f r"
| "pbind (Call c k) f = Call c (\<lambda>a. pbind (k a) f)"

text \<open>For evaluation: what follows a call is left alone until its answer is known.\<close>

lemma Call_lazy: "c = d \<Longrightarrow> Call c k = Call d k"
  by simp

text \<open>Calls made with their answers, in order.\<close>

type_synonym ('c, 'a) calls = "('c \<times> 'a) list"

text \<open>
  Every call the tree can make, after the calls that led to it and whatever their answers were,
  satisfies the guard, and every result satisfies the postcondition.
\<close>

primrec prog_ok ::
  "(('c, 'a) calls \<Rightarrow> 'c \<Rightarrow> bool) \<Rightarrow> (('c, 'a) calls \<Rightarrow> 'r \<Rightarrow> bool) \<Rightarrow> ('c, 'a, 'r) prog \<Rightarrow> ('c, 'a) calls \<Rightarrow> bool" where
  "prog_ok Q R (Return r) h \<longleftrightarrow> R h r"
| "prog_ok Q R (Call c k) h \<longleftrightarrow> Q h c \<and> (\<forall>a. prog_ok Q R (k a) (h @ [(c, a)]))"

abbreviation calls_ok :: "(('c, 'a) calls \<Rightarrow> 'c \<Rightarrow> bool) \<Rightarrow> ('c, 'a, 'r) prog \<Rightarrow> ('c, 'a) calls \<Rightarrow> bool" where
  "calls_ok Q \<equiv> prog_ok Q (\<lambda>_ _. True)"

lemma prog_ok_bind [simp]: "prog_ok Q R (pbind p f) h \<longleftrightarrow> prog_ok Q (\<lambda>g r. prog_ok Q R (f r) g) p h"
  by (induction p arbitrary: h) auto

lemma prog_ok_mono:
  assumes "prog_ok Q R p h" "\<And>g c. Q (h @ g) c \<Longrightarrow> Q' (h @ g) c" "\<And>g r. R (h @ g) r \<Longrightarrow> R' (h @ g) r"
  shows "prog_ok Q' R' p h"
  using assms
proof (induction p arbitrary: h)
  case (Return r)
  from Return(1) Return(3) [of "[]"] show ?case by simp
next
  case (Call c k)
  show ?case
  proof (simp, intro conjI allI)
    from Call(2) Call(3) [of "[]"] show "Q' h c" by simp
  next
    fix a
    from Call(2) have "prog_ok Q R (k a) (h @ [(c, a)])" by simp
    then show "prog_ok Q' R' (k a) (h @ [(c, a)])"
      by (rule Call(1) [rotated]) (use Call(3,4) in auto)
  qed
qed

section \<open>One store\<close>

text \<open>A call does not reach the store, is carried out without its answer coming back, or is answered.\<close>

datatype call_fate = CallUnreached | CallReplyLost | CallAnswered

definition do_call ::
  "('c \<Rightarrow> 's \<Rightarrow> 'a \<times> 's) \<Rightarrow> 'a \<Rightarrow> call_fate \<Rightarrow> 'c \<Rightarrow> 's \<Rightarrow> 'a \<times> 's" where
  "do_call eff failed fate c s =
     (case fate of
        CallUnreached \<Rightarrow> (failed, s)
      | CallReplyLost \<Rightarrow> (failed, snd (eff c s))
      | CallAnswered \<Rightarrow> eff c s)"

text \<open>An operation that runs alone; the fates of its calls are given, later calls are answered.\<close>

primrec run_alone ::
  "('c \<Rightarrow> 's \<Rightarrow> 'a \<times> 's) \<Rightarrow> 'a \<Rightarrow> ('c, 'a, 'r) prog \<Rightarrow> call_fate list \<Rightarrow> 's \<Rightarrow> 'r \<times> 's" where
  "run_alone eff failed (Return r) fates s = (r, s)"
| "run_alone eff failed (Call c k) fates s =
     (case do_call eff failed (case fates of [] \<Rightarrow> CallAnswered | f # _ \<Rightarrow> f) c s of
        (a, s') \<Rightarrow> run_alone eff failed (k a) (tl fates) s')"

lemma run_alone_bind:
  "run_alone eff failed (pbind p f) [] s =
     (case run_alone eff failed p [] s of (r, s') \<Rightarrow> run_alone eff failed (f r) [] s')"
  by (induction p arbitrary: s) (auto split: prod.splits)

section \<open>Many operations at once\<close>

record ('c, 'a, 'r) thread =
  th_start :: "('c, 'a, 'r) prog"
  th_calls :: "('c, 'a) calls"
  th_rest :: "('c, 'a, 'r) prog"

text \<open>An entry of the log: the operation, its call, the fate of the call and its answer.\<close>

record ('c, 'a) entry =
  en_thread :: nat
  en_call :: 'c
  en_fate :: call_fate
  en_answer :: 'a

record ('s, 'c, 'a, 'r) system =
  sy_store :: 's
  sy_threads :: "('c, 'a, 'r) thread list"
  sy_log :: "('c, 'a) entry list"

definition fresh_thread :: "('c, 'a, 'r) prog \<Rightarrow> ('c, 'a, 'r) thread" where
  "fresh_thread p = \<lparr> th_start = p, th_calls = [], th_rest = p \<rparr>"

text \<open>
  \<open>starts\<close> are the operations that may be begun, \<open>world\<close> is what else happens to the store (the
  clock, expiry).
\<close>

inductive sys_step ::
  "('c \<Rightarrow> 's \<Rightarrow> 'a \<times> 's) \<Rightarrow> 'a \<Rightarrow> (('c, 'a, 'r) prog \<Rightarrow> bool) \<Rightarrow> ('s \<Rightarrow> 's \<Rightarrow> bool) \<Rightarrow>
   ('s, 'c, 'a, 'r) system \<Rightarrow> ('s, 'c, 'a, 'r) system \<Rightarrow> bool"
  for eff failed starts world where
  begin_op: "starts p \<Longrightarrow>
    sys_step eff failed starts world S (S\<lparr>sy_threads := sy_threads S @ [fresh_thread p]\<rparr>)"
| one_call: "i < length (sy_threads S) \<Longrightarrow> th_rest (sy_threads S ! i) = Call c k \<Longrightarrow>
    do_call eff failed fate c (sy_store S) = (a, s') \<Longrightarrow>
    sys_step eff failed starts world S
      (S\<lparr>sy_store := s',
         sy_threads := (sy_threads S)[i := (sy_threads S ! i)\<lparr>th_calls := th_calls (sy_threads S ! i) @ [(c, a)], th_rest := k a\<rparr>],
         sy_log := sy_log S @ [\<lparr> en_thread = i, en_call = c, en_fate = fate, en_answer = a \<rparr>]\<rparr>)"
| world_moves: "world (sy_store S) s' \<Longrightarrow> sys_step eff failed starts world S (S\<lparr>sy_store := s'\<rparr>)"

inductive_cases sys_step_cases: "sys_step eff failed starts world S S'"

definition boot :: "'s \<Rightarrow> ('s, 'c, 'a, 'r) system" where
  "boot s = \<lparr> sy_store = s, sy_threads = [], sy_log = [] \<rparr>"

inductive sys_reach ::
  "('c \<Rightarrow> 's \<Rightarrow> 'a \<times> 's) \<Rightarrow> 'a \<Rightarrow> (('c, 'a, 'r) prog \<Rightarrow> bool) \<Rightarrow> ('s \<Rightarrow> 's \<Rightarrow> bool) \<Rightarrow> 's \<Rightarrow>
   ('s, 'c, 'a, 'r) system \<Rightarrow> bool"
  for eff failed starts world s0 where
  reach_boot: "sys_reach eff failed starts world s0 (boot s0)"
| reach_step: "sys_reach eff failed starts world s0 S \<Longrightarrow> sys_step eff failed starts world S S' \<Longrightarrow>
    sys_reach eff failed starts world s0 S'"

section \<open>What holds of every interleaving\<close>

text \<open>The history of a thread leads from its start to what is left of it.\<close>

inductive leads_to :: "('c, 'a, 'r) prog \<Rightarrow> ('c, 'a) calls \<Rightarrow> ('c, 'a, 'r) prog \<Rightarrow> bool" where
  leads_Nil: "leads_to p [] p"
| leads_snoc: "leads_to p h (Call c k) \<Longrightarrow> leads_to p (h @ [(c, a)]) (k a)"

lemma leads_to_ok:
  "leads_to p h q \<Longrightarrow> prog_ok Q R p [] \<Longrightarrow> prog_ok Q R q h"
  by (induction rule: leads_to.induct) auto

definition threads_ok :: "(('c, 'a, 'r) prog \<Rightarrow> bool) \<Rightarrow> ('s, 'c, 'a, 'r) system \<Rightarrow> bool" where
  "threads_ok starts S \<longleftrightarrow>
     (\<forall>t \<in> set (sy_threads S). starts (th_start t) \<and> leads_to (th_start t) (th_calls t) (th_rest t))"

lemma threads_ok_step:
  "sys_step eff failed starts world S S' \<Longrightarrow> threads_ok starts S \<Longrightarrow> threads_ok starts S'"
proof (induction rule: sys_step.induct)
  case (begin_op p S)
  then show ?case by (auto simp: threads_ok_def fresh_thread_def intro: leads_Nil)
next
  case (one_call i S c k fate a s')
  let ?t = "sy_threads S ! i"
  from one_call have "starts (th_start ?t)" "leads_to (th_start ?t) (th_calls ?t) (Call c k)"
    by (metis nth_mem threads_ok_def)+
  then have "starts (th_start ?t)" "leads_to (th_start ?t) (th_calls ?t @ [(c, a)]) (k a)"
    by (auto intro: leads_snoc)
  with one_call show ?case
    by (auto simp: threads_ok_def dest!: set_update_subset_insert [THEN subsetD])
next
  case (world_moves S s')
  then show ?case by (simp add: threads_ok_def)
qed

lemma threads_ok_reach: "sys_reach eff failed starts world s0 S \<Longrightarrow> threads_ok starts S"
proof (induction rule: sys_reach.induct)
  case reach_boot
  then show ?case by (simp add: threads_ok_def boot_def)
qed (rule threads_ok_step)

text \<open>A result that a thread has come to satisfies the postcondition of its operation.\<close>

lemma result_ok_reach:
  assumes "sys_reach eff failed starts world s0 S" "\<And>p. starts p \<Longrightarrow> prog_ok (Q p) (R p) p []"
    and "t \<in> set (sy_threads S)" "th_rest t = Return r"
  shows "R (th_start t) (th_calls t) r"
proof -
  from threads_ok_reach [OF assms(1)] assms(3) have "starts (th_start t)" "leads_to (th_start t) (th_calls t) (th_rest t)"
    by (auto simp: threads_ok_def)
  with assms(2) have "prog_ok (Q (th_start t)) (R (th_start t)) (th_rest t) (th_calls t)" by (blast intro: leads_to_ok)
  with assms(4) show ?thesis by simp
qed

text \<open>The part of the log that one thread wrote is its history.\<close>

definition calls_of :: "nat \<Rightarrow> ('c, 'a) entry list \<Rightarrow> ('c, 'a) calls" where
  "calls_of i es = map (\<lambda>e. (en_call e, en_answer e)) (filter (\<lambda>e. en_thread e = i) es)"

lemma calls_of_snoc:
  "calls_of i (es @ [e]) = calls_of i es @ (if en_thread e = i then [(en_call e, en_answer e)] else [])"
  by (simp add: calls_of_def)

lemma calls_of_member:
  "(c, a) \<in> set (calls_of i es) \<longleftrightarrow> (\<exists>e \<in> set es. en_thread e = i \<and> en_call e = c \<and> en_answer e = a)"
  by (auto simp: calls_of_def)

lemma calls_of_take:
  assumes "(c, a) \<in> set (calls_of i (take n es))"
  shows "\<exists>k < n. k < length es \<and> en_thread (es ! k) = i \<and> en_call (es ! k) = c \<and> en_answer (es ! k) = a"
proof -
  from assms obtain e where "e \<in> set (take n es)" "en_thread e = i" "en_call e = c" "en_answer e = a"
    by (auto simp: calls_of_member)
  then show ?thesis by (fastforce simp: in_set_conv_nth)
qed

definition logs_ok :: "('s, 'c, 'a, 'r) system \<Rightarrow> bool" where
  "logs_ok S \<longleftrightarrow>
     (\<forall>i < length (sy_threads S). calls_of i (sy_log S) = th_calls (sy_threads S ! i)) \<and>
     (\<forall>e \<in> set (sy_log S). en_thread e < length (sy_threads S))"

lemma logs_ok_step: "sys_step eff failed starts world S S' \<Longrightarrow> logs_ok S \<Longrightarrow> logs_ok S'"
proof (induction rule: sys_step.induct)
  case (begin_op p S)
  then have "calls_of (length (sy_threads S)) (sy_log S) = []"
    by (auto simp: logs_ok_def calls_of_def filter_empty_conv)
  with begin_op show ?case
    by (auto simp: logs_ok_def nth_append fresh_thread_def less_Suc_eq)
next
  case (one_call i S c k fate a s')
  then show ?case by (auto simp: logs_ok_def calls_of_snoc nth_list_update)
next
  case (world_moves S s')
  then show ?case by (simp add: logs_ok_def)
qed

lemma logs_ok_reach: "sys_reach eff failed starts world s0 S \<Longrightarrow> logs_ok S"
proof (induction rule: sys_reach.induct)
  case reach_boot
  then show ?case by (simp add: logs_ok_def boot_def)
qed (rule logs_ok_step)

text \<open>
  What every tree checks before a call has been checked in every interleaving.  The guard may depend on
  the operation.
\<close>

definition log_guarded ::
  "(('c, 'a, 'r) prog \<Rightarrow> ('c, 'a) calls \<Rightarrow> 'c \<Rightarrow> bool) \<Rightarrow> ('s, 'c, 'a, 'r) system \<Rightarrow> bool" where
  "log_guarded Q S \<longleftrightarrow>
     (\<forall>n < length (sy_log S).
        let e = sy_log S ! n in
        Q (th_start (sy_threads S ! en_thread e)) (calls_of (en_thread e) (take n (sy_log S))) (en_call e))"

lemma next_call_guarded:
  assumes "threads_ok starts S" "\<And>p. starts p \<Longrightarrow> calls_ok (Q p) p []" "i < length (sy_threads S)"
    and "th_rest (sy_threads S ! i) = Call c k"
  shows "Q (th_start (sy_threads S ! i)) (th_calls (sy_threads S ! i)) c"
proof -
  let ?t = "sy_threads S ! i"
  from assms(1,3) have "starts (th_start ?t)" "leads_to (th_start ?t) (th_calls ?t) (th_rest ?t)"
    by (simp_all add: threads_ok_def)
  with assms(2) have "calls_ok (Q (th_start ?t)) (th_rest ?t) (th_calls ?t)" by (blast intro: leads_to_ok)
  with assms(4) show ?thesis by simp
qed

lemma log_guarded_reach:
  assumes "sys_reach eff failed starts world s0 S" and starts: "\<And>p. starts p \<Longrightarrow> calls_ok (Q p) p []"
  shows "log_guarded Q S"
  using assms(1)
proof (induction rule: sys_reach.induct)
  case reach_boot
  then show ?case by (simp add: boot_def log_guarded_def)
next
  case (reach_step S S')
  note ok = threads_ok_reach [OF reach_step(1)] logs_ok_reach [OF reach_step(1)]
  from reach_step(2,3) ok show ?case
  proof (induction rule: sys_step.induct)
    case (begin_op p S)
    then have "en_thread (sy_log S ! n) < length (sy_threads S)" if "n < length (sy_log S)" for n
      using that by (auto simp: logs_ok_def)
    with begin_op show ?case by (auto simp: log_guarded_def Let_def nth_append)
  next
    case (one_call i S c k fate a s')
    have same: "th_start ((sy_threads S)[i := (sy_threads S ! i)\<lparr>th_calls := h, th_rest := q\<rparr>] ! j) = th_start (sy_threads S ! j)"
      for h q j
      using one_call(1) by (cases "i = j") auto
    from next_call_guarded [OF one_call(5) starts one_call(1,2)] one_call(1,4,6) show ?case
      by (auto simp: log_guarded_def Let_def nth_append less_Suc_eq same logs_ok_def)
  next
    case (world_moves S s')
    then show ?case by (simp add: log_guarded_def)
  qed
qed

section \<open>The log replayed\<close>

definition replay ::
  "('c \<Rightarrow> 's \<Rightarrow> 'a \<times> 's) \<Rightarrow> 'a \<Rightarrow> 's \<Rightarrow> ('c, 'a) entry list \<Rightarrow> 's" where
  "replay eff failed s0 es = fold (\<lambda>e s. snd (do_call eff failed (en_fate e) (en_call e) s)) es s0"

lemma replay_simps [simp]:
  "replay eff failed s0 [] = s0"
  "replay eff failed s0 (es @ [e]) = snd (do_call eff failed (en_fate e) (en_call e) (replay eff failed s0 es))"
  by (simp_all add: replay_def)

section \<open>Schedules\<close>

text \<open>A run that is given move by move; \<open>None\<close> when a move is not possible.\<close>

datatype ('c, 'a, 'r) move = Begin "('c, 'a, 'r) prog" | Step nat call_fate

primrec do_move ::
  "('c \<Rightarrow> 's \<Rightarrow> 'a \<times> 's) \<Rightarrow> 'a \<Rightarrow> ('c, 'a, 'r) move \<Rightarrow> ('s, 'c, 'a, 'r) system \<Rightarrow> ('s, 'c, 'a, 'r) system option" where
  "do_move eff failed (Begin p) S = Some (S\<lparr>sy_threads := sy_threads S @ [fresh_thread p]\<rparr>)"
| "do_move eff failed (Step i fate) S =
     (if i < length (sy_threads S)
      then (let t = sy_threads S ! i in
            case th_rest t of
              Return r \<Rightarrow> None
            | Call c k \<Rightarrow>
                (case do_call eff failed fate c (sy_store S) of
                   (a, s') \<Rightarrow>
                     Some (S\<lparr>sy_store := s',
                             sy_threads := (sy_threads S)[i := t\<lparr>th_calls := th_calls t @ [(c, a)], th_rest := k a\<rparr>],
                             sy_log := sy_log S @ [\<lparr> en_thread = i, en_call = c, en_fate = fate, en_answer = a \<rparr>]\<rparr>)))
      else None)"

primrec do_moves ::
  "('c \<Rightarrow> 's \<Rightarrow> 'a \<times> 's) \<Rightarrow> 'a \<Rightarrow> ('c, 'a, 'r) move list \<Rightarrow> ('s, 'c, 'a, 'r) system \<Rightarrow> ('s, 'c, 'a, 'r) system option" where
  "do_moves eff failed [] S = Some S"
| "do_moves eff failed (m # ms) S = Option.bind (do_move eff failed m S) (do_moves eff failed ms)"

lemma do_move_step:
  "do_move eff failed m S = Some S' \<Longrightarrow> (\<And>p. m = Begin p \<Longrightarrow> starts p) \<Longrightarrow> sys_step eff failed starts world S S'"
  by (cases m) (auto simp: Let_def split: if_splits prog.splits prod.splits intro: begin_op one_call)

lemma do_moves_reach:
  assumes "do_moves eff failed ms S = Some S'" "sys_reach eff failed starts world s0 S"
    and "\<And>p. Begin p \<in> set ms \<Longrightarrow> starts p"
  shows "sys_reach eff failed starts world s0 S'"
  using assms
proof (induction ms arbitrary: S)
  case (Cons m ms)
  then obtain S1 where S1: "do_move eff failed m S = Some S1" "do_moves eff failed ms S1 = Some S'"
    by (auto simp: Option.bind_eq_Some_conv)
  from S1(1) Cons.prems(3) have "sys_step eff failed starts world S S1"
    by (intro do_move_step [OF S1(1)]) auto
  with Cons.prems(2) have "sys_reach eff failed starts world s0 S1" by (rule reach_step)
  with S1(2) Cons.prems(3) show ?case by (intro Cons.IH) auto
qed simp

section \<open>Invariants of the store\<close>

text \<open>
  A condition on the store and the log that every call keeps, given what the tree checked before, and
  that the world keeps.
\<close>

locale store_invariant =
  fixes eff :: "'c \<Rightarrow> 's \<Rightarrow> 'a \<times> 's" and failed :: 'a and starts :: "('c, 'a, 'r) prog \<Rightarrow> bool"
    and world :: "'s \<Rightarrow> 's \<Rightarrow> bool" and Q :: "('c, 'a) calls \<Rightarrow> 'c \<Rightarrow> bool"
    and I :: "('c, 'a) entry list \<Rightarrow> 's \<Rightarrow> bool"
  assumes starts_ok: "starts p \<Longrightarrow> calls_ok Q p []"
    and call_keeps: "I es s \<Longrightarrow> Q (calls_of i es) c \<Longrightarrow> do_call eff failed fate c s = (a, s') \<Longrightarrow>
      I (es @ [\<lparr> en_thread = i, en_call = c, en_fate = fate, en_answer = a \<rparr>]) s'"
    and world_keeps: "I es s \<Longrightarrow> world s s' \<Longrightarrow> I es s'"
begin

lemma invariant:
  assumes "sys_reach eff failed starts world s0 S" "I [] s0"
  shows "I (sy_log S) (sy_store S)"
  using assms(1)
proof (induction rule: sys_reach.induct)
  case reach_boot
  with assms(2) show ?case by (simp add: boot_def)
next
  case (reach_step S S')
  note ok = threads_ok_reach [OF reach_step(1)] logs_ok_reach [OF reach_step(1)]
  from reach_step(2,3) ok show ?case
  proof (induction rule: sys_step.induct)
    case (one_call i S c k fate a s')
    from next_call_guarded [OF one_call(5), of "\<lambda>_. Q", OF starts_ok one_call(1,2)] one_call
    show ?case by (auto simp: logs_ok_def intro: call_keeps)
  qed (auto intro: world_keeps)
qed

end

end
