(* ===== verification/RedisTasks.thy ===== *)
theory RedisTasks
  imports TaskProps Programs
begin

text \<open>
  \<open>sdk/mcp/tasks_redis.go\<close>: the task store when Redis is configured.  A task is one key with a JSON text
  and an expiry, tasks in flight are a set, and an update is a read followed by a script that writes
  only if the text is still the one read.  Other servers may do anything in between.
\<close>

section \<open>Redis\<close>

record redis_tasks =
  rt_keys :: "string \<Rightarrow> (string \<times> time) option"    \<comment> \<open>text and instant of expiry\<close>
  rt_inflight :: "string set"

text \<open>A call is not made, is made without its reply coming back, or is answered.\<close>

type_synonym redis_call = call_fate

record task_codec =
  tc_encode :: "task_rec \<Rightarrow> string option"
  tc_decode :: "string \<Rightarrow> task_rec option"

definition live_text :: "time \<Rightarrow> string \<Rightarrow> redis_tasks \<Rightarrow> string option" where
  "live_text now i s = (case rt_keys s i of Some (b, e) \<Rightarrow> if now < e then Some b else None | None \<Rightarrow> None)"

definition redis_get :: "task_codec \<Rightarrow> redis_call \<Rightarrow> time \<Rightarrow> string \<Rightarrow> redis_tasks \<Rightarrow> task_rec option" where
  "redis_get cd call now i s =
     (if call \<noteq> CallAnswered then None
      else case live_text now i s of
        None \<Rightarrow> None
      | Some b \<Rightarrow> map_option (\<lambda>t. t\<lparr>t_cancel := False\<rparr>) (tc_decode cd b))"

section \<open>A new task\<close>

text \<open>Seconds, at least a minute.\<close>

definition working_ttl :: "int \<Rightarrow> int" where
  "working_ttl max_age = (let n = max_age div 1000000 in if n < 60 then 60 else n)"

text \<open>\<open>claimAndSetTask\<close>: 1 when the task was claimed, 0 when the cap is reached.\<close>

definition claim_script :: "time \<Rightarrow> int \<Rightarrow> string \<Rightarrow> string \<Rightarrow> int \<Rightarrow> redis_tasks \<Rightarrow> int \<times> redis_tasks" where
  "claim_script now cap i b ttl s =
     (if cap \<le> int (card (rt_inflight s)) then (0, s)
      else (1, s\<lparr>rt_inflight := insert i (rt_inflight s),
                 rt_keys := (rt_keys s)(i \<mapsto> (b, now + ttl * 1000000))\<rparr>))"

datatype redis_put_error = PutMarshal | PutCall | PutFull

definition redis_put_new ::
  "task_codec \<Rightarrow> redis_call \<Rightarrow> time \<Rightarrow> int \<Rightarrow> int \<Rightarrow> task_rec \<Rightarrow> redis_tasks \<Rightarrow> (redis_put_error + unit) \<times> redis_tasks" where
  "redis_put_new cd call now cap max_age t s =
     (case tc_encode cd (t\<lparr>t_cancel := False\<rparr>) of
        None \<Rightarrow> (Inl PutMarshal, s)
      | Some b \<Rightarrow>
          (case claim_script now cap (t_id t) b (working_ttl max_age) s of
             (claimed, s') \<Rightarrow>
               (case call of
                  CallUnreached \<Rightarrow> (Inl PutCall, s)
                | CallReplyLost \<Rightarrow> (Inl PutCall, s')
                | CallAnswered \<Rightarrow> (if claimed = 0 then Inl PutFull else Inr (), s'))))"

section \<open>Updates\<close>

text \<open>\<open>casSetTask\<close>: 1 when written, 0 on a conflict, -1 when the key is gone.\<close>

definition cas_script ::
  "time \<Rightarrow> string \<Rightarrow> string \<Rightarrow> string \<Rightarrow> bool \<Rightarrow> int \<Rightarrow> redis_tasks \<Rightarrow> int \<times> redis_tasks" where
  "cas_script now i old new ended ttl s =
     (case live_text now i s of
        None \<Rightarrow> (- 1, s)
      | Some cur \<Rightarrow>
          if cur \<noteq> old then (0, s)
          else (1, s\<lparr>rt_keys := (rt_keys s)(i \<mapsto> (new, now + ttl * 1000000)),
                     rt_inflight := (if ended then rt_inflight s - {i} else rt_inflight s)\<rparr>))"

definition update_ttl :: "int \<Rightarrow> int \<Rightarrow> bool \<Rightarrow> int" where
  "update_ttl ttl max_age ended =
     (if ended then (let n = ttl div 1000000 in if n < 1 then 1 else n) else working_ttl max_age)"

text \<open>What the world does during one attempt: both calls, their times, and the writes of others.\<close>

record attempt =
  ra_before :: "redis_tasks \<Rightarrow> redis_tasks"
  ra_get :: redis_call
  ra_at :: time
  ra_between :: "redis_tasks \<Rightarrow> redis_tasks"
  ra_cas :: redis_call
  ra_cas_at :: time

text \<open>One turn of the loop of \<open>redisUpdate\<close>: it returns, or it met a conflict and tries again.\<close>

datatype 'v turn = Return bool 'v redis_tasks | Again 'v redis_tasks

definition write_back ::
  "int \<Rightarrow> int \<Rightarrow> string \<Rightarrow> attempt \<Rightarrow> string \<Rightarrow> string \<Rightarrow> bool \<Rightarrow> 'v \<Rightarrow> redis_tasks \<Rightarrow> 'v turn" where
  "write_back ttl max_age i w old new ended v s =
     (case cas_script (ra_cas_at w) i old new ended (update_ttl ttl max_age ended) s of
        (res, s') \<Rightarrow>
          (case ra_cas w of
             CallUnreached \<Rightarrow> Return False v s
           | CallReplyLost \<Rightarrow> Return False v s'
           | CallAnswered \<Rightarrow> if res = 1 then Return True v s' else if res = - 1 then Return False v s' else Again v s'))"

definition update_turn ::
  "task_codec \<Rightarrow> int \<Rightarrow> int \<Rightarrow> string \<Rightarrow> 'v task_update \<Rightarrow> attempt \<Rightarrow> 'v \<Rightarrow> redis_tasks \<Rightarrow> 'v turn" where
  "update_turn cd ttl max_age i f w v s =
     (let s1 = ra_before w s in
      if ra_get w \<noteq> CallAnswered then Return False v s1
      else case live_text (ra_at w) i s1 of
        None \<Rightarrow> Return False v s1
      | Some old \<Rightarrow>
          (case tc_decode cd old of
             None \<Rightarrow> Return False v s1
           | Some t \<Rightarrow>
               (case f t v of (mutated, t', v') \<Rightarrow>
                  if \<not> mutated then Return True v' s1
                  else case tc_encode cd (t'\<lparr>t_updated := ra_at w, t_cancel := False\<rparr>) of
                    None \<Rightarrow> Return False v' s1
                  | Some new \<Rightarrow> write_back ttl max_age i w old new (terminal t') v' (ra_between w s1))))"

text \<open>The captured variables of the closure are kept from one turn to the next.\<close>

primrec update_loop ::
  "task_codec \<Rightarrow> int \<Rightarrow> int \<Rightarrow> string \<Rightarrow> 'v task_update \<Rightarrow> nat \<Rightarrow> (nat \<Rightarrow> attempt) \<Rightarrow> 'v \<Rightarrow> redis_tasks \<Rightarrow>
   bool \<times> 'v \<times> redis_tasks" where
  "update_loop cd ttl max_age i f 0 world v s = (False, v, s)"
| "update_loop cd ttl max_age i f (Suc n) world v s =
     (case update_turn cd ttl max_age i f (world n) v s of
        Return ok v' s' \<Rightarrow> (ok, v', s')
      | Again v' s' \<Rightarrow> update_loop cd ttl max_age i f n world v' s')"

definition max_update_attempts :: nat where
  "max_update_attempts = 8"

definition redis_update ::
  "task_codec \<Rightarrow> int \<Rightarrow> int \<Rightarrow> string \<Rightarrow> 'v task_update \<Rightarrow> (nat \<Rightarrow> attempt) \<Rightarrow> 'v \<Rightarrow> redis_tasks \<Rightarrow>
   bool \<times> 'v \<times> redis_tasks" where
  "redis_update cd ttl max_age i f world v s = update_loop cd ttl max_age i f max_update_attempts world v s"

section \<open>The sweep\<close>

text \<open>What a sweep does with one id of the set: the new state, whether it failed the task, whether it cancels it.\<close>

record sweep_world =
  sw_get :: redis_call
  sw_rem :: redis_call
  sw_update :: "nat \<Rightarrow> attempt"

definition drop_inflight :: "redis_call \<Rightarrow> string \<Rightarrow> redis_tasks \<Rightarrow> redis_tasks" where
  "drop_inflight call i s = (if call = CallUnreached then s else s\<lparr>rt_inflight := rt_inflight s - {i}\<rparr>)"

definition sweep_id ::
  "(string \<Rightarrow> bool) \<Rightarrow> task_codec \<Rightarrow> int \<Rightarrow> int \<Rightarrow> time \<Rightarrow> sweep_world \<Rightarrow> string \<Rightarrow> redis_tasks \<Rightarrow> redis_tasks \<times> bool \<times> bool" where
  "sweep_id uuid cd ttl max_age now w i s =
     (if \<not> valid_task_id uuid i then (drop_inflight (sw_rem w) i s, False, False)
      else case redis_get cd (sw_get w) now i s of
        None \<Rightarrow> (drop_inflight (sw_rem w) i s, False, False)
      | Some t \<Rightarrow>
          if terminal t then (drop_inflight (sw_rem w) i s, False, False)
          else if t_created t < now - max_age
            then (case redis_update cd ttl max_age i
                         (noting_end (ending (end_task TFailed ''task exceeded max age'' ''timed out'' now)))
                         (sw_update w) ((), None) s of
                    (became, _, s') \<Rightarrow> (s', became, True))
          else (s, False, False))"

text \<open>The ids come from one read of the set; a cancel function of this server is called for each that is cancelled.\<close>

definition expire_redis ::
  "(string \<Rightarrow> bool) \<Rightarrow> task_codec \<Rightarrow> int \<Rightarrow> int \<Rightarrow> time \<Rightarrow> (string \<Rightarrow> sweep_world) \<Rightarrow> string list option \<Rightarrow>
   redis_tasks \<Rightarrow> redis_tasks \<times> string list" where
  "expire_redis uuid cd ttl max_age now w members s =
     (case members of
        None \<Rightarrow> (s, [])
      | Some is \<Rightarrow>
          fold (\<lambda>i (s, fns). case sweep_id uuid cd ttl max_age now (w i) i s of
                   (s', _, cancel) \<Rightarrow> (s', if cancel then fns @ [i] else fns)) is (s, []))"

section \<open>An update takes effect at one moment\<close>

text \<open>
  The moment: the state in which the record that the closure saw was the stored one, and what was
  written then.
\<close>

definition update_moment ::
  "task_codec \<Rightarrow> int \<Rightarrow> int \<Rightarrow> string \<Rightarrow> 'v task_update \<Rightarrow> 'v \<Rightarrow> redis_tasks \<Rightarrow> redis_tasks \<Rightarrow> bool" where
  "update_moment cd ttl max_age i f v' s1 s' \<longleftrightarrow>
     (\<exists>wt old t v c t'. live_text wt i s1 = Some old \<and> tc_decode cd old = Some t \<and> f t v = (c, t', v') \<and>
        (if c then \<exists>stamp new. tc_encode cd (t'\<lparr>t_updated := stamp, t_cancel := False\<rparr>) = Some new \<and>
             s' = s1\<lparr>rt_keys := (rt_keys s1)(i \<mapsto> (new, wt + update_ttl ttl max_age (terminal t') * 1000000)),
                     rt_inflight := (if terminal t' then rt_inflight s1 - {i} else rt_inflight s1)\<rparr>
         else s' = s1))"

lemma cas_script_cases:
  "cas_script now i old new ended ttl s = (res, s') \<Longrightarrow>
     res = 1 \<and> live_text now i s = Some old \<and>
       s' = s\<lparr>rt_keys := (rt_keys s)(i \<mapsto> (new, now + ttl * 1000000)),
              rt_inflight := (if ended then rt_inflight s - {i} else rt_inflight s)\<rparr> \<or>
     (res = 0 \<or> res = - 1) \<and> s' = s"
  by (auto simp: cas_script_def split: option.splits if_splits)

lemma write_back_moment:
  assumes "write_back ttl max_age i w old new (terminal t') v' s1 = Return True v2 s'"
    "tc_decode cd old = Some t" "f t v = (True, t', v')" "tc_encode cd (t'\<lparr>t_updated := stamp, t_cancel := False\<rparr>) = Some new"
  shows "update_moment cd ttl max_age i f v2 s1 s'"
proof -
  obtain res s2 where c: "cas_script (ra_cas_at w) i old new (terminal t') (update_ttl ttl max_age (terminal t')) s1 = (res, s2)"
    by fastforce
  then have "res = 1" "v2 = v'" "s' = s2"
    using assms(1) by (auto simp: write_back_def split: call_fate.splits if_splits)
  with cas_script_cases [OF c] assms(2-4) show ?thesis unfolding update_moment_def by fastforce
qed

lemma update_turn_moment:
  assumes "update_turn cd ttl max_age i f w v s = Return True v' s'"
  shows "\<exists>s1. update_moment cd ttl max_age i f v' s1 s'"
proof -
  let ?s1 = "ra_before w s"
  obtain old t where o: "live_text (ra_at w) i ?s1 = Some old" "tc_decode cd old = Some t" "ra_get w = CallAnswered"
    using assms by (auto simp: update_turn_def Let_def split: if_splits option.splits)
  obtain c t' u where f: "f t v = (c, t', u)" by (metis prod_cases3)
  show ?thesis
  proof (cases c)
    case False
    then have "v' = u" "s' = ?s1" using assms o f by (simp_all add: update_turn_def Let_def)
    then have "update_moment cd ttl max_age i f v' ?s1 s'" using o f False unfolding update_moment_def by fastforce
    then show ?thesis ..
  next
    case True
    then obtain new where e: "tc_encode cd (t'\<lparr>t_updated := ra_at w, t_cancel := False\<rparr>) = Some new"
      "write_back ttl max_age i w old new (terminal t') u (ra_between w ?s1) = Return True v' s'"
      using assms o f by (auto simp: update_turn_def Let_def split: option.splits)
    have "f t v = (True, t', u)" using f True by simp
    from write_back_moment [where f = f and v = v and t = t and t' = t' and v' = u and stamp = "ra_at w", OF e(2) o(2) this e(1)]
    show ?thesis ..
  qed
qed

lemma update_loop_moment:
  "update_loop cd ttl max_age i f n world v s = (True, v', s') \<Longrightarrow> \<exists>s1. update_moment cd ttl max_age i f v' s1 s'"
proof (induction n arbitrary: v s)
  case (Suc n)
  then show ?case by (auto split: turn.splits dest: update_turn_moment)
qed simp

text \<open>Without others writing and with every reply arriving, a failed update has written nothing.\<close>

definition undisturbed :: "attempt \<Rightarrow> bool" where
  "undisturbed w \<longleftrightarrow> ra_before w = id \<and> ra_between w = id \<and> ra_cas w \<noteq> CallReplyLost"

lemma undisturbed_turn:
  "undisturbed w \<Longrightarrow> update_turn cd ttl max_age i f w v s = Return False v' s' \<Longrightarrow> s' = s"
  "undisturbed w \<Longrightarrow> update_turn cd ttl max_age i f w v s = Again v' s' \<Longrightarrow> s' = s"
  by (auto simp: undisturbed_def update_turn_def write_back_def Let_def
      dest: cas_script_cases split: if_splits option.splits prod.splits call_fate.splits)

lemma update_loop_failed:
  assumes "update_loop cd ttl max_age i f n world v s = (False, v', s')" "\<And>k. undisturbed (world k)"
  shows "s' = s"
  using assms(1)
proof (induction n arbitrary: v s)
  case (Suc n)
  show ?case
  proof (cases "update_turn cd ttl max_age i f (world n) v s")
    case (Return ok w t)
    then show ?thesis using Suc.prems undisturbed_turn(1) [OF assms(2)] by auto
  next
    case (Again w t)
    then have "t = s" by (rule undisturbed_turn(2) [OF assms(2)])
    then show ?thesis using Suc Again by simp
  qed
qed simp


text \<open>One task whose key was written a second before its time, and an undisturbed world.\<close>

definition redis_demo_task :: task_rec where
  "redis_demo_task =
     \<lparr> t_id = ''task_1'', t_status = TWorking, t_tool = [], t_owner = [], t_created = 0, t_updated = 0,
       t_finished = None, t_result = None, t_error = [], t_progress = 0, t_message = [], t_poll = 2000,
       t_requests = [], t_responses = [], t_used = [], t_cancel = False \<rparr>"

definition redis_demo_codec :: task_codec where
  "redis_demo_codec =
     \<lparr> tc_encode = (\<lambda>t. Some (if terminal t then ''b'' else ''a'')),
       tc_decode = (\<lambda>b. if b = ''a'' then Some redis_demo_task else None) \<rparr>"

definition redis_demo_store :: redis_tasks where
  "redis_demo_store = \<lparr> rt_keys = [''task_1'' \<mapsto> (''a'', 61000000)], rt_inflight = {''task_1''} \<rparr>"

definition calm :: attempt where
  "calm = \<lparr> ra_before = id, ra_get = CallAnswered, ra_at = 1, ra_between = id, ra_cas = CallAnswered, ra_cas_at = 1 \<rparr>"


section \<open>One contract for both stores\<close>

text \<open>
  What the handlers rely on: an update that reports success applied its closure to a record of the
  store, and if the closure changed it, the changed record is the stored one.
\<close>

locale task_backend =
  fixes upd :: "(bool \<times> task_status) task_update \<Rightarrow> bool \<times> task_status \<Rightarrow> 's \<Rightarrow> bool \<times> (bool \<times> task_status) \<times> 's"
    and stored :: "'s \<Rightarrow> task_rec \<Rightarrow> bool"
  assumes applied: "upd f v s = (True, v', s') \<Longrightarrow>
    \<exists>t v0 c t'. f t v0 = (c, t', v') \<and> (c \<longrightarrow> (\<exists>u b. stored s' (t'\<lparr>t_updated := u, t_cancel := b\<rparr>)))"
begin

text \<open>Cancelling tells the truth: the task had ended with the status reported, or it is stored as cancelled.\<close>

lemma cancel_truthful:
  assumes "upd (cancelling now) v s = (True, (already, st), s')"
  shows "already \<and> terminal_status st \<or>
    st = TCancelled \<and> (\<exists>t. stored s' t \<and> t_status t = TCancelled \<and> t_finished t = Some now)"
proof -
  obtain t v0 c t' where a: "cancelling now t v0 = (c, t', (already, st))"
    "c \<longrightarrow> (\<exists>u b. stored s' (t'\<lparr>t_updated := u, t_cancel := b\<rparr>))"
    using applied [OF assms] by blast
  show ?thesis
  proof (cases "terminal t")
    case True
    then show ?thesis using a(1) by (auto simp: cancelling_def terminal_def)
  next
    case False
    then obtain u b where "stored s' ((end_task TCancelled ''cancelled'' ''cancellation requested'' now t)\<lparr>t_updated := u, t_cancel := b\<rparr>)"
      "st = TCancelled"
      using a by (auto simp: cancelling_def)
    then show ?thesis by (intro disjI2) (auto simp: end_task_def intro: exI [rotated])
  qed
qed

end

interpretation memory_backend: task_backend "update_task uuid now i" "\<lambda>s t. find_task s i = Some t"
  for uuid :: "string \<Rightarrow> bool" and now :: time and i :: string
proof unfold_locales
  fix f :: "(bool \<times> task_status) task_update" and v v' s s'
  assume u: "update_task uuid now i f v s = (True, v', s')"
  then obtain t where t: "find_task s i = Some t" using update_task_ok [OF u] by auto
  obtain c t' w where f: "f t v = (c, t', w)" by (metis prod_cases3)
  with u t have "w = v'" by (auto simp: update_task_def split: if_splits)
  moreover have "c \<longrightarrow> find_task s' i = Some (t'\<lparr>t_updated := now, t_cancel := t_cancel t'\<rparr>)"
    using find_update_task [OF u, of i] t f by (simp add: updated_rec_def)
  ultimately show "\<exists>t v0 c t'. f t v0 = (c, t', v') \<and> (c \<longrightarrow> (\<exists>u b. find_task s' i = Some (t'\<lparr>t_updated := u, t_cancel := b\<rparr>)))"
    using f by blast
qed

interpretation redis_backend: task_backend "\<lambda>f. redis_update cd ttl max_age i f world"
    "\<lambda>s t. \<exists>b e. rt_keys s i = Some (b, e) \<and> tc_encode cd t = Some b"
  for cd :: task_codec and ttl max_age :: int and i :: string and world :: "nat \<Rightarrow> attempt"
proof unfold_locales
  fix f :: "(bool \<times> task_status) task_update" and v v' s s'
  assume "redis_update cd ttl max_age i f world v s = (True, v', s')"
  then obtain s1 where "update_moment cd ttl max_age i f v' s1 s'"
    unfolding redis_update_def by (elim exE [OF update_loop_moment])
  then show "\<exists>t v0 c t'. f t v0 = (c, t', v') \<and>
    (c \<longrightarrow> (\<exists>u b. \<exists>x e. rt_keys s' i = Some (x, e) \<and> tc_encode cd (t'\<lparr>t_updated := u, t_cancel := b\<rparr>) = Some x))"
    unfolding update_moment_def by (fastforce split: if_splits)
qed

section \<open>What a sweep can do\<close>

text \<open>
  The maximum age has no effect on a task that is stored in Redis and not written again:
  its key expires when the age is reached, so a sweep finds either a task that is young enough or no
  task; it cancels the tool only if it comes in the moment \<open>d\<close> between the creation and the write of
  the key, moved by the maximum age.  The tool of a task that hangs is never cancelled.
\<close>
theorem redis_age_limit_ineffective:
  assumes "rt_keys s i = Some (b, t_created t + d + working_ttl max_age * 1000000)"
    "tc_decode cd b = Some t" "max_age mod 1000000 = 0" "60 * 1000000 \<le> max_age"
    "sweep_id uuid cd ttl max_age now w i s = (s', failed, cancelled)"
  shows "(cancelled \<longrightarrow> t_created t + max_age < now \<and> now < t_created t + max_age + d) \<and>
    (\<not> cancelled \<longrightarrow> rt_keys s' = rt_keys s)"
proof -
  have "60 \<le> max_age div 1000000" using assms(4) by linarith
  then have ttl: "working_ttl max_age * 1000000 = max_age"
    using assms(3) by (auto simp: working_ttl_def Let_def)
  have g: "redis_get cd (sw_get w) now i s = Some x \<Longrightarrow> x = t\<lparr>t_cancel := False\<rparr> \<and> now < t_created t + d + max_age" for x
    using assms(1,2) ttl by (auto simp: redis_get_def live_text_def split: if_splits)
  show ?thesis
  proof (cases cancelled)
    case True
    then obtain x where "redis_get cd (sw_get w) now i s = Some x" "t_created x < now - max_age"
      using assms(5) by (auto simp: sweep_id_def split: option.splits if_splits prod.splits)
    with g True show ?thesis by fastforce
  next
    case False
    then show ?thesis
      using assms(5) by (auto simp: sweep_id_def drop_inflight_def split: option.splits if_splits prod.splits)
  qed
qed

theorem redis_age_limit_ineffective_witness:
  "snd (snd (sweep_id (\<lambda>_. True) redis_demo_codec 60000000 60000000 61000000
     \<lparr> sw_get = CallAnswered, sw_rem = CallAnswered, sw_update = (\<lambda>_. calm) \<rparr> ''task_1'' redis_demo_store)) = False"
proof -
  obtain s' r c where s: "sweep_id (\<lambda>_. True) redis_demo_codec 60000000 60000000 61000000
     \<lparr> sw_get = CallAnswered, sw_rem = CallAnswered, sw_update = (\<lambda>_. calm) \<rparr> ''task_1'' redis_demo_store = (s', r, c)"
    by (metis prod_cases3)
  have "rt_keys redis_demo_store ''task_1'' = Some (''a'', t_created redis_demo_task + 1000000 + working_ttl 60000000 * 1000000)"
    "tc_decode redis_demo_codec ''a'' = Some redis_demo_task" "(60000000::int) mod 1000000 = 0" "60 * 1000000 \<le> (60000000::int)"
    by (simp_all add: redis_demo_store_def redis_demo_task_def redis_demo_codec_def working_ttl_def)
  from redis_age_limit_ineffective [OF this s] s show ?thesis by (simp add: redis_demo_task_def)
qed

text \<open>A read that fails is taken for a task that is gone: a task in flight leaves the set, and the cap with it.\<close>

lemma failed_read_drops_task:
  assumes "valid_task_id uuid i" "sw_get w \<noteq> CallAnswered" "sw_rem w = CallAnswered"
  shows "sweep_id uuid cd ttl max_age now w i s = (s\<lparr>rt_inflight := rt_inflight s - {i}\<rparr>, False, False)"
  using assms by (simp add: sweep_id_def redis_get_def drop_inflight_def)

end
