(* ===== verification/TaskTools.thy ===== *)
theory TaskTools
  imports TaskHandlers
begin

text \<open>
  \<open>sdk/mcp/tasks_tools.go\<close>, the parts of \<open>args.go\<close> it uses and the dispatcher of \<open>bridge.go\<close>: tasks as
  ordinary tools, and the choice between running a tool at once and starting a task.
\<close>

section \<open>Arguments of any type\<close>

text \<open>A missing member is \<open>nil\<close>.  Numbers print as \<open>FormatFloat\<close> does, which is how \<open>JNum\<close> keeps them.\<close>

fun any_to_tool_arg_string :: "json_codec \<Rightarrow> json \<Rightarrow> string" where
  "any_to_tool_arg_string cd JNull = []"
| "any_to_tool_arg_string cd (JStr s) = s"
| "any_to_tool_arg_string cd (JBool b) = (if b then ''true'' else ''false'')"
| "any_to_tool_arg_string cd (JNum n) = n"
| "any_to_tool_arg_string cd (JArr xs) = js_print cd (JArr xs)"
| "any_to_tool_arg_string cd (JObj ms) = js_print cd (JObj ms)"

definition any_string :: "json_codec \<Rightarrow> json option \<Rightarrow> string" where
  "any_string cd v = (case v of None \<Rightarrow> [] | Some x \<Rightarrow> any_to_tool_arg_string cd x)"

text \<open>All members as strings, for the tools that take \<open>map[string]string\<close>.\<close>

definition coerce_tool_args :: "json_codec \<Rightarrow> string \<Rightarrow> (string \<times> string) list option" where
  "coerce_tool_args cd raw =
     (if raw = [] then Some []
      else map_option (map (\<lambda>(k, v). (k, any_to_tool_arg_string cd v))) (map_option AList.clearjunk (decode_object cd raw)))"

text \<open>\<open>number\<close> reads a decimal; finite values only.\<close>

definition any_float :: "(string \<Rightarrow> rat option) \<Rightarrow> json \<Rightarrow> rat option" where
  "any_float number v =
     (case v of
        JNum n \<Rightarrow> number n
      | JStr s \<Rightarrow> (let x = trim_space s in if x = [] then None else number x)
      | _ \<Rightarrow> None)"

text \<open>
  The answer matters only when it is \<open>true\<close>, \<open>false\<close> or empty, words on which lowering ASCII letters and
  lowering all letters agree.
\<close>

definition any_bool_string :: "json_codec \<Rightarrow> json \<Rightarrow> string" where
  "any_bool_string cd v =
     (case v of
        JNull \<Rightarrow> []
      | JBool b \<Rightarrow> (if b then ''true'' else ''false'')
      | JStr x \<Rightarrow>
          (let s = ascii_fold (trim_space x) in
           if s \<in> {''true'', ''1'', ''yes''} then ''true''
           else if s \<in> {''false'', ''0'', ''no''} then ''false'' else s)
      | JNum n \<Rightarrow> (if n = ''1'' then ''true'' else if n = ''0'' \<or> n = ''-0'' then ''false'' else n)
      | _ \<Rightarrow> any_to_tool_arg_string cd v)"

section \<open>The task tools\<close>

text \<open>
  The libraries: the JSON codec, the decoder into a map of responses, the reader of numbers, the
  UUID parser, the quoting verb.
\<close>

record tool_env =
  tl_codec :: json_codec
  tl_responses :: "string \<Rightarrow> (string \<times> input_response) list option"
  tl_number :: "string \<Rightarrow> rat option"
  tl_uuid :: "string \<Rightarrow> bool"
  tl_quote :: "string \<Rightarrow> string"

definition parse_input_responses_arg :: "tool_env \<Rightarrow> json \<Rightarrow> (string \<times> input_response) list option" where
  "parse_input_responses_arg env v =
     (case v of
        JStr x \<Rightarrow> (let s = trim_space x in if s = [] then Some [] else tl_responses env s)
      | _ \<Rightarrow> tl_responses env (js_print (tl_codec env) v))"

datatype task_reply =
    ToolError string
  | GotTask task_view
  | CancelledTask task_status string
  | UpdatedTask task_status string rat

definition is_task_control_tool :: "string \<Rightarrow> bool" where
  "is_task_control_tool name \<longleftrightarrow> name \<in> {''get_task'', ''update_task'', ''cancel_task''}"

definition approve_content :: "json_codec \<Rightarrow> string" where
  "approve_content cd = js_print cd (JObj [(''approved'', JBool True)])"

text \<open>An explicit answer to the confirmation wins over the \<open>approve\<close> flag.\<close>

definition with_approval ::
  "json_codec \<Rightarrow> json option \<Rightarrow> (string \<times> input_response) list \<Rightarrow> string + (string \<times> input_response) list" where
  "with_approval cd approve resps =
     (case approve of
        None \<Rightarrow> Inr resps
      | Some v \<Rightarrow>
          let b = any_bool_string cd v in
          if b = ''true'' then
            Inr (if map_of resps task_confirm_key \<noteq> None then resps
                 else (task_confirm_key, \<lparr> is_action = ''accept'', is_content = approve_content cd, is_error = [] \<rparr>) # resps)
          else if b = ''false'' then
            Inr (if map_of resps task_confirm_key \<noteq> None then resps
                 else (task_confirm_key, \<lparr> is_action = ''decline'', is_content = [], is_error = [] \<rparr>) # resps)
          else if b = [] then Inr resps
          else Inl ''approve must be true or false'')"

definition update_tool_params :: "tool_env \<Rightarrow> string \<Rightarrow> (string \<times> json) list \<Rightarrow> string + update_params" where
  "update_tool_params env i raw =
     (case (case map_of raw ''progress'' of None \<Rightarrow> Some 0 | Some v \<Rightarrow> any_float (tl_number env) v) of
        None \<Rightarrow> Inl ''progress must be a number''
      | Some pr \<Rightarrow>
          (case (case map_of raw ''input_responses'' of
                   None \<Rightarrow> Some []
                 | Some JNull \<Rightarrow> Some []
                 | Some v \<Rightarrow> parse_input_responses_arg env v) of
             None \<Rightarrow> Inl ''input_responses must be a JSON object''
           | Some resps \<Rightarrow>
               rbind (with_approval (tl_codec env) (map_of raw ''approve'') resps)
                 (\<lambda>rs. Inr \<lparr> up_id = i, up_message = any_string (tl_codec env) (map_of raw ''message''),
                             up_progress = pr, up_responses = rs, up_input = [] \<rparr>)))"

definition task_tool_id :: "json_codec \<Rightarrow> (string \<times> json) list \<Rightarrow> string" where
  "task_tool_id cd raw =
     (let i = trim_space (any_string cd (map_of raw ''task_id'')) in
      if i = [] then trim_space (any_string cd (map_of raw ''taskId'')) else i)"

definition tool_fails :: "tool_env \<Rightarrow> task_error \<Rightarrow> task_reply" where
  "tool_fails env e = ToolError (''error: '' @ task_error_text (tl_quote env) e)"

text \<open>The Boolean says whether the context of the task was cancelled.\<close>

definition dispatch_task_tool ::
  "tool_env \<Rightarrow> time \<Rightarrow> string \<Rightarrow> string \<Rightarrow> string \<Rightarrow> task_store \<Rightarrow> task_reply \<times> bool \<times> task_store" where
  "dispatch_task_tool env now actor name args s =
     (case (if args = [] then Some [] else decode_object (tl_codec env) args) of
        None \<Rightarrow> (ToolError ''error: invalid arguments'', False, s)
      | Some raw \<Rightarrow>
          let i = task_tool_id (tl_codec env) raw in
          if i = [] then (ToolError ''error: task_id is required'', False, s)
          else if name = ''get_task'' then
            (case get_task_result (tl_uuid env) actor i s of
               Inl e \<Rightarrow> tool_fails env e | Inr v \<Rightarrow> GotTask v, False, s)
          else if name = ''cancel_task'' then
            (case cancel_task_result (tl_uuid env) now actor i s of
               (r, fired, s') \<Rightarrow> (case r of Inl e \<Rightarrow> tool_fails env e | Inr (st, m) \<Rightarrow> CancelledTask st m, fired, s'))
          else if name = ''update_task'' then
            (case update_tool_params env i raw of
               Inl m \<Rightarrow> (ToolError (''error: '' @ m), False, s)
             | Inr p \<Rightarrow>
                 (case update_task_result (tl_uuid env) now actor (Some p) s of
                    (r, s') \<Rightarrow> (case r of Inl e \<Rightarrow> tool_fails env e | Inr (st, m, pr) \<Rightarrow> UpdatedTask st m pr, False, s')))
          else (ToolError (''error: unknown task tool '' @ tl_quote env name), False, s))"

section \<open>Dispatch\<close>

definition is_taskable_tool :: "string \<Rightarrow> bool" where
  "is_taskable_tool name \<longleftrightarrow>
     name \<in> {''run_command'', ''run_github_repo'', ''pull_image'', ''browser_navigate'', ''browser_pdf''}"

datatype dispatch =
    NoTool
  | ControlTool task_reply bool
  | StartTask "string + string \<times> string \<times> bool"
  | CallNow string string

text \<open>What a call of a tool becomes; \<open>new_id\<close> is the identifier a new task would get.\<close>

definition dispatch_tool ::
  "tool_env \<Rightarrow> time \<Rightarrow> string \<Rightarrow> string \<Rightarrow> string \<Rightarrow> string \<Rightarrow> task_store option \<Rightarrow> dispatch \<times> task_store option" where
  "dispatch_tool env now new_id actor name args tasks =
     (if name = [] then (NoTool, tasks)
      else case tasks of
        None \<Rightarrow> (CallNow name args, None)
      | Some s \<Rightarrow>
          if is_task_control_tool name then
            (case dispatch_task_tool env now actor name args s of (r, fired, s') \<Rightarrow> (ControlTool r fired, Some s'))
          else if wants_async_task (tl_codec env) args \<and> is_taskable_tool name then
            (case start_tool_task (tl_uuid env) (tl_codec env) now new_id actor name args s of
               (r, s') \<Rightarrow> (StartTask r, Some s'))
          else (CallNow name args, Some s))"

section \<open>Properties\<close>

text \<open>The handler of a task's tool never sees the control flags, whatever text its arguments came in.\<close>

lemma map_of_delete_clearjunk:
  "map_of (AList.delete a (AList.delete b (AList.clearjunk ms))) k =
     (if k = a \<or> k = b then None else map_of ms k)"
  by (simp add: delete_conv' map_of_clearjunk)

lemma stripped_flags_gone:
  assumes codec: "\<And>ms. js_parse cd (js_print cd (JObj ms)) = Some (JObj ms)"
    and a: "js_parse cd args = Some (JObj ms)" "args \<noteq> []"
  shows "\<exists>ms'. js_parse cd (strip_task_control_flags cd args) = Some (JObj ms') \<and>
    map_of ms' ''async'' = None \<and> map_of ms' ''confirm'' = None \<and>
    (\<forall>k. k \<noteq> ''async'' \<longrightarrow> k \<noteq> ''confirm'' \<longrightarrow> map_of ms' k = map_of (rev ms) k)"
  using a by (intro exI [of _ "AList.delete ''confirm'' (AList.delete ''async'' (AList.clearjunk (rev ms)))"])
    (simp add: strip_task_control_flags_def codec map_of_delete_clearjunk)

text \<open>\<open>approve\<close> means what it says unless the caller also gave an explicit answer.\<close>

lemma approve_flag_meaning:
  assumes codec: "js_parse cd (approve_content cd) = Some (JObj [(''approved'', JBool True)])" "approve_content cd \<noteq> []"
    and "map_of resps task_confirm_key = None" "with_approval cd (Some v) resps = Inr rs" "any_bool_string cd v \<noteq> []"
  shows "response_approved cd (confirm_response rs) \<longleftrightarrow> any_bool_string cd v = ''true''"
proof -
  consider "any_bool_string cd v = ''true''" | "any_bool_string cd v = ''false''"
    using assms(4,5) by (auto simp: with_approval_def Let_def split: if_splits)
  then show ?thesis
  proof cases
    case 1
    then have "confirm_response rs = \<lparr> is_action = ''accept'', is_content = approve_content cd, is_error = [] \<rparr>"
      using assms(3,4) by (auto simp: with_approval_def confirm_response_def Let_def)
    moreover have "ascii_fold ''approved'' = ''approved''" by code_simp
    ultimately show ?thesis using codec 1 by (simp add: response_approved_def decode_approved_def)
  next
    case 2
    then have "confirm_response rs = \<lparr> is_action = ''decline'', is_content = [], is_error = [] \<rparr>"
      using assms(3,4) by (auto simp: with_approval_def confirm_response_def Let_def)
    then show ?thesis using 2 by (simp add: response_approved_def)
  qed
qed

text \<open>A task is started only for a call that asks for it, of one of the five tools; all else runs at once.\<close>

lemma dispatch_cases:
  assumes "name \<noteq> []" "dispatch_tool env now new_id actor name args (Some s) = (d, tasks')"
  shows "(is_task_control_tool name \<longrightarrow> (\<exists>r fired. d = ControlTool r fired)) \<and>
    (\<not> is_task_control_tool name \<longrightarrow>
       (if wants_async_task (tl_codec env) args \<and> is_taskable_tool name
        then (\<exists>r. d = StartTask r) else d = CallNow name args \<and> tasks' = Some s))"
  using assms by (auto simp: dispatch_tool_def split: prod.splits if_splits)

end
