(* ===== verification/Collab.thy ===== *)
theory Collab
  imports Programs
begin

text \<open>
  \<open>internal/collab\<close>: validation, the agents of a session, their messages and file versions, as
  operations on one Redis and one Postgres.  The clock readings of the process are given (\<open>clk\<close>), the JSON
  codec of an agent is a parameter; published events and rows are records.  The manager always has a
  Redis client (\<open>cmd/api/main.go\<close> makes none without it), so the tests for \<open>nil\<close> are left out.
\<close>

section \<open>Data\<close>

record agent =
  ag_id :: string
  ag_name :: string
  ag_session :: string
  ag_status :: string
  ag_file :: string
  ag_activity :: time
  ag_connected :: time

record message =
  ms_id :: string
  ms_session :: string
  ms_type :: string
  ms_from :: string
  ms_to :: string
  ms_body :: string
  ms_at :: time

record file_change =
  fc_session :: string
  fc_file :: string
  fc_by :: string
  fc_type :: string
  fc_version :: int
  fc_at :: time

datatype ws_event =
    AgentJoined agent
  | AgentLeft string time
  | MessagePosted message
  | FileChanged file_change
  | PresenceUpdate string string string time

datatype collab_error =
    InvalidInput | AgentNotFound | SessionNotFound | SessionNotCollab | MaxAgentsReached
  | EdgeNotFound | EdgeLimit | StoreFailed

section \<open>Validation\<close>

definition id_char :: "char \<Rightarrow> bool" where
  "id_char c \<longleftrightarrow> is_alnum c \<or> c = CHR ''_'' \<or> c = CHR ''-'' \<or> c = CHR ''.''"

definition agent_id_pattern :: "string \<Rightarrow> bool" where
  "agent_id_pattern s \<longleftrightarrow> s \<noteq> [] \<and> is_alnum (hd s) \<and> list_all id_char (tl s)"

definition validate_agent_id :: "string \<Rightarrow> collab_error + unit" where
  "validate_agent_id s =
     (if s = [] then Inl InvalidInput
      else if 64 < length s then Inl InvalidInput
      else if \<not> agent_id_pattern s then Inl InvalidInput
      else Inr ())"

definition validate_text :: "nat \<Rightarrow> string \<Rightarrow> collab_error + unit" where
  "validate_text most s =
     (if most < length s then Inl InvalidInput else if \<not> utf8_valid s then Inl InvalidInput else Inr ())"

definition validate_agent_name :: "string \<Rightarrow> collab_error + unit" where
  "validate_agent_name s = (if s = [] then Inl InvalidInput else validate_text 200 s)"

definition validate_message_body :: "string \<Rightarrow> collab_error + unit" where
  "validate_message_body s = (if s = [] then Inl InvalidInput else validate_text (64 * 1024) s)"

definition validate_message_type :: "string \<Rightarrow> collab_error + unit" where
  "validate_message_type t =
     (if t \<in> {''direct'', ''broadcast'', ''system''} then Inr () else Inl InvalidInput)"

definition validate_file_path :: "string \<Rightarrow> collab_error + unit" where
  "validate_file_path s = validate_text 4096 s"

definition validate_agent_status :: "string \<Rightarrow> collab_error + unit" where
  "validate_agent_status t =
     (if t \<in> {''active'', ''idle'', ''disconnected''} then Inr () else Inl InvalidInput)"

definition validate_max_agents :: "int \<Rightarrow> collab_error + unit" where
  "validate_max_agents n = (if n < 1 then Inl InvalidInput else if 32 < n then Inl InvalidInput else Inr ())"

definition validate_graph_relation :: "string \<Rightarrow> collab_error + unit" where
  "validate_graph_relation r =
     (if r \<in> {''reports_to'', ''reviews'', ''handoff'', ''peer''} then Inr () else Inl InvalidInput)"

section \<open>Redis keys\<close>

definition active_key :: "string \<Rightarrow> string" where
  "active_key sid = ''collab:session:'' @ sid @ '':agents''"

definition agent_key :: "string \<Rightarrow> string \<Rightarrow> string" where
  "agent_key sid aid = ''collab:session:'' @ sid @ '':agent:'' @ aid"

definition events_key :: "string \<Rightarrow> string" where
  "events_key sid = ''collab:session:'' @ sid @ '':events''"

section \<open>The stores\<close>

record agent_row =
  ar_name :: string
  ar_status :: string
  ar_file :: "string option"
  ar_activity :: time
  ar_connected :: time
  ar_left :: "time option"

record version_row =
  vr_change :: file_change
  vr_checksum :: string
  vr_size :: int

record graph_edge =
  ge_id :: string
  ge_session :: string
  ge_from :: string
  ge_to :: string
  ge_relation :: string
  ge_label :: string
  ge_metadata :: string
  ge_created :: time

text \<open>
  A Redis set is a list without duplicates, in the order the server happens to keep; a value has an
  instant of expiry by the clock of Redis.  A session row has its flag and its maximum, both nullable.
\<close>

record collab_state =
  cs_now :: time
  cs_sets :: "string \<Rightarrow> string list"
  cs_vals :: "string \<Rightarrow> (string \<times> time) option"
  cs_published :: "(string \<times> ws_event) list"
  cs_sessions :: "string \<Rightarrow> (bool option \<times> int option) option"
  cs_agents :: "string \<Rightarrow> string \<Rightarrow> agent_row option"
  cs_messages :: "message list"
  cs_versions :: "version_row list"
  cs_edges :: "graph_edge list"

datatype collab_call =
    GetSettings string
  | GetEnabled string
  | SetCollab string int
  | ClaimSlot string string int
  | RemoveMember string string
  | IsMember string string
  | Members string
  | SetValue string string
  | DelValue string
  | GetValue string
  | Publish string ws_event
  | UpsertAgent string agent
  | MarkLeft string string string time
  | SetPresence string string string string time
  | CountAgents string string
  | InsertMessage message
  | SelectMessages string int
  | NextVersion string string
  | InsertVersion version_row
  | MaxVersion string string
  | CountEdges string
  | CountSame string string string string
  | UpsertEdge graph_edge
  | DeleteEdge string string
  | SelectEdges string

datatype collab_answer =
    AFailed
  | ANone
  | ADone
  | ANum int
  | ABool bool
  | ASettings bool int
  | AText string
  | ANames "string list"
  | AMessages "message list"
  | AEdges "graph_edge list"
  | AEdgeAt string time

definition presence_ttl :: time where
  "presence_ttl = 24 * 3600 * 1000000"

text \<open>\<open>claimAgentSlot\<close>: 1 when the slot is held, 0 when the session is full.\<close>

definition claim_slot :: "string \<Rightarrow> string \<Rightarrow> int \<Rightarrow> collab_state \<Rightarrow> collab_answer \<times> collab_state" where
  "claim_slot key aid most s =
     (if aid \<in> set (cs_sets s key) then (ANum 1, s)
      else if most \<le> int (length (cs_sets s key)) then (ANum 0, s)
      else (ANum 1, s\<lparr>cs_sets := (cs_sets s)(key := cs_sets s key @ [aid])\<rparr>))"

definition live_value :: "string \<Rightarrow> collab_state \<Rightarrow> string option" where
  "live_value key s = (case cs_vals s key of Some (v, e) \<Rightarrow> if cs_now s < e then Some v else None | None \<Rightarrow> None)"

text \<open>The two \<open>COALESCE\<close>.\<close>

definition settings_of :: "bool option \<times> int option \<Rightarrow> bool \<times> int" where
  "settings_of r = (fst r = Some True, (case snd r of None \<Rightarrow> 1 | Some m \<Rightarrow> m))"

text \<open>The insert of a join; a second join keeps the name and the file of the first.\<close>

definition upsert_agent :: "agent \<Rightarrow> agent_row option \<Rightarrow> agent_row" where
  "upsert_agent ag old =
     (case old of
        None \<Rightarrow> \<lparr> ar_name = ag_name ag, ar_status = ag_status ag, ar_file = None, ar_activity = ag_activity ag,
                  ar_connected = ag_connected ag, ar_left = None \<rparr>
      | Some r \<Rightarrow> r\<lparr>ar_status := ag_status ag, ar_activity := ag_activity ag, ar_connected := ag_connected ag, ar_left := None\<rparr>)"

definition update_agent :: "string \<Rightarrow> string \<Rightarrow> (agent_row \<Rightarrow> agent_row) \<Rightarrow> collab_state \<Rightarrow> collab_state" where
  "update_agent sid aid f s =
     s\<lparr>cs_agents := (cs_agents s)(sid := (cs_agents s sid)(aid := map_option f (cs_agents s sid aid)))\<rparr>"

definition file_versions :: "string \<Rightarrow> string \<Rightarrow> collab_state \<Rightarrow> int list" where
  "file_versions sid path s =
     map fc_version (filter (\<lambda>c. fc_session c = sid \<and> fc_file c = path) (map vr_change (cs_versions s)))"

definition max_version :: "string \<Rightarrow> string \<Rightarrow> collab_state \<Rightarrow> int" where
  "max_version sid path s = (case file_versions sid path s of [] \<Rightarrow> 0 | v # vs \<Rightarrow> foldl max v vs)"

definition same_edge :: "string \<Rightarrow> string \<Rightarrow> string \<Rightarrow> string \<Rightarrow> graph_edge \<Rightarrow> bool" where
  "same_edge sid from to rel e \<longleftrightarrow> ge_session e = sid \<and> ge_from e = from \<and> ge_to e = to \<and> ge_relation e = rel"

text \<open>Label and metadata of the edge with the same key are replaced; otherwise the edge is new.\<close>

definition upsert_edge :: "graph_edge \<Rightarrow> collab_state \<Rightarrow> collab_answer \<times> collab_state" where
  "upsert_edge e s =
     (if cs_sessions s (ge_session e) = None \<or> ge_from e = ge_to e then (AFailed, s)
      else case List.find (same_edge (ge_session e) (ge_from e) (ge_to e) (ge_relation e)) (cs_edges s) of
        Some old \<Rightarrow>
          (AEdgeAt (ge_id old) (ge_created old),
           s\<lparr>cs_edges := map (\<lambda>x. if same_edge (ge_session e) (ge_from e) (ge_to e) (ge_relation e) x
                                   then x\<lparr>ge_label := ge_label e, ge_metadata := ge_metadata e\<rparr> else x) (cs_edges s)\<rparr>)
      | None \<Rightarrow> (AEdgeAt (ge_id e) (ge_created e), s\<lparr>cs_edges := cs_edges s @ [e]\<rparr>))"

text \<open>Newest first.\<close>

definition newest_messages :: "string \<Rightarrow> int \<Rightarrow> collab_state \<Rightarrow> message list" where
  "newest_messages sid limit s =
     take (nat limit) (rev (sort_key ms_at (filter (\<lambda>m. ms_session m = sid) (cs_messages s))))"

fun collab_apply :: "collab_call \<Rightarrow> collab_state \<Rightarrow> collab_answer \<times> collab_state" where
  "collab_apply (GetSettings sid) s =
     (case cs_sessions s sid of None \<Rightarrow> ANone | Some r \<Rightarrow> ASettings (fst (settings_of r)) (snd (settings_of r)), s)"
| "collab_apply (GetEnabled sid) s =
     (case cs_sessions s sid of None \<Rightarrow> ANone | Some r \<Rightarrow> ABool (fst (settings_of r)), s)"
| "collab_apply (SetCollab sid m) s =
     (ADone, s\<lparr>cs_sessions := (cs_sessions s)(sid := map_option (\<lambda>_. (Some True, Some m)) (cs_sessions s sid))\<rparr>)"
| "collab_apply (ClaimSlot key aid most) s = claim_slot key aid most s"
| "collab_apply (RemoveMember key aid) s =
     (ADone, s\<lparr>cs_sets := (cs_sets s)(key := removeAll aid (cs_sets s key))\<rparr>)"
| "collab_apply (IsMember key aid) s = (ABool (aid \<in> set (cs_sets s key)), s)"
| "collab_apply (Members key) s = (ANames (cs_sets s key), s)"
| "collab_apply (SetValue key v) s = (ADone, s\<lparr>cs_vals := (cs_vals s)(key := Some (v, cs_now s + presence_ttl))\<rparr>)"
| "collab_apply (DelValue key) s = (ADone, s\<lparr>cs_vals := (cs_vals s)(key := None)\<rparr>)"
| "collab_apply (GetValue key) s = (case live_value key s of None \<Rightarrow> ANone | Some v \<Rightarrow> AText v, s)"
| "collab_apply (Publish key ev) s = (ADone, s\<lparr>cs_published := cs_published s @ [(key, ev)]\<rparr>)"
| "collab_apply (UpsertAgent sid ag) s =
     (if cs_sessions s sid = None then (AFailed, s)
      else (ADone, s\<lparr>cs_agents := (cs_agents s)(sid := (cs_agents s sid)(ag_id ag := Some (upsert_agent ag (cs_agents s sid (ag_id ag)))))\<rparr>))"
| "collab_apply (MarkLeft sid aid st t) s = (ADone, update_agent sid aid (\<lambda>r. r\<lparr>ar_status := st, ar_left := Some t\<rparr>) s)"
| "collab_apply (SetPresence sid aid file st t) s =
     (ADone, update_agent sid aid (\<lambda>r. r\<lparr>ar_file := Some file, ar_status := st, ar_activity := t\<rparr>) s)"
| "collab_apply (CountAgents sid aid) s = (ANum (if cs_agents s sid aid = None then 0 else 1), s)"
| "collab_apply (InsertMessage m) s =
     (if cs_sessions s (ms_session m) = None then (AFailed, s) else (ADone, s\<lparr>cs_messages := cs_messages s @ [m]\<rparr>))"
| "collab_apply (SelectMessages sid limit) s = (AMessages (newest_messages sid limit s), s)"
| "collab_apply (NextVersion sid path) s = (ANum (max_version sid path s + 1), s)"
| "collab_apply (InsertVersion v) s =
     (if cs_sessions s (fc_session (vr_change v)) = None \<or>
         fc_version (vr_change v) \<in> set (file_versions (fc_session (vr_change v)) (fc_file (vr_change v)) s)
      then (AFailed, s) else (ADone, s\<lparr>cs_versions := cs_versions s @ [v]\<rparr>))"
| "collab_apply (MaxVersion sid path) s = (ANum (max_version sid path s), s)"
| "collab_apply (CountEdges sid) s = (ANum (int (length (filter (\<lambda>e. ge_session e = sid) (cs_edges s)))), s)"
| "collab_apply (CountSame sid from to rel) s = (ANum (int (length (filter (same_edge sid from to rel) (cs_edges s)))), s)"
| "collab_apply (UpsertEdge e) s = upsert_edge e s"
| "collab_apply (DeleteEdge eid sid) s =
     (ANum (int (length (filter (\<lambda>e. ge_id e = eid \<and> ge_session e = sid) (cs_edges s)))),
      s\<lparr>cs_edges := filter (\<lambda>e. \<not> (ge_id e = eid \<and> ge_session e = sid)) (cs_edges s)\<rparr>)"
| "collab_apply (SelectEdges sid) s = (AEdges (sort_key ge_created (filter (\<lambda>e. ge_session e = sid) (cs_edges s))), s)"

type_synonym 'r collab_prog = "(collab_call, collab_answer, 'r) prog"

section \<open>Joining and leaving\<close>

record agent_codec =
  ac_marshal :: "agent \<Rightarrow> string option"
  ac_unmarshal :: "string \<Rightarrow> agent option"

text \<open>A validation in front of the rest.\<close>

definition checked :: "'e + unit \<Rightarrow> ('e + 'r) collab_prog \<Rightarrow> ('e + 'r) collab_prog" where
  "checked v p = (case v of Inl e \<Rightarrow> Return (Inl e) | Inr _ \<Rightarrow> p)"

definition publish_event :: "string \<Rightarrow> ws_event \<Rightarrow> 'r \<Rightarrow> 'r collab_prog" where
  "publish_event sid ev r = Call (Publish (events_key sid) ev) (\<lambda>_. Return r)"

text \<open>The pipeline of two commands that frees a slot, and whether both were answered.\<close>

definition free_slot :: "string \<Rightarrow> string \<Rightarrow> bool collab_prog" where
  "free_slot sid aid =
     Call (RemoveMember (active_key sid) aid) (\<lambda>a.
     Call (DelValue (agent_key sid aid)) (\<lambda>b. Return (a \<noteq> AFailed \<and> b \<noteq> AFailed)))"

definition release_agent_slot :: "string \<Rightarrow> string \<Rightarrow> 'r \<Rightarrow> 'r collab_prog" where
  "release_agent_slot sid aid r = pbind (free_slot sid aid) (\<lambda>_. Return r)"

definition joining_agent :: "(nat \<Rightarrow> time) \<Rightarrow> string \<Rightarrow> string \<Rightarrow> string \<Rightarrow> agent" where
  "joining_agent clk sid aid name =
     \<lparr> ag_id = aid, ag_name = name, ag_session = sid, ag_status = ''active'', ag_file = [],
        ag_activity = clk 0, ag_connected = clk 1 \<rparr>"

text \<open>The slot is held: store the agent in Redis, then in the database, then tell the others.\<close>

definition store_join :: "agent_codec \<Rightarrow> agent \<Rightarrow> string \<Rightarrow> (collab_error + agent) collab_prog" where
  "store_join cd ag sid =
     (case ac_marshal cd ag of
        None \<Rightarrow> Return (Inl StoreFailed)
      | Some txt \<Rightarrow>
          Call (SetValue (agent_key sid (ag_id ag)) txt) (\<lambda>a.
            if a = AFailed then release_agent_slot sid (ag_id ag) (Inl StoreFailed)
            else Call (UpsertAgent sid ag) (\<lambda>b.
              if b = AFailed then release_agent_slot sid (ag_id ag) (Inl StoreFailed)
              else publish_event sid (AgentJoined ag) (Inr ag))))"

definition join_session ::
  "agent_codec \<Rightarrow> (nat \<Rightarrow> time) \<Rightarrow> string \<Rightarrow> string \<Rightarrow> string \<Rightarrow> (collab_error + agent) collab_prog" where
  "join_session cd clk sid aid name =
     checked (validate_agent_id aid) (checked (validate_agent_name name)
       (Call (GetSettings sid) (\<lambda>a.
          case a of
            ANone \<Rightarrow> Return (Inl SessionNotFound)
          | ASettings allow most \<Rightarrow>
              if \<not> allow then Return (Inl SessionNotCollab)
              else Call (ClaimSlot (active_key sid) aid most) (\<lambda>b.
                case b of
                  ANum claimed \<Rightarrow>
                    if claimed = 0 then Return (Inl MaxAgentsReached)
                    else store_join cd (joining_agent clk sid aid name) sid
                | _ \<Rightarrow> Return (Inl StoreFailed))
          | _ \<Rightarrow> Return (Inl StoreFailed))))"

definition leave_session :: "(nat \<Rightarrow> time) \<Rightarrow> string \<Rightarrow> string \<Rightarrow> (collab_error + unit) collab_prog" where
  "leave_session clk sid aid =
     checked (validate_agent_id aid)
       (pbind (free_slot sid aid) (\<lambda>ok.
          if \<not> ok then Return (Inl StoreFailed)
          else Call (MarkLeft sid aid ''disconnected'' (clk 0)) (\<lambda>a.
            if a = AFailed then Return (Inl StoreFailed)
            else publish_event sid (AgentLeft aid (clk 1)) (Inr ()))))"

section \<open>Presence\<close>

definition store_presence ::
  "agent_codec \<Rightarrow> string \<Rightarrow> string \<Rightarrow> agent \<Rightarrow> (collab_error + unit) collab_prog" where
  "store_presence cd sid aid ag =
     (case ac_marshal cd ag of
        None \<Rightarrow> Return (Inl StoreFailed)
      | Some txt \<Rightarrow>
          Call (SetValue (agent_key sid aid) txt) (\<lambda>a.
            if a = AFailed then Return (Inl StoreFailed)
            else Call (SetPresence sid aid (ag_file ag) (ag_status ag) (ag_activity ag)) (\<lambda>b.
              if b = AFailed then Return (Inl StoreFailed)
              else publish_event sid (PresenceUpdate aid (ag_status ag) (ag_file ag) (ag_activity ag)) (Inr ()))))"

definition update_presence ::
  "agent_codec \<Rightarrow> (nat \<Rightarrow> time) \<Rightarrow> string \<Rightarrow> string \<Rightarrow> string \<Rightarrow> string \<Rightarrow> (collab_error + unit) collab_prog" where
  "update_presence cd clk sid aid file status =
     checked (validate_agent_id aid) (checked (validate_file_path file) (checked (validate_agent_status status)
       (Call (GetValue (agent_key sid aid)) (\<lambda>a.
          case a of
            ANone \<Rightarrow> Return (Inl AgentNotFound)
          | AText t \<Rightarrow>
              (case ac_unmarshal cd t of
                 None \<Rightarrow> Return (Inl StoreFailed)
               | Some ag \<Rightarrow>
                   store_presence cd sid aid (ag\<lparr>ag_file := file, ag_status := status, ag_activity := clk 0\<rparr>))
          | _ \<Rightarrow> Return (Inl StoreFailed)))))"

text \<open>Agents whose value has expired are skipped.\<close>

primrec load_agents ::
  "agent_codec \<Rightarrow> string \<Rightarrow> string list \<Rightarrow> agent list \<Rightarrow> (collab_error + agent list) collab_prog" where
  "load_agents cd sid [] acc = Return (Inr acc)"
| "load_agents cd sid (aid # aids) acc =
     Call (GetValue (agent_key sid aid)) (\<lambda>a.
       case a of
         ANone \<Rightarrow> load_agents cd sid aids acc
       | AText t \<Rightarrow>
           (case ac_unmarshal cd t of
              None \<Rightarrow> Return (Inl StoreFailed)
            | Some ag \<Rightarrow> load_agents cd sid aids (acc @ [ag]))
       | _ \<Rightarrow> Return (Inl StoreFailed))"

definition get_active_agents :: "agent_codec \<Rightarrow> string \<Rightarrow> (collab_error + agent list) collab_prog" where
  "get_active_agents cd sid =
     Call (Members (active_key sid)) (\<lambda>a.
       case a of
         ANone \<Rightarrow> Return (Inr [])
       | ANames aids \<Rightarrow> load_agents cd sid aids []
       | _ \<Rightarrow> Return (Inl StoreFailed))"

definition is_agent_active :: "string \<Rightarrow> string \<Rightarrow> (collab_error + bool) collab_prog" where
  "is_agent_active sid aid =
     checked (validate_agent_id aid)
       (Call (IsMember (active_key sid) aid) (\<lambda>a. case a of ABool b \<Rightarrow> Return (Inr b) | _ \<Rightarrow> Return (Inl StoreFailed)))"

section \<open>Messages\<close>

definition check_message :: "string \<Rightarrow> string \<Rightarrow> string \<Rightarrow> string \<Rightarrow> collab_error + unit" where
  "check_message from to txt type =
     rbind (validate_agent_id from) (\<lambda>_.
     rbind (if to \<noteq> [] then validate_agent_id to
            else if type = ''direct'' then Inl InvalidInput else Inr ()) (\<lambda>_.
     rbind (validate_message_body txt) (\<lambda>_. validate_message_type type)))"

text \<open>\<open>new_id\<close> is the identifier that \<open>uuid.New\<close> returns.\<close>

definition send_message ::
  "(nat \<Rightarrow> time) \<Rightarrow> string \<Rightarrow> string \<Rightarrow> string \<Rightarrow> string \<Rightarrow> string \<Rightarrow> string \<Rightarrow> (collab_error + message) collab_prog" where
  "send_message clk new_id sid from to txt type =
     checked (check_message from to txt type)
       (let m = \<lparr> ms_id = new_id, ms_session = sid, ms_type = type, ms_from = from, ms_to = to, ms_body = txt, ms_at = clk 0 \<rparr> in
        Call (InsertMessage m) (\<lambda>a.
          if a = AFailed then Return (Inl StoreFailed)
          else publish_event sid (MessagePosted m) (Inr m)))"

definition get_messages :: "string \<Rightarrow> int \<Rightarrow> (collab_error + message list) collab_prog" where
  "get_messages sid limit =
     Call (SelectMessages sid (if limit \<le> 0 \<or> 500 < limit then 100 else limit)) (\<lambda>a.
       case a of AMessages ms \<Rightarrow> Return (Inr ms) | _ \<Rightarrow> Return (Inl StoreFailed))"

section \<open>File versions\<close>

definition record_file_change ::
  "(nat \<Rightarrow> time) \<Rightarrow> string \<Rightarrow> string \<Rightarrow> string \<Rightarrow> string \<Rightarrow> string \<Rightarrow> int \<Rightarrow> (collab_error + file_change) collab_prog" where
  "record_file_change clk sid path aid type checksum bytes_len =
     Call (NextVersion sid path) (\<lambda>a.
       case a of
         ANum v \<Rightarrow>
           (let c = \<lparr> fc_session = sid, fc_file = path, fc_by = aid, fc_type = type, fc_version = v, fc_at = clk 0 \<rparr> in
            Call (InsertVersion \<lparr> vr_change = c, vr_checksum = checksum, vr_size = bytes_len \<rparr>) (\<lambda>b.
              if b = AFailed then Return (Inl StoreFailed)
              else publish_event sid (FileChanged c) (Inr c)))
       | _ \<Rightarrow> Return (Inl StoreFailed))"

definition get_file_version :: "string \<Rightarrow> string \<Rightarrow> (collab_error + int) collab_prog" where
  "get_file_version sid path =
     Call (MaxVersion sid path) (\<lambda>a. case a of ANum v \<Rightarrow> Return (Inr v) | _ \<Rightarrow> Return (Inl StoreFailed))"

section \<open>The swarm graph\<close>

definition check_edge :: "string \<Rightarrow> string \<Rightarrow> string \<Rightarrow> string \<Rightarrow> collab_error + unit" where
  "check_edge from to rel label =
     rbind (validate_agent_id from) (\<lambda>_. rbind (validate_agent_id to) (\<lambda>_.
     rbind (validate_graph_relation rel) (\<lambda>_. rbind (ensure (from \<noteq> to) InvalidInput) (\<lambda>_.
     ensure (length label \<le> 512) InvalidInput))))"

text \<open>Active now, or once in the session.\<close>

definition agent_known :: "string \<Rightarrow> string \<Rightarrow> (collab_error + bool) collab_prog" where
  "agent_known sid aid =
     pbind (is_agent_active sid aid) (\<lambda>r.
       case r of
         Inl e \<Rightarrow> Return (Inl e)
       | Inr act \<Rightarrow>
           if act then Return (Inr True)
           else Call (CountAgents sid aid) (\<lambda>a. case a of ANum n \<Rightarrow> Return (Inr (0 < n)) | _ \<Rightarrow> Return (Inl StoreFailed)))"

definition both_known :: "string \<Rightarrow> string \<Rightarrow> string \<Rightarrow> (collab_error + unit) collab_prog \<Rightarrow> (collab_error + unit) collab_prog" where
  "both_known sid from to p =
     pbind (agent_known sid from) (\<lambda>f.
       case f of
         Inl e \<Rightarrow> Return (Inl e)
       | Inr fok \<Rightarrow>
           pbind (agent_known sid to) (\<lambda>t.
             case t of
               Inl e \<Rightarrow> Return (Inl e)
             | Inr tok \<Rightarrow> if \<not> fok \<or> \<not> tok then Return (Inl InvalidInput) else p))"

text \<open>The count of edges; an error of the second query counts as no such edge.\<close>

definition edge_room :: "string \<Rightarrow> string \<Rightarrow> string \<Rightarrow> string \<Rightarrow> (collab_error + unit) collab_prog" where
  "edge_room sid from to rel =
     Call (CountEdges sid) (\<lambda>a.
       case a of
         ANum edges \<Rightarrow>
           Call (CountSame sid from to rel) (\<lambda>b.
             let existing = (case b of ANum n \<Rightarrow> n | _ \<Rightarrow> 0) in
             if existing = 0 \<and> 256 \<le> edges then Return (Inl EdgeLimit) else Return (Inr ()))
       | _ \<Rightarrow> Return (Inl StoreFailed))"

definition insert_edge :: "graph_edge \<Rightarrow> (collab_error + graph_edge) collab_prog" where
  "insert_edge e =
     Call (UpsertEdge e) (\<lambda>a.
       case a of
         AEdgeAt eid t \<Rightarrow> Return (Inr (e\<lparr>ge_id := eid, ge_created := t\<rparr>))
       | _ \<Rightarrow> Return (Inl StoreFailed))"

text \<open>\<open>meta\<close> is the metadata as \<open>json.Marshal\<close> returns it, an empty object when there is none.\<close>

definition add_graph_edge ::
  "(nat \<Rightarrow> time) \<Rightarrow> string \<Rightarrow> string \<Rightarrow> string \<Rightarrow> string \<Rightarrow> string \<Rightarrow> string \<Rightarrow> string option \<Rightarrow>
   (collab_error + graph_edge) collab_prog" where
  "add_graph_edge clk new_id sid from to rel label meta =
     checked (check_edge from to rel label)
       (case meta of
          None \<Rightarrow> Return (Inl StoreFailed)
        | Some js \<Rightarrow>
            if 16 * 1024 < length js then Return (Inl InvalidInput)
            else pbind (both_known sid from to (edge_room sid from to rel)) (\<lambda>r.
              case r of
                Inl e \<Rightarrow> Return (Inl e)
              | Inr _ \<Rightarrow>
                  insert_edge \<lparr> ge_id = new_id, ge_session = sid, ge_from = from, ge_to = to, ge_relation = rel,
                                ge_label = label, ge_metadata = js, ge_created = clk 0 \<rparr>))"

definition remove_graph_edge :: "string \<Rightarrow> string \<Rightarrow> (collab_error + unit) collab_prog" where
  "remove_graph_edge sid eid =
     Call (DeleteEdge eid sid) (\<lambda>a.
       case a of
         ANum n \<Rightarrow> if n = 0 then Return (Inl EdgeNotFound) else Return (Inr ())
       | _ \<Rightarrow> Return (Inl StoreFailed))"

definition list_graph_edges :: "string \<Rightarrow> (collab_error + graph_edge list) collab_prog" where
  "list_graph_edges sid =
     Call (SelectEdges sid) (\<lambda>a. case a of AEdges es \<Rightarrow> Return (Inr es) | _ \<Rightarrow> Return (Inl StoreFailed))"

definition get_agent_graph :: "agent_codec \<Rightarrow> string \<Rightarrow> (collab_error + agent list \<times> graph_edge list) collab_prog" where
  "get_agent_graph cd sid =
     pbind (get_active_agents cd sid) (\<lambda>r.
       case r of
         Inl e \<Rightarrow> Return (Inl e)
       | Inr ags \<Rightarrow>
           pbind (list_graph_edges sid) (\<lambda>q. case q of Inl e \<Rightarrow> Return (Inl e) | Inr es \<Rightarrow> Return (Inr (ags, es))))"

end
