(* ===== verification/CollabHandlers.thy ===== *)
theory CollabHandlers
  imports Collab Access AllowedHosts
begin

text \<open>
  \<open>cmd/api/handlers/collab.go\<close>: who may join, read and write, with access to the session decided by
  \<open>Access\<close>; and \<open>internal/collab/websocket.go\<close>: what a connection does with the frames it reads, and
  the hub that passes events on.  A handler is one operation of \<open>Collab\<close> with the status it answers.
\<close>

section \<open>Requests and answers\<close>

record collab_env =
  cv_uuid :: "string \<Rightarrow> string option"      \<comment> \<open>\<open>uuid.Parse\<close>, in canonical form\<close>
  cv_codec :: agent_codec
  cv_sessions :: sessions
  cv_roles :: member_roles

datatype collab_reply =
    Status int
  | AgentList "agent list" "graph_edge list option"
  | Transcript "message list"
  | Posted message
  | Enabled int
  | Graph "agent list" "graph_edge list"
  | EdgeAdded graph_edge
  | Disconnected

text \<open>The session identifier and access to the session, or the status that refuses them.\<close>

definition gate :: "collab_env \<Rightarrow> string \<Rightarrow> string \<Rightarrow> string \<Rightarrow> int + string" where
  "gate ev actor raw role =
     (case cv_uuid ev raw of
        None \<Rightarrow> Inl 400
      | Some sid \<Rightarrow>
          (case check_session_access (cv_sessions ev) (cv_roles ev) actor sid role of
             Inl code \<Rightarrow> Inl (int code)
           | Inr _ \<Rightarrow> Inr sid))"

definition collaboration_enabled :: "string \<Rightarrow> bool collab_prog" where
  "collaboration_enabled sid =
     Call (GetEnabled sid) (\<lambda>a. case a of ABool b \<Rightarrow> Return b | _ \<Rightarrow> Return False)"

definition if_enabled :: "string \<Rightarrow> int \<Rightarrow> collab_reply collab_prog \<Rightarrow> collab_reply collab_prog" where
  "if_enabled sid refusal p =
     pbind (collaboration_enabled sid) (\<lambda>b. if \<not> b then Return (Status refusal) else p)"

section \<open>Reading\<close>

definition get_active_agents_handler :: "collab_env \<Rightarrow> string \<Rightarrow> string \<Rightarrow> bool \<Rightarrow> collab_reply collab_prog" where
  "get_active_agents_handler ev actor raw include_graph =
     (case gate ev actor raw ''viewer'' of
        Inl code \<Rightarrow> Return (Status code)
      | Inr sid \<Rightarrow>
          pbind (get_active_agents (cv_codec ev) sid) (\<lambda>r.
            case r of
              Inl _ \<Rightarrow> Return (Status 500)
            | Inr ags \<Rightarrow>
                if include_graph
                then pbind (list_graph_edges sid) (\<lambda>q.
                  case q of Inl _ \<Rightarrow> Return (Status 500) | Inr es \<Rightarrow> Return (AgentList ags (Some es)))
                else Return (AgentList ags None)))"

text \<open>\<open>limit\<close> is the query parameter where \<open>strconv.Atoi\<close> reads it.\<close>

definition get_messages_handler :: "collab_env \<Rightarrow> string \<Rightarrow> string \<Rightarrow> int option \<Rightarrow> collab_reply collab_prog" where
  "get_messages_handler ev actor raw limit =
     (case gate ev actor raw ''viewer'' of
        Inl code \<Rightarrow> Return (Status code)
      | Inr sid \<Rightarrow>
          pbind (get_messages sid (case limit of None \<Rightarrow> 100 | Some v \<Rightarrow> v)) (\<lambda>r.
            case r of Inl _ \<Rightarrow> Return (Status 500) | Inr ms \<Rightarrow> Return (Transcript ms)))"

definition get_agent_graph_handler :: "collab_env \<Rightarrow> string \<Rightarrow> string \<Rightarrow> collab_reply collab_prog" where
  "get_agent_graph_handler ev actor raw =
     (case gate ev actor raw ''viewer'' of
        Inl code \<Rightarrow> Return (Status code)
      | Inr sid \<Rightarrow>
          pbind (get_agent_graph (cv_codec ev) sid) (\<lambda>r.
            case r of Inl _ \<Rightarrow> Return (Status 500) | Inr (ags, es) \<Rightarrow> Return (Graph ags es)))"

section \<open>Writing\<close>

record message_body =
  mb_from :: string
  mb_to :: string
  mb_body :: string
  mb_type :: string

definition default_type :: "message_body \<Rightarrow> string" where
  "default_type b =
     (if mb_type b = [] then (if mb_to b = [] then ''broadcast'' else ''direct'') else mb_type b)"

definition send_status :: "collab_error + message \<Rightarrow> collab_reply" where
  "send_status r =
     (case r of Inl InvalidInput \<Rightarrow> Status 400 | Inl _ \<Rightarrow> Status 500 | Inr m \<Rightarrow> Posted m)"

text \<open>\<open>req\<close> is the decoded body; its sender and text are required.\<close>

definition send_message_handler ::
  "collab_env \<Rightarrow> (nat \<Rightarrow> time) \<Rightarrow> string \<Rightarrow> string \<Rightarrow> string \<Rightarrow> message_body option \<Rightarrow> collab_reply collab_prog" where
  "send_message_handler ev clk new_id actor raw req =
     (case gate ev actor raw ''executor'' of
        Inl code \<Rightarrow> Return (Status code)
      | Inr sid \<Rightarrow>
          (case req of
             None \<Rightarrow> Return (Status 400)
           | Some b \<Rightarrow>
               if mb_from b = [] \<or> mb_body b = [] then Return (Status 400)
               else if_enabled sid 403
                 (pbind (is_agent_active sid (mb_from b)) (\<lambda>r.
                    case r of
                      Inl InvalidInput \<Rightarrow> Return (Status 400)
                    | Inl _ \<Rightarrow> Return (Status 500)
                    | Inr joined \<Rightarrow>
                        if \<not> joined then Return (Status 403)
                        else pbind (send_message clk new_id sid (mb_from b) (mb_to b) (mb_body b) (default_type b))
                          (\<lambda>q. Return (send_status q))))))"

text \<open>A body that cannot be read counts as one without a maximum.\<close>

definition enable_collaboration :: "collab_env \<Rightarrow> string \<Rightarrow> string \<Rightarrow> int \<Rightarrow> collab_reply collab_prog" where
  "enable_collaboration ev actor raw asked =
     (case gate ev actor raw ''admin'' of
        Inl code \<Rightarrow> Return (Status code)
      | Inr sid \<Rightarrow>
          let most = (if asked = 0 then 4 else asked) in
          (case validate_max_agents most of
             Inl _ \<Rightarrow> Return (Status 400)
           | Inr _ \<Rightarrow>
               Call (SetCollab sid most) (\<lambda>a. Return (if a = AFailed then Status 500 else Enabled most))))"

record edge_body =
  eb_from :: string
  eb_to :: string
  eb_relation :: string
  eb_label :: string
  eb_metadata :: "string option"      \<comment> \<open>as \<open>json.Marshal\<close> returns it\<close>

definition edge_status :: "collab_error + graph_edge \<Rightarrow> collab_reply" where
  "edge_status r =
     (case r of
        Inl InvalidInput \<Rightarrow> Status 400 | Inl EdgeLimit \<Rightarrow> Status 429 | Inl _ \<Rightarrow> Status 500 | Inr e \<Rightarrow> EdgeAdded e)"

definition add_edge_handler ::
  "collab_env \<Rightarrow> (nat \<Rightarrow> time) \<Rightarrow> string \<Rightarrow> string \<Rightarrow> string \<Rightarrow> edge_body option \<Rightarrow> collab_reply collab_prog" where
  "add_edge_handler ev clk new_id actor raw req =
     (case gate ev actor raw ''executor'' of
        Inl code \<Rightarrow> Return (Status code)
      | Inr sid \<Rightarrow>
          if_enabled sid 400
            (case req of
               None \<Rightarrow> Return (Status 400)
             | Some b \<Rightarrow>
                 if eb_from b = [] \<or> eb_to b = [] \<or> eb_relation b = [] then Return (Status 400)
                 else pbind (add_graph_edge clk new_id sid (eb_from b) (eb_to b) (eb_relation b) (eb_label b) (eb_metadata b))
                   (\<lambda>r. Return (edge_status r))))"

definition remove_edge_handler :: "collab_env \<Rightarrow> string \<Rightarrow> string \<Rightarrow> string \<Rightarrow> collab_reply collab_prog" where
  "remove_edge_handler ev actor raw raw_edge =
     (case cv_uuid ev raw of
        None \<Rightarrow> Return (Status 400)
      | Some _ \<Rightarrow>
          (case cv_uuid ev raw_edge of
             None \<Rightarrow> Return (Status 400)
           | Some eid \<Rightarrow>
               (case gate ev actor raw ''executor'' of
                  Inl code \<Rightarrow> Return (Status code)
                | Inr sid \<Rightarrow>
                    if_enabled sid 400
                      (pbind (remove_graph_edge sid eid) (\<lambda>r.
                         case r of
                           Inl EdgeNotFound \<Rightarrow> Return (Status 404) | Inl _ \<Rightarrow> Return (Status 500) | Inr _ \<Rightarrow> Return (Status 204))))))"

section \<open>Connections\<close>

text \<open>
  A frame that is not JSON, or its type with the members of its payload that are strings; \<open>None\<close> when the
  payload is no object.
\<close>

datatype ws_frame = Garbled | Frame string "(string \<Rightarrow> string option) option"

definition member_or_empty :: "(string \<Rightarrow> string option) \<Rightarrow> string \<Rightarrow> string" where
  "member_or_empty p name = (case p name of None \<Rightarrow> [] | Some v \<Rightarrow> v)"

text \<open>Results of the manager are only logged.\<close>

definition handle_frame ::
  "agent_codec \<Rightarrow> (nat \<Rightarrow> time) \<Rightarrow> string \<Rightarrow> string \<Rightarrow> string \<Rightarrow> ws_frame \<Rightarrow> unit collab_prog" where
  "handle_frame cd clk new_id sid aid fr =
     (case fr of
        Frame type (Some p) \<Rightarrow>
          if type = ''presence_update''
          then let st = member_or_empty p ''status'' in
               pbind (update_presence cd clk sid aid (member_or_empty p ''current_file'') (if st = [] then ''active'' else st))
                 (\<lambda>_. Return ())
          else if type = ''message''
          then let to = member_or_empty p ''to'' in
               pbind (send_message clk new_id sid aid to (member_or_empty p ''body'') (if to \<noteq> [] then ''direct'' else ''broadcast''))
                 (\<lambda>_. Return ())
          else Return ()
      | _ \<Rightarrow> Return ())"

text \<open>
  The frames that arrive until the connection breaks; then the agent leaves.  Each frame comes with the
  clock and the identifier in its handling.
\<close>

primrec read_pump ::
  "agent_codec \<Rightarrow> string \<Rightarrow> string \<Rightarrow> (nat \<Rightarrow> time) \<Rightarrow> ((nat \<Rightarrow> time) \<times> string \<times> ws_frame) list \<Rightarrow> collab_reply collab_prog" where
  "read_pump cd sid aid clk [] = pbind (leave_session clk sid aid) (\<lambda>_. Return Disconnected)"
| "read_pump cd sid aid clk (f # fs) =
     pbind (handle_frame cd (fst f) (fst (snd f)) sid aid (snd (snd f))) (\<lambda>_. read_pump cd sid aid clk fs)"

definition join_status :: "collab_error \<Rightarrow> int" where
  "join_status e =
     (case e of
        MaxAgentsReached \<Rightarrow> 409 | SessionNotCollab \<Rightarrow> 403 | SessionNotFound \<Rightarrow> 404 | InvalidInput \<Rightarrow> 400 | _ \<Rightarrow> 500)"

text \<open>
  What the outside does with a connection: whether the upgrade is refused, the clocks of joining and of
  leaving, and the frames.
\<close>

record connection =
  cn_refused :: "int option"           \<comment> \<open>what the upgrader answers when it refuses\<close>
  cn_join :: "nat \<Rightarrow> time"
  cn_leave :: "nat \<Rightarrow> time"
  cn_frames :: "((nat \<Rightarrow> time) \<times> string \<times> ws_frame) list"

text \<open>
  The request, and the connection it turns into.  The welcome message reads the agents, which changes
  nothing; the reader goroutine, which runs at the same time, is put after it.
\<close>

definition web_socket ::
  "collab_env \<Rightarrow> string \<Rightarrow> string \<Rightarrow> string \<Rightarrow> string \<Rightarrow> connection \<Rightarrow> collab_reply collab_prog" where
  "web_socket ev actor raw aid asked_name cn =
     (case cv_uuid ev raw of
        None \<Rightarrow> Return (Status 400)
      | Some _ \<Rightarrow>
          let name = (if asked_name = [] then aid else asked_name) in
          (case rbind (validate_agent_id aid) (\<lambda>_. validate_agent_name name) of
             Inl _ \<Rightarrow> Return (Status 400)
           | Inr _ \<Rightarrow>
               (case gate ev actor raw ''viewer'' of
                  Inl code \<Rightarrow> Return (Status code)
                | Inr sid \<Rightarrow>
                    if_enabled sid 403
                      (pbind (join_session (cv_codec ev) (cn_join cn) sid aid name) (\<lambda>r.
                         case r of
                           Inl e \<Rightarrow> Return (Status (join_status e))
                         | Inr _ \<Rightarrow>
                             (case cn_refused cn of
                                Some code \<Rightarrow> pbind (leave_session (cn_leave cn) sid aid) (\<lambda>_. Return (Status code))
                              | None \<Rightarrow>
                                  pbind (get_active_agents (cv_codec ev) sid)
                                    (\<lambda>_. read_pump (cv_codec ev) sid aid (cn_leave cn) (cn_frames cn))))))))"

text \<open>
  \<open>newUpgrader\<close>: a missing \<open>Origin\<close> is an empty one.  Origins are ASCII, where \<open>to_lower\<close> is
  \<open>strings.ToLower\<close>.
\<close>

definition check_origin :: "string list \<Rightarrow> string \<Rightarrow> bool" where
  "check_origin allowed_origins origin =
     (let allowed = map (\<lambda>o'. to_lower (trim_space o')) allowed_origins in
      if origin = [] then True
      else if ''*'' \<in> set allowed then True
      else to_lower origin \<in> set allowed)"

section \<open>The hub\<close>

text \<open>
  Connections are numbered.  The channel of a connection holds what is queued for it; a channel can be
  closed.  There is one subscription for each registration.
\<close>

record hub =
  hb_clients :: "string \<Rightarrow> (string \<times> nat) list"
  hb_subs :: "string list"
  hb_queue :: "nat \<Rightarrow> ws_event list"
  hb_closed :: "nat set"

definition new_hub :: hub where
  "new_hub = \<lparr> hb_clients = (\<lambda>_. []), hb_subs = [], hb_queue = (\<lambda>_. []), hb_closed = {} \<rparr>"

text \<open>A full channel drops the message; a send on a closed channel panics.\<close>

definition client_send :: "nat \<Rightarrow> ws_event \<Rightarrow> hub \<Rightarrow> hub option" where
  "client_send c ev h =
     (if c \<in> hb_closed h then None
      else if length (hb_queue h c) < 256 then Some (h\<lparr>hb_queue := (hb_queue h)(c := hb_queue h c @ [ev])\<rparr>)
      else Some h)"

definition hub_register :: "string \<Rightarrow> string \<Rightarrow> nat \<Rightarrow> hub \<Rightarrow> hub" where
  "hub_register sid aid c h =
     h\<lparr>hb_clients := (hb_clients h)(sid := AList.update aid c (hb_clients h sid)), hb_subs := hb_subs h @ [sid]\<rparr>"

text \<open>The channel that is closed is that of the connection given, whichever is registered.\<close>

definition hub_unregister :: "string \<Rightarrow> string \<Rightarrow> nat \<Rightarrow> hub \<Rightarrow> hub" where
  "hub_unregister sid aid c h =
     (if map_of (hb_clients h sid) aid = None then h
      else h\<lparr>hb_clients := (hb_clients h)(sid := AList.delete aid (hb_clients h sid)), hb_closed := insert c (hb_closed h)\<rparr>)"

primrec send_all :: "nat list \<Rightarrow> ws_event \<Rightarrow> hub \<Rightarrow> hub option" where
  "send_all [] ev h = Some h"
| "send_all (c # cs) ev h = (case client_send c ev h of None \<Rightarrow> None | Some h' \<Rightarrow> send_all cs ev h')"

definition broadcast_to_session :: "string \<Rightarrow> ws_event \<Rightarrow> hub \<Rightarrow> hub option" where
  "broadcast_to_session sid ev h = send_all (map snd (hb_clients h sid)) ev h"

text \<open>An event of a session reaches every subscription of that session, and each passes it to all clients.\<close>

primrec deliver_to :: "string list \<Rightarrow> string \<Rightarrow> ws_event \<Rightarrow> hub \<Rightarrow> hub option" where
  "deliver_to [] sid ev h = Some h"
| "deliver_to (s # ss) sid ev h =
     (if s = sid
      then (case broadcast_to_session sid ev h of None \<Rightarrow> None | Some h' \<Rightarrow> deliver_to ss sid ev h')
      else deliver_to ss sid ev h)"

definition subscribe_to_session :: "string \<Rightarrow> ws_event \<Rightarrow> hub \<Rightarrow> hub option" where
  "subscribe_to_session sid ev h = deliver_to (hb_subs h) sid ev h"

end
