(* ===== verification/CollabProps.thy ===== *)
theory CollabProps
  imports CollabHandlers
begin

text \<open>
  What a handler has checked before each of its calls, whatever the stores answer, and what every call
  does to the set of active agents.
\<close>

section \<open>Guards\<close>

definition held_slot :: "(collab_call, collab_answer) calls \<Rightarrow> string \<Rightarrow> string \<Rightarrow> bool" where
  "held_slot h sid aid \<longleftrightarrow>
     (IsMember (active_key sid) aid, ABool True) \<in> set h \<or>
     (\<exists>most n. (ClaimSlot (active_key sid) aid most, ANum n) \<in> set h \<and> n \<noteq> 0)"

definition known_agent :: "(collab_call, collab_answer) calls \<Rightarrow> string \<Rightarrow> string \<Rightarrow> bool" where
  "known_agent h sid aid \<longleftrightarrow>
     (IsMember (active_key sid) aid, ABool True) \<in> set h \<or> (\<exists>n. (CountAgents sid aid, ANum n) \<in> set h \<and> 0 < n)"

text \<open>\<open>P\<close> says which messages may be stored.\<close>

definition collab_guard :: "(message \<Rightarrow> bool) \<Rightarrow> (collab_call, collab_answer) calls \<Rightarrow> collab_call \<Rightarrow> bool" where
  "collab_guard P h c =
     (case c of
        ClaimSlot key aid most \<Rightarrow> \<exists>sid. key = active_key sid \<and> (GetSettings sid, ASettings True most) \<in> set h
      | SetCollab sid most \<Rightarrow> 1 \<le> most \<and> most \<le> 32
      | InsertMessage m \<Rightarrow>
          P m \<and> check_message (ms_from m) (ms_to m) (ms_body m) (ms_type m) = Inr () \<and> held_slot h (ms_session m) (ms_from m)
      | UpsertEdge e \<Rightarrow>
          check_edge (ge_from e) (ge_to e) (ge_relation e) (ge_label e) = Inr () \<and>
          known_agent h (ge_session e) (ge_from e) \<and> known_agent h (ge_session e) (ge_to e)
      | _ \<Rightarrow> True)"

lemma collab_guard_simps [simp]:
  "collab_guard P h (GetSettings sid)" "collab_guard P h (GetEnabled sid)"
  "collab_guard P h (SetCollab sid most) \<longleftrightarrow> 1 \<le> most \<and> most \<le> 32"
  "collab_guard P h (ClaimSlot key aid most) \<longleftrightarrow> (\<exists>sid. key = active_key sid \<and> (GetSettings sid, ASettings True most) \<in> set h)"
  "collab_guard P h (RemoveMember key aid)" "collab_guard P h (IsMember key aid)" "collab_guard P h (Members key)"
  "collab_guard P h (SetValue key v)" "collab_guard P h (DelValue key)" "collab_guard P h (GetValue key)"
  "collab_guard P h (Publish key ev)" "collab_guard P h (UpsertAgent sid ag)" "collab_guard P h (MarkLeft sid aid st t)"
  "collab_guard P h (SetPresence sid aid file st t)" "collab_guard P h (CountAgents sid aid)"
  "collab_guard P h (InsertMessage m) \<longleftrightarrow>
     P m \<and> check_message (ms_from m) (ms_to m) (ms_body m) (ms_type m) = Inr () \<and> held_slot h (ms_session m) (ms_from m)"
  "collab_guard P h (SelectMessages sid limit)" "collab_guard P h (NextVersion sid path)" "collab_guard P h (InsertVersion row)"
  "collab_guard P h (MaxVersion sid path)" "collab_guard P h (CountEdges sid)" "collab_guard P h (CountSame sid from to rel)"
  "collab_guard P h (UpsertEdge e) \<longleftrightarrow>
     check_edge (ge_from e) (ge_to e) (ge_relation e) (ge_label e) = Inr () \<and>
     known_agent h (ge_session e) (ge_from e) \<and> known_agent h (ge_session e) (ge_to e)"
  "collab_guard P h (DeleteEdge eid sid)" "collab_guard P h (SelectEdges sid)"
  by (simp_all add: collab_guard_def)

lemma held_slot_mono: "held_slot h sid aid \<Longrightarrow> prefix h g \<Longrightarrow> held_slot g sid aid"
  unfolding held_slot_def by (meson set_mono_prefix subsetD)

lemma known_agent_mono: "known_agent h sid aid \<Longrightarrow> prefix h g \<Longrightarrow> known_agent g sid aid"
  unfolding known_agent_def by (meson set_mono_prefix subsetD)

lemma prefix_grown: "prefix (h @ t) g \<Longrightarrow> prefix h g"
  by (rule append_prefixD)

section \<open>What the operations check\<close>

text \<open>Each rule gives what holds of the history when the operation returns.\<close>

lemma checked_ok [simp]:
  "prog_ok Q R (checked v p) h \<longleftrightarrow> (case v of Inl e \<Rightarrow> R h (Inl e) | Inr _ \<Rightarrow> prog_ok Q R p h)"
  by (simp add: checked_def split: sum.split)

lemma publish_event_ok [simp]:
  "prog_ok (collab_guard P) R (publish_event sid ev r) h \<longleftrightarrow> (\<forall>a. R (h @ [(Publish (events_key sid) ev, a)]) r)"
  by (simp add: publish_event_def)

lemma free_slot_ok:
  "(\<And>g ok. prefix h g \<Longrightarrow> R g ok) \<Longrightarrow> prog_ok (collab_guard P) R (free_slot sid aid) h"
  by (simp add: free_slot_def)

lemma release_ok:
  "(\<And>g. prefix h g \<Longrightarrow> R g r) \<Longrightarrow> prog_ok (collab_guard P) R (release_agent_slot sid aid r) h"
  by (simp add: release_agent_slot_def free_slot_def)

lemma store_join_ok:
  assumes "\<And>g r. prefix h g \<Longrightarrow> R g r"
  shows "prog_ok (collab_guard P) R (store_join cd ag sid) h"
  using assms by (auto simp: store_join_def intro!: release_ok dest: prefix_grown split: option.split)

lemma join_session_ok:
  assumes fails: "\<And>g e. prefix h g \<Longrightarrow> R g (Inl e)"
    and joins: "\<And>g r. prefix h g \<Longrightarrow> held_slot g sid aid \<Longrightarrow> R g r"
  shows "prog_ok (collab_guard P) R (join_session cd clk sid aid name) h"
proof -
  have stored: "prog_ok (collab_guard P) R (store_join cd ag sid)
      (h @ [(GetSettings sid, ASettings True most), (ClaimSlot (active_key sid) aid most, ANum n)])"
    if "n \<noteq> 0" for ag most n
  proof (rule store_join_ok)
    fix g r assume g: "prefix (h @ [(GetSettings sid, ASettings True most), (ClaimSlot (active_key sid) aid most, ANum n)]) g"
    have "held_slot (h @ [(GetSettings sid, ASettings True most), (ClaimSlot (active_key sid) aid most, ANum n)]) sid aid"
      using that by (auto simp: held_slot_def)
    with g show "R g r" by (blast intro: joins held_slot_mono prefix_grown)
  qed
  show ?thesis
    by (auto simp: join_session_def fails stored split: sum.split collab_answer.split)
qed

lemma leave_session_ok:
  "(\<And>g r. prefix h g \<Longrightarrow> R g r) \<Longrightarrow> prog_ok (collab_guard P) R (leave_session clk sid aid) h"
  by (auto simp: leave_session_def free_slot_def split: sum.split)

lemma update_presence_ok:
  "(\<And>g r. prefix h g \<Longrightarrow> R g r) \<Longrightarrow> prog_ok (collab_guard P) R (update_presence cd clk sid aid file st) h"
  by (auto simp: update_presence_def store_presence_def split: sum.split option.split collab_answer.split)

lemma load_agents_ok:
  "(\<And>g r. prefix h g \<Longrightarrow> R g r) \<Longrightarrow> prog_ok (collab_guard P) R (load_agents cd sid aids acc) h"
proof (induction aids arbitrary: h acc)
  case (Cons aid aids)
  have "prog_ok (collab_guard P) R (load_agents cd sid aids acc') (h @ [e])" for acc' e
    by (rule Cons.IH) (blast intro: Cons.prems prefix_grown)
  then show ?case by (auto simp: Cons.prems split: option.split collab_answer.split)
qed simp

lemma get_active_agents_ok:
  "(\<And>g r. prefix h g \<Longrightarrow> R g r) \<Longrightarrow> prog_ok (collab_guard P) R (get_active_agents cd sid) h"
  by (auto simp: get_active_agents_def intro!: load_agents_ok dest: prefix_grown split: collab_answer.split)

lemma is_agent_active_ok:
  assumes "\<And>g r. prefix h g \<Longrightarrow> r \<noteq> Inr True \<Longrightarrow> R g r"
    and "\<And>g. prefix h g \<Longrightarrow> held_slot g sid aid \<Longrightarrow> known_agent g sid aid \<Longrightarrow> R g (Inr True)"
  shows "prog_ok (collab_guard P) R (is_agent_active sid aid) h"
proof -
  have "R (h @ [(IsMember (active_key sid) aid, ABool b)]) (Inr b)" for b
  proof (cases b)
    case True
    then show ?thesis using assms(2) by (auto simp: held_slot_def known_agent_def)
  next
    case False
    then show ?thesis using assms(1) by auto
  qed
  then show ?thesis
    by (auto simp: is_agent_active_def assms(1) split: sum.split collab_answer.split)
qed

lemma send_message_ok:
  assumes "held_slot h sid from" "\<And>m. ms_session m = sid \<Longrightarrow> ms_from m = from \<Longrightarrow> P m"
    and "\<And>g r. prefix h g \<Longrightarrow> R g r"
  shows "prog_ok (collab_guard P) R (send_message clk new_id sid from to txt type) h"
  using assms by (auto simp: send_message_def Let_def split: sum.split)

lemma agent_known_ok:
  assumes "\<And>g r. prefix h g \<Longrightarrow> r \<noteq> Inr True \<Longrightarrow> R g r"
    and "\<And>g. prefix h g \<Longrightarrow> known_agent g sid aid \<Longrightarrow> R g (Inr True)"
  shows "prog_ok (collab_guard P) R (agent_known sid aid) h"
proof -
  have counted: "R (g @ [(CountAgents sid aid, ANum n)]) (Inr (0 < n))" if "prefix h g" for g n
  proof (cases "0 < n")
    case True
    have "known_agent (g @ [(CountAgents sid aid, ANum n)]) sid aid" using True by (auto simp: known_agent_def)
    with True that show ?thesis using assms(2) by auto
  next
    case False
    with that show ?thesis using assms(1) by auto
  qed
  show ?thesis
    unfolding agent_known_def prog_ok_bind
    by (rule is_agent_active_ok) (auto simp: assms counted split: sum.split collab_answer.split)
qed

lemma both_known_ok:
  assumes fails: "\<And>g e. prefix h g \<Longrightarrow> R g (Inl e)"
    and goes: "\<And>g. prefix h g \<Longrightarrow> known_agent g sid from \<Longrightarrow> known_agent g sid to \<Longrightarrow> prog_ok (collab_guard P) R p g"
  shows "prog_ok (collab_guard P) R (both_known sid from to p) h"
  unfolding both_known_def prog_ok_bind
proof (rule agent_known_ok)
  fix g and r :: "collab_error + bool" assume g: "prefix h g" and r: "r \<noteq> Inr True"
  show "prog_ok (collab_guard P) R (case r of Inl e \<Rightarrow> Return (Inl e)
      | Inr fok \<Rightarrow> pbind (agent_known sid to) (\<lambda>t. case t of Inl e \<Rightarrow> Return (Inl e)
          | Inr tok \<Rightarrow> if \<not> fok \<or> \<not> tok then Return (Inl InvalidInput) else p)) g"
  proof (cases r)
    case (Inr b)
    with r show ?thesis
      by (auto intro!: agent_known_ok fails prefix_order.trans [OF g] split: sum.split)
  qed (simp add: fails g)
next
  fix g assume g: "prefix h g" "known_agent g sid from"
  have "prog_ok (collab_guard P) (\<lambda>g r. prog_ok (collab_guard P) R (case r of Inl e \<Rightarrow> Return (Inl e)
          | Inr tok \<Rightarrow> if \<not> tok then Return (Inl InvalidInput) else p) g) (agent_known sid to) g"
    by (rule agent_known_ok)
      (auto intro: fails goes prefix_order.trans [OF g(1)] known_agent_mono [OF g(2)] split: sum.split)
  then show "prog_ok (collab_guard P) R (case (Inr True :: collab_error + bool) of Inl e \<Rightarrow> Return (Inl e)
      | Inr fok \<Rightarrow> pbind (agent_known sid to) (\<lambda>t. case t of Inl e \<Rightarrow> Return (Inl e)
          | Inr tok \<Rightarrow> if \<not> fok \<or> \<not> tok then Return (Inl InvalidInput) else p)) g"
    by simp
qed

lemma edge_room_ok:
  "(\<And>g r. prefix h g \<Longrightarrow> R g r) \<Longrightarrow> prog_ok (collab_guard P) R (edge_room sid from to rel) h"
  by (auto simp: edge_room_def split: collab_answer.split)

lemma insert_edge_ok:
  assumes "check_edge (ge_from e) (ge_to e) (ge_relation e) (ge_label e) = Inr ()"
    and "known_agent h (ge_session e) (ge_from e)" "known_agent h (ge_session e) (ge_to e)"
    and "\<And>g r. prefix h g \<Longrightarrow> R g r"
  shows "prog_ok (collab_guard P) R (insert_edge e) h"
  using assms by (auto simp: insert_edge_def split: collab_answer.split)

lemma add_graph_edge_ok:
  assumes R: "\<And>g r. prefix h g \<Longrightarrow> R g r"
  shows "prog_ok (collab_guard P) R (add_graph_edge clk new_id sid from to rel label js_meta) h"
proof (cases "check_edge from to rel label")
  case (Inr u)
  have "prog_ok (collab_guard P) (\<lambda>g r. prog_ok (collab_guard P) R (case r of Inl e \<Rightarrow> Return (Inl e)
       | Inr _ \<Rightarrow> insert_edge \<lparr> ge_id = new_id, ge_session = sid, ge_from = from, ge_to = to, ge_relation = rel,
                       ge_label = label, ge_metadata = js, ge_created = clk 0 \<rparr>) g)
     (both_known sid from to (edge_room sid from to rel)) h" for js
  proof (rule both_known_ok)
    fix g assume g: "prefix h g" "known_agent g sid from" "known_agent g sid to"
    show "prog_ok (collab_guard P) (\<lambda>g r. prog_ok (collab_guard P) R (case r of Inl e \<Rightarrow> Return (Inl e)
       | Inr _ \<Rightarrow> insert_edge \<lparr> ge_id = new_id, ge_session = sid, ge_from = from, ge_to = to, ge_relation = rel,
                       ge_label = label, ge_metadata = js, ge_created = clk 0 \<rparr>) g) (edge_room sid from to rel) g"
      using Inr by (auto intro!: edge_room_ok insert_edge_ok R known_agent_mono [OF g(2)] known_agent_mono [OF g(3)]
          intro: prefix_order.trans g(1) split: sum.split)
  qed (simp add: R)
  with Inr show ?thesis by (auto simp: add_graph_edge_def R split: option.split)
qed (simp add: add_graph_edge_def R)

section \<open>The handlers\<close>

lemma if_enabled_ok:
  assumes "\<And>g. prefix h g \<Longrightarrow> R g (Status refusal)" "\<And>g. prefix h g \<Longrightarrow> prog_ok (collab_guard P) R p g"
  shows "prog_ok (collab_guard P) R (if_enabled sid refusal p) h"
  using assms by (auto simp: if_enabled_def collaboration_enabled_def split: collab_answer.split)

abbreviation guarded :: "(message \<Rightarrow> bool) \<Rightarrow> 'r collab_prog \<Rightarrow> bool" where
  "guarded P p \<equiv> calls_ok (collab_guard P) p []"

lemma readers_guarded:
  "guarded P (get_active_agents_handler ev actor raw graph)" "guarded P (get_messages_handler ev actor raw limit)"
  "guarded P (get_agent_graph_handler ev actor raw)"
  by (auto simp: get_active_agents_handler_def get_messages_handler_def get_agent_graph_handler_def get_messages_def
      get_agent_graph_def list_graph_edges_def intro!: get_active_agents_ok split: sum.split collab_answer.split)

lemma send_message_guarded:
  assumes "\<And>m. gate ev actor raw ''executor'' = Inr (ms_session m) \<Longrightarrow> P m"
  shows "guarded P (send_message_handler ev clk new_id actor raw req)"
  using assms
  by (auto simp: send_message_handler_def intro!: if_enabled_ok is_agent_active_ok send_message_ok
      split: sum.split option.split collab_error.split)

lemma enable_guarded: "guarded P (enable_collaboration ev actor raw asked)"
  by (auto simp: enable_collaboration_def Let_def validate_max_agents_def split: sum.split if_splits)

lemma edges_guarded:
  "guarded P (add_edge_handler ev clk new_id actor raw req)" "guarded P (remove_edge_handler ev actor raw raw_edge)"
  by (auto simp: add_edge_handler_def remove_edge_handler_def remove_graph_edge_def
      intro!: if_enabled_ok add_graph_edge_ok split: sum.split option.split collab_error.split collab_answer.split)

lemma handle_frame_ok:
  assumes "held_slot h sid aid" "\<And>m. ms_session m = sid \<Longrightarrow> ms_from m = aid \<Longrightarrow> P m"
    and "\<And>g r. prefix h g \<Longrightarrow> R g r"
  shows "prog_ok (collab_guard P) R (handle_frame cd clk new_id sid aid fr) h"
  using assms
  by (auto simp: handle_frame_def Let_def intro!: update_presence_ok send_message_ok split: ws_frame.split option.split)

lemma read_pump_ok:
  assumes "\<And>m. ms_session m = sid \<Longrightarrow> ms_from m = aid \<Longrightarrow> P m"
  shows "held_slot h sid aid \<Longrightarrow> calls_ok (collab_guard P) (read_pump cd sid aid clk fs) h"
proof (induction fs arbitrary: h)
  case (Cons f fs)
  then show ?case by (auto intro!: handle_frame_ok assms intro: held_slot_mono)
qed (auto intro!: leave_session_ok)

lemma web_socket_guarded:
  assumes "\<And>m. gate ev actor raw ''viewer'' = Inr (ms_session m) \<Longrightarrow> ms_from m = aid \<Longrightarrow> P m"
  shows "guarded P (web_socket ev actor raw aid name cn)"
  using assms
  by (auto simp: web_socket_def Let_def split: sum.split option.split
      intro!: if_enabled_ok join_session_ok leave_session_ok get_active_agents_ok read_pump_ok intro: held_slot_mono)

text \<open>The operations that a server of the API runs.\<close>

inductive collab_op :: "collab_env \<Rightarrow> collab_reply collab_prog \<Rightarrow> bool" for ev where
  "collab_op ev (web_socket ev actor raw aid name cn)"
| "collab_op ev (get_active_agents_handler ev actor raw graph)"
| "collab_op ev (get_messages_handler ev actor raw limit)"
| "collab_op ev (send_message_handler ev clk new_id actor raw req)"
| "collab_op ev (enable_collaboration ev actor raw asked)"
| "collab_op ev (get_agent_graph_handler ev actor raw)"
| "collab_op ev (add_edge_handler ev clk new_id actor raw body)"
| "collab_op ev (remove_edge_handler ev actor raw raw_edge)"

text \<open>Whose messages an operation may store.\<close>

definition may_post :: "collab_env \<Rightarrow> collab_reply collab_prog \<Rightarrow> message \<Rightarrow> bool" where
  "may_post ev p m \<longleftrightarrow>
     (\<exists>clk new_id actor raw req. p = send_message_handler ev clk new_id actor raw req \<and>
        gate ev actor raw ''executor'' = Inr (ms_session m)) \<or>
     (\<exists>actor raw name cn. p = web_socket ev actor raw (ms_from m) name cn \<and>
        gate ev actor raw ''viewer'' = Inr (ms_session m))"

lemma collab_op_guarded: "collab_op ev p \<Longrightarrow> guarded (may_post ev p) p"
  by (induction rule: collab_op.induct)
    (rule web_socket_guarded readers_guarded send_message_guarded enable_guarded edges_guarded;
     (unfold may_post_def)?; blast)+

text \<open>Besides the calls, only time passes in the stores.\<close>

definition time_passes :: "collab_state \<Rightarrow> collab_state \<Rightarrow> bool" where
  "time_passes s s' \<longleftrightarrow> (\<exists>t. cs_now s \<le> t \<and> s' = s\<lparr>cs_now := t\<rparr>)"

abbreviation collab_reach :: "collab_env \<Rightarrow> collab_state \<Rightarrow> (collab_state, collab_call, collab_answer, collab_reply) system \<Rightarrow> bool" where
  "collab_reach ev \<equiv> sys_reach collab_apply AFailed (collab_op ev) time_passes"

end
