(* ===== verification/CollabRuns.thy ===== *)
theory CollabRuns
  imports CollabProps
begin

text \<open>
  All interleavings of the collaboration handlers on any number of servers: how many agents a session
  can have, and in whose name messages are stored.
\<close>

section \<open>Effects on the parts of the store\<close>

lemma active_key_inj [simp]: "active_key a = active_key b \<longleftrightarrow> a = b"
  by (simp add: active_key_def)

abbreviation collab_do :: "call_fate \<Rightarrow> collab_call \<Rightarrow> collab_state \<Rightarrow> collab_answer \<times> collab_state" where
  "collab_do \<equiv> do_call collab_apply AFailed"

abbreviation collab_replay :: "collab_state \<Rightarrow> (collab_call, collab_answer) entry list \<Rightarrow> collab_state" where
  "collab_replay \<equiv> replay collab_apply AFailed"

lemma upsert_edge_keeps [simp]:
  "cs_sets (snd (upsert_edge e s)) = cs_sets s" "cs_sessions (snd (upsert_edge e s)) = cs_sessions s"
  "cs_messages (snd (upsert_edge e s)) = cs_messages s"
  by (auto simp: upsert_edge_def split: option.split)

lemma claim_slot_keeps [simp]:
  "cs_sessions (snd (claim_slot key aid most s)) = cs_sessions s"
  "cs_messages (snd (claim_slot key aid most s)) = cs_messages s"
  "cs_edges (snd (claim_slot key aid most s)) = cs_edges s"
  by (auto simp: claim_slot_def)

text \<open>Only a claim and a removal touch the members, only one call touches the settings.\<close>

lemma members_after:
  "cs_sets (snd (collab_do fate c s)) =
     (if fate = CallUnreached then cs_sets s
      else case c of
        ClaimSlot key aid most \<Rightarrow> cs_sets (snd (claim_slot key aid most s))
      | RemoveMember key aid \<Rightarrow> (cs_sets s)(key := removeAll aid (cs_sets s key))
      | _ \<Rightarrow> cs_sets s)"
  by (cases fate; cases c) (auto simp: do_call_def update_agent_def)

lemma settings_after:
  "cs_sessions (snd (collab_do fate c s)) =
     (if fate = CallUnreached then cs_sessions s
      else case c of
        SetCollab sid most \<Rightarrow> (cs_sessions s)(sid := map_option (\<lambda>_. (Some True, Some most)) (cs_sessions s sid))
      | _ \<Rightarrow> cs_sessions s)"
  by (cases fate; cases c) (auto simp: do_call_def update_agent_def)

lemma messages_after:
  "cs_messages (snd (collab_do fate c s)) =
     (if fate = CallUnreached then cs_messages s
      else case c of
        InsertMessage m \<Rightarrow> (if cs_sessions s (ms_session m) = None then cs_messages s else cs_messages s @ [m])
      | _ \<Rightarrow> cs_messages s)"
  by (cases fate; cases c) (auto simp: do_call_def update_agent_def)

lemma settings_answer:
  "collab_do fate (GetSettings sid) s = (ASettings allow most, s') \<Longrightarrow>
     \<exists>r. cs_sessions s sid = Some r \<and> most = snd (settings_of r)"
  by (auto simp: do_call_def split: call_fate.splits option.splits)

section \<open>How many agents\<close>

text \<open>The maxima a session had: the one it started with and those set since.\<close>

definition allowed_sizes :: "collab_state \<Rightarrow> (collab_call, collab_answer) entry list \<Rightarrow> string \<Rightarrow> int set" where
  "allowed_sizes s0 es sid =
     {most. \<exists>r. cs_sessions s0 sid = Some r \<and> most = snd (settings_of r)} \<union>
     {most. \<exists>e \<in> set es. en_call e = SetCollab sid most \<and> en_fate e \<noteq> CallUnreached}"

lemma allowed_sizes_mono: "most \<in> allowed_sizes s0 es sid \<Longrightarrow> most \<in> allowed_sizes s0 (es @ fs) sid"
  by (auto simp: allowed_sizes_def)

definition within_sizes :: "collab_state \<Rightarrow> (collab_call, collab_answer) entry list \<Rightarrow> string \<Rightarrow> string list \<Rightarrow> bool" where
  "within_sizes s0 es sid xs \<longleftrightarrow>
     distinct xs \<and> (xs = [] \<or> (\<exists>most \<in> allowed_sizes s0 es sid. int (length xs) \<le> most))"

definition sizes_inv :: "collab_state \<Rightarrow> (collab_call, collab_answer) entry list \<Rightarrow> collab_state \<Rightarrow> bool" where
  "sizes_inv s0 es s \<longleftrightarrow>
     (\<forall>sid r. cs_sessions s sid = Some r \<longrightarrow> snd (settings_of r) \<in> allowed_sizes s0 es sid) \<and>
     (\<forall>e \<in> set es. \<forall>sid allow most. en_call e = GetSettings sid \<and> en_answer e = ASettings allow most \<longrightarrow>
        most \<in> allowed_sizes s0 es sid) \<and>
     (\<forall>sid. within_sizes s0 es sid (cs_sets s (active_key sid)))"

lemma sizes_inv_row:
  "sizes_inv s0 es s \<Longrightarrow> cs_sessions s sid = Some r \<Longrightarrow> snd (settings_of r) \<in> allowed_sizes s0 es sid"
  unfolding sizes_inv_def by blast

lemma within_removeAll:
  assumes "within_sizes s0 es sid xs"
  shows "within_sizes s0 es sid (removeAll aid xs)"
proof -
  have "length (removeAll aid xs) \<le> length xs" by (simp add: removeAll_filter_not_eq)
  then have "int (length (removeAll aid xs)) \<le> most" if "int (length xs) \<le> most" for most
    using that by linarith
  with assms show ?thesis by (auto simp: within_sizes_def distinct_removeAll)
qed

lemma within_mono: "within_sizes s0 es sid xs \<Longrightarrow> within_sizes s0 (es @ fs) sid xs"
  by (auto simp: within_sizes_def intro: allowed_sizes_mono)

lemma within_claim:
  assumes "within_sizes s0 es sid (cs_sets s (active_key sid))" "most \<in> allowed_sizes s0 es sid'"
  shows "within_sizes s0 es sid (cs_sets (snd (claim_slot (active_key sid') aid most s)) (active_key sid))"
proof (cases "sid = sid' \<and> aid \<notin> set (cs_sets s (active_key sid')) \<and> int (length (cs_sets s (active_key sid'))) < most")
  case True
  then have "\<exists>x \<in> allowed_sizes s0 es sid. int (length (cs_sets s (active_key sid) @ [aid])) \<le> x"
    using assms(2) by (intro bexI [of _ most]) auto
  with True assms(1) show ?thesis by (auto simp: claim_slot_def within_sizes_def)
next
  case False
  with assms(1) show ?thesis by (auto simp: claim_slot_def)
qed

lemma sizes_inv_settings:
  assumes "sizes_inv s0 es s" "cs_sessions s' = cs_sessions s \<or>
      (\<exists>sid most. c = SetCollab sid most \<and> fate \<noteq> CallUnreached \<and>
         cs_sessions s' = (cs_sessions s)(sid := map_option (\<lambda>_. (Some True, Some most)) (cs_sessions s sid)))"
    and "cs_sessions s' sid = Some r" "e = \<lparr> en_thread = i, en_call = c, en_fate = fate, en_answer = a \<rparr>"
  shows "snd (settings_of r) \<in> allowed_sizes s0 (es @ [e]) sid"
proof -
  have old: "snd (settings_of r) \<in> allowed_sizes s0 (es @ [e]) sid" if "cs_sessions s sid = Some r"
    using sizes_inv_row [OF assms(1) that] by (rule allowed_sizes_mono)
  show ?thesis
  proof (cases "cs_sessions s' sid = cs_sessions s sid")
    case False
    with assms(2,3) obtain most where "c = SetCollab sid most" "fate \<noteq> CallUnreached" "r = (Some True, Some most)"
      by (auto simp: fun_upd_def split: if_splits)
    with assms(4) show ?thesis by (auto simp: allowed_sizes_def settings_of_def)
  qed (use old assms(3) in auto)
qed

lemma sizes_inv_call:
  assumes inv: "sizes_inv s0 es s" and guard: "collab_guard (\<lambda>_. True) (calls_of i es) c"
    and step: "collab_do fate c s = (a, s')"
  shows "sizes_inv s0 (es @ [\<lparr> en_thread = i, en_call = c, en_fate = fate, en_answer = a \<rparr>]) s'"
    (is "sizes_inv s0 (es @ [?e]) s'")
proof -
  from step have s': "s' = snd (collab_do fate c s)" by simp
  have settings: "snd (settings_of r) \<in> allowed_sizes s0 (es @ [?e]) sid" if "cs_sessions s' sid = Some r" for sid r
    using settings_after [of fate c s] that
    by (intro sizes_inv_settings [OF inv _ that refl, where fate = fate and c = c])
      (auto simp: s' split: if_splits collab_call.splits)
  have answers: "most \<in> allowed_sizes s0 (es @ [?e]) sid"
    if "e \<in> set (es @ [?e])" "en_call e = GetSettings sid" "en_answer e = ASettings allow most" for e sid allow most
  proof (cases "e \<in> set es")
    case True
    with inv that show ?thesis by (auto simp: sizes_inv_def intro: allowed_sizes_mono)
  next
    case False
    with that have "collab_do fate (GetSettings sid) s = (ASettings allow most, s')" using step by auto
    then obtain r where "cs_sessions s sid = Some r" "most = snd (settings_of r)"
      by (blast dest: settings_answer)
    then show ?thesis by (metis allowed_sizes_mono inv sizes_inv_row)
  qed
  have members: "within_sizes s0 (es @ [?e]) sid (cs_sets s' (active_key sid))" for sid
  proof (cases "fate \<noteq> CallUnreached \<and> (\<exists>key aid most. c = ClaimSlot key aid most)")
    case True
    then obtain key aid most where c: "c = ClaimSlot key aid most" "fate \<noteq> CallUnreached" by blast
    with guard obtain sid' where key: "key = active_key sid'" "(GetSettings sid', ASettings True most) \<in> set (calls_of i es)"
      by auto
    then obtain e where "e \<in> set es" "en_call e = GetSettings sid'" "en_answer e = ASettings True most"
      by (auto simp: calls_of_member)
    with inv have "most \<in> allowed_sizes s0 es sid'" by (auto simp: sizes_inv_def)
    moreover have "within_sizes s0 es sid (cs_sets s (active_key sid))" using inv by (auto simp: sizes_inv_def)
    ultimately show ?thesis
      using c key(1) by (simp add: s' members_after within_mono within_claim)
  next
    case False
    have "within_sizes s0 (es @ [?e]) sid (cs_sets s (active_key sid))"
      using inv by (auto simp: sizes_inv_def intro: within_mono)
    with False show ?thesis
      by (auto simp: s' members_after within_removeAll split: collab_call.split)
  qed
  show ?thesis unfolding sizes_inv_def using settings answers members by blast
qed

interpretation sizes: store_invariant collab_apply AFailed "collab_op ev" time_passes
    "collab_guard (\<lambda>_. True)" "sizes_inv s0" for ev s0
proof
  show "calls_ok (collab_guard (\<lambda>_. True)) p []" if "collab_op ev p" for p
    by (rule prog_ok_mono [OF collab_op_guarded [OF that]]) (auto simp: collab_guard_def split: collab_call.splits)
  show "sizes_inv s0 es s'" if "sizes_inv s0 es s" "time_passes s s'" for es s s'
    using that by (auto simp: sizes_inv_def time_passes_def)
qed (rule sizes_inv_call)

text \<open>What the handler for the settings lets through.\<close>

lemma allowed_sizes_bounded:
  assumes "collab_reach ev s0 S" "\<And>sid r. cs_sessions s0 sid = Some r \<Longrightarrow> snd (settings_of r) \<le> 32"
    and "most \<in> allowed_sizes s0 (sy_log S) sid"
  shows "most \<le> 32"
proof (rule ccontr)
  assume "\<not> most \<le> 32"
  with assms(2,3) obtain e where "e \<in> set (sy_log S)" "en_call e = SetCollab sid most"
    by (auto simp: allowed_sizes_def)
  then obtain n where n: "n < length (sy_log S)" "en_call (sy_log S ! n) = SetCollab sid most"
    by (auto simp: in_set_conv_nth)
  have "log_guarded (\<lambda>p. collab_guard (may_post ev p)) S"
    using assms(1) by (rule log_guarded_reach) (rule collab_op_guarded)
  with n have "collab_guard P h (SetCollab sid most)" for P h
    by (auto simp: log_guarded_def Let_def)
  with \<open>\<not> most \<le> 32\<close> show False by simp
qed

section \<open>In whose name\<close>

text \<open>Who was active after the first \<open>k\<close> calls of the log.\<close>

definition members_at :: "collab_state \<Rightarrow> (collab_call, collab_answer) entry list \<Rightarrow> nat \<Rightarrow> string \<Rightarrow> string set" where
  "members_at s0 es k sid = set (cs_sets (collab_replay s0 (take k es)) (active_key sid))"

text \<open>An entry that says an agent is active is right about it, the moment after.\<close>

definition member_answers_ok :: "collab_state \<Rightarrow> (collab_call, collab_answer) entry list \<Rightarrow> bool" where
  "member_answers_ok s0 es \<longleftrightarrow>
     (\<forall>k < length es. \<forall>sid aid.
        (en_call (es ! k) = IsMember (active_key sid) aid \<and> en_answer (es ! k) = ABool True \<or>
         (\<exists>most n. en_call (es ! k) = ClaimSlot (active_key sid) aid most \<and> en_answer (es ! k) = ANum n \<and> n \<noteq> 0))
        \<longrightarrow> aid \<in> members_at s0 es (Suc k) sid)"

definition members_inv :: "collab_state \<Rightarrow> (collab_call, collab_answer) entry list \<Rightarrow> collab_state \<Rightarrow> bool" where
  "members_inv s0 es s \<longleftrightarrow>
     cs_sets s = cs_sets (collab_replay s0 es) \<and> member_answers_ok s0 es \<and>
     (\<forall>m \<in> set (cs_messages s). m \<in> set (cs_messages s0) \<or> (\<exists>e \<in> set es. en_call e = InsertMessage m))"

lemma members_at_append [simp]: "k \<le> length es \<Longrightarrow> members_at s0 (es @ fs) k sid = members_at s0 es k sid"
  by (simp add: members_at_def)

lemma member_answer:
  assumes "collab_do fate c s = (a, s')"
    and "c = IsMember (active_key sid) aid \<and> a = ABool True \<or>
         (\<exists>most n. c = ClaimSlot (active_key sid) aid most \<and> a = ANum n \<and> n \<noteq> 0)"
  shows "aid \<in> set (cs_sets s' (active_key sid))"
  using assms by (auto simp: do_call_def claim_slot_def split: call_fate.splits if_splits)

lemma members_inv_call:
  assumes inv: "members_inv s0 es s" and step: "collab_do fate c s = (a, s')"
  shows "members_inv s0 (es @ [\<lparr> en_thread = i, en_call = c, en_fate = fate, en_answer = a \<rparr>]) s'"
    (is "members_inv s0 (es @ [?e]) s'")
proof -
  from step have s': "s' = snd (collab_do fate c s)" by simp
  have sets: "cs_sets s' = cs_sets (collab_replay s0 (es @ [?e]))"
    using inv members_after [of fate c s] members_after [of fate c "collab_replay s0 es"]
    by (auto simp: s' members_inv_def claim_slot_def split: collab_call.split)
  have "aid \<in> members_at s0 (es @ [?e]) (Suc k) sid"
    if k: "k < length (es @ [?e])" and
      ok: "en_call ((es @ [?e]) ! k) = IsMember (active_key sid) aid \<and> en_answer ((es @ [?e]) ! k) = ABool True \<or>
         (\<exists>most n. en_call ((es @ [?e]) ! k) = ClaimSlot (active_key sid) aid most \<and>
            en_answer ((es @ [?e]) ! k) = ANum n \<and> n \<noteq> 0)" for k sid aid
  proof (cases "k = length es")
    case True
    with ok have "aid \<in> set (cs_sets s' (active_key sid))" by (intro member_answer [OF step]) auto
    with True sets show ?thesis by (simp add: members_at_def)
  next
    case False
    with k ok inv show ?thesis by (auto simp: members_inv_def member_answers_ok_def nth_append)
  qed
  then have "member_answers_ok s0 (es @ [?e])" unfolding member_answers_ok_def by blast
  moreover have "m \<in> set (cs_messages s0) \<or> (\<exists>e \<in> set (es @ [?e]). en_call e = InsertMessage m)"
    if "m \<in> set (cs_messages s')" for m
    using that inv by (auto simp: s' messages_after members_inv_def split: if_splits collab_call.splits)
  ultimately show ?thesis using sets unfolding members_inv_def by blast
qed

interpretation members: store_invariant collab_apply AFailed "collab_op ev" time_passes
    "\<lambda>_ _. True" "members_inv s0" for ev s0
proof
  have all_ok: "calls_ok (\<lambda>_ _. True) p h" for p :: "collab_reply collab_prog" and h
    by (induction p arbitrary: h) auto
  then show "calls_ok (\<lambda>_ _. True) p []" for p :: "collab_reply collab_prog" .
  show "members_inv s0 es s'" if "members_inv s0 es s" "time_passes s s'" for es s s'
    using that by (auto simp: members_inv_def time_passes_def)
qed (rule members_inv_call)

lemma members_reach:
  assumes "collab_reach ev s0 S"
  shows "members_inv s0 (sy_log S) (sy_store S)"
  using assms by (rule members.invariant) (simp add: members_inv_def member_answers_ok_def)

text \<open>A history that shows a held slot shows a moment at which the agent was active.\<close>

lemma held_slot_moment:
  assumes "member_answers_ok s0 es" "n \<le> length es" "held_slot (calls_of i (take n es)) sid aid"
  shows "\<exists>k < n. en_thread (es ! k) = i \<and> aid \<in> members_at s0 es (Suc k) sid"
proof -
  have "\<exists>e \<in> set (take n es). en_thread e = i \<and>
     (en_call e = IsMember (active_key sid) aid \<and> en_answer e = ABool True \<or>
      (\<exists>most r. en_call e = ClaimSlot (active_key sid) aid most \<and> en_answer e = ANum r \<and> r \<noteq> 0))"
    using assms(3) unfolding held_slot_def calls_of_member by blast
  then obtain k where "k < n" "k < length es" "en_thread (es ! k) = i"
    "en_call (es ! k) = IsMember (active_key sid) aid \<and> en_answer (es ! k) = ABool True \<or>
      (\<exists>most r. en_call (es ! k) = ClaimSlot (active_key sid) aid most \<and> en_answer (es ! k) = ANum r \<and> r \<noteq> 0)"
    by (auto simp: in_set_conv_nth)
  with assms(1) show ?thesis unfolding member_answers_ok_def by blast
qed

end
