(* ===== verification/CollabClaims.thy ===== *)
theory CollabClaims
  imports CollabRuns
begin

text \<open>
  The properties of collaboration over all interleavings, a run that shows their hypotheses hold, and
  what happens to slots, events and edges when calls fail or race.

  The swarm graph over all interleavings: its edges are keyed, joined agents that were known, and are
  bounded in number only when the operations do not race.
\<close>

section \<open>A run\<close>

definition demo_codec :: agent_codec where
  "demo_codec = \<lparr> ac_marshal = (\<lambda>ag. Some (ag_id ag)), ac_unmarshal = (\<lambda>_. None) \<rparr>"

definition demo_collab :: collab_env where
  "demo_collab =
     \<lparr> cv_uuid = (\<lambda>raw. Some raw), cv_codec = demo_codec,
        cv_sessions = (\<lambda>sid. Found \<lparr> s_id = sid, s_created_by = ''ann'', s_org = None, s_stopped = None,
          s_container = None, s_status = ''running'', s_workspace = ''w'' \<rparr>),
        cv_roles = (\<lambda>_ _. NoRows) \<rparr>"

definition demo_collab_store :: collab_state where
  "demo_collab_store =
     \<lparr> cs_now = 0, cs_sets = (\<lambda>_. []), cs_vals = (\<lambda>_. None), cs_published = [],
        cs_sessions = (\<lambda>sid. if sid = ''s'' then Some (Some True, Some 1) else None),
        cs_agents = (\<lambda>_ _. None), cs_messages = [], cs_versions = [], cs_edges = [] \<rparr>"

definition demo_connection :: "(string \<Rightarrow> string option) option \<Rightarrow> connection" where
  "demo_connection p =
     \<lparr> cn_refused = None, cn_join = (\<lambda>_. 7), cn_leave = (\<lambda>_. 9),
        cn_frames = [((\<lambda>_. 8), ''m1'', Frame ''message'' p)] \<rparr>"

definition demo_hello :: "(string \<Rightarrow> string option) option" where
  "demo_hello = Some [''body'' \<mapsto> ''hi'']"

text \<open>
  Two agents try to join a session for one; the first posts a message through its connection while the
  second is refused.
\<close>

definition demo_collab_moves :: "(collab_call, collab_answer, collab_reply) move list" where
  "demo_collab_moves =
     [Begin (web_socket demo_collab ''ann'' ''s'' ''a'' [] (demo_connection demo_hello)),
      Begin (web_socket demo_collab ''ann'' ''s'' ''b'' [] (demo_connection demo_hello))] @
     map (\<lambda>i. Step i CallAnswered) [0, 1, 0, 1, 0, 1, 0, 0, 0, 0, 0, 0]"

definition demo_collab_end :: "(collab_state, collab_call, collab_answer, collab_reply) system" where
  "demo_collab_end = the (do_moves collab_apply AFailed demo_collab_moves (boot demo_collab_store))"

lemma demo_valid:
  "validate_agent_id ''a'' = Inr ()" "validate_agent_id ''b'' = Inr ()"
  "validate_agent_name ''a'' = Inr ()" "validate_agent_name ''b'' = Inr ()"
  "check_message ''a'' [] ''hi'' ''broadcast'' = Inr ()"
  by (simp_all add: validate_agent_id_def agent_id_pattern_def id_char_def char_class_defs validate_agent_name_def
      validate_text_def check_message_def validate_message_body_def validate_message_type_def utf8_valid.simps in_range_def)

lemma demo_gate: "gate demo_collab ''ann'' ''s'' role = Inr ''s''"
  by (simp add: gate_def demo_collab_def check_session_access_eq may_access_def)

lemma demo_parts:
  "cv_codec demo_collab = demo_codec" "cv_uuid demo_collab raw = Some raw"
  "ac_marshal demo_codec ag = Some (ag_id ag)" "ac_unmarshal demo_codec t = None"
  by (simp_all add: demo_collab_def demo_codec_def)

lemma demo_socket:
  "x \<in> {''a'', ''b''} \<Longrightarrow>
   web_socket demo_collab ''ann'' ''s'' x [] (demo_connection demo_hello) =
     if_enabled ''s'' 403 (pbind (join_session demo_codec (\<lambda>_. 7) ''s'' x x) (\<lambda>r.
       case r of
         Inl e \<Rightarrow> Return (Status (join_status e))
       | Inr _ \<Rightarrow>
           pbind (get_active_agents demo_codec ''s'')
             (\<lambda>_. read_pump demo_codec ''s'' x (\<lambda>_. 9) [((\<lambda>_. 8), ''m1'', Frame ''message'' demo_hello)])))"
  using demo_valid
  by (auto simp: web_socket_def demo_gate demo_parts demo_connection_def simp del: read_pump.simps)

lemma demo_frame:
  "handle_frame cd clk new_id sid aid (Frame ''message'' demo_hello) =
     pbind (send_message clk new_id sid aid [] ''hi'' ''broadcast'') (\<lambda>_. Return ())"
  by (simp add: handle_frame_def demo_hello_def member_or_empty_def)

lemmas collab_eval =
  if_enabled_def collaboration_enabled_def join_session_def checked_def store_join_def joining_agent_def publish_event_def
  get_active_agents_def send_message_def leave_session_def free_slot_def
  release_agent_slot_def do_call_def settings_of_def claim_slot_def live_value_def upsert_agent_def Let_def presence_ttl_def

lemma demo_collab_run:
  "do_moves collab_apply AFailed demo_collab_moves (boot demo_collab_store) = Some demo_collab_end"
  "cs_sets (sy_store demo_collab_end) (active_key ''s'') = [''a'']"
  "map ms_from (cs_messages (sy_store demo_collab_end)) = [''a'']"
  by (simp_all cong: Call_lazy add: demo_collab_end_def demo_collab_moves_def boot_def fresh_thread_def demo_socket
      demo_collab_store_def demo_valid demo_parts demo_frame collab_eval)

lemma demo_collab_reach: "collab_reach demo_collab demo_collab_store demo_collab_end"
  by (rule do_moves_reach [OF demo_collab_run(1) reach_boot])
    (auto simp: demo_collab_moves_def intro: collab_op.intros)

section \<open>Properties\<close>

text \<open>
  Property C32.  However the handlers of any number of servers interleave, and whichever of their calls
  fail, the active agents of a session are without duplicates and no more than a maximum that the
  session had at some time; never more than 32 when no session starts with a larger maximum.
\<close>

theorem active_agents_capped:
  assumes "collab_reach ev s0 S" "\<And>key. cs_sets s0 key = []"
    and "\<And>sid r. cs_sessions s0 sid = Some r \<Longrightarrow> snd (settings_of r) \<le> 32"
  shows "distinct (cs_sets (sy_store S) (active_key sid)) \<and>
    (cs_sets (sy_store S) (active_key sid) = [] \<or>
     (\<exists>most \<in> allowed_sizes s0 (sy_log S) sid. int (length (cs_sets (sy_store S) (active_key sid))) \<le> most)) \<and>
    length (cs_sets (sy_store S) (active_key sid)) \<le> 32"
proof -
  have "sizes_inv s0 [] s0" using assms(2) by (auto simp: sizes_inv_def within_sizes_def allowed_sizes_def)
  with assms(1) have "sizes_inv s0 (sy_log S) (sy_store S)" by (rule sizes.invariant)
  then have w: "within_sizes s0 (sy_log S) sid (cs_sets (sy_store S) (active_key sid))"
    by (simp add: sizes_inv_def)
  moreover have "length (cs_sets (sy_store S) (active_key sid)) \<le> 32"
  proof (cases "cs_sets (sy_store S) (active_key sid) = []")
    case False
    with w obtain most where "most \<in> allowed_sizes s0 (sy_log S) sid"
      "int (length (cs_sets (sy_store S) (active_key sid))) \<le> most"
      by (auto simp: within_sizes_def)
    with allowed_sizes_bounded [OF assms(1,3)] show ?thesis by fastforce
  qed simp
  ultimately show ?thesis by (simp add: within_sizes_def)
qed

theorem active_agents_capped_witness:
  "cs_sets (sy_store demo_collab_end) (active_key ''s'') = [''a''] \<and>
   length (cs_sets (sy_store demo_collab_end) (active_key ''s'')) \<le> 32"
  using active_agents_capped [OF demo_collab_reach, of "''s''"] demo_collab_run(2)
  by (simp add: demo_collab_store_def settings_of_def split: if_splits)

text \<open>
  Property C33.  Every message stored while the handlers run was stored by a request of a caller who may
  execute in its session, or by the connection of its sender, opened by a caller who may view the
  session.  It has passed validation, and the sender was an active agent of the session at a moment
  during that request.
\<close>

theorem message_senders_admitted:
  assumes "collab_reach ev s0 S" "m \<in> set (cs_messages (sy_store S))" "m \<notin> set (cs_messages s0)"
  shows "\<exists>n < length (sy_log S).
    en_call (sy_log S ! n) = InsertMessage m \<and>
    may_post ev (th_start (sy_threads S ! en_thread (sy_log S ! n))) m \<and>
    check_message (ms_from m) (ms_to m) (ms_body m) (ms_type m) = Inr () \<and>
    (\<exists>k < n. en_thread (sy_log S ! k) = en_thread (sy_log S ! n) \<and>
       ms_from m \<in> members_at s0 (sy_log S) (Suc k) (ms_session m))"
proof -
  have inv: "members_inv s0 (sy_log S) (sy_store S)" using assms(1) by (rule members_reach)
  with assms(2,3) obtain n where n: "n < length (sy_log S)" "en_call (sy_log S ! n) = InsertMessage m"
    unfolding members_inv_def by (metis in_set_conv_nth)
  have "log_guarded (\<lambda>p. collab_guard (may_post ev p)) S"
    using assms(1) by (rule log_guarded_reach) (rule collab_op_guarded)
  with n have guard: "collab_guard (may_post ev (th_start (sy_threads S ! en_thread (sy_log S ! n))))
      (calls_of (en_thread (sy_log S ! n)) (take n (sy_log S))) (InsertMessage m)"
    by (auto simp: log_guarded_def Let_def)
  then have "held_slot (calls_of (en_thread (sy_log S ! n)) (take n (sy_log S))) (ms_session m) (ms_from m)"
    by simp
  with inv n(1) have "\<exists>k < n. en_thread (sy_log S ! k) = en_thread (sy_log S ! n) \<and>
       ms_from m \<in> members_at s0 (sy_log S) (Suc k) (ms_session m)"
    by (intro held_slot_moment) (auto simp: members_inv_def)
  with n guard show ?thesis by auto
qed

theorem message_senders_admitted_witness:
  "\<exists>m n k. m \<in> set (cs_messages (sy_store demo_collab_end)) \<and> ms_from m = ''a'' \<and>
     en_call (sy_log demo_collab_end ! n) = InsertMessage m \<and>
     ms_from m \<in> members_at demo_collab_store (sy_log demo_collab_end) k (ms_session m)"
proof -
  from demo_collab_run(3) obtain m where m: "m \<in> set (cs_messages (sy_store demo_collab_end))" "ms_from m = ''a''"
    by auto
  moreover have "m \<notin> set (cs_messages demo_collab_store)" by (simp add: demo_collab_store_def)
  ultimately show ?thesis using message_senders_admitted [OF demo_collab_reach m(1)] by blast
qed

section \<open>The edges\<close>

definition edge_key :: "graph_edge \<Rightarrow> string \<times> string \<times> string \<times> string" where
  "edge_key e = (ge_session e, ge_from e, ge_to e, ge_relation e)"

lemma same_edge_key: "same_edge sid from to rel e \<longleftrightarrow> edge_key e = (sid, from, to, rel)"
  by (auto simp: same_edge_def edge_key_def)

definition added_keys :: "(collab_call, collab_answer) entry list \<Rightarrow> (string \<times> string \<times> string \<times> string) set" where
  "added_keys es = {edge_key e' |e'. UpsertEdge e' \<in> en_call ` set es}"

definition keys_ok :: "(collab_call, collab_answer) entry list \<Rightarrow> graph_edge list \<Rightarrow> bool" where
  "keys_ok es gs \<longleftrightarrow> distinct (map edge_key gs) \<and> set (map edge_key gs) \<subseteq> added_keys es"

definition edges_inv :: "(collab_call, collab_answer) entry list \<Rightarrow> collab_state \<Rightarrow> bool" where
  "edges_inv es s \<longleftrightarrow> keys_ok es (cs_edges s)"

lemma keys_ok_later: "keys_ok es gs \<Longrightarrow> keys_ok (es @ fs) gs"
proof -
  have "added_keys es \<subseteq> added_keys (es @ fs)" by (auto simp: added_keys_def)
  then show "keys_ok es gs \<Longrightarrow> keys_ok (es @ fs) gs" by (auto simp: keys_ok_def)
qed

lemma keys_ok_filter: "keys_ok es gs \<Longrightarrow> keys_ok es (filter P gs)"
  by (auto simp: keys_ok_def distinct_map_filter)

lemma relabelled_keys:
  "map edge_key (map (\<lambda>x. if P x then x\<lparr>ge_label := l, ge_metadata := d\<rparr> else x) es) = map edge_key es"
  by (simp add: edge_key_def)

lemma edges_after:
  "cs_edges (snd (collab_do fate c s)) =
     (if fate = CallUnreached then cs_edges s
      else case c of
        UpsertEdge e \<Rightarrow> cs_edges (snd (upsert_edge e s))
      | DeleteEdge eid sid \<Rightarrow> filter (\<lambda>e. \<not> (ge_id e = eid \<and> ge_session e = sid)) (cs_edges s)
      | _ \<Rightarrow> cs_edges s)"
  by (cases fate; cases c) (auto simp: do_call_def update_agent_def)

lemma upsert_edge_keys:
  "map edge_key (cs_edges (snd (upsert_edge e s))) = map edge_key (cs_edges s) \<or>
   edge_key e \<notin> set (map edge_key (cs_edges s)) \<and>
   map edge_key (cs_edges (snd (upsert_edge e s))) = map edge_key (cs_edges s) @ [edge_key e]"
proof (cases "find (same_edge (ge_session e) (ge_from e) (ge_to e) (ge_relation e)) (cs_edges s)")
  case None
  then have "edge_key e \<notin> set (map edge_key (cs_edges s))"
    by (auto simp: find_None_iff same_edge_key edge_key_def)
  with None show ?thesis by (auto simp: upsert_edge_def)
next
  case (Some old)
  then show ?thesis by (auto simp: upsert_edge_def relabelled_keys simp del: map_map)
qed

lemma keys_ok_upsert:
  assumes "keys_ok es (cs_edges s)" "edge_key e \<in> added_keys es"
  shows "keys_ok es (cs_edges (snd (upsert_edge e s)))"
  using upsert_edge_keys [of e s] assms unfolding keys_ok_def by (elim disjE) (simp_all del: set_map)

lemma edges_inv_call:
  assumes "edges_inv es s" "collab_do fate c s = (a, s')"
  shows "edges_inv (es @ [\<lparr> en_thread = i, en_call = c, en_fate = fate, en_answer = a \<rparr>]) s'"
    (is "edges_inv (es @ [?e]) s'")
proof -
  from assms(2) have s': "s' = snd (collab_do fate c s)" by simp
  define fs where fs: "fs = es @ [?e]"
  have old: "keys_ok fs (cs_edges s)" using assms(1) by (simp add: edges_inv_def keys_ok_later fs)
  have new: "keys_ok fs (cs_edges (snd (upsert_edge e s)))" if "c = UpsertEdge e" for e
    using that by (intro keys_ok_upsert [OF old]) (auto simp: added_keys_def fs)
  have "keys_ok fs (cs_edges s')"
    unfolding s' edges_after by (simp add: old new keys_ok_filter split: collab_call.split)
  then show ?thesis by (simp add: edges_inv_def fs)
qed

interpretation edges: store_invariant collab_apply AFailed "collab_op ev" time_passes "\<lambda>_ _. True" edges_inv for ev
proof
  have all_ok: "calls_ok (\<lambda>_ _. True) p h" for p :: "collab_reply collab_prog" and h
    by (induction p arbitrary: h) auto
  then show "calls_ok (\<lambda>_ _. True) p []" for p :: "collab_reply collab_prog" .
  show "edges_inv es s'" if "edges_inv es s" "time_passes s s'" for es s s'
    using that by (auto simp: edges_inv_def time_passes_def)
qed (rule edges_inv_call)

text \<open>
  However the handlers interleave, a session has one edge for a pair of agents and a relation, no agent
  is joined to itself, relations are of the four kinds, and both ends were agents of the session,
  active or earlier, when the edge was added.
\<close>

theorem graph_edges_well_formed:
  assumes "collab_reach ev s0 S" "cs_edges s0 = []"
  shows "distinct (map edge_key (cs_edges (sy_store S))) \<and>
    (\<forall>e \<in> set (cs_edges (sy_store S)).
       ge_from e \<noteq> ge_to e \<and> validate_graph_relation (ge_relation e) = Inr () \<and>
       (\<exists>n < length (sy_log S).
          let h = calls_of (en_thread (sy_log S ! n)) (take n (sy_log S)) in
          known_agent h (ge_session e) (ge_from e) \<and> known_agent h (ge_session e) (ge_to e)))"
proof -
  have inv: "edges_inv (sy_log S) (sy_store S)"
    using assms(1) by (rule edges.invariant) (simp add: edges_inv_def keys_ok_def assms(2))
  have guards: "log_guarded (\<lambda>p. collab_guard (may_post ev p)) S"
    using assms(1) by (rule log_guarded_reach) (rule collab_op_guarded)
  have "ge_from e \<noteq> ge_to e \<and> validate_graph_relation (ge_relation e) = Inr () \<and>
       (\<exists>n < length (sy_log S).
          let h = calls_of (en_thread (sy_log S ! n)) (take n (sy_log S)) in
          known_agent h (ge_session e) (ge_from e) \<and> known_agent h (ge_session e) (ge_to e))"
    if "e \<in> set (cs_edges (sy_store S))" for e
  proof -
    from that inv have "edge_key e \<in> added_keys (sy_log S)" by (auto simp: edges_inv_def keys_ok_def)
    then obtain en e' where e': "en \<in> set (sy_log S)" "en_call en = UpsertEdge e'" "edge_key e' = edge_key e"
      unfolding added_keys_def by (smt (verit, best) image_iff mem_Collect_eq)
    then obtain n where n: "n < length (sy_log S)" "en_call (sy_log S ! n) = UpsertEdge e'"
      by (metis in_set_conv_nth)
    with guards have "check_edge (ge_from e') (ge_to e') (ge_relation e') (ge_label e') = Inr ()"
      "known_agent (calls_of (en_thread (sy_log S ! n)) (take n (sy_log S))) (ge_session e') (ge_from e')"
      "known_agent (calls_of (en_thread (sy_log S ! n)) (take n (sy_log S))) (ge_session e') (ge_to e')"
      by (auto simp: log_guarded_def Let_def)
    with e'(3) n(1) show ?thesis
      by (auto simp: edge_key_def Let_def check_edge_def rbind_eq_Inr)
  qed
  with inv show ?thesis by (simp add: edges_inv_def keys_ok_def)
qed

section \<open>The limit on edges\<close>

definition session_edges :: "string \<Rightarrow> collab_state \<Rightarrow> graph_edge list" where
  "session_edges sid s = filter (\<lambda>e. ge_session e = sid) (cs_edges s)"

text \<open>An addition that is not disturbed keeps a session within 256 edges.\<close>

lemma upsert_edge_count:
  "length (session_edges sid (snd (upsert_edge e s))) \<le>
     length (session_edges sid s) + (if ge_session e = sid \<and> filter (same_edge sid (ge_from e) (ge_to e) (ge_relation e)) (cs_edges s) = [] then 1 else 0)"
proof -
  have same: "(\<lambda>x. ge_session x = sid) \<circ> (\<lambda>x. if P x then x\<lparr>ge_label := l, ge_metadata := d\<rparr> else x) =
      (\<lambda>x. ge_session x = sid)" for P l d
    by (rule ext) simp
  show ?thesis
    by (auto simp: upsert_edge_def session_edges_def same find_None_iff filter_empty_conv split: option.split)
qed

lemma run_alone_known:
  "run_alone collab_apply AFailed (agent_known sid aid) [] s = (r, s') \<Longrightarrow> s' = s"
  by (auto simp: agent_known_def is_agent_active_def checked_def do_call_def run_alone_bind split: sum.splits if_splits)

lemma run_alone_insert:
  "run_alone collab_apply AFailed (insert_edge e) [] s = (r, s') \<Longrightarrow> s' = snd (upsert_edge e s)"
  by (auto simp: insert_edge_def do_call_def split: prod.splits collab_answer.splits)

lemma edge_limit_alone:
  assumes "run_alone collab_apply AFailed (add_graph_edge clk new_id sid from to rel label js) [] s = (r, s')"
    and few: "length (session_edges sid s) \<le> 256"
  shows "length (session_edges sid s') \<le> 256"
proof -
  have "s' = s \<or> (\<exists>e. s' = snd (upsert_edge e s) \<and> ge_session e = sid \<and> ge_from e = from \<and> ge_to e = to \<and>
      ge_relation e = rel \<and> (filter (same_edge sid from to rel) (cs_edges s) \<noteq> [] \<or> length (session_edges sid s) < 256))"
    using assms(1)
    by (auto simp: add_graph_edge_def checked_def run_alone_bind both_known_def edge_room_def do_call_def Let_def
        session_edges_def split: sum.splits option.splits if_splits prod.splits dest!: run_alone_known run_alone_insert)
  then show ?thesis
  proof (elim disjE exE)
    fix e assume e: "s' = snd (upsert_edge e s) \<and> ge_session e = sid \<and> ge_from e = from \<and> ge_to e = to \<and>
      ge_relation e = rel \<and> (filter (same_edge sid from to rel) (cs_edges s) \<noteq> [] \<or> length (session_edges sid s) < 256)"
    with upsert_edge_count [of sid e s] few show ?thesis by (auto split: if_splits)
  qed (simp add: few)
qed

text \<open>
  Two additions that both count before either inserts: with 255 edges in the session, they leave 257.
\<close>

lemma edge_limit_race:
  assumes "collab_apply (CountEdges sid) s = (ANum 255, s)" "cs_sessions s sid \<noteq> None"
    and "ge_session e1 = sid" "ge_session e2 = sid" "ge_from e1 \<noteq> ge_to e1" "ge_from e2 \<noteq> ge_to e2"
    and "edge_key e1 \<notin> set (map edge_key (cs_edges s))" "edge_key e2 \<notin> set (map edge_key (cs_edges s))"
    and "edge_key e1 \<noteq> edge_key e2"
  shows "\<exists>S. do_moves collab_apply AFailed
      [Begin (pbind (edge_room sid (ge_from e1) (ge_to e1) (ge_relation e1)) (\<lambda>r. case r of Inl e \<Rightarrow> Return (Inl e) | Inr _ \<Rightarrow> insert_edge e1)),
       Begin (pbind (edge_room sid (ge_from e2) (ge_to e2) (ge_relation e2)) (\<lambda>r. case r of Inl e \<Rightarrow> Return (Inl e) | Inr _ \<Rightarrow> insert_edge e2)),
       Step 0 CallAnswered, Step 1 CallAnswered, Step 0 CallAnswered, Step 1 CallAnswered, Step 0 CallAnswered, Step 1 CallAnswered]
      (boot s) = Some S \<and> length (session_edges sid (sy_store S)) = 257"
proof -
  have none: "find (same_edge (ge_session e) (ge_from e) (ge_to e) (ge_relation e)) es = None"
    if "edge_key e \<notin> set (map edge_key es)" for e :: graph_edge and es
    using that by (auto simp: find_None_iff same_edge_key edge_key_def image_iff)
  have first: "upsert_edge e1 s = (AEdgeAt (ge_id e1) (ge_created e1), s\<lparr>cs_edges := cs_edges s @ [e1]\<rparr>)"
    using assms(2,3,5) none [OF assms(7)] by (simp add: upsert_edge_def)
  have "edge_key e2 \<notin> set (map edge_key (cs_edges s @ [e1]))" using assms(8,9) by auto
  from none [OF this] have second: "upsert_edge e2 (s\<lparr>cs_edges := cs_edges s @ [e1]\<rparr>) =
      (AEdgeAt (ge_id e2) (ge_created e2), s\<lparr>cs_edges := cs_edges s @ [e1] @ [e2]\<rparr>)"
    using assms(2,4,6) by (simp add: upsert_edge_def)
  show ?thesis
    using assms(1) first second assms(3,4)
    by (simp cong: Call_lazy add: boot_def fresh_thread_def edge_room_def insert_edge_def do_call_def Let_def session_edges_def)
qed

end
