(* ===== verification/CollabSlots.thy ===== *)
theory CollabSlots
  imports CollabClaims
begin

text \<open>
  One join, one connection and the hub by themselves: what a join and a leave do when all goes well, and
  how slots are lost, taken away and how events are multiplied when not.
\<close>

section \<open>Joining and leaving\<close>

abbreviation alone :: "'r collab_prog \<Rightarrow> call_fate list \<Rightarrow> collab_state \<Rightarrow> 'r \<times> collab_state" where
  "alone \<equiv> run_alone collab_apply AFailed"

lemmas slot_eval =
  checked_def store_join_def publish_event_def free_slot_def release_agent_slot_def do_call_def run_alone_bind

text \<open>The result of a join that is not disturbed, on every branch.\<close>

lemma join_session_outcome:
  assumes "validate_agent_id aid = Inr ()" "validate_agent_name name = Inr ()"
    and "ac_marshal cd (joining_agent clk sid aid name) = Some txt"
  shows "fst (alone (join_session cd clk sid aid name) [] s) =
    (case cs_sessions s sid of
       None \<Rightarrow> Inl SessionNotFound
     | Some r \<Rightarrow>
         if \<not> fst (settings_of r) then Inl SessionNotCollab
         else if aid \<notin> set (cs_sets s (active_key sid)) \<and> snd (settings_of r) \<le> int (length (cs_sets s (active_key sid)))
         then Inl MaxAgentsReached
         else Inr (joining_agent clk sid aid name))"
  using assms
  by (auto simp: join_session_def slot_eval claim_slot_def joining_agent_def split: option.splits)

text \<open>A join and a leave restore the members of every session.\<close>

lemma join_leave_members:
  assumes "alone (join_session cd clk sid aid name) [] s = (Inr ag, s1)" "aid \<notin> set (cs_sets s (active_key sid))"
    and "alone (leave_session clk' sid aid) [] s1 = (r, s2)"
  shows "r = Inr () \<and> cs_sets s2 = cs_sets s"
  using assms
  by (auto simp: join_session_def leave_session_def slot_eval claim_slot_def joining_agent_def update_agent_def fun_eq_iff
      split: option.splits sum.splits if_splits)

text \<open>
  A second join of an agent that is connected takes no new slot, but when its database write fails it
  gives the slot of the first away.
\<close>

lemma failed_rejoin_frees_slot:
  assumes "validate_agent_id aid = Inr ()" "validate_agent_name name = Inr ()"
    and "ac_marshal cd (joining_agent clk sid aid name) = Some txt"
    and "cs_sessions s sid = Some (Some True, most)" "aid \<in> set (cs_sets s (active_key sid))"
  shows "case alone (join_session cd clk sid aid name) [CallAnswered, CallAnswered, CallAnswered, CallUnreached] s of
    (r, s') \<Rightarrow> r = Inl StoreFailed \<and> aid \<notin> set (cs_sets s' (active_key sid))"
  using assms by (simp add: join_session_def slot_eval claim_slot_def joining_agent_def settings_of_def)

text \<open>A claim that took effect without its answer coming back is never released.\<close>

lemma lost_claim_keeps_slot:
  assumes "validate_agent_id aid = Inr ()" "validate_agent_name name = Inr ()"
    and "cs_sessions s sid = Some (Some True, Some most)" "int (length (cs_sets s (active_key sid))) < most"
  shows "case alone (join_session cd clk sid aid name) [CallAnswered, CallReplyLost] s of
    (r, s') \<Rightarrow> r = Inl StoreFailed \<and> aid \<in> set (cs_sets s' (active_key sid))"
  using assms by (simp add: join_session_def slot_eval claim_slot_def settings_of_def)

text \<open>
  A connection whose calls no longer reach Redis when it ends, as with a context that has been
  cancelled, leaves its agent in the set, which has no expiry.
\<close>

lemma cut_leave_keeps_slot:
  "snd (alone (leave_session clk sid aid) [CallUnreached, CallUnreached] s) = s"
  by (simp add: leave_session_def slot_eval split: sum.split)

text \<open>An agent whose presence has expired holds its slot but is not listed.\<close>

lemma expired_agent_unlisted:
  assumes "cs_sets s (active_key sid) = [aid]" "cs_vals s (agent_key sid aid) = Some (txt, t)" "t \<le> cs_now s"
  shows "alone (get_active_agents cd sid) [] s = (Inr [], s)"
    and "most \<le> 1 \<Longrightarrow> b \<noteq> aid \<Longrightarrow> fst (claim_slot (active_key sid) b most s) = ANum 0"
  using assms by (simp_all add: get_active_agents_def do_call_def live_value_def claim_slot_def)

section \<open>Versions of a file\<close>

lemma fold_max_start: "v \<le> foldl max v (vs :: int list)"
proof (induction vs arbitrary: v)
  case (Cons w vs)
  have "v \<le> max v w" by simp
  also have "\<dots> \<le> foldl max (max v w) vs" by (rule Cons.IH)
  finally show ?case by simp
qed simp

lemma max_version_fold: "x \<in> set (v # vs) \<Longrightarrow> x \<le> foldl max v (vs :: int list)"
proof (induction vs arbitrary: v)
  case (Cons w vs)
  then consider "x \<le> max v w" | "x \<in> set vs" by auto
  then show ?case
  proof cases
    case 1
    with fold_max_start [of "max v w" vs] have "x \<le> foldl max (max v w) vs" by linarith
    then show ?thesis by simp
  next
    case 2
    then show ?thesis using Cons.IH [of "max v w"] by simp
  qed
qed simp

text \<open>A change recorded without disturbance has a version above all others of the file.\<close>

lemma recorded_version_newest:
  assumes "alone (record_file_change clk sid path aid type chk n) [] s = (Inr c, s')"
  shows "fc_version c = max_version sid path s + 1 \<and> (\<forall>v \<in> set (file_versions sid path s). v < fc_version c)"
proof -
  have "v \<le> max_version sid path s" if "v \<in> set (file_versions sid path s)" for v
    using that max_version_fold by (cases "file_versions sid path s") (auto simp: max_version_def)
  then show ?thesis using assms
    by (auto simp: record_file_change_def do_call_def Let_def publish_event_def split: if_splits)
qed

section \<open>The hub\<close>

text \<open>
  Every registration adds a subscription and none is taken away, so an event reaches each client as
  often as there were registrations.
\<close>

lemma registered_twice_delivered_twice:
  assumes "a \<noteq> b"
  shows "map_option (\<lambda>h. (hb_queue h 0, hb_queue h 1))
      (subscribe_to_session sid ev (hub_register sid b 1 (hub_register sid a 0 new_hub))) = Some ([ev, ev], [ev, ev])"
  using assms
  by (simp add: subscribe_to_session_def hub_register_def new_hub_def broadcast_to_session_def client_send_def)

text \<open>
  Unregistering an old connection of an agent removes the new one and closes the channel of the old.
\<close>

lemma unregister_removes_successor:
  "hb_clients (hub_unregister sid a 0 (hub_register sid a 1 (hub_register sid a 0 new_hub))) sid = [] \<and>
   hb_closed (hub_unregister sid a 0 (hub_register sid a 1 (hub_register sid a 0 new_hub))) = {0}"
  by (simp add: hub_unregister_def hub_register_def new_hub_def)

text \<open>Queues never hold more than 256 events.\<close>

definition queues_ok :: "hub \<Rightarrow> bool" where
  "queues_ok h \<longleftrightarrow> (\<forall>c. length (hb_queue h c) \<le> 256)"

lemma send_all_queues_ok: "queues_ok h \<Longrightarrow> send_all cs ev h = Some h' \<Longrightarrow> queues_ok h'"
proof (induction cs arbitrary: h)
  case (Cons c cs)
  then obtain h1 where h1: "client_send c ev h = Some h1" "send_all cs ev h1 = Some h'"
    by (auto split: option.splits)
  from h1(1) Cons.prems(1) have "queues_ok h1"
    by (auto simp: client_send_def queues_ok_def split: if_splits)
  then show ?case using h1(2) by (rule Cons.IH)
qed simp

lemma deliver_queues_ok: "queues_ok h \<Longrightarrow> deliver_to subs sid ev h = Some h' \<Longrightarrow> queues_ok h'"
proof (induction subs arbitrary: h)
  case (Cons x subs)
  then show ?case
    by (auto simp: broadcast_to_session_def split: if_splits option.splits dest: send_all_queues_ok)
qed simp

section \<open>A viewer may write\<close>

definition viewer_env :: collab_env where
  "viewer_env = demo_collab\<lparr>
     cv_sessions := (\<lambda>sid. Found \<lparr> s_id = sid, s_created_by = ''ann'', s_org = Some ''o'', s_stopped = None,
          s_container = None, s_status = ''running'', s_workspace = ''w'' \<rparr>),
     cv_roles := (\<lambda>org actor. if org = ''o'' \<and> actor = ''bob'' then Found ''viewer'' else NoRows)\<rparr>"

lemma viewer_gate:
  "gate viewer_env ''bob'' ''s'' ''viewer'' = Inr ''s''" "gate viewer_env ''bob'' ''s'' ''executor'' = Inl 404"
  by (simp_all add: gate_def viewer_env_def demo_collab_def check_session_access_eq may_access_def role_at_least_def
      role_rank_def master_def)

lemma viewer_socket:
  "web_socket viewer_env ''bob'' ''s'' ''a'' [] (demo_connection demo_hello) =
   web_socket demo_collab ''ann'' ''s'' ''a'' [] (demo_connection demo_hello)"
proof -
  have same: "cv_codec viewer_env = cv_codec demo_collab" "cv_uuid viewer_env = cv_uuid demo_collab"
    by (simp_all add: viewer_env_def)
  show ?thesis unfolding web_socket_def viewer_gate demo_gate same ..
qed

text \<open>
  Posting asks for the role of an executor, but a viewer who opens a connection posts through it.
\<close>

lemma viewer_posts_through_connection:
  "send_message_handler viewer_env clk new_id ''bob'' ''s'' req = Return (Status 404) \<and>
   map ms_body (cs_messages (snd (alone (web_socket viewer_env ''bob'' ''s'' ''a'' [] (demo_connection demo_hello)) [] demo_collab_store))) = [''hi'']"
  by (simp cong: Call_lazy add: viewer_socket demo_socket send_message_handler_def viewer_gate
      demo_collab_store_def demo_valid demo_parts demo_frame collab_eval run_alone_bind update_agent_def)

end
