(* ===== verification/Replay.thy ===== *)
theory Replay
  imports Complex_Main Programs AuditSign SessionCreate
begin

text \<open>
  \<open>internal/replay\<close>: checkpoints of a session, their signatures, restoring and forking.  The manager is a
  set of operations made of atomic calls to the database and to the workspace manager, which the code
  reaches through an interface.  HMAC-SHA256 and the JSON encoder of maps are parameters.  Times are
  nanoseconds, as the process has them; the database keeps microseconds.

  \<open>cmd/api/handlers/replay.go\<close>: the endpoints for checkpoints.  They check access by themselves, with
  the session row and the role in its organisation, and answer 403 to strangers.
\<close>

section \<open>Checkpoints\<close>

type_synonym jsonb = "string \<Rightarrow> string option"

record checkpoint =
  cp_id :: string
  cp_session :: string
  cp_run :: "string option"
  cp_number :: int
  cp_name :: "string option"
  cp_description :: string
  cp_snapshot :: string
  cp_archive :: string
  cp_env :: jsonb
  cp_command :: string
  cp_args :: jsonb
  cp_exit :: "int option"
  cp_duration :: "int option"
  cp_stdout :: string
  cp_stderr :: string
  cp_sig :: string
  cp_created :: int
  cp_size :: int

datatype replay_error =
    CheckpointNotFound | CheckpointTooLarge | OrgStorageExceeded | CheckpointTampered | ActiveCommands
  | ReplaySessionNotFound | ReplayDisabled | InvalidCheckpoint | ReplayFailed

definition max_checkpoints :: int where "max_checkpoints = 50"
definition max_checkpoint_bytes :: int where "max_checkpoint_bytes = 2 * 1024 * 1024 * 1024"
definition max_org_bytes :: int where "max_org_bytes = 100 * 1024 * 1024 * 1024"

section \<open>Requests\<close>

record checkpoint_opts =
  co_session :: string
  co_run :: "string option"
  co_name :: "string option"
  co_description :: string
  co_command :: string
  co_args :: "string list option"
  co_exit :: "int option"
  co_duration :: "int option"
  co_stdout :: string
  co_stderr :: string
  co_env :: "(string \<times> string) list option"      \<comment> \<open>keys are distinct\<close>

definition nil_uuid :: string where
  "nil_uuid = ''00000000-0000-0000-0000-000000000000''"

definition opts_valid :: "checkpoint_opts \<Rightarrow> bool" where
  "opts_valid o' \<longleftrightarrow>
     co_session o' \<noteq> nil_uuid \<and>
     (case co_name o' of None \<Rightarrow> True | Some n \<Rightarrow> length n \<le> 200) \<and>
     length (co_description o') \<le> 2000 \<and> length (co_command o') \<le> 4096 \<and>
     (case co_args o' of None \<Rightarrow> True | Some xs \<Rightarrow> length xs \<le> 1000) \<and>
     (case co_env o' of None \<Rightarrow> True | Some es \<Rightarrow> length es \<le> 500)"

section \<open>Redaction and truncation\<close>

text \<open>
  \<open>strings.ToUpper\<close>.  The two non-ASCII runes with an ASCII upper case are mapped; what other non-ASCII
  runes become cannot be seen by a comparison with ASCII text.
\<close>

definition upper_char :: "char \<Rightarrow> char" where
  "upper_char c = (if is_lower c then char_of ((of_char c :: nat) - 32) else c)"

fun to_upper :: "string \<Rightarrow> string" where
  "to_upper [] = []"
| "to_upper [a] = [upper_char a]"
| "to_upper (a # b # s) =
     (if [a, b] = bytes [196, 177] then CHR ''I'' # to_upper s
      else if [a, b] = bytes [197, 191] then CHR ''S'' # to_upper s
      else upper_char a # to_upper (b # s))"

definition sensitive_env_vars :: "string list" where
  "sensitive_env_vars =
     [''PASSWORD'', ''PASSWD'', ''PWD'', ''SECRET'', ''TOKEN'', ''KEY'', ''CREDENTIAL'', ''AUTH'', ''SALT'',
      ''PASSPHRASE'', ''CIPHER'', ''SESSION'', ''COOKIE'', ''CERT'', ''SIGNATURE'', ''SIGNING'', ''PRIVATE'',
      ''APIKEY'', ''DSN'', ''CONNECTION_STRING'']"

definition sensitive_key :: "string \<Rightarrow> bool" where
  "sensitive_key k \<longleftrightarrow> list_ex (\<lambda>p. contains (to_upper k) p) sensitive_env_vars"

definition redact_env_vars :: "(string \<times> string) list option \<Rightarrow> jsonb" where
  "redact_env_vars env =
     (case env of
        None \<Rightarrow> Map.empty
      | Some es \<Rightarrow> map_of (map (\<lambda>(k, v). (k, if sensitive_key k then ''[REDACTED]'' else v)) es))"

definition args_to_json :: "string list option \<Rightarrow> jsonb" where
  "args_to_json args =
     (case args of None \<Rightarrow> Map.empty | Some xs \<Rightarrow> map_of (zip (map nat_dec [0..<length xs]) xs))"

text \<open>The largest cut at or below \<open>n\<close> before which a rune starts, then the longest valid prefix.\<close>

definition rune_start :: "char \<Rightarrow> bool" where
  "rune_start c \<longleftrightarrow> \<not> cont_byte c"

primrec cut_back :: "string \<Rightarrow> nat \<Rightarrow> nat" where
  "cut_back s 0 = 0"
| "cut_back s (Suc n) = (if rune_start (s ! Suc n) then Suc n else cut_back s n)"

primrec valid_prefix :: "string \<Rightarrow> nat \<Rightarrow> string" where
  "valid_prefix s 0 = []"
| "valid_prefix s (Suc n) = (if utf8_valid (take (Suc n) s) then take (Suc n) s else valid_prefix s n)"

definition truncate_utf8 :: "string \<Rightarrow> nat \<Rightarrow> string" where
  "truncate_utf8 s most = (if length s \<le> most then s else valid_prefix s (cut_back s most))"

section \<open>Signatures\<close>

record replay_crypto =
  rc_mac :: "string \<Rightarrow> string \<Rightarrow> string"      \<comment> \<open>key and message to the raw digest\<close>
  rc_json :: "jsonb \<Rightarrow> string"

definition opt_int :: "int option \<Rightarrow> string" where
  "opt_int x = (case x of None \<Rightarrow> [] | Some i \<Rightarrow> int_dec i)"

definition checkpoint_fields :: "replay_crypto \<Rightarrow> checkpoint \<Rightarrow> string list" where
  "checkpoint_fields rc cp =
     [cp_session cp, cp_snapshot cp, int_dec (cp_number cp), int_dec (cp_created cp div 1000000000),
      cp_archive cp, cp_command cp, cp_stdout cp, cp_stderr cp, int_dec (cp_size cp),
      uuid_str (cp_run cp), opt_int (cp_exit cp), opt_int (cp_duration cp),
      rc_json rc (cp_args cp), rc_json rc (cp_env cp)]"

definition sign_checkpoint :: "replay_crypto \<Rightarrow> string \<Rightarrow> checkpoint \<Rightarrow> string" where
  "sign_checkpoint rc key cp = hex_encode (rc_mac rc key (nul_fields (checkpoint_fields rc cp)))"

text \<open>\<open>hex.DecodeString\<close>.\<close>

definition hex_nibble :: "char \<Rightarrow> nat option" where
  "hex_nibble c =
     (let n = of_char c in
      if 48 \<le> n \<and> n \<le> 57 then Some (n - 48)
      else if 97 \<le> n \<and> n \<le> 102 then Some (n - 87)
      else if 65 \<le> n \<and> n \<le> 70 then Some (n - 55) else None)"

fun hex_decode :: "string \<Rightarrow> string option" where
  "hex_decode [] = Some []"
| "hex_decode [c] = None"
| "hex_decode (a # b # s) =
     (case (hex_nibble a, hex_nibble b, hex_decode s) of
        (Some x, Some y, Some t) \<Rightarrow> Some (char_of (16 * x + y) # t)
      | _ \<Rightarrow> None)"

definition verify_checkpoint :: "replay_crypto \<Rightarrow> string \<Rightarrow> checkpoint \<Rightarrow> bool" where
  "verify_checkpoint rc key cp =
     (if key = [] \<or> cp_sig cp = [] then False
      else case (hex_decode (cp_sig cp), hex_decode (sign_checkpoint rc key cp)) of
        (Some got, Some want) \<Rightarrow> got = want
      | _ \<Rightarrow> False)"

section \<open>The stores\<close>

record source_session =
  so_image :: string
  so_network :: bool
  so_cpu :: rat
  so_memory :: int
  so_timeout :: int
  so_hosts :: "string list"
  so_owner :: string
  so_org :: "string option"
  so_replay :: "bool option"
  so_workspace :: string
  so_name :: "string option"
  so_forked :: "string option"

text \<open>
  \<open>rp_issued\<close> is not in the program: it remembers the checkpoints whose signatures the code has computed.
\<close>

record replay_state =
  rp_sessions :: "string \<Rightarrow> source_session option"
  rp_rows :: "checkpoint list"
  rp_archives :: "string \<Rightarrow> string option"
  rp_work :: "string \<Rightarrow> string option"
  rp_active :: "string \<Rightarrow> string list"
  rp_issued :: "checkpoint list"

datatype replay_call =
    ReplayEnabled string
  | CountRows string
  | OldestPath string
  | DeleteOldest string
  | MakeSnapshot string string
  | DropArchive string
  | OrgOf string
  | OrgTotal string
  | Allocate checkpoint
  | GetRow string
  | ListRows string int int
  | DeleteRow string
  | ActiveRuns string
  | RestoreArchive string string
  | LoadSource string
  | MakeWorkspace string
  | DropWorkspace string
  | InsertFork string source_session

datatype replay_answer =
    RFailed
  | RNone
  | RDone
  | RFlag bool
  | RNum int
  | RPath string
  | RMade string int
  | ROrg "string option"
  | RStored checkpoint
  | RRows "checkpoint list"
  | RRuns "string list"
  | RSource source_session

text \<open>Postgres rounds a timestamp to microseconds.\<close>

definition round_us :: "int \<Rightarrow> int" where
  "round_us t = (t + 500) div 1000 * 1000"

definition rows_of :: "string \<Rightarrow> replay_state \<Rightarrow> checkpoint list" where
  "rows_of sid s = filter (\<lambda>r. cp_session r = sid) (rp_rows s)"

definition oldest_row :: "string \<Rightarrow> replay_state \<Rightarrow> checkpoint option" where
  "oldest_row sid s = (case sort_key cp_number (rows_of sid s) of [] \<Rightarrow> None | r # _ \<Rightarrow> Some r)"

definition next_number :: "string \<Rightarrow> replay_state \<Rightarrow> int" where
  "next_number sid s =
     (case map cp_number (rows_of sid s) of [] \<Rightarrow> 1 | n # ns \<Rightarrow> foldl max n ns + 1)"

text \<open>A Postgres text cannot hold NUL.\<close>

definition storable :: "checkpoint \<Rightarrow> bool" where
  "storable cp \<longleftrightarrow>
     list_all (\<lambda>f. NUL \<notin> set f)
       [cp_session cp, cp_snapshot cp, cp_archive cp, cp_command cp, cp_stdout cp, cp_stderr cp, uuid_str (cp_run cp),
        uuid_str (cp_name cp), cp_description cp]"

text \<open>
  The transaction of \<open>insertCheckpoint\<close>: the advisory lock makes the number and the insert one step
  for all who insert in the session, and a deletion in between has the same effect before or after.
\<close>

definition allocate ::
  "replay_crypto \<Rightarrow> string \<Rightarrow> checkpoint \<Rightarrow> replay_state \<Rightarrow> replay_answer \<times> replay_state" where
  "allocate rc key cp s =
     (let cp1 = cp\<lparr>cp_number := next_number (cp_session cp) s\<rparr>;
          cp2 = cp1\<lparr>cp_sig := sign_checkpoint rc key cp1\<rparr>;
          s1 = s\<lparr>rp_issued := cp2 # rp_issued s\<rparr>
      in if rp_sessions s (cp_session cp) = None \<or> \<not> storable cp2 \<or> cp_id cp \<in> set (map cp_id (rp_rows s)) then (RFailed, s1)
         else (RStored cp2, s1\<lparr>rp_rows := rp_rows s @ [cp2\<lparr>cp_created := round_us (cp_created cp2)\<rparr>]\<rparr>))"

text \<open>
  The workspace manager as its clients see it: an archive holds what the workspace held.  \<open>pack\<close> is the
  size of an archive, \<open>extract\<close> what a workspace holds after an archive was unpacked over it.
\<close>

record workspace_env =
  we_pack :: "string \<Rightarrow> int"
  we_extract :: "string \<Rightarrow> string \<Rightarrow> string"
  we_archive_path :: "string \<Rightarrow> string \<Rightarrow> string"
  we_session_path :: "string \<Rightarrow> string"

definition total_bytes :: "string \<Rightarrow> replay_state \<Rightarrow> int" where
  "total_bytes org s =
     sum_list (map cp_size (filter (\<lambda>r. case rp_sessions s (cp_session r) of None \<Rightarrow> False | Some x \<Rightarrow> so_org x = Some org) (rp_rows s)))"

fun replay_apply ::
  "replay_crypto \<Rightarrow> string \<Rightarrow> workspace_env \<Rightarrow> replay_call \<Rightarrow> replay_state \<Rightarrow> replay_answer \<times> replay_state" where
  "replay_apply rc key we (ReplayEnabled sid) s =
     (case rp_sessions s sid of None \<Rightarrow> RNone | Some x \<Rightarrow> RFlag (so_replay x = Some True), s)"
| "replay_apply rc key we (CountRows sid) s = (RNum (int (length (rows_of sid s))), s)"
| "replay_apply rc key we (OldestPath sid) s =
     (case oldest_row sid s of None \<Rightarrow> RNone | Some r \<Rightarrow> RPath (cp_archive r), s)"
| "replay_apply rc key we (DeleteOldest sid) s =
     (RDone, case oldest_row sid s of None \<Rightarrow> s | Some r \<Rightarrow> s\<lparr>rp_rows := filter (\<lambda>x. cp_id x \<noteq> cp_id r) (rp_rows s)\<rparr>)"
| "replay_apply rc key we (MakeSnapshot sid snap) s =
     (case rp_work s sid of
        None \<Rightarrow> (RFailed, s)
      | Some w \<Rightarrow>
          (RMade (we_archive_path we sid snap) (we_pack we w),
           s\<lparr>rp_archives := (rp_archives s)(we_archive_path we sid snap := Some w)\<rparr>))"
| "replay_apply rc key we (DropArchive path) s = (RDone, s\<lparr>rp_archives := (rp_archives s)(path := None)\<rparr>)"
| "replay_apply rc key we (OrgOf sid) s = (case rp_sessions s sid of None \<Rightarrow> RNone | Some x \<Rightarrow> ROrg (so_org x), s)"
| "replay_apply rc key we (OrgTotal org) s = (RNum (total_bytes org s), s)"
| "replay_apply rc key we (Allocate cp) s = allocate rc key cp s"
| "replay_apply rc key we (GetRow cid) s =
     (case List.find (\<lambda>r. cp_id r = cid) (rp_rows s) of None \<Rightarrow> RNone | Some r \<Rightarrow> RStored r, s)"
| "replay_apply rc key we (ListRows sid limit offset) s =
     (RRows (take (nat limit) (drop (nat offset) (rev (sort_key cp_number (rows_of sid s))))), s)"
| "replay_apply rc key we (DeleteRow cid) s =
     (RNum (int (length (filter (\<lambda>r. cp_id r = cid) (rp_rows s)))), s\<lparr>rp_rows := filter (\<lambda>r. cp_id r \<noteq> cid) (rp_rows s)\<rparr>)"
| "replay_apply rc key we (ActiveRuns sid) s = (RRuns (rp_active s sid), s)"
| "replay_apply rc key we (RestoreArchive sid path) s =
     (case rp_archives s path of
        None \<Rightarrow> (RFailed, s)
      | Some a \<Rightarrow> (RDone, s\<lparr>rp_work := (rp_work s)(sid := Some (we_extract we (case rp_work s sid of None \<Rightarrow> [] | Some w \<Rightarrow> w) a))\<rparr>))"
| "replay_apply rc key we (LoadSource sid) s = (case rp_sessions s sid of None \<Rightarrow> RNone | Some x \<Rightarrow> RSource x, s)"
| "replay_apply rc key we (MakeWorkspace sid) s = (RPath (we_session_path we sid), s\<lparr>rp_work := (rp_work s)(sid := Some [])\<rparr>)"
| "replay_apply rc key we (DropWorkspace sid) s = (RDone, s\<lparr>rp_work := (rp_work s)(sid := None)\<rparr>)"
| "replay_apply rc key we (InsertFork sid x) s =
     (if rp_sessions s sid \<noteq> None then (RFailed, s) else (RDone, s\<lparr>rp_sessions := (rp_sessions s)(sid := Some x)\<rparr>))"

type_synonym 'r replay_prog = "(replay_call, replay_answer, 'r) prog"

section \<open>Creating a checkpoint\<close>

definition prune_oldest :: "string \<Rightarrow> (replay_error + unit) replay_prog" where
  "prune_oldest sid =
     Call (OldestPath sid) (\<lambda>a.
       case a of
         RPath path \<Rightarrow>
           Call (DeleteOldest sid) (\<lambda>b.
             if b = RFailed then Return (Inl ReplayFailed)
             else Call (DropArchive path) (\<lambda>_. Return (Inr ())))
       | _ \<Rightarrow> Return (Inl ReplayFailed))"

text \<open>A session that cannot be read counts as one without an organisation.\<close>

definition check_org_storage :: "string \<Rightarrow> int \<Rightarrow> (replay_error + unit) replay_prog" where
  "check_org_storage sid size_bytes =
     Call (OrgOf sid) (\<lambda>a.
       case a of
         ROrg (Some org) \<Rightarrow>
           Call (OrgTotal org) (\<lambda>b.
             case b of
               RNum used \<Rightarrow>
                 if max_org_bytes < used + size_bytes then Return (Inl OrgStorageExceeded) else Return (Inr ())
             | _ \<Rightarrow> Return (Inl ReplayFailed))
       | _ \<Rightarrow> Return (Inr ()))"

text \<open>The number and the signature are filled in by the insert.\<close>

definition new_checkpoint :: "checkpoint_opts \<Rightarrow> string \<Rightarrow> string \<Rightarrow> int \<Rightarrow> string \<Rightarrow> int \<Rightarrow> checkpoint" where
  "new_checkpoint o' cid snap now path size_bytes =
     \<lparr> cp_id = cid, cp_session = co_session o', cp_run = co_run o', cp_number = 0, cp_name = co_name o',
        cp_description = co_description o', cp_snapshot = snap, cp_archive = path, cp_env = redact_env_vars (co_env o'),
        cp_command = co_command o', cp_args = args_to_json (co_args o'), cp_exit = co_exit o', cp_duration = co_duration o',
        cp_stdout = truncate_utf8 (co_stdout o') 500, cp_stderr = truncate_utf8 (co_stderr o') 500, cp_sig = [],
        cp_created = now, cp_size = size_bytes \<rparr>"

text \<open>The archive is removed before an error is returned.\<close>

definition fail_dropping :: "string \<Rightarrow> replay_error \<Rightarrow> (replay_error + 'r) replay_prog" where
  "fail_dropping path e = Call (DropArchive path) (\<lambda>_. Return (Inl e))"

definition record_snapshot ::
  "checkpoint_opts \<Rightarrow> string \<Rightarrow> string \<Rightarrow> int \<Rightarrow> string \<Rightarrow> int \<Rightarrow> (replay_error + checkpoint) replay_prog" where
  "record_snapshot o' cid snap now path size_bytes =
     (if max_checkpoint_bytes < size_bytes then fail_dropping path CheckpointTooLarge
      else pbind (check_org_storage (co_session o') size_bytes) (\<lambda>r.
        case r of
          Inl e \<Rightarrow> fail_dropping path e
        | Inr _ \<Rightarrow>
            Call (Allocate (new_checkpoint o' cid snap now path size_bytes)) (\<lambda>a.
              case a of
                RStored cp \<Rightarrow> Return (Inr cp)
              | _ \<Rightarrow> fail_dropping path ReplayFailed)))"

definition make_room :: "string \<Rightarrow> (replay_error + unit) replay_prog" where
  "make_room sid =
     Call (CountRows sid) (\<lambda>a.
       case a of
         RNum n \<Rightarrow> if max_checkpoints \<le> n then prune_oldest sid else Return (Inr ())
       | _ \<Rightarrow> Return (Inl ReplayFailed))"

definition create_checkpoint ::
  "checkpoint_opts \<Rightarrow> string \<Rightarrow> string \<Rightarrow> int \<Rightarrow> (replay_error + checkpoint) replay_prog" where
  "create_checkpoint o' cid snap now =
     (if \<not> opts_valid o' then Return (Inl InvalidCheckpoint)
      else Call (ReplayEnabled (co_session o')) (\<lambda>a.
        case a of
          RNone \<Rightarrow> Return (Inl ReplaySessionNotFound)
        | RFlag on \<Rightarrow>
            if \<not> on then Return (Inl ReplayDisabled)
            else pbind (make_room (co_session o')) (\<lambda>r.
              case r of
                Inl e \<Rightarrow> Return (Inl e)
              | Inr _ \<Rightarrow>
                  Call (MakeSnapshot (co_session o') snap) (\<lambda>b.
                    case b of
                      RMade path size_bytes \<Rightarrow> record_snapshot o' cid snap now path size_bytes
                    | _ \<Rightarrow> Return (Inl ReplayFailed)))
        | _ \<Rightarrow> Return (Inl ReplayFailed)))"

section \<open>Reading and deleting\<close>

definition get_checkpoint :: "string \<Rightarrow> (replay_error + checkpoint) replay_prog" where
  "get_checkpoint cid =
     Call (GetRow cid) (\<lambda>a.
       case a of
         RNone \<Rightarrow> Return (Inl CheckpointNotFound)
       | RStored cp \<Rightarrow> Return (Inr cp)
       | _ \<Rightarrow> Return (Inl ReplayFailed))"

definition clamp_limit :: "int \<Rightarrow> int" where
  "clamp_limit n = (let m = (if n \<le> 0 then 50 else n) in if 100 < m then 100 else m)"

definition clamp_offset :: "int \<Rightarrow> int" where
  "clamp_offset n = (if n < 0 then 0 else n)"

definition list_checkpoints :: "string \<Rightarrow> int \<Rightarrow> int \<Rightarrow> (replay_error + checkpoint list) replay_prog" where
  "list_checkpoints sid limit offset =
     Call (ListRows sid (clamp_limit limit) (clamp_offset offset)) (\<lambda>a.
       case a of RRows rs \<Rightarrow> Return (Inr rs) | _ \<Rightarrow> Return (Inl ReplayFailed))"

definition delete_checkpoint :: "string \<Rightarrow> (replay_error + unit) replay_prog" where
  "delete_checkpoint cid =
     pbind (get_checkpoint cid) (\<lambda>r.
       case r of
         Inl e \<Rightarrow> Return (Inl e)
       | Inr cp \<Rightarrow>
           Call (DeleteRow cid) (\<lambda>a.
             case a of
               RNum n \<Rightarrow>
                 if n = 0 then Return (Inl CheckpointNotFound)
                 else Call (DropArchive (cp_archive cp)) (\<lambda>_. Return (Inr ()))
             | _ \<Rightarrow> Return (Inl ReplayFailed)))"

section \<open>Restoring\<close>

definition idle_session :: "string \<Rightarrow> bool \<Rightarrow> (replay_error + unit) replay_prog" where
  "idle_session sid skip =
     (if skip then Return (Inr ())
      else Call (ActiveRuns sid) (\<lambda>a.
        case a of
          RRuns rs \<Rightarrow> if rs = [] then Return (Inr ()) else Return (Inl ActiveCommands)
        | _ \<Rightarrow> Return (Inl ReplayFailed)))"

definition restore_checkpoint ::
  "replay_crypto \<Rightarrow> string \<Rightarrow> string \<Rightarrow> string \<Rightarrow> bool \<Rightarrow> (replay_error + unit) replay_prog" where
  "restore_checkpoint rc key sid cid stop_active =
     pbind (get_checkpoint cid) (\<lambda>r.
       case r of
         Inl e \<Rightarrow> Return (Inl e)
       | Inr cp \<Rightarrow>
           if cp_session cp \<noteq> sid then Return (Inl CheckpointNotFound)
           else if \<not> verify_checkpoint rc key cp then Return (Inl CheckpointTampered)
           else pbind (idle_session sid stop_active) (\<lambda>q.
             case q of
               Inl e \<Rightarrow> Return (Inl e)
             | Inr _ \<Rightarrow>
                 Call (RestoreArchive sid (cp_archive cp)) (\<lambda>a.
                   Return (if a = RFailed then Inl ReplayFailed else Inr ()))))"

section \<open>Forking\<close>

record fork_opts =
  fo_name :: string
  fo_actor :: string
  fo_cpu :: "rat option"
  fo_memory :: "int option"

definition fork_name :: "fork_opts \<Rightarrow> checkpoint \<Rightarrow> string" where
  "fork_name o' cp = (if fo_name o' = [] then ''fork of checkpoint '' @ int_dec (cp_number cp) else fo_name o')"

definition fork_row :: "fork_opts \<Rightarrow> checkpoint \<Rightarrow> source_session \<Rightarrow> string \<Rightarrow> source_session" where
  "fork_row o' cp src path =
     src\<lparr>so_name := Some (fork_name o' cp),
         so_cpu := (case fo_cpu o' of None \<Rightarrow> so_cpu src | Some c \<Rightarrow> c),
         so_memory := (case fo_memory o' of None \<Rightarrow> so_memory src | Some m \<Rightarrow> m),
         so_owner := (if fo_actor o' = [] then so_owner src else fo_actor o'),
         so_workspace := path, so_forked := Some (cp_id cp)\<rparr>"

text \<open>The workspace is removed before an error is returned.\<close>

definition fail_removing :: "string \<Rightarrow> replay_error \<Rightarrow> (replay_error + 'r) replay_prog" where
  "fail_removing sid e = Call (DropWorkspace sid) (\<lambda>_. Return (Inl e))"

definition fill_fork ::
  "fork_opts \<Rightarrow> checkpoint \<Rightarrow> source_session \<Rightarrow> string \<Rightarrow> string \<Rightarrow> (replay_error + string) replay_prog" where
  "fill_fork o' cp src new_sid path =
     Call (RestoreArchive new_sid (cp_archive cp)) (\<lambda>a.
       if a = RFailed then fail_removing new_sid ReplayFailed
       else if 200 < length (fork_name o' cp) then fail_removing new_sid InvalidCheckpoint
       else Call (InsertFork new_sid (fork_row o' cp src path)) (\<lambda>b.
         if b = RFailed then fail_removing new_sid ReplayFailed else Return (Inr new_sid)))"

definition fork_from_checkpoint ::
  "replay_crypto \<Rightarrow> string \<Rightarrow> fork_opts \<Rightarrow> string \<Rightarrow> string \<Rightarrow> (replay_error + string) replay_prog" where
  "fork_from_checkpoint rc key o' cid new_sid =
     pbind (get_checkpoint cid) (\<lambda>r.
       case r of
         Inl e \<Rightarrow> Return (Inl e)
       | Inr cp \<Rightarrow>
           if \<not> verify_checkpoint rc key cp then Return (Inl CheckpointTampered)
           else Call (LoadSource (cp_session cp)) (\<lambda>a.
             case a of
               RNone \<Rightarrow> Return (Inl ReplaySessionNotFound)
             | RSource src \<Rightarrow>
                 Call (MakeWorkspace new_sid) (\<lambda>b.
                   case b of
                     RPath path \<Rightarrow> fill_fork o' cp src new_sid path
                   | _ \<Rightarrow> Return (Inl ReplayFailed))
             | _ \<Rightarrow> Return (Inl ReplayFailed)))"

section \<open>Requests and answers\<close>

record replay_env =
  re_uuid :: "string \<Rightarrow> string option"
  re_sessions :: sessions
  re_roles :: member_roles
  re_crypto :: replay_crypto
  re_key :: string

datatype replay_reply =
    RStatus int
  | Checkpointed checkpoint
  | CheckpointPage "checkpoint list" int int
  | CheckpointShown checkpoint
  | Restored
  | Forked string
  | Deleted

text \<open>The role of the actor in the organisation, which must satisfy \<open>enough\<close>; errors count as no role.\<close>

definition may_replay :: "replay_env \<Rightarrow> (string \<Rightarrow> bool) \<Rightarrow> string \<Rightarrow> session_row \<Rightarrow> bool" where
  "may_replay ev enough actor s \<longleftrightarrow>
     actor = master \<or> s_created_by s = actor \<or>
     (case s_org s of
        None \<Rightarrow> False
      | Some org \<Rightarrow> (case re_roles ev org actor of Found role \<Rightarrow> enough role | _ \<Rightarrow> False))"

definition any_role :: "string \<Rightarrow> bool" where
  "any_role r \<longleftrightarrow> True"

definition executor_role :: "string \<Rightarrow> bool" where
  "executor_role r \<longleftrightarrow> r = ''admin'' \<or> r = ''executor''"

text \<open>A session of the request: 404 when missing.\<close>

definition with_session ::
  "replay_env \<Rightarrow> (string \<Rightarrow> bool) \<Rightarrow> string \<Rightarrow> string \<Rightarrow> (session_row \<Rightarrow> replay_reply replay_prog) \<Rightarrow> replay_reply replay_prog" where
  "with_session ev enough actor sid p =
     (case re_sessions ev sid of
        NoRows \<Rightarrow> Return (RStatus 404)
      | DbError \<Rightarrow> Return (RStatus 500)
      | Found s \<Rightarrow> if may_replay ev enough actor s then p s else Return (RStatus 403))"

text \<open>The session of a checkpoint: any failure to read it is an internal error.\<close>

definition with_owner ::
  "replay_env \<Rightarrow> (string \<Rightarrow> bool) \<Rightarrow> string \<Rightarrow> string \<Rightarrow> (session_row \<Rightarrow> replay_reply replay_prog) \<Rightarrow> replay_reply replay_prog" where
  "with_owner ev enough actor sid p =
     (case re_sessions ev sid of
        Found s \<Rightarrow> if may_replay ev enough actor s then p s else Return (RStatus 403)
      | _ \<Rightarrow> Return (RStatus 500))"

section \<open>Creating and listing\<close>

record checkpoint_body =
  cb_run_id :: "string option"
  cb_opts :: checkpoint_opts      \<comment> \<open>session and run are filled in\<close>

definition create_status :: "replay_error + checkpoint \<Rightarrow> replay_reply" where
  "create_status r =
     (case r of
        Inl CheckpointTooLarge \<Rightarrow> RStatus 413
      | Inl ReplayDisabled \<Rightarrow> RStatus 409
      | Inl ReplaySessionNotFound \<Rightarrow> RStatus 404
      | Inl InvalidCheckpoint \<Rightarrow> RStatus 400
      | Inl OrgStorageExceeded \<Rightarrow> RStatus 402
      | Inl _ \<Rightarrow> RStatus 500
      | Inr cp \<Rightarrow> Checkpointed cp)"

text \<open>\<open>cid\<close> and \<open>snap\<close> are the identifiers that \<open>uuid.New\<close> returns.\<close>

definition create_checkpoint_handler ::
  "replay_env \<Rightarrow> string \<Rightarrow> string \<Rightarrow> checkpoint_body option \<Rightarrow> string \<Rightarrow> string \<Rightarrow> int \<Rightarrow> replay_reply replay_prog" where
  "create_checkpoint_handler ev actor raw body cid snap now =
     (case re_uuid ev raw of
        None \<Rightarrow> Return (RStatus 400)
      | Some sid \<Rightarrow>
          (case body of
             None \<Rightarrow> Return (RStatus 400)
           | Some b \<Rightarrow>
               with_session ev any_role actor sid (\<lambda>_.
                 let create = (\<lambda>run. pbind (create_checkpoint ((cb_opts b)\<lparr>co_session := sid, co_run := run\<rparr>) cid snap now)
                                 (\<lambda>r. Return (create_status r))) in
                 case cb_run_id b of
                   None \<Rightarrow> create None
                 | Some raw_run \<Rightarrow>
                     if raw_run = [] then create None
                     else (case re_uuid ev raw_run of None \<Rightarrow> Return (RStatus 400) | Some run \<Rightarrow> create (Some run)))))"

text \<open>\<open>limit\<close> and \<open>offset\<close> are the query parameters where \<open>strconv.Atoi\<close> reads them.\<close>

definition list_checkpoints_handler ::
  "replay_env \<Rightarrow> string \<Rightarrow> string \<Rightarrow> int option \<Rightarrow> int option \<Rightarrow> replay_reply replay_prog" where
  "list_checkpoints_handler ev actor raw limit offset =
     (case re_uuid ev raw of
        None \<Rightarrow> Return (RStatus 400)
      | Some sid \<Rightarrow>
          with_session ev any_role actor sid (\<lambda>_.
            let l = clamp_limit (case limit of None \<Rightarrow> 50 | Some v \<Rightarrow> v);
                f = clamp_offset (case offset of None \<Rightarrow> 0 | Some v \<Rightarrow> v)
            in pbind (list_checkpoints sid l f) (\<lambda>r.
                 case r of Inl _ \<Rightarrow> Return (RStatus 500) | Inr rs \<Rightarrow> Return (CheckpointPage rs l f))))"

section \<open>One checkpoint\<close>

definition find_checkpoint ::
  "string \<Rightarrow> (checkpoint \<Rightarrow> replay_reply replay_prog) \<Rightarrow> replay_reply replay_prog" where
  "find_checkpoint cid p =
     pbind (get_checkpoint cid) (\<lambda>r.
       case r of
         Inl CheckpointNotFound \<Rightarrow> Return (RStatus 404)
       | Inl _ \<Rightarrow> Return (RStatus 500)
       | Inr cp \<Rightarrow> p cp)"

definition session_checkpoint ::
  "replay_env \<Rightarrow> (string \<Rightarrow> bool) \<Rightarrow> string \<Rightarrow> string \<Rightarrow> string \<Rightarrow> (string \<Rightarrow> checkpoint \<Rightarrow> replay_reply replay_prog) \<Rightarrow>
   replay_reply replay_prog" where
  "session_checkpoint ev enough actor raw raw_cp p =
     (case re_uuid ev raw of
        None \<Rightarrow> Return (RStatus 400)
      | Some sid \<Rightarrow>
          (case re_uuid ev raw_cp of
             None \<Rightarrow> Return (RStatus 400)
           | Some cid \<Rightarrow>
               find_checkpoint cid (\<lambda>cp.
                 if cp_session cp \<noteq> sid then Return (RStatus 404)
                 else with_owner ev enough actor sid (\<lambda>_. p cid cp))))"

definition get_checkpoint_handler :: "replay_env \<Rightarrow> string \<Rightarrow> string \<Rightarrow> string \<Rightarrow> replay_reply replay_prog" where
  "get_checkpoint_handler ev actor raw raw_cp =
     session_checkpoint ev any_role actor raw raw_cp (\<lambda>_ cp. Return (CheckpointShown cp))"

definition delete_checkpoint_handler :: "replay_env \<Rightarrow> string \<Rightarrow> string \<Rightarrow> string \<Rightarrow> replay_reply replay_prog" where
  "delete_checkpoint_handler ev actor raw raw_cp =
     session_checkpoint ev executor_role actor raw raw_cp (\<lambda>cid _.
       pbind (delete_checkpoint cid) (\<lambda>r. case r of Inl _ \<Rightarrow> Return (RStatus 500) | Inr _ \<Rightarrow> Return Deleted))"

section \<open>Restoring and forking\<close>

definition restore_status :: "replay_error + unit \<Rightarrow> replay_reply" where
  "restore_status r =
     (case r of
        Inl CheckpointNotFound \<Rightarrow> RStatus 404
      | Inl CheckpointTampered \<Rightarrow> RStatus 409
      | Inl ActiveCommands \<Rightarrow> RStatus 409
      | Inl _ \<Rightarrow> RStatus 500
      | Inr _ \<Rightarrow> Restored)"

text \<open>A body that cannot be read asks for nothing to be stopped.\<close>

definition restore_handler ::
  "replay_env \<Rightarrow> string \<Rightarrow> string \<Rightarrow> string \<Rightarrow> bool option \<Rightarrow> replay_reply replay_prog" where
  "restore_handler ev actor raw raw_cp stop_active =
     (case re_uuid ev raw of
        None \<Rightarrow> Return (RStatus 400)
      | Some sid \<Rightarrow>
          (case re_uuid ev raw_cp of
             None \<Rightarrow> Return (RStatus 400)
           | Some cid \<Rightarrow>
               with_session ev executor_role actor sid (\<lambda>_.
                 pbind (restore_checkpoint (re_crypto ev) (re_key ev) sid cid (stop_active = Some True))
                   (\<lambda>r. Return (restore_status r)))))"

record fork_config =
  fc_limits :: session_limits
  fc_images :: "string list"
  fc_equal_fold :: "string \<Rightarrow> string \<Rightarrow> bool"
  fc_active_sessions :: "nat option"      \<comment> \<open>of the actor, where the database answers\<close>

record fork_body =
  fb_name :: string
  fb_cpu :: "rat option"
  fb_memory :: "int option"

text \<open>The status that refuses a fork, if any; \<open>img\<close> is the image of the source session.\<close>

definition enforce_fork_limits :: "fork_config \<Rightarrow> string \<Rightarrow> string \<Rightarrow> fork_body \<Rightarrow> int option" where
  "enforce_fork_limits fc actor img b =
     (let l = fc_limits fc in
      if \<not> image_allowed (fc_equal_fold fc) (fc_images fc) img then Some 400
      else if (case fb_cpu b of None \<Rightarrow> False | Some c \<Rightarrow> c \<le> 0 \<or> ml_cpu l < c) then Some 400
      else if (case fb_memory b of None \<Rightarrow> False | Some m \<Rightarrow> m \<le> 0 \<or> ml_memory l < m) then Some 400
      else if 0 < ml_sessions l \<and> actor \<noteq> master
        then (case fc_active_sessions fc of
                None \<Rightarrow> Some 500
              | Some n \<Rightarrow> if ml_sessions l \<le> int n then Some 429 else None)
      else None)"

definition fork_status :: "replay_error + string \<Rightarrow> replay_reply" where
  "fork_status r =
     (case r of
        Inl CheckpointNotFound \<Rightarrow> RStatus 404
      | Inl ReplaySessionNotFound \<Rightarrow> RStatus 404
      | Inl CheckpointTampered \<Rightarrow> RStatus 409
      | Inl InvalidCheckpoint \<Rightarrow> RStatus 400
      | Inl _ \<Rightarrow> RStatus 500
      | Inr sid \<Rightarrow> Forked sid)"

text \<open>\<open>img\<close> gives the image in the row of a session.\<close>

definition fork_handler ::
  "replay_env \<Rightarrow> fork_config \<Rightarrow> (string \<Rightarrow> string) \<Rightarrow> string \<Rightarrow> string \<Rightarrow> fork_body option \<Rightarrow> string \<Rightarrow> replay_reply replay_prog" where
  "fork_handler ev fc img actor raw_cp body new_sid =
     (case re_uuid ev raw_cp of
        None \<Rightarrow> Return (RStatus 400)
      | Some cid \<Rightarrow>
          (case body of
             None \<Rightarrow> Return (RStatus 400)
           | Some b \<Rightarrow>
               find_checkpoint cid (\<lambda>cp.
                 with_owner ev (\<lambda>role. role_at_least role ''executor'') actor (cp_session cp) (\<lambda>_.
                   case enforce_fork_limits fc actor (img (cp_session cp)) b of
                     Some code \<Rightarrow> Return (RStatus code)
                   | None \<Rightarrow>
                       pbind (fork_from_checkpoint (re_crypto ev) (re_key ev)
                               \<lparr> fo_name = fb_name b, fo_actor = actor, fo_cpu = fb_cpu b, fo_memory = fb_memory b \<rparr> cid new_sid)
                         (\<lambda>r. Return (fork_status r))))))"

end
