(* ===== verification/ReplayProps.thy ===== *)
theory ReplayProps
  imports Replay
begin

text \<open>
  Signatures bind what they cover, and what the handlers have checked before each call, whatever the
  stores answer.

  All interleavings of the checkpoint endpoints, with a database that somebody else can write to: every row
  may be changed as long as no signature is forged.
\<close>

section \<open>Hexadecimal\<close>

lemma hex_nibble_char: "n < 16 \<Longrightarrow> hex_nibble (hex_char n) = Some n"
  by (auto simp: hex_nibble_def hex_char_def Let_def)

lemma hex_decode_encode [simp]: "hex_decode (hex_encode s) = Some s"
proof (induction s)
  case (Cons c s)
  have "(of_char c :: nat) mod 16 < 16" by simp
  then have "hex_nibble (AuditSign.hex_char (of_char c div 16)) = Some (of_char c div 16)"
    "hex_nibble (AuditSign.hex_char (of_char c mod 16)) = Some (of_char c mod 16)"
    by (simp_all only: hex_nibble_char high_nibble)
  with Cons show ?case by (simp add: hex_encode_def hex_byte_def)
qed (simp add: hex_encode_def)

lemma verify_checkpoint_iff:
  "verify_checkpoint rc key cp \<longleftrightarrow>
     key \<noteq> [] \<and> cp_sig cp \<noteq> [] \<and> hex_decode (cp_sig cp) = Some (rc_mac rc key (nul_fields (checkpoint_fields rc cp)))"
  by (auto simp: verify_checkpoint_def sign_checkpoint_def split: option.splits)

section \<open>What a signature covers\<close>

text \<open>
  Distinct messages have distinct digests, which are not empty, and JSON escapes NUL.
\<close>

definition replay_crypto_ok :: "replay_crypto \<Rightarrow> string \<Rightarrow> bool" where
  "replay_crypto_ok rc key \<longleftrightarrow>
     key \<noteq> [] \<and> inj (rc_mac rc key) \<and> (\<forall>m. rc_mac rc key m \<noteq> []) \<and> (\<forall>j. NUL \<notin> set (rc_json rc j))"

lemma nul_opt_int: "NUL \<notin> set (opt_int x)"
  by (auto simp: opt_int_def nul_not_in_int_dec split: option.split)

lemma checkpoint_fields_nul:
  "replay_crypto_ok rc key \<Longrightarrow> storable cp \<Longrightarrow> list_all (\<lambda>f. NUL \<notin> set f) (checkpoint_fields rc cp)"
  by (simp add: checkpoint_fields_def storable_def replay_crypto_ok_def nul_not_in_int_dec nul_opt_int)

lemma count_nul_fields: "count_list (nul_fields fs) NUL = length fs + sum_list (map (\<lambda>f. count_list f NUL) fs)"
  by (induction fs) (simp_all add: nul_fields_def)

lemma nul_fields_same:
  assumes "nul_fields fs = nul_fields gs" "length fs = length gs" "list_all (\<lambda>f. NUL \<notin> set f) fs"
  shows "fs = gs"
proof -
  have "sum_list (map (\<lambda>f. count_list f NUL) fs) = 0"
    using assms(3) by (induction fs) (auto simp: count_list_0_iff)
  with assms(1,2) have "sum_list (map (\<lambda>f. count_list f NUL) gs) = 0"
    using count_nul_fields [of fs] count_nul_fields [of gs] by simp
  then have "list_all (\<lambda>f. NUL \<notin> set f) gs" by (induction gs) (auto simp: count_list_0_iff)
  with assms nul_fields_inj [of fs gs "[]" "[]"] show ?thesis by simp
qed

text \<open>A row that Postgres holds and whose message was signed has the fields that were signed.\<close>

lemma signed_fields_same:
  assumes "replay_crypto_ok rc key" "storable a"
    and "nul_fields (checkpoint_fields rc a) = nul_fields (checkpoint_fields rc b)"
  shows "checkpoint_fields rc a = checkpoint_fields rc b"
  using assms(3) by (rule nul_fields_same) (use checkpoint_fields_nul [OF assms(1,2)] in \<open>simp_all add: checkpoint_fields_def\<close>)

lemma same_fields_simps:
  assumes "checkpoint_fields rc a = checkpoint_fields rc b"
  shows "cp_session a = cp_session b" "cp_archive a = cp_archive b" "cp_command a = cp_command b"
    "cp_number a = cp_number b" "cp_size a = cp_size b"
  using assms by (auto simp: checkpoint_fields_def dest: int_dec_inj)

text \<open>A row reads back as genuine exactly when rounding to microseconds leaves it in its second.\<close>

lemma sign_checkpoint_sig [simp]:
  "checkpoint_fields rc (cp\<lparr>cp_sig := x\<rparr>) = checkpoint_fields rc cp"
  by (simp add: checkpoint_fields_def)

lemma hex_encode_nonempty: "s \<noteq> [] \<Longrightarrow> hex_encode s \<noteq> []"
  by (cases s) (simp_all add: hex_encode_def hex_byte_def)

lemma stored_row_verifies:
  assumes "replay_crypto_ok rc key"
  shows "verify_checkpoint rc key ((cp\<lparr>cp_sig := sign_checkpoint rc key cp\<rparr>)\<lparr>cp_created := round_us (cp_created cp)\<rparr>)
    \<longleftrightarrow> round_us (cp_created cp) div 1000000000 = cp_created cp div 1000000000"
proof -
  let ?f = "checkpoint_fields rc (cp\<lparr>cp_created := round_us (cp_created cp)\<rparr>)"
  have "nul_fields ?f = nul_fields (checkpoint_fields rc cp) \<longleftrightarrow>
      int_dec (round_us (cp_created cp) div 1000000000) = int_dec (cp_created cp div 1000000000)"
    by (simp add: nul_fields_def checkpoint_fields_def)
  moreover have "sign_checkpoint rc key cp \<noteq> []"
    using assms by (simp add: sign_checkpoint_def replay_crypto_ok_def hex_encode_nonempty)
  ultimately show ?thesis
    using assms
    by (auto simp: verify_checkpoint_iff sign_checkpoint_def replay_crypto_ok_def checkpoint_fields_def
        dest: injD int_dec_inj)
qed

lemma rounding_breaks_signature:
  assumes "replay_crypto_ok rc key" "cp_created cp = 1700000000999999500"
  shows "\<not> verify_checkpoint rc key ((cp\<lparr>cp_sig := sign_checkpoint rc key cp\<rparr>)\<lparr>cp_created := round_us (cp_created cp)\<rparr>)"
  using stored_row_verifies [OF assms(1), of cp] assms(2) by (simp add: round_us_def)

text \<open>Name, description and identifier are not covered.\<close>

lemma label_not_signed:
  "verify_checkpoint rc key (cp\<lparr>cp_id := i, cp_name := n, cp_description := d\<rparr>) = verify_checkpoint rc key cp"
  by (simp add: verify_checkpoint_iff checkpoint_fields_def)

section \<open>Guards\<close>

type_synonym replay_calls = "(replay_call, replay_answer) calls"

definition replay_guard ::
  "replay_crypto \<Rightarrow> string \<Rightarrow> (replay_calls \<Rightarrow> string \<Rightarrow> checkpoint \<Rightarrow> bool) \<Rightarrow> replay_calls \<Rightarrow> replay_call \<Rightarrow> bool" where
  "replay_guard rc key R h c =
     (case c of
        RestoreArchive sid path \<Rightarrow>
          \<exists>cid cp. (GetRow cid, RStored cp) \<in> set h \<and> verify_checkpoint rc key cp \<and> cp_archive cp = path \<and> R h sid cp
      | Allocate cp \<Rightarrow>
          (MakeSnapshot (cp_session cp) (cp_snapshot cp), RMade (cp_archive cp) (cp_size cp)) \<in> set h \<and>
          cp_size cp \<le> max_checkpoint_bytes
      | _ \<Rightarrow> True)"

lemma replay_guard_simps [simp]:
  "replay_guard rc key R h (ReplayEnabled sid)" "replay_guard rc key R h (CountRows sid)"
  "replay_guard rc key R h (OldestPath sid)" "replay_guard rc key R h (DeleteOldest sid)"
  "replay_guard rc key R h (MakeSnapshot sid snap)" "replay_guard rc key R h (DropArchive path)"
  "replay_guard rc key R h (OrgOf sid)" "replay_guard rc key R h (OrgTotal org)"
  "replay_guard rc key R h (GetRow cid)" "replay_guard rc key R h (ListRows sid l f)" "replay_guard rc key R h (DeleteRow cid)"
  "replay_guard rc key R h (ActiveRuns sid)" "replay_guard rc key R h (LoadSource sid)"
  "replay_guard rc key R h (MakeWorkspace sid)" "replay_guard rc key R h (DropWorkspace sid)"
  "replay_guard rc key R h (InsertFork sid x)"
  by (simp_all add: replay_guard_def)

lemma restore_allowed:
  "(GetRow cid, RStored cp) \<in> set h \<Longrightarrow> verify_checkpoint rc key cp \<Longrightarrow> R h sid cp \<Longrightarrow>
   replay_guard rc key R h (RestoreArchive sid (cp_archive cp))"
  by (auto simp: replay_guard_def)

text \<open>Operations that restore nothing.\<close>

lemma record_snapshot_ok:
  assumes "\<And>g r. prefix h g \<Longrightarrow> P g r" "(MakeSnapshot (co_session o') snap, RMade path len) \<in> set h"
  shows "prog_ok (replay_guard rc key R) P (record_snapshot o' cid snap now path len) h"
  using assms
  by (auto simp: record_snapshot_def check_org_storage_def fail_dropping_def replay_guard_def new_checkpoint_def
      split: sum.split option.split replay_answer.split)

lemma create_checkpoint_ok:
  assumes "\<And>g r. prefix h g \<Longrightarrow> P g r"
  shows "prog_ok (replay_guard rc key R) P (create_checkpoint o' cid snap now) h"
proof -
  have later: "P g r" if "prefix (h @ t) g" for t g r
    using that by (intro assms) (rule append_prefixD)
  show ?thesis
    by (auto simp: create_checkpoint_def make_room_def prune_oldest_def assms intro!: record_snapshot_ok intro: later
        split: sum.split option.split replay_answer.split)
qed

lemma get_checkpoint_ok:
  assumes "\<And>g e. prefix h g \<Longrightarrow> P g (Inl e)" "\<And>cp. P (h @ [(GetRow cid, RStored cp)]) (Inr cp)"
  shows "prog_ok (replay_guard rc key R) P (get_checkpoint cid) h"
  using assms by (auto simp: get_checkpoint_def split: replay_answer.split)

lemma delete_checkpoint_ok:
  "(\<And>g r. prefix h g \<Longrightarrow> P g r) \<Longrightarrow> prog_ok (replay_guard rc key R) P (delete_checkpoint cid) h"
  by (auto simp: delete_checkpoint_def intro!: get_checkpoint_ok split: replay_answer.split)

lemma restore_checkpoint_ok:
  assumes "\<And>g r. prefix h g \<Longrightarrow> P g r" "\<And>g cp. prefix h g \<Longrightarrow> cp_session cp = sid \<Longrightarrow> R g sid cp"
  shows "prog_ok (replay_guard rc key R) P (restore_checkpoint rc key sid cid st) h"
  using assms
  by (auto simp: restore_checkpoint_def idle_session_def intro!: get_checkpoint_ok restore_allowed [of cid]
      split: replay_answer.split)

lemma fill_fork_ok:
  assumes "(GetRow cid, RStored cp) \<in> set h" "verify_checkpoint rc key cp" "R h new_sid cp" "\<And>g r. prefix h g \<Longrightarrow> P g r"
  shows "prog_ok (replay_guard rc key R) P (fill_fork o' cp src new_sid path) h"
  using assms by (auto simp: fill_fork_def fail_removing_def intro!: restore_allowed [of cid])

lemma fork_from_checkpoint_ok:
  assumes "\<And>g r. prefix h g \<Longrightarrow> P g r" "\<And>g cp. prefix h g \<Longrightarrow> R g new_sid cp"
  shows "prog_ok (replay_guard rc key R) P (fork_from_checkpoint rc key o' cid new_sid) h"
proof -
  have later: "P g r" if "prefix (h @ t) g" for t g r
    using that by (intro assms(1)) (rule append_prefixD)
  show ?thesis
    by (auto simp: fork_from_checkpoint_def assms intro!: get_checkpoint_ok fill_fork_ok [of cid] intro: later
        split: replay_answer.split)
qed

section \<open>The handlers\<close>

abbreviation replay_ok :: "replay_env \<Rightarrow> (replay_calls \<Rightarrow> string \<Rightarrow> checkpoint \<Rightarrow> bool) \<Rightarrow> 'r replay_prog \<Rightarrow> bool" where
  "replay_ok ev R p \<equiv> calls_ok (replay_guard (re_crypto ev) (re_key ev) R) p []"

lemma with_session_ok:
  assumes "\<And>s. re_sessions ev sid = Found s \<Longrightarrow> may_replay ev enough actor s \<Longrightarrow> calls_ok Q (p s) h"
  shows "calls_ok Q (with_session ev enough actor sid p) h"
  using assms by (auto simp: with_session_def split: lookup.split)

lemma with_owner_ok:
  assumes "\<And>s. re_sessions ev sid = Found s \<Longrightarrow> may_replay ev enough actor s \<Longrightarrow> calls_ok Q (p s) h"
  shows "calls_ok Q (with_owner ev enough actor sid p) h"
  using assms by (auto simp: with_owner_def split: lookup.split)

lemma find_checkpoint_ok:
  assumes "\<And>cp. calls_ok (replay_guard rc key R) (p cp) (h @ [(GetRow cid, RStored cp)])"
  shows "calls_ok (replay_guard rc key R) (find_checkpoint cid p) h"
  using assms by (auto simp: find_checkpoint_def intro!: get_checkpoint_ok split: replay_error.split)

lemma readers_ok:
  "replay_ok ev R (create_checkpoint_handler ev actor raw body cid snap now)"
  "replay_ok ev R (list_checkpoints_handler ev actor raw limit off)"
  "replay_ok ev R (get_checkpoint_handler ev actor raw raw_cp)"
  "replay_ok ev R (delete_checkpoint_handler ev actor raw raw_cp)"
  by (auto simp: create_checkpoint_handler_def list_checkpoints_handler_def list_checkpoints_def get_checkpoint_handler_def
      delete_checkpoint_handler_def session_checkpoint_def Let_def
      intro!: with_session_ok with_owner_ok find_checkpoint_ok create_checkpoint_ok delete_checkpoint_ok
      split: option.split replay_answer.split sum.split)

text \<open>Who may restore which checkpoint into which session.\<close>

definition restore_right :: "replay_env \<Rightarrow> replay_reply replay_prog \<Rightarrow> replay_calls \<Rightarrow> string \<Rightarrow> checkpoint \<Rightarrow> bool" where
  "restore_right ev p h sid cp \<longleftrightarrow>
     (\<exists>actor raw raw_cp st s. p = restore_handler ev actor raw raw_cp st \<and> re_sessions ev sid = Found s \<and>
        may_replay ev executor_role actor s \<and> cp_session cp = sid) \<or>
     (\<exists>fc img actor raw_cp body cid cp1 s. p = fork_handler ev fc img actor raw_cp body sid \<and> re_uuid ev raw_cp = Some cid \<and>
        (GetRow cid, RStored cp1) \<in> set h \<and> re_sessions ev (cp_session cp1) = Found s \<and>
        may_replay ev (\<lambda>role. role_at_least role ''executor'') actor s)"

lemma restore_handler_ok:
  assumes "\<And>g sid cp s. re_sessions ev sid = Found s \<Longrightarrow> may_replay ev executor_role actor s \<Longrightarrow> cp_session cp = sid \<Longrightarrow> R g sid cp"
  shows "replay_ok ev R (restore_handler ev actor raw raw_cp st)"
  using assms by (auto simp: restore_handler_def intro!: with_session_ok restore_checkpoint_ok split: option.split)

lemma fork_handler_ok:
  assumes "\<And>g cp cid cp1 s. re_uuid ev raw_cp = Some cid \<Longrightarrow> (GetRow cid, RStored cp1) \<in> set g \<Longrightarrow>
      re_sessions ev (cp_session cp1) = Found s \<Longrightarrow> may_replay ev (\<lambda>role. role_at_least role ''executor'') actor s \<Longrightarrow>
      R g new_sid cp"
  shows "replay_ok ev R (fork_handler ev fc img actor raw_cp body new_sid)"
proof -
  have right: "R g new_sid cp"
    if "re_uuid ev raw_cp = Some cid" "prefix [(GetRow cid, RStored cp1)] g" "re_sessions ev (cp_session cp1) = Found s"
      "may_replay ev (\<lambda>role. role_at_least role ''executor'') actor s" for g cp cid cp1 s
    using set_mono_prefix [OF that(2)] by (intro assms [OF that(1) _ that(3,4)]) simp
  show ?thesis
    by (auto simp: fork_handler_def intro!: find_checkpoint_ok with_owner_ok fork_from_checkpoint_ok right split: option.split)
qed

text \<open>The operations that a server of the API runs.\<close>

inductive replay_op :: "replay_env \<Rightarrow> replay_reply replay_prog \<Rightarrow> bool" for ev where
  "replay_op ev (create_checkpoint_handler ev actor raw body cid snap now)"
| "replay_op ev (list_checkpoints_handler ev actor raw limit off)"
| "replay_op ev (get_checkpoint_handler ev actor raw raw_cp)"
| "replay_op ev (delete_checkpoint_handler ev actor raw raw_cp)"
| "replay_op ev (restore_handler ev actor raw raw_cp st)"
| "replay_op ev (fork_handler ev fc img actor raw_cp fbody new_sid)"

lemma replay_op_ok: "replay_op ev p \<Longrightarrow> replay_ok ev (restore_right ev p) p"
  by (induction rule: replay_op.induct)
    (rule readers_ok restore_handler_ok fork_handler_ok; (unfold restore_right_def)?; blast)+

section \<open>The world\<close>

definition issued_messages :: "replay_crypto \<Rightarrow> replay_state \<Rightarrow> string set" where
  "issued_messages rc s = (\<lambda>i. nul_fields (checkpoint_fields rc i)) ` set (rp_issued s)"

text \<open>A row whose signature, where it is the digest of a message, is one that the code has computed.\<close>

definition no_forgery :: "replay_crypto \<Rightarrow> string \<Rightarrow> string set \<Rightarrow> checkpoint \<Rightarrow> bool" where
  "no_forgery rc key ms r \<longleftrightarrow>
     storable r \<and> (\<forall>m. hex_decode (cp_sig r) = Some (rc_mac rc key m) \<longrightarrow> m \<in> ms)"

text \<open>Sessions, rows, archives, workspaces and active commands may change at any moment.\<close>

definition tampers :: "replay_crypto \<Rightarrow> string \<Rightarrow> replay_state \<Rightarrow> replay_state \<Rightarrow> bool" where
  "tampers rc key s s' \<longleftrightarrow>
     rp_issued s' = rp_issued s \<and> list_all (no_forgery rc key (issued_messages rc s)) (rp_rows s')"

abbreviation replay_reach ::
  "replay_env \<Rightarrow> workspace_env \<Rightarrow> replay_state \<Rightarrow> (replay_state, replay_call, replay_answer, replay_reply) system \<Rightarrow> bool" where
  "replay_reach ev we \<equiv>
     sys_reach (replay_apply (re_crypto ev) (re_key ev) we) RFailed (replay_op ev) (tampers (re_crypto ev) (re_key ev))"

section \<open>What is signed was allocated\<close>

definition allocated :: "replay_crypto \<Rightarrow> (replay_call, replay_answer) entry list \<Rightarrow> string \<Rightarrow> bool" where
  "allocated rc es m \<longleftrightarrow>
     (\<exists>e \<in> set es. \<exists>cp n. en_call e = Allocate cp \<and> m = nul_fields (checkpoint_fields rc (cp\<lparr>cp_number := n\<rparr>)))"

definition issued_inv ::
  "replay_crypto \<Rightarrow> string \<Rightarrow> (replay_call, replay_answer) entry list \<Rightarrow> replay_state \<Rightarrow> bool" where
  "issued_inv rc key es s \<longleftrightarrow>
     (\<forall>m \<in> issued_messages rc s. allocated rc es m) \<and>
     list_all (no_forgery rc key (issued_messages rc s)) (rp_rows s) \<and>
     (\<forall>j < length es. \<forall>cid cp. en_call (es ! j) = GetRow cid \<and> en_answer (es ! j) = RStored cp \<longrightarrow>
        no_forgery rc key (Collect (allocated rc (take j es))) cp)"

lemma allocated_append: "allocated rc es m \<Longrightarrow> allocated rc (es @ fs) m"
  by (auto simp: allocated_def)

lemma no_forgery_mono: "no_forgery rc key ms r \<Longrightarrow> ms \<subseteq> ns \<Longrightarrow> no_forgery rc key ns r"
  by (auto simp: no_forgery_def)

text \<open>Only the insert computes signatures, and what it stores carries them.\<close>

lemma new_row_no_forgery:
  assumes "replay_crypto_ok rc key" "storable cp"
  shows "no_forgery rc key (insert (nul_fields (checkpoint_fields rc cp)) ms)
    (cp\<lparr>cp_sig := sign_checkpoint rc key cp, cp_created := t\<rparr>)"
  using assms by (auto simp: no_forgery_def sign_checkpoint_def replay_crypto_ok_def storable_def dest: injD)

lemma storable_sig [simp]: "storable (cp\<lparr>cp_sig := x\<rparr>) = storable cp" "storable (cp\<lparr>cp_number := n\<rparr>) = storable cp"
  by (simp_all add: storable_def)

lemma issued_after:
  "issued_messages rc (snd (allocate rc key cp s)) =
     insert (nul_fields (checkpoint_fields rc (cp\<lparr>cp_number := next_number (cp_session cp) s\<rparr>))) (issued_messages rc s)"
  by (simp add: allocate_def issued_messages_def Let_def)

lemma rows_after_allocate:
  assumes "replay_crypto_ok rc key" "list_all (no_forgery rc key (issued_messages rc s)) (rp_rows s)"
  shows "list_all (no_forgery rc key (issued_messages rc (snd (allocate rc key cp s)))) (rp_rows (snd (allocate rc key cp s)))"
proof -
  have "no_forgery rc key (insert m (issued_messages rc s)) r" if "r \<in> set (rp_rows s)" for m r
    using that assms(2) by (auto simp: list_all_iff intro: no_forgery_mono)
  then show ?thesis
    unfolding issued_after using new_row_no_forgery [OF assms(1), of "cp\<lparr>cp_number := next_number (cp_session cp) s\<rparr>"]
    by (auto simp: allocate_def Let_def list_all_iff)
qed

lemma other_calls_keep:
  assumes "\<And>cp. c \<noteq> Allocate cp"
  shows "rp_issued (snd (do_call (replay_apply rc key we) RFailed fate c s)) = rp_issued s"
    "set (rp_rows (snd (do_call (replay_apply rc key we) RFailed fate c s))) \<subseteq> set (rp_rows s)"
  using assms by (cases fate; cases c; auto simp: do_call_def split: option.split)+

lemma issued_step:
  assumes ok: "replay_crypto_ok rc key" and inv: "issued_inv rc key es s"
    and step: "do_call (replay_apply rc key we) RFailed fate c s = (a, s')"
    and e: "e = \<lparr> en_thread = i, en_call = c, en_fate = fate, en_answer = a \<rparr>"
  shows "\<forall>m \<in> issued_messages rc s'. allocated rc (es @ [e]) m"
    "list_all (no_forgery rc key (issued_messages rc s')) (rp_rows s')"
proof -
  from step have s': "s' = snd (do_call (replay_apply rc key we) RFailed fate c s)" by simp
  have rows: "list_all (no_forgery rc key (issued_messages rc s)) (rp_rows s)"
    and msgs: "\<forall>m \<in> issued_messages rc s. allocated rc (es @ [e]) m"
    using inv by (auto simp: issued_inv_def intro: allocated_append)
  have "(\<forall>m \<in> issued_messages rc s'. allocated rc (es @ [e]) m) \<and>
    list_all (no_forgery rc key (issued_messages rc s')) (rp_rows s')"
  proof (cases "\<exists>cp. c = Allocate cp \<and> fate \<noteq> CallUnreached")
    case True
    then obtain cp where c: "c = Allocate cp" and s'': "s' = snd (allocate rc key cp s)"
      by (auto simp: s' do_call_def split: call_fate.splits)
    have "allocated rc (es @ [e]) (nul_fields (checkpoint_fields rc (cp\<lparr>cp_number := n\<rparr>)))" for n
      by (auto simp: allocated_def e c)
    with msgs show ?thesis
      unfolding s'' issued_after using rows_after_allocate [OF ok rows, of cp] by (auto simp: issued_after)
  next
    case False
    then have "rp_issued s' = rp_issued s \<and> set (rp_rows s') \<subseteq> set (rp_rows s)"
      using other_calls_keep [of c rc key we fate s] by (cases "fate = CallUnreached") (auto simp: s' do_call_def)
    with msgs rows show ?thesis by (auto simp: issued_messages_def list_all_iff)
  qed
  then show "\<forall>m \<in> issued_messages rc s'. allocated rc (es @ [e]) m"
    "list_all (no_forgery rc key (issued_messages rc s')) (rp_rows s')" by auto
qed

lemma answered_row:
  "do_call (replay_apply rc key we) RFailed fate (GetRow cid) s = (RStored cp, s') \<Longrightarrow> cp \<in> set (rp_rows s)"
  by (auto simp: do_call_def find_Some_iff split: call_fate.splits option.splits)

lemma issued_inv_call:
  assumes ok: "replay_crypto_ok rc key" and inv: "issued_inv rc key es s"
    and step: "do_call (replay_apply rc key we) RFailed fate c s = (a, s')"
  shows "issued_inv rc key (es @ [\<lparr> en_thread = i, en_call = c, en_fate = fate, en_answer = a \<rparr>]) s'"
    (is "issued_inv rc key (es @ [?e]) s'")
proof -
  have "no_forgery rc key (Collect (allocated rc (take j (es @ [?e])))) cp"
    if j: "j < length (es @ [?e])" "en_call ((es @ [?e]) ! j) = GetRow cid" "en_answer ((es @ [?e]) ! j) = RStored cp"
    for j cid cp
  proof (cases "j = length es")
    case True
    with j step have "cp \<in> set (rp_rows s)" by (auto dest: answered_row)
    with inv have "no_forgery rc key (issued_messages rc s) cp" by (auto simp: issued_inv_def list_all_iff)
    with inv True show ?thesis by (auto simp: issued_inv_def elim!: no_forgery_mono)
  next
    case False
    with j inv show ?thesis by (auto simp: issued_inv_def nth_append)
  qed
  with issued_step [OF ok inv step refl] show ?thesis unfolding issued_inv_def by blast
qed

interpretation issued: store_invariant "replay_apply rc key we" RFailed "replay_op ev" "tampers rc key"
    "\<lambda>_ _. True" "\<lambda>es s. replay_crypto_ok rc key \<longrightarrow> issued_inv rc key es s" for rc key we ev
proof
  have all_ok: "calls_ok (\<lambda>_ _. True) p h" for p :: "replay_reply replay_prog" and h
    by (induction p arbitrary: h) auto
  then show "calls_ok (\<lambda>_ _. True) p []" for p :: "replay_reply replay_prog" .
  show "replay_crypto_ok rc key \<longrightarrow> issued_inv rc key es s'"
    if "replay_crypto_ok rc key \<longrightarrow> issued_inv rc key es s" "tampers rc key s s'" for es s s'
    using that by (auto simp: issued_inv_def tampers_def issued_messages_def)
qed (blast intro: issued_inv_call)

section \<open>What a restore may unpack\<close>

text \<open>A row that was read and verifies has the fields of a checkpoint that was allocated before.\<close>

lemma verified_row_allocated:
  assumes "issued_inv rc key es s" "replay_crypto_ok rc key" "j < length es" "en_call (es ! j) = GetRow cid"
    "en_answer (es ! j) = RStored cp" "verify_checkpoint rc key cp"
  shows "\<exists>k < j. \<exists>cp0 n. en_call (es ! k) = Allocate cp0 \<and>
    checkpoint_fields rc cp = checkpoint_fields rc (cp0\<lparr>cp_number := n\<rparr>)"
proof -
  from assms(1,3,4,5) have nf: "no_forgery rc key (Collect (allocated rc (take j es))) cp"
    by (auto simp: issued_inv_def)
  with assms(6) have "allocated rc (take j es) (nul_fields (checkpoint_fields rc cp))"
    by (auto simp: no_forgery_def verify_checkpoint_iff)
  then obtain e cp0 n where e: "e \<in> set (take j es)" "en_call e = Allocate cp0"
    "nul_fields (checkpoint_fields rc cp) = nul_fields (checkpoint_fields rc (cp0\<lparr>cp_number := n\<rparr>))"
    by (auto simp: allocated_def)
  from nf have "storable cp" by (simp add: no_forgery_def)
  with assms(2) e(3) have "checkpoint_fields rc cp = checkpoint_fields rc (cp0\<lparr>cp_number := n\<rparr>)"
    by (blast intro: signed_fields_same)
  moreover from e(1) assms(3) obtain k where "k < j" "es ! k = e" by (auto simp: in_set_conv_nth)
  ultimately show ?thesis using e(2) by blast
qed

lemma issued_reach:
  assumes "replay_reach ev we s0 S" "replay_crypto_ok (re_crypto ev) (re_key ev)" "rp_rows s0 = []" "rp_issued s0 = []"
  shows "issued_inv (re_crypto ev) (re_key ev) (sy_log S) (sy_store S)"
  using issued.invariant [OF assms(1)] assms(2-4) by (simp add: issued_inv_def issued_messages_def)

lemma replay_log_guarded:
  assumes "replay_reach ev we s0 S"
  shows "log_guarded (\<lambda>p. replay_guard (re_crypto ev) (re_key ev) (restore_right ev p)) S"
  using assms by (rule log_guarded_reach) (rule replay_op_ok)

end
