(* ===== verification/ReplayClaims.thy ===== *)
theory ReplayClaims
  imports ReplayProps
begin

text \<open>
  Properties of checkpoints: what a restore unpacks over all interleavings, and what one creation does
  that runs alone.
\<close>

section \<open>A run\<close>

definition demo_replay :: replay_env where
  "demo_replay =
     \<lparr> re_uuid = (\<lambda>raw. Some raw),
        re_sessions = (\<lambda>sid. Found \<lparr> s_id = sid, s_created_by = ''ann'', s_org = None, s_stopped = None,
          s_container = None, s_status = ''running'', s_workspace = ''w'' \<rparr>),
        re_roles = (\<lambda>_ _. NoRows), re_crypto = \<lparr> rc_mac = (\<lambda>k m. k @ m), rc_json = (\<lambda>_. ''{}'') \<rparr>, re_key = ''k'' \<rparr>"

definition demo_space :: workspace_env where
  "demo_space =
     \<lparr> we_pack = (\<lambda>w. int (length w)), we_extract = (\<lambda>_ a. a), we_archive_path = (\<lambda>sid snap. sid @ ''/'' @ snap),
        we_session_path = (\<lambda>sid. ''/w/'' @ sid) \<rparr>"

definition demo_source :: source_session where
  "demo_source =
     \<lparr> so_image = ''ubuntu'', so_network = False, so_cpu = 1, so_memory = 512, so_timeout = 30, so_hosts = [],
        so_owner = ''ann'', so_org = None, so_replay = Some True, so_workspace = ''w'', so_name = None, so_forked = None \<rparr>"

definition demo_replay_store :: replay_state where
  "demo_replay_store =
     \<lparr> rp_sessions = (\<lambda>sid. if sid = ''s'' then Some demo_source else None), rp_rows = [], rp_archives = (\<lambda>_. None),
        rp_work = (\<lambda>sid. if sid = ''s'' then Some ''files'' else None), rp_active = (\<lambda>_. []), rp_issued = [] \<rparr>"

definition demo_opts :: checkpoint_opts where
  "demo_opts =
     \<lparr> co_session = ''s'', co_run = None, co_name = None, co_description = [], co_command = ''make'', co_args = None,
        co_exit = Some 0, co_duration = Some 5, co_stdout = ''ok'', co_stderr = [], co_env = None \<rparr>"

definition demo_body :: checkpoint_body where
  "demo_body = \<lparr> cb_run_id = None, cb_opts = demo_opts \<rparr>"

definition demo_replay_moves :: "(replay_call, replay_answer, replay_reply) move list" where
  "demo_replay_moves =
     [Begin (create_checkpoint_handler demo_replay ''ann'' ''s'' (Some demo_body) ''c'' ''p'' 0),
      Begin (restore_handler demo_replay ''ann'' ''s'' ''c'' None)] @
     map (\<lambda>i. Step i CallAnswered) [0, 0, 0, 0, 0, 1, 1, 1]"

definition demo_replay_end :: "(replay_state, replay_call, replay_answer, replay_reply) system" where
  "demo_replay_end =
     the (do_moves (replay_apply (re_crypto demo_replay) (re_key demo_replay) demo_space) RFailed demo_replay_moves
            (boot demo_replay_store))"

lemma demo_replay_crypto: "replay_crypto_ok (re_crypto demo_replay) (re_key demo_replay)"
  by (simp add: demo_replay_def replay_crypto_ok_def inj_def)

text \<open>The row that the demonstration stores.\<close>

definition demo_row :: checkpoint where
  "demo_row = (new_checkpoint demo_opts ''c'' ''p'' 0 ''s/p'' 5)\<lparr>cp_number := 1\<rparr>"

definition demo_signed :: checkpoint where
  "demo_signed = demo_row\<lparr>cp_sig := sign_checkpoint (re_crypto demo_replay) (re_key demo_replay) demo_row\<rparr>"

lemma demo_signed_ok: "verify_checkpoint (re_crypto demo_replay) (re_key demo_replay) demo_signed"
  using stored_row_verifies [OF demo_replay_crypto, of demo_row]
  by (simp add: demo_signed_def demo_row_def new_checkpoint_def round_us_def)

lemma demo_allocate:
  "rp_rows s = [] \<Longrightarrow> rp_sessions s ''s'' = Some demo_source \<Longrightarrow>
   allocate (re_crypto demo_replay) (re_key demo_replay) (new_checkpoint demo_opts ''c'' ''p'' 0 ''s/p'' 5) s =
     (RStored demo_signed, s\<lparr>rp_issued := demo_signed # rp_issued s, rp_rows := [demo_signed]\<rparr>)"
  by (simp add: allocate_def demo_signed_def demo_row_def next_number_def rows_of_def Let_def new_checkpoint_def
      storable_def demo_opts_def truncate_utf8_def uuid_str_def round_us_def)

lemma demo_create:
  "create_checkpoint_handler demo_replay ''ann'' ''s'' (Some demo_body) ''c'' ''p'' 0 =
     pbind (create_checkpoint demo_opts ''c'' ''p'' 0) (\<lambda>r. Return (create_status r))"
  by (simp add: create_checkpoint_handler_def with_session_def may_replay_def demo_replay_def demo_body_def demo_opts_def)

lemma demo_restore:
  "restore_handler demo_replay ''ann'' ''s'' ''c'' None =
     pbind (restore_checkpoint (re_crypto demo_replay) (re_key demo_replay) ''s'' ''c'' False)
       (\<lambda>r. Return (restore_status r))"
  by (simp add: restore_handler_def with_session_def may_replay_def demo_replay_def)

lemma demo_opts_ok: "opts_valid demo_opts" "co_session demo_opts = ''s''"
  by (simp_all add: opts_valid_def demo_opts_def nil_uuid_def)

lemma demo_signed_parts: "cp_session demo_signed = ''s''" "cp_archive demo_signed = ''s/p''" "cp_id demo_signed = ''c''"
  by (simp_all add: demo_signed_def demo_row_def new_checkpoint_def demo_opts_def)

lemmas replay_run_defs =
  create_checkpoint_def make_room_def record_snapshot_def check_org_storage_def restore_checkpoint_def get_checkpoint_def
  idle_session_def rows_of_def Let_def do_call_def demo_replay_store_def demo_create demo_restore demo_opts_ok
  demo_signed_ok demo_signed_parts demo_allocate max_checkpoints_def max_checkpoint_bytes_def

lemma demo_source_parts: "so_replay demo_source = Some True" "so_org demo_source = None"
  by (simp_all add: demo_source_def)

lemma demo_space_parts:
  "we_pack demo_space w = int (length w)" "we_extract demo_space w a = a" "we_archive_path demo_space sid snap = sid @ ''/'' @ snap"
  by (simp_all add: demo_space_def)

lemma demo_replay_run:
  "do_moves (replay_apply (re_crypto demo_replay) (re_key demo_replay) demo_space) RFailed demo_replay_moves
     (boot demo_replay_store) = Some demo_replay_end"
  "en_call (sy_log demo_replay_end ! 7) = RestoreArchive ''s'' ''s/p''"
  "length (sy_log demo_replay_end) = 8"
  by (simp_all cong: Call_lazy add: demo_replay_end_def demo_replay_moves_def boot_def fresh_thread_def replay_run_defs
      demo_source_parts demo_space_parts)

lemma demo_replay_reach: "replay_reach demo_replay demo_space demo_replay_store demo_replay_end"
  by (rule do_moves_reach [OF demo_replay_run(1) reach_boot])
    (auto simp: demo_replay_moves_def intro: replay_op.intros)

section \<open>Restoring\<close>

text \<open>
  Property C34.  However the checkpoint endpoints interleave and whichever of their calls fail, and even
  when rows, archives and workspaces are changed behind their back as long as no signature is forged:
  an archive that is unpacked into a session is one that the server itself packed, for the session of
  the checkpoint; a restore unpacks only checkpoints of its own session, for the owner, an admin or
  executor of the organisation or the master key, and a fork only with execute rights in the session of
  the checkpoint it read.
\<close>

theorem restored_archives_genuine:
  assumes "replay_reach ev we s0 S" "replay_crypto_ok (re_crypto ev) (re_key ev)" "rp_rows s0 = []" "rp_issued s0 = []"
    and "n < length (sy_log S)" "en_call (sy_log S ! n) = RestoreArchive sid path"
  shows "\<exists>cp. restore_right ev (th_start (sy_threads S ! en_thread (sy_log S ! n)))
           (calls_of (en_thread (sy_log S ! n)) (take n (sy_log S))) sid cp \<and>
         (\<exists>k < n. \<exists>snap len. en_call (sy_log S ! k) = MakeSnapshot (cp_session cp) snap \<and>
            en_answer (sy_log S ! k) = RMade path len \<and> len \<le> max_checkpoint_bytes)"
proof -
  let ?rc = "re_crypto ev" and ?key = "re_key ev" and ?es = "sy_log S"
  have guard: "replay_guard ?rc ?key (restore_right ev (th_start (sy_threads S ! en_thread (?es ! j))))
      (calls_of (en_thread (?es ! j)) (take j ?es)) (en_call (?es ! j))" if "j < length ?es" for j
    using replay_log_guarded [OF assms(1)] that by (simp add: log_guarded_def Let_def)
  from guard [OF assms(5)] assms(6) obtain cid cp where
    cp: "(GetRow cid, RStored cp) \<in> set (calls_of (en_thread (?es ! n)) (take n ?es))"
      "verify_checkpoint ?rc ?key cp" "cp_archive cp = path"
      "restore_right ev (th_start (sy_threads S ! en_thread (?es ! n))) (calls_of (en_thread (?es ! n)) (take n ?es)) sid cp"
    by (auto simp: replay_guard_def)
  from calls_of_take [OF cp(1)] obtain j where
    j: "j < n" "j < length ?es" "en_call (?es ! j) = GetRow cid" "en_answer (?es ! j) = RStored cp" by blast
  from verified_row_allocated [OF issued_reach [OF assms(1-4)] assms(2) j(2-4) cp(2)] obtain k cp0 x where
    k: "k < j" "en_call (?es ! k) = Allocate cp0" "checkpoint_fields ?rc cp = checkpoint_fields ?rc (cp0\<lparr>cp_number := x\<rparr>)"
    by blast
  from same_fields_simps [OF k(3)] have same: "cp_session cp = cp_session cp0" "cp_archive cp = cp_archive cp0" by simp_all
  from guard [of k] k(1,2) j(2)
  have "(MakeSnapshot (cp_session cp0) (cp_snapshot cp0), RMade (cp_archive cp0) (cp_size cp0))
      \<in> set (calls_of (en_thread (?es ! k)) (take k ?es))" "cp_size cp0 \<le> max_checkpoint_bytes"
    by (simp_all add: replay_guard_def)
  from calls_of_take [OF this(1)] this(2) obtain x' where
    "x' < k" "en_call (?es ! x') = MakeSnapshot (cp_session cp) (cp_snapshot cp0)"
    "en_answer (?es ! x') = RMade path (cp_size cp0)" "cp_size cp0 \<le> max_checkpoint_bytes"
    using same cp(3) by auto
  moreover from \<open>x' < k\<close> k(1) j(1) have "x' < n" by simp
  ultimately show ?thesis using cp(4) by blast
qed

theorem restored_archives_genuine_witness:
  "\<exists>(cp :: checkpoint) k snap len. k < 7 \<and> en_call (sy_log demo_replay_end ! k) = MakeSnapshot (cp_session cp) snap \<and>
     en_answer (sy_log demo_replay_end ! k) = RMade ''s/p'' len"
proof -
  have "rp_rows demo_replay_store = []" "rp_issued demo_replay_store = []" by (simp_all add: demo_replay_store_def)
  moreover have "7 < length (sy_log demo_replay_end)" by (simp add: demo_replay_run(3))
  ultimately show ?thesis
    using restored_archives_genuine [OF demo_replay_reach demo_replay_crypto _ _ _ demo_replay_run(2)] by blast
qed

section \<open>Creating\<close>

text \<open>What is left of a store once a session has room for one more checkpoint.\<close>

definition made_room :: "string \<Rightarrow> replay_state \<Rightarrow> replay_state" where
  "made_room sid s =
     (if int (length (rows_of sid s)) < max_checkpoints then s
      else case oldest_row sid s of
        None \<Rightarrow> s
      | Some r \<Rightarrow> s\<lparr>rp_rows := filter (\<lambda>x. cp_id x \<noteq> cp_id r) (rp_rows s), rp_archives := (rp_archives s)(cp_archive r := None)\<rparr>)"

lemma oldest_row_Some:
  "oldest_row sid s = Some r \<Longrightarrow> r \<in> set (rows_of sid s) \<and> (\<forall>x \<in> set (rows_of sid s). cp_number r \<le> cp_number x)"
proof -
  assume "oldest_row sid s = Some r"
  then obtain rs where rs: "sort_key cp_number (rows_of sid s) = r # rs"
    by (auto simp: oldest_row_def split: list.splits)
  then have "sorted (map cp_number (r # rs))" by (metis sorted_sort_key)
  moreover from rs have "set (rows_of sid s) = set (r # rs)" by (metis set_sort)
  ultimately show ?thesis by auto
qed

lemma oldest_row_None: "oldest_row sid s = None \<longleftrightarrow> rows_of sid s = []"
  by (cases "sort_key cp_number (rows_of sid s)") (auto simp: oldest_row_def dest: arg_cong [where f = set])

lemma prune_alone:
  "oldest_row sid s = Some r \<Longrightarrow>
   run_alone (replay_apply rc key we) RFailed (prune_oldest sid) [] s =
     (Inr (), s\<lparr>rp_rows := filter (\<lambda>x. cp_id x \<noteq> cp_id r) (rp_rows s), rp_archives := (rp_archives s)(cp_archive r := None)\<rparr>)"
  by (simp add: prune_oldest_def do_call_def)

lemma make_room_alone:
  "run_alone (replay_apply rc key we) RFailed (make_room sid) [] s = (Inr (), made_room sid s)"
proof (cases "oldest_row sid s")
  case None
  then have "rows_of sid s = []" by (simp add: oldest_row_None)
  then show ?thesis by (simp add: make_room_def made_room_def do_call_def max_checkpoints_def)
next
  case (Some r)
  with prune_alone [OF Some] show ?thesis by (auto simp: make_room_def made_room_def do_call_def)
qed

lemma made_room_keeps [simp]:
  "rp_sessions (made_room sid s) = rp_sessions s" "rp_work (made_room sid s) = rp_work s"
  by (auto simp: made_room_def split: option.split)

lemma made_room_rows:
  "rows_of sid' (made_room sid s) =
     (if int (length (rows_of sid s)) < max_checkpoints then rows_of sid' s
      else case oldest_row sid s of None \<Rightarrow> rows_of sid' s | Some r \<Rightarrow> filter (\<lambda>x. cp_id x \<noteq> cp_id r) (rows_of sid' s))"
  by (auto simp: made_room_def rows_of_def filter_filter intro!: filter_cong split: option.split)

lemma made_room_fewer:
  assumes "int (length (rows_of sid s)) \<le> max_checkpoints"
  shows "int (length (rows_of sid (made_room sid s))) < max_checkpoints"
proof (cases "oldest_row sid s")
  case None
  then show ?thesis by (simp add: made_room_rows oldest_row_None max_checkpoints_def)
next
  case (Some r)
  with oldest_row_Some [OF Some] have "length (filter (\<lambda>x. cp_id x \<noteq> cp_id r) (rows_of sid s)) < length (rows_of sid s)"
    by (intro length_filter_less) auto
  with Some assms show ?thesis by (simp add: made_room_rows)
qed

lemma made_room_others:
  assumes "distinct (map cp_id (rp_rows s))" "sid' \<noteq> sid"
  shows "rows_of sid' (made_room sid s) = rows_of sid' s"
proof (cases "oldest_row sid s")
  case (Some r)
  have "cp_id x \<noteq> cp_id r" if "x \<in> set (rows_of sid' s)" for x
    using that oldest_row_Some [OF Some] assms by (auto simp: rows_of_def distinct_map dest: inj_onD)
  with Some show ?thesis by (simp add: made_room_rows)
qed (simp add: made_room_rows)

text \<open>The new number is larger than all that the session had.\<close>

lemma foldl_max_ge:
  fixes n :: int
  shows "n \<le> foldl max n ns" "x \<in> set ns \<Longrightarrow> x \<le> foldl max n ns"
proof (induction ns arbitrary: n)
  case (Cons y ns)
  { case 1 from Cons(1) [of "max n y"] show ?case by simp }
  { case 2 from Cons [of "max n y"] 2 show ?case by auto }
qed simp_all

lemma next_number_above:
  assumes "r \<in> set (rows_of sid s)"
  shows "cp_number r < next_number sid s"
proof -
  from assms have r: "cp_number r \<in> set (map cp_number (rows_of sid s))" by simp
  then obtain n ns where ns: "map cp_number (rows_of sid s) = n # ns" by (cases "map cp_number (rows_of sid s)") auto
  with r have "cp_number r = n \<or> cp_number r \<in> set ns" by simp
  with foldl_max_ge [of n ns] foldl_max_ge(2) [of "cp_number r" ns n] have "cp_number r \<le> foldl max n ns" by blast
  with ns show ?thesis by (simp add: next_number_def)
qed

lemma next_number_made_room:
  assumes "distinct (map cp_id (rp_rows s))" "r \<in> set (rows_of sid s)"
  shows "cp_number r < next_number sid (made_room sid s)"
proof (cases "r \<in> set (rows_of sid (made_room sid s))")
  case False
  with assms(2) obtain q where q: "oldest_row sid s = Some q" "cp_id r = cp_id q" "max_checkpoints \<le> int (length (rows_of sid s))"
    by (auto simp: made_room_rows split: if_splits option.splits)
  note old = oldest_row_Some [OF q(1)]
  with assms q(2) have "r = q" by (auto simp: rows_of_def distinct_map dest: inj_onD)
  have dist: "distinct (map cp_id (rows_of sid s))"
    using assms(1) by (auto simp: rows_of_def intro: distinct_map_filter)
  moreover have "1 < length (rows_of sid s)" using q(3) by (simp add: max_checkpoints_def)
  ultimately have "\<exists>x \<in> set (rows_of sid s). cp_id x \<noteq> cp_id q"
    by (cases "rows_of sid s" rule: remdups_adj.cases) force+
  then obtain x where x: "x \<in> set (rows_of sid s)" "cp_id x \<noteq> cp_id q" by blast
  with q(1,3) have "x \<in> set (rows_of sid (made_room sid s))" by (simp add: made_room_rows)
  from next_number_above [OF this] old x(1) \<open>r = q\<close> show ?thesis by fastforce
qed (rule next_number_above)

text \<open>What recording a snapshot does to the store that has it.\<close>

lemma fail_dropping_alone [simp]:
  "run_alone (replay_apply rc key we) RFailed (fail_dropping path e) [] s =
     (Inl e, s\<lparr>rp_archives := (rp_archives s)(path := None)\<rparr>)"
  by (simp add: fail_dropping_def do_call_def)

lemma check_org_storage_alone:
  "run_alone (replay_apply rc key we) RFailed (check_org_storage sid len) [] s =
     (case rp_sessions s sid of
        Some x \<Rightarrow> (case so_org x of
          Some org \<Rightarrow> if max_org_bytes < total_bytes org s + len then Inl OrgStorageExceeded else Inr ()
        | None \<Rightarrow> Inr ())
      | None \<Rightarrow> Inr (), s)"
  by (auto simp: check_org_storage_def do_call_def split: option.split)

definition row_of_new :: "replay_crypto \<Rightarrow> string \<Rightarrow> checkpoint \<Rightarrow> replay_state \<Rightarrow> checkpoint" where
  "row_of_new rc key cp s =
     (let cp1 = cp\<lparr>cp_number := next_number (cp_session cp) s\<rparr> in cp1\<lparr>cp_sig := sign_checkpoint rc key cp1\<rparr>)"

lemma record_snapshot_alone:
  assumes "run_alone (replay_apply rc key we) RFailed (record_snapshot o' cid snap now path len) [] s = (r, s')"
  shows "case r of
      Inl e \<Rightarrow> rp_rows s' = rp_rows s \<and> rp_archives s' = (rp_archives s)(path := None)
    | Inr cp \<Rightarrow>
        cp = row_of_new rc key (new_checkpoint o' cid snap now path len) s \<and> len \<le> max_checkpoint_bytes \<and>
        rp_rows s' = rp_rows s @ [cp\<lparr>cp_created := round_us now\<rparr>] \<and> rp_archives s' = rp_archives s"
proof (cases "max_checkpoint_bytes < len")
  case True
  with assms show ?thesis by (auto simp: record_snapshot_def)
next
  case False
  have new: "cp_created (new_checkpoint o' cid snap now path len) = now" by (simp add: new_checkpoint_def)
  from False assms show ?thesis
    by (auto simp: record_snapshot_def run_alone_bind check_org_storage_alone do_call_def allocate_def row_of_new_def new Let_def
        split: option.splits if_splits)
qed

text \<open>The whole of a creation.\<close>

definition create_allowed :: "checkpoint_opts \<Rightarrow> replay_state \<Rightarrow> bool" where
  "create_allowed o' s \<longleftrightarrow>
     opts_valid o' \<and> (case rp_sessions s (co_session o') of None \<Rightarrow> False | Some x \<Rightarrow> so_replay x = Some True)"

lemma create_refused_alone:
  assumes "run_alone (replay_apply rc key we) RFailed (create_checkpoint o' cid snap now) [] s = (r, s')" "\<not> create_allowed o' s"
  shows "s' = s \<and> r \<in> {Inl InvalidCheckpoint, Inl ReplaySessionNotFound, Inl ReplayDisabled}"
  using assms by (auto simp: create_checkpoint_def create_allowed_def do_call_def split: if_splits option.splits)

lemma create_allowed_alone:
  assumes "run_alone (replay_apply rc key we) RFailed (create_checkpoint o' cid snap now) [] s = (r, s')" "create_allowed o' s"
  shows "case rp_work s (co_session o') of
      None \<Rightarrow> r = Inl ReplayFailed \<and> s' = made_room (co_session o') s
    | Some w \<Rightarrow>
        let s1 = made_room (co_session o') s; path = we_archive_path we (co_session o') snap in
        run_alone (replay_apply rc key we) RFailed (record_snapshot o' cid snap now path (we_pack we w)) []
          (s1\<lparr>rp_archives := (rp_archives s1)(path := Some w)\<rparr>) = (r, s')"
  using assms
  by (auto simp: create_checkpoint_def create_allowed_def do_call_def run_alone_bind make_room_alone Let_def
      split: if_splits option.splits)

lemma next_number_archives [simp]:
  "next_number sid (s\<lparr>rp_archives := f\<rparr>) = next_number sid s" "rows_of sid (s\<lparr>rp_archives := f\<rparr>) = rows_of sid s"
  by (simp_all add: next_number_def rows_of_def)

lemma row_of_new_parts:
  "cp_session (row_of_new rc key cp s) = cp_session cp" "cp_archive (row_of_new rc key cp s) = cp_archive cp"
  "cp_size (row_of_new rc key cp s) = cp_size cp" "cp_stdout (row_of_new rc key cp s) = cp_stdout cp"
  "cp_stderr (row_of_new rc key cp s) = cp_stderr cp" "cp_env (row_of_new rc key cp s) = cp_env cp"
  "cp_number (row_of_new rc key cp s) = next_number (cp_session cp) s"
  by (simp_all add: row_of_new_def Let_def)

lemma new_checkpoint_parts:
  "cp_session (new_checkpoint o' cid snap now path len) = co_session o'"
  "cp_archive (new_checkpoint o' cid snap now path len) = path" "cp_size (new_checkpoint o' cid snap now path len) = len"
  "cp_stdout (new_checkpoint o' cid snap now path len) = truncate_utf8 (co_stdout o') 500"
  "cp_stderr (new_checkpoint o' cid snap now path len) = truncate_utf8 (co_stderr o') 500"
  "cp_env (new_checkpoint o' cid snap now path len) = redact_env_vars (co_env o')"
  by (simp_all add: new_checkpoint_def)

lemma created_shape:
  assumes "run_alone (replay_apply rc key we) RFailed (create_checkpoint o' cid snap now) [] s = (r, s')" "create_allowed o' s"
  shows "(\<exists>e. r = Inl e) \<and> rp_rows s' = rp_rows (made_room (co_session o') s) \<and>
      rp_archives s' (we_archive_path we (co_session o') snap)
        \<in> {None, rp_archives (made_room (co_session o') s) (we_archive_path we (co_session o') snap)} \<or>
    (\<exists>w cp. r = Inr cp \<and> rp_work s (co_session o') = Some w \<and> we_pack we w \<le> max_checkpoint_bytes \<and>
       cp = row_of_new rc key (new_checkpoint o' cid snap now (we_archive_path we (co_session o') snap) (we_pack we w))
              (made_room (co_session o') s) \<and>
       rp_rows s' = rp_rows (made_room (co_session o') s) @ [cp\<lparr>cp_created := round_us now\<rparr>] \<and>
       rp_archives s' (we_archive_path we (co_session o') snap) = Some w)"
proof (cases "rp_work s (co_session o')")
  case None
  with create_allowed_alone [OF assms] show ?thesis by auto
next
  case (Some w)
  let ?path = "we_archive_path we (co_session o') snap" and ?s1 = "made_room (co_session o') s"
  from create_allowed_alone [OF assms] Some
  have "run_alone (replay_apply rc key we) RFailed (record_snapshot o' cid snap now ?path (we_pack we w)) []
      (?s1\<lparr>rp_archives := (rp_archives ?s1)(?path := Some w)\<rparr>) = (r, s')" by (simp add: Let_def)
  from record_snapshot_alone [OF this] Some show ?thesis
    by (auto simp: row_of_new_def split: sum.splits)
qed

lemma valid_prefix_short: "length (valid_prefix s n) \<le> n"
  by (induction n) auto

lemma truncated_short: "length (truncate_utf8 s n) \<le> n"
proof -
  have "cut_back s n \<le> n" by (induction n) auto
  with valid_prefix_short [of s "cut_back s n"] show ?thesis by (simp add: truncate_utf8_def)
qed

lemma redacted: "sensitive_key k \<Longrightarrow> redact_env_vars env k \<in> {None, Some ''[REDACTED]''}"
proof -
  assume "sensitive_key k"
  then have "map_of (map (\<lambda>(k, v). (k, if sensitive_key k then ''[REDACTED]'' else v)) es) k \<in> {None, Some ''[REDACTED]''}" for es
    by (induction es) auto
  then show ?thesis by (auto simp: redact_env_vars_def split: option.split)
qed

lemma made_room_subset: "set (rows_of sid (made_room sid s)) \<subseteq> set (rows_of sid s)"
  by (auto simp: made_room_rows split: option.splits)

lemma made_room_archive: "rp_archives (made_room sid s) path \<in> {None, rp_archives s path}"
  by (auto simp: made_room_def split: option.split)

lemma rows_of_append:
  "rp_rows s' = rp_rows s @ [cp] \<Longrightarrow> rows_of sid s' = rows_of sid s @ (if cp_session cp = sid then [cp] else [])"
  by (simp add: rows_of_def)

lemma rows_of_cong: "rp_rows s' = rp_rows s \<Longrightarrow> rows_of sid s' = rows_of sid s"
  by (simp add: rows_of_def)

text \<open>
  A creation of a checkpoint that runs alone and whose calls are all answered.  When it is
  refused at once (bad request, no such session, replay disabled) nothing changes.  A session with at
  most 50 checkpoints has at most 50 afterwards, other sessions keep theirs, and either the creation
  fails and leaves no new row and no archive, or it stores one row that names an archive of the present
  workspace, within the size limit, with a number above all earlier ones, at most 500 bytes of each
  output and no value of a variable with a sensitive name.
\<close>

theorem checkpoint_creation_outcome:
  assumes "run_alone (replay_apply rc key we) RFailed (create_checkpoint o' cid snap now) [] s = (r, s')"
    and "distinct (map cp_id (rp_rows s))" "int (length (rows_of (co_session o') s)) \<le> max_checkpoints"
  shows "(\<not> create_allowed o' s \<longrightarrow> s' = s) \<and>
    int (length (rows_of (co_session o') s')) \<le> max_checkpoints \<and>
    (\<forall>sid. sid \<noteq> co_session o' \<longrightarrow> rows_of sid s' = rows_of sid s) \<and>
    (case r of
       Inl e \<Rightarrow>
         set (rows_of (co_session o') s') \<subseteq> set (rows_of (co_session o') s) \<and>
         rp_archives s' (we_archive_path we (co_session o') snap)
           \<in> {None, rp_archives s (we_archive_path we (co_session o') snap)}
     | Inr cp \<Rightarrow>
         create_allowed o' s \<and>
         rows_of (co_session o') s' = rows_of (co_session o') (made_room (co_session o') s) @ [cp\<lparr>cp_created := round_us now\<rparr>] \<and>
         rp_work s (co_session o') \<noteq> None \<and> rp_archives s' (cp_archive cp) = rp_work s (co_session o') \<and>
         cp_size cp \<le> max_checkpoint_bytes \<and> (\<forall>x \<in> set (rows_of (co_session o') s). cp_number x < cp_number cp) \<and>
         length (cp_stdout cp) \<le> 500 \<and> length (cp_stderr cp) \<le> 500 \<and>
         (\<forall>k. sensitive_key k \<longrightarrow> cp_env cp k \<in> {None, Some ''[REDACTED]''}))"
proof (cases "create_allowed o' s")
  case False
  with create_refused_alone [OF assms(1)] assms(3) show ?thesis by (auto split: sum.split)
next
  case True
  let ?sid = "co_session o'" and ?s1 = "made_room (co_session o') s"
  note fewer = made_room_fewer [OF assms(3)] and others = made_room_others [OF assms(2)]
  from created_shape [OF assms(1) True] show ?thesis
  proof (elim disjE exE conjE)
    fix e
    assume r: "r = Inl e" and rows: "rp_rows s' = rp_rows ?s1"
      and arch: "rp_archives s' (we_archive_path we ?sid snap) \<in> {None, rp_archives ?s1 (we_archive_path we ?sid snap)}"
    from arch made_room_archive [of ?sid s "we_archive_path we ?sid snap"]
    have "rp_archives s' (we_archive_path we ?sid snap) \<in> {None, rp_archives s (we_archive_path we ?sid snap)}" by auto
    with r True fewer others made_room_subset [of ?sid s] show ?thesis
      by (simp add: rows_of_cong [OF rows])
  next
    fix w cp
    assume r: "r = Inr cp" "rp_work s ?sid = Some w" "we_pack we w \<le> max_checkpoint_bytes"
        "rp_archives s' (we_archive_path we ?sid snap) = Some w"
      and cp: "cp = row_of_new rc key (new_checkpoint o' cid snap now (we_archive_path we ?sid snap) (we_pack we w)) ?s1"
      and rows: "rp_rows s' = rp_rows ?s1 @ [cp\<lparr>cp_created := round_us now\<rparr>]"
    have "cp_session (cp\<lparr>cp_created := round_us now\<rparr>) = ?sid" by (simp add: cp row_of_new_parts new_checkpoint_parts)
    with rows_of_append [OF rows] r True fewer others show ?thesis
      by (auto simp: cp row_of_new_parts new_checkpoint_parts truncated_short next_number_made_room [OF assms(2)]
          dest: redacted [of _ "co_env o'"])
  qed
qed

lemma demo_creation:
  "run_alone (replay_apply (re_crypto demo_replay) (re_key demo_replay) demo_space) RFailed
     (create_checkpoint demo_opts ''c'' ''p'' 0) [] demo_replay_store =
   (Inr demo_signed,
    demo_replay_store\<lparr>rp_issued := [demo_signed], rp_rows := [demo_signed],
      rp_archives := (rp_archives demo_replay_store)(''s/p'' := Some ''files'')\<rparr>)"
  by (simp cong: Call_lazy add: replay_run_defs demo_source_parts demo_space_parts)

theorem checkpoint_creation_outcome_witness:
  "cp_size demo_signed \<le> max_checkpoint_bytes \<and> length (cp_stdout demo_signed) \<le> 500 \<and> create_allowed demo_opts demo_replay_store"
  using checkpoint_creation_outcome [OF demo_creation]
  by (simp add: demo_replay_store_def rows_of_def max_checkpoints_def)

section \<open>Truncation\<close>

text \<open>What is kept of an output is a prefix of it, and valid UTF-8 where it was cut.\<close>

lemma valid_prefix_prefix: "\<exists>m \<le> n. valid_prefix s n = take m s"
  by (induction n) (auto intro: le_SucI exI [of _ 0])

lemma valid_prefix_valid: "utf8_valid (valid_prefix s n)"
proof (induction n)
  case 0
  show ?case by (subst utf8_valid.simps) simp
qed simp

lemma truncated_valid: "length s \<le> n \<or> utf8_valid (truncate_utf8 s n)"
  by (simp add: truncate_utf8_def valid_prefix_valid)

lemma truncated_prefix: "prefix (truncate_utf8 s n) s"
proof -
  obtain m where "valid_prefix s (cut_back s n) = take m s" using valid_prefix_prefix by blast
  then show ?thesis by (auto simp: truncate_utf8_def take_is_prefix)
qed

section \<open>What else may happen\<close>

text \<open>
  When the insert took effect but its answer was lost, the archive is dropped although the row is there;
  the row can then be listed but no longer restored.
\<close>

lemma lost_insert_orphans_row:
  "run_alone (replay_apply (re_crypto demo_replay) (re_key demo_replay) demo_space) RFailed
     (create_checkpoint demo_opts ''c'' ''p'' 0) [CallAnswered, CallAnswered, CallAnswered, CallAnswered, CallReplyLost]
     demo_replay_store =
   (Inl ReplayFailed,
    demo_replay_store\<lparr>rp_issued := [demo_signed], rp_rows := [demo_signed], rp_archives := Map.empty\<rparr>)"
  by (simp cong: Call_lazy add: replay_run_defs demo_source_parts demo_space_parts fail_dropping_def)

text \<open>A creation that fails for its size has already removed the oldest checkpoint.\<close>

lemma refused_creation_prunes:
  assumes "create_allowed o' s" "max_checkpoints \<le> int (length (rows_of (co_session o') s))"
    and "rp_work s (co_session o') = Some w" "max_checkpoint_bytes < we_pack we w"
  shows "\<exists>s'. run_alone (replay_apply rc key we) RFailed (create_checkpoint o' cid snap now) [] s = (Inl CheckpointTooLarge, s') \<and>
     int (length (rows_of (co_session o') s')) < int (length (rows_of (co_session o') s))"
proof -
  obtain r s' where run: "run_alone (replay_apply rc key we) RFailed (create_checkpoint o' cid snap now) [] s = (r, s')"
    by fastforce
  obtain q where q: "oldest_row (co_session o') s = Some q"
    using assms(2) by (cases "oldest_row (co_session o') s") (auto simp: oldest_row_None max_checkpoints_def)
  from create_allowed_alone [OF run assms(1)] assms(3,4)
  have r: "r = Inl CheckpointTooLarge" and rows: "rp_rows s' = rp_rows (made_room (co_session o') s)"
    by (auto simp: Let_def record_snapshot_def)
  have "length (rows_of (co_session o') (made_room (co_session o') s)) < length (rows_of (co_session o') s)"
    using assms(2) q oldest_row_Some [OF q] by (auto simp: made_room_rows intro!: length_filter_less)
  with rows_of_cong [OF rows, of "co_session o'"] run r show ?thesis by simp
qed

text \<open>The member of an organisation who may only look at a session may still create checkpoints in it.\<close>

lemma viewer_creates:
  assumes "re_uuid ev raw = Some sid" "re_sessions ev sid = Found x" "s_org x = Some org"
    "re_roles ev org actor = Found ''viewer''" "cb_run_id b = None"
  shows "create_checkpoint_handler ev actor raw (Some b) cid snap now =
    pbind (create_checkpoint ((cb_opts b)\<lparr>co_session := sid, co_run := None\<rparr>) cid snap now) (\<lambda>r. Return (create_status r))"
    "\<not> may_replay ev executor_role actor x \<longleftrightarrow> actor \<noteq> master \<and> s_created_by x \<noteq> actor"
  using assms by (auto simp: create_checkpoint_handler_def with_session_def may_replay_def any_role_def executor_role_def)

end
