(* ===== verification/Templates.thy ===== *)
theory Templates
  imports Programs SessionCreate
begin

text \<open>
  \<open>internal/templates\<close>: session templates, the validation of requests that create and change them, and
  the manager as operations made of atomic database calls.  CPU limits are rationals, as in the sessions.

  \<open>cmd/api/handlers/templates.go\<close>: the endpoints for templates and for sessions made from them.
\<close>

section \<open>Templates\<close>

record template_resources =
  tr_cpu :: rat
  tr_memory :: int
  tr_timeout :: int

record template_network =
  tn_enabled :: bool
  tn_hosts :: "string list"

record template =
  tp_id :: string
  tp_slug :: string
  tp_name :: string
  tp_description :: string
  tp_category :: string
  tp_tags :: "string list"
  tp_image :: string
  tp_author :: string
  tp_org :: "string option"
  tp_version :: string
  tp_published :: bool
  tp_featured :: bool
  tp_uses :: int
  tp_resources :: template_resources
  tp_network :: template_network
  tp_environment :: "(string \<times> string) list"      \<comment> \<open>keys are distinct\<close>
  tp_policy :: string
  tp_packages :: "(string \<times> string list) list"
  tp_readme :: string
  tp_script :: string
  tp_created :: time
  tp_updated :: time

record create_template =
  ct_slug :: string
  ct_name :: string
  ct_description :: string
  ct_category :: string
  ct_tags :: "string list"
  ct_image :: string
  ct_version :: string
  ct_resources :: template_resources
  ct_network :: template_network
  ct_environment :: "(string \<times> string) list"
  ct_policy :: string
  ct_packages :: "(string \<times> string list) list"
  ct_readme :: string
  ct_script :: string

text \<open>\<open>None\<close> is a field that the request leaves out.\<close>

record update_template =
  ut_name :: "string option"
  ut_description :: "string option"
  ut_category :: "string option"
  ut_tags :: "string list option"
  ut_image :: "string option"
  ut_version :: "string option"
  ut_published :: "bool option"
  ut_featured :: "bool option"
  ut_resources :: "template_resources option"
  ut_network :: "template_network option"
  ut_environment :: "(string \<times> string) list option"
  ut_policy :: "string option"
  ut_packages :: "(string \<times> string list) list option"
  ut_readme :: "string option"
  ut_script :: "string option"

record template_filter =
  tf_category :: string
  tf_tags :: "string list"
  tf_search :: string
  tf_featured :: bool
  tf_published :: bool
  tf_limit :: int
  tf_offset :: int

datatype template_problem =
    BadSlug | BadName | BadDescription | BadCategory | BadImage | BadResources | BadHosts | BadTags | BadEnvironment | BadScript

datatype template_error = TemplateNotFound | SlugExists | InvalidTemplate "template_problem list" | TemplateFailed

section \<open>Validation\<close>

definition slug_char :: "char \<Rightarrow> bool" where
  "slug_char c \<longleftrightarrow> is_lower c \<or> is_digit c"

definition slug_pattern :: "string \<Rightarrow> bool" where
  "slug_pattern s \<longleftrightarrow> list_all (\<lambda>p. p \<noteq> [] \<and> list_all slug_char p) (split_on (CHR ''-'') s)"

definition slug_ok :: "string \<Rightarrow> bool" where
  "slug_ok s \<longleftrightarrow> s \<noteq> [] \<and> length s \<le> 100 \<and> slug_pattern s"

definition name_ok :: "string \<Rightarrow> bool" where
  "name_ok s \<longleftrightarrow> trim_space s \<noteq> [] \<and> length s \<le> 200"

definition contains_any :: "string \<Rightarrow> char list \<Rightarrow> bool" where
  "contains_any s cs \<longleftrightarrow> list_ex (\<lambda>c. c \<in> set cs) s"

definition image_char :: "char \<Rightarrow> bool" where
  "image_char c \<longleftrightarrow> is_alnum c \<or> c \<in> {CHR ''.'', CHR ''_'', CHR ''-'', CHR ''/'', CHR '':''}"

definition digest_mark :: string where
  "digest_mark = ''@sha256:''"

text \<open>The pattern has one \<open>@\<close>, so where the digest starts is determined.\<close>

definition image_ref_pattern :: "string \<Rightarrow> bool" where
  "image_ref_pattern s \<longleftrightarrow>
     (let b = takeWhile (\<lambda>c. c \<noteq> CHR ''@'') s; d = dropWhile (\<lambda>c. c \<noteq> CHR ''@'') s in
      b \<noteq> [] \<and> is_alnum (hd b) \<and> list_all image_char (tl b) \<and>
      (d = [] \<or> has_prefix d digest_mark \<and> length (drop (length digest_mark) d) = 64 \<and>
         list_all is_hex_lower (drop (length digest_mark) d)))"

definition image_schemes :: "string list" where
  "image_schemes = [''http://'', ''https://'', ''file://'', ''docker://'', ''oci://'', ''ftp://'']"

definition image_blanks :: "char list" where
  "image_blanks = [CHR '' '', CHR 0x09, CHR 0x0A, CHR 0x0D, CHR 0x00]"

definition shell_chars :: "char list" where
  "shell_chars = ''$;|&`<>(){}[]!*?'' @ [CHR 0x22, CHR 0x27, CHR 0x5C]"

definition image_ok :: "string \<Rightarrow> bool" where
  "image_ok s \<longleftrightarrow>
     s \<noteq> [] \<and> length s \<le> 500 \<and> \<not> list_ex (has_prefix (to_lower s)) image_schemes \<and> \<not> contains_any s image_blanks \<and>
     \<not> contains_any s shell_chars \<and> \<not> contains s ''..'' \<and> image_ref_pattern s"

definition resources_ok :: "template_resources \<Rightarrow> bool" where
  "resources_ok r \<longleftrightarrow>
     0 < tr_cpu r \<and> tr_cpu r \<le> 64 \<and> 0 < tr_memory r \<and> tr_memory r \<le> 262144 \<and> 0 < tr_timeout r \<and> tr_timeout r \<le> 86400"

definition host_entry_ok :: "string \<Rightarrow> bool" where
  "host_entry_ok h \<longleftrightarrow> h \<noteq> [] \<and> \<not> contains h ''://'' \<and> \<not> contains_any h (image_blanks @ [CHR ''/'']) \<and> h \<noteq> ''*''"

definition network_ok :: "template_network \<Rightarrow> bool" where
  "network_ok n \<longleftrightarrow> length (tn_hosts n) \<le> 100 \<and> list_all host_entry_ok (tn_hosts n)"

definition tags_ok :: "string list \<Rightarrow> bool" where
  "tags_ok ts \<longleftrightarrow> length ts \<le> 20 \<and> list_all (\<lambda>t. trim_space t \<noteq> [] \<and> length t \<le> 50) ts"

definition env_key_ok :: "string \<Rightarrow> bool" where
  "env_key_ok k \<longleftrightarrow>
     (case k of
        [] \<Rightarrow> False
      | c # cs \<Rightarrow> (is_alnum c \<or> c = CHR ''_'') \<and> \<not> is_digit c \<and> list_all (\<lambda>x. is_alnum x \<or> x = CHR ''_'') cs)"

definition environment_ok :: "(string \<times> string) list \<Rightarrow> bool" where
  "environment_ok env \<longleftrightarrow> length env \<le> 100 \<and> list_all (\<lambda>(k, _). env_key_ok k) env"

definition script_ok :: "string \<Rightarrow> bool" where
  "script_ok s \<longleftrightarrow> length s \<le> 65536"

definition problem_unless :: "bool \<Rightarrow> template_problem \<Rightarrow> template_problem list" where
  "problem_unless ok p = (if ok then [] else [p])"

definition validate_create :: "create_template \<Rightarrow> template_problem list" where
  "validate_create r =
     problem_unless (slug_ok (ct_slug r)) BadSlug @ problem_unless (name_ok (ct_name r)) BadName @
     problem_unless (trim_space (ct_description r) \<noteq> []) BadDescription @
     problem_unless (trim_space (ct_category r) \<noteq> []) BadCategory @ problem_unless (image_ok (ct_image r)) BadImage @
     problem_unless (resources_ok (ct_resources r)) BadResources @ problem_unless (network_ok (ct_network r)) BadHosts @
     problem_unless (tags_ok (ct_tags r)) BadTags @ problem_unless (environment_ok (ct_environment r)) BadEnvironment @
     problem_unless (script_ok (ct_script r)) BadScript"

definition if_given :: "('a \<Rightarrow> bool) \<Rightarrow> 'a option \<Rightarrow> bool" where
  "if_given ok x = (case x of None \<Rightarrow> True | Some v \<Rightarrow> ok v)"

definition validate_update :: "update_template \<Rightarrow> template_problem list" where
  "validate_update u =
     problem_unless (if_given name_ok (ut_name u)) BadName @
     problem_unless (if_given (\<lambda>d. trim_space d \<noteq> []) (ut_description u)) BadDescription @
     problem_unless (if_given image_ok (ut_image u)) BadImage @
     problem_unless (if_given resources_ok (ut_resources u)) BadResources @
     problem_unless (if_given network_ok (ut_network u)) BadHosts @
     problem_unless (if_given tags_ok (ut_tags u)) BadTags @
     problem_unless (if_given environment_ok (ut_environment u)) BadEnvironment @
     problem_unless (if_given script_ok (ut_script u)) BadScript"

section \<open>The database\<close>

text \<open>A session with the template it is linked to.\<close>

record template_store =
  st_templates :: "template list"
  st_sessions :: "(session_record \<times> string option) list"
  st_usage :: "(string \<times> string \<times> string option) list"
  st_work :: "string list"

datatype template_call =
    SlugTaken string
  | InsertTemplate template
  | GetTemplate string
  | GetBySlug string
  | ListTemplates template_filter int int
  | UpdateTemplate string update_template time
  | DeleteTemplate string
  | RecordUse string string "string option"
  | TemplateKnown string
  | NewWork string
  | DropWork string
  | InsertSession session_record
  | LinkTemplate string string

datatype template_answer =
    TFailed
  | TNone
  | TDone
  | TFlag bool
  | TNum int
  | TPath string
  | TRow template
  | TRows "template list"

text \<open>What the columns hold: characters are counted, and no text has NUL.\<close>

definition fits_columns :: "template \<Rightarrow> bool" where
  "fits_columns t \<longleftrightarrow>
     rune_count (tp_slug t) \<le> 100 \<and> rune_count (tp_name t) \<le> 200 \<and> rune_count (tp_category t) \<le> 50 \<and>
     rune_count (tp_image t) \<le> 500 \<and> rune_count (tp_author t) \<le> 200 \<and> rune_count (tp_version t) \<le> 20 \<and>
     list_all (\<lambda>s. CHR 0x00 \<notin> set s)
       (tp_slug t # tp_name t # tp_description t # tp_category t # tp_image t # tp_author t # tp_version t # tp_policy t #
        tp_readme t # tp_script t # tp_tags t @ tn_hosts (tp_network t) @
        concat (map (\<lambda>(k, v). [k, v]) (tp_environment t)) @ concat (map (\<lambda>(k, vs). k # vs) (tp_packages t)))"

definition given :: "'a option \<Rightarrow> 'a \<Rightarrow> 'a" where
  "given x old = (case x of None \<Rightarrow> old | Some v \<Rightarrow> v)"

text \<open>The assignments of the \<open>UPDATE\<close> statement.\<close>

definition updated_row :: "update_template \<Rightarrow> time \<Rightarrow> template \<Rightarrow> template" where
  "updated_row u now t =
     t\<lparr>tp_name := given (ut_name u) (tp_name t), tp_description := given (ut_description u) (tp_description t),
       tp_category := given (ut_category u) (tp_category t), tp_tags := given (ut_tags u) (tp_tags t),
       tp_image := given (ut_image u) (tp_image t), tp_version := given (ut_version u) (tp_version t),
       tp_published := given (ut_published u) (tp_published t), tp_featured := given (ut_featured u) (tp_featured t),
       tp_resources := given (ut_resources u) (tp_resources t), tp_network := given (ut_network u) (tp_network t),
       tp_environment := given (ut_environment u) (tp_environment t), tp_policy := given (ut_policy u) (tp_policy t),
       tp_packages := given (ut_packages u) (tp_packages t), tp_readme := given (ut_readme u) (tp_readme t),
       tp_script := given (ut_script u) (tp_script t), tp_updated := now\<rparr>"

text \<open>\<open>like\<close> is \<open>ILIKE\<close> of Postgres, on a text and a pattern.\<close>

definition matches_filter :: "(string \<Rightarrow> string \<Rightarrow> bool) \<Rightarrow> template_filter \<Rightarrow> template \<Rightarrow> bool" where
  "matches_filter like f t \<longleftrightarrow>
     (tf_category f \<noteq> [] \<longrightarrow> tp_category t = tf_category f) \<and>
     (tf_tags f \<noteq> [] \<longrightarrow> list_ex (\<lambda>x. x \<in> set (tf_tags f)) (tp_tags t)) \<and>
     (tf_search f \<noteq> [] \<longrightarrow>
        (let pat = ''%'' @ tf_search f @ ''%'' in like (tp_name t) pat \<or> like (tp_description t) pat)) \<and>
     (tf_featured f \<longrightarrow> tp_featured t) \<and> (tf_published f \<longrightarrow> tp_published t)"

text \<open>\<open>ORDER BY\<close> with three keys is three stable sorts.\<close>

definition market_order :: "template list \<Rightarrow> template list" where
  "market_order ts =
     sort_key (\<lambda>t. \<not> tp_featured t) (sort_key (\<lambda>t. - tp_uses t) (sort_key (\<lambda>t. - tp_created t) ts))"

definition find_template :: "(template \<Rightarrow> bool) \<Rightarrow> template_store \<Rightarrow> template_answer" where
  "find_template P s = (case List.find P (st_templates s) of None \<Rightarrow> TNone | Some t \<Rightarrow> TRow t)"

text \<open>The trigger that counts uses is part of the insert.\<close>

fun template_apply ::
  "(string \<Rightarrow> string \<Rightarrow> bool) \<Rightarrow> (string \<Rightarrow> string) \<Rightarrow> template_call \<Rightarrow> template_store \<Rightarrow> template_answer \<times> template_store" where
  "template_apply like path (SlugTaken slug) s = (TFlag (list_ex (\<lambda>t. tp_slug t = slug) (st_templates s)), s)"
| "template_apply like path (InsertTemplate t) s =
     (if list_ex (\<lambda>x. tp_id x = tp_id t \<or> tp_slug x = tp_slug t) (st_templates s) \<or> \<not> fits_columns t then (TFailed, s)
      else (TDone, s\<lparr>st_templates := st_templates s @ [t]\<rparr>))"
| "template_apply like path (GetTemplate i) s = (find_template (\<lambda>t. tp_id t = i) s, s)"
| "template_apply like path (GetBySlug slug) s = (find_template (\<lambda>t. tp_slug t = slug) s, s)"
| "template_apply like path (ListTemplates f limit offset) s =
     (TRows (take (nat limit) (drop (nat offset) (market_order (filter (matches_filter like f) (st_templates s))))), s)"
| "template_apply like path (UpdateTemplate i u now) s =
     (let ts = map (\<lambda>t. if tp_id t = i then updated_row u now t else t) (st_templates s) in
      if list_all fits_columns ts then (TDone, s\<lparr>st_templates := ts\<rparr>) else (TFailed, s))"
| "template_apply like path (DeleteTemplate i) s =
     (TNum (int (length (filter (\<lambda>t. tp_id t = i) (st_templates s)))),
      s\<lparr>st_templates := filter (\<lambda>t. tp_id t \<noteq> i) (st_templates s)\<rparr>)"
| "template_apply like path (RecordUse i sid org) s =
     (if \<not> list_ex (\<lambda>t. tp_id t = i) (st_templates s) \<or> \<not> list_ex (\<lambda>(r, _). sr_id r = sid) (st_sessions s) then (TFailed, s)
      else (TDone,
        s\<lparr>st_usage := (i, sid, org) # st_usage s,
          st_templates := map (\<lambda>t. if tp_id t = i then t\<lparr>tp_uses := tp_uses t + 1\<rparr> else t) (st_templates s)\<rparr>))"
| "template_apply like path (TemplateKnown i) s = (TFlag (list_ex (\<lambda>t. tp_id t = i) (st_templates s)), s)"
| "template_apply like path (NewWork sid) s = (TPath (path sid), s\<lparr>st_work := sid # st_work s\<rparr>)"
| "template_apply like path (DropWork sid) s = (TDone, s\<lparr>st_work := removeAll sid (st_work s)\<rparr>)"
| "template_apply like path (InsertSession r) s =
     (if list_ex (\<lambda>(x, _). sr_id x = sr_id r) (st_sessions s) then (TFailed, s)
      else (TDone, s\<lparr>st_sessions := st_sessions s @ [(r, None)]\<rparr>))"
| "template_apply like path (LinkTemplate i sid) s =
     (if list_ex (\<lambda>(r, _). sr_id r = sid) (st_sessions s) \<and> \<not> list_ex (\<lambda>t. tp_id t = i) (st_templates s) then (TFailed, s)
      else (TDone, s\<lparr>st_sessions := map (\<lambda>(r, l). if sr_id r = sid then (r, Some i) else (r, l)) (st_sessions s)\<rparr>))"

type_synonym 'r template_prog = "(template_call, template_answer, 'r) prog"

section \<open>The manager\<close>

definition new_template :: "string option \<Rightarrow> create_template \<Rightarrow> string \<Rightarrow> time \<Rightarrow> template" where
  "new_template org r i now =
     \<lparr> tp_id = i, tp_slug = ct_slug r, tp_name = ct_name r, tp_description = ct_description r, tp_category = ct_category r,
        tp_tags = ct_tags r, tp_image = ct_image r, tp_author = ''Custom'', tp_org = org,
        tp_version = (if ct_version r = [] then ''1.0.0'' else ct_version r), tp_published = False, tp_featured = False,
        tp_uses = 0, tp_resources = ct_resources r, tp_network = ct_network r, tp_environment = ct_environment r,
        tp_policy = ct_policy r, tp_packages = ct_packages r, tp_readme = ct_readme r, tp_script = ct_script r,
        tp_created = now, tp_updated = now \<rparr>"

definition create_template_op ::
  "string option \<Rightarrow> create_template \<Rightarrow> string \<Rightarrow> time \<Rightarrow> (template_error + template) template_prog" where
  "create_template_op org r i now =
     (if validate_create r \<noteq> [] then Return (Inl (InvalidTemplate (validate_create r)))
      else Call (SlugTaken (ct_slug r)) (\<lambda>a.
        case a of
          TFlag taken \<Rightarrow>
            if taken then Return (Inl SlugExists)
            else Call (InsertTemplate (new_template org r i now)) (\<lambda>b.
              Return (if b = TFailed then Inl TemplateFailed else Inr (new_template org r i now)))
        | _ \<Rightarrow> Return (Inl TemplateFailed)))"

definition found_template :: "template_answer \<Rightarrow> template_error + template" where
  "found_template a = (case a of TRow t \<Rightarrow> Inr t | TNone \<Rightarrow> Inl TemplateNotFound | _ \<Rightarrow> Inl TemplateFailed)"

definition get_template :: "string \<Rightarrow> (template_error + template) template_prog" where
  "get_template i = Call (GetTemplate i) (\<lambda>a. Return (found_template a))"

definition get_by_slug :: "string \<Rightarrow> (template_error + template) template_prog" where
  "get_by_slug slug = Call (GetBySlug slug) (\<lambda>a. Return (found_template a))"

definition page_limit :: "int \<Rightarrow> int" where
  "page_limit n = (if n \<le> 0 \<or> 100 < n then 20 else n)"

definition list_templates :: "template_filter \<Rightarrow> (template_error + template list) template_prog" where
  "list_templates f =
     Call (ListTemplates f (page_limit (tf_limit f)) (max 0 (tf_offset f))) (\<lambda>a.
       Return (case a of TRows ts \<Rightarrow> Inr ts | _ \<Rightarrow> Inl TemplateFailed))"

definition nothing_given :: "update_template \<Rightarrow> bool" where
  "nothing_given u \<longleftrightarrow>
     ut_name u = None \<and> ut_description u = None \<and> ut_category u = None \<and> ut_tags u = None \<and> ut_image u = None \<and>
     ut_version u = None \<and> ut_published u = None \<and> ut_featured u = None \<and> ut_resources u = None \<and> ut_network u = None \<and>
     ut_environment u = None \<and> ut_policy u = None \<and> ut_packages u = None \<and> ut_readme u = None \<and> ut_script u = None"

definition update_template_op :: "string \<Rightarrow> update_template \<Rightarrow> time \<Rightarrow> (template_error + template) template_prog" where
  "update_template_op i u now =
     (if validate_update u \<noteq> [] then Return (Inl (InvalidTemplate (validate_update u)))
      else pbind (get_template i) (\<lambda>r.
        case r of
          Inl e \<Rightarrow> Return (Inl e)
        | Inr t \<Rightarrow>
            if nothing_given u then Return (Inr t)
            else Call (UpdateTemplate i u now) (\<lambda>a.
              if a = TFailed then Return (Inl TemplateFailed) else get_template i)))"

definition delete_template_op :: "string \<Rightarrow> (template_error + unit) template_prog" where
  "delete_template_op i =
     Call (DeleteTemplate i) (\<lambda>a.
       Return (case a of
         TNum n \<Rightarrow> if n = 0 then Inl TemplateNotFound else Inr ()
       | _ \<Rightarrow> Inl TemplateFailed))"

definition record_usage :: "string \<Rightarrow> string \<Rightarrow> string option \<Rightarrow> (template_error + unit) template_prog" where
  "record_usage i sid org = Call (RecordUse i sid org) (\<lambda>a. Return (if a = TFailed then Inl TemplateFailed else Inr ()))"

section \<open>Built-in templates\<close>

definition built_in ::
  "string \<Rightarrow> string \<Rightarrow> string \<Rightarrow> string \<Rightarrow> string \<Rightarrow> string list \<Rightarrow> string \<Rightarrow> bool \<Rightarrow> template_resources \<Rightarrow> string list \<Rightarrow>
   string \<Rightarrow> (string \<times> string list) list \<Rightarrow> string \<Rightarrow> template" where
  "built_in i slug name descr cat tags img feat res hosts pol packages readme =
     \<lparr> tp_id = i, tp_slug = slug, tp_name = name, tp_description = descr, tp_category = cat, tp_tags = tags, tp_image = img,
        tp_author = ''VaultRun Team'', tp_org = None, tp_version = ''1.0.0'', tp_published = True, tp_featured = feat,
        tp_uses = 0, tp_resources = res, tp_network = \<lparr> tn_enabled = True, tn_hosts = hosts \<rparr>, tp_environment = [],
        tp_policy = pol, tp_packages = packages, tp_readme = readme, tp_script = [], tp_created = 0, tp_updated = 0 \<rparr>"

text \<open>The readme texts, line by line.\<close>

definition python_readme :: string where
  "python_readme = join_with [CHR 0x0A]
     [''# Python Data Science'',
      [],
      ''Pre-configured for data analysis and machine learning.'',
      [],
      ''## Included'',
      ''- Python 3.12'',
      ''- Jupyter Lab'',
      ''- pandas, numpy, matplotlib'',
      ''- scikit-learn, seaborn'']"

definition node_readme :: string where
  "node_readme = join_with [CHR 0x0A]
     [''# Node.js API Development'',
      [],
      ''Pre-configured for REST API development.'',
      [],
      ''## Included'',
      ''- Node.js 20'',
      ''- TypeScript'',
      ''- Express'',
      ''- Common type definitions'']"

definition scraping_readme :: string where
  "scraping_readme = join_with [CHR 0x0A]
     [''# Web Scraping'',
      [],
      ''Headless Chrome with Playwright for web scraping.'',
      [],
      ''## Included'',
      ''- Python 3.12'',
      ''- Playwright + Chromium'',
      ''- BeautifulSoup4'',
      ''- Requests'']"

definition rust_readme :: string where
  "rust_readme = join_with [CHR 0x0A]
     [''# Rust Development'',
      [],
      ''Latest Rust with cargo.'',
      [],
      ''## Included'',
      ''- Latest Rust stable'',
      ''- cargo'',
      ''- Common crates pre-cached'']"

definition built_in_templates :: "template list" where
  "built_in_templates =
     [built_in ''00000000-0000-0000-0000-000000000001'' ''python-data-science'' ''Python Data Science''
        ''Python 3.12 with Jupyter, pandas, numpy, matplotlib, and scikit-learn'' ''data-science''
        [''python'', ''jupyter'', ''machine-learning'', ''data-analysis''] ''python:3.12-slim'' True
        \<lparr> tr_cpu = 2, tr_memory = 4096, tr_timeout = 7200 \<rparr> [''github.com'', ''pypi.org'']
        ''Python data science environment. Allow github.com and pypi.org. Max 2 CPU, 4GB RAM, 2 hour timeout.''
        [(''python'', [''jupyter'', ''pandas'', ''numpy'', ''matplotlib'', ''scikit-learn'', ''seaborn''])] python_readme,
      built_in ''00000000-0000-0000-0000-000000000002'' ''nodejs-api'' ''Node.js API Development''
        ''Node.js 20 with Express, TypeScript, and common API tools'' ''web-dev''
        [''nodejs'', ''typescript'', ''api'', ''express''] ''node:20-slim'' True
        \<lparr> tr_cpu = 2, tr_memory = 2048, tr_timeout = 3600 \<rparr> [''github.com'', ''registry.npmjs.org'']
        ''Node.js API development. Allow github.com and npm registry. Max 2 CPU, 2GB RAM, 1 hour timeout.''
        [(''npm'', [''express'', ''typescript'', ''ts-node'', ''@types/node'', ''@types/express''])] node_readme,
      built_in ''00000000-0000-0000-0000-000000000003'' ''web-scraping'' ''Web Scraping''
        ''Python with Playwright and headless Chrome for web scraping'' ''automation''
        [''python'', ''playwright'', ''scraping'', ''browser''] ''vaultrun/browser:playwright-python'' True
        \<lparr> tr_cpu = 2, tr_memory = 4096, tr_timeout = 1800 \<rparr> []
        ''Web scraping environment. Network enabled. Max 2 CPU, 4GB RAM, 30 minute timeout.''
        [(''python'', [''playwright'', ''beautifulsoup4'', ''requests'', ''lxml''])] scraping_readme,
      built_in ''00000000-0000-0000-0000-000000000004'' ''rust-dev'' ''Rust Development''
        ''Latest Rust with cargo and common crates'' ''development''
        [''rust'', ''cargo'', ''systems''] ''rust:latest'' False
        \<lparr> tr_cpu = 4, tr_memory = 8192, tr_timeout = 3600 \<rparr> [''github.com'', ''crates.io'']
        ''Rust development. Allow github.com and crates.io. Max 4 CPU, 8GB RAM for compilation.''
        [(''cargo'', [''serde'', ''tokio'', ''reqwest''])] rust_readme]"

primrec bootstrap :: "time \<Rightarrow> template list \<Rightarrow> (template_error + unit) template_prog" where
  "bootstrap now [] = Return (Inr ())"
| "bootstrap now (t # ts) =
     Call (TemplateKnown (tp_id t)) (\<lambda>a.
       case a of
         TFlag known \<Rightarrow>
           if known then bootstrap now ts
           else Call (InsertTemplate (t\<lparr>tp_created := now, tp_updated := now\<rparr>)) (\<lambda>b.
             if b = TFailed then Return (Inl TemplateFailed) else bootstrap now ts)
       | _ \<Rightarrow> Return (Inl TemplateFailed))"

section \<open>Surroundings and replies\<close>

text \<open>\<open>tv_first_org\<close> is the organisation a principal joined first.\<close>

record template_env =
  tv_uuid :: "string \<Rightarrow> string option"
  tv_roles :: member_roles
  tv_first_org :: "string \<Rightarrow> string lookup"
  tv_limits :: session_limits
  tv_images :: "string list"
  tv_equal_fold :: "string \<Rightarrow> string \<Rightarrow> bool"
  tv_active :: "string \<Rightarrow> nat option"

datatype template_reply =
    TStatus int
  | TemplateList "template list"
  | TemplateShown template
  | TemplateMade template
  | TemplateChanged template
  | TemplateGone
  | SessionMade session_record template

definition caller_org :: "template_env \<Rightarrow> string \<Rightarrow> unit + string option" where
  "caller_org ev actor =
     (if actor = master then Inr None
      else case tv_first_org ev actor of NoRows \<Rightarrow> Inr None | DbError \<Rightarrow> Inl () | Found org \<Rightarrow> Inr (Some org))"

definition may_read :: "template_env \<Rightarrow> string \<Rightarrow> template \<Rightarrow> bool" where
  "may_read ev actor t \<longleftrightarrow>
     actor = master \<or> tp_published t \<or>
     (case tp_org t of None \<Rightarrow> False | Some org \<Rightarrow> (case tv_roles ev org actor of Found _ \<Rightarrow> True | _ \<Rightarrow> False))"

definition may_administer :: "template_env \<Rightarrow> string \<Rightarrow> template \<Rightarrow> bool" where
  "may_administer ev actor t \<longleftrightarrow>
     actor = master \<or>
     (case tp_org t of
        None \<Rightarrow> False
      | Some org \<Rightarrow> (case tv_roles ev org actor of Found role \<Rightarrow> role_at_least role ''admin'' | _ \<Rightarrow> False))"

section \<open>Reading\<close>

definition list_templates_handler :: "string \<Rightarrow> template_filter option \<Rightarrow> template_reply template_prog" where
  "list_templates_handler actor query =
     (case query of
        None \<Rightarrow> Return (TStatus 400)
      | Some f \<Rightarrow>
          pbind (list_templates (if actor \<noteq> master \<and> \<not> tf_published f then f\<lparr>tf_published := True\<rparr> else f)) (\<lambda>r.
            Return (case r of Inl _ \<Rightarrow> TStatus 500 | Inr ts \<Rightarrow> TemplateList ts)))"

text \<open>The template of a request: 404 when there is none.\<close>

definition with_template ::
  "(template_error + template) template_prog \<Rightarrow> (template \<Rightarrow> template_reply template_prog) \<Rightarrow> template_reply template_prog" where
  "with_template get p =
     pbind get (\<lambda>r.
       case r of
         Inl TemplateNotFound \<Rightarrow> Return (TStatus 404)
       | Inl _ \<Rightarrow> Return (TStatus 500)
       | Inr t \<Rightarrow> p t)"

definition show_template :: "template_env \<Rightarrow> string \<Rightarrow> template \<Rightarrow> template_reply template_prog" where
  "show_template ev actor t = (if \<not> may_read ev actor t then Return (TStatus 404) else Return (TemplateShown t))"

definition get_template_handler :: "template_env \<Rightarrow> string \<Rightarrow> string \<Rightarrow> template_reply template_prog" where
  "get_template_handler ev actor raw =
     (case tv_uuid ev raw of
        None \<Rightarrow> Return (TStatus 400)
      | Some i \<Rightarrow> with_template (get_template i) (show_template ev actor))"

definition get_by_slug_handler :: "template_env \<Rightarrow> string \<Rightarrow> string \<Rightarrow> template_reply template_prog" where
  "get_by_slug_handler ev actor slug = with_template (get_by_slug slug) (show_template ev actor)"

section \<open>Creating, changing, deleting\<close>

text \<open>The fields that the binding requires.\<close>

definition bound_create :: "create_template \<Rightarrow> bool" where
  "bound_create r \<longleftrightarrow>
     ct_slug r \<noteq> [] \<and> ct_name r \<noteq> [] \<and> ct_description r \<noteq> [] \<and> ct_category r \<noteq> [] \<and> ct_image r \<noteq> []"

definition template_create_status :: "template_error + template \<Rightarrow> template_reply" where
  "template_create_status r =
     (case r of
        Inl SlugExists \<Rightarrow> TStatus 409
      | Inl (InvalidTemplate _) \<Rightarrow> TStatus 400
      | Inl _ \<Rightarrow> TStatus 500
      | Inr t \<Rightarrow> TemplateMade t)"

definition create_template_handler ::
  "template_env \<Rightarrow> string \<Rightarrow> create_template option \<Rightarrow> string \<Rightarrow> time \<Rightarrow> template_reply template_prog" where
  "create_template_handler ev actor body i now =
     (case body of
        None \<Rightarrow> Return (TStatus 400)
      | Some r \<Rightarrow>
          if \<not> bound_create r then Return (TStatus 400)
          else (case caller_org ev actor of
             Inl _ \<Rightarrow> Return (TStatus 500)
           | Inr org \<Rightarrow> pbind (create_template_op org r i now) (\<lambda>q. Return (template_create_status q))))"

definition template_update_status :: "template_error + template \<Rightarrow> template_reply" where
  "template_update_status r =
     (case r of
        Inl TemplateNotFound \<Rightarrow> TStatus 404
      | Inl (InvalidTemplate _) \<Rightarrow> TStatus 400
      | Inl _ \<Rightarrow> TStatus 500
      | Inr t \<Rightarrow> TemplateChanged t)"

definition update_template_handler ::
  "template_env \<Rightarrow> string \<Rightarrow> string \<Rightarrow> update_template option \<Rightarrow> time \<Rightarrow> template_reply template_prog" where
  "update_template_handler ev actor raw body now =
     (case tv_uuid ev raw of
        None \<Rightarrow> Return (TStatus 400)
      | Some i \<Rightarrow>
          (case body of
             None \<Rightarrow> Return (TStatus 400)
           | Some u \<Rightarrow>
               with_template (get_template i) (\<lambda>t.
                 if \<not> may_administer ev actor t then Return (TStatus 403)
                 else pbind (update_template_op i u now) (\<lambda>q. Return (template_update_status q)))))"

definition template_delete_status :: "template_error + unit \<Rightarrow> template_reply" where
  "template_delete_status r =
     (case r of
        Inl TemplateNotFound \<Rightarrow> TStatus 404
      | Inl _ \<Rightarrow> TStatus 500
      | Inr _ \<Rightarrow> TemplateGone)"

definition delete_template_handler :: "template_env \<Rightarrow> string \<Rightarrow> string \<Rightarrow> template_reply template_prog" where
  "delete_template_handler ev actor raw =
     (case tv_uuid ev raw of
        None \<Rightarrow> Return (TStatus 400)
      | Some i \<Rightarrow>
          with_template (get_template i) (\<lambda>t.
            if \<not> may_administer ev actor t then Return (TStatus 403)
            else pbind (delete_template_op i) (\<lambda>q. Return (template_delete_status q))))"

section \<open>Sessions from templates\<close>

text \<open>The status that refuses the session, if any.\<close>

definition enforce_session_policy :: "template_env \<Rightarrow> string \<Rightarrow> template \<Rightarrow> int option" where
  "enforce_session_policy ev actor t =
     (let l = tv_limits ev; r = tp_resources t in
      if ml_cpu l < tr_cpu r then Some 400
      else if ml_memory l < tr_memory r then Some 400
      else if ml_timeout l < tr_timeout r then Some 400
      else if \<not> image_allowed (tv_equal_fold ev) (tv_images ev) (tp_image t) then Some 400
      else if 0 < ml_sessions l \<and> actor \<noteq> master
        then (case tv_active ev actor of
                None \<Rightarrow> Some 500
              | Some n \<Rightarrow> if ml_sessions l \<le> int n then Some 429 else None)
      else None)"

definition template_session ::
  "string \<Rightarrow> string option \<Rightarrow> template \<Rightarrow> string \<Rightarrow> string \<Rightarrow> string \<Rightarrow> session_record" where
  "template_session actor org t name sid path =
     \<lparr> sr_id = sid, sr_name = Some (if name = [] then ''Session from '' @ tp_name t else name), sr_image = tp_image t,
        sr_network = tn_enabled (tp_network t), sr_cpu = tr_cpu (tp_resources t), sr_memory = tr_memory (tp_resources t),
        sr_timeout = tr_timeout (tp_resources t), sr_workspace = path, sr_labels = [], sr_hosts = tn_hosts (tp_network t),
        sr_created_by = actor, sr_org = org, sr_replay = False \<rparr>"

definition link_session :: "string \<Rightarrow> session_record \<Rightarrow> template \<Rightarrow> template_reply template_prog" where
  "link_session i row t =
     Call (LinkTemplate i (sr_id row)) (\<lambda>a.
       if a = TFailed then Return (TStatus 500)
       else pbind (record_usage i (sr_id row) (sr_org row)) (\<lambda>_. Return (SessionMade row t)))"

definition store_session :: "string \<Rightarrow> session_record \<Rightarrow> template \<Rightarrow> template_reply template_prog" where
  "store_session i row t =
     Call (InsertSession row) (\<lambda>a.
       if a = TFailed then Call (DropWork (sr_id row)) (\<lambda>_. Return (TStatus 500))
       else link_session i row t)"

text \<open>\<open>name\<close> is what the optional body asks for, empty otherwise.\<close>

definition use_template_handler ::
  "template_env \<Rightarrow> string \<Rightarrow> string \<Rightarrow> string \<Rightarrow> string \<Rightarrow> template_reply template_prog" where
  "use_template_handler ev actor raw name sid =
     (case tv_uuid ev raw of
        None \<Rightarrow> Return (TStatus 400)
      | Some i \<Rightarrow>
          with_template (get_template i) (\<lambda>t.
            if \<not> may_read ev actor t then Return (TStatus 404)
            else (case enforce_session_policy ev actor t of
               Some code \<Rightarrow> Return (TStatus code)
             | None \<Rightarrow>
                 (case caller_org ev actor of
                    Inl _ \<Rightarrow> Return (TStatus 500)
                  | Inr org \<Rightarrow>
                      Call (NewWork sid) (\<lambda>a.
                        case a of
                          TPath path \<Rightarrow> store_session i (template_session actor org t name sid path) t
                        | _ \<Rightarrow> Return (TStatus 500))))))"

section \<open>Start-up\<close>

text \<open>The server only logs when the built-in templates cannot be stored.\<close>

definition start_templates :: "time \<Rightarrow> template_reply template_prog" where
  "start_templates now =
     pbind (bootstrap now built_in_templates) (\<lambda>r. Return (TStatus (if is_ok r then 0 else 1)))"

end
