(* ===== verification/TemplateProps.thy ===== *)
theory TemplateProps
  imports Templates RunsHandler
begin

text \<open>
  What every operation on templates checks before its calls, and what therefore holds of all templates
  and of the sessions made from them.

  Templates over all interleavings: all stored templates stay valid, and only those with the right to
  do so change them, see drafts or make sessions.  What sessions made from templates lack.
\<close>

section \<open>Valid templates\<close>

text \<open>The category is not in the list: an update may blank it.\<close>

definition template_ok :: "template \<Rightarrow> bool" where
  "template_ok t \<longleftrightarrow>
     slug_ok (tp_slug t) \<and> name_ok (tp_name t) \<and> trim_space (tp_description t) \<noteq> [] \<and> image_ok (tp_image t) \<and>
     resources_ok (tp_resources t) \<and> network_ok (tp_network t) \<and> tags_ok (tp_tags t) \<and>
     environment_ok (tp_environment t) \<and> script_ok (tp_script t)"

lemma no_problem [simp]: "problem_unless ok p = [] \<longleftrightarrow> ok"
  by (simp add: problem_unless_def)

lemma if_given_given: "if_given ok x \<Longrightarrow> ok old \<Longrightarrow> ok (given x old)"
  by (auto simp: if_given_def given_def split: option.splits)

lemma new_template_ok: "validate_create r = [] \<Longrightarrow> template_ok (new_template org r i now)"
  by (simp add: validate_create_def template_ok_def new_template_def)

lemma updated_row_ok:
  assumes "validate_update u = []" "template_ok t"
  shows "template_ok (updated_row u now t)"
  using assms if_given_given [of "\<lambda>d. trim_space d \<noteq> []" "ut_description u" "tp_description t"]
  by (simp add: validate_update_def template_ok_def updated_row_def if_given_given)

lemma updated_row_keeps [simp]:
  "tp_id (updated_row u now t) = tp_id t" "tp_slug (updated_row u now t) = tp_slug t" "tp_org (updated_row u now t) = tp_org t"
  by (simp_all add: updated_row_def)

lemma template_ok_free [simp]:
  "template_ok (t\<lparr>tp_uses := n\<rparr>) = template_ok t" "template_ok (t\<lparr>tp_org := o'\<rparr>) = template_ok t"
  "template_ok (t\<lparr>tp_created := a, tp_updated := b\<rparr>) = template_ok t"
  by (simp_all add: template_ok_def)

section \<open>Trimming\<close>

lemma trim_left_runes_keeps:
  "c \<in> set s \<Longrightarrow> (\<And>w. w \<in> set ws \<Longrightarrow> c \<notin> set w) \<Longrightarrow> c \<in> set (trim_left_runes ws s)"
proof (induction ws s rule: trim_left_runes.induct)
  case (1 ws s)
  show ?case
  proof (cases "find (\<lambda>w. w \<noteq> [] \<and> has_prefix s w) ws")
    case None
    with 1(2) show ?thesis by (simp add: trim_left_runes.simps)
  next
    case (Some w)
    then obtain t where t: "s = w @ t" "w \<in> set ws" by (auto simp: find_Some_iff has_prefix_iff)
    with 1(2,3) have "c \<in> set (drop (length w) s)" by auto
    with 1(1) [OF Some] 1(3) Some show ?thesis by (subst trim_left_runes.simps) simp
  qed
qed

lemma alnum_no_space: "is_alnum c \<Longrightarrow> w \<in> set space_runes \<Longrightarrow> c \<notin> set w"
proof
  assume "is_alnum c" "w \<in> set space_runes" "c \<in> set w"
  then have "(of_char c :: nat) \<in> {9, 10, 11, 12, 13, 32, 133, 154, 159, 160, 168, 169, 175, 194, 225, 226, 227} \<union> {128..<139}"
    by (auto simp: space_runes_def bytes_def)
  with \<open>is_alnum c\<close> show False by (auto simp: is_alnum_def is_digit_def is_lower_def is_upper_def)
qed

lemma trim_space_alnum: "is_alnum c \<Longrightarrow> c \<in> set s \<Longrightarrow> trim_space s \<noteq> []"
proof -
  assume c: "is_alnum c" "c \<in> set s"
  then have "c \<in> set (trim_left_runes space_runes s)" by (intro trim_left_runes_keeps alnum_no_space)
  then have "c \<in> set (trim_space s)"
    using alnum_no_space [OF c(1)] by (auto simp: trim_space_def intro!: trim_left_runes_keeps)
  then show ?thesis by auto
qed

section \<open>Built-in templates\<close>

lemma trim_space_head: "is_alnum c \<Longrightarrow> trim_space (c # s) \<noteq> []"
  by (rule trim_space_alnum [of c]) simp_all

lemma to_lower_ascii: "list_all (\<lambda>c. (of_char c :: nat) < 128) s \<Longrightarrow> AllowedHosts.to_lower s = map lower_char s"
proof (induction s rule: AllowedHosts.to_lower.induct)
  case (2 a s)
  then have "a \<noteq> char_of (196 :: nat)" "a \<noteq> char_of (226 :: nat)" by auto
  with 2 show ?case by (cases s; cases "tl s") (simp_all add: bytes_def)
qed simp

lemmas built_in_eval =
  template_ok_def built_in_def slug_ok_def slug_pattern_def slug_char_def name_ok_def image_ok_def image_schemes_def
  image_blanks_def shell_chars_def contains_any_def image_ref_pattern_def image_char_def resources_ok_def network_ok_def
  host_entry_ok_def tags_ok_def environment_ok_def script_ok_def trim_space_head char_class_defs has_prefix_def
  lower_char_def to_lower_ascii

lemma built_in_ok: "list_all template_ok built_in_templates"
  by (simp add: built_in_templates_def built_in_eval Let_def del: AllowedHosts.to_lower.simps)

section \<open>Guards\<close>

type_synonym template_calls = "(template_call, template_answer) calls"

text \<open>\<open>adm\<close>: who may change which template; \<open>use\<close>: which session may be made from which template.\<close>

definition template_guard ::
  "(template \<Rightarrow> bool) \<Rightarrow> (template \<Rightarrow> session_record \<Rightarrow> bool) \<Rightarrow> template_calls \<Rightarrow> template_call \<Rightarrow> bool" where
  "template_guard adm use h c =
     (case c of
        InsertTemplate t \<Rightarrow> template_ok t
      | UpdateTemplate i u now \<Rightarrow> validate_update u = [] \<and> (\<exists>t. (GetTemplate i, TRow t) \<in> set h \<and> adm t)
      | DeleteTemplate i \<Rightarrow> \<exists>t. (GetTemplate i, TRow t) \<in> set h \<and> adm t
      | InsertSession row \<Rightarrow> \<exists>i t. (GetTemplate i, TRow t) \<in> set h \<and> use t row
      | _ \<Rightarrow> True)"

lemma template_guard_simps [simp]:
  "template_guard adm use h (SlugTaken slug)" "template_guard adm use h (GetTemplate i)"
  "template_guard adm use h (GetBySlug slug)" "template_guard adm use h (ListTemplates f l off)"
  "template_guard adm use h (RecordUse i sid org)" "template_guard adm use h (TemplateKnown i)"
  "template_guard adm use h (NewWork sid)" "template_guard adm use h (DropWork sid)"
  "template_guard adm use h (LinkTemplate i sid)"
  "template_guard adm use h (InsertTemplate t) = template_ok t"
  by (simp_all add: template_guard_def)

lemma found_template_row: "found_template a = Inr t \<longleftrightarrow> a = TRow t"
  by (cases a) (auto simp: found_template_def)

text \<open>A reply that shows a template shows one that the caller may read.\<close>

definition reply_ok :: "(template \<Rightarrow> bool) \<Rightarrow> template_reply \<Rightarrow> bool" where
  "reply_ok readable r = (case r of TemplateShown t \<Rightarrow> readable t | SessionMade _ t \<Rightarrow> readable t | _ \<Rightarrow> True)"

lemma reply_ok_simps [simp]:
  "reply_ok P (TStatus n)" "reply_ok P (TemplateList ts)" "reply_ok P (TemplateMade t)" "reply_ok P (TemplateChanged t)"
  "reply_ok P TemplateGone" "reply_ok P (TemplateShown t) = P t" "reply_ok P (SessionMade row t) = P t"
  by (simp_all add: reply_ok_def)

abbreviation template_prog_ok ::
  "(template \<Rightarrow> bool) \<Rightarrow> (template \<Rightarrow> session_record \<Rightarrow> bool) \<Rightarrow> (template \<Rightarrow> bool) \<Rightarrow> template_reply template_prog \<Rightarrow>
   template_calls \<Rightarrow> bool" where
  "template_prog_ok adm use readable \<equiv> prog_ok (template_guard adm use) (\<lambda>_. reply_ok readable)"

lemma get_template_ok [simp]:
  "prog_ok (template_guard adm use) P (get_template i) h \<longleftrightarrow> (\<forall>a. P (h @ [(GetTemplate i, a)]) (found_template a))"
  by (simp add: get_template_def)

lemma with_template_ok:
  assumes "\<And>t. template_prog_ok adm use rd (p t) (h @ [(GetTemplate i, TRow t)])"
  shows "template_prog_ok adm use rd (with_template (get_template i) p) h"
  using assms
  by (auto simp: with_template_def found_template_row split: sum.split template_error.split)

lemma template_replies_ok [simp]:
  "reply_ok P (template_create_status r)" "reply_ok P (template_update_status r)" "reply_ok P (template_delete_status q)"
  by (auto simp: template_create_status_def template_update_status_def template_delete_status_def
      split: sum.split template_error.split)

lemma template_readers_guarded:
  "template_prog_ok adm use rd (list_templates_handler actor query) []"
  "template_prog_ok adm use (may_read ev actor) (get_template_handler ev actor raw) []"
  "template_prog_ok adm use (may_read ev actor) (get_by_slug_handler ev actor slug) []"
proof -
  show "template_prog_ok adm use rd (list_templates_handler actor query) []"
    by (auto simp: list_templates_handler_def list_templates_def split: option.split sum.split)
  show "template_prog_ok adm use (may_read ev actor) (get_template_handler ev actor raw) []"
    by (auto simp: get_template_handler_def show_template_def intro!: with_template_ok split: option.split)
  show "template_prog_ok adm use (may_read ev actor) (get_by_slug_handler ev actor slug) []"
    by (auto simp: get_by_slug_handler_def show_template_def with_template_def get_by_slug_def
        split: sum.split template_error.split)
qed

lemma create_guarded: "template_prog_ok adm use rd (create_template_handler ev actor body i now) []"
  by (auto simp: create_template_handler_def create_template_op_def new_template_ok split: option.split sum.split template_answer.split)

lemma update_guarded:
  "template_prog_ok (may_administer ev actor) use rd (update_template_handler ev actor raw body now) []"
  by (auto simp: update_template_handler_def update_template_op_def template_guard_def
      intro!: with_template_ok split: option.split sum.split)

lemma delete_guarded:
  "template_prog_ok (may_administer ev actor) use rd (delete_template_handler ev actor raw) []"
  by (auto simp: delete_template_handler_def delete_template_op_def template_guard_def
      intro!: with_template_ok split: option.split)

text \<open>What a session made from a template is.\<close>

definition use_right :: "template_env \<Rightarrow> string \<Rightarrow> template \<Rightarrow> session_record \<Rightarrow> bool" where
  "use_right ev actor t row \<longleftrightarrow>
     may_read ev actor t \<and> enforce_session_policy ev actor t = None \<and>
     (\<exists>org name sid path. caller_org ev actor = Inr org \<and> row = template_session actor org t name sid path)"

lemma use_rightI:
  "may_read ev actor t \<Longrightarrow> enforce_session_policy ev actor t = None \<Longrightarrow> caller_org ev actor = Inr org \<Longrightarrow>
   use_right ev actor t (template_session actor org t name sid path)"
  unfolding use_right_def by blast

lemma use_guarded:
  "template_prog_ok adm (use_right ev actor) (may_read ev actor) (use_template_handler ev actor raw name sid) []"
  by (auto simp: use_template_handler_def store_session_def link_session_def record_usage_def template_guard_def
      intro!: with_template_ok use_rightI split: option.split sum.split template_answer.split)

lemma bootstrap_guarded:
  "list_all template_ok ts \<Longrightarrow> (\<And>g r. P g r) \<Longrightarrow> prog_ok (template_guard adm use) P (bootstrap now ts) h"
  by (induction ts arbitrary: h) (auto split: template_answer.split)

lemma start_guarded: "template_prog_ok adm use rd (start_templates now) []"
  by (auto simp: start_templates_def intro!: bootstrap_guarded built_in_ok)

section \<open>Operations\<close>

text \<open>The operations, with the caller in whose name they act.\<close>

inductive template_op :: "template_env \<Rightarrow> string \<Rightarrow> template_reply template_prog \<Rightarrow> bool" for ev where
  "template_op ev actor (list_templates_handler actor query)"
| "template_op ev actor (get_template_handler ev actor raw)"
| "template_op ev actor (get_by_slug_handler ev actor slug)"
| "template_op ev actor (create_template_handler ev actor body i now)"
| "template_op ev actor (update_template_handler ev actor raw ubody now)"
| "template_op ev actor (delete_template_handler ev actor raw)"
| "template_op ev actor (use_template_handler ev actor raw name sid)"
| "template_op ev master (start_templates now)"

definition some_actor :: "template_env \<Rightarrow> template_reply template_prog \<Rightarrow> bool" where
  "some_actor ev p \<longleftrightarrow> (\<exists>actor. template_op ev actor p)"

definition adm_right :: "template_env \<Rightarrow> template_reply template_prog \<Rightarrow> template \<Rightarrow> bool" where
  "adm_right ev p t \<longleftrightarrow> (\<exists>actor. template_op ev actor p \<and> may_administer ev actor t)"

definition session_right :: "template_env \<Rightarrow> template_reply template_prog \<Rightarrow> template \<Rightarrow> session_record \<Rightarrow> bool" where
  "session_right ev p t row \<longleftrightarrow> (\<exists>actor. template_op ev actor p \<and> use_right ev actor t row)"

definition read_right :: "template_env \<Rightarrow> template_reply template_prog \<Rightarrow> template \<Rightarrow> bool" where
  "read_right ev p t \<longleftrightarrow> (\<exists>actor. template_op ev actor p \<and> may_read ev actor t)"

lemma template_guard_mono:
  assumes "template_guard adm use h c" "\<And>t. adm t \<Longrightarrow> adm' t" "\<And>t r. use t r \<Longrightarrow> use' t r"
  shows "template_guard adm' use' h c"
  using assms by (cases c) (simp_all add: template_guard_def, blast+)

lemma template_prog_ok_mono:
  assumes "template_prog_ok adm use rd p h" "\<And>t. adm t \<Longrightarrow> adm' t" "\<And>t r. use t r \<Longrightarrow> use' t r" "\<And>t. rd t \<Longrightarrow> rd' t"
  shows "template_prog_ok adm' use' rd' p h"
  using assms(1)
  by (rule prog_ok_mono)
    (use assms(2-4) in \<open>auto simp: reply_ok_def elim!: template_guard_mono split: template_reply.splits\<close>)

lemma template_op_guarded_as:
  "template_op ev actor p \<Longrightarrow> template_prog_ok (may_administer ev actor) (use_right ev actor) (may_read ev actor) p []"
  by (induction rule: template_op.induct)
    (rule template_readers_guarded create_guarded update_guarded delete_guarded use_guarded start_guarded)+

lemma template_op_guarded:
  "some_actor ev p \<Longrightarrow> template_prog_ok (adm_right ev p) (session_right ev p) (read_right ev p) p []"
proof -
  assume "some_actor ev p"
  then obtain actor where actor: "template_op ev actor p" by (auto simp: some_actor_def)
  from template_op_guarded_as [OF actor] show ?thesis
    by (rule template_prog_ok_mono) (use actor in \<open>auto simp: adm_right_def session_right_def read_right_def\<close>)
qed

section \<open>Runs\<close>

text \<open>
  Elsewhere sessions are removed, and an organisation that is deleted leaves its templates without one.
\<close>

definition template_world :: "template_store \<Rightarrow> template_store \<Rightarrow> bool" where
  "template_world s s' \<longleftrightarrow>
     list_all2 (\<lambda>t t'. t' = t \<or> t' = t\<lparr>tp_org := None\<rparr>) (st_templates s) (st_templates s') \<and>
     set (st_sessions s') \<subseteq> set (st_sessions s)"

abbreviation template_reach ::
  "(string \<Rightarrow> string \<Rightarrow> bool) \<Rightarrow> (string \<Rightarrow> string) \<Rightarrow> template_env \<Rightarrow> template_store \<Rightarrow>
   (template_store, template_call, template_answer, template_reply) system \<Rightarrow> bool" where
  "template_reach like path ev \<equiv> sys_reach (template_apply like path) TFailed (some_actor ev) template_world"

text \<open>What a session owes to the template it was made from.\<close>

definition session_sound :: "template_env \<Rightarrow> session_record \<Rightarrow> bool" where
  "session_sound ev r \<longleftrightarrow>
     image_ok (sr_image r) \<and> image_allowed (tv_equal_fold ev) (tv_images ev) (sr_image r) \<and>
     0 < sr_cpu r \<and> sr_cpu r \<le> min 64 (ml_cpu (tv_limits ev)) \<and>
     0 < sr_memory r \<and> sr_memory r \<le> min 262144 (ml_memory (tv_limits ev)) \<and>
     0 < sr_timeout r \<and> sr_timeout r \<le> min 86400 (ml_timeout (tv_limits ev)) \<and>
     length (sr_hosts r) \<le> 100 \<and> list_all host_entry_ok (sr_hosts r)"

lemma use_right_sound: "use_right ev actor t row \<Longrightarrow> template_ok t \<Longrightarrow> session_sound ev row"
  by (auto simp: use_right_def enforce_session_policy_def template_session_def session_sound_def template_ok_def
      resources_ok_def network_ok_def Let_def split: if_splits)

definition templates_inv ::
  "template_env \<Rightarrow> (template_call, template_answer) entry list \<Rightarrow> template_store \<Rightarrow> bool" where
  "templates_inv ev es s \<longleftrightarrow>
     list_all template_ok (st_templates s) \<and>
     distinct (map tp_slug (st_templates s)) \<and> distinct (map tp_id (st_templates s)) \<and>
     (\<forall>e \<in> set es. \<forall>i t. en_call e = GetTemplate i \<and> en_answer e = TRow t \<longrightarrow> template_ok t) \<and>
     list_all (\<lambda>(r, _). session_sound ev r) (st_sessions s)"

abbreviation sound_use :: "template_env \<Rightarrow> template \<Rightarrow> session_record \<Rightarrow> bool" where
  "sound_use ev t row \<equiv> template_ok t \<longrightarrow> session_sound ev row"

lemma map_keeps_ids:
  "(\<And>t. f (g t) = f t) \<Longrightarrow> map f (map (\<lambda>t. if P t then g t else t) ts) = map f ts"
  by (induction ts) auto

lemma templates_kept:
  assumes "list_all template_ok (st_templates s)" "distinct (map tp_slug (st_templates s))" "distinct (map tp_id (st_templates s))"
    and "template_guard adm use h c" "do_call (template_apply like path) TFailed fate c s = (a, s')"
  shows "list_all template_ok (st_templates s') \<and> distinct (map tp_slug (st_templates s')) \<and>
    distinct (map tp_id (st_templates s'))"
proof (cases "fate = CallUnreached")
  case True
  with assms show ?thesis by (simp add: do_call_def)
next
  case False
  with assms(5) have s': "s' = snd (template_apply like path c s)" by (auto simp: do_call_def split: call_fate.splits)
  show ?thesis
  proof (cases c)
    case (InsertTemplate t)
    with assms show ?thesis by (auto simp: s' list_ex_iff)
  next
    case (UpdateTemplate i u now)
    with assms(4) have "validate_update u = []" by (simp add: template_guard_def)
    with UpdateTemplate assms(1-3) show ?thesis
      by (auto simp: s' Let_def list_all_iff map_keeps_ids simp del: map_map intro: updated_row_ok)
  next
    case (DeleteTemplate i)
    with assms(1-3) show ?thesis by (auto simp: s' list_all_iff intro: distinct_map_filter)
  next
    case (RecordUse i sid org)
    with assms(1-3) show ?thesis by (auto simp: s' list_all_iff map_keeps_ids simp del: map_map)
  qed (use assms(1-3) in \<open>auto simp: s'\<close>)
qed

lemma sessions_kept:
  assumes "list_all (\<lambda>(r, _). session_sound ev r) (st_sessions s)"
    and "\<And>row. c = InsertSession row \<Longrightarrow> session_sound ev row" "do_call (template_apply like path) TFailed fate c s = (a, s')"
  shows "list_all (\<lambda>(r, _). session_sound ev r) (st_sessions s')"
proof (cases "fate = CallUnreached")
  case True
  with assms show ?thesis by (simp add: do_call_def)
next
  case False
  with assms(3) have s': "s' = snd (template_apply like path c s)" by (auto simp: do_call_def split: call_fate.splits)
  from assms(1,2) show ?thesis
    by (cases c) (auto simp: s' Let_def list_all_iff split: if_splits)
qed

lemma answered_template:
  "do_call (template_apply like path) TFailed fate (GetTemplate i) s = (TRow t, s') \<Longrightarrow> t \<in> set (st_templates s)"
  by (auto simp: do_call_def find_template_def find_Some_iff split: call_fate.splits option.splits)

lemma templates_inv_call:
  assumes inv: "templates_inv ev es s" and guard: "template_guard (\<lambda>_. True) (sound_use ev) (calls_of i es) c"
    and step: "do_call (template_apply like path) TFailed fate c s = (a, s')"
  shows "templates_inv ev (es @ [\<lparr> en_thread = i, en_call = c, en_fate = fate, en_answer = a \<rparr>]) s'"
proof -
  have "session_sound ev row" if "c = InsertSession row" for row
    using guard inv that by (auto simp: template_guard_def templates_inv_def calls_of_member)
  with inv step have "list_all (\<lambda>(r, _). session_sound ev r) (st_sessions s')"
    by (auto simp: templates_inv_def intro: sessions_kept)
  moreover have "template_ok t" if "c = GetTemplate j" "a = TRow t" for j t
    using answered_template [of like path fate j s t s'] step inv that by (auto simp: templates_inv_def list_all_iff)
  moreover have "list_all template_ok (st_templates s') \<and> distinct (map tp_slug (st_templates s')) \<and>
      distinct (map tp_id (st_templates s'))"
    using inv by (intro templates_kept [OF _ _ _ guard step]) (auto simp: templates_inv_def)
  ultimately show ?thesis using inv unfolding templates_inv_def by auto
qed

lemma templates_inv_world:
  assumes "templates_inv ev es s" "template_world s s'"
  shows "templates_inv ev es s'"
proof -
  from assms(2) have rel: "list_all2 (\<lambda>t t'. t' = t \<or> t' = t\<lparr>tp_org := None\<rparr>) (st_templates s) (st_templates s')"
    and sess: "set (st_sessions s') \<subseteq> set (st_sessions s)" by (auto simp: template_world_def)
  from rel have same: "map tp_slug (st_templates s') = map tp_slug (st_templates s)"
    "map tp_id (st_templates s') = map tp_id (st_templates s)"
    "list_all template_ok (st_templates s) \<Longrightarrow> list_all template_ok (st_templates s')"
    by (induction rule: list_all2_induct) auto
  with assms(1) sess show ?thesis by (auto simp: templates_inv_def list_all_iff)
qed

interpretation templates: store_invariant "template_apply like path" TFailed "some_actor ev" template_world
    "template_guard (\<lambda>_. True) (sound_use ev)" "templates_inv ev" for like path ev
proof
  show "calls_ok (template_guard (\<lambda>_. True) (sound_use ev)) p []" if "some_actor ev p" for p
    by (rule prog_ok_mono [OF template_op_guarded [OF that]])
      (auto simp: session_right_def dest: use_right_sound elim!: template_guard_mono)
qed (fact templates_inv_call templates_inv_world)+

section \<open>A run\<close>

definition demo_template :: template where
  "demo_template =
     (built_in ''t'' ''tool'' ''Tool'' ''A tool'' ''dev'' [] ''ubuntu'' False
        \<lparr> tr_cpu = 1, tr_memory = 512, tr_timeout = 60 \<rparr> [] [] [] [])\<lparr>tp_published := False, tp_org := Some ''o''\<rparr>"

definition demo_template_store :: template_store where
  "demo_template_store = \<lparr> st_templates = [demo_template], st_sessions = [], st_usage = [], st_work = [] \<rparr>"

definition demo_templates :: template_env where
  "demo_templates =
     \<lparr> tv_uuid = (\<lambda>raw. Some raw), tv_roles = (\<lambda>_ actor. if actor = ''ann'' then Found ''admin'' else NoRows),
        tv_first_org = (\<lambda>_. NoRows), tv_limits = \<lparr> ml_cpu = 8, ml_memory = 8192, ml_timeout = 86400, ml_sessions = 0 \<rparr>,
        tv_images = [], tv_equal_fold = (\<lambda>_ _. False), tv_active = (\<lambda>_. Some 0) \<rparr>"

definition publish :: update_template where
  "publish =
     \<lparr> ut_name = None, ut_description = None, ut_category = None, ut_tags = None, ut_image = None, ut_version = None,
        ut_published = Some True, ut_featured = None, ut_resources = None, ut_network = None, ut_environment = None,
        ut_policy = None, ut_packages = None, ut_readme = None, ut_script = None \<rparr>"

text \<open>An admin publishes the template of the organisation and a stranger makes a session from it.\<close>

definition demo_template_moves :: "(template_call, template_answer, template_reply) move list" where
  "demo_template_moves =
     [Begin (update_template_handler demo_templates ''ann'' ''t'' (Some publish) 1),
      Begin (use_template_handler demo_templates ''bob'' ''t'' [] ''s'')] @
     map (\<lambda>i. Step i CallAnswered) [0, 0, 0, 1, 1, 1, 0, 1, 1]"

definition demo_template_end :: "(template_store, template_call, template_answer, template_reply) system" where
  "demo_template_end =
     the (do_moves (template_apply (\<lambda>_ _. False) (\<lambda>sid. sid)) TFailed demo_template_moves (boot demo_template_store))"

lemma demo_template_ok: "template_ok demo_template"
  by (simp add: demo_template_def built_in_eval Let_def del: AllowedHosts.to_lower.simps)

lemma demo_updated: "updated_row publish 1 demo_template = demo_template\<lparr>tp_published := True, tp_updated := 1\<rparr>"
  by (simp add: updated_row_def publish_def given_def)

lemma demo_template_parts:
  "tv_uuid demo_templates raw = Some raw" "may_administer demo_templates ''ann'' demo_template"
  "tp_id demo_template = ''t''" "tp_slug demo_template = ''tool''" "fits_columns (demo_template\<lparr>tp_published := True, tp_updated := 1\<rparr>)"
  by (simp_all add: demo_templates_def may_administer_def demo_template_def built_in_def role_at_least_def fits_columns_def
      rune_count.simps in_range_def)

lemma demo_use:
  "may_read demo_templates ''bob'' (demo_template\<lparr>tp_published := True, tp_updated := 1\<rparr>)"
  "enforce_session_policy demo_templates ''bob'' (demo_template\<lparr>tp_published := True, tp_updated := 1\<rparr>) = None"
  "caller_org demo_templates ''bob'' = Inr None"
  by (simp_all add: demo_templates_def may_read_def enforce_session_policy_def demo_template_def built_in_def
      image_allowed_def caller_org_def Let_def)

lemma demo_publish: "validate_update publish = []" "\<not> nothing_given publish"
  by (simp_all add: validate_update_def publish_def if_given_def nothing_given_def)

lemmas template_run_defs =
  update_template_handler_def use_template_handler_def with_template_def get_template_def found_template_def
  update_template_op_def store_session_def link_session_def record_usage_def find_template_def do_call_def Let_def
  template_session_def demo_template_store_def demo_template_parts demo_use demo_publish demo_updated

lemma demo_template_run:
  "do_moves (template_apply (\<lambda>_ _. False) (\<lambda>sid. sid)) TFailed demo_template_moves (boot demo_template_store) = Some demo_template_end"
  "map (\<lambda>(r, l). (sr_id r, sr_created_by r, l)) (st_sessions (sy_store demo_template_end)) = [(''s'', ''bob'', Some ''t'')]"
  "en_call (sy_log demo_template_end ! 2) = UpdateTemplate ''t'' publish 1" "length (sy_log demo_template_end) = 9"
  by (simp_all cong: Call_lazy add: demo_template_end_def demo_template_moves_def boot_def fresh_thread_def template_run_defs)

lemma demo_template_reach: "template_reach (\<lambda>_ _. False) (\<lambda>sid. sid) demo_templates demo_template_store demo_template_end"
  by (rule do_moves_reach [OF demo_template_run(1) reach_boot])
    (auto simp: demo_template_moves_def some_actor_def intro: template_op.intros)

section \<open>Properties\<close>

text \<open>
  Property C35.  However the endpoints for templates interleave and whichever calls fail: every stored
  template stays valid (slug, name, description, image, resources, hosts, tags, environment, script),
  identifiers and slugs stay unique, and every session made from a template has a valid and permitted
  image, resources that are positive and within the limits of templates and of the deployment, and at
  most 100 host names of the permitted form.
\<close>

theorem stored_templates_valid:
  assumes "template_reach like path ev s0 S" "list_all template_ok (st_templates s0)" "st_sessions s0 = []"
    and "distinct (map tp_slug (st_templates s0))" "distinct (map tp_id (st_templates s0))"
  shows "list_all template_ok (st_templates (sy_store S)) \<and>
    distinct (map tp_slug (st_templates (sy_store S))) \<and> distinct (map tp_id (st_templates (sy_store S))) \<and>
    list_all (\<lambda>(r, _). session_sound ev r) (st_sessions (sy_store S))"
proof -
  have "templates_inv ev [] s0" using assms(2-5) by (simp add: templates_inv_def)
  with assms(1) have "templates_inv ev (sy_log S) (sy_store S)" by (rule templates.invariant)
  then show ?thesis unfolding templates_inv_def by blast
qed

theorem stored_templates_valid_witness:
  "list_all template_ok (st_templates (sy_store demo_template_end)) \<and>
   list_all (\<lambda>(r, _). session_sound demo_templates r) (st_sessions (sy_store demo_template_end)) \<and>
   st_sessions (sy_store demo_template_end) \<noteq> []"
  using stored_templates_valid [OF demo_template_reach] demo_template_ok demo_template_run(2)
  by (force simp: demo_template_store_def)

text \<open>
  However the endpoints interleave: a template is changed or deleted only by a request of
  the master key or of an admin of the organisation that the template had when the request read it; a
  session is made only from a template that the request read, that its caller may read and that passes
  the limits; and a reply shows a template only to a caller who may read it.
\<close>

theorem template_requests_authorised:
  assumes "template_reach like path ev s0 S"
  shows "(\<forall>n < length (sy_log S). \<forall>i.
      (en_call (sy_log S ! n) = DeleteTemplate i \<or> (\<exists>u now. en_call (sy_log S ! n) = UpdateTemplate i u now)) \<longrightarrow>
      (\<exists>actor t. \<exists>k < n. template_op ev actor (th_start (sy_threads S ! en_thread (sy_log S ! n))) \<and>
         may_administer ev actor t \<and> en_thread (sy_log S ! k) = en_thread (sy_log S ! n) \<and>
         en_call (sy_log S ! k) = GetTemplate i \<and> en_answer (sy_log S ! k) = TRow t)) \<and>
    (\<forall>n < length (sy_log S). \<forall>row. en_call (sy_log S ! n) = InsertSession row \<longrightarrow>
      (\<exists>actor t i. \<exists>k < n. template_op ev actor (th_start (sy_threads S ! en_thread (sy_log S ! n))) \<and>
         use_right ev actor t row \<and> en_thread (sy_log S ! k) = en_thread (sy_log S ! n) \<and>
         en_call (sy_log S ! k) = GetTemplate i \<and> en_answer (sy_log S ! k) = TRow t)) \<and>
    (\<forall>th \<in> set (sy_threads S). \<forall>t. th_rest th = Return (TemplateShown t) \<longrightarrow>
      (\<exists>actor. template_op ev actor (th_start th) \<and> may_read ev actor t))"
proof (intro conjI allI impI ballI)
  let ?es = "sy_log S"
  have guard: "template_guard (adm_right ev (th_start (sy_threads S ! en_thread (?es ! n))))
      (session_right ev (th_start (sy_threads S ! en_thread (?es ! n))))
      (calls_of (en_thread (?es ! n)) (take n ?es)) (en_call (?es ! n))" if "n < length ?es" for n
    using log_guarded_reach [OF assms, of "\<lambda>p. template_guard (adm_right ev p) (session_right ev p)"] that
      prog_ok_mono [OF template_op_guarded] by (fastforce simp: log_guarded_def Let_def)
  { fix n i
    assume n: "n < length ?es" "en_call (?es ! n) = DeleteTemplate i \<or> (\<exists>u now. en_call (?es ! n) = UpdateTemplate i u now)"
    with guard [OF n(1)] obtain t where "(GetTemplate i, TRow t) \<in> set (calls_of (en_thread (?es ! n)) (take n ?es))"
      "adm_right ev (th_start (sy_threads S ! en_thread (?es ! n))) t" by (auto simp: template_guard_def)
    with calls_of_take show "\<exists>actor t. \<exists>k < n. template_op ev actor (th_start (sy_threads S ! en_thread (?es ! n))) \<and>
         may_administer ev actor t \<and> en_thread (?es ! k) = en_thread (?es ! n) \<and>
         en_call (?es ! k) = GetTemplate i \<and> en_answer (?es ! k) = TRow t" unfolding adm_right_def by metis }
  { fix n row
    assume n: "n < length ?es" "en_call (?es ! n) = InsertSession row"
    with guard [OF n(1)] obtain i t where "(GetTemplate i, TRow t) \<in> set (calls_of (en_thread (?es ! n)) (take n ?es))"
      "session_right ev (th_start (sy_threads S ! en_thread (?es ! n))) t row" by (auto simp: template_guard_def)
    with calls_of_take show "\<exists>actor t i. \<exists>k < n. template_op ev actor (th_start (sy_threads S ! en_thread (?es ! n))) \<and>
         use_right ev actor t row \<and> en_thread (?es ! k) = en_thread (?es ! n) \<and>
         en_call (?es ! k) = GetTemplate i \<and> en_answer (?es ! k) = TRow t" unfolding session_right_def by metis }
  { fix th t
    assume "th \<in> set (sy_threads S)" "th_rest th = Return (TemplateShown t)"
    from result_ok_reach [OF assms template_op_guarded this]
    show "\<exists>actor. template_op ev actor (th_start th) \<and> may_read ev actor t" by (simp add: read_right_def) }
qed

theorem template_requests_authorised_witness:
  "\<exists>actor t k. k < 2 \<and> may_administer demo_templates actor t \<and>
     en_call (sy_log demo_template_end ! k) = GetTemplate ''t'' \<and> en_answer (sy_log demo_template_end ! k) = TRow t"
proof -
  have "2 < length (sy_log demo_template_end)" by (simp add: demo_template_run(4))
  with template_requests_authorised [OF demo_template_reach] demo_template_run(3) show ?thesis by blast
qed

section \<open>What is missing\<close>

text \<open>An update may set a blank category, which a creation may not.\<close>

lemma update_blanks_category:
  "validate_update (publish\<lparr>ut_category := Some []\<rparr>) = []" "BadCategory \<in> set (validate_create (r\<lparr>ct_category := []\<rparr>))"
proof -
  show "validate_update (publish\<lparr>ut_category := Some []\<rparr>) = []"
    by (simp add: validate_update_def publish_def if_given_def)
  have "trim_left_runes ws [] = []" for ws using trim_left_runes_suffix [of "[]" ws] by simp
  then have "trim_space [] = []" by (simp add: trim_space_def)
  then show "BadCategory \<in> set (validate_create (r\<lparr>ct_category := []\<rparr>))"
    by (simp add: validate_create_def problem_unless_def)
qed

text \<open>Host names are not held to what sessions are held to: internal names pass.\<close>

lemma template_hosts_weaker: "host_entry_ok ''localhost''" "\<not> is_ok (validate_allowed_hosts [''localhost''])"
proof -
  show "host_entry_ok ''localhost''"
    by (simp add: host_entry_ok_def image_blanks_def contains_any_def has_prefix_def)
  have "parse_ip ''localhost'' = None" "\<not> contains ''localhost'' ''/''" "AllowedHosts.to_lower ''localhost'' = ''localhost''"
    "trim_suffix ''localhost'' ''.'' = ''localhost''" by code_simp+
  then show "\<not> is_ok (validate_allowed_hosts [''localhost''])"
    by (simp add: validate_allowed_hosts_def max_allowed_hosts_def validate_allowed_host_def Let_def
        del: AllowedHosts.to_lower.simps contains.simps)
qed

text \<open>
  A member who may only look at an organisation's sessions may not create one there, but may make one
  from a template.
\<close>

lemma viewer_makes_session:
  assumes "tv_first_org ev actor = Found org" "tv_roles ev org actor = Found ''viewer''" "actor \<noteq> master"
    and "en_roles e = tv_roles ev" "en_actor e = actor" "en_uuid e raw = Some org" "raw \<noteq> []" "en_org e org = Found ()"
  shows "caller_org ev actor = Inr (Some org)" "check_org e (Some raw) = Inl 403"
  using assms by (simp_all add: caller_org_def check_org_def role_at_least_def role_rank_def)

text \<open>When the link cannot be written the request fails and the session stays.\<close>

lemma failed_link_keeps_session:
  assumes "st_sessions s = []"
  shows "run_alone (template_apply like path) TFailed (store_session i row t) [CallAnswered, CallUnreached] s =
    (TStatus 500, s\<lparr>st_sessions := [(row, None)]\<rparr>)"
  using assms by (simp add: store_session_def link_session_def do_call_def)

text \<open>
  The row of such a session has no container, and no code starts one later: commands are always refused.
\<close>

lemma no_container_no_command:
  "rd_access d ''executor'' = Inr s \<Longrightarrow> s_container s = None \<Longrightarrow> fst (gate_session d) = Inl 409"
  by (simp add: gate_session_def)

end
