(* ===== verification/Missions.thy ===== *)
theory Missions
  imports Programs Access
begin

text \<open>
  \<open>internal/missions\<close>: reusable sequences of tool calls, the records of their runs and the costs that are
  attributed to runs.  Operations are trees of database calls.  Costs are ten-thousandths, the unit of the
  columns; a JSON array of step results is the text of its encoding.

  \<open>cmd/api/handlers/missions.go\<close>: the endpoints for missions, their runs and the costs of runs.
\<close>

section \<open>Missions and runs\<close>

record step_verify =
  sv_exit_zero :: "bool option"
  sv_stdout :: string
  sv_file :: string

record mission_step =
  sp_name :: string
  sp_tool :: string
  sp_args :: "(string \<times> string) list"      \<comment> \<open>keys are distinct\<close>
  sp_description :: string
  sp_verify :: "step_verify option"

record mission =
  mi_id :: string
  mi_slug :: string
  mi_name :: string
  mi_description :: string
  mi_org :: "string option"
  mi_created_by :: string
  mi_version :: string
  mi_published :: bool
  mi_uses :: int
  mi_steps :: "mission_step list"
  mi_tags :: "string list"
  mi_created :: time
  mi_updated :: time

record create_mission =
  cm_slug :: string
  cm_name :: string
  cm_description :: string
  cm_version :: string
  cm_steps :: "mission_step list"
  cm_tags :: "string list"
  cm_published :: bool

record update_mission =
  um_name :: "string option"
  um_description :: "string option"
  um_version :: "string option"
  um_steps :: "mission_step list option"
  um_tags :: "string list option"
  um_published :: "bool option"

record mission_filter =
  mf_search :: string
  mf_published :: "bool option"
  mf_limit :: int
  mf_offset :: int

record mission_run =
  mr_id :: string
  mr_mission :: string
  mr_session :: "string option"
  mr_org :: "string option"
  mr_status :: string
  mr_results :: string
  mr_error :: string
  mr_created :: time
  mr_finished :: "time option"

record update_run =
  ur_status :: string
  ur_results :: "string option"
  ur_error :: string
  ur_attribute :: bool

record costs =
  co_compute :: int
  co_storage :: int
  co_network :: int
  co_total :: int

record attribution =
  at_id :: string
  at_mission :: string
  at_run :: string
  at_session :: string
  at_costs :: costs
  at_count :: int
  at_created :: time

record cost_summary =
  su_mission :: string
  su_runs :: int
  su_costs :: costs

datatype mission_error = MissionNotFound | MissionSlugExists | InvalidMission | RunNotFound | MissionFailed

section \<open>Validation\<close>

definition mission_slug_pattern :: "string \<Rightarrow> bool" where
  "mission_slug_pattern s \<longleftrightarrow>
     list_all (\<lambda>p. p \<noteq> [] \<and> list_all (\<lambda>c. is_lower c \<or> is_digit c) p) (split_on (CHR ''-'') s)"

definition mission_slug_ok :: "string \<Rightarrow> bool" where
  "mission_slug_ok s \<longleftrightarrow> s \<noteq> [] \<and> length s \<le> 100 \<and> mission_slug_pattern s"

definition mission_name_ok :: "string \<Rightarrow> bool" where
  "mission_name_ok s \<longleftrightarrow> s \<noteq> [] \<and> rune_count s \<le> 200"

definition mission_tags_ok :: "string list \<Rightarrow> bool" where
  "mission_tags_ok ts \<longleftrightarrow> length ts \<le> 20 \<and> list_all (\<lambda>t. rune_count t \<le> 64) ts"

definition step_ok :: "mission_step \<Rightarrow> bool" where
  "step_ok st \<longleftrightarrow>
     trim_space (sp_tool st) \<noteq> [] \<and> rune_count (sp_tool st) \<le> 120 \<and> rune_count (sp_name st) \<le> 120 \<and>
     list_all (\<lambda>(k, v). length k \<le> 120 \<and> length v \<le> 4096) (sp_args st)"

definition steps_ok :: "mission_step list \<Rightarrow> bool" where
  "steps_ok ss \<longleftrightarrow> ss \<noteq> [] \<and> length ss \<le> 50 \<and> list_all step_ok ss"

definition create_mission_ok :: "create_mission \<Rightarrow> bool" where
  "create_mission_ok r \<longleftrightarrow>
     mission_slug_ok (trim_space (cm_slug r)) \<and> mission_name_ok (trim_space (cm_name r)) \<and>
     rune_count (cm_description r) \<le> 4000 \<and> rune_count (cm_version r) \<le> 20 \<and> mission_tags_ok (cm_tags r) \<and>
     steps_ok (cm_steps r)"

definition normalize_mission :: "create_mission \<Rightarrow> create_mission" where
  "normalize_mission r = r\<lparr>cm_slug := trim_space (cm_slug r), cm_name := trim_space (cm_name r)\<rparr>"

section \<open>The database\<close>

record mission_store =
  mt_missions :: "mission list"
  mt_runs :: "mission_run list"
  mt_attributions :: "attribution list"
  mt_metrics :: "string \<Rightarrow> costs list"      \<comment> \<open>the costs metered for a session, gone with it\<close>
  mt_live :: "string \<Rightarrow> bool"               \<comment> \<open>the session is there\<close>

datatype mission_call =
    MSlugTaken string
  | MInsert mission
  | MGet string
  | MGetSlug string
  | MList mission_filter int int
  | MUpdate string mission time
  | MDelete string
  | MRunInsert mission_run
  | MRunList string int
  | MRunGet string string
  | MRunUpdate string string mission_run
  | MSumCosts string
  | MPutAttribution attribution
  | MAttribution string
  | MAttributionOf string string
  | MMissionSum string

datatype mission_answer =
    MFailed
  | MNone
  | MDone
  | MFlag bool
  | MNum int
  | MMission mission
  | MMissions "mission list"
  | MRun mission_run
  | MRuns "mission_run list"
  | MSum costs int
  | MAttr attribution
  | MSummary cost_summary

definition no_nul :: "string list \<Rightarrow> bool" where
  "no_nul fs \<longleftrightarrow> list_all (\<lambda>s. CHR 0x00 \<notin> set s) fs"

definition step_texts :: "mission_step \<Rightarrow> string list" where
  "step_texts st =
     [sp_name st, sp_tool st, sp_description st] @ concat (map (\<lambda>(k, v). [k, v]) (sp_args st)) @
     (case sp_verify st of None \<Rightarrow> [] | Some v \<Rightarrow> [sv_stdout v, sv_file v])"

text \<open>What the columns of a mission hold.\<close>

definition mission_fits :: "mission \<Rightarrow> bool" where
  "mission_fits m \<longleftrightarrow>
     rune_count (mi_slug m) \<le> 100 \<and> rune_count (mi_name m) \<le> 200 \<and> rune_count (mi_created_by m) \<le> 200 \<and>
     rune_count (mi_version m) \<le> 20 \<and>
     no_nul (mi_slug m # mi_name m # mi_description m # mi_created_by m # mi_version m # mi_tags m @
             concat (map step_texts (mi_steps m)))"

definition add_costs :: "costs \<Rightarrow> costs \<Rightarrow> costs" where
  "add_costs a b =
     \<lparr> co_compute = co_compute a + co_compute b, co_storage = co_storage a + co_storage b,
        co_network = co_network a + co_network b, co_total = co_total a + co_total b \<rparr>"

definition zero_costs :: costs where
  "zero_costs = \<lparr> co_compute = 0, co_storage = 0, co_network = 0, co_total = 0 \<rparr>"

definition sum_costs :: "costs list \<Rightarrow> costs" where
  "sum_costs cs = foldr add_costs cs zero_costs"

text \<open>\<open>DECIMAL(10, 4)\<close>.\<close>

definition decimal_fits :: "costs \<Rightarrow> bool" where
  "decimal_fits c \<longleftrightarrow> list_all (\<lambda>x. \<bar>x\<bar> < 10 ^ 10) [co_compute c, co_storage c, co_network c, co_total c]"

definition find_run :: "string \<Rightarrow> string \<Rightarrow> mission_store \<Rightarrow> mission_run option" where
  "find_run mid rid s = List.find (\<lambda>r. mr_id r = rid \<and> mr_mission r = mid) (mt_runs s)"

text \<open>\<open>like\<close> is \<open>ILIKE\<close> of Postgres.\<close>

definition mission_matches :: "(string \<Rightarrow> string \<Rightarrow> bool) \<Rightarrow> mission_filter \<Rightarrow> mission \<Rightarrow> bool" where
  "mission_matches like f m \<longleftrightarrow>
     (case mf_published f of None \<Rightarrow> True | Some p \<Rightarrow> mi_published m = p) \<and>
     (let t = trim_space (mf_search f); pat = ''%'' @ t @ ''%'' in
      t = [] \<or> like (mi_name m) pat \<or> like (mi_description m) pat \<or> like (mi_slug m) pat)"

text \<open>The upsert keeps the identifier and the references of the row that is there.\<close>

definition put_attribution :: "attribution \<Rightarrow> attribution list \<Rightarrow> attribution list" where
  "put_attribution a as =
     (if list_ex (\<lambda>x. at_run x = at_run a) as
      then map (\<lambda>x. if at_run x = at_run a then x\<lparr>at_costs := at_costs a, at_count := at_count a, at_created := at_created a\<rparr> else x) as
      else as @ [a])"

definition written_mission :: "mission \<Rightarrow> time \<Rightarrow> mission \<Rightarrow> mission" where
  "written_mission new now old =
     old\<lparr>mi_name := mi_name new, mi_description := mi_description new, mi_version := mi_version new,
         mi_published := mi_published new, mi_steps := mi_steps new, mi_tags := mi_tags new, mi_updated := now\<rparr>"

definition written_run :: "mission_run \<Rightarrow> mission_run \<Rightarrow> mission_run" where
  "written_run new old =
     old\<lparr>mr_status := mr_status new, mr_results := mr_results new, mr_error := mr_error new, mr_finished := mr_finished new\<rparr>"

definition run_fits :: "mission_run \<Rightarrow> bool" where
  "run_fits r \<longleftrightarrow> rune_count (mr_status r) \<le> 40 \<and> no_nul [mr_status r, mr_error r]"

text \<open>Deleting a mission deletes its runs and what was attributed to them.\<close>

fun mission_apply ::
  "(string \<Rightarrow> string \<Rightarrow> bool) \<Rightarrow> mission_call \<Rightarrow> mission_store \<Rightarrow> mission_answer \<times> mission_store" where
  "mission_apply like (MSlugTaken slug) s = (MFlag (list_ex (\<lambda>m. mi_slug m = slug) (mt_missions s)), s)"
| "mission_apply like (MInsert m) s =
     (if list_ex (\<lambda>x. mi_id x = mi_id m \<or> mi_slug x = mi_slug m) (mt_missions s) \<or> \<not> mission_fits m then (MFailed, s)
      else (MDone, s\<lparr>mt_missions := mt_missions s @ [m]\<rparr>))"
| "mission_apply like (MGet i) s =
     (case List.find (\<lambda>m. mi_id m = i) (mt_missions s) of None \<Rightarrow> MNone | Some m \<Rightarrow> MMission m, s)"
| "mission_apply like (MGetSlug slug) s =
     (case List.find (\<lambda>m. mi_slug m = slug) (mt_missions s) of None \<Rightarrow> MNone | Some m \<Rightarrow> MMission m, s)"
| "mission_apply like (MList f limit offset) s =
     (MMissions (take (nat limit) (drop (nat offset)
        (sort_key (\<lambda>m. - mi_updated m) (filter (mission_matches like f) (mt_missions s))))), s)"
| "mission_apply like (MUpdate i new now) s =
     (let ms = map (\<lambda>m. if mi_id m = i then written_mission new now m else m) (mt_missions s) in
      if list_all mission_fits ms then (MDone, s\<lparr>mt_missions := ms\<rparr>) else (MFailed, s))"
| "mission_apply like (MDelete i) s =
     (MNum (int (length (filter (\<lambda>m. mi_id m = i) (mt_missions s)))),
      s\<lparr>mt_missions := filter (\<lambda>m. mi_id m \<noteq> i) (mt_missions s), mt_runs := filter (\<lambda>r. mr_mission r \<noteq> i) (mt_runs s),
        mt_attributions := filter (\<lambda>a. at_mission a \<noteq> i) (mt_attributions s)\<rparr>)"
| "mission_apply like (MRunInsert r) s =
     (if \<not> list_ex (\<lambda>m. mi_id m = mr_mission r) (mt_missions s) \<or> list_ex (\<lambda>x. mr_id x = mr_id r) (mt_runs s) \<or> \<not> run_fits r \<or>
         (case mr_session r of None \<Rightarrow> False | Some sid \<Rightarrow> \<not> mt_live s sid)
      then (MFailed, s)
      else (MDone,
        s\<lparr>mt_runs := mt_runs s @ [r],
          mt_missions := map (\<lambda>m. if mi_id m = mr_mission r then m\<lparr>mi_uses := mi_uses m + 1\<rparr> else m) (mt_missions s)\<rparr>))"
| "mission_apply like (MRunList i limit) s =
     (MRuns (take (nat limit) (sort_key (\<lambda>r. - mr_created r) (filter (\<lambda>r. mr_mission r = i) (mt_runs s)))), s)"
| "mission_apply like (MRunGet mid rid) s = (case find_run mid rid s of None \<Rightarrow> MNone | Some r \<Rightarrow> MRun r, s)"
| "mission_apply like (MRunUpdate mid rid new) s =
     (let rs = map (\<lambda>r. if mr_id r = rid \<and> mr_mission r = mid then written_run new r else r) (mt_runs s) in
      if list_all run_fits rs then (MDone, s\<lparr>mt_runs := rs\<rparr>) else (MFailed, s))"
| "mission_apply like (MSumCosts sid) s = 
     (let cs = if mt_live s sid then mt_metrics s sid else [] in MSum (sum_costs cs) (int (length cs)), s)"
| "mission_apply like (MPutAttribution a) s =
     (if \<not> decimal_fits (at_costs a) \<or> \<not> list_ex (\<lambda>r. mr_id r = at_run a) (mt_runs s) \<or>
         \<not> list_ex (\<lambda>m. mi_id m = at_mission a) (mt_missions s) \<or> \<not> mt_live s (at_session a)
      then (MFailed, s)
      else (MDone, s\<lparr>mt_attributions := put_attribution a (mt_attributions s)\<rparr>))"
| "mission_apply like (MAttribution rid) s =
     (case List.find (\<lambda>a. at_run a = rid) (mt_attributions s) of None \<Rightarrow> MNone | Some a \<Rightarrow> MAttr a, s)"
| "mission_apply like (MAttributionOf mid rid) s =
     (case List.find (\<lambda>a. at_run a = rid \<and> at_mission a = mid) (mt_attributions s) of None \<Rightarrow> MNone | Some a \<Rightarrow> MAttr a, s)"
| "mission_apply like (MMissionSum mid) s =
     (let as = filter (\<lambda>a. at_mission a = mid) (mt_attributions s) in
      (MSummary \<lparr> su_mission = mid, su_runs = int (length as), su_costs = sum_costs (map at_costs as) \<rparr>, s))"

type_synonym 'r mission_prog = "(mission_call, mission_answer, 'r) prog"

section \<open>The manager\<close>

definition found_mission :: "mission_answer \<Rightarrow> mission_error + mission" where
  "found_mission a = (case a of MMission m \<Rightarrow> Inr m | MNone \<Rightarrow> Inl MissionNotFound | _ \<Rightarrow> Inl MissionFailed)"

definition get_mission :: "string \<Rightarrow> (mission_error + mission) mission_prog" where
  "get_mission i = Call (MGet i) (\<lambda>a. Return (found_mission a))"

definition get_mission_by_slug :: "string \<Rightarrow> (mission_error + mission) mission_prog" where
  "get_mission_by_slug slug = Call (MGetSlug slug) (\<lambda>a. Return (found_mission a))"

definition new_mission :: "string option \<Rightarrow> string \<Rightarrow> create_mission \<Rightarrow> string \<Rightarrow> time \<Rightarrow> mission" where
  "new_mission org actor r i now =
     \<lparr> mi_id = i, mi_slug = cm_slug r, mi_name = cm_name r, mi_description = cm_description r, mi_org = org,
        mi_created_by = actor, mi_version = (if cm_version r = [] then ''1.0.0'' else cm_version r),
        mi_published = cm_published r, mi_uses = 0, mi_steps = cm_steps r, mi_tags = cm_tags r, mi_created = now,
        mi_updated = now \<rparr>"

definition create_mission_op ::
  "string option \<Rightarrow> string \<Rightarrow> create_mission \<Rightarrow> string \<Rightarrow> time \<Rightarrow> (mission_error + mission) mission_prog" where
  "create_mission_op org actor req i now =
     (if \<not> create_mission_ok req then Return (Inl InvalidMission)
      else (let r = normalize_mission req in
        Call (MSlugTaken (cm_slug r)) (\<lambda>a.
          case a of
            MFlag taken \<Rightarrow>
              if taken then Return (Inl MissionSlugExists)
              else Call (MInsert (new_mission org actor r i now)) (\<lambda>b.
                if b = MFailed then Return (Inl MissionFailed) else get_mission i)
          | _ \<Rightarrow> Return (Inl MissionFailed))))"

definition list_missions :: "mission_filter \<Rightarrow> (mission_error + mission list) mission_prog" where
  "list_missions f =
     Call (MList f (if mf_limit f \<le> 0 \<or> 100 < mf_limit f then 50 else mf_limit f) (max 0 (mf_offset f))) (\<lambda>a.
       Return (case a of MMissions ms \<Rightarrow> Inr ms | _ \<Rightarrow> Inl MissionFailed))"

text \<open>The row to write, from the row that was read.\<close>

definition merged_mission :: "update_mission \<Rightarrow> mission \<Rightarrow> mission option" where
  "merged_mission u cur =
     (if (case um_name u of None \<Rightarrow> False | Some n \<Rightarrow> \<not> mission_name_ok (trim_space n)) \<or>
         (case um_description u of None \<Rightarrow> False | Some d \<Rightarrow> 4000 < rune_count d) \<or>
         (case um_version u of None \<Rightarrow> False | Some v \<Rightarrow> 20 < rune_count v) \<or>
         (case um_tags u of None \<Rightarrow> False | Some ts \<Rightarrow> \<not> mission_tags_ok ts) \<or>
         (case um_steps u of None \<Rightarrow> False | Some ss \<Rightarrow> \<not> steps_ok ss)
      then None
      else Some (cur\<lparr>mi_name := (case um_name u of None \<Rightarrow> mi_name cur | Some n \<Rightarrow> trim_space n),
                     mi_description := (case um_description u of None \<Rightarrow> mi_description cur | Some d \<Rightarrow> d),
                     mi_version := (case um_version u of None \<Rightarrow> mi_version cur | Some v \<Rightarrow> v),
                     mi_published := (case um_published u of None \<Rightarrow> mi_published cur | Some p \<Rightarrow> p),
                     mi_tags := (case um_tags u of None \<Rightarrow> mi_tags cur | Some ts \<Rightarrow> ts),
                     mi_steps := (case um_steps u of None \<Rightarrow> mi_steps cur | Some ss \<Rightarrow> ss)\<rparr>))"

definition update_mission_op :: "string \<Rightarrow> update_mission \<Rightarrow> time \<Rightarrow> (mission_error + mission) mission_prog" where
  "update_mission_op i u now =
     pbind (get_mission i) (\<lambda>r.
       case r of
         Inl e \<Rightarrow> Return (Inl e)
       | Inr cur \<Rightarrow>
           (case merged_mission u cur of
              None \<Rightarrow> Return (Inl InvalidMission)
            | Some new \<Rightarrow>
                Call (MUpdate i new now) (\<lambda>a. if a = MFailed then Return (Inl MissionFailed) else get_mission i)))"

definition delete_mission_op :: "string \<Rightarrow> (mission_error + unit) mission_prog" where
  "delete_mission_op i =
     Call (MDelete i) (\<lambda>a.
       Return (case a of MNum n \<Rightarrow> if n = 0 then Inl MissionNotFound else Inr () | _ \<Rightarrow> Inl MissionFailed))"

definition new_run ::
  "string \<Rightarrow> string option \<Rightarrow> string option \<Rightarrow> string \<Rightarrow> string \<Rightarrow> string \<Rightarrow> string \<Rightarrow> time \<Rightarrow> mission_run" where
  "new_run mid sid org status results err i now =
     (let st = (if status = [] then ''recorded'' else status) in
      \<lparr> mr_id = i, mr_mission = mid, mr_session = sid, mr_org = org, mr_status = st, mr_results = results, mr_error = err,
         mr_created = now, mr_finished = (if st \<in> {''completed'', ''failed'', ''recorded''} then Some now else None) \<rparr>)"

definition record_run ::
  "string \<Rightarrow> string option \<Rightarrow> string option \<Rightarrow> string \<Rightarrow> string \<Rightarrow> string \<Rightarrow> string \<Rightarrow> time \<Rightarrow>
   (mission_error + mission_run) mission_prog" where
  "record_run mid sid org status results err i now =
     pbind (get_mission mid) (\<lambda>r.
       case r of
         Inl e \<Rightarrow> Return (Inl e)
       | Inr _ \<Rightarrow>
           (let run = new_run mid sid org status results err i now in
            Call (MRunInsert run) (\<lambda>a. Return (if a = MFailed then Inl MissionFailed else Inr run))))"

definition list_runs :: "string \<Rightarrow> int \<Rightarrow> (mission_error + mission_run list) mission_prog" where
  "list_runs mid limit =
     Call (MRunList mid (if limit \<le> 0 \<or> 100 < limit then 20 else limit)) (\<lambda>a.
       Return (case a of MRuns rs \<Rightarrow> Inr rs | _ \<Rightarrow> Inl MissionFailed))"

section \<open>Runs and costs\<close>

definition get_run :: "string \<Rightarrow> string \<Rightarrow> (mission_error + mission_run) mission_prog" where
  "get_run mid rid =
     Call (MRunGet mid rid) (\<lambda>a.
       Return (case a of MRun r \<Rightarrow> Inr r | MNone \<Rightarrow> Inl RunNotFound | _ \<Rightarrow> Inl MissionFailed))"

definition run_statuses :: "string list" where
  "run_statuses = [''pending'', ''recorded'', ''running'', ''completed'', ''failed'', ''cancelled'']"

definition merged_run :: "update_run \<Rightarrow> time \<Rightarrow> mission_run \<Rightarrow> mission_run option" where
  "merged_run u now cur =
     (if ur_status u \<noteq> [] \<and> ur_status u \<notin> set run_statuses then None
      else if (case ur_results u of None \<Rightarrow> False | Some t \<Rightarrow> 256 * 1024 < length t) then None
      else (let st = (if ur_status u = [] then mr_status cur else ur_status u) in
        Some (cur\<lparr>mr_status := st,
                  mr_results := (case ur_results u of None \<Rightarrow> mr_results cur | Some t \<Rightarrow> t),
                  mr_error := (if ur_error u \<noteq> [] \<or> ur_status u = ''failed'' then ur_error u else mr_error cur),
                  mr_finished :=
                    (if st \<in> {''completed'', ''failed'', ''recorded'', ''cancelled''}
                     then (case mr_finished cur of None \<Rightarrow> Some now | Some t \<Rightarrow> Some t)
                     else if st \<in> {''pending'', ''running''} then None
                     else mr_finished cur)\<rparr>)))"

definition update_run_op :: "string \<Rightarrow> string \<Rightarrow> update_run \<Rightarrow> time \<Rightarrow> (mission_error + mission_run) mission_prog" where
  "update_run_op mid rid u now =
     pbind (get_run mid rid) (\<lambda>r.
       case r of
         Inl e \<Rightarrow> Return (Inl e)
       | Inr cur \<Rightarrow>
           (case merged_run u now cur of
              None \<Rightarrow> Return (Inl InvalidMission)
            | Some new \<Rightarrow>
                Call (MRunUpdate mid rid new) (\<lambda>a. if a = MFailed then Return (Inl MissionFailed) else get_run mid rid)))"

definition attribute_run_costs :: "string \<Rightarrow> string \<Rightarrow> string \<Rightarrow> time \<Rightarrow> (mission_error + attribution) mission_prog" where
  "attribute_run_costs mid rid i now =
     pbind (get_run mid rid) (\<lambda>r.
       case r of
         Inl e \<Rightarrow> Return (Inl e)
       | Inr run \<Rightarrow>
           (case mr_session run of
              None \<Rightarrow> Return (Inl InvalidMission)
            | Some sid \<Rightarrow>
                Call (MSumCosts sid) (\<lambda>a.
                  case a of
                    MSum c n \<Rightarrow>
                      Call (MPutAttribution \<lparr> at_id = i, at_mission = mid, at_run = rid, at_session = sid, at_costs = c,
                                               at_count = n, at_created = now \<rparr>) (\<lambda>b.
                        if b = MFailed then Return (Inl MissionFailed)
                        else Call (MAttribution rid) (\<lambda>d.
                          Return (case d of MAttr x \<Rightarrow> Inr x | _ \<Rightarrow> Inl MissionFailed)))
                  | _ \<Rightarrow> Return (Inl MissionFailed))))"

definition get_run_attribution :: "string \<Rightarrow> string \<Rightarrow> (mission_error + attribution) mission_prog" where
  "get_run_attribution mid rid =
     Call (MAttributionOf mid rid) (\<lambda>a.
       Return (case a of MAttr x \<Rightarrow> Inr x | MNone \<Rightarrow> Inl RunNotFound | _ \<Rightarrow> Inl MissionFailed))"

definition mission_cost_summary :: "string \<Rightarrow> (mission_error + cost_summary) mission_prog" where
  "mission_cost_summary mid =
     Call (MMissionSum mid) (\<lambda>a. Return (case a of MSummary x \<Rightarrow> Inr x | _ \<Rightarrow> Inl MissionFailed))"

section \<open>Surroundings and replies\<close>

record mission_env =
  mv_uuid :: "string \<Rightarrow> string option"
  mv_roles :: member_roles
  mv_first_org :: "string \<Rightarrow> string lookup"
  mv_sessions :: sessions

datatype mission_reply =
    MStatus int
  | MissionList "mission list"
  | MissionShown mission
  | MissionMade mission
  | MissionChanged mission
  | MissionGone
  | RunMade mission_run mission
  | RunList "mission_run list"
  | RunShown mission_run
  | RunChanged mission_run "attribution option"
  | RunRefused mission_run
  | CostsShown attribution
  | SummaryShown cost_summary

definition mission_org :: "mission_env \<Rightarrow> string \<Rightarrow> unit + string option" where
  "mission_org ev actor =
     (if actor = master then Inr None
      else case mv_first_org ev actor of NoRows \<Rightarrow> Inr None | DbError \<Rightarrow> Inl () | Found org \<Rightarrow> Inr (Some org))"

text \<open>A member of the organisation of a mission.\<close>

definition is_member :: "mission_env \<Rightarrow> string \<Rightarrow> mission \<Rightarrow> bool" where
  "is_member ev actor m \<longleftrightarrow>
     (case mi_org m of None \<Rightarrow> False | Some org \<Rightarrow> (case mv_roles ev org actor of Found _ \<Rightarrow> True | _ \<Rightarrow> False))"

definition may_read_runs :: "mission_env \<Rightarrow> string \<Rightarrow> mission \<Rightarrow> bool" where
  "may_read_runs ev actor m \<longleftrightarrow>
     actor = master \<or> mi_created_by m \<noteq> [] \<and> mi_created_by m = actor \<or> is_member ev actor m"

definition may_read_mission :: "mission_env \<Rightarrow> string \<Rightarrow> mission \<Rightarrow> bool" where
  "may_read_mission ev actor m \<longleftrightarrow>
     actor = master \<or> mi_published m \<or> mi_created_by m \<noteq> [] \<and> mi_created_by m = actor \<or> is_member ev actor m"

definition may_write_mission :: "mission_env \<Rightarrow> string \<Rightarrow> mission \<Rightarrow> bool" where
  "may_write_mission ev actor m \<longleftrightarrow>
     actor = master \<or> mi_created_by m = actor \<or>
     (case mi_org m of
        None \<Rightarrow> False
      | Some org \<Rightarrow> (case mv_roles ev org actor of Found role \<Rightarrow> role = ''admin'' \<or> role = ''executor'' | _ \<Rightarrow> False))"

section \<open>Missions\<close>

definition list_missions_handler :: "string \<Rightarrow> mission_filter \<Rightarrow> mission_reply mission_prog" where
  "list_missions_handler actor f =
     pbind (list_missions (if actor \<noteq> master then f\<lparr>mf_published := Some True\<rparr> else f)) (\<lambda>r.
       Return (case r of Inl _ \<Rightarrow> MStatus 500 | Inr ms \<Rightarrow> MissionList ms))"

text \<open>The mission of a request, which must satisfy \<open>ok\<close>; \<open>refusal\<close> is the status otherwise.\<close>

definition with_mission ::
  "(mission_error + mission) mission_prog \<Rightarrow> (mission \<Rightarrow> bool) \<Rightarrow> int \<Rightarrow> (mission \<Rightarrow> mission_reply mission_prog) \<Rightarrow>
   mission_reply mission_prog" where
  "with_mission get ok refusal p =
     pbind get (\<lambda>r.
       case r of
         Inl MissionNotFound \<Rightarrow> Return (MStatus 404)
       | Inl _ \<Rightarrow> Return (MStatus 500)
       | Inr m \<Rightarrow> if ok m then p m else Return (MStatus refusal))"

definition get_mission_handler :: "mission_env \<Rightarrow> string \<Rightarrow> string \<Rightarrow> mission_reply mission_prog" where
  "get_mission_handler ev actor raw =
     (case mv_uuid ev raw of
        None \<Rightarrow> Return (MStatus 400)
      | Some i \<Rightarrow> with_mission (get_mission i) (may_read_mission ev actor) 404 (\<lambda>m. Return (MissionShown m)))"

definition mission_by_slug_handler :: "mission_env \<Rightarrow> string \<Rightarrow> string \<Rightarrow> mission_reply mission_prog" where
  "mission_by_slug_handler ev actor slug =
     with_mission (get_mission_by_slug slug) (may_read_mission ev actor) 404 (\<lambda>m. Return (MissionShown m))"

text \<open>The binding requires a slug, a name and the steps; \<open>None\<close> is a body that does not bind.\<close>

definition create_mission_handler ::
  "mission_env \<Rightarrow> string \<Rightarrow> create_mission option \<Rightarrow> string \<Rightarrow> time \<Rightarrow> mission_reply mission_prog" where
  "create_mission_handler ev actor body i now =
     (case body of
        None \<Rightarrow> Return (MStatus 400)
      | Some r \<Rightarrow>
          (case mission_org ev actor of
             Inl _ \<Rightarrow> Return (MStatus 500)
           | Inr org \<Rightarrow>
               pbind (create_mission_op org actor r i now) (\<lambda>q.
                 Return (case q of
                   Inl MissionSlugExists \<Rightarrow> MStatus 409
                 | Inl InvalidMission \<Rightarrow> MStatus 400
                 | Inl _ \<Rightarrow> MStatus 500
                 | Inr m \<Rightarrow> MissionMade m))))"

definition update_mission_handler ::
  "mission_env \<Rightarrow> string \<Rightarrow> string \<Rightarrow> update_mission option \<Rightarrow> time \<Rightarrow> mission_reply mission_prog" where
  "update_mission_handler ev actor raw body now =
     (case mv_uuid ev raw of
        None \<Rightarrow> Return (MStatus 400)
      | Some i \<Rightarrow>
          with_mission (get_mission i) (may_write_mission ev actor) 403 (\<lambda>_.
            case body of
              None \<Rightarrow> Return (MStatus 400)
            | Some u \<Rightarrow>
                pbind (update_mission_op i u now) (\<lambda>q.
                  Return (case q of Inl InvalidMission \<Rightarrow> MStatus 400 | Inl _ \<Rightarrow> MStatus 500 | Inr m \<Rightarrow> MissionChanged m))))"

definition delete_mission_handler :: "mission_env \<Rightarrow> string \<Rightarrow> string \<Rightarrow> mission_reply mission_prog" where
  "delete_mission_handler ev actor raw =
     (case mv_uuid ev raw of
        None \<Rightarrow> Return (MStatus 400)
      | Some i \<Rightarrow>
          with_mission (get_mission i) (may_write_mission ev actor) 403 (\<lambda>_.
            pbind (delete_mission_op i) (\<lambda>q. Return (case q of Inl _ \<Rightarrow> MStatus 500 | Inr _ \<Rightarrow> MissionGone))))"

section \<open>Runs\<close>

text \<open>\<open>checkSessionAccess\<close> writes its own reply.\<close>

definition session_viewable ::
  "mission_env \<Rightarrow> string \<Rightarrow> string \<Rightarrow> mission_reply mission_prog \<Rightarrow> mission_reply mission_prog" where
  "session_viewable ev actor sid p =
     (case check_session_access (mv_sessions ev) (mv_roles ev) actor sid ''viewer'' of
        Inl code \<Rightarrow> Return (MStatus (int code))
      | Inr _ \<Rightarrow> p)"

text \<open>\<open>sid\<close> is the session of the body, where it binds and has one; \<open>i\<close> a fresh identifier.\<close>

definition record_run_handler ::
  "mission_env \<Rightarrow> string \<Rightarrow> string \<Rightarrow> string option \<Rightarrow> string \<Rightarrow> time \<Rightarrow> mission_reply mission_prog" where
  "record_run_handler ev actor raw sid i now =
     (case mv_uuid ev raw of
        None \<Rightarrow> Return (MStatus 400)
      | Some mid \<Rightarrow>
          with_mission (get_mission mid) (may_write_mission ev actor) 403 (\<lambda>m.
            let org = (case mission_org ev actor of Inl _ \<Rightarrow> None | Inr o' \<Rightarrow> o');
                p = pbind (record_run mid sid org ''recorded'' ''[]'' [] i now) (\<lambda>q.
                      Return (case q of Inl _ \<Rightarrow> MStatus 500 | Inr run \<Rightarrow> RunMade run m))
            in case sid of None \<Rightarrow> p | Some x \<Rightarrow> session_viewable ev actor x p))"

definition list_runs_handler :: "mission_env \<Rightarrow> string \<Rightarrow> string \<Rightarrow> mission_reply mission_prog" where
  "list_runs_handler ev actor raw =
     (case mv_uuid ev raw of
        None \<Rightarrow> Return (MStatus 400)
      | Some mid \<Rightarrow>
          with_mission (get_mission mid) (may_read_runs ev actor) 404 (\<lambda>_.
            pbind (list_runs mid 50) (\<lambda>q. Return (case q of Inl _ \<Rightarrow> MStatus 500 | Inr rs \<Rightarrow> RunList rs))))"

text \<open>The identifiers of a mission and a run, and the mission.\<close>

definition with_ids ::
  "mission_env \<Rightarrow> string \<Rightarrow> string \<Rightarrow> (mission \<Rightarrow> bool) \<Rightarrow> int \<Rightarrow> (string \<Rightarrow> string \<Rightarrow> mission_reply mission_prog) \<Rightarrow>
   mission_reply mission_prog" where
  "with_ids ev raw raw_run ok refusal p =
     (case mv_uuid ev raw of
        None \<Rightarrow> Return (MStatus 400)
      | Some mid \<Rightarrow>
          (case mv_uuid ev raw_run of
             None \<Rightarrow> Return (MStatus 400)
           | Some rid \<Rightarrow> with_mission (get_mission mid) ok refusal (\<lambda>_. p mid rid)))"

definition with_run ::
  "(mission_error + mission_run) mission_prog \<Rightarrow> (mission_run \<Rightarrow> mission_reply mission_prog) \<Rightarrow> mission_reply mission_prog" where
  "with_run get p =
     pbind get (\<lambda>q.
       case q of
         Inl RunNotFound \<Rightarrow> Return (MStatus 404)
       | Inl InvalidMission \<Rightarrow> Return (MStatus 400)
       | Inl _ \<Rightarrow> Return (MStatus 500)
       | Inr run \<Rightarrow> p run)"

definition get_run_handler :: "mission_env \<Rightarrow> string \<Rightarrow> string \<Rightarrow> string \<Rightarrow> mission_reply mission_prog" where
  "get_run_handler ev actor raw raw_run =
     with_ids ev raw raw_run (may_read_runs ev actor) 404 (\<lambda>mid rid.
       with_run (get_run mid rid) (\<lambda>run. Return (RunShown run)))"

definition update_run_handler ::
  "mission_env \<Rightarrow> string \<Rightarrow> string \<Rightarrow> string \<Rightarrow> update_run option \<Rightarrow> string \<Rightarrow> time \<Rightarrow> mission_reply mission_prog" where
  "update_run_handler ev actor raw raw_run body i now =
     with_ids ev raw raw_run (may_write_mission ev actor) 403 (\<lambda>mid rid.
       case body of
         None \<Rightarrow> Return (MStatus 400)
       | Some u \<Rightarrow>
           with_run (update_run_op mid rid u now) (\<lambda>run.
             if \<not> ur_attribute u then Return (RunChanged run None)
             else (case mr_session run of
                None \<Rightarrow> Return (RunRefused run)
              | Some sid \<Rightarrow>
                  session_viewable ev actor sid
                    (pbind (attribute_run_costs mid rid i now) (\<lambda>q.
                       Return (case q of Inl _ \<Rightarrow> RunRefused run | Inr a \<Rightarrow> RunChanged run (Some a)))))))"

definition attribute_costs_handler ::
  "mission_env \<Rightarrow> string \<Rightarrow> string \<Rightarrow> string \<Rightarrow> string \<Rightarrow> time \<Rightarrow> mission_reply mission_prog" where
  "attribute_costs_handler ev actor raw raw_run i now =
     with_ids ev raw raw_run (may_write_mission ev actor) 403 (\<lambda>mid rid.
       with_run (get_run mid rid) (\<lambda>run.
         case mr_session run of
           None \<Rightarrow> Return (MStatus 400)
         | Some sid \<Rightarrow>
             session_viewable ev actor sid
               (pbind (attribute_run_costs mid rid i now) (\<lambda>q.
                  Return (case q of Inl _ \<Rightarrow> MStatus 400 | Inr a \<Rightarrow> CostsShown a)))))"

definition get_run_costs_handler :: "mission_env \<Rightarrow> string \<Rightarrow> string \<Rightarrow> string \<Rightarrow> mission_reply mission_prog" where
  "get_run_costs_handler ev actor raw raw_run =
     with_ids ev raw raw_run (may_read_runs ev actor) 404 (\<lambda>mid rid.
       pbind (get_run_attribution mid rid) (\<lambda>q.
         Return (case q of Inl RunNotFound \<Rightarrow> MStatus 404 | Inl _ \<Rightarrow> MStatus 500 | Inr a \<Rightarrow> CostsShown a)))"

definition get_mission_costs_handler :: "mission_env \<Rightarrow> string \<Rightarrow> string \<Rightarrow> mission_reply mission_prog" where
  "get_mission_costs_handler ev actor raw =
     (case mv_uuid ev raw of
        None \<Rightarrow> Return (MStatus 400)
      | Some mid \<Rightarrow>
          with_mission (get_mission mid) (may_read_runs ev actor) 404 (\<lambda>_.
            pbind (mission_cost_summary mid) (\<lambda>q. Return (case q of Inl _ \<Rightarrow> MStatus 500 | Inr x \<Rightarrow> SummaryShown x))))"

end
