(* ===== verification/MissionProps.thy ===== *)
theory MissionProps
  imports Missions
begin

text \<open>
  Missions over all interleavings of the endpoints: stored missions stay valid and attributed costs are
  what a session had been metered.  Updates that get lost and costs that are counted twice.
\<close>

section \<open>Guards\<close>

type_synonym mission_calls = "(mission_call, mission_answer) calls"

definition mission_ok :: "mission \<Rightarrow> bool" where
  "mission_ok m \<longleftrightarrow>
     mission_slug_ok (mi_slug m) \<and> mission_name_ok (mi_name m) \<and> rune_count (mi_description m) \<le> 4000 \<and>
     rune_count (mi_version m) \<le> 20 \<and> mission_tags_ok (mi_tags m) \<and> steps_ok (mi_steps m)"

text \<open>
  Every write follows a read of the mission that its caller may write; an attribution also follows a read
  of the run and the sum of the costs of its session, which the caller may view.
\<close>

definition read_by :: "(mission \<Rightarrow> bool) \<Rightarrow> string \<Rightarrow> mission_calls \<Rightarrow> bool" where
  "read_by w i h \<longleftrightarrow> (\<exists>m. (MGet i, MMission m) \<in> set h \<and> w m)"

lemma read_by_append [simp]:
  "read_by w i (g @ h) \<longleftrightarrow> read_by w i g \<or> read_by w i h" "read_by w i [] = False"
  "read_by w i ((c, a) # h) \<longleftrightarrow> (\<exists>m. c = MGet i \<and> a = MMission m \<and> w m) \<or> read_by w i h"
  by (auto simp: read_by_def)

definition mission_guard ::
  "(mission \<Rightarrow> bool) \<Rightarrow> (string \<Rightarrow> bool) \<Rightarrow> mission_calls \<Rightarrow> mission_call \<Rightarrow> bool" where
  "mission_guard w view h c =
     (case c of
        MInsert m \<Rightarrow> mission_ok m
      | MUpdate i new now \<Rightarrow> read_by w i h \<and> read_by (\<lambda>m. \<exists>u. merged_mission u m = Some new) i h
      | MDelete i \<Rightarrow> read_by w i h
      | MRunInsert r \<Rightarrow> read_by w (mr_mission r) h \<and> (\<forall>sid. mr_session r = Some sid \<longrightarrow> view sid)
      | MRunUpdate mid rid new \<Rightarrow> read_by w mid h
      | MPutAttribution a \<Rightarrow>
          read_by w (at_mission a) h \<and>
          (\<exists>r. (MRunGet (at_mission a) (at_run a), MRun r) \<in> set h \<and> mr_session r = Some (at_session a)) \<and>
          (MSumCosts (at_session a), MSum (at_costs a) (at_count a)) \<in> set h
      | _ \<Rightarrow> True)"

lemma mission_guard_simps [simp]:
  "mission_guard w v h (MSlugTaken slug)" "mission_guard w v h (MGet i)" "mission_guard w v h (MGetSlug slug)"
  "mission_guard w v h (MList f l off)" "mission_guard w v h (MRunList i l)" "mission_guard w v h (MRunGet i r)"
  "mission_guard w v h (MSumCosts sid)" "mission_guard w v h (MAttribution rid)" "mission_guard w v h (MAttributionOf i r)"
  "mission_guard w v h (MMissionSum i)" "mission_guard w v h (MInsert m) = mission_ok m"
  by (simp_all add: mission_guard_def)

lemma found_mission_row: "found_mission a = Inr m \<longleftrightarrow> a = MMission m"
  by (cases a) (auto simp: found_mission_def)

lemma get_mission_ok [simp]:
  "prog_ok (mission_guard w v) P (get_mission i) h \<longleftrightarrow> (\<forall>a. P (h @ [(MGet i, a)]) (found_mission a))"
  "prog_ok (mission_guard w v) P (get_mission_by_slug slug) h \<longleftrightarrow> (\<forall>a. P (h @ [(MGetSlug slug, a)]) (found_mission a))"
  by (simp_all add: get_mission_def get_mission_by_slug_def)

lemma with_mission_ok:
  assumes "\<And>m. ok m \<Longrightarrow> calls_ok (mission_guard w v) (p m) (h @ [(MGet i, MMission m)])"
  shows "calls_ok (mission_guard w v) (with_mission (get_mission i) ok code p) h"
  using assms by (auto simp: with_mission_def found_mission_row split: sum.split mission_error.split)

lemma with_ids_ok:
  assumes "\<And>mid rid m. ok m \<Longrightarrow> calls_ok (mission_guard w v) (p mid rid) (h @ [(MGet mid, MMission m)])"
  shows "calls_ok (mission_guard w v) (with_ids ev raw raw_run ok code p) h"
  using assms by (auto simp: with_ids_def intro!: with_mission_ok split: option.split)

lemma session_viewable_ok:
  assumes "is_ok (check_session_access (mv_sessions ev) (mv_roles ev) actor sid ''viewer'') \<Longrightarrow> calls_ok Q p h"
  shows "calls_ok Q (session_viewable ev actor sid p) h"
  using assms by (auto simp: session_viewable_def split: sum.split)

definition viewable :: "mission_env \<Rightarrow> string \<Rightarrow> string \<Rightarrow> bool" where
  "viewable ev actor sid \<longleftrightarrow> is_ok (check_session_access (mv_sessions ev) (mv_roles ev) actor sid ''viewer'')"

lemma new_mission_ok:
  "create_mission_ok r \<Longrightarrow> mission_ok (new_mission org actor (normalize_mission r) i now)"
  using rune_count_le_length [of "''1.0.0''"]
  by (auto simp: create_mission_ok_def mission_ok_def new_mission_def normalize_mission_def)

lemma readers_of_missions:
  "calls_ok (mission_guard w v) (list_missions_handler actor f) []"
  "calls_ok (mission_guard w v) (get_mission_handler ev actor raw) []"
  "calls_ok (mission_guard w v) (mission_by_slug_handler ev actor slug) []"
  "calls_ok (mission_guard w v) (list_runs_handler ev actor raw) []"
  "calls_ok (mission_guard w v) (get_run_handler ev actor raw raw_run) []"
  "calls_ok (mission_guard w v) (get_run_costs_handler ev actor raw raw_run) []"
  "calls_ok (mission_guard w v) (get_mission_costs_handler ev actor raw) []"
  by (auto simp: list_missions_handler_def list_missions_def get_mission_handler_def mission_by_slug_handler_def
      list_runs_handler_def list_runs_def get_run_handler_def with_run_def get_run_def get_run_costs_handler_def
      get_run_attribution_def get_mission_costs_handler_def mission_cost_summary_def with_mission_def found_mission_row
      intro!: with_ids_ok split: option.split sum.split mission_error.split)

lemma create_mission_guarded: "calls_ok (mission_guard w v) (create_mission_handler ev actor body i now) []"
  by (auto simp: create_mission_handler_def create_mission_op_def new_mission_ok Let_def split: option.split sum.split mission_answer.split)

text \<open>The operations, once the mission was read.\<close>

lemma update_mission_op_ok:
  assumes "read_by w i h" "\<And>g r. P g r"
  shows "prog_ok (mission_guard w v) P (update_mission_op i u now) h"
  using assms by (auto simp: update_mission_op_def found_mission_row mission_guard_def split: option.split sum.split)

lemma record_run_ok:
  assumes "read_by w mid h" "\<And>x. sid = Some x \<Longrightarrow> v x" "\<And>g r. P g r"
  shows "prog_ok (mission_guard w v) P (record_run mid sid org st res err i now) h"
  using assms by (auto simp: record_run_def Let_def new_run_def mission_guard_def split: sum.split)

lemma update_run_op_ok:
  assumes "read_by w mid h" "\<And>g r. read_by w mid g \<Longrightarrow> P g r"
  shows "prog_ok (mission_guard w v) P (update_run_op mid rid u now) h"
  using assms by (auto simp: update_run_op_def get_run_def mission_guard_def split: option.split sum.split)

lemma attribute_ok:
  assumes "read_by w mid h" "\<And>g r. P g r"
  shows "prog_ok (mission_guard w v) P (attribute_run_costs mid rid i now) h"
  using assms
  by (auto simp: attribute_run_costs_def get_run_def mission_guard_def split: option.split sum.split mission_answer.splits)

lemma update_mission_guarded:
  "calls_ok (mission_guard (may_write_mission ev actor) v) (update_mission_handler ev actor raw body now) []"
  by (auto simp: update_mission_handler_def intro!: with_mission_ok update_mission_op_ok split: option.split)

lemma delete_mission_guarded:
  "calls_ok (mission_guard (may_write_mission ev actor) v) (delete_mission_handler ev actor raw) []"
  by (auto simp: delete_mission_handler_def delete_mission_op_def mission_guard_def intro!: with_mission_ok
      split: option.split)

lemma record_run_guarded:
  "calls_ok (mission_guard (may_write_mission ev actor) (viewable ev actor)) (record_run_handler ev actor raw sid i now) []"
  by (auto simp: record_run_handler_def Let_def viewable_def
      intro!: with_mission_ok session_viewable_ok record_run_ok split: option.split)

lemma with_run_ok:
  assumes "prog_ok Q (\<lambda>g r. \<forall>run. r = Inr run \<longrightarrow> calls_ok Q (p run) g) get h"
  shows "calls_ok Q (with_run get p) h"
  using assms by (auto simp: with_run_def elim!: prog_ok_mono split: sum.split mission_error.split)

lemma update_run_guarded:
  "calls_ok (mission_guard (may_write_mission ev actor) v) (update_run_handler ev actor raw raw_run body i now) []"
  by (auto simp: update_run_handler_def intro!: with_ids_ok with_run_ok update_run_op_ok session_viewable_ok attribute_ok
      split: option.split)

lemma attribute_costs_guarded:
  "calls_ok (mission_guard (may_write_mission ev actor) v) (attribute_costs_handler ev actor raw raw_run i now) []"
  by (auto simp: attribute_costs_handler_def get_run_def
      intro!: with_ids_ok with_run_ok session_viewable_ok attribute_ok split: option.split mission_answer.split)

section \<open>Runs\<close>

inductive mission_op :: "mission_env \<Rightarrow> string \<Rightarrow> mission_reply mission_prog \<Rightarrow> bool" for ev where
  "mission_op ev actor (list_missions_handler actor f)"
| "mission_op ev actor (get_mission_handler ev actor raw)"
| "mission_op ev actor (mission_by_slug_handler ev actor slug)"
| "mission_op ev actor (create_mission_handler ev actor body i now)"
| "mission_op ev actor (update_mission_handler ev actor raw ubody now)"
| "mission_op ev actor (delete_mission_handler ev actor raw)"
| "mission_op ev actor (record_run_handler ev actor raw sid i now)"
| "mission_op ev actor (list_runs_handler ev actor raw)"
| "mission_op ev actor (get_run_handler ev actor raw raw_run)"
| "mission_op ev actor (update_run_handler ev actor raw raw_run rbody i now)"
| "mission_op ev actor (attribute_costs_handler ev actor raw raw_run i now)"
| "mission_op ev actor (get_run_costs_handler ev actor raw raw_run)"
| "mission_op ev actor (get_mission_costs_handler ev actor raw)"

definition any_actor :: "mission_env \<Rightarrow> mission_reply mission_prog \<Rightarrow> bool" where
  "any_actor ev p \<longleftrightarrow> (\<exists>actor. mission_op ev actor p)"

lemma mission_op_guarded:
  "mission_op ev actor p \<Longrightarrow> calls_ok (mission_guard (may_write_mission ev actor) (viewable ev actor)) p []"
  by (induction rule: mission_op.induct)
    (rule readers_of_missions create_mission_guarded update_mission_guarded delete_mission_guarded record_run_guarded
      update_run_guarded attribute_costs_guarded)+

text \<open>
  Elsewhere sessions are metered, which only adds, and deleted, which clears them in the runs and removes
  attributions; an organisation that is deleted is cleared in its missions.
\<close>

definition mission_world :: "mission_store \<Rightarrow> mission_store \<Rightarrow> bool" where
  "mission_world s s' \<longleftrightarrow>      \<comment> \<open>\<open>mt_metrics\<close> of a session that is gone is not read\<close>
     list_all2 (\<lambda>m m'. m' = m \<or> m' = m\<lparr>mi_org := None\<rparr>) (mt_missions s) (mt_missions s') \<and>
     list_all2 (\<lambda>r r'. r' = r \<or> r' = r\<lparr>mr_session := None\<rparr>) (mt_runs s) (mt_runs s') \<and>
     set (mt_attributions s') \<subseteq> set (mt_attributions s) \<and> (\<forall>sid. prefix (mt_metrics s sid) (mt_metrics s' sid))"

abbreviation mission_reach ::
  "(string \<Rightarrow> string \<Rightarrow> bool) \<Rightarrow> mission_env \<Rightarrow> mission_store \<Rightarrow>
   (mission_store, mission_call, mission_answer, mission_reply) system \<Rightarrow> bool" where
  "mission_reach like ev \<equiv> sys_reach (mission_apply like) MFailed (any_actor ev) mission_world"

section \<open>Stored missions\<close>

lemma mission_ok_free [simp]:
  "mission_ok (m\<lparr>mi_uses := n\<rparr>) = mission_ok m" "mission_ok (m\<lparr>mi_org := o'\<rparr>) = mission_ok m"
  by (simp_all add: mission_ok_def)

lemma merged_mission_ok: "merged_mission u m = Some new \<Longrightarrow> mission_ok m \<Longrightarrow> mission_ok new"
  by (auto simp: merged_mission_def mission_ok_def split: if_splits option.splits)

lemma written_mission_ok: "mission_ok new \<Longrightarrow> mission_ok old \<Longrightarrow> mission_ok (written_mission new now old)"
  by (simp add: mission_ok_def written_mission_def)

lemma written_mission_keeps [simp]:
  "mi_id (written_mission new now m) = mi_id m" "mi_slug (written_mission new now m) = mi_slug m"
  by (simp_all add: written_mission_def)

definition metered :: "mission_store \<Rightarrow> string \<Rightarrow> costs \<Rightarrow> int \<Rightarrow> bool" where
  "metered s sid c n \<longleftrightarrow>
     (\<exists>k \<le> length (mt_metrics s sid). n = int k \<and> c = sum_costs (take k (mt_metrics s sid)))"

definition missions_inv :: "(mission_call, mission_answer) entry list \<Rightarrow> mission_store \<Rightarrow> bool" where
  "missions_inv es s \<longleftrightarrow>
     (list_all mission_ok (mt_missions s) \<and> distinct (map mi_slug (mt_missions s)) \<and> distinct (map mi_id (mt_missions s))) \<and>
     (\<forall>e \<in> set es. \<forall>i m. en_call e = MGet i \<and> en_answer e = MMission m \<longrightarrow> mission_ok m) \<and>
     (\<forall>e \<in> set es. \<forall>sid c n. en_call e = MSumCosts sid \<and> en_answer e = MSum c n \<longrightarrow> metered s sid c n) \<and>
     (\<forall>x \<in> set (mt_attributions s). \<exists>e \<in> set es. \<exists>a. en_call e = MPutAttribution a \<and> at_run a = at_run x \<and>
        at_costs a = at_costs x \<and> at_count a = at_count x)"

lemma map_keeps:
  "(\<And>t. f (g t) = f t) \<Longrightarrow> map f (map (\<lambda>t. if P t then g t else t) ts) = map f ts"
  by (induction ts) auto

lemma missions_kept:
  assumes "list_all mission_ok (mt_missions s) \<and> distinct (map mi_slug (mt_missions s)) \<and> distinct (map mi_id (mt_missions s))"
    and "\<And>i new now. c = MUpdate i new now \<Longrightarrow> mission_ok new" "\<And>m. c = MInsert m \<Longrightarrow> mission_ok m"
    and "do_call (mission_apply like) MFailed fate c s = (a, s')"
  shows "list_all mission_ok (mt_missions s') \<and> distinct (map mi_slug (mt_missions s')) \<and> distinct (map mi_id (mt_missions s'))"
proof (cases "fate = CallUnreached")
  case True
  with assms show ?thesis by (simp add: do_call_def)
next
  case False
  with assms(4) have s': "s' = snd (mission_apply like c s)" by (auto simp: do_call_def split: call_fate.splits)
  show ?thesis
  proof (cases c)
    case (MInsert m)
    with assms(1,3) show ?thesis by (auto simp: s' list_ex_iff)
  next
    case (MUpdate i new now)
    with assms(1,2) show ?thesis
      by (auto simp: s' Let_def list_all_iff map_keeps simp del: map_map intro: written_mission_ok)
  next
    case (MDelete i)
    with assms(1) show ?thesis by (auto simp: s' list_all_iff intro: distinct_map_filter)
  next
    case (MRunInsert r)
    with assms(1) show ?thesis by (auto simp: s' list_all_iff map_keeps simp del: map_map)
  qed (use assms(1) in \<open>auto simp: s' Let_def\<close>)
qed

section \<open>Attributed costs\<close>

lemma metrics_after: "mt_metrics (snd (do_call (mission_apply like) MFailed fate c s)) = mt_metrics s"
  by (cases fate; cases c) (auto simp: do_call_def Let_def)

lemma attributions_after:
  "x \<in> set (mt_attributions (snd (do_call (mission_apply like) MFailed fate c s))) \<Longrightarrow>
     (\<exists>y \<in> set (mt_attributions s). at_run x = at_run y \<and> at_costs x = at_costs y \<and> at_count x = at_count y) \<or>
     (\<exists>a. c = MPutAttribution a \<and> at_run x = at_run a \<and> at_costs x = at_costs a \<and> at_count x = at_count a)"
  by (cases fate; cases c) (auto simp: do_call_def Let_def put_attribution_def split: if_splits)

lemma summed_is_metered:
  "do_call (mission_apply like) MFailed fate (MSumCosts sid) s = (MSum c n, s') \<Longrightarrow> metered s' sid c n"
  by (auto simp: do_call_def metered_def Let_def split: call_fate.splits if_splits intro: exI [of _ "length (mt_metrics s sid)"] exI [of _ 0])

lemma answered_mission:
  "do_call (mission_apply like) MFailed fate (MGet i) s = (MMission m, s') \<Longrightarrow> m \<in> set (mt_missions s)"
  by (auto simp: do_call_def find_Some_iff split: call_fate.splits option.splits)

lemma missions_inv_call:
  assumes inv: "missions_inv es s" and guard: "mission_guard (\<lambda>_. True) (\<lambda>_. True) (calls_of i es) c"
    and step: "do_call (mission_apply like) MFailed fate c s = (a, s')"
  shows "missions_inv (es @ [\<lparr> en_thread = i, en_call = c, en_fate = fate, en_answer = a \<rparr>]) s'"
    (is "missions_inv (es @ [?e]) s'")
proof -
  from step have s': "s' = snd (do_call (mission_apply like) MFailed fate c s)" by simp
  have good: "mission_ok m" if "(MGet j, MMission m) \<in> set (calls_of i es)" for j m
    using that inv by (auto simp: missions_inv_def calls_of_member)
  have "list_all mission_ok (mt_missions s') \<and> distinct (map mi_slug (mt_missions s')) \<and> distinct (map mi_id (mt_missions s'))"
    using inv guard by (intro missions_kept [OF _ _ _ step])
      (auto simp: missions_inv_def mission_guard_def read_by_def dest: merged_mission_ok good)
  moreover have "mission_ok m" if "c = MGet j" "a = MMission m" for j m
    using answered_mission [of like fate j s m s'] step inv that by (auto simp: missions_inv_def list_all_iff)
  moreover have "metered s' sid k n" if "e \<in> set (es @ [?e])" "en_call e = MSumCosts sid" "en_answer e = MSum k n" for e sid k n
    using that inv step summed_is_metered [of like fate sid s k n s']
    by (auto simp: missions_inv_def metered_def s' metrics_after)
  moreover have "\<exists>e \<in> set (es @ [?e]). \<exists>b. en_call e = MPutAttribution b \<and> at_run b = at_run x \<and>
      at_costs b = at_costs x \<and> at_count b = at_count x" if "x \<in> set (mt_attributions s')" for x
    using attributions_after [OF that [unfolded s']] inv unfolding missions_inv_def by fastforce
  ultimately show ?thesis using inv unfolding missions_inv_def by auto
qed

lemma metered_mono: "metered s sid c n \<Longrightarrow> prefix (mt_metrics s sid) (mt_metrics s' sid) \<Longrightarrow> metered s' sid c n"
  by (fastforce simp: metered_def prefix_def)

lemma missions_inv_world:
  assumes "missions_inv es s" "mission_world s s'"
  shows "missions_inv es s'"
proof -
  from assms(2) have rel: "list_all2 (\<lambda>m m'. m' = m \<or> m' = m\<lparr>mi_org := None\<rparr>) (mt_missions s) (mt_missions s')"
    by (simp add: mission_world_def)
  then have "map mi_slug (mt_missions s') = map mi_slug (mt_missions s) \<and> map mi_id (mt_missions s') = map mi_id (mt_missions s) \<and>
      (list_all mission_ok (mt_missions s) \<longrightarrow> list_all mission_ok (mt_missions s'))"
    by (induction rule: list_all2_induct) auto
  then have ok: "list_all mission_ok (mt_missions s') \<and> distinct (map mi_slug (mt_missions s')) \<and> distinct (map mi_id (mt_missions s'))"
    using assms(1) unfolding missions_inv_def by simp
  have sub: "set (mt_attributions s') \<subseteq> set (mt_attributions s)"
    and more: "\<And>sid c n. metered s sid c n \<Longrightarrow> metered s' sid c n"
    using assms(2) by (auto simp: mission_world_def intro: metered_mono)
  show ?thesis
    unfolding missions_inv_def
  proof (intro conjI)
    show "\<forall>e \<in> set es. \<forall>sid c n. en_call e = MSumCosts sid \<and> en_answer e = MSum c n \<longrightarrow> metered s' sid c n"
      using assms(1) more unfolding missions_inv_def by simp
    show "\<forall>x \<in> set (mt_attributions s'). \<exists>e \<in> set es. \<exists>a. en_call e = MPutAttribution a \<and> at_run a = at_run x \<and>
        at_costs a = at_costs x \<and> at_count a = at_count x"
      using assms(1) sub unfolding missions_inv_def by (elim conjE) (rule ballI, drule (1) subsetD, erule (1) bspec)
    show "\<forall>e \<in> set es. \<forall>i m. en_call e = MGet i \<and> en_answer e = MMission m \<longrightarrow> mission_ok m"
      using assms(1) unfolding missions_inv_def by (elim conjE)
  qed (use ok in \<open>simp_all\<close>)
qed

lemma mission_guard_mono:
  assumes "mission_guard w v h c" "\<And>m. w m \<Longrightarrow> w' m" "\<And>x. v x \<Longrightarrow> v' x"
  shows "mission_guard w' v' h c"
  using assms by (cases c) (auto simp: mission_guard_def read_by_def)

interpretation missions: store_invariant "mission_apply like" MFailed "any_actor ev" mission_world
    "mission_guard (\<lambda>_. True) (\<lambda>_. True)" missions_inv for like ev
proof
  show "calls_ok (mission_guard (\<lambda>_. True) (\<lambda>_. True)) p []" if "any_actor ev p" for p
    using that unfolding any_actor_def by (auto dest!: mission_op_guarded elim!: prog_ok_mono mission_guard_mono)
qed (fact missions_inv_call missions_inv_world)+

section \<open>Two runs of one session\<close>

definition write_right :: "mission_env \<Rightarrow> mission_reply mission_prog \<Rightarrow> mission \<Rightarrow> bool" where
  "write_right ev p m \<longleftrightarrow> (\<exists>actor. mission_op ev actor p \<and> may_write_mission ev actor m)"

lemma mission_op_guarded_as: "any_actor ev p \<Longrightarrow> calls_ok (mission_guard (write_right ev p) (\<lambda>_. True)) p []"
  unfolding any_actor_def
  by (elim exE, frule mission_op_guarded) (auto simp: write_right_def elim!: prog_ok_mono mission_guard_mono)

definition demo_mission :: mission where
  "demo_mission =
     \<lparr> mi_id = ''m'', mi_slug = ''build'', mi_name = ''Build'', mi_description = [], mi_org = None, mi_created_by = ''ann'',
        mi_version = ''1'', mi_published = False, mi_uses = 2,
        mi_steps = [\<lparr> sp_name = [], sp_tool = ''run'', sp_args = [], sp_description = [], sp_verify = None \<rparr>], mi_tags = [],
        mi_created = 0, mi_updated = 0 \<rparr>"

definition demo_mission_run :: "string \<Rightarrow> mission_run" where
  "demo_mission_run i = new_run ''m'' (Some ''s'') None [] ''[]'' [] i 0"

definition demo_cost :: costs where
  "demo_cost = \<lparr> co_compute = 70, co_storage = 20, co_network = 10, co_total = 100 \<rparr>"

definition demo_missions :: mission_store where
  "demo_missions =
     \<lparr> mt_missions = [demo_mission], mt_runs = [demo_mission_run ''r'', demo_mission_run ''q''], mt_attributions = [],
        mt_metrics = (\<lambda>_. [demo_cost]), mt_live = (\<lambda>_. True) \<rparr>"

definition demo_mission_env :: mission_env where
  "demo_mission_env =
     \<lparr> mv_uuid = (\<lambda>raw. Some raw), mv_roles = (\<lambda>_ _. NoRows), mv_first_org = (\<lambda>_. NoRows),
        mv_sessions = (\<lambda>sid. Found \<lparr> s_id = sid, s_created_by = ''ann'', s_org = None, s_stopped = None, s_container = None,
          s_status = ''active'', s_workspace = [] \<rparr>) \<rparr>"

definition demo_mission_moves :: "(mission_call, mission_answer, mission_reply) move list" where
  "demo_mission_moves =
     [Begin (attribute_costs_handler demo_mission_env ''ann'' ''m'' ''r'' ''a'' 1),
      Begin (attribute_costs_handler demo_mission_env ''ann'' ''m'' ''q'' ''b'' 2)] @
     map (\<lambda>i. Step i CallAnswered) [0, 1, 0, 1, 0, 1, 0, 1, 0, 1, 0, 1]"

definition demo_mission_end :: "(mission_store, mission_call, mission_answer, mission_reply) system" where
  "demo_mission_end =
     the (do_moves (mission_apply (\<lambda>_ _. False)) MFailed demo_mission_moves (boot demo_missions))"

lemma demo_mission_ok: "mission_ok demo_mission"
  by (simp add: demo_mission_def mission_ok_def mission_slug_ok_def mission_slug_pattern_def mission_name_ok_def
      mission_tags_ok_def steps_ok_def step_ok_def) code_simp

lemma demo_mission_facts:
  "mv_uuid demo_mission_env raw = Some raw" "may_write_mission demo_mission_env ''ann'' demo_mission" "mi_id demo_mission = ''m''"
  "is_ok (check_session_access (mv_sessions demo_mission_env) (mv_roles demo_mission_env) ''ann'' sid ''viewer'')"
  by (simp_all add: demo_mission_env_def may_write_mission_def demo_mission_def check_session_access_def session_if_accessible_def)

lemma demo_session_viewable: "session_viewable demo_mission_env ''ann'' sid p = p"
  using demo_mission_facts(4) [of sid] by (auto simp: session_viewable_def split: sum.splits)

definition demo_attribution :: "string \<Rightarrow> string \<Rightarrow> time \<Rightarrow> attribution" where
  "demo_attribution i r now =
     \<lparr> at_id = i, at_mission = ''m'', at_run = r, at_session = ''s'', at_costs = demo_cost, at_count = 1, at_created = now \<rparr>"

lemma demo_mission_run:
  "do_moves (mission_apply (\<lambda>_ _. False)) MFailed demo_mission_moves (boot demo_missions) = Some demo_mission_end"
  "mt_attributions (sy_store demo_mission_end) = [demo_attribution ''a'' ''r'' 1, demo_attribution ''b'' ''q'' 2]"
  by (simp_all cong: Call_lazy add: demo_mission_end_def demo_mission_moves_def boot_def fresh_thread_def
      attribute_costs_handler_def with_ids_def with_mission_def with_run_def get_mission_def found_mission_def get_run_def
      attribute_run_costs_def demo_mission_facts demo_session_viewable demo_missions_def find_run_def demo_mission_run_def
      new_run_def do_call_def put_attribution_def demo_attribution_def decimal_fits_def sum_costs_def zero_costs_def add_costs_def demo_cost_def Let_def)

lemma demo_mission_reach: "mission_reach (\<lambda>_ _. False) demo_mission_env demo_missions demo_mission_end"
  by (rule do_moves_reach [OF demo_mission_run(1) reach_boot])
    (auto simp: demo_mission_moves_def any_actor_def intro: mission_op.intros)

text \<open>The session cost a hundredth; the summary of its two runs says two.\<close>

lemma summary_counts_twice:
  "sum_costs (mt_metrics demo_missions ''s'') = demo_cost"
  "fst (mission_apply like (MMissionSum ''m'') (sy_store demo_mission_end)) =
     MSummary \<lparr> su_mission = ''m'', su_runs = 2, su_costs = add_costs demo_cost demo_cost \<rparr>"
  by (simp_all add: demo_mission_run(2) demo_missions_def demo_attribution_def sum_costs_def add_costs_def zero_costs_def
      demo_cost_def Let_def)

section \<open>Properties\<close>



section \<open>What gets lost\<close>

text \<open>
  An update writes the whole row that it read: when it was unpublished in between, a new name publishes it
  again.
\<close>

definition rename :: "string option \<Rightarrow> bool option \<Rightarrow> update_mission" where
  "rename n p = \<lparr> um_name = n, um_description = None, um_version = None, um_steps = None, um_tags = None, um_published = p \<rparr>"

definition demo_mission_row :: "string \<Rightarrow> bool \<Rightarrow> time \<Rightarrow> mission" where
  "demo_mission_row n p t = demo_mission\<lparr>mi_name := n, mi_published := p, mi_updated := t\<rparr>"

definition public_missions :: mission_store where
  "public_missions = demo_missions\<lparr>mt_missions := [demo_mission_row ''Build'' True 0]\<rparr>"

definition lost_moves :: "(mission_call, mission_answer, mission_reply) move list" where
  "lost_moves =
     [Begin (update_mission_handler demo_mission_env ''ann'' ''m'' (Some (rename (Some ''New'') None)) 1),
      Begin (update_mission_handler demo_mission_env ''ann'' ''m'' (Some (rename None (Some False))) 2)] @
     map (\<lambda>i. Step i CallAnswered) [0, 0, 1, 1, 1, 1, 0, 0]"

lemma rename_merges:
  "merged_mission (rename (Some ''New'') None) m = Some (m\<lparr>mi_name := ''New''\<rparr>)"
  "merged_mission (rename None (Some p)) m = Some (m\<lparr>mi_published := p\<rparr>)"
proof -
  have "trim_space ''New'' = ''New''" "rune_count ''New'' = 3" by code_simp+
  then show "merged_mission (rename (Some ''New'') None) m = Some (m\<lparr>mi_name := ''New''\<rparr>)"
    "merged_mission (rename None (Some p)) m = Some (m\<lparr>mi_published := p\<rparr>)"
    by (cases m; simp add: merged_mission_def rename_def mission_name_ok_def)+
qed

lemma demo_mission_rows:
  "merged_mission (rename (Some ''New'') None) (demo_mission_row n p t) = Some (demo_mission_row ''New'' p t)"
  "merged_mission (rename None (Some q)) (demo_mission_row n p t) = Some (demo_mission_row n q t)"
  "written_mission (demo_mission_row n p t) now (demo_mission_row n' p' t') = demo_mission_row n p now" "mi_id (demo_mission_row n p t) = ''m''"
  "may_write_mission demo_mission_env ''ann'' (demo_mission_row n p t)" "mi_published (demo_mission_row n p t) = p"
  by (simp_all add: rename_merges demo_mission_row_def written_mission_def demo_mission_def may_write_mission_def)

lemma demo_mission_row_fits: "n \<in> {''Build'', ''New''} \<Longrightarrow> mission_fits (demo_mission_row n p t)"
  using rune_count_le_length [of n] rune_count_le_length [of "''build''"] rune_count_le_length [of "''ann''"]
    rune_count_le_length [of "''1''"]
  by (auto simp: mission_fits_def demo_mission_row_def demo_mission_def no_nul_def step_texts_def)

lemma unpublish_lost:
  "case do_moves (mission_apply (\<lambda>_ _. False)) MFailed lost_moves (boot public_missions) of
     None \<Rightarrow> False
   | Some S \<Rightarrow>
       map mi_published (mt_missions (sy_store S)) = [True] \<and>
       (case th_rest (sy_threads S ! 1) of Return (MissionChanged m) \<Rightarrow> \<not> mi_published m | _ \<Rightarrow> False)"
  by (simp cong: Call_lazy add: lost_moves_def boot_def fresh_thread_def update_mission_handler_def with_mission_def
      get_mission_def found_mission_def update_mission_op_def demo_mission_facts public_missions_def demo_missions_def
      do_call_def demo_mission_rows demo_mission_row_fits Let_def)

text \<open>A run that has completed can be set running, which clears when it finished; and it can be pending again.\<close>

lemma completed_run_restarts:
  assumes "mr_status run = ''completed''" "mr_finished run = Some t"
  shows "\<exists>new. merged_run \<lparr> ur_status = ''running'', ur_results = None, ur_error = [], ur_attribute = False \<rparr> now run = Some new \<and>
    mr_status new = ''running'' \<and> mr_finished new = None"
  using assms by (simp add: merged_run_def run_statuses_def)

text \<open>An update that asks to attribute costs has changed the run before it is refused.\<close>

definition run_written :: "string \<Rightarrow> string \<Rightarrow> mission_calls \<Rightarrow> bool" where
  "run_written mid rid h \<longleftrightarrow> (\<exists>new a. (MRunUpdate mid rid new, a) \<in> set h \<and> a \<noteq> MFailed)"

lemma run_written_append [simp]:
  "run_written mid rid (g @ h) \<longleftrightarrow> run_written mid rid g \<or> run_written mid rid h"
  "run_written mid rid ((c, a) # h) \<longleftrightarrow> (\<exists>new. c = MRunUpdate mid rid new \<and> a \<noteq> MFailed) \<or> run_written mid rid h"
  by (auto simp: run_written_def)

lemma refused_update_applied:
  assumes "mv_uuid ev raw = Some mid" "mv_uuid ev raw_run = Some rid"
  shows "prog_ok (\<lambda>_ _. True) (\<lambda>h q. \<forall>run. q = RunRefused run \<longrightarrow> run_written mid rid h)
      (update_run_handler ev actor raw raw_run (Some u) i now) []"
  using assms
  by (auto simp: update_run_handler_def with_ids_def with_mission_def get_mission_def with_run_def update_run_op_def get_run_def
      session_viewable_def attribute_run_costs_def split: sum.split mission_error.split mission_answer.split option.split)

end
