(* ===== verification/JsonText.thy ===== *)
theory JsonText
  imports Prelude
begin

text \<open>
  JSON as \<open>encoding/json\<close> writes it: strings with their escapes, a decoder of strings, and values.  A byte
  that is not part of a well-formed rune is written as the replacement character, so what a text says is
  what its strings are after that repair; two values are written alike only if they are equal after it.
\<close>

section \<open>Strings\<close>

definition replacement :: string where
  "replacement = bytes [239, 191, 189]"

function utf8_repair :: "string \<Rightarrow> string" where
  "utf8_repair s =
     (if s = [] then []
      else (if snd (rune_width s) then take (fst (rune_width s)) s else replacement) @
           utf8_repair (drop (fst (rune_width s)) s))"
  by pat_completeness auto
termination
proof (relation "measure length", goal_cases)
  case (2 s)
  then have "0 < fst (rune_width s)" "0 < length s" by (auto intro: rune_width_pos)
  then show "(drop (fst (rune_width s)) s, s) \<in> measure length" by auto
qed simp

definition json_hex_digit :: "nat \<Rightarrow> char" where
  "json_hex_digit n = ''0123456789abcdef'' ! n"

text \<open>One rune, with the escapes for HTML.\<close>

definition json_escape :: "string \<Rightarrow> string" where
  "json_escape r =
     (case r of
        [c] \<Rightarrow>
          if c = CHR 0x22 \<or> c = CHR 0x5C then [CHR 0x5C, c]
          else if c = CHR 8 then [CHR 0x5C, CHR ''b''] else if c = CHR 12 then [CHR 0x5C, CHR ''f'']
          else if c = CHR 10 then [CHR 0x5C, CHR ''n''] else if c = CHR 13 then [CHR 0x5C, CHR ''r'']
          else if c = CHR 9 then [CHR 0x5C, CHR ''t'']
          else if of_char c < (32::nat) \<or> c \<in> {CHR ''<'', CHR ''>'', CHR ''&''}
          then CHR 0x5C # ''u00'' @ [json_hex_digit (of_char c div 16), json_hex_digit (of_char c mod 16)]
          else [c]
      | _ \<Rightarrow>
          if r = bytes [226, 128, 168] then CHR 0x5C # ''u2028''
          else if r = bytes [226, 128, 169] then CHR 0x5C # ''u2029''
          else r)"

function json_body :: "string \<Rightarrow> string" where
  "json_body s =
     (if s = [] then []
      else (if snd (rune_width s) then json_escape (take (fst (rune_width s)) s) else CHR 0x5C # ''ufffd'') @
           json_body (drop (fst (rune_width s)) s))"
  by pat_completeness auto
termination
proof (relation "measure length", goal_cases)
  case (2 s)
  then have "0 < fst (rune_width s)" "0 < length s" by (auto intro: rune_width_pos)
  then show "(drop (fst (rune_width s)) s, s) \<in> measure length" by auto
qed simp

declare utf8_repair.simps [simp del] json_body.simps [simp del]

definition json_quote :: "string \<Rightarrow> string" where
  "json_quote s = CHR 0x22 # json_body s @ [CHR 0x22]"

section \<open>Reading strings\<close>

definition hex_value :: "char \<Rightarrow> nat option" where
  "hex_value c =
     (let n = of_char c :: nat in
      if 48 \<le> n \<and> n \<le> 57 then Some (n - 48)
      else if 97 \<le> n \<and> n \<le> 102 then Some (n - 87)
      else if 65 \<le> n \<and> n \<le> 70 then Some (n - 55)
      else None)"

fun hex_value4 :: "string \<Rightarrow> nat option" where
  "hex_value4 (a # b # c # d # s) =
     (case (hex_value a, hex_value b, hex_value c, hex_value d) of
        (Some i, Some j, Some k, Some l) \<Rightarrow> Some (4096 * i + 256 * j + 16 * k + l)
      | _ \<Rightarrow> None)"
| "hex_value4 _ = None"

definition rune_bytes :: "nat \<Rightarrow> string" where
  "rune_bytes n =
     (if n < 128 then bytes [n]
      else if n < 2048 then bytes [192 + n div 64, 128 + n mod 64]
      else if 55296 \<le> n \<and> n < 57344 then replacement
      else if n < 65536 then bytes [224 + n div 4096, 128 + n div 64 mod 64, 128 + n mod 64]
      else bytes [240 + n div 262144, 128 + n div 4096 mod 64, 128 + n div 64 mod 64, 128 + n mod 64])"

text \<open>After the four digits: a second surrogate, or not; the rune and what is left.\<close>

definition surrogate_pair :: "nat \<Rightarrow> string \<Rightarrow> (nat \<times> string) option" where
  "surrogate_pair n s =
     (if 55296 \<le> n \<and> n < 56320 \<and> take 2 s = CHR 0x5C # ''u''
      then (case hex_value4 (drop 2 s) of
              Some m \<Rightarrow> if 56320 \<le> m \<and> m < 57344 then Some (65536 + 1024 * (n - 55296) + (m - 56320), drop 6 s) else None
            | None \<Rightarrow> None)
      else None)"

definition simple_escape :: "char \<Rightarrow> char option" where
  "simple_escape e =
     (if e \<in> {CHR 0x22, CHR 0x5C, CHR ''/''} then Some e
      else if e = CHR ''b'' then Some (CHR 8) else if e = CHR ''f'' then Some (CHR 12)
      else if e = CHR ''n'' then Some (CHR 10) else if e = CHR ''r'' then Some (CHR 13)
      else if e = CHR ''t'' then Some (CHR 9) else None)"

definition json_item :: "string \<Rightarrow> (string \<times> string) option" where
  "json_item s =
     (if s = [] then None
      else if hd s = CHR 0x5C
      then (case tl s of
              [] \<Rightarrow> None
            | e # u \<Rightarrow>
                if e = CHR ''u''
                then (case hex_value4 u of
                        None \<Rightarrow> None
                      | Some n \<Rightarrow>
                          (case surrogate_pair n (drop 4 u) of
                             Some (m, v) \<Rightarrow> Some (rune_bytes m, v)
                           | None \<Rightarrow> Some (rune_bytes n, drop 4 u)))
                else (case simple_escape e of None \<Rightarrow> None | Some b \<Rightarrow> Some ([b], u)))
      else if of_char (hd s) < (32::nat) then None
      else Some (if snd (rune_width s) then take (fst (rune_width s)) s else replacement, drop (fst (rune_width s)) s))"

lemma surrogate_pair_shorter: "surrogate_pair n u = Some (m, v) \<Longrightarrow> length v \<le> length u"
  by (auto simp: surrogate_pair_def split: if_splits option.splits)

lemma json_item_shorter: "json_item s = Some (r, u) \<Longrightarrow> length u < length s"
  using rune_width_pos [of s]
  by (auto simp: json_item_def neq_Nil_conv simp del: rune_width.simps dest!: surrogate_pair_shorter
      split: if_splits list.splits option.splits prod.splits)

text \<open>The decoded string up to the closing quote, and what follows.\<close>

function json_scan :: "string \<Rightarrow> (string \<times> string) option" where
  "json_scan s =
     (if s \<noteq> [] \<and> hd s = CHR 0x22 then Some ([], tl s)
      else (case json_item s of
              None \<Rightarrow> None
            | Some (r, u) \<Rightarrow> (case json_scan u of None \<Rightarrow> None | Some (t, v) \<Rightarrow> Some (r @ t, v))))"
  by pat_completeness auto
termination
  by (relation "measure length") (auto dest: json_item_shorter)

declare json_scan.simps [simp del]

lemma json_scan_item:
  "json_item s = Some (r, u) \<Longrightarrow> hd s \<noteq> CHR 0x22 \<Longrightarrow>
     json_scan s = (case json_scan u of None \<Rightarrow> None | Some (t, v) \<Rightarrow> Some (r @ t, v))"
  by (subst json_scan.simps) auto

section \<open>What is written is read\<close>

lemma rune_width_prefix:
  assumes "snd (rune_width s)"
  shows "rune_width (take (fst (rune_width s)) s @ z) = rune_width s"
proof -
  consider "s = []" | a where "s = [a]" | a b where "s = [a, b]" | a b c where "s = [a, b, c]" | a b c d u where "s = a # b # c # d # u"
    by (metis list.exhaust)
  then show ?thesis using assms by cases (auto split: if_splits list.split)
qed

lemma rune_width_one: "\<not> in_range 0 127 a \<Longrightarrow> snd (rune_width (a # t)) \<Longrightarrow> 2 \<le> fst (rune_width (a # t)) \<and> t \<noteq> []"
  by (auto split: list.splits if_splits)

lemma rune_cases:
  assumes "snd (rune_width s)" "r = take (fst (rune_width s)) s"
  obtains (ascii) c where "r = [c]" "in_range 0 127 c"
    | (wide) a b t where "r = a # b # t" "128 \<le> (of_char a :: nat)"
proof (cases s)
  case (Cons a t)
  show ?thesis
  proof (cases "in_range 0 127 a")
    case True
    with assms Cons that(1) show ?thesis by auto
  next
    case False
    then have "128 \<le> (of_char a :: nat)" by (auto simp: in_range_def)
    moreover from rune_width_one [OF False, of t] obtain b u where "t = b # u" "2 \<le> fst (rune_width s)"
      using assms(1) Cons by (auto simp: neq_Nil_conv simp del: rune_width.simps)
    moreover from calculation obtain k where "fst (rune_width s) = Suc (Suc k)"
      using nat_le_iff_add [of 2 "fst (rune_width s)"] by auto
    ultimately show ?thesis using that(2) [of a b "take k u"] assms(2) Cons by (simp del: rune_width.simps)
  qed
qed (use assms in simp)

lemma json_hex_digit_value: "k < 16 \<Longrightarrow> hex_value (json_hex_digit k) = Some k"
proof -
  have "list_all (\<lambda>k. hex_value (json_hex_digit k) = Some k) [0..<16]" by code_simp
  then show "k < 16 \<Longrightarrow> ?thesis" by (auto simp: list_all_iff)
qed

lemma surrogate_none [simp]: "n < 55296 \<Longrightarrow> surrogate_pair n s = None" "57343 < n \<Longrightarrow> surrogate_pair n s = None"
  by (simp_all add: surrogate_pair_def)

lemma item_unicode:
  assumes "hex_value4 (take 4 u) = Some n" "4 \<le> length u" "n < 55296 \<or> 57343 < n"
  shows "json_item (CHR 0x5C # CHR ''u'' # u) = Some (rune_bytes n, drop 4 u)"
proof -
  from assms(2) obtain a b c d v where "u = a # b # c # d # v"
    by (auto simp: numeral_eq_Suc Suc_le_length_iff)
  with assms show ?thesis by (auto simp: json_item_def surrogate_pair_def)
qed

lemma item_ascii:
  assumes "in_range 0 127 c"
  shows "json_item (json_escape [c] @ x) = Some ([c], x)"
proof -
  let ?n = "of_char c :: nat"
  have n: "?n < 128" using assms by (simp add: in_range_def)
  have hex: "hex_value4 (CHR ''0'' # CHR ''0'' # json_hex_digit (?n div 16) # json_hex_digit (?n mod 16) # v) = Some ?n" for v
  proof -
    have "hex_value (CHR ''0'') = Some 0" by code_simp
    moreover have "?n div 16 < 16" "?n mod 16 < 16" using n by auto
    ultimately show ?thesis by (simp add: json_hex_digit_value)
  qed
  have "rune_bytes ?n = [c]" using n by (simp add: rune_bytes_def bytes_def)
  then have esc: "json_item (CHR 0x5C # ''u00'' @ [json_hex_digit (?n div 16), json_hex_digit (?n mod 16)] @ x) = Some ([c], x)"
    using n hex by (simp add: json_item_def)
  show ?thesis
    using n esc assms by (auto simp: json_escape_def json_item_def simple_escape_def)
qed

lemma item_line: "json_item (CHR 0x5C # ''u2028'' @ x) = Some (bytes [226, 128, 168], x)"
  "json_item (CHR 0x5C # ''u2029'' @ x) = Some (bytes [226, 128, 169], x)"
  "json_item (CHR 0x5C # ''ufffd'' @ x) = Some (replacement, x)"
proof -
  have "hex_value4 ''2028'' = Some 8232" "hex_value4 ''2029'' = Some 8233" "hex_value4 ''fffd'' = Some 65533"
    by (simp_all add: hex_value_def)
  moreover have "rune_bytes 8232 = bytes [226, 128, 168]" "rune_bytes 8233 = bytes [226, 128, 169]"
    "rune_bytes 65533 = replacement" by (simp_all add: rune_bytes_def replacement_def bytes_def)
  ultimately show "json_item (CHR 0x5C # ''u2028'' @ x) = Some (bytes [226, 128, 168], x)"
    "json_item (CHR 0x5C # ''u2029'' @ x) = Some (bytes [226, 128, 169], x)"
    "json_item (CHR 0x5C # ''ufffd'' @ x) = Some (replacement, x)"
    by (simp_all add: item_unicode)
qed

lemma item_escape:
  assumes "snd (rune_width s)" "r = take (fst (rune_width s)) s"
  shows "json_item (json_escape r @ x) = Some (r, x) \<and> json_escape r \<noteq> [] \<and> hd (json_escape r) \<noteq> CHR 0x22"
  using assms
proof (cases rule: rune_cases)
  case (ascii c)
  then show ?thesis using item_ascii [of c x] by (auto simp: json_escape_def)
next
  case (wide a b t)
  have w: "rune_width (r @ x) = rune_width s" using rune_width_prefix [OF assms(1)] assms(2) by simp
  have len: "fst (rune_width s) = length r" using assms rune_width_le [of s] by simp
  have "hd r \<noteq> CHR 0x22 \<and> hd r \<noteq> CHR 0x5C \<and> \<not> of_char (hd r) < (32::nat)" using wide by auto
  then have plain: "json_item (r @ x) = Some (r, x)" "hd r \<noteq> CHR 0x22"
    using w len assms(1) wide(1) by (simp_all add: json_item_def del: rune_width.simps)
  show ?thesis
  proof (cases "r = bytes [226, 128, 168] \<or> r = bytes [226, 128, 169]")
    case True
    then show ?thesis using item_line by (auto simp: json_escape_def bytes_def)
  next
    case False
    then have "json_escape r = r" using wide by (simp add: json_escape_def)
    with plain wide show ?thesis by simp
  qed
qed

text \<open>Decoding what was written gives the repaired string.\<close>

theorem json_scan_body: "json_scan (json_body s @ CHR 0x22 # x) = Some (utf8_repair s, x)"
proof (induction s rule: json_body.induct)
  case (1 s)
  show ?case
  proof (cases "s = []")
    case True
    then show ?thesis by (simp add: json_body.simps utf8_repair.simps) (simp add: json_scan.simps)
  next
    case False
    let ?r = "take (fst (rune_width s)) s" and ?u = "drop (fst (rune_width s)) s"
    have IH: "json_scan (json_body ?u @ CHR 0x22 # x) = Some (utf8_repair ?u, x)" by (rule 1 [OF False])
    let ?x = "json_body ?u @ CHR 0x22 # x"
    show ?thesis
    proof (cases "snd (rune_width s)")
      case True
      then have "json_body s = json_escape ?r @ json_body ?u" "utf8_repair s = ?r @ utf8_repair ?u"
        using False by (subst json_body.simps utf8_repair.simps, simp)+
      moreover have "json_item (json_escape ?r @ ?x) = Some (?r, ?x)" "hd (json_escape ?r @ ?x) \<noteq> CHR 0x22"
        using item_escape [OF True refl, of ?x] by auto
      ultimately show ?thesis using IH by (simp add: json_scan_item)
    next
      case bad: False
      then have "json_body s = CHR 0x5C # ''ufffd'' @ json_body ?u" "utf8_repair s = replacement @ utf8_repair ?u"
        using False by (subst json_body.simps utf8_repair.simps, simp)+
      then show ?thesis using IH json_scan_item [OF item_line(3) [of ?x]] by simp
    qed
  qed
qed

lemma utf8_repair_valid: "utf8_valid s \<Longrightarrow> utf8_repair s = s"
proof (induction s rule: utf8_repair.induct)
  case (1 s)
  show ?case
  proof (cases "s = []")
    case False
    from 1(2) False have v: "snd (rune_width s)" "utf8_valid (drop (fst (rune_width s)) s)"
      by (subst (asm) utf8_valid.simps; auto split: if_splits)+
    then show ?thesis using 1(1) [OF False] False by (subst utf8_repair.simps) simp
  qed (simp add: utf8_repair.simps)
qed

lemma json_body_inj: "json_body s @ CHR 0x22 # x = json_body t @ CHR 0x22 # y \<Longrightarrow> utf8_repair s = utf8_repair t \<and> x = y"
  using json_scan_body [of s x] json_scan_body [of t y] by auto

section \<open>Values\<close>

datatype jtree =
    JText string
  | JInt int
  | JFlag bool
  | JNull
  | JList "jtree list"
  | JFields "(string \<times> jtree) list"

fun commas :: "string list \<Rightarrow> string" where
  "commas [] = []"
| "commas [x] = x"
| "commas (x # xs) = x @ CHR '','' # commas xs"

fun json_text :: "jtree \<Rightarrow> string" where
  "json_text (JText s) = json_quote s"
| "json_text (JInt i) = int_dec i"
| "json_text (JFlag b) = (if b then ''true'' else ''false'')"
| "json_text JNull = ''null''"
| "json_text (JList ts) = CHR ''['' # commas (map json_text ts) @ '']''"
| "json_text (JFields fs) = CHR ''{'' # commas (map (\<lambda>(k, t). json_quote k @ CHR '':'' # json_text t) fs) @ ''}''"

text \<open>What the text of a value says.\<close>

fun repair_tree :: "jtree \<Rightarrow> jtree" where
  "repair_tree (JText s) = JText (utf8_repair s)"
| "repair_tree (JInt i) = JInt i"
| "repair_tree (JFlag b) = JFlag b"
| "repair_tree JNull = JNull"
| "repair_tree (JList ts) = JList (map repair_tree ts)"
| "repair_tree (JFields fs) = JFields (map (\<lambda>(k, t). (utf8_repair k, repair_tree t)) fs)"

text \<open>A value is followed by nothing, or by what closes or separates.\<close>

definition closed_text :: "string \<Rightarrow> bool" where
  "closed_text x \<longleftrightarrow> x = [] \<or> hd x \<in> {CHR '','', CHR '']'', CHR ''}''}"

lemma closed_text_simps [simp]:
  "closed_text []" "closed_text (CHR '','' # x)" "closed_text (CHR '']'' # x)" "closed_text (CHR ''}'' # x)"
  by (simp_all add: closed_text_def)

lemma quote_inj: "json_quote s @ x = json_quote t @ y \<Longrightarrow> utf8_repair s = utf8_repair t \<and> x = y"
  by (auto simp: json_quote_def dest: json_body_inj)

lemma int_dec_split:
  assumes "int_dec i @ x = int_dec j @ y" "closed_text x" "closed_text y"
  shows "i = j \<and> x = y"
proof -
  let ?P = "\<lambda>c. is_digit c \<or> c = CHR ''-''"
  have stop: "takeWhile ?P (int_dec k @ z) = int_dec k" if "closed_text z" for k z
  proof -
    have "takeWhile ?P z = []" using that by (cases z) (auto simp: closed_text_def is_digit_def)
    moreover have "\<forall>c \<in> set (int_dec k). ?P c" using int_dec_chars by blast
    ultimately show ?thesis by (simp add: takeWhile_append2)
  qed
  from stop [OF assms(2), of i] stop [OF assms(3), of j] assms(1) have "int_dec i = int_dec j" by simp
  with assms(1) show ?thesis by (auto dest: int_dec_inj)
qed

text \<open>The first character tells the kind of a value.\<close>

fun tree_kind :: "jtree \<Rightarrow> nat" where
  "tree_kind (JText _) = 0"
| "tree_kind (JInt _) = 1"
| "tree_kind (JFlag b) = (if b then 2 else 3)"
| "tree_kind JNull = 4"
| "tree_kind (JList _) = 5"
| "tree_kind (JFields _) = 6"

definition char_kind :: "char \<Rightarrow> nat" where
  "char_kind c =
     (if c = CHR 0x22 then 0 else if is_digit c \<or> c = CHR ''-'' then 1 else if c = CHR ''t'' then 2
      else if c = CHR ''f'' then 3 else if c = CHR ''n'' then 4 else if c = CHR ''['' then 5
      else if c = CHR ''{'' then 6 else 7)"

lemma json_text_kind: "json_text t \<noteq> [] \<and> char_kind (hd (json_text t)) = tree_kind t"
proof (cases t)
  case (JInt i)
  then have "hd (json_text t) \<in> set (int_dec i)" by simp
  with int_dec_chars have "is_digit (hd (json_text t)) \<or> hd (json_text t) = CHR ''-''" by blast
  with JInt show ?thesis by (auto simp: char_kind_def is_digit_def)
qed (auto simp: char_kind_def json_quote_def is_digit_def)

lemma json_text_kinds: "json_text t @ x = json_text u @ y \<Longrightarrow> tree_kind t = tree_kind u"
  using json_text_kind [of t] json_text_kind [of u] by (metis hd_append2)

text \<open>Separated items can be told apart when one can be told from what follows it.\<close>

lemma commas_split:
  assumes item: "\<And>a b x y. a \<in> set as \<Longrightarrow> f a @ x = f b @ y \<Longrightarrow> closed_text x \<Longrightarrow> closed_text y \<Longrightarrow> R a b \<and> x = y"
    and start: "\<And>a. f a \<noteq> [] \<and> hd (f a) \<noteq> c" and c: "c = CHR '']'' \<or> c = CHR ''}''"
  shows "commas (map f as) @ c # x = commas (map f bs) @ c # y \<Longrightarrow> list_all2 R as bs \<and> x = y"
  using item
proof (induction as arbitrary: bs)
  case Nil
  have "bs = []"
  proof (rule ccontr)
    assume "bs \<noteq> []"
    then obtain b bs' where "bs = b # bs'" by (cases bs) auto
    then have "hd (commas (map f bs) @ c # y) = hd (f b)" using start [of b] by (cases bs') auto
    with Nil(1) start [of b] show False by (metis append_Nil commas.simps(1) list.map(1) list.sel(1))
  qed
  with Nil show ?case by simp
next
  case (Cons a as)
  have closed: "closed_text (c # z)" for z using c by auto
  have "bs \<noteq> []"
  proof
    assume "bs = []"
    then have "hd (commas (map f (a # as)) @ c # x) = c" using Cons(2) by simp
    moreover have "hd (commas (map f (a # as)) @ c # x) = hd (f a)" using start [of a] by (cases as) auto
    ultimately show False using start [of a] by simp
  qed
  then obtain b bs' where bs: "bs = b # bs'" by (cases bs) auto
  let ?tail = "\<lambda>zs z. if zs = [] then c # z else CHR '','' # commas (map f zs) @ c # z"
  have "f a @ ?tail as x = f b @ ?tail bs' y"
    using Cons(2) bs by (cases as; cases bs') auto
  from Cons(3) [OF _ this] closed have R: "R a b" "?tail as x = ?tail bs' y" by simp_all
  have "c \<noteq> CHR '',''" using c by auto
  with R(2) have "as = [] \<longleftrightarrow> bs' = []" "commas (map f as) @ c # x = commas (map f bs') @ c # y" by (auto split: if_splits)
  moreover from Cons.IH [OF this(2)] Cons(3) have "list_all2 R as bs' \<and> x = y" by (meson list.set_intros(2))
  ultimately show ?case using R(1) bs by simp
qed

text \<open>Texts are equal only if what they say is.\<close>

theorem json_text_inj:
  "json_text t @ x = json_text u @ y \<Longrightarrow> closed_text x \<Longrightarrow> closed_text y \<Longrightarrow> repair_tree t = repair_tree u \<and> x = y"
proof (induction t arbitrary: u x y)
  case (JText s)
  from json_text_kinds [OF JText(1)] obtain s' where "u = JText s'" by (cases u) (auto split: if_splits)
  with JText(1) show ?case by (auto dest: quote_inj)
next
  case (JInt i)
  from json_text_kinds [OF JInt(1)] obtain j where "u = JInt j" by (cases u) (auto split: if_splits)
  with JInt show ?case by (auto dest: int_dec_split)
next
  case (JFlag b)
  from json_text_kinds [OF JFlag(1)] have "u = JFlag b" by (cases u) (auto split: if_splits)
  with JFlag show ?case by simp
next
  case JNull
  from json_text_kinds [OF JNull(1)] have "u = JNull" by (cases u) (auto split: if_splits)
  with JNull show ?case by simp
next
  case (JList ts)
  from json_text_kinds [OF JList(2)] obtain us where u: "u = JList us" by (cases u) (auto split: if_splits)
  have start: "json_text v \<noteq> [] \<and> hd (json_text v) \<noteq> CHR '']''" for v
    using json_text_kind [of v] by (cases v) (auto simp: char_kind_def is_digit_def split: if_splits)
  have eq: "commas (map json_text ts) @ CHR '']'' # x = commas (map json_text us) @ CHR '']'' # y"
    using JList(2) u by simp
  have "list_all2 (\<lambda>a b. repair_tree a = repair_tree b) ts us \<and> x = y"
    by (rule commas_split [OF JList(1) start _ eq]) simp_all
  with u show ?case by (auto simp: list_all2_conv_all_nth intro: nth_equalityI)
next
  case (JFields fs)
  from json_text_kinds [OF JFields(2)] obtain gs where u: "u = JFields gs" by (cases u) (auto split: if_splits)
  let ?f = "\<lambda>(k, t). json_quote k @ CHR '':'' # json_text t"
  let ?R = "\<lambda>p q. utf8_repair (fst p) = utf8_repair (fst q) \<and> repair_tree (snd p) = repair_tree (snd q)"
  have eq: "commas (map ?f fs) @ CHR ''}'' # x = commas (map ?f gs) @ CHR ''}'' # y" using JFields(2) u by simp
  have item: "?R p q \<and> v = w" if "p \<in> set fs" "?f p @ v = ?f q @ w" "closed_text v" "closed_text w" for p q v w
  proof -
    from that(2) have eq: "json_quote (fst p) @ CHR '':'' # json_text (snd p) @ v = json_quote (fst q) @ CHR '':'' # json_text (snd q) @ w"
      by (simp add: case_prod_beta)
    from quote_inj [OF this] have "utf8_repair (fst p) = utf8_repair (fst q)" "json_text (snd p) @ v = json_text (snd q) @ w" by auto
    with JFields(1) [of p "snd p", OF that(1) _ this(2) that(3,4)] show ?thesis by (cases p) auto
  qed
  have start: "?f p \<noteq> [] \<and> hd (?f p) \<noteq> CHR ''}''" for p by (cases p) (simp add: json_quote_def)
  have "list_all2 ?R fs gs \<and> x = y"
    by (rule commas_split [OF item start _ eq]) simp_all
  with u show ?case by (auto simp: list_all2_conv_all_nth case_prod_beta intro: nth_equalityI)
qed

lemma json_text_same: "json_text t = json_text u \<Longrightarrow> repair_tree t = repair_tree u"
  using json_text_inj [of t "[]" u "[]"] by simp

end
