(* ===== verification/Verify.thy ===== *)
theory Verify
  imports JsonText
begin

text \<open>
  \<open>internal/verify\<close>: assertions about the outcome of a run, the frozen suite of controls for the
  evaluator, and sealed records of evidence.  \<open>quote\<close> is \<open>strconv.Quote\<close>; times are written as texts.

  \<open>internal/verify/evidence.go\<close>: records of evidence with the digest of their JSON and an HMAC over the
  digest.  \<open>mac key d\<close> is the HMAC in hexadecimal; identifiers and times are texts.
\<close>

section \<open>Assertions (\<open>spec.go\<close>)\<close>

record verify_spec =
  vs_exit_zero :: "bool option"
  vs_stdout :: string
  vs_file :: string

record observation =
  ob_exit :: "int option"
  ob_stdout :: string
  ob_stderr :: string

record verify_check =
  vc_name :: string
  vc_passed :: bool
  vc_detail :: string

record verify_result =
  vr_passed :: bool
  vr_checks :: "verify_check list"      \<comment> \<open>nil when it is empty\<close>

type_synonym file_probe = "(string \<Rightarrow> string + bool) option"

definition spec_empty :: "verify_spec \<Rightarrow> bool" where
  "spec_empty s \<longleftrightarrow> vs_exit_zero s = None \<and> vs_stdout s = [] \<and> vs_file s = []"

definition bool_text :: "bool \<Rightarrow> string" where
  "bool_text b = (if b then ''true'' else ''false'')"

definition exit_check :: "bool \<Rightarrow> int option \<Rightarrow> verify_check" where
  "exit_check want_zero code =
     (case code of
        None \<Rightarrow> \<lparr> vc_name = ''exit_code_zero'', vc_passed = False, vc_detail = ''exit_code missing'' \<rparr>
      | Some n \<Rightarrow>
          if want_zero \<and> n = 0
          then \<lparr> vc_name = ''exit_code_zero'', vc_passed = True, vc_detail = ''exit_code=0'' \<rparr>
          else if \<not> want_zero \<and> n \<noteq> 0
          then \<lparr> vc_name = ''exit_code_zero'', vc_passed = True,
                 vc_detail = ''exit_code='' @ int_dec n @ '' (non-zero as required)'' \<rparr>
          else \<lparr> vc_name = ''exit_code_zero'', vc_passed = False,
                 vc_detail = ''exit_code='' @ int_dec n @ '', want_zero='' @ bool_text want_zero \<rparr>)"

definition stdout_check :: "(string \<Rightarrow> string) \<Rightarrow> string \<Rightarrow> string \<Rightarrow> verify_check" where
  "stdout_check quote needle out =
     (if contains out needle
      then \<lparr> vc_name = ''stdout_contains'', vc_passed = True, vc_detail = ''found '' @ quote needle \<rparr>
      else \<lparr> vc_name = ''stdout_contains'', vc_passed = False,
             vc_detail = ''substring '' @ quote needle @ '' not in stdout ('' @ int_dec (int (length out)) @ '' bytes)'' \<rparr>)"

definition file_check :: "(string \<Rightarrow> string) \<Rightarrow> string \<Rightarrow> file_probe \<Rightarrow> verify_check" where
  "file_check quote path probe =
     (case probe of
        None \<Rightarrow> \<lparr> vc_name = ''file_exists'', vc_passed = False, vc_detail = ''file probe unavailable (session_id required)'' \<rparr>
      | Some p \<Rightarrow>
          (case p path of
             Inl err \<Rightarrow> \<lparr> vc_name = ''file_exists'', vc_passed = False, vc_detail = err \<rparr>
           | Inr True \<Rightarrow> \<lparr> vc_name = ''file_exists'', vc_passed = True, vc_detail = quote path @ '' exists'' \<rparr>
           | Inr False \<Rightarrow> \<lparr> vc_name = ''file_exists'', vc_passed = False, vc_detail = quote path @ '' not found'' \<rparr>))"

definition evaluate_checks :: "(string \<Rightarrow> string) \<Rightarrow> verify_spec \<Rightarrow> observation \<Rightarrow> file_probe \<Rightarrow> verify_check list" where
  "evaluate_checks quote s ob probe =
     (case vs_exit_zero s of None \<Rightarrow> [] | Some want \<Rightarrow> [exit_check want (ob_exit ob)]) @
     (if vs_stdout s \<noteq> [] then [stdout_check quote (vs_stdout s) (ob_stdout ob)] else []) @
     (if vs_file s \<noteq> [] then [file_check quote (vs_file s) probe] else [])"

definition evaluate :: "(string \<Rightarrow> string) \<Rightarrow> verify_spec \<Rightarrow> observation \<Rightarrow> file_probe \<Rightarrow> verify_result" where
  "evaluate quote s ob probe =
     (let cs = evaluate_checks quote s ob probe in \<lparr> vr_passed = list_all vc_passed cs, vr_checks = cs \<rparr>)"

section \<open>Controls (\<open>controls.go\<close>)\<close>

definition suite_id :: string where
  "suite_id = ''vaultrun-verify-controls-v2''"

datatype control_kind = Positive | Negative

fun kind_text :: "control_kind \<Rightarrow> string" where
  "kind_text Positive = ''positive''"
| "kind_text Negative = ''negative''"

record control_def =
  cd_id :: string
  cd_kind :: control_kind
  cd_name :: string
  cd_description :: string
  cd_spec :: verify_spec
  cd_observation :: observation
  cd_files :: "(string \<times> bool) list"
  cd_expected :: bool

record control_outcome =
  oc_id :: string
  oc_kind :: control_kind
  oc_name :: string
  oc_description :: string
  oc_expected :: bool
  oc_observed :: bool
  oc_consistent :: bool
  oc_result :: verify_result

record control_report =
  rp_suite :: string
  rp_fingerprint :: string
  rp_created :: string
  rp_passed :: bool
  rp_discriminates :: bool
  rp_controls :: "control_outcome list"
  rp_summary :: string

definition em_dash :: string where
  "em_dash = bytes [226, 128, 148]"

definition full_spec :: verify_spec where
  "full_spec = \<lparr> vs_exit_zero = Some True, vs_stdout = ''Successfully'', vs_file = ''out/done.txt'' \<rparr>"

definition seen :: "int \<Rightarrow> string \<Rightarrow> string \<Rightarrow> observation" where
  "seen code out err = \<lparr> ob_exit = Some code, ob_stdout = out, ob_stderr = err \<rparr>"

definition built_in_controls :: "control_def list" where
  "built_in_controls =
     [\<lparr> cd_id = ''reference-repair'', cd_kind = Positive, cd_name = ''Reference Repair'',
        cd_description = ''Known-good observation: exit 0, expected stdout, and required file present. '' @
          ''A working evaluator must accept it.'',
        cd_spec = full_spec, cd_observation = seen 0 ''Successfully installed package'' [],
        cd_files = [(''out/done.txt'', True)], cd_expected = True \<rparr>,
      \<lparr> cd_id = ''no-repair'', cd_kind = Negative, cd_name = ''No Repair'',
        cd_description = ''Broken observation: non-zero exit, missing stdout marker, missing file. '' @
          ''A working evaluator must reject it.'',
        cd_spec = full_spec, cd_observation = seen 1 ''error: command failed'' [],
        cd_files = [(''out/done.txt'', False)], cd_expected = False \<rparr>,
      \<lparr> cd_id = ''stdout-miss'', cd_kind = Negative, cd_name = ''Stdout Shortcut'',
        cd_description = ''Exit 0 but stdout lacks the required marker '' @ em_dash @ '' anti-shortcut negative control.'',
        cd_spec = full_spec\<lparr>vs_file := []\<rparr>, cd_observation = seen 0 ''ok'' [], cd_files = [], cd_expected = False \<rparr>,
      \<lparr> cd_id = ''nonzero-required'', cd_kind = Positive, cd_name = ''Expected Failure Exit'',
        cd_description = ''Spec requires non-zero exit; observation has exit 2. Evaluator must accept.'',
        cd_spec = \<lparr> vs_exit_zero = Some False, vs_stdout = [], vs_file = [] \<rparr>, cd_observation = seen 2 [] [],
        cd_files = [], cd_expected = True \<rparr>,
      \<lparr> cd_id = ''file-missing-despite-green'', cd_kind = Negative, cd_name = ''Green Exit, Missing Artifact'',
        cd_description = ''Exit 0 and success stdout, but required file absent '' @ em_dash @ '' '' @
          ''anti-shortcut: evaluator must not accept stdout alone.'',
        cd_spec = full_spec, cd_observation = seen 0 ''Successfully installed package'' [],
        cd_files = [(''out/done.txt'', False)], cd_expected = False \<rparr>,
      \<lparr> cd_id = ''stderr-only-success'', cd_kind = Negative, cd_name = ''Success Token in Stderr Only'',
        cd_description = ''Required stdout marker appears only on stderr '' @ em_dash @ '' '' @
          ''anti-shortcut against claiming success via the wrong stream.'',
        cd_spec = full_spec\<lparr>vs_file := []\<rparr>, cd_observation = seen 0 [] ''Successfully installed package'',
        cd_files = [], cd_expected = False \<rparr>,
      \<lparr> cd_id = ''exit-nonzero-with-file'', cd_kind = Negative, cd_name = ''Artifact Present, Non-Zero Exit'',
        cd_description = ''File and stdout look good but exit code is 1 '' @ em_dash @ '' '' @
          ''anti-shortcut against ignoring process failure.'',
        cd_spec = full_spec, cd_observation = seen 1 ''Successfully installed package'' [],
        cd_files = [(''out/done.txt'', True)], cd_expected = False \<rparr>,
      \<lparr> cd_id = ''wrong-filename'', cd_kind = Negative, cd_name = ''Wrong Artifact Name'',
        cd_description = ''A similar file exists but not the required path '' @ em_dash @ '' '' @
          ''anti-shortcut against loose path matching.'',
        cd_spec = full_spec, cd_observation = seen 0 ''Successfully installed package'' [],
        cd_files = [(''out/done.txt.bak'', True)], cd_expected = False \<rparr>]"

definition control_probe :: "control_def \<Rightarrow> file_probe" where
  "control_probe d =
     (if vs_file (cd_spec d) \<noteq> []
      then Some (\<lambda>path. Inr (case map_of (cd_files d) path of None \<Rightarrow> False | Some b \<Rightarrow> b))
      else None)"

text \<open>The suite, run on an evaluator.\<close>

definition control_outcome_of ::
  "(verify_spec \<Rightarrow> observation \<Rightarrow> file_probe \<Rightarrow> verify_result) \<Rightarrow> control_def \<Rightarrow> control_outcome" where
  "control_outcome_of ev d =
     (let r = ev (cd_spec d) (cd_observation d) (control_probe d) in
      \<lparr> oc_id = cd_id d, oc_kind = cd_kind d, oc_name = cd_name d, oc_description = cd_description d,
         oc_expected = cd_expected d, oc_observed = vr_passed r, oc_consistent = (vr_passed r = cd_expected d),
         oc_result = r \<rparr>)"

definition pipeline_discriminates :: "control_outcome list \<Rightarrow> bool" where
  "pipeline_discriminates os \<longleftrightarrow>
     list_all oc_consistent os \<and>
     list_ex (\<lambda>o'. oc_kind o' = Positive \<and> oc_observed o' \<and> oc_consistent o') os \<and>
     list_ex (\<lambda>o'. oc_kind o' = Negative \<and> \<not> oc_observed o' \<and> oc_consistent o') os"

section \<open>JSON\<close>

definition opt_text :: "string \<Rightarrow> string \<Rightarrow> (string \<times> jtree) list" where
  "opt_text k s = (if s = [] then [] else [(k, JText s)])"

definition opt_field :: "string \<Rightarrow> ('a \<Rightarrow> jtree) \<Rightarrow> 'a option \<Rightarrow> (string \<times> jtree) list" where
  "opt_field k f x = (case x of None \<Rightarrow> [] | Some v \<Rightarrow> [(k, f v)])"

definition spec_tree :: "verify_spec \<Rightarrow> jtree" where
  "spec_tree s = JFields (opt_field ''exit_code_zero'' JFlag (vs_exit_zero s) @ opt_text ''stdout_contains'' (vs_stdout s) @
     opt_text ''file_exists'' (vs_file s))"

definition observation_tree :: "observation \<Rightarrow> jtree" where
  "observation_tree ob = JFields (opt_field ''exit_code'' JInt (ob_exit ob) @ opt_text ''stdout'' (ob_stdout ob) @
     opt_text ''stderr'' (ob_stderr ob))"

definition check_tree :: "verify_check \<Rightarrow> jtree" where
  "check_tree c = JFields ([(''name'', JText (vc_name c)), (''passed'', JFlag (vc_passed c))] @ opt_text ''detail'' (vc_detail c))"

definition checks_tree :: "verify_check list \<Rightarrow> jtree" where
  "checks_tree cs = (if cs = [] then JNull else JList (map check_tree cs))"

definition result_tree :: "verify_result \<Rightarrow> jtree" where
  "result_tree r = JFields [(''passed'', JFlag (vr_passed r)), (''checks'', checks_tree (vr_checks r))]"

definition control_tree :: "control_def \<Rightarrow> jtree" where
  "control_tree d =
     JFields ([(''id'', JText (cd_id d)), (''kind'', JText (kind_text (cd_kind d))), (''name'', JText (cd_name d)),
               (''description'', JText (cd_description d)), (''spec'', spec_tree (cd_spec d)),
               (''observation'', observation_tree (cd_observation d))] @
              (if cd_files d = [] then [] else [(''files'', JFields (map (\<lambda>(k, b). (k, JFlag b)) (cd_files d)))]) @
              [(''expected_passed'', JFlag (cd_expected d))])"

text \<open>\<open>sha\<close> is SHA-256 in hexadecimal.\<close>

definition suite_fingerprint :: "(string \<Rightarrow> string) \<Rightarrow> string" where
  "suite_fingerprint sha =
     sha (json_text (JFields [(''suite_id'', JText suite_id), (''controls'', JList (map control_tree built_in_controls))]))"

definition run_controls_by ::
  "(string \<Rightarrow> string) \<Rightarrow> (verify_spec \<Rightarrow> observation \<Rightarrow> file_probe \<Rightarrow> verify_result) \<Rightarrow> string \<Rightarrow> control_report" where
  "run_controls_by sha ev now =
     (let os = map (control_outcome_of ev) built_in_controls;
          good = pipeline_discriminates os in
      \<lparr> rp_suite = suite_id, rp_fingerprint = suite_fingerprint sha, rp_created = now, rp_passed = good,
         rp_discriminates = good, rp_controls = os,
         rp_summary =
           (if good then ''pipeline discriminates: positive controls accepted, negative controls rejected''
            else ''pipeline control suite FAILED '' @ em_dash @ '' evaluator did not match frozen expectations'') \<rparr>)"

definition run_controls :: "(string \<Rightarrow> string) \<Rightarrow> (string \<Rightarrow> string) \<Rightarrow> string \<Rightarrow> control_report" where
  "run_controls sha quote now = run_controls_by sha (evaluate quote) now"

definition outcome_tree :: "control_outcome \<Rightarrow> jtree" where
  "outcome_tree oc =
     JFields [(''id'', JText (oc_id oc)), (''kind'', JText (kind_text (oc_kind oc))), (''name'', JText (oc_name oc)),
              (''description'', JText (oc_description oc)), (''expected_passed'', JFlag (oc_expected oc)),
              (''observed_passed'', JFlag (oc_observed oc)), (''consistent'', JFlag (oc_consistent oc)),
              (''result'', result_tree (oc_result oc))]"

definition report_tree :: "control_report \<Rightarrow> jtree" where
  "report_tree rp =
     JFields [(''suite_id'', JText (rp_suite rp)), (''fingerprint'', JText (rp_fingerprint rp)),
              (''created_at'', JText (rp_created rp)), (''passed'', JFlag (rp_passed rp)),
              (''pipeline_discriminates'', JFlag (rp_discriminates rp)),
              (''controls'', JList (map outcome_tree (rp_controls rp))), (''summary'', JText (rp_summary rp))]"

section \<open>Records\<close>

definition evidence_schema :: string where
  "evidence_schema = ''vaultrun.verify.evidence.v1''"

definition max_evidence_stdout :: nat where
  "max_evidence_stdout = 65536"

datatype evidence_kind = Checkpoint | Controls | Combined

fun evidence_kind_text :: "evidence_kind \<Rightarrow> string" where
  "evidence_kind_text Checkpoint = ''checkpoint''"
| "evidence_kind_text Controls = ''controls''"
| "evidence_kind_text Combined = ''combined''"

record evidence_subject =
  es_session :: string
  es_run :: string
  es_verification :: string
  es_step :: string
  es_actor :: string

record evidence_checkpoint =
  ec_spec :: verify_spec
  ec_observation :: observation
  ec_checks :: "verify_check list"
  ec_passed :: bool

record evidence_record =
  er_schema :: string
  er_id :: string
  er_created :: string
  er_kind :: string
  er_passed :: bool
  er_subject :: evidence_subject
  er_checkpoint :: "evidence_checkpoint option"
  er_controls :: "control_report option"
  er_digest :: string
  er_sig :: string

record evidence_input =
  ei_actor :: string
  ei_session :: "string option"
  ei_run :: "string option"
  ei_verification :: "string option"
  ei_step :: string
  ei_spec :: verify_spec
  ei_observation :: observation
  ei_result :: verify_result
  ei_controls :: bool
  ei_checkpoint :: bool
  ei_key :: string

section \<open>Encoding, digest and signature\<close>

definition subject_tree :: "evidence_subject \<Rightarrow> jtree" where
  "subject_tree s =
     JFields (opt_text ''session_id'' (es_session s) @ opt_text ''run_id'' (es_run s) @
       opt_text ''verification_id'' (es_verification s) @ opt_text ''step_name'' (es_step s) @ opt_text ''actor'' (es_actor s))"

definition checkpoint_tree :: "evidence_checkpoint \<Rightarrow> jtree" where
  "checkpoint_tree c =
     JFields [(''spec'', spec_tree (ec_spec c)), (''observation'', observation_tree (ec_observation c)),
              (''checks'', checks_tree (ec_checks c)), (''passed'', JFlag (ec_passed c))]"

definition evidence_tree :: "evidence_record \<Rightarrow> jtree" where
  "evidence_tree r =
     JFields ([(''schema'', JText (er_schema r)), (''id'', JText (er_id r)), (''created_at'', JText (er_created r)),
               (''kind'', JText (er_kind r)), (''passed'', JFlag (er_passed r)), (''subject'', subject_tree (er_subject r))] @
       opt_field ''checkpoint'' checkpoint_tree (er_checkpoint r) @ opt_field ''controls'' report_tree (er_controls r) @
       [(''content_digest'', JText (er_digest r))] @ opt_text ''sig'' (er_sig r))"

definition compute_content_digest :: "(string \<Rightarrow> string) \<Rightarrow> evidence_record \<Rightarrow> string" where
  "compute_content_digest sha r = sha (json_text (evidence_tree (r\<lparr>er_digest := [], er_sig := []\<rparr>)))"

definition sign_evidence :: "(string \<Rightarrow> string \<Rightarrow> string) \<Rightarrow> string \<Rightarrow> string \<Rightarrow> string" where
  "sign_evidence mac digest key = (if key = [] \<or> digest = [] then [] else mac key digest)"

datatype integrity_error = BadSchema | DigestMismatch | SigMissing | SigMismatch

definition verify_integrity ::
  "(string \<Rightarrow> string) \<Rightarrow> (string \<Rightarrow> string \<Rightarrow> string) \<Rightarrow> evidence_record \<Rightarrow> string \<Rightarrow> integrity_error + unit" where
  "verify_integrity sha mac r key =
     (if er_schema r \<noteq> evidence_schema then Inl BadSchema
      else if compute_content_digest sha r \<noteq> er_digest r then Inl DigestMismatch
      else if key = [] then Inr ()
      else if er_sig r = [] then Inl SigMissing
      else if sign_evidence mac (er_digest r) key \<noteq> er_sig r then Inl SigMismatch
      else Inr ())"

section \<open>Sealing\<close>

definition truncate_evidence :: "string \<Rightarrow> nat \<Rightarrow> string" where
  "truncate_evidence s most = (if most = 0 \<or> length s \<le> most then s else take most s @ bytes [226, 128, 166])"

definition sanitize_observation :: "observation \<Rightarrow> observation" where
  "sanitize_observation ob =
     ob\<lparr>ob_stdout := filter (\<lambda>c. c \<noteq> CHR 0x00) (truncate_evidence (ob_stdout ob) max_evidence_stdout),
        ob_stderr := filter (\<lambda>c. c \<noteq> CHR 0x00) (truncate_evidence (ob_stderr ob) max_evidence_stdout)\<rparr>"

datatype seal_error = NothingToSeal | StepNameTooLong | ActorTooLong

definition id_text :: "string option \<Rightarrow> string" where
  "id_text i = (case i of None \<Rightarrow> [] | Some s \<Rightarrow> s)"

record sealing =
  sl_sha :: "string \<Rightarrow> string"
  sl_mac :: "string \<Rightarrow> string \<Rightarrow> string"
  sl_quote :: "string \<Rightarrow> string"

text \<open>The record before it is digested.\<close>

definition unsealed_evidence :: "sealing \<Rightarrow> evidence_input \<Rightarrow> string \<Rightarrow> string \<Rightarrow> evidence_record" where
  "unsealed_evidence sl inp i now =
     (let report = run_controls (sl_sha sl) (sl_quote sl) now in
      \<lparr> er_schema = evidence_schema, er_id = i, er_created = now,
         er_kind = evidence_kind_text (if ei_checkpoint inp \<and> ei_controls inp then Combined
                                       else if ei_controls inp then Controls else Checkpoint),
         er_passed = ((ei_checkpoint inp \<longrightarrow> vr_passed (ei_result inp)) \<and> (ei_controls inp \<longrightarrow> rp_passed report)),
         er_subject =
           \<lparr> es_session = id_text (ei_session inp), es_run = id_text (ei_run inp),
              es_verification = id_text (ei_verification inp), es_step = trim_space (ei_step inp),
              es_actor = trim_space (ei_actor inp) \<rparr>,
         er_checkpoint =
           (if ei_checkpoint inp
            then Some \<lparr> ec_spec = ei_spec inp, ec_observation = sanitize_observation (ei_observation inp),
                         ec_checks = vr_checks (ei_result inp), ec_passed = vr_passed (ei_result inp) \<rparr>
            else None),
         er_controls = (if ei_controls inp then Some report else None), er_digest = [], er_sig = [] \<rparr>)"

definition build_evidence :: "sealing \<Rightarrow> evidence_input \<Rightarrow> string \<Rightarrow> string \<Rightarrow> seal_error + evidence_record" where
  "build_evidence sl inp i now =
     (if \<not> ei_checkpoint inp \<and> \<not> ei_controls inp then Inl NothingToSeal
      else if 200 < rune_count (ei_step inp) then Inl StepNameTooLong
      else if 256 < rune_count (ei_actor inp) then Inl ActorTooLong
      else (let r = unsealed_evidence sl inp i now; d = compute_content_digest (sl_sha sl) r in
        Inr (r\<lparr>er_digest := d, er_sig := (if ei_key inp = [] then [] else sign_evidence (sl_mac sl) d (ei_key inp))\<rparr>)))"

end
