(* ===== verification/VerifyHandlers.thy ===== *)
theory VerifyHandlers
  imports Verify Access
begin

text \<open>
  \<open>internal/verify/store.go\<close> and \<open>cmd/api/handlers/verify.go\<close>: the rows of evaluated checkpoints, and the
  endpoints that evaluate, list and seal them.  A request is a function of the rows that it finds.
\<close>

section \<open>Rows\<close>

record verify_row =
  vw_id :: string
  vw_session :: "string option"
  vw_run :: "string option"
  vw_step :: string
  vw_spec :: jtree
  vw_observation :: jtree
  vw_passed :: bool
  vw_checks :: jtree
  vw_created :: time

text \<open>Postgres takes no NUL, neither in a text nor in JSONB.\<close>

fun jsonb_takes :: "jtree \<Rightarrow> bool" where
  "jsonb_takes (JText s) \<longleftrightarrow> CHR 0x00 \<notin> set s"
| "jsonb_takes (JList ts) \<longleftrightarrow> list_all jsonb_takes ts"
| "jsonb_takes (JFields fs) \<longleftrightarrow> list_all (\<lambda>(k, t). CHR 0x00 \<notin> set k \<and> jsonb_takes t) fs"
| "jsonb_takes _ \<longleftrightarrow> True"

text \<open>\<open>db_ok\<close> is the answer of the database; what is kept of a value is what its text says.\<close>

definition save_row :: "bool \<Rightarrow> verify_row \<Rightarrow> verify_row list \<Rightarrow> verify_row list option" where
  "save_row db_ok r rows =
     (if db_ok \<and> rune_count (vw_step r) \<le> 200 \<and> CHR 0x00 \<notin> set (vw_step r) \<and> jsonb_takes (vw_spec r) \<and>
         jsonb_takes (vw_observation r) \<and> jsonb_takes (vw_checks r)
      then Some (rows @ [r\<lparr>vw_spec := repair_tree (vw_spec r), vw_observation := repair_tree (vw_observation r),
                           vw_checks := repair_tree (vw_checks r)\<rparr>])
      else None)"

definition get_row :: "string \<Rightarrow> verify_row list \<Rightarrow> verify_row option" where
  "get_row i rows = List.find (\<lambda>r. vw_id r = i) rows"

definition rows_of_session :: "string \<Rightarrow> int \<Rightarrow> verify_row list \<Rightarrow> verify_row list" where
  "rows_of_session sid limit rows =
     take (nat (if limit \<le> 0 \<or> 200 < limit then 50 else limit))
       (sort_key (\<lambda>r. - vw_created r) (filter (\<lambda>r. vw_session r = Some sid) rows))"

section \<open>Decoding rows\<close>

definition field_text :: "(string \<times> jtree) list \<Rightarrow> string \<Rightarrow> string option" where
  "field_text fs k =
     (case map_of fs k of None \<Rightarrow> Some [] | Some JNull \<Rightarrow> Some [] | Some (JText s) \<Rightarrow> Some s | _ \<Rightarrow> None)"

definition field_flag :: "(string \<times> jtree) list \<Rightarrow> string \<Rightarrow> bool option option" where
  "field_flag fs k =
     (case map_of fs k of None \<Rightarrow> Some None | Some JNull \<Rightarrow> Some None | Some (JFlag b) \<Rightarrow> Some (Some b) | _ \<Rightarrow> None)"

definition field_int :: "(string \<times> jtree) list \<Rightarrow> string \<Rightarrow> int option option" where
  "field_int fs k =
     (case map_of fs k of None \<Rightarrow> Some None | Some JNull \<Rightarrow> Some None | Some (JInt i) \<Rightarrow> Some (Some i) | _ \<Rightarrow> None)"

fun tree_fields :: "jtree \<Rightarrow> (string \<times> jtree) list option" where
  "tree_fields (JFields fs) = Some fs"
| "tree_fields JNull = Some []"
| "tree_fields _ = None"

definition tree_spec :: "jtree \<Rightarrow> verify_spec option" where
  "tree_spec t =
     Option.bind (tree_fields t) (\<lambda>fs. Option.bind (field_flag fs ''exit_code_zero'') (\<lambda>z.
       Option.bind (field_text fs ''stdout_contains'') (\<lambda>n. Option.bind (field_text fs ''file_exists'') (\<lambda>f.
         Some \<lparr> vs_exit_zero = z, vs_stdout = n, vs_file = f \<rparr>))))"

definition tree_observation :: "jtree \<Rightarrow> observation option" where
  "tree_observation t =
     Option.bind (tree_fields t) (\<lambda>fs. Option.bind (field_int fs ''exit_code'') (\<lambda>z.
       Option.bind (field_text fs ''stdout'') (\<lambda>n. Option.bind (field_text fs ''stderr'') (\<lambda>f.
         Some \<lparr> ob_exit = z, ob_stdout = n, ob_stderr = f \<rparr>))))"

definition tree_check :: "jtree \<Rightarrow> verify_check option" where
  "tree_check t =
     Option.bind (tree_fields t) (\<lambda>fs. Option.bind (field_text fs ''name'') (\<lambda>n.
       Option.bind (field_flag fs ''passed'') (\<lambda>p. Option.bind (field_text fs ''detail'') (\<lambda>d.
         Some \<lparr> vc_name = n, vc_passed = (p = Some True), vc_detail = d \<rparr>))))"

fun all_some :: "'a option list \<Rightarrow> 'a list option" where
  "all_some [] = Some []"
| "all_some (x # xs) = Option.bind x (\<lambda>y. map_option ((#) y) (all_some xs))"

fun tree_checks :: "jtree \<Rightarrow> verify_check list option" where
  "tree_checks (JList ts) = all_some (map tree_check ts)"
| "tree_checks JNull = Some []"
| "tree_checks _ = None"

definition populate_evidence :: "evidence_input \<Rightarrow> verify_row \<Rightarrow> evidence_input option" where
  "populate_evidence inp r =
     Option.bind (tree_spec (vw_spec r)) (\<lambda>s. Option.bind (tree_observation (vw_observation r)) (\<lambda>ob.
       Option.bind (tree_checks (vw_checks r)) (\<lambda>cs.
         Some (inp\<lparr>ei_checkpoint := True, ei_spec := s, ei_observation := ob,
                   ei_result := \<lparr> vr_passed = vw_passed r, vr_checks = cs \<rparr>, ei_session := vw_session r,
                   ei_run := vw_run r\<rparr>))))"

section \<open>Requests\<close>

record run_output =
  ro_session :: string
  ro_exit :: "int option"
  ro_stdout :: "string option"
  ro_stderr :: "string option"

record verify_env =
  ve_uuid :: "string \<Rightarrow> string option"
  ve_runs :: "string \<Rightarrow> run_output lookup"
  ve_sessions :: sessions
  ve_roles :: member_roles
  ve_exists :: "string \<Rightarrow> string \<Rightarrow> string + bool"
  ve_sealing :: sealing
  ve_key :: string                \<comment> \<open>AUDIT_HMAC_KEY\<close>
  ve_store :: bool
  ve_save_ok :: bool
  ve_get_ok :: bool

record verify_request =
  vq_spec :: verify_spec
  vq_observation :: "observation option"
  vq_run :: "string option"
  vq_session :: "string option"
  vq_step :: string
  vq_persist :: "bool option"

datatype verify_reply =
    VStatus int
  | Evaluated verify_result "string option" "string option" "string option"
  | VerificationList "verify_row list"
  | Sealed evidence_record
  | Report int control_report

definition verify_max_stdout :: nat where
  "verify_max_stdout = 262144"

definition truncate_verify :: "string \<Rightarrow> string" where
  "truncate_verify s = take verify_max_stdout s"

definition no_observation :: observation where
  "no_observation = \<lparr> ob_exit = None, ob_stdout = [], ob_stderr = [] \<rparr>"

definition given_observation :: "observation option \<Rightarrow> observation" where
  "given_observation ob = (case ob of None \<Rightarrow> no_observation | Some x \<Rightarrow> x)"

definition too_large :: "observation \<Rightarrow> bool" where
  "too_large ob \<longleftrightarrow> verify_max_stdout < length (ob_stdout ob) \<or> verify_max_stdout < length (ob_stderr ob)"

text \<open>The status of a session that may not be used, from \<open>checkSessionAccess\<close>.\<close>

definition session_refusal :: "verify_env \<Rightarrow> string \<Rightarrow> string \<Rightarrow> string \<Rightarrow> int option" where
  "session_refusal ev actor sid role =
     (case check_session_access (ve_sessions ev) (ve_roles ev) actor sid role of
        Inl code \<Rightarrow> Some (int code)
      | Inr _ \<Rightarrow> None)"

text \<open>A run fills in what the caller did not observe.\<close>

definition filled_observation :: "observation \<Rightarrow> run_output \<Rightarrow> observation" where
  "filled_observation ob r =
     \<lparr> ob_exit = (case ob_exit ob of None \<Rightarrow> ro_exit r | Some n \<Rightarrow> Some n),
        ob_stdout = (case ro_stdout r of Some s \<Rightarrow> if ob_stdout ob = [] then truncate_verify s else ob_stdout ob | None \<Rightarrow> ob_stdout ob),
        ob_stderr = (case ro_stderr r of Some s \<Rightarrow> if ob_stderr ob = [] then truncate_verify s else ob_stderr ob | None \<Rightarrow> ob_stderr ob) \<rparr>"

text \<open>The run of a request and its session, or a status.\<close>

definition run_of_request :: "verify_env \<Rightarrow> string \<Rightarrow> string \<Rightarrow> int + run_output" where
  "run_of_request ev actor rid =
     (case ve_runs ev rid of
        NoRows \<Rightarrow> Inl 404
      | DbError \<Rightarrow> Inl 500
      | Found r \<Rightarrow> (case session_refusal ev actor (ro_session r) ''viewer'' of Some code \<Rightarrow> Inl code | None \<Rightarrow> Inr r))"

text \<open>The session that a checkpoint belongs to; a file can only be looked for in one.\<close>

definition session_of_request :: "verify_env \<Rightarrow> string \<Rightarrow> verify_spec \<Rightarrow> string option \<Rightarrow> int + string option" where
  "session_of_request ev actor s sid =
     (case sid of
        Some x \<Rightarrow> (case session_refusal ev actor x ''viewer'' of Some code \<Rightarrow> Inl code | None \<Rightarrow> Inr (Some x))
      | None \<Rightarrow> if vs_file s \<noteq> [] then Inl 400 else Inr None)"

definition probe_of :: "verify_env \<Rightarrow> string option \<Rightarrow> verify_spec \<Rightarrow> file_probe" where
  "probe_of ev sid s = (case sid of Some x \<Rightarrow> if vs_file s \<noteq> [] then Some (ve_exists ev x) else None | None \<Rightarrow> None)"

text \<open>Keeping a checkpoint needs an executor of its session.\<close>

definition persist_refusal :: "verify_env \<Rightarrow> string \<Rightarrow> string option \<Rightarrow> int option" where
  "persist_refusal ev actor sid =
     (case sid of None \<Rightarrow> Some 400 | Some x \<Rightarrow> session_refusal ev actor x ''executor'')"

definition evaluate_handler ::
  "verify_env \<Rightarrow> string \<Rightarrow> verify_request option \<Rightarrow> string \<Rightarrow> time \<Rightarrow> verify_row list \<Rightarrow> verify_reply \<times> verify_row list" where
  "evaluate_handler ev actor body i now rows =
     (case body of
        None \<Rightarrow> (VStatus 400, rows)
      | Some q \<Rightarrow>
          (if spec_empty (vq_spec q) \<or> 200 < rune_count (vq_step q) then (VStatus 400, rows)
           else (let given = given_observation (vq_observation q) in
             if too_large given then (VStatus 400, rows)
             else (case (case vq_run q of
                           Some rid \<Rightarrow>
                             (case run_of_request ev actor rid of
                                Inl code \<Rightarrow> Inl code
                              | Inr r \<Rightarrow> Inr (Some (ro_session r), filled_observation given r))
                         | None \<Rightarrow>
                             (case session_of_request ev actor (vq_spec q) (vq_session q) of
                                Inl code \<Rightarrow> Inl code
                              | Inr sid \<Rightarrow> Inr (sid, given))) of
                Inl code \<Rightarrow> (VStatus code, rows)
              | Inr (sid, ob) \<Rightarrow>
                  (let persist = (case vq_persist q of Some b \<Rightarrow> b | None \<Rightarrow> sid \<noteq> None);
                       refused = (if persist then persist_refusal ev actor sid else None);
                       res = evaluate (sl_quote (ve_sealing ev)) (vq_spec q) ob (probe_of ev sid (vq_spec q))
                   in case refused of
                        Some code \<Rightarrow> (VStatus code, rows)
                      | None \<Rightarrow>
                          if persist \<and> ve_store ev
                          then (case save_row (ve_save_ok ev)
                                       \<lparr> vw_id = i, vw_session = sid, vw_run = vq_run q, vw_step = vq_step q,
                                          vw_spec = spec_tree (vq_spec q), vw_observation = observation_tree ob,
                                          vw_passed = vr_passed res, vw_checks = checks_tree (vr_checks res),
                                          vw_created = now \<rparr> rows of
                                  None \<Rightarrow> (VStatus 500, rows)
                                | Some rows' \<Rightarrow> (Evaluated res (Some i) sid (vq_run q), rows'))
                          else (Evaluated res None sid (vq_run q), rows))))))"

definition controls_handler :: "verify_env \<Rightarrow> string \<Rightarrow> verify_reply" where
  "controls_handler ev now =
     (let rp = run_controls (sl_sha (ve_sealing ev)) (sl_quote (ve_sealing ev)) now in
      Report (if rp_passed rp then 200 else 500) rp)"

definition list_by_session_handler :: "verify_env \<Rightarrow> string \<Rightarrow> string \<Rightarrow> verify_row list \<Rightarrow> verify_reply" where
  "list_by_session_handler ev actor raw rows =
     (case ve_uuid ev raw of
        None \<Rightarrow> VStatus 400
      | Some sid \<Rightarrow>
          (case session_refusal ev actor sid ''viewer'' of
             Some code \<Rightarrow> VStatus code
           | None \<Rightarrow>
               if \<not> ve_store ev then VerificationList []
               else if \<not> ve_get_ok ev then VStatus 500
               else VerificationList (rows_of_session sid 50 rows)))"

section \<open>Evidence\<close>

record evidence_request =
  eq_spec :: "verify_spec option"
  eq_observation :: "observation option"
  eq_run :: "string option"
  eq_session :: "string option"
  eq_verification :: "string option"
  eq_step :: string
  eq_controls :: bool
  eq_sign :: "bool option"

definition authorize_read :: "verify_env \<Rightarrow> string \<Rightarrow> verify_row \<Rightarrow> int option" where
  "authorize_read ev actor r =
     (case vw_session r of
        None \<Rightarrow> if actor = master then None else Some 404
      | Some sid \<Rightarrow>
          (case session_if_accessible (ve_sessions ev) (ve_roles ev) actor sid ''viewer'' of
             Inl AccessDenied \<Rightarrow> Some 404
           | Inl AccessFailed \<Rightarrow> Some 500
           | Inr _ \<Rightarrow> None))"

definition blank_input :: "string \<Rightarrow> string \<Rightarrow> bool \<Rightarrow> evidence_input" where
  "blank_input actor step controls =
     \<lparr> ei_actor = actor, ei_session = None, ei_run = None, ei_verification = None, ei_step = step,
        ei_spec = \<lparr> vs_exit_zero = None, vs_stdout = [], vs_file = [] \<rparr>, ei_observation = no_observation,
        ei_result = \<lparr> vr_passed = False, vr_checks = [] \<rparr>, ei_controls = controls, ei_checkpoint = False, ei_key = [] \<rparr>"

text \<open>The row of an identifier, for a caller who may read it.\<close>

definition row_for ::
  "verify_env \<Rightarrow> string \<Rightarrow> string \<Rightarrow> verify_row list \<Rightarrow> int + verify_row" where
  "row_for ev actor i rows =
     (if \<not> ve_store ev then Inl 503
      else if \<not> ve_get_ok ev then Inl 500
      else (case get_row i rows of
              None \<Rightarrow> Inl 404
            | Some r \<Rightarrow> (case authorize_read ev actor r of Some code \<Rightarrow> Inl code | None \<Rightarrow> Inr r)))"

text \<open>The observation of a run is what is stored of it, whatever the caller says.\<close>

definition stored_observation :: "run_output \<Rightarrow> observation" where
  "stored_observation r =
     \<lparr> ob_exit = ro_exit r,
        ob_stdout = (case ro_stdout r of None \<Rightarrow> [] | Some s \<Rightarrow> truncate_verify s),
        ob_stderr = (case ro_stderr r of None \<Rightarrow> [] | Some s \<Rightarrow> truncate_verify s) \<rparr>"

text \<open>What is sealed, or a status.\<close>

definition inline_input ::
  "verify_env \<Rightarrow> string \<Rightarrow> evidence_request \<Rightarrow> verify_spec \<Rightarrow> evidence_input \<Rightarrow> int + evidence_input" where
  "inline_input ev actor q s inp =
     (if spec_empty s then Inl 400
      else (case (case eq_run q of
                    Some rid \<Rightarrow>
                      (case run_of_request ev actor rid of
                         Inl code \<Rightarrow> Inl code
                       | Inr r \<Rightarrow> Inr (Some (ro_session r), stored_observation r))
                  | None \<Rightarrow>
                      (let given = given_observation (eq_observation q) in
                       if too_large given then Inl 400
                       else (case session_of_request ev actor s (eq_session q) of
                               Inl code \<Rightarrow> Inl code
                             | Inr sid \<Rightarrow> Inr (sid, given)))) of
              Inl code \<Rightarrow> Inl code
            | Inr (sid, ob) \<Rightarrow>
                Inr (inp\<lparr>ei_checkpoint := True, ei_spec := s, ei_observation := ob,
                         ei_result := evaluate (sl_quote (ve_sealing ev)) s ob (probe_of ev sid s),
                         ei_session := sid, ei_run := eq_run q\<rparr>)))"

definition evidence_input_of ::
  "verify_env \<Rightarrow> string \<Rightarrow> evidence_request \<Rightarrow> verify_row list \<Rightarrow> int + evidence_input" where
  "evidence_input_of ev actor q rows =
     (let inp = blank_input actor (eq_step q) (eq_controls q) in
      case eq_verification q of
        Some i \<Rightarrow>
          (case row_for ev actor i rows of
             Inl code \<Rightarrow> Inl code
           | Inr r \<Rightarrow>
               (case populate_evidence inp r of
                  None \<Rightarrow> Inl 500
                | Some inp' \<Rightarrow>
                    Inr (inp'\<lparr>ei_verification := Some (vw_id r),
                              ei_step := (if eq_step q = [] then vw_step r else eq_step q)\<rparr>)))
      | None \<Rightarrow>
          (case eq_spec q of
             Some s \<Rightarrow> inline_input ev actor q s inp
           | None \<Rightarrow> if eq_controls q then Inr inp else Inl 400))"

text \<open>An empty key signs nothing.\<close>

definition sealed_reply :: "verify_env \<Rightarrow> bool \<Rightarrow> evidence_input \<Rightarrow> string \<Rightarrow> string \<Rightarrow> verify_reply" where
  "sealed_reply ev sign inp i now =
     (case build_evidence (ve_sealing ev) (inp\<lparr>ei_key := (if sign then ve_key ev else [])\<rparr>) i now of
        Inl _ \<Rightarrow> VStatus 400
      | Inr r \<Rightarrow> Sealed r)"

definition evidence_handler ::
  "verify_env \<Rightarrow> string \<Rightarrow> evidence_request option \<Rightarrow> string \<Rightarrow> string \<Rightarrow> verify_row list \<Rightarrow> verify_reply" where
  "evidence_handler ev actor body i now rows =
     (case body of
        None \<Rightarrow> VStatus 400
      | Some q \<Rightarrow>
          if 200 < rune_count (eq_step q) then VStatus 400
          else (case evidence_input_of ev actor q rows of
                  Inl code \<Rightarrow> VStatus code
                | Inr inp \<Rightarrow> sealed_reply ev (eq_sign q \<noteq> Some False) inp i now))"

definition get_evidence_handler ::
  "verify_env \<Rightarrow> string \<Rightarrow> string \<Rightarrow> bool \<Rightarrow> bool \<Rightarrow> string \<Rightarrow> string \<Rightarrow> verify_row list \<Rightarrow> verify_reply" where
  "get_evidence_handler ev actor raw controls sign i now rows =
     (case ve_uuid ev raw of
        None \<Rightarrow> VStatus 400
      | Some vid \<Rightarrow>
          (case row_for ev actor vid rows of
             Inl code \<Rightarrow> VStatus code
           | Inr r \<Rightarrow>
               (case populate_evidence (blank_input actor [] controls) r of
                  None \<Rightarrow> VStatus 500
                | Some inp \<Rightarrow>
                    sealed_reply ev sign (inp\<lparr>ei_verification := Some (vw_id r), ei_step := vw_step r\<rparr>) i now)))"

end
