(* ===== verification/VerifyProps.thy ===== *)
theory VerifyProps
  imports VerifyHandlers
begin

text \<open>
  What the control suite detects, what a sealed record says, and what may be sealed under the name of a
  run.

  Sealed records: what is exported is read back with its texts repaired; a record that passes the
  integrity check with the key says what a record that was sealed says.
\<close>

section \<open>The control suite\<close>

text \<open>An evaluator that makes only some of the checks.\<close>

definition evaluate_only ::
  "string set \<Rightarrow> (string \<Rightarrow> string) \<Rightarrow> verify_spec \<Rightarrow> observation \<Rightarrow> file_probe \<Rightarrow> verify_result" where
  "evaluate_only keep quote s ob probe =
     (let cs = filter (\<lambda>c. vc_name c \<in> keep) (evaluate_checks quote s ob probe) in
      \<lparr> vr_passed = list_all vc_passed cs, vr_checks = cs \<rparr>)"

definition suite_passes :: "(verify_spec \<Rightarrow> observation \<Rightarrow> file_probe \<Rightarrow> verify_result) \<Rightarrow> bool" where
  "suite_passes ev \<longleftrightarrow> pipeline_discriminates (map (control_outcome_of ev) built_in_controls)"

lemma contains_facts:
  "contains ''Successfully installed package'' ''Successfully''" "\<not> contains ''error: command failed'' ''Successfully''"
  "\<not> contains ''ok'' ''Successfully''" "\<not> contains [] ''Successfully''"
  by code_simp+

lemma suite_passes_iff:
  "suite_passes ev \<longleftrightarrow> list_all (\<lambda>d. vr_passed (ev (cd_spec d) (cd_observation d) (control_probe d)) = cd_expected d) built_in_controls"
  by (auto simp: suite_passes_def pipeline_discriminates_def control_outcome_of_def built_in_controls_def Let_def)

lemma control_checks:
  "exit_check True (Some 0) = \<lparr> vc_name = ''exit_code_zero'', vc_passed = True, vc_detail = ''exit_code=0'' \<rparr>"
  "vc_name (exit_check z c) = ''exit_code_zero''" "vc_name (stdout_check quote n out) = ''stdout_contains''"
  "vc_name (file_check quote p probe) = ''file_exists''"
  "vc_passed (exit_check z c) \<longleftrightarrow> (\<exists>n. c = Some n \<and> (z \<longleftrightarrow> n = 0))" "vc_passed (stdout_check quote n out) \<longleftrightarrow> contains out n"
  "vc_passed (file_check quote p probe) \<longleftrightarrow> (\<exists>f. probe = Some f \<and> f p = Inr True)"
  by (auto simp: exit_check_def stdout_check_def file_check_def split: option.split sum.split bool.split)

lemma evaluate_everything: "evaluate_only {''exit_code_zero'', ''stdout_contains'', ''file_exists''} quote = evaluate quote"
proof -
  have "filter (\<lambda>c. vc_name c \<in> {''exit_code_zero'', ''stdout_contains'', ''file_exists''}) (evaluate_checks quote s ob probe) =
      evaluate_checks quote s ob probe" for s ob probe
    by (auto simp: evaluate_checks_def control_checks split: option.split)
  then show ?thesis by (intro ext) (simp only: evaluate_only_def evaluate_def)
qed

text \<open>
  Property C37.  The evaluator passes the frozen suite, and the suite detects a skipped check: an evaluator
  that makes only some of the three checks passes it exactly if it makes all of them.
\<close>

theorem controls_detect_skipped_check:
  "rp_passed (run_controls sha quote now) \<and>
   (rp_passed (run_controls_by sha (evaluate_only keep quote) now) \<longleftrightarrow>
      {''exit_code_zero'', ''stdout_contains'', ''file_exists''} \<subseteq> keep)"
proof -
  have skip: "suite_passes (evaluate_only keep quote) \<longleftrightarrow> {''exit_code_zero'', ''stdout_contains'', ''file_exists''} \<subseteq> keep" for keep
    unfolding suite_passes_iff
    by (auto simp: built_in_controls_def evaluate_only_def evaluate_checks_def full_spec_def seen_def control_probe_def
        control_checks contains_facts Let_def simp del: contains.simps split: if_splits)
  moreover have "rp_passed (run_controls_by sha ev now) = suite_passes ev" for ev
    by (simp add: run_controls_by_def suite_passes_def Let_def)
  ultimately show ?thesis
    using skip [of "{''exit_code_zero'', ''stdout_contains'', ''file_exists''}"] unfolding run_controls_def
    by (simp add: evaluate_everything)
qed

text \<open>A result passes exactly if every assertion that is made holds.\<close>

lemma evaluate_passed:
  "vr_passed (evaluate quote s ob probe) \<longleftrightarrow>
     (\<forall>z. vs_exit_zero s = Some z \<longrightarrow> (\<exists>n. ob_exit ob = Some n \<and> (z \<longleftrightarrow> n = 0))) \<and>
     (vs_stdout s \<noteq> [] \<longrightarrow> contains (ob_stdout ob) (vs_stdout s)) \<and>
     (vs_file s \<noteq> [] \<longrightarrow> (\<exists>f. probe = Some f \<and> f (vs_file s) = Inr True))"
  by (auto simp: evaluate_def evaluate_checks_def control_checks Let_def split: option.split)

section \<open>Repaired records\<close>

definition repair_spec :: "verify_spec \<Rightarrow> verify_spec" where
  "repair_spec s = s\<lparr>vs_stdout := utf8_repair (vs_stdout s), vs_file := utf8_repair (vs_file s)\<rparr>"

definition repair_observation :: "observation \<Rightarrow> observation" where
  "repair_observation ob = ob\<lparr>ob_stdout := utf8_repair (ob_stdout ob), ob_stderr := utf8_repair (ob_stderr ob)\<rparr>"

definition repair_check :: "verify_check \<Rightarrow> verify_check" where
  "repair_check c = c\<lparr>vc_name := utf8_repair (vc_name c), vc_detail := utf8_repair (vc_detail c)\<rparr>"

definition repair_result :: "verify_result \<Rightarrow> verify_result" where
  "repair_result r = r\<lparr>vr_checks := map repair_check (vr_checks r)\<rparr>"

definition repair_outcome :: "control_outcome \<Rightarrow> control_outcome" where
  "repair_outcome oc =
     oc\<lparr>oc_id := utf8_repair (oc_id oc), oc_name := utf8_repair (oc_name oc),
        oc_description := utf8_repair (oc_description oc), oc_result := repair_result (oc_result oc)\<rparr>"

definition repair_report :: "control_report \<Rightarrow> control_report" where
  "repair_report rp =
     rp\<lparr>rp_suite := utf8_repair (rp_suite rp), rp_fingerprint := utf8_repair (rp_fingerprint rp),
        rp_created := utf8_repair (rp_created rp), rp_controls := map repair_outcome (rp_controls rp),
        rp_summary := utf8_repair (rp_summary rp)\<rparr>"

definition repair_subject :: "evidence_subject \<Rightarrow> evidence_subject" where
  "repair_subject s =
     \<lparr> es_session = utf8_repair (es_session s), es_run = utf8_repair (es_run s),
        es_verification = utf8_repair (es_verification s), es_step = utf8_repair (es_step s),
        es_actor = utf8_repair (es_actor s) \<rparr>"

definition repair_checkpoint :: "evidence_checkpoint \<Rightarrow> evidence_checkpoint" where
  "repair_checkpoint c =
     c\<lparr>ec_spec := repair_spec (ec_spec c), ec_observation := repair_observation (ec_observation c),
       ec_checks := map repair_check (ec_checks c)\<rparr>"

definition repair_evidence :: "evidence_record \<Rightarrow> evidence_record" where
  "repair_evidence r =
     r\<lparr>er_schema := utf8_repair (er_schema r), er_id := utf8_repair (er_id r), er_created := utf8_repair (er_created r),
       er_kind := utf8_repair (er_kind r), er_subject := repair_subject (er_subject r),
       er_checkpoint := map_option repair_checkpoint (er_checkpoint r),
       er_controls := map_option repair_report (er_controls r), er_digest := utf8_repair (er_digest r),
       er_sig := utf8_repair (er_sig r)\<rparr>"

section \<open>Trees of repaired records\<close>

definition ascii :: "string \<Rightarrow> bool" where
  "ascii s \<longleftrightarrow> list_all (in_range 0 127) s"

lemma ascii_simps [simp]: "ascii []" "ascii (c # s) \<longleftrightarrow> in_range 0 127 c \<and> ascii s"
  by (simp_all add: ascii_def)

lemma utf8_repair_ascii: "ascii s \<Longrightarrow> utf8_repair s = s"
proof (induction s)
  case Nil
  then show ?case by (simp add: utf8_repair.simps)
next
  case (Cons c s)
  then show ?case by (subst utf8_repair.simps) simp
qed

lemma utf8_repair_Nil [simp]: "utf8_repair s = [] \<longleftrightarrow> s = []"
  using rune_width_pos [of s] by (subst utf8_repair.simps) (auto simp: replacement_def bytes_def)

abbreviation repair_field :: "string \<times> jtree \<Rightarrow> string \<times> jtree" where
  "repair_field \<equiv> \<lambda>(k, t). (utf8_repair k, repair_tree t)"

lemma repair_opt_text: "ascii k \<Longrightarrow> map repair_field (opt_text k s) = opt_text k (utf8_repair s)"
  by (simp add: opt_text_def utf8_repair_ascii)

lemma repair_opt_field:
  "ascii k \<Longrightarrow> (\<And>v. x = Some v \<Longrightarrow> repair_tree (f v) = f (g v)) \<Longrightarrow>
     map repair_field (opt_field k f x) = opt_field k f (map_option g x)"
  by (cases x) (simp_all add: opt_field_def utf8_repair_ascii)

lemma repair_opt_plain: "ascii k \<Longrightarrow> (\<And>v. repair_tree (f v) = f v) \<Longrightarrow> map repair_field (opt_field k f x) = opt_field k f x"
  by (cases x) (simp_all add: opt_field_def utf8_repair_ascii)

lemmas tree_repairs = repair_opt_text repair_opt_plain utf8_repair_ascii in_range_def

lemma spec_tree_repair: "repair_tree (spec_tree s) = spec_tree (repair_spec s)"
  by (simp add: spec_tree_def repair_spec_def tree_repairs)

lemma observation_tree_repair: "repair_tree (observation_tree ob) = observation_tree (repair_observation ob)"
  by (simp add: observation_tree_def repair_observation_def tree_repairs)

lemma check_tree_repair: "repair_tree (check_tree c) = check_tree (repair_check c)"
  by (simp add: check_tree_def repair_check_def tree_repairs)

lemma checks_tree_repair: "repair_tree (checks_tree cs) = checks_tree (map repair_check cs)"
  by (simp add: checks_tree_def check_tree_repair)

lemma result_tree_repair: "repair_tree (result_tree r) = result_tree (repair_result r)"
  by (simp add: result_tree_def repair_result_def checks_tree_repair tree_repairs)

lemma kind_text_ascii: "ascii (kind_text k)"
  by (cases k) (simp_all add: in_range_def)

lemma outcome_tree_repair: "repair_tree (outcome_tree oc) = outcome_tree (repair_outcome oc)"
  by (simp add: outcome_tree_def repair_outcome_def result_tree_repair utf8_repair_ascii kind_text_ascii in_range_def)

lemma report_tree_repair: "repair_tree (report_tree rp) = report_tree (repair_report rp)"
  by (simp add: report_tree_def repair_report_def outcome_tree_repair utf8_repair_ascii in_range_def)

lemma subject_tree_repair: "repair_tree (subject_tree s) = subject_tree (repair_subject s)"
  by (simp add: subject_tree_def repair_subject_def tree_repairs)

lemma checkpoint_tree_repair: "repair_tree (checkpoint_tree c) = checkpoint_tree (repair_checkpoint c)"
  by (simp add: checkpoint_tree_def repair_checkpoint_def spec_tree_repair observation_tree_repair checks_tree_repair
      utf8_repair_ascii in_range_def)

lemma evidence_tree_repair: "repair_tree (evidence_tree r) = evidence_tree (repair_evidence r)"
  by (simp add: evidence_tree_def repair_evidence_def subject_tree_repair tree_repairs
      repair_opt_field [where g = repair_checkpoint] repair_opt_field [where g = repair_report]
      checkpoint_tree_repair report_tree_repair)

section \<open>Trees determine records\<close>

lemma opt_text_member [simp]: "k \<in> fst ` set (opt_text k' s) \<longleftrightarrow> k = k' \<and> s \<noteq> []"
  by (simp add: opt_text_def)

lemma opt_field_member [simp]: "k \<in> fst ` set (opt_field k' f x) \<longleftrightarrow> k = k' \<and> x \<noteq> None"
  by (cases x) (simp_all add: opt_field_def)

lemma opt_text_append:
  assumes "k \<notin> fst ` set xs" "k \<notin> fst ` set ys"
  shows "opt_text k s @ xs = opt_text k t @ ys \<longleftrightarrow> s = t \<and> xs = ys"
  using assms by (auto simp: opt_text_def)

lemma opt_text_eq: "opt_text k s = opt_text k t \<longleftrightarrow> s = t"
  by (simp add: opt_text_def)

lemma opt_field_append:
  assumes "k \<notin> fst ` set xs" "k \<notin> fst ` set ys" "\<And>a b. f a = f b \<longleftrightarrow> a = b"
  shows "opt_field k f x @ xs = opt_field k f y @ ys \<longleftrightarrow> x = y \<and> xs = ys"
  using assms by (auto simp: opt_field_def split: option.splits)

lemmas tree_injs = opt_text_append opt_text_eq opt_field_append image_Un

lemma spec_tree_inj: "spec_tree s = spec_tree t \<longleftrightarrow> s = t"
  by (cases s; cases t) (auto simp: spec_tree_def tree_injs)

lemma observation_tree_inj: "observation_tree s = observation_tree t \<longleftrightarrow> s = t"
  by (cases s; cases t) (auto simp: observation_tree_def tree_injs)

lemma check_tree_inj: "check_tree s = check_tree t \<longleftrightarrow> s = t"
  by (cases s; cases t) (auto simp: check_tree_def tree_injs)

lemma map_inj_eq: "(\<And>a b. f a = f b \<longleftrightarrow> a = b) \<Longrightarrow> map f xs = map f ys \<longleftrightarrow> xs = ys"
  by (metis inj_def inj_map_eq_map)

lemma checks_tree_inj: "checks_tree s = checks_tree t \<longleftrightarrow> s = t"
  by (auto simp: checks_tree_def map_inj_eq [OF check_tree_inj])

lemma kind_text_inj: "kind_text k = kind_text l \<longleftrightarrow> k = l"
  by (cases k; cases l) auto

lemma result_tree_inj: "result_tree s = result_tree t \<longleftrightarrow> s = t"
  by (cases s; cases t) (simp add: result_tree_def checks_tree_inj)

lemma outcome_tree_inj: "outcome_tree s = outcome_tree t \<longleftrightarrow> s = t"
  by (cases s; cases t) (auto simp: outcome_tree_def kind_text_inj result_tree_inj)

lemma report_tree_inj: "report_tree s = report_tree t \<longleftrightarrow> s = t"
  by (cases s; cases t) (auto simp: report_tree_def map_inj_eq [OF outcome_tree_inj])

lemma subject_tree_inj: "subject_tree s = subject_tree t \<longleftrightarrow> s = t"
  by (cases s; cases t) (simp add: subject_tree_def tree_injs)

lemma checkpoint_tree_inj: "checkpoint_tree s = checkpoint_tree t \<longleftrightarrow> s = t"
  by (cases s; cases t) (auto simp: checkpoint_tree_def spec_tree_inj observation_tree_inj checks_tree_inj)

lemma evidence_tree_inj: "evidence_tree s = evidence_tree t \<longleftrightarrow> s = t"
  by (cases s; cases t) (auto simp: evidence_tree_def tree_injs subject_tree_inj checkpoint_tree_inj report_tree_inj)

section \<open>Texts that repair changes\<close>

lemma json_body_rune:
  assumes "snd (rune_width s)" "r = take (fst (rune_width s)) s"
  shows "json_body (r @ z) = json_escape r @ json_body z"
proof -
  have w: "rune_width (r @ z) = rune_width s" using rune_width_prefix [OF assms(1)] assms(2) by simp
  have "s \<noteq> []" using assms(1) by auto
  then have len: "length r = fst (rune_width s)" "r \<noteq> []"
    using assms(2) rune_width_le [of s] rune_width_pos [of s] by (auto simp del: rune_width.simps)
  then show ?thesis using w assms(1) by (subst json_body.simps) (simp del: rune_width.simps)
qed

lemma json_body_replacement: "json_body (replacement @ z) = replacement @ json_body z"
proof -
  have "rune_width (replacement @ []) = (3, True)" by (simp add: replacement_def bytes_def in_range_def)
  then have "json_body (replacement @ z) = json_escape replacement @ json_body z"
    by (intro json_body_rune [of replacement]) (simp_all add: replacement_def bytes_def del: rune_width.simps)
  then show ?thesis by (simp add: json_escape_def replacement_def bytes_def)
qed

lemma json_body_repair:
  "length (json_body (utf8_repair s)) \<le> length (json_body s) \<and>
   (length (json_body (utf8_repair s)) = length (json_body s) \<longrightarrow> utf8_repair s = s)"
proof (induction s rule: utf8_repair.induct)
  case (1 s)
  show ?case
  proof (cases "s = []")
    case False
    let ?r = "take (fst (rune_width s)) s" and ?u = "drop (fst (rune_width s)) s"
    note IH = 1 [OF False]
    show ?thesis
    proof (cases "snd (rune_width s)")
      case True
      then have "utf8_repair s = ?r @ utf8_repair ?u" "json_body s = json_escape ?r @ json_body ?u"
        using False by (subst utf8_repair.simps json_body.simps, simp)+
      with IH json_body_rune [OF True refl, of "utf8_repair ?u"] show ?thesis
        by (auto simp: append_take_drop_id)
    next
      case bad: False
      then have "utf8_repair s = replacement @ utf8_repair ?u" "json_body s = CHR 0x5C # ''ufffd'' @ json_body ?u"
        using False by (subst utf8_repair.simps json_body.simps, simp)+
      with IH json_body_replacement [of "utf8_repair ?u"] show ?thesis by (auto simp: replacement_def bytes_def)
    qed
  qed (simp add: utf8_repair.simps)
qed

text \<open>A text is not changed by repair when its encoding is not.\<close>

lemma json_text_fixed: "json_text (repair_tree t) = json_text t \<Longrightarrow> repair_tree t = t"
proof (induction t)
  case (JText s)
  then show ?case using json_body_repair [of s] by (simp add: json_quote_def)
next
  case (JList ts)
  have item: "json_text a = json_text b \<and> x = y" if "json_text a @ x = json_text b @ y" "closed_text x" "closed_text y" for a b x y
    using json_text_inj [OF that] that(1) by simp
  have start: "json_text v \<noteq> [] \<and> hd (json_text v) \<noteq> CHR '']''" for v
    using json_text_kind [of v] by (cases v) (auto simp: char_kind_def is_digit_def split: if_splits)
  have eq: "commas (map json_text ts) @ CHR '']'' # [] = commas (map json_text (map repair_tree ts)) @ CHR '']'' # []"
    using JList(2) by simp
  have "list_all2 (\<lambda>a b. json_text a = json_text b) ts (map repair_tree ts) \<and> ([] :: string) = []"
    by (rule commas_split [OF item start _ eq]) simp_all
  then have "\<forall>t \<in> set ts. json_text (repair_tree t) = json_text t" by (auto simp: list_all2_map2 list_all2_same)
  with JList(1) show ?case by (simp add: map_idI)
next
  case (JFields fs)
  let ?f = "\<lambda>(k, t). json_quote k @ CHR '':'' # json_text t"
  let ?R = "\<lambda>p q. json_quote (fst p) = json_quote (fst q) \<and> json_text (snd p) = json_text (snd q)"
  have item: "?R p q \<and> v = w" if "?f p @ v = ?f q @ w" "closed_text v" "closed_text w" for p q v w
  proof -
    from that(1) have eq: "json_quote (fst p) @ CHR '':'' # json_text (snd p) @ v = json_quote (fst q) @ CHR '':'' # json_text (snd q) @ w"
      by (simp add: case_prod_beta)
    from quote_inj [OF eq] have rest: "json_text (snd p) @ v = json_text (snd q) @ w" by simp
    with json_text_inj [OF rest that(2,3)] eq show ?thesis by simp
  qed
  have start: "?f p \<noteq> [] \<and> hd (?f p) \<noteq> CHR ''}''" for p by (cases p) (simp add: json_quote_def)
  have eq: "commas (map ?f fs) @ CHR ''}'' # [] = commas (map ?f (map repair_field fs)) @ CHR ''}'' # []"
    using JFields(2) by simp
  have "list_all2 ?R fs (map repair_field fs) \<and> ([] :: string) = []"
    by (rule commas_split [OF item start _ eq]) simp_all
  then have same: "\<forall>(k, t) \<in> set fs. json_quote (utf8_repair k) = json_quote k \<and> json_text (repair_tree t) = json_text t"
    by (auto simp: list_all2_map2 list_all2_same)
  have "(utf8_repair k, repair_tree t) = (k, t)" if "(k, t) \<in> set fs" for k t
    using same that JFields(1) [of "(k, t)" t] json_body_repair [of k] by (auto simp: json_quote_def)
  then show ?case by (auto intro!: map_idI)
qed simp_all

section \<open>Properties\<close>

definition content :: "evidence_record \<Rightarrow> evidence_record" where
  "content r = r\<lparr>er_digest := [], er_sig := []\<rparr>"

lemma content_eqI: "content a = content b \<Longrightarrow> er_digest a = er_digest b \<Longrightarrow> er_sig a = er_sig b \<Longrightarrow> a = b"
  by (cases a; cases b) (simp add: content_def)

lemma repair_content: "repair_evidence (content r) = content (repair_evidence r)"
  by (simp add: repair_evidence_def content_def utf8_repair.simps)

lemma digest_content: "compute_content_digest sha r = sha (json_text (evidence_tree (content r)))"
  by (simp add: compute_content_digest_def content_def)

lemma evidence_same_text:
  assumes "json_text (evidence_tree r) = json_text (evidence_tree s)"
  shows "repair_evidence r = repair_evidence s"
  using json_text_same [OF assms] by (simp add: evidence_tree_repair evidence_tree_inj)

lemma evidence_fixed_text:
  assumes "json_text (evidence_tree (repair_evidence r)) = json_text (evidence_tree r)"
  shows "repair_evidence r = r"
  using json_text_fixed [of "evidence_tree r"] assms by (simp add: evidence_tree_repair evidence_tree_inj)

text \<open>SHA-256 and HMAC in hexadecimal are never empty.\<close>

definition hex_hashes :: "sealing \<Rightarrow> bool" where
  "hex_hashes sl \<longleftrightarrow>
     (\<forall>x. ascii (sl_sha sl x) \<and> sl_sha sl x \<noteq> []) \<and> (\<forall>k x. ascii (sl_mac sl k x) \<and> sl_mac sl k x \<noteq> [])"

definition sealed_with :: "sealing \<Rightarrow> string \<Rightarrow> evidence_record \<Rightarrow> bool" where
  "sealed_with sl key r \<longleftrightarrow> (\<exists>inp i now. ei_key inp = key \<and> build_evidence sl inp i now = Inr r)"

lemma sealed_parts:
  assumes "sealed_with sl key r" "hex_hashes sl" "key \<noteq> []"
  shows "er_schema r = evidence_schema" "er_digest r = sl_sha sl (json_text (evidence_tree (content r)))"
    "er_sig r = sl_mac sl key (er_digest r)" "er_digest r \<noteq> []" "er_sig r \<noteq> []"
  using assms
  by (auto simp: sealed_with_def build_evidence_def Let_def unsealed_evidence_def digest_content content_def sign_evidence_def
      hex_hashes_def split: if_splits)

text \<open>
  Property C38.  Whoever may edit records but can neither forge the HMAC nor find a collision of SHA-256:
  a record that passes the check of its integrity with the key says in every field, up to the encoding of
  its texts, what a record that was sealed with the key says.
\<close>

theorem accepted_record_was_sealed:
  assumes "verify_integrity (sl_sha sl) (sl_mac sl) r key = Inr ()" "key \<noteq> []" "hex_hashes sl"
    and issued: "\<forall>x \<in> R. sealed_with sl key x"
    and no_forgery: "sl_mac sl key (er_digest r) = er_sig r \<longrightarrow> er_digest r \<in> er_digest ` R"
    and no_collision: "inj_on (sl_sha sl) ((\<lambda>x. json_text (evidence_tree (content x))) ` insert r R)"
  shows "\<exists>x \<in> R. repair_evidence r = repair_evidence x"
proof -
  from assms(1,2) have r: "er_schema r = evidence_schema" "er_digest r = sl_sha sl (json_text (evidence_tree (content r)))"
    "sign_evidence (sl_mac sl) (er_digest r) key = er_sig r" "er_sig r \<noteq> []"
    by (auto simp: verify_integrity_def digest_content split: if_splits)
  then have mac: "sl_mac sl key (er_digest r) = er_sig r" by (auto simp: sign_evidence_def split: if_splits)
  with no_forgery obtain x where x: "x \<in> R" "er_digest r = er_digest x" by auto
  from issued x(1) have s: "sealed_with sl key x" by blast
  note parts = sealed_parts [OF s assms(3,2)]
  have "json_text (evidence_tree (content r)) = json_text (evidence_tree (content x))"
  proof (rule inj_onD [OF no_collision])
    show "sl_sha sl (json_text (evidence_tree (content r))) = sl_sha sl (json_text (evidence_tree (content x)))"
      using r(2) parts(2) x(2) by simp
  qed (use x(1) in \<open>blast+\<close>)
  then have "content (repair_evidence r) = content (repair_evidence x)"
    using evidence_same_text repair_content by metis
  moreover have "er_digest (repair_evidence r) = er_digest (repair_evidence x)" "er_sig (repair_evidence r) = er_sig (repair_evidence x)"
    using x(2) mac parts(3) by (simp_all add: repair_evidence_def)
  ultimately have "repair_evidence r = repair_evidence x" by (rule content_eqI)
  with x(1) show ?thesis by blast
qed

text \<open>
  A record that was sealed passes the check of its integrity; after it was exported as JSON
  and read back it does so exactly if all its texts are well-formed UTF-8.
\<close>

theorem sealed_record_verifies:
  assumes "sealed_with sl key r" "key \<noteq> []" "hex_hashes sl"
    and no_collision: "inj_on (sl_sha sl) {json_text (evidence_tree (content r)), json_text (evidence_tree (content (repair_evidence r)))}"
  shows "verify_integrity (sl_sha sl) (sl_mac sl) r key = Inr () \<and>
    (verify_integrity (sl_sha sl) (sl_mac sl) (repair_evidence r) key = Inr () \<longleftrightarrow> repair_evidence r = r)"
proof -
  note parts = sealed_parts [OF assms(1,3,2)]
  then have own: "verify_integrity (sl_sha sl) (sl_mac sl) r key = Inr ()"
    using assms(2) by (simp add: verify_integrity_def digest_content sign_evidence_def)
  have "repair_evidence r = r" if "verify_integrity (sl_sha sl) (sl_mac sl) (repair_evidence r) key = Inr ()"
  proof -
    have hex: "er_digest (repair_evidence r) = er_digest r" "er_sig (repair_evidence r) = er_sig r"
      using parts(2,3) assms(3) by (simp_all add: repair_evidence_def utf8_repair_ascii hex_hashes_def)
    from that have "sl_sha sl (json_text (evidence_tree (content (repair_evidence r)))) = er_digest r"
      by (simp add: verify_integrity_def digest_content hex split: if_splits)
    then have "sl_sha sl (json_text (evidence_tree (content (repair_evidence r)))) = sl_sha sl (json_text (evidence_tree (content r)))"
      using parts(2) by simp
    then have "json_text (evidence_tree (content (repair_evidence r))) = json_text (evidence_tree (content r))"
      by (rule inj_onD [OF no_collision]) blast+
    then have "repair_evidence (content r) = content r" by (intro evidence_fixed_text) (simp only: repair_content)
    then have "content (repair_evidence r) = content r" by (simp only: repair_content)
    from content_eqI [OF this hex] show ?thesis .
  qed
  with own show ?thesis by auto
qed

end
