(* ===== verification/VerifyClaims.thy ===== *)
theory VerifyClaims
  imports VerifyProps
begin

text \<open>
  Sealed records from the endpoints: runs and rows that they are bound to, and what a client can make the
  server seal.
\<close>

section \<open>Rows are read as they were saved\<close>

lemma decode_spec: "tree_spec (spec_tree s) = Some s"
  by (cases s; cases "vs_exit_zero s")
    (auto simp: tree_spec_def spec_tree_def field_text_def field_flag_def opt_text_def opt_field_def)

lemma decode_observation: "tree_observation (observation_tree ob) = Some ob"
  by (cases ob; cases "ob_exit ob")
    (auto simp: tree_observation_def observation_tree_def field_text_def field_int_def opt_text_def opt_field_def)

lemma decode_check: "tree_check (check_tree c) = Some c"
  by (cases c) (auto simp: tree_check_def check_tree_def field_text_def field_flag_def opt_text_def)

lemma decode_checks: "tree_checks (checks_tree cs) = Some cs"
proof -
  have "all_some (map tree_check (map check_tree cs)) = Some cs" by (induction cs) (simp_all add: decode_check)
  then show ?thesis by (simp add: checks_tree_def)
qed

lemmas decode_rows = spec_tree_repair observation_tree_repair checks_tree_repair decode_spec decode_observation decode_checks

section \<open>Properties\<close>


section \<open>A run of which the client says more\<close>

definition demo_sealing :: sealing where
  "demo_sealing =
     \<lparr> sl_sha = (\<lambda>x. CHR ''a'' # int_dec (int (length x))), sl_mac = (\<lambda>k x. CHR ''b'' # int_dec (int (length k + length x))),
        sl_quote = (\<lambda>s. CHR 0x22 # s @ [CHR 0x22]) \<rparr>"

lemma ascii_int_dec: "ascii (int_dec i)"
proof -
  have "in_range 0 127 c" if "c \<in> set (int_dec i)" for c
    using int_dec_chars [OF that] by (auto simp: is_digit_def in_range_def)
  then show ?thesis by (simp add: ascii_def list_all_iff)
qed

lemma demo_hashes: "hex_hashes demo_sealing"
  by (simp add: hex_hashes_def demo_sealing_def ascii_int_dec in_range_def)

text \<open>The run failed; the caller says it did not.\<close>

definition failed_run :: run_output where
  "failed_run = \<lparr> ro_session = ''s'', ro_exit = Some 1, ro_stdout = Some ''error'', ro_stderr = None \<rparr>"

definition demo_verify :: verify_env where
  "demo_verify =
     \<lparr> ve_uuid = (\<lambda>raw. Some raw), ve_runs = (\<lambda>rid. if rid = ''r'' then Found failed_run else NoRows),
        ve_sessions = (\<lambda>sid. Found \<lparr> s_id = sid, s_created_by = ''ann'', s_org = None, s_stopped = None, s_container = None,
          s_status = ''active'', s_workspace = [] \<rparr>), ve_roles = (\<lambda>_ _. NoRows), ve_exists = (\<lambda>_ _. Inr False),
        ve_sealing = demo_sealing, ve_key = ''k'', ve_store = True, ve_save_ok = True, ve_get_ok = True \<rparr>"

definition exit_spec :: verify_spec where
  "exit_spec = \<lparr> vs_exit_zero = Some True, vs_stdout = [], vs_file = [] \<rparr>"

definition claimed :: observation where
  "claimed = \<lparr> ob_exit = Some 0, ob_stdout = ''all tests passed'', ob_stderr = [] \<rparr>"

definition claim_request :: verify_request where
  "claim_request =
     \<lparr> vq_spec = exit_spec, vq_observation = Some claimed, vq_run = Some ''r'', vq_session = None, vq_step = [], vq_persist = None \<rparr>"

definition claimed_rows :: "verify_row list" where
  "claimed_rows = snd (evaluate_handler demo_verify ''ann'' (Some claim_request) ''v'' 0 [])"

lemma demo_session_ok: "session_refusal demo_verify ''ann'' sid role = None"
  by (simp add: session_refusal_def check_session_access_def session_if_accessible_def demo_verify_def)

lemma claimed_result:
  "evaluate quote exit_spec claimed probe =
     \<lparr> vr_passed = True, vr_checks = [\<lparr> vc_name = ''exit_code_zero'', vc_passed = True, vc_detail = ''exit_code=0'' \<rparr>] \<rparr>"
  by (simp add: evaluate_def evaluate_checks_def exit_spec_def claimed_def exit_check_def)

lemma claimed_repairs:
  "repair_spec exit_spec = exit_spec" "repair_observation claimed = claimed"
  "repair_check \<lparr> vc_name = ''exit_code_zero'', vc_passed = True, vc_detail = ''exit_code=0'' \<rparr> =
     \<lparr> vc_name = ''exit_code_zero'', vc_passed = True, vc_detail = ''exit_code=0'' \<rparr>"
  by (simp_all add: repair_spec_def exit_spec_def repair_observation_def claimed_def repair_check_def utf8_repair_ascii in_range_def)

lemma claimed_rows_are:
  "claimed_rows =
     [\<lparr> vw_id = ''v'', vw_session = Some ''s'', vw_run = Some ''r'', vw_step = [], vw_spec = spec_tree exit_spec,
        vw_observation = observation_tree claimed, vw_passed = True,
        vw_checks = checks_tree [\<lparr> vc_name = ''exit_code_zero'', vc_passed = True, vc_detail = ''exit_code=0'' \<rparr>],
        vw_created = 0 \<rparr>]"
proof -
  have "filled_observation claimed failed_run = claimed"
    by (simp add: filled_observation_def claimed_def failed_run_def)
  moreover have "jsonb_takes (spec_tree exit_spec)" "jsonb_takes (observation_tree claimed)"
    "jsonb_takes (checks_tree [\<lparr> vc_name = ''exit_code_zero'', vc_passed = True, vc_detail = ''exit_code=0'' \<rparr>])"
    by (simp_all add: exit_spec_def claimed_def spec_tree_def observation_tree_def checks_tree_def check_tree_def
        opt_text_def opt_field_def)
  moreover have "ve_runs demo_verify ''r'' = Found failed_run" "ro_session failed_run = ''s''" "ve_store demo_verify" "ve_save_ok demo_verify"
    by (simp_all add: demo_verify_def failed_run_def)
  moreover have "\<not> spec_empty exit_spec" "\<not> too_large claimed" "rune_count [] = 0"
    by (simp_all add: spec_empty_def exit_spec_def too_large_def claimed_def verify_max_stdout_def rune_count.simps)
  ultimately show ?thesis
    by (simp add: claimed_rows_def evaluate_handler_def claim_request_def given_observation_def run_of_request_def
        demo_session_ok persist_refusal_def claimed_result save_row_def Let_def decode_rows claimed_repairs)
qed

definition claimed_input :: evidence_input where
  "claimed_input =
     (blank_input ''ann'' [] False)\<lparr>ei_checkpoint := True, ei_spec := exit_spec, ei_observation := claimed,
       ei_result := evaluate id exit_spec claimed None, ei_session := Some ''s'', ei_run := Some ''r'',
       ei_verification := Some ''v'', ei_key := ''k''\<rparr>"

definition claimed_record :: evidence_record where
  "claimed_record =
     (let r = unsealed_evidence demo_sealing claimed_input ''e'' ''now''; d = compute_content_digest (sl_sha demo_sealing) r in
      r\<lparr>er_digest := d, er_sig := sign_evidence (sl_mac demo_sealing) d ''k''\<rparr>)"

lemma claimed_built: "build_evidence demo_sealing claimed_input ''e'' ''now'' = Inr claimed_record"
  using rune_count_le_length [of "''ann''"]
  by (simp add: build_evidence_def claimed_record_def claimed_input_def blank_input_def rune_count.simps Let_def)

lemma claimed_sealed: "sealed_with demo_sealing ''k'' claimed_record"
  unfolding sealed_with_def using claimed_built by (intro exI [of _ claimed_input]) (auto simp: claimed_input_def)

text \<open>
  The record that the server signs names the run and says that it passed with the exit code that the client
  gave; the run has another.
\<close>

theorem client_observation_sealed:
  "get_evidence_handler demo_verify ''ann'' ''v'' False True ''e'' ''now'' claimed_rows = Sealed claimed_record \<and>
   ve_runs demo_verify ''r'' = Found failed_run \<and> ro_exit failed_run = Some 1 \<and> er_sig claimed_record \<noteq> [] \<and>
   es_run (er_subject claimed_record) = ''r'' \<and> er_passed claimed_record \<and>
   map_option ec_observation (er_checkpoint claimed_record) = Some claimed \<and> ob_exit claimed = Some 0"
proof -
  let ?row = "hd claimed_rows"
  have "row_for demo_verify ''ann'' ''v'' claimed_rows = Inr ?row"
    by (simp add: row_for_def claimed_rows_are get_row_def authorize_read_def)
      (simp add: demo_verify_def session_if_accessible_def)
  moreover have "(the (populate_evidence (blank_input ''ann'' [] False) ?row))\<lparr>ei_verification := Some ''v'', ei_step := [],
      ei_key := ''k''\<rparr> = claimed_input"
    by (simp add: populate_evidence_def claimed_rows_are decode_rows claimed_input_def blank_input_def claimed_result)
  moreover have "populate_evidence (blank_input ''ann'' [] False) ?row \<noteq> None"
    by (simp add: populate_evidence_def claimed_rows_are decode_rows)
  moreover have "vw_id ?row = ''v''" "vw_step ?row = []" by (simp_all add: claimed_rows_are)
  moreover have "ve_key demo_verify = ''k''" "ve_sealing demo_verify = demo_sealing" "ve_uuid demo_verify ''v'' = Some ''v''"
    by (simp_all add: demo_verify_def)
  ultimately have "get_evidence_handler demo_verify ''ann'' ''v'' False True ''e'' ''now'' claimed_rows = Sealed claimed_record"
    using claimed_built by (auto simp: get_evidence_handler_def sealed_reply_def)
  moreover have "sanitize_observation claimed = claimed"
    by (simp add: sanitize_observation_def claimed_def truncate_evidence_def max_evidence_stdout_def)
  moreover have "er_sig claimed_record \<noteq> []" by (rule sealed_parts(5) [OF claimed_sealed demo_hashes]) simp
  moreover have "ob_exit claimed = Some 0" "ve_runs demo_verify ''r'' = Found failed_run" "ro_exit failed_run = Some 1"
    by (simp_all add: claimed_def demo_verify_def failed_run_def)
  ultimately show ?thesis
    by (simp add: claimed_record_def unsealed_evidence_def claimed_input_def blank_input_def claimed_result id_text_def Let_def)
qed

lemma claimed_well_formed: "repair_evidence claimed_record = claimed_record"
proof -
  have "trim_space ''ann'' = ''ann''" "trim_space [] = []" by code_simp+
  moreover have "sanitize_observation claimed = claimed"
    by (simp add: sanitize_observation_def claimed_def truncate_evidence_def max_evidence_stdout_def)
  ultimately show ?thesis
    by (simp add: repair_evidence_def claimed_record_def unsealed_evidence_def claimed_input_def blank_input_def claimed_result
        id_text_def Let_def repair_subject_def repair_checkpoint_def claimed_repairs utf8_repair_ascii in_range_def evidence_schema_def ascii_int_dec
        demo_sealing_def compute_content_digest_def sign_evidence_def)
qed

theorem accepted_record_was_sealed_witness:
  "verify_integrity (sl_sha demo_sealing) (sl_mac demo_sealing) claimed_record ''k'' = Inr () \<and>
   (\<exists>x \<in> {claimed_record}. repair_evidence claimed_record = repair_evidence x)"
proof -
  note parts = sealed_parts [OF claimed_sealed demo_hashes]
  have ok: "verify_integrity (sl_sha demo_sealing) (sl_mac demo_sealing) claimed_record ''k'' = Inr ()"
    using parts by (simp add: verify_integrity_def digest_content sign_evidence_def)
  have "\<exists>x \<in> {claimed_record}. repair_evidence claimed_record = repair_evidence x"
    by (rule accepted_record_was_sealed [OF ok _ demo_hashes]) (use claimed_sealed in simp_all)
  with ok show ?thesis by blast
qed

theorem sealed_record_verifies_witness:
  "verify_integrity (sl_sha demo_sealing) (sl_mac demo_sealing) (repair_evidence claimed_record) ''k'' = Inr ()"
  using sealed_record_verifies [OF claimed_sealed _ demo_hashes] claimed_well_formed by simp

definition run_evidence :: evidence_request where
  "run_evidence =
     \<lparr> eq_spec = Some exit_spec, eq_observation = Some claimed, eq_run = Some ''r'', eq_session = None, eq_verification = None,
        eq_step = [], eq_controls = False, eq_sign = None \<rparr>"


section \<open>Cut output\<close>

text \<open>
  Output is cut after 65536 bytes, also within a rune: the record that is exported then does not pass the
  check of its integrity (by the property above), although nothing was changed.
\<close>

lemma utf8_repair_replicate: "in_range 0 127 c \<Longrightarrow> utf8_repair (replicate n c @ z) = replicate n c @ utf8_repair z"
  by (induction n) (simp, subst utf8_repair.simps, simp)

lemma cut_rune_not_well_formed:
  assumes "build_evidence sl inp i now = Inr r" "ei_checkpoint inp"
    and "ob_stdout (ei_observation inp) = replicate 65535 (CHR ''a'') @ bytes [195, 169]"
  shows "repair_evidence r \<noteq> r"
proof -
  let ?out = "replicate 65535 (CHR ''a'') @ bytes [195, 226, 128, 166]"
  have "truncate_evidence (ob_stdout (ei_observation inp)) max_evidence_stdout = ?out"
    by (simp add: assms(3) truncate_evidence_def max_evidence_stdout_def bytes_def)
  moreover have "char_of (195::nat) \<noteq> CHR 0x00" "char_of (226::nat) \<noteq> CHR 0x00" "char_of (128::nat) \<noteq> CHR 0x00"
    "char_of (166::nat) \<noteq> CHR 0x00" by code_simp+
  ultimately have out: "ob_stdout (sanitize_observation (ei_observation inp)) = ?out"
    by (simp add: sanitize_observation_def bytes_def)
  have "utf8_repair (bytes [195, 226, 128, 166]) = replacement @ utf8_repair (bytes [226, 128, 166])"
    by (subst utf8_repair.simps) (simp add: bytes_def in_range_def)
  then have "utf8_repair ?out \<noteq> ?out"
    by (simp add: utf8_repair_replicate in_range_def replacement_def bytes_def)
  with out have "repair_observation (sanitize_observation (ei_observation inp)) \<noteq> sanitize_observation (ei_observation inp)"
    by (metis observation.select_convs(2) observation.surjective observation.update_convs(2) repair_observation_def observation.simps)
  moreover have "er_checkpoint r = Some \<lparr> ec_spec = ei_spec inp, ec_observation = sanitize_observation (ei_observation inp),
                         ec_checks = vr_checks (ei_result inp), ec_passed = vr_passed (ei_result inp) \<rparr>"
    using assms(1,2) by (auto simp: build_evidence_def Let_def unsealed_evidence_def split: if_splits)
  ultimately show ?thesis
    by (auto simp: repair_evidence_def repair_checkpoint_def dest: arg_cong [of _ _ er_checkpoint])
qed

end
