(* ===== verification/VerifyTools.thy ===== *)
theory VerifyTools
  imports VerifyClaims TaskTools
begin

text \<open>
  \<open>sdk/mcp/verify.go\<close>: the requests that the verify tools make of their arguments, which are texts and
  empty when they are not given.  \<open>atoi\<close> is \<open>strconv.Atoi\<close>.
\<close>

section \<open>Bodies\<close>

datatype verify_arg_error = NotABool string | NotANumber string | NothingAsked

type_synonym tool_args = "string \<Rightarrow> string"

definition parse_strict_tool_bool :: "json_codec \<Rightarrow> string \<Rightarrow> bool option" where
  "parse_strict_tool_bool cd v =
     (let s = any_bool_string cd (JStr v) in if s = ''true'' then Some True else if s = ''false'' then Some False else None)"

text \<open>A field for an argument that is given.\<close>

definition text_field :: "tool_args \<Rightarrow> string \<Rightarrow> (string \<times> jtree) list" where
  "text_field args k = opt_text k (args k)"

definition bool_field :: "json_codec \<Rightarrow> tool_args \<Rightarrow> string \<Rightarrow> verify_arg_error + (string \<times> jtree) list" where
  "bool_field cd args k =
     (if args k = [] then Inr []
      else (case parse_strict_tool_bool cd (args k) of None \<Rightarrow> Inl (NotABool k) | Some b \<Rightarrow> Inr [(k, JFlag b)]))"

definition int_field :: "(string \<Rightarrow> int option) \<Rightarrow> tool_args \<Rightarrow> string \<Rightarrow> verify_arg_error + (string \<times> jtree) list" where
  "int_field atoi args k =
     (if args k = [] then Inr []
      else (case atoi (args k) of None \<Rightarrow> Inl (NotANumber k) | Some n \<Rightarrow> Inr [(k, JInt n)]))"

definition sub_object :: "string \<Rightarrow> (string \<times> jtree) list \<Rightarrow> (string \<times> jtree) list" where
  "sub_object k fs = (if fs = [] then [] else [(k, JFields fs)])"

definition spec_fields :: "json_codec \<Rightarrow> tool_args \<Rightarrow> verify_arg_error + (string \<times> jtree) list" where
  "spec_fields cd args =
     rbind (bool_field cd args ''exit_code_zero'') (\<lambda>z.
       Inr (z @ text_field args ''stdout_contains'' @ text_field args ''file_exists''))"

definition observation_fields :: "(string \<Rightarrow> int option) \<Rightarrow> tool_args \<Rightarrow> verify_arg_error + (string \<times> jtree) list" where
  "observation_fields atoi args = rbind (int_field atoi args ''exit_code'') (\<lambda>n. Inr (n @ text_field args ''stdout''))"

definition verify_checkpoint_body ::
  "json_codec \<Rightarrow> (string \<Rightarrow> int option) \<Rightarrow> tool_args \<Rightarrow> verify_arg_error + (string \<times> jtree) list" where
  "verify_checkpoint_body cd atoi args =
     rbind (spec_fields cd args) (\<lambda>s.
       if s = [] then Inl NothingAsked
       else rbind (bool_field cd args ''persist'') (\<lambda>p.
         rbind (observation_fields atoi args) (\<lambda>ob.
           Inr ([(''spec'', JFields s)] @ text_field args ''run_id'' @ text_field args ''session_id'' @
                text_field args ''step_name'' @ p @ sub_object ''observation'' ob))))"

definition verify_evidence_body ::
  "json_codec \<Rightarrow> (string \<Rightarrow> int option) \<Rightarrow> tool_args \<Rightarrow> verify_arg_error + (string \<times> jtree) list" where
  "verify_evidence_body cd atoi args =
     rbind (bool_field cd args ''include_controls'') (\<lambda>c.
       rbind (bool_field cd args ''sign'') (\<lambda>g.
         rbind (if args ''verification_id'' \<noteq> [] then Inr []
                else rbind (spec_fields cd args) (\<lambda>s. rbind (observation_fields atoi args) (\<lambda>ob.
                       Inr (sub_object ''spec'' s @ sub_object ''observation'' ob)))) (\<lambda>inline.
           if args ''verification_id'' = [] \<and> ''spec'' \<notin> fst ` set inline \<and> (''include_controls'', JFlag True) \<notin> set c
           then Inl NothingAsked
           else Inr (text_field args ''verification_id'' @ text_field args ''run_id'' @ text_field args ''session_id'' @
                     text_field args ''step_name'' @ c @ g @ inline))))"

section \<open>What the server reads\<close>

lemma bool_field_simps:
  "bool_field cd args k = Inr fs \<Longrightarrow> fs = opt_field k JFlag (if args k = [] then None else parse_strict_tool_bool cd (args k))"
  by (auto simp: bool_field_def opt_field_def split: if_splits option.splits)

text \<open>The spec of a body is the one that was asked for; it is never empty.\<close>

lemma spec_fields_read:
  assumes "spec_fields cd args = Inr fs"
  shows "JFields fs = spec_tree
    \<lparr> vs_exit_zero = (if args ''exit_code_zero'' = [] then None else parse_strict_tool_bool cd (args ''exit_code_zero'')),
       vs_stdout = args ''stdout_contains'', vs_file = args ''file_exists'' \<rparr>"
  using assms by (auto simp: spec_fields_def rbind_eq_Inr text_field_def spec_tree_def dest!: bool_field_simps)

lemma sub_object_member: "k \<in> fst ` set (sub_object k' fs) \<longleftrightarrow> k = k' \<and> fs \<noteq> []"
  by (simp add: sub_object_def)

lemma spec_nonempty: "JFields fs = spec_tree s \<Longrightarrow> fs \<noteq> [] \<longleftrightarrow> \<not> spec_empty s"
  by (auto simp: spec_tree_def spec_empty_def opt_text_def opt_field_def split: if_splits option.splits)

lemma checkpoint_body_spec:
  assumes "verify_checkpoint_body cd atoi args = Inr fs"
  shows "\<exists>t s. map_of fs ''spec'' = Some t \<and> tree_spec t = Some s \<and> \<not> spec_empty s"
proof -
  from assms obtain s where "spec_fields cd args = Inr s" "s \<noteq> []" "map_of fs ''spec'' = Some (JFields s)"
    by (auto simp: verify_checkpoint_body_def rbind_eq_Inr split: if_splits)
  from spec_fields_read [OF this(1)] obtain v where v: "JFields s = spec_tree v" by blast
  then have "tree_spec (JFields s) = Some v" by (simp add: decode_spec)
  moreover have "\<not> spec_empty v" using spec_nonempty [OF v] \<open>s \<noteq> []\<close> by simp
  ultimately show ?thesis using \<open>map_of fs ''spec'' = Some (JFields s)\<close> by blast
qed

text \<open>With the identifier of a verification nothing is claimed inline.\<close>

lemma evidence_body_of_verification:
  assumes "verify_evidence_body cd atoi args = Inr fs" "args ''verification_id'' \<noteq> []"
  shows "''spec'' \<notin> fst ` set fs \<and> ''observation'' \<notin> fst ` set fs \<and> (''verification_id'', JText (args ''verification_id'')) \<in> set fs"
  using assms
  by (auto simp: verify_evidence_body_def rbind_eq_Inr text_field_def opt_text_def opt_field_def dest!: bool_field_simps
      split: if_splits option.splits)

end
