(* ===== verification/EvidencePack.thy ===== *)
theory EvidencePack
  imports AuditScan Access
begin

text \<open>
  \<open>internal/evidence\<close> and \<open>cmd/api/handlers/evidence.go\<close>: evidence packs of a session, signed with
  Ed25519.  SHA-256, Ed25519, the encoding of a pack and the time stamping authority are parameters; the
  database answers each query from the rows that it has then.
\<close>

section \<open>Packs (\<open>evidence.go\<close>)\<close>

definition max_pack_output :: nat where
  "max_pack_output = 65536"

definition max_pack_files :: nat where
  "max_pack_files = 10000"

definition max_pack_runs :: nat where
  "max_pack_runs = 10000"

definition max_pack_audit :: nat where
  "max_pack_audit = 50000"

definition pack_schema :: string where
  "pack_schema = ''vaultrun.evidence.pack.v1''"

definition signature_alg :: string where
  "signature_alg = ''ed25519''"

record pack_session =
  ps_id :: string
  ps_name :: string
  ps_image :: string
  ps_runtime :: string
  ps_status :: string
  ps_network :: bool
  ps_hosts :: "string list"
  ps_created_by :: string
  ps_created_by_name :: string

record pack_run =
  pr_id :: string
  pr_command :: string
  pr_args :: "string list"
  pr_dir :: string
  pr_status :: string
  pr_exit :: "int option"
  pr_created :: time
  pr_stdout :: string
  pr_stderr :: string
  pr_stdout_sha :: string
  pr_stderr_sha :: string
  pr_stdout_cut :: bool
  pr_stderr_cut :: bool

record pack_file =
  pf_path :: string
  pf_size :: int
  pf_sha :: string
  pf_symlink :: bool

record pack_entry =
  pe_id :: string
  pe_seq :: "int option"
  pe_time :: time
  pe_actor :: string
  pe_actor_name :: string
  pe_action :: string
  pe_run :: string
  pe_meta :: string
  pe_sig :: string
  pe_status :: "sig_status option"
  pe_reason :: "reason option"

datatype audit_scope = ScopeAll | ScopeActor

record pack =
  pk_schema :: string
  pk_id :: string
  pk_created :: time
  pk_exported_by :: string
  pk_session :: pack_session
  pk_runs :: "pack_run list"
  pk_files :: "pack_file list"
  pk_scope :: audit_scope
  pk_signed :: bool
  pk_entries :: "pack_entry list"
  pk_notes :: "string list"

record 'tok envelope =
  en_pack :: string
  en_alg :: string
  en_key_id :: string
  en_sig :: string
  en_timestamp :: "'tok option"

record pack_crypto =
  pc_sha :: "string \<Rightarrow> string"                    \<comment> \<open>in hexadecimal\<close>
  pc_public :: "string \<Rightarrow> string"
  pc_sign :: "string \<Rightarrow> string \<Rightarrow> string"
  pc_verify :: "string \<Rightarrow> string \<Rightarrow> string \<Rightarrow> bool"
  pc_encode :: "pack \<Rightarrow> string"
  pc_decode :: "string \<Rightarrow> pack option"

definition key_id :: "pack_crypto \<Rightarrow> string \<Rightarrow> string" where
  "key_id pc pub = take 16 (pc_sha pc pub)"

section \<open>Building (\<open>build.go\<close>)\<close>

definition starts_rune :: "char \<Rightarrow> bool" where
  "starts_rune c \<longleftrightarrow> \<not> in_range 128 191 c"

fun cut_before :: "string \<Rightarrow> nat \<Rightarrow> nat" where
  "cut_before s 0 = 0"
| "cut_before s (Suc n) = (if starts_rune (s ! Suc n) then Suc n else cut_before s n)"

definition cap_output :: "string \<Rightarrow> string \<times> bool" where
  "cap_output s = (if length s \<le> max_pack_output then (s, False) else (take (cut_before s max_pack_output) s, True))"

record stored_run =
  st_id :: string
  st_command :: string
  st_args :: "string list"
  st_dir :: string
  st_status :: string
  st_exit :: "int option"
  st_created :: time
  st_stdout :: "string option"
  st_stderr :: "string option"

definition deref :: "string option \<Rightarrow> string" where
  "deref s = (case s of None \<Rightarrow> [] | Some t \<Rightarrow> t)"

definition new_pack_run :: "pack_crypto \<Rightarrow> stored_run \<Rightarrow> pack_run" where
  "new_pack_run pc r =
     (let out = deref (st_stdout r); err = deref (st_stderr r) in
      \<lparr> pr_id = st_id r, pr_command = st_command r, pr_args = st_args r, pr_dir = st_dir r, pr_status = st_status r,
         pr_exit = st_exit r, pr_created = st_created r, pr_stdout = fst (cap_output out), pr_stderr = fst (cap_output err),
         pr_stdout_sha = pc_sha pc out, pr_stderr_sha = pc_sha pc err,
         pr_stdout_cut = snd (cap_output out), pr_stderr_cut = snd (cap_output err) \<rparr>)"

text \<open>What the walk through the workspace meets, in its order; a file with its hash and size or no longer a file.\<close>

datatype tree_item =
    WalkError
  | WalkDir
  | WalkOther string
  | WalkLink string int
  | WalkFile string "(string \<times> int) option"

fun hash_items :: "tree_item list \<Rightarrow> pack_file list \<Rightarrow> (pack_file list \<times> bool) option" where
  "hash_items [] fs = Some (fs, False)"
| "hash_items (WalkError # is) fs = None"
| "hash_items (WalkDir # is) fs = hash_items is fs"
| "hash_items (WalkOther p # is) fs = (if max_pack_files \<le> length fs then Some (fs, True) else hash_items is fs)"
| "hash_items (WalkLink p n # is) fs =
     (if max_pack_files \<le> length fs then Some (fs, True)
      else hash_items is (fs @ [\<lparr> pf_path = p, pf_size = n, pf_sha = [], pf_symlink = True \<rparr>]))"
| "hash_items (WalkFile p h # is) fs =
     (if max_pack_files \<le> length fs then Some (fs, True)
      else (case h of
              None \<Rightarrow> None
            | Some (d, n) \<Rightarrow> hash_items is (fs @ [\<lparr> pf_path = p, pf_size = n, pf_sha = d, pf_symlink = False \<rparr>])))"

fun path_le :: "string \<Rightarrow> string \<Rightarrow> bool" where
  "path_le [] t \<longleftrightarrow> True"
| "path_le (a # s) [] \<longleftrightarrow> False"
| "path_le (a # s) (b # t) \<longleftrightarrow> of_char a < (of_char b :: nat) \<or> a = b \<and> path_le s t"

fun insert_file :: "pack_file \<Rightarrow> pack_file list \<Rightarrow> pack_file list" where
  "insert_file f [] = [f]"
| "insert_file f (g # gs) = (if path_le (pf_path f) (pf_path g) then f # g # gs else g # insert_file f gs)"

definition sort_files :: "pack_file list \<Rightarrow> pack_file list" where
  "sort_files fs = foldr insert_file fs []"

text \<open>\<open>None\<close> is a workspace that is gone.\<close>

definition hash_workspace :: "tree_item list option \<Rightarrow> (pack_file list \<times> bool) option" where
  "hash_workspace walk =
     (case walk of
        None \<Rightarrow> Some ([], False)
      | Some is \<Rightarrow> map_option (\<lambda>(fs, more). (sort_files fs, more)) (hash_items is []))"

section \<open>Checking a verified pack\<close>

datatype pack_finding = Warning string | Information string

fun sig_status_text :: "sig_status \<Rightarrow> string" where
  "sig_status_text SigValid = ''valid''"
| "sig_status_text SigInvalid = ''invalid''"
| "sig_status_text SigUnsigned = ''unsigned''"
| "sig_status_text SigUnverifiable = ''unverifiable''"

definition run_findings :: "pack_crypto \<Rightarrow> pack_run \<Rightarrow> pack_finding list" where
  "run_findings pc r =
     (if \<not> pr_stdout_cut r \<and> pc_sha pc (pr_stdout r) \<noteq> pr_stdout_sha r
      then [Warning (''run '' @ pr_id r @ '': stdout does not match its SHA-256'')] else []) @
     (if \<not> pr_stderr_cut r \<and> pc_sha pc (pr_stderr r) \<noteq> pr_stderr_sha r
      then [Warning (''run '' @ pr_id r @ '': stderr does not match its SHA-256'')] else [])"

text \<open>\<open>reason_text\<close> is the name of a reason.\<close>

definition entry_findings :: "(reason \<Rightarrow> string) \<Rightarrow> pack_entry \<Rightarrow> pack_finding list" where
  "entry_findings reason_text e =
     (case pe_status e of
        Some SigValid \<Rightarrow> []
      | None \<Rightarrow> [Warning (''audit entry '' @ pe_id e @ '' ('' @ pe_action e @ '') has no verification status'')]
      | Some s \<Rightarrow>
          [Warning (''audit entry '' @ pe_id e @ '' ('' @ pe_action e @ '') was '' @ sig_status_text s @ '' at export'' @
             (case pe_reason e of None \<Rightarrow> [] | Some r \<Rightarrow> '': '' @ reason_text r))])"

definition check_pack :: "pack_crypto \<Rightarrow> (reason \<Rightarrow> string) \<Rightarrow> pack \<Rightarrow> pack_finding list" where
  "check_pack pc reason_text p =
     concat (map (run_findings pc) (pk_runs p)) @
     (if \<not> pk_signed p
      then [Warning ''audit entries were not signed by the server (AUDIT_HMAC_KEY unset); only this pack's signature protects them'']
      else concat (map (entry_findings reason_text) (pk_entries p))) @
     (if pk_scope p = ScopeActor
      then [Information ''audit entries are limited to the exporting key's own; export with the master key for all of them''] else []) @
     (if ps_runtime (pk_session p) = []
      then [Information ''sandbox runtime not recorded (daemon default, normally runc)''] else []) @
     map Information (pk_notes p)"

definition no_warning :: "pack_finding list \<Rightarrow> bool" where
  "no_warning fs \<longleftrightarrow> list_all (\<lambda>f. case f of Warning _ \<Rightarrow> False | Information _ \<Rightarrow> True) fs"

section \<open>Signing and verifying (\<open>sign.go\<close>)\<close>

datatype pack_error = BadAlgorithm | EmptyPack | BadSignature | NotAPack | BadPackSchema

definition sign_pack :: "pack_crypto \<Rightarrow> string \<Rightarrow> pack \<Rightarrow> pack_error + 'tok envelope" where
  "sign_pack pc priv p =
     (if pk_schema p \<noteq> pack_schema then Inl BadPackSchema
      else (let raw = pc_encode pc p in
        Inr \<lparr> en_pack = raw, en_alg = signature_alg, en_key_id = key_id pc (pc_public pc priv),
               en_sig = pc_sign pc priv raw, en_timestamp = None \<rparr>))"

definition verify_envelope :: "pack_crypto \<Rightarrow> string \<Rightarrow> 'tok envelope \<Rightarrow> pack_error + pack" where
  "verify_envelope pc pub env =
     (if en_alg env \<noteq> signature_alg then Inl BadAlgorithm
      else if en_pack env = [] then Inl EmptyPack
      else if en_key_id env \<noteq> key_id pc pub then Inl BadSignature
      else if \<not> pc_verify pc pub (en_pack env) (en_sig env) then Inl BadSignature
      else (case pc_decode pc (en_pack env) of
              None \<Rightarrow> Inl NotAPack
            | Some p \<Rightarrow> if pk_schema p \<noteq> pack_schema then Inl BadPackSchema else Inr p))"

section \<open>Time stamps (\<open>timestamp.go\<close>)\<close>

text \<open>Certificates and their checks are of \<open>crypto/x509\<close>; \<open>fetch\<close> answers the URL of an issuer.\<close>

record 'c certs =
  ct_self_signed :: "'c \<Rightarrow> bool"
  ct_url :: "'c \<Rightarrow> string option"
  ct_fetch :: "string \<Rightarrow> 'c option"
  ct_issued :: "'c \<Rightarrow> 'c \<Rightarrow> bool"      \<comment> \<open>the names match and the signature of the first is by the second\<close>

definition issuer_in :: "'c certs \<Rightarrow> 'c \<Rightarrow> 'c list \<Rightarrow> 'c option" where
  "issuer_in ct c cs = List.find (\<lambda>x. x \<noteq> c \<and> ct_issued ct c x) cs"

primrec fetch_hops :: "'c certs \<Rightarrow> 'c list \<Rightarrow> nat \<Rightarrow> 'c \<Rightarrow> 'c list \<Rightarrow> 'c list" where
  "fetch_hops ct cs 0 cur chain = chain"
| "fetch_hops ct cs (Suc n) cur chain =
     (if ct_self_signed ct cur then chain
      else (case issuer_in ct cur cs of
              Some issuer \<Rightarrow> fetch_hops ct cs n issuer chain
            | None \<Rightarrow>
                (case ct_url ct cur of
                   None \<Rightarrow> chain
                 | Some url \<Rightarrow>
                     (case ct_fetch ct url of
                        None \<Rightarrow> chain
                      | Some issuer \<Rightarrow>
                          if \<not> ct_issued ct cur issuer then chain
                          else if ct_self_signed ct issuer then chain
                          else fetch_hops ct cs n issuer (chain @ [issuer])))))"

definition fetch_intermediates :: "'c certs \<Rightarrow> 'c list \<Rightarrow> 'c option \<Rightarrow> 'c list" where
  "fetch_intermediates ct cs signer = (case signer of None \<Rightarrow> [] | Some cur \<Rightarrow> fetch_hops ct cs 4 cur [])"

text \<open>
  A token: whether it is intact, whose signature it covers, and its nonce; the authority answers a request
  for a signature with a token, and the roots trust it or not.
\<close>

record 'tok tsa =
  ts_answer :: "string \<Rightarrow> 'tok option"
  ts_nonce_ok :: "'tok \<Rightarrow> bool"
  ts_intact :: "'tok \<Rightarrow> bool"
  ts_covers :: "'tok \<Rightarrow> string \<Rightarrow> bool"
  ts_trusted :: "'tok \<Rightarrow> bool"

definition check_token :: "'tok tsa \<Rightarrow> 'tok envelope \<Rightarrow> bool" where
  "check_token ts env = (case en_timestamp env of None \<Rightarrow> False | Some t \<Rightarrow> ts_intact ts t \<and> ts_covers ts t (en_sig env))"

definition request_timestamp :: "'tok tsa \<Rightarrow> 'tok envelope \<Rightarrow> 'tok envelope option" where
  "request_timestamp ts env =
     (if en_sig env = [] then None
      else (case ts_answer ts (en_sig env) of
              None \<Rightarrow> None
            | Some t \<Rightarrow>
                if \<not> ts_nonce_ok ts t then None
                else (let e = env\<lparr>en_timestamp := Some t\<rparr> in if check_token ts e then Some e else None)))"

definition verify_timestamp :: "'tok tsa \<Rightarrow> 'tok envelope \<Rightarrow> bool" where
  "verify_timestamp ts env \<longleftrightarrow> check_token ts env \<and> (case en_timestamp env of None \<Rightarrow> False | Some t \<Rightarrow> ts_trusted ts t)"

section \<open>Exporting\<close>

record ('tok) pack_env =
  pv_uuid :: "string \<Rightarrow> string option"
  pv_sessions :: sessions
  pv_roles :: member_roles
  pv_info :: "session_row \<Rightarrow> pack_session"
  pv_runs :: "nat \<Rightarrow> stored_run list option"      \<comment> \<open>the runs of the session at the k-th query, newest first\<close>
  pv_walk :: "tree_item list option"
  pv_audit :: "nat \<Rightarrow> audit_log list option"      \<comment> \<open>its audit entries at the k-th query, last of the chain first\<close>
  pv_db :: audit_db
  pv_since :: "time option"
  pv_mac :: crypto
  pv_key :: string                                   \<comment> \<open>AUDIT_HMAC_KEY\<close>
  pv_created :: "audit_log list option"             \<comment> \<open>entries whose action starts with \<open>session.created\<close>, newest first\<close>
  pv_runtime :: "string \<Rightarrow> string option"         \<comment> \<open>the text under \<open>runtime\<close> of metadata\<close>
  pv_names :: "string list \<Rightarrow> (string \<Rightarrow> string) option"
  pv_crypto :: pack_crypto
  pv_signer :: "string option"
  pv_tsa :: "'tok tsa option"

datatype 'tok pack_reply =
    PackStatus int
  | PublicKeyShown string string
  | Exported "'tok envelope" bool

text \<open>\<open>LIMIT\<close> and \<open>OFFSET\<close>.\<close>

definition page_of :: "nat \<Rightarrow> nat \<Rightarrow> 'a list \<Rightarrow> 'a list" where
  "page_of n k rs = take n (drop (n * k) rs)"

lemma page_of_length [simp]: "length (page_of n k rs) \<le> n"
  by (simp add: page_of_def)

function collect_runs ::
  "pack_crypto \<Rightarrow> (nat \<Rightarrow> stored_run list option) \<Rightarrow> nat \<Rightarrow> pack_run list \<Rightarrow> (pack_run list \<times> bool) option" where
  "collect_runs pc runs k out =
     (case runs k of
        None \<Rightarrow> None
      | Some rs \<Rightarrow>
          (let page = page_of 100 k rs; room = max_pack_runs - length out in
           if room < length page then Some (rev (out @ map (new_pack_run pc) (take room page)), True)
           else if length page < 100 then Some (rev (out @ map (new_pack_run pc) page), False)
           else collect_runs pc runs (Suc k) (out @ map (new_pack_run pc) page)))"
  by pat_completeness auto
termination
proof (relation "measure (\<lambda>(pc, runs, k, out). max_pack_runs - length out)", goal_cases)
  case (2 pc runs k out rs page room)
  then have "100 \<le> length (page_of 100 k rs)" by simp
  moreover have "length (page_of 100 k rs) \<le> max_pack_runs - length out" using 2 by simp
  ultimately show ?case using 2 by simp
qed simp

function collect_audit ::
  "string \<Rightarrow> (nat \<Rightarrow> audit_log list option) \<Rightarrow> nat \<Rightarrow> audit_log list \<Rightarrow> (audit_log list \<times> bool) option" where
  "collect_audit actor audit k logs =
     (case audit k of
        None \<Rightarrow> None
      | Some rs \<Rightarrow>
          (let page = page_of 500 k (if actor = master then rs else filter (\<lambda>l. al_actor l = actor) rs);
               logs' = logs @ page in
           if max_pack_audit \<le> length logs' then Some (take max_pack_audit logs', True)
           else if length page < 500 then Some (logs', False)
           else collect_audit actor audit (Suc k) logs'))"
  by pat_completeness auto
termination
  by (relation "measure (\<lambda>(actor, audit, k, logs). max_pack_audit - length logs)") auto

declare collect_runs.simps [simp del] collect_audit.simps [simp del]

definition pack_entry_of :: "'tok pack_env \<Rightarrow> audit_log \<Rightarrow> pack_entry" where
  "pack_entry_of ev l =
     (let st = (if pv_key ev = [] then (None, None)
                else (let s = classify (pv_mac ev) (pv_key ev) (pv_db ev) (pv_since ev) l in (Some (fst s), snd s))) in
      \<lparr> pe_id = al_id l, pe_seq = al_seq l, pe_time = al_ts l, pe_actor = al_actor l, pe_actor_name = [],
         pe_action = al_action l, pe_run = uuid_str (al_run l), pe_meta = al_meta l, pe_sig = al_sig l,
         pe_status = fst st, pe_reason = snd st \<rparr>)"

text \<open>The last of the entries that are read wins.\<close>

definition recorded_runtime :: "'tok pack_env \<Rightarrow> string" where
  "recorded_runtime ev =
     (case pv_created ev of
        None \<Rightarrow> []
      | Some ls \<Rightarrow>
          foldl (\<lambda>rt l. if al_action l = ''session.created''
                        then (case pv_runtime ev (al_meta l) of None \<Rightarrow> rt | Some x \<Rightarrow> x) else rt) [] (take 10 ls))"

definition note_if :: "bool \<Rightarrow> string \<Rightarrow> string list" where
  "note_if b s = (if b then [s] else [])"

definition named_entries :: "(string \<Rightarrow> string) option \<Rightarrow> pack_entry list \<Rightarrow> pack_entry list" where
  "named_entries names es = (case names of None \<Rightarrow> es | Some n \<Rightarrow> map (\<lambda>e. e\<lparr>pe_actor_name := n (pe_actor e)\<rparr>) es)"

definition build_pack :: "'tok pack_env \<Rightarrow> string \<Rightarrow> session_row \<Rightarrow> string \<Rightarrow> time \<Rightarrow> pack option" where
  "build_pack ev actor row i now =
     (case collect_runs (pv_crypto ev) (pv_runs ev) 0 [] of
        None \<Rightarrow> None
      | Some (runs, more_runs) \<Rightarrow>
          (case hash_workspace (pv_walk ev) of
             None \<Rightarrow> None
           | Some (files, more_files) \<Rightarrow>
               (case collect_audit actor (pv_audit ev) 0 [] of
                  None \<Rightarrow> None
                | Some (logs, more_logs) \<Rightarrow>
                    (let es = map (pack_entry_of ev) (rev logs);
                         info = (pv_info ev row)\<lparr>ps_runtime := recorded_runtime ev\<rparr>;
                         names = pv_names ev (ps_created_by info # map pe_actor es) in
                     Some \<lparr> pk_schema = pack_schema, pk_id = i, pk_created = now, pk_exported_by = actor,
                             pk_session = (case names of None \<Rightarrow> info | Some n \<Rightarrow> info\<lparr>ps_created_by_name := n (ps_created_by info)\<rparr>),
                             pk_runs = runs, pk_files = files,
                             pk_scope = (if actor = master then ScopeAll else ScopeActor), pk_signed = (pv_key ev \<noteq> []),
                             pk_entries = named_entries names es,
                             pk_notes =
                               note_if more_runs (''only the newest '' @ int_dec (int max_pack_runs) @ '' runs are included'') @
                               note_if more_files (''only the first '' @ int_dec (int max_pack_files) @ '' workspace files are listed'') @
                               note_if (ps_status info \<noteq> ''running'' \<and> files = [])
                                 ''the session's workspace was removed; files are not listed'' @
                               note_if more_logs
                                 (''only the newest '' @ int_dec (int max_pack_audit) @ '' audit entries are included'') \<rparr>))))"

definition export_pack_handler ::
  "'tok pack_env \<Rightarrow> string \<Rightarrow> string \<Rightarrow> string \<Rightarrow> time \<Rightarrow> 'tok pack_reply" where
  "export_pack_handler ev actor raw i now =
     (case pv_signer ev of
        None \<Rightarrow> PackStatus 501
      | Some priv \<Rightarrow>
          (case pv_uuid ev raw of
             None \<Rightarrow> PackStatus 400
           | Some sid \<Rightarrow>
               (case check_session_access (pv_sessions ev) (pv_roles ev) actor sid ''viewer'' of
                  Inl code \<Rightarrow> PackStatus (int code)
                | Inr row \<Rightarrow>
                    (case build_pack ev actor row i now of
                       None \<Rightarrow> PackStatus 500
                     | Some p \<Rightarrow>
                         (case sign_pack (pv_crypto ev) priv p of
                            Inl _ \<Rightarrow> PackStatus 500
                          | Inr env \<Rightarrow>
                              (case pv_tsa ev of
                                 None \<Rightarrow> Exported env False
                               | Some ts \<Rightarrow>
                                   (case request_timestamp ts env of
                                      None \<Rightarrow> PackStatus 502
                                    | Some e \<Rightarrow> if verify_timestamp ts e then Exported e True else PackStatus 502)))))))"

definition public_key_handler :: "'tok pack_env \<Rightarrow> 'tok pack_reply" where
  "public_key_handler ev =
     (case pv_signer ev of
        None \<Rightarrow> PackStatus 501
      | Some priv \<Rightarrow> PublicKeyShown (key_id (pv_crypto ev) (pc_public (pv_crypto ev) priv)) (pc_public (pv_crypto ev) priv))"

end
