(* ===== verification/EvidenceClaims.thy ===== *)
theory EvidenceClaims
  imports EvidencePack AuditHonest
begin

text \<open>
  What a pack that verifies with the public key says about the runs and the audit log of a session, and
  what an export leaves out when the session goes on meanwhile.
\<close>

section \<open>Outputs\<close>

lemma cut_before_le: "cut_before s n \<le> n"
  by (induction s n rule: cut_before.induct) auto

lemma cap_output_prefix: "prefix (fst (cap_output s)) s \<and> length (fst (cap_output s)) \<le> max_pack_output"
  using cut_before_le [of s max_pack_output] by (auto simp: cap_output_def take_is_prefix)

lemma cap_output_whole: "\<not> snd (cap_output s) \<Longrightarrow> fst (cap_output s) = s"
  by (auto simp: cap_output_def split: if_splits)

lemma cap_output_cases: "snd (cap_output s) \<or> fst (cap_output s) = s"
  using cap_output_whole by blast

lemma new_run_clean: "run_findings pc (new_pack_run pc r) = []"
  using cap_output_cases [of "deref (st_stdout r)"] cap_output_cases [of "deref (st_stderr r)"]
  by (auto simp: run_findings_def new_pack_run_def Let_def)

section \<open>What is collected\<close>

lemma collected_runs:
  assumes "collect_runs pc runs k out = Some (res, extra)" "x \<in> set res"
  shows "x \<in> set out \<or> (\<exists>j rs r. runs j = Some rs \<and> r \<in> set rs \<and> x = new_pack_run pc r)"
  using assms
proof (induction pc runs k out rule: collect_runs.induct)
  case (1 pc runs k out)
  from 1(2) obtain rs where rs: "runs k = Some rs" by (subst (asm) collect_runs.simps) (auto split: option.splits)
  let ?page = "page_of 100 k rs"
  have page: "r \<in> set rs" if "r \<in> set ?page" for r
    using that by (auto simp: page_of_def dest: in_set_takeD in_set_dropD)
  show ?case
  proof (cases "max_pack_runs - length out < length ?page \<or> length ?page < 100")
    case True
    then have "set res \<subseteq> set out \<union> new_pack_run pc ` set ?page"
      using 1(2) rs by (subst (asm) collect_runs.simps) (auto simp: Let_def dest!: in_set_takeD split: if_splits)
    with 1(3) rs page show ?thesis by blast
  next
    case False
    then have "collect_runs pc runs (Suc k) (out @ map (new_pack_run pc) ?page) = Some (res, extra)"
      using 1(2) rs by (subst (asm) (1) collect_runs.simps) (simp add: Let_def)
    from 1(1) [OF rs refl refl _ _ this 1(3)] False have
      "x \<in> set (out @ map (new_pack_run pc) ?page) \<or> (\<exists>j rs r. runs j = Some rs \<and> r \<in> set rs \<and> x = new_pack_run pc r)"
      by blast
    with rs page show ?thesis by auto
  qed
qed

lemma collected_audit:
  assumes "collect_audit actor audit k logs = Some (res, extra)" "l \<in> set res"
  shows "l \<in> set logs \<or> (\<exists>j rs. audit j = Some rs \<and> l \<in> set rs \<and> (actor = master \<or> al_actor l = actor))"
  using assms
proof (induction actor audit k logs rule: collect_audit.induct)
  case (1 actor audit k logs)
  from 1(2) obtain rs where rs: "audit k = Some rs" by (subst (asm) collect_audit.simps) (auto split: option.splits)
  let ?page = "page_of 500 k (if actor = master then rs else filter (\<lambda>l. al_actor l = actor) rs)"
  have page: "l \<in> set rs \<and> (actor = master \<or> al_actor l = actor)" if "l \<in> set ?page" for l
    using that by (auto simp: page_of_def dest!: in_set_takeD in_set_dropD split: if_splits)
  show ?case
  proof (cases "max_pack_audit \<le> length (logs @ ?page) \<or> length ?page < 500")
    case True
    then have "set res \<subseteq> set logs \<union> set ?page"
      using 1(2) rs by (subst (asm) collect_audit.simps) (auto simp: Let_def dest!: in_set_takeD split: if_splits)
    with 1(3) rs page show ?thesis by blast
  next
    case False
    then have "collect_audit actor audit (Suc k) (logs @ ?page) = Some (res, extra)"
      using 1(2) rs by (subst (asm) (1) collect_audit.simps) (simp add: Let_def)
    from 1(1) [OF rs refl refl _ _ this 1(3)] False have
      "l \<in> set (logs @ ?page) \<or> (\<exists>j rs. audit j = Some rs \<and> l \<in> set rs \<and> (actor = master \<or> al_actor l = actor))"
      by blast
    with rs page show ?thesis by auto
  qed
qed

lemma classified_valid: "fst (classify c key db vs e) = SigValid \<Longrightarrow> verify_audit_sig c key e"
  by (auto simp: classify_def sig_status_of_def Let_def split: option.splits if_splits)

section \<open>A verified pack\<close>

definition built_by :: "'tok pack_env \<Rightarrow> pack \<Rightarrow> bool" where
  "built_by ev p \<longleftrightarrow> (\<exists>actor row i now. build_pack ev actor row i now = Some p)"

lemma built_parts:
  assumes "built_by ev p"
  obtains actor runs r_cut logs l_cut names where
    "collect_runs (pv_crypto ev) (pv_runs ev) 0 [] = Some (runs, r_cut)" "pk_runs p = runs"
    "collect_audit actor (pv_audit ev) 0 [] = Some (logs, l_cut)"
    "pk_entries p = named_entries names (map (pack_entry_of ev) (rev logs))" "pk_signed p \<longleftrightarrow> pv_key ev \<noteq> []"
proof -
  from assms obtain actor row i now where "build_pack ev actor row i now = Some p" by (auto simp: built_by_def)
  then show thesis
    by (auto simp: build_pack_def Let_def split: option.splits prod.splits intro: that)
qed

lemma built_runs:
  assumes "built_by ev p" "x \<in> set (pk_runs p)"
  shows "\<exists>j rs r. pv_runs ev j = Some rs \<and> r \<in> set rs \<and> x = new_pack_run (pv_crypto ev) r"
proof -
  from built_parts [OF assms(1)] obtain r_cut where "collect_runs (pv_crypto ev) (pv_runs ev) 0 [] = Some (pk_runs p, r_cut)"
    by metis
  from collected_runs [OF this assms(2)] show ?thesis by simp
qed

lemma named_member:
  assumes "x \<in> set (named_entries names (map (pack_entry_of ev) ls))"
  shows "\<exists>l name. l \<in> set ls \<and> x = (pack_entry_of ev l)\<lparr>pe_actor_name := name\<rparr>"
proof (cases names)
  case None
  with assms obtain l where l: "l \<in> set ls" "x = pack_entry_of ev l" by (auto simp: named_entries_def)
  then have "x = (pack_entry_of ev l)\<lparr>pe_actor_name := pe_actor_name x\<rparr>" by simp
  with l show ?thesis by blast
qed (use assms in \<open>auto simp: named_entries_def\<close>)

lemma built_entries:
  assumes "built_by ev p" "x \<in> set (pk_entries p)"
  shows "\<exists>j rs l name. pv_audit ev j = Some rs \<and> l \<in> set rs \<and> x = (pack_entry_of ev l)\<lparr>pe_actor_name := name\<rparr>"
proof -
  from built_parts [OF assms(1)] obtain actor logs l_cut names where
    logs: "collect_audit actor (pv_audit ev) 0 [] = Some (logs, l_cut)"
    "pk_entries p = named_entries names (map (pack_entry_of ev) (rev logs))" by metis
  with assms(2) named_member obtain l name where "l \<in> set (rev logs)" "x = (pack_entry_of ev l)\<lparr>pe_actor_name := name\<rparr>"
    by metis
  with collected_audit [OF logs(1)] show ?thesis by fastforce
qed

lemma built_signed: "built_by ev p \<Longrightarrow> pk_signed p \<longleftrightarrow> pv_key ev \<noteq> []"
  by (erule built_parts) simp


text \<open>A session with one run and one entry.\<close>

definition demo_stored :: stored_run where
  "demo_stored =
     \<lparr> st_id = ''r'', st_command = ''echo'', st_args = [''hi''], st_dir = [], st_status = ''completed'', st_exit = Some 0,
        st_created = 6, st_stdout = Some ''hi'', st_stderr = None \<rparr>"

definition demo_entry :: audit_log where
  "demo_entry =
     make_entry hex_crypto ''k'' 5 1 []
       \<lparr> al_id = ''e'', al_ts = 5, al_actor = ''ann'', al_session = Some ''s'', al_run = None, al_action = ''session.created'',
          al_meta = ''{}'', al_seq = None, al_prev_sig = [], al_sig = [] \<rparr>"

definition demo_pack :: pack where
  "demo_pack =
     \<lparr> pk_schema = pack_schema, pk_id = ''p'', pk_created = 9, pk_exported_by = ''ann'',
        pk_session = \<lparr> ps_id = ''s'', ps_name = [], ps_image = ''ubuntu'', ps_runtime = [], ps_status = ''running'', ps_network = False,
          ps_hosts = [], ps_created_by = ''ann'', ps_created_by_name = [] \<rparr>,
        pk_runs =
          [\<lparr> pr_id = ''r'', pr_command = ''echo'', pr_args = [''hi''], pr_dir = [], pr_status = ''completed'', pr_exit = Some 0,
             pr_created = 6, pr_stdout = ''hi'', pr_stderr = [], pr_stdout_sha = ''sha:hi'', pr_stderr_sha = ''sha:'',
             pr_stdout_cut = False, pr_stderr_cut = False \<rparr>],
        pk_files = [], pk_scope = ScopeActor, pk_signed = True,
        pk_entries =
          [\<lparr> pe_id = ''e'', pe_seq = Some 1, pe_time = 5, pe_actor = ''ann'', pe_actor_name = [], pe_action = ''session.created'',
             pe_run = [], pe_meta = ''{}'', pe_sig = al_sig demo_entry, pe_status = Some SigValid, pe_reason = None \<rparr>],
        pk_notes = [] \<rparr>"

definition demo_pack_crypto :: pack_crypto where
  "demo_pack_crypto =
     \<lparr> pc_sha = (\<lambda>s. ''sha:'' @ s), pc_public = (\<lambda>priv. priv), pc_sign = (\<lambda>priv m. ''sig:'' @ priv @ m),
        pc_verify = (\<lambda>pub m s. s = ''sig:'' @ pub @ m), pc_encode = (\<lambda>p. ''pack:'' @ pk_id p),
        pc_decode = (\<lambda>s. if s = ''pack:p'' then Some demo_pack else None) \<rparr>"

definition demo_pack_env :: "unit pack_env" where
  "demo_pack_env =
     \<lparr> pv_uuid = Some, pv_sessions = (\<lambda>_. NoRows), pv_roles = (\<lambda>_ _. NoRows), pv_info = (\<lambda>_. pk_session demo_pack),
        pv_runs = (\<lambda>_. Some [demo_stored]), pv_walk = None, pv_audit = (\<lambda>_. Some [demo_entry]),
        pv_db = \<lparr> rows = [demo_entry], head_row = None \<rparr>, pv_since = None, pv_mac = hex_crypto, pv_key = ''k'',
        pv_created = None, pv_runtime = (\<lambda>_. None), pv_names = (\<lambda>_. None), pv_crypto = demo_pack_crypto,
        pv_signer = Some ''priv'', pv_tsa = None \<rparr>"

definition demo_envelope :: "unit envelope" where
  "demo_envelope =
     \<lparr> en_pack = ''pack:p'', en_alg = ''ed25519'', en_key_id = ''sha:priv'', en_sig = ''sig:privpack:p'', en_timestamp = None \<rparr>"

lemma demo_built: "built_by demo_pack_env demo_pack"
proof -
  have runs: "collect_runs demo_pack_crypto (\<lambda>_. Some [demo_stored]) 0 [] = Some (pk_runs demo_pack, False)"
    by (subst collect_runs.simps)
      (simp add: Let_def page_of_def max_pack_runs_def demo_pack_def new_pack_run_def demo_stored_def deref_def cap_output_def
        max_pack_output_def demo_pack_crypto_def)
  have "al_actor demo_entry = ''ann''" "al_seq demo_entry = Some 1" "al_prev_sig demo_entry = []"
    by (simp_all add: demo_entry_def make_entry_def Let_def)
  then have audit: "collect_audit ''ann'' (\<lambda>_. Some [demo_entry]) 0 [] = Some ([demo_entry], False)"
    by (subst collect_audit.simps) (simp add: Let_def page_of_def max_pack_audit_def)
  have sg: "al_sig demo_entry = sign hex_crypto ''k'' demo_entry" unfolding demo_entry_def by (rule make_entry_fields(4))
  have "verify_audit_sig hex_crypto ''k'' demo_entry" "al_sig demo_entry \<noteq> []"
    using linked_verify [OF hex_crypto_ok sg] sign_nonempty [OF hex_crypto_ok] sg by simp_all
  then have "classify hex_crypto ''k'' db vs demo_entry = (SigValid, None)" for db vs
    using \<open>al_seq demo_entry = Some 1\<close> \<open>al_prev_sig demo_entry = []\<close> by (simp add: classify_def)
  then have "[pack_entry_of demo_pack_env demo_entry] = pk_entries demo_pack"
    by (simp add: pack_entry_of_def demo_pack_env_def demo_pack_def Let_def) (simp add: demo_entry_def make_entry_def uuid_str_def Let_def)
  with runs audit have "build_pack demo_pack_env ''ann'' row ''p'' 9 = Some demo_pack" for row
    by (simp add: build_pack_def demo_pack_env_def hash_workspace_def Let_def named_entries_def recorded_runtime_def note_if_def)
      (simp add: demo_pack_def master_def)
  then show ?thesis unfolding built_by_def by blast
qed


section \<open>A quiet session\<close>

lemma collect_runs_quiet:
  assumes "100 * k \<le> length rs" "100 * k \<le> max_pack_runs"
  shows "collect_runs pc (\<lambda>_. Some rs) k (map (new_pack_run pc) (take (100 * k) rs)) =
    Some (rev (map (new_pack_run pc) (take max_pack_runs rs)), max_pack_runs < length rs)"
  using assms
proof (induction "max_pack_runs - 100 * k" arbitrary: k rule: less_induct)
  case less
  let ?page = "page_of 100 k rs" and ?room = "max_pack_runs - 100 * k" and ?out = "map (new_pack_run pc) (take (100 * k) rs)"
  have len: "length ?out = 100 * k" "length ?page = min 100 (length rs - 100 * k)" using less(2) by (auto simp: page_of_def)
  have next_page: "take (100 * k) rs @ take n ?page = take (100 * k + min n 100) rs" for n
    by (simp add: page_of_def take_add min_def)
  consider "?room < length ?page" | "length ?page \<le> ?room" "length ?page < 100" | "length ?page \<le> ?room" "length ?page = 100"
    using page_of_length [of 100 k rs] by linarith
  then show ?case
  proof cases
    case 1
    then have "?out @ map (new_pack_run pc) (take ?room ?page) = map (new_pack_run pc) (take max_pack_runs rs)"
      using next_page [of ?room] less(3) len by (simp flip: map_append)
    moreover have "max_pack_runs < length rs" using 1 len less(2,3) by linarith
    ultimately show ?thesis using 1 len by (subst collect_runs.simps) (simp add: Let_def)
  next
    case 2
    then have all: "length rs < 100 * k + 100" "length rs \<le> max_pack_runs" using len less(2,3) by linarith+
    then have "?out @ map (new_pack_run pc) ?page = map (new_pack_run pc) rs"
      using next_page [of 100] len by (simp flip: map_append)
    then show ?thesis using 2 len all by (subst collect_runs.simps) (simp add: Let_def)
  next
    case 3
    then have "100 \<le> length rs - 100 * k" using len(2) by (simp add: min_def split: if_splits)
    then have k: "100 * Suc k \<le> length rs" "100 * Suc k \<le> max_pack_runs" using 3 less(2,3) by simp_all
    have "?out @ map (new_pack_run pc) ?page = map (new_pack_run pc) (take (100 * Suc k) rs)"
      using next_page [of 100] 3 by (simp add: add.commute flip: map_append)
    then have "collect_runs pc (\<lambda>_. Some rs) k ?out =
        collect_runs pc (\<lambda>_. Some rs) (Suc k) (map (new_pack_run pc) (take (100 * Suc k) rs))"
      using 3 len by (subst collect_runs.simps) (simp add: Let_def)
    also have "\<dots> = Some (rev (map (new_pack_run pc) (take max_pack_runs rs)), max_pack_runs < length rs)"
      by (rule less(1)) (use k in simp_all)
    finally show ?thesis .
  qed
qed

text \<open>While nothing is written, a pack has every run, the oldest first, or the newest ten thousand and a note.\<close>

theorem quiet_runs_complete:
  "collect_runs pc (\<lambda>_. Some rs) 0 [] = Some (rev (map (new_pack_run pc) (take max_pack_runs rs)), max_pack_runs < length rs)"
  using collect_runs_quiet [of 0 rs pc] by simp

section \<open>What is missing\<close>

text \<open>A run that starts between two pages puts the last run of the first page on the second as well.\<close>

lemma run_listed_twice:
  assumes "length rs = 101"
  shows "\<exists>res. collect_runs pc (\<lambda>k. Some (if k = 0 then rs else r # rs)) 0 [] = Some (res, False) \<and> \<not> distinct (map pr_id res)"
proof -
  let ?f = "new_pack_run pc"
  have "page_of 100 0 rs = take 100 rs" "page_of 100 (Suc 0) (r # rs) = drop 99 rs" using assms by (simp_all add: page_of_def)
  then have "collect_runs pc (\<lambda>k. Some (if k = 0 then rs else r # rs)) 0 [] =
      Some (rev (map ?f (take 100 rs) @ map ?f (drop 99 rs)), False)"
    using assms by (subst collect_runs.simps) (simp add: Let_def max_pack_runs_def, subst collect_runs.simps, simp add: Let_def max_pack_runs_def)
  moreover have "rs ! 99 \<in> set (take 100 rs)" "rs ! 99 \<in> set (drop 99 rs)"
    using assms by (auto simp: in_set_conv_nth intro: exI [of _ 99] exI [of _ 0])
  then have "pr_id (?f (rs ! 99)) \<in> set (map (pr_id \<circ> ?f) (take 100 rs)) \<inter> set (map (pr_id \<circ> ?f) (drop 99 rs))"
    by auto
  then have "\<not> distinct (map pr_id (rev (map ?f (take 100 rs) @ map ?f (drop 99 rs))))" by (auto simp: rev_map)
  ultimately show ?thesis by blast
qed

text \<open>The runtime is taken from any entry of that name, whether its signature is valid or not.\<close>

lemma runtime_of_unsigned_entry:
  assumes "pv_created ev = Some [l]" "al_action l = ''session.created''" "pv_runtime ev (al_meta l) = Some rt"
  shows "recorded_runtime ev = rt \<and> recorded_runtime (ev\<lparr>pv_created := Some [l\<lparr>al_sig := ''forged''\<rparr>]\<rparr>) = rt"
  using assms by (simp add: recorded_runtime_def)

text \<open>A pack with exactly the greatest number of audit entries says that it leaves some out.\<close>

lemma audit_note_too_early:
  assumes "length logs = max_pack_audit - 1"
  shows "collect_audit master (\<lambda>_. Some (replicate (500 * k) l @ [l])) k logs = Some (logs @ [l], True)"
  using assms by (subst collect_audit.simps) (simp add: page_of_def max_pack_audit_def)

text \<open>No more than four certificates are fetched and none of them is a root.\<close>

lemma fetched_hops:
  "\<exists>ys. fetch_hops ct cs n cur chain = chain @ ys \<and> length ys \<le> n \<and> list_all (\<lambda>c. \<not> ct_self_signed ct c) ys"
proof (induction n arbitrary: cur chain)
  case (Suc n)
  have step: "\<exists>ys. fetch_hops ct cs n c (chain @ [x]) = chain @ ys \<and> length ys \<le> Suc n \<and>
      list_all (\<lambda>c. \<not> ct_self_signed ct c) ys" if "\<not> ct_self_signed ct x" for c x
    using Suc [of c "chain @ [x]"] that by fastforce
  have same: "\<exists>ys. fetch_hops ct cs n c chain = chain @ ys \<and> length ys \<le> Suc n \<and> list_all (\<lambda>c. \<not> ct_self_signed ct c) ys" for c
    using Suc [of c chain] by fastforce
  show ?case using step same by (auto split: option.split)
qed simp

theorem fetched_intermediates:
  "length (fetch_intermediates ct cs signer) \<le> 4 \<and> list_all (\<lambda>c. \<not> ct_self_signed ct c) (fetch_intermediates ct cs signer)"
  using fetched_hops [of ct cs 4 _ "[]"] by (cases signer) (fastforce simp: fetch_intermediates_def)+

end
