(* ===== verification/Spec2Isabelle.thy ===== *)
theory Spec2Isabelle
  imports WorkspaceFiles AuditViews SandboxRuns Access FilesHandler Redact RunsProps
    CostRuns RedisQueue SessionProps NlPolicyProps Cleanup RateLimit TaskClaims TaskEnds TaskOwners
    RedisTasks TaskTools CollabClaims CollabSlots ReplayClaims TemplateProps MissionProps VerifyTools EvidenceClaims
begin

text \<open>
  A verification development of VaultRun, a service that runs the commands of AI agents in Docker
  sandboxes.

  \<^bold>\<open>The program.\<close>  An HTTP API (\<open>cmd/api\<close>) authenticates callers, creates sessions (a workspace
  directory, a database row, a container with its firewall), runs commands in them, moves files in
  and out, records everything in a signed audit log, bills the time sessions run and cleans up what
  is idle.  The API reaches the Docker socket only through a guard process
  (\<open>internal/dockerguard\<close>) with a policy of its own.

  \<^bold>\<open>Theories and sources.\<close>
  \<^item> \<open>Prelude\<close>: results, strings, decimal numbers and UTF-8 as Go's library has them.
  \<^item> \<open>Paths\<close>, \<open>Workspace\<close>, \<open>WorkspaceFiles\<close>: \<open>internal/workspace\<close>.  User paths are cleaned and decoded,
    files are reached through an \<open>os.Root\<close>; the trace of its operations is the state.  The locale
    \<open>root_client\<close> says that an operation names safe paths only and is interpreted on each of them and
    on the file handlers.
  \<^item> \<open>AuditSign\<close>, \<open>AuditScan\<close>, \<open>AuditHonest\<close>, \<open>AuditProps\<close>, \<open>AuditViews\<close>:
    \<open>internal/audit\<close>.  The table of entries and its head, signing and chaining, verification,
    retention; an adversary edits the table, the keyed hash is a parameter that cannot be forged.
  \<^item> \<open>IpAddr\<close>, \<open>AllowedHosts\<close>, \<open>AllowedHostsProps\<close>: addresses and CIDR blocks, \<open>allowed_hosts\<close>, the
    browser's navigation policy and the outbound client; the locales \<open>address_filter\<close> and
    \<open>wide_filter\<close> are interpreted on the three address filters of the code.
  \<^item> \<open>Egress\<close>, \<open>Sandbox\<close>, \<open>SandboxProps\<close>, \<open>SandboxRuns\<close>: \<open>internal/docker/netpolicy.go\<close> and
    \<open>container.go\<close>: the iptables commands and the ordered calls that create and stop a sandbox.
  \<^item> \<open>GuardPolicy\<close>, \<open>GuardServer\<close>, \<open>GuardProps\<close>: \<open>internal/dockerguard\<close>: what requests
    the guard lets through, with its table of created execs, as a step relation.
  \<^item> \<open>Access\<close>: API keys, the master key, cookies, roles, access to sessions and
    organisations (\<open>internal/auth\<close>, \<open>cmd/api/middleware/auth.go\<close>, \<open>cmd/api/handlers/hub.go\<close>).
  \<^item> \<open>RateLimit\<close>: \<open>cmd/api/middleware/ratelimit.go\<close>, token buckets and counters per minute.
  \<^item> \<open>SessionCreate\<close>, \<open>SessionProps\<close>: \<open>cmd/api/handlers/sessions.go\<close>, composed with access, hosts and
    sandboxes; a creation is a list of events.
  \<^item> \<open>FilesHandler\<close>: \<open>cmd/api/handlers/files.go\<close> over the workspace.
  \<^item> \<open>Redact\<close>: \<open>internal/secrets/redact.go\<close>, in one piece and streaming.
  \<^item> \<open>Exec\<close>, \<open>ExecProps\<close>: \<open>internal/docker/exec.go\<close>: the multiplexed output stream, its caps and the
    exit status.
  \<^item> \<open>Runner\<close>, \<open>RunnerProps\<close>: \<open>internal/runner\<close>: policy, row, execution, redaction, record, audit.
  \<^item> \<open>Quota\<close>: \<open>internal/quota\<close>.  \<open>RunsHandler\<close>, \<open>RunsProps\<close>: \<open>cmd/api/handlers/runs.go\<close>.
  \<^item> \<open>JobQueue\<close>, \<open>RedisQueue\<close>: \<open>internal/jobqueue\<close>: both queues are step relations and
    interpretations of the locale \<open>queue_contract\<close>; the webhook is a loop with a measure.
  \<^item> \<open>Cost\<close>, \<open>CostRuns\<close>: \<open>internal/cost/accrual.go\<close>: the calendar, the plan of periods
    and any number of instances that sweep one database.
  \<^item> \<open>Cleanup\<close>: \<open>internal/cleanup\<close>.
  \<^item> \<open>NlPolicy\<close>, \<open>NlPolicyProps\<close>: \<open>internal/nlpolicy\<close> and its endpoints.
  \<^item> \<open>Tasks\<close>, \<open>TaskHandlers\<close>, \<open>TaskSteps\<close>: \<open>sdk/mcp/tasks.go\<close> and \<open>tasks_input.go\<close>: the store of
    tasks, the requests on them, and the goroutines, clients and the sweep as one step relation.
    \<open>TaskProps\<close> and \<open>TaskRuns\<close> say what one step may do to a task, \<open>TaskSteps\<close> is a run, \<open>TaskClaims\<close>,
    \<open>TaskEnds\<close> and \<open>TaskOwners\<close> hold the approvals, the ends and the owners of tasks.
  \<^item> \<open>RedisTasks\<close>: \<open>sdk/mcp/tasks_redis.go\<close>; both stores interpret the locale \<open>task_backend\<close>.
    \<open>TaskTools\<close>: which tools become tasks and how a call is dispatched (\<open>tasks_tools.go\<close>, \<open>args.go\<close>,
    \<open>bridge.go\<close>).
  \<^item> \<open>Programs\<close>: operations as trees of atomic calls, run interleaved on one store; guards, logs,
    schedules, and the locale \<open>store_invariant\<close>.
  \<^item> \<open>Collab\<close>, \<open>CollabHandlers\<close>: \<open>internal/collab\<close> and \<open>cmd/api/handlers/collab.go\<close> as such trees.
    \<open>CollabProps\<close>: what every handler checks before its calls; \<open>CollabRuns\<close>, \<open>CollabClaims\<close>: the number
    of agents, the senders of messages and the edges; \<open>CollabSlots\<close>: failures and the hub.
  \<^item> \<open>Replay\<close>: \<open>internal/replay\<close> and \<open>cmd/api/handlers/replay.go\<close>: checkpoints as trees
    of calls to the database and the workspaces.  \<open>ReplayProps\<close>: signatures and what is checked before a
    restore; \<open>ReplayClaims\<close>: runs in which others edit the database, and one creation alone.
  \<^item> \<open>Templates\<close>: \<open>internal/templates\<close> and \<open>cmd/api/handlers/templates.go\<close>.
    \<open>TemplateProps\<close>: what is checked before each call and what holds of all stored templates
    and of the sessions made from them.
  \<^item> \<open>Missions\<close>: \<open>internal/missions\<close> and \<open>cmd/api/handlers/missions.go\<close>.  \<open>MissionProps\<close>:
    what is checked before each call, stored missions and the costs attributed to runs.
  \<^item> \<open>JsonText\<close>: JSON as \<open>encoding/json\<close> writes it, with a decoder of strings.  \<open>Verify\<close>,
    \<open>VerifyHandlers\<close>: \<open>internal/verify\<close> and \<open>cmd/api/handlers/verify.go\<close>; \<open>VerifyProps\<close>: the suite of controls and
    the integrity of sealed records; \<open>VerifyClaims\<close>: what they are bound to; \<open>VerifyTools\<close>: the
    requests of \<open>sdk/mcp/verify.go\<close>.
  \<^item> \<open>EvidencePack\<close>, \<open>EvidenceClaims\<close>: \<open>internal/evidence\<close> and \<open>cmd/api/handlers/evidence.go\<close>, over the audit
    log of \<open>AuditScan\<close>.

  \<^bold>\<open>What the theorems show.\<close>  Safety of the boundary: no user path leaves its session, the guard
  confines every container, no packet leaves a sandbox before its firewall stands, sessions are
  served only to those who may see them, untrusted policies cannot inject rules, clean-up never
  takes the files of a session that is active.  Honesty of the records: an edited audit log is
  reported and an honest one never is, output is reported as written and without secrets, runs are
  accounted for, time is billed once.  Progress: draining a queue ends with all jobs done, an
  accepted job on Redis survives crashes, a webhook gives up.  A tool that needs approval runs only
  after its owner approved it, and a task that has ended stays as it is.  Where the code falls short of its
  own documentation, a lemma states the behaviour it has.

  \<^bold>\<open>Conventions.\<close>  A Go string is a list of bytes; errors are \<open>Inl\<close>; answers of the daemon, the
  database, the clock and of third-party code are arguments, often a record with a name ending in
  \<open>env\<close>.  Effects are lists of events in order, or a state record.  Machine integers are \<open>int\<close> with
  the wrap-around written out where a value can overflow (the memory limit of a sandbox); floating
  point is \<open>rat\<close> where only comparisons matter and is otherwise left out.  Times are microseconds, in
  \<open>Cost\<close> nanoseconds.  All loops of the model terminate: the recursion is structural, or has a
  measure (periods of a plan, attempts of a webhook, digits of a number, frames of a stream); no
  fuel is used.

  \<^bold>\<open>Not modelled.\<close>  Binding and encoding of JSON, HTTP plumbing, SSE and WebSocket framing, metrics
  and logging; the text of SQL statements except where their meaning matters; cryptography, Docker,
  Redis, Postgres and OPA themselves.  The local gateway is not modelled.  Of
  the MCP server the transport and the tools themselves are left out.  The
  frontend, the command line and the SDKs are clients of the API and stay out.
\<close>

end
